(* ===== verification/Crikey_Prelude.thy ===== *)
theory Crikey_Prelude
  imports Main "HOL-Library.Word" "HOL-Library.AList"
begin

text \<open>
  Shared vocabulary of the development: the machine integers of the Rust code and
  their saturating and checked operations, the size type \<open>usize\<close>, keyed tables
  (\<open>BTreeMap\<close>, \<open>HashMap\<close>) as association lists, text as the standard library
  treats it, and two interfaces that several components implement: a monotone clock and
  a bounded log that evicts its oldest entry.
\<close>

named_theorems frame_simps \<open>fields an operation leaves alone\<close>
named_theorems lookup_simps \<open>what a table holds after an update\<close>

section \<open>Machine integers\<close>

type_synonym u32 = "32 word"
type_synonym u64 = "64 word"
type_synonym millis = u64

text \<open>
  Rust's \<open>saturating_add\<close>, \<open>saturating_sub\<close> and \<open>checked_add\<close> on an unsigned
  integer of any width. \<open>- 1\<close> is the all-ones word, the type's \<open>MAX\<close>.
\<close>

definition sat_add :: "'a::len word \<Rightarrow> 'a word \<Rightarrow> 'a word" where
  "sat_add a b = (if unat a + unat b < 2 ^ LENGTH('a) then a + b else - 1)"

definition sat_sub :: "'a::len word \<Rightarrow> 'a word \<Rightarrow> 'a word" where
  "sat_sub a b = (if a < b then 0 else a - b)"

definition checked_add :: "'a::len word \<Rightarrow> 'a word \<Rightarrow> 'a word option" where
  "checked_add a b = (if unat a + unat b < 2 ^ LENGTH('a) then Some (a + b) else None)"

lemma unat_max_word: "unat (- 1 :: 'a::len word) = 2 ^ LENGTH('a) - 1"
  by (simp add: unsigned_minus_1_eq_mask mask_eq_exp_minus_1)

lemma unat_below: "unat a < 2 ^ LENGTH('a)" for a :: "'a::len word"
  by (rule unsigned_less)

lemma unat_le_max: "unat a \<le> 2 ^ LENGTH('a) - 1" for a :: "'a::len word"
  using unat_below [of a] by linarith

lemma unat_sat_add:
  "unat (sat_add a b) = min (unat a + unat b) (2 ^ LENGTH('a) - 1)" for a b :: "'a::len word"
  by (auto simp: sat_add_def unat_max_word unat_word_ariths)

lemma unat_sat_sub: "unat (sat_sub a b) = unat a - unat b"
  by (auto simp: sat_sub_def word_less_nat_alt unat_sub word_le_nat_alt not_less)

lemma unat_checked_add: "checked_add a b = Some c \<Longrightarrow> unat c = unat a + unat b"
  by (auto simp: checked_add_def unat_word_ariths split: if_splits)

lemma checked_add_one_None_iff: "checked_add a 1 = None \<longleftrightarrow> a = - 1" for a :: "'a::len word"
proof
  assume "checked_add a 1 = None"
  then have "2 ^ LENGTH('a) - 1 \<le> unat a"
    by (auto simp: checked_add_def split: if_splits)
  with unat_le_max [of a] have "unat a = unat (- 1 :: 'a word)"
    unfolding unat_max_word by (rule antisym)
  then show "a = - 1" by (rule word_unat_eq_iff [THEN iffD2])
qed (simp add: checked_add_def unat_max_word)

lemma sat_add_ge1 [simp]: "a \<le> sat_add a b"
  using unat_le_max [of a] by (simp add: word_le_nat_alt unat_sat_add)

lemma sat_add_ge2 [simp]: "b \<le> sat_add a b"
  using unat_le_max [of b] by (simp add: word_le_nat_alt unat_sat_add)

lemma sat_add_mono: "a \<le> a' \<Longrightarrow> b \<le> b' \<Longrightarrow> sat_add a b \<le> sat_add a' b'"
  by (auto simp: word_le_nat_alt unat_sat_add)

lemma sat_add_0 [simp]: "sat_add a 0 = a"
  using unat_below [of a] by (simp add: sat_add_def)

lemma sat_sub_le: "sat_sub a b \<le> a"
  by (simp add: word_le_nat_alt unat_sat_sub)

text \<open>Executable forms that stay within words: a wrapped sum is below its summands.\<close>

lemma no_overflow_iff: "unat a + unat b < 2 ^ LENGTH('a) \<longleftrightarrow> a \<le> a + b" for a b :: "'a::len word"
  by (metis no_olen_add_nat)

lemma sat_add_code [code]: "sat_add a b = (if a \<le> a + b then a + b else - 1)"
  by (simp add: sat_add_def no_overflow_iff)

lemma checked_add_code [code]: "checked_add a b = (if a \<le> a + b then Some (a + b) else None)"
  by (simp add: checked_add_def no_overflow_iff)

subsection \<open>Sizes\<close>

text \<open>
  \<open>usize\<close> on a 64-bit target. Sizes are lengths of in-memory sequences and configured
  capacities: they are natural numbers here, with the saturation and the overflow check
  written out where the code has them.
\<close>

definition usize_max :: nat where
  "usize_max = 2 ^ 64 - 1"

definition usize_sat_add :: "nat \<Rightarrow> nat \<Rightarrow> nat" where
  "usize_sat_add a b = min (a + b) usize_max"

definition usize_checked_add :: "nat \<Rightarrow> nat \<Rightarrow> nat option" where
  "usize_checked_add a b = (if a + b \<le> usize_max then Some (a + b) else None)"

lemma usize_checked_add_Some [simp]:
  "usize_checked_add a b = Some c \<longleftrightarrow> a + b = c \<and> c \<le> usize_max"
  by (auto simp: usize_checked_add_def)

lemma usize_checked_add_None [simp]: "usize_checked_add a b = None \<longleftrightarrow> usize_max < a + b"
  by (auto simp: usize_checked_add_def)

text \<open>A plain subtraction; \<open>None\<close> is the panic of an underflow.\<close>

definition usize_minus :: "nat \<Rightarrow> nat \<Rightarrow> nat option" where
  "usize_minus a b = (if b \<le> a then Some (a - b) else None)"

lemma usize_minus_Some [simp]: "usize_minus a b = Some c \<longleftrightarrow> b \<le> a \<and> a - b = c"
  by (auto simp: usize_minus_def)

lemma usize_minus_None [simp]: "usize_minus a b = None \<longleftrightarrow> a < b"
  by (auto simp: usize_minus_def)

text \<open>Executable forms on integers, whose numerals are binary.\<close>

lemma usize_sat_add_code [code]:
  "usize_sat_add a b = (if int (a + b) < 18446744073709551616 then a + b else usize_max)"
  by (auto simp: usize_sat_add_def usize_max_def)

lemma usize_checked_add_code [code]:
  "usize_checked_add a b = (if int (a + b) < 18446744073709551616 then Some (a + b) else None)"
  by (auto simp: usize_checked_add_def usize_max_def)

lemma fold_usize_sat_add:
  "n \<le> usize_max \<Longrightarrow>
   foldl (\<lambda>total x. usize_sat_add total (f x)) n xs = min (n + sum_list (map f xs)) usize_max"
proof (induction xs arbitrary: n)
  case (Cons x xs)
  have "usize_sat_add n (f x) \<le> usize_max" by (simp add: usize_sat_add_def)
  from Cons.IH [OF this] show ?case
    by (simp add: usize_sat_add_def min_def)
qed simp

text \<open>\<open>u64::try_from(len).unwrap_or(u64::MAX)\<close>.\<close>

definition u64_of_len :: "nat \<Rightarrow> u64" where
  "u64_of_len n = (if n < 2 ^ 64 then of_nat n else - 1)"

lemma u64_of_len_code [code]:
  "u64_of_len n = (if int n < 18446744073709551616 then of_nat n else - 1)"
  by (auto simp: u64_of_len_def)

section \<open>Keyed tables\<close>

text \<open>
  A \<open>BTreeMap\<close> or \<open>HashMap\<close> is an association list with distinct keys: \<open>map_of\<close> is
  \<open>get\<close>, \<open>AList.update\<close> is \<open>insert\<close>, \<open>AList.delete\<close> is \<open>remove\<close> and
  \<open>map snd\<close> is \<open>values\<close>. Where the code iterates over the values of a map it
  computes a sum, a minimum, a maximum or updates each value alone, so the order of the
  list (the order of insertion here) is not observable. \<open>adjust\<close> is
  \<open>if let Some(v) = map.get_mut(k) \<dots>\<close>.
\<close>

definition adjust :: "'k \<Rightarrow> ('v \<Rightarrow> 'v) \<Rightarrow> ('k \<times> 'v) list \<Rightarrow> ('k \<times> 'v) list" where
  "adjust k f m = map (\<lambda>(k', v). (k', if k' = k then f v else v)) m"

lemma keys_adjust [simp]: "map fst (adjust k f m) = map fst m"
  by (induction m) (auto simp: adjust_def)

lemma length_adjust [simp]: "length (adjust k f m) = length m"
  by (simp add: adjust_def)

lemma map_of_adjust [lookup_simps]:
  "map_of (adjust k f m) k' = (if k' = k then map_option f (map_of m k') else map_of m k')"
  by (induction m) (auto simp: adjust_def)

lemma map_of_update [lookup_simps]:
  "map_of (AList.update k v m) k' = (if k' = k then Some v else map_of m k')"
  by (simp add: update_conv')

lemma map_of_delete [lookup_simps]:
  "map_of (AList.delete k m) k' = (if k' = k then None else map_of m k')"
  by (simp add: delete_conv')

lemma adjust_absent: "map_of m k = None \<Longrightarrow> adjust k f m = m"
  by (induction m) (auto simp: adjust_def split: if_splits)

lemma adjust_adjust [simp]: "adjust k f (adjust k g m) = adjust k (f \<circ> g) m"
  by (induction m) (auto simp: adjust_def)

lemma sum_values_adjust:
  assumes "distinct (map fst m)" and "map_of m k = Some v"
  shows "(\<Sum>(_, x) \<leftarrow> adjust k f m. g x) + g v = (\<Sum>(_, x) \<leftarrow> m. g x) + (g (f v) :: nat)"
  using assms
proof (induction m)
  case (Cons kv m)
  obtain k' v' where kv: "kv = (k', v')" by (cases kv)
  show ?case
  proof (cases "k' = k")
    case True
    with Cons.prems kv have "map_of m k = None" and "v = v'"
      by (auto simp: map_of_eq_None_iff)
    then have "adjust k f m = m" by (simp add: adjust_absent)
    with True kv \<open>v = v'\<close> show ?thesis by (simp add: adjust_def)
  next
    case False
    with Cons.prems kv have "distinct (map fst m)" and "map_of m k = Some v" by auto
    from Cons.IH [OF this] False kv show ?thesis
      by (simp add: adjust_def)
  qed
qed simp

lemma update_absent: "k \<notin> fst ` set m \<Longrightarrow> AList.update k v m = m @ [(k, v)]"
  by (induction m) auto

lemma list_all_update: "list_all P m \<Longrightarrow> P (k, v) \<Longrightarrow> list_all P (AList.update k v m)"
  by (induction m) auto

lemma list_all_delete: "list_all P m \<Longrightarrow> list_all P (AList.delete k m)"
  by (induction m) auto

lemma sum_values_update_new:
  "map_of m k = None \<Longrightarrow> (\<Sum>(_, x) \<leftarrow> AList.update k v m. g x) = (\<Sum>(_, x) \<leftarrow> m. g x) + (g v :: nat)"
  by (induction m) (auto split: if_splits)

lemma sum_values_update_old:
  "distinct (map fst m) \<Longrightarrow> map_of m k = Some w \<Longrightarrow>
   (\<Sum>(_, x) \<leftarrow> AList.update k v m. g x) + g w = (\<Sum>(_, x) \<leftarrow> m. g x) + (g v :: nat)"
proof (induction m)
  case (Cons kv m)
  then show ?case by (cases kv) (auto split: if_splits)
qed simp

lemma sum_values_delete:
  "distinct (map fst m) \<Longrightarrow> map_of m k = Some w \<Longrightarrow>
   (\<Sum>(_, x) \<leftarrow> AList.delete k m. g x) + g w = (\<Sum>(_, x) \<leftarrow> m. g x :: nat)"
proof (induction m)
  case (Cons kv m)
  obtain k' v' where kv: "kv = (k', v')" by (cases kv)
  show ?case
  proof (cases "k' = k")
    case True
    with Cons.prems kv have k: "k \<notin> fst ` set m" and "w = v'" by auto
    from k have "AList.delete k m = m"
      by (force simp: AList.delete_eq intro!: filter_True)
    with True kv \<open>w = v'\<close> show ?thesis by (simp add: AList.delete_eq)
  next
    case False
    with Cons kv show ?thesis by (simp add: AList.delete_eq)
  qed
qed simp

lemma value_le_sum_values: "map_of m k = Some v \<Longrightarrow> g v \<le> (\<Sum>(_, x) \<leftarrow> m. g x :: nat)"
  by (induction m) (auto split: if_splits)

section \<open>Lists\<close>

lemma takeWhile_shorter: "p \<in> set xs \<Longrightarrow> length (takeWhile (\<lambda>q. q \<noteq> p) xs) < length xs"
  by (induction xs) auto

section \<open>Text\<close>

text \<open>
  A Rust string is a sequence of Unicode scalar values. The model covers the values
  \<open>U+0000\<close> to \<open>U+00FF\<close>, one \<open>char\<close> each: on them \<open>char::is_whitespace\<close>,
  \<open>str::to_lowercase\<close> and the UTF-8 length are written out exactly, and the set is
  closed under lower-casing.
\<close>

definition is_whitespace :: "char \<Rightarrow> bool" where
  "is_whitespace c =
     (let n = (of_char c :: nat) in (9 \<le> n \<and> n \<le> 13) \<or> n = 32 \<or> n = 133 \<or> n = 160)"

definition char_lower :: "char \<Rightarrow> char" where
  "char_lower c =
     (let n = (of_char c :: nat) in
      if (65 \<le> n \<and> n \<le> 90) \<or> (192 \<le> n \<and> n \<le> 222 \<and> n \<noteq> 215) then char_of (n + 32) else c)"

definition to_lowercase :: "string \<Rightarrow> string" where
  "to_lowercase = map char_lower"

definition trim :: "string \<Rightarrow> string" where
  "trim s = rev (dropWhile is_whitespace (rev (dropWhile is_whitespace s)))"

function split_whitespace :: "string \<Rightarrow> string list" where
  "split_whitespace s =
     (let t = dropWhile is_whitespace s in
      if t = [] then []
      else takeWhile (\<lambda>c. \<not> is_whitespace c) t
             # split_whitespace (dropWhile (\<lambda>c. \<not> is_whitespace c) t))"
  by pat_completeness auto
termination
proof (relation "measure length")
  fix s t assume t: "t = dropWhile is_whitespace s" and "t \<noteq> []"
  then obtain c t' where ct: "t = c # t'" and "\<not> is_whitespace c"
    by (metis hd_dropWhile list.exhaust_sel)
  then have "length (dropWhile (\<lambda>c. \<not> is_whitespace c) t) \<le> length t'"
    by (simp add: length_dropWhile_le)
  also have "\<dots> < length t" by (simp add: ct)
  also have "\<dots> \<le> length s" by (simp add: t length_dropWhile_le)
  finally show "(dropWhile (\<lambda>c. \<not> is_whitespace c) t, s) \<in> measure length" by simp
qed simp

declare split_whitespace.simps [simp del]

definition starts_with :: "string \<Rightarrow> string \<Rightarrow> bool" where
  "starts_with s p \<longleftrightarrow> take (length p) s = p"

definition utf8_len :: "string \<Rightarrow> nat" where
  "utf8_len s = sum_list (map (\<lambda>c. if (of_char c :: nat) < 128 then 1 else 2) s)"

lemma utf8_len_append [simp]: "utf8_len (s @ t) = utf8_len s + utf8_len t"
  by (simp add: utf8_len_def)

section \<open>Monotone clocks\<close>

text \<open>
  Two components keep the highest timestamp they have seen and use it in place of a
  timestamp that runs backwards. \<open>observe\<close> returns the state with the timestamp
  noted and the timestamp to use.
\<close>

locale monotone_clock =
  fixes observe :: "'s \<Rightarrow> millis \<Rightarrow> 's \<times> millis"
    and latest :: "'s \<Rightarrow> millis option"
  assumes observe_result:
      "snd (observe s now) = (case latest s of None \<Rightarrow> now | Some t \<Rightarrow> max t now)"
    and observe_latest: "latest (fst (observe s now)) = Some (snd (observe s now))"
begin

fun observe_all :: "'s \<Rightarrow> millis list \<Rightarrow> millis list" where
  "observe_all s [] = []"
| "observe_all s (t # ts) = snd (observe s t) # observe_all (fst (observe s t)) ts"

lemma observe_ge_now: "now \<le> snd (observe s now)"
  by (simp add: observe_result split: option.split)

lemma observe_ge_latest: "latest s = Some t \<Longrightarrow> t \<le> snd (observe s now)"
  by (simp add: observe_result)

lemma observe_all_ge: "latest s = Some t \<Longrightarrow> u \<in> set (observe_all s ts) \<Longrightarrow> t \<le> u"
proof (induction ts arbitrary: s t)
  case (Cons x ts)
  show ?case
  proof (cases "u = snd (observe s x)")
    case True
    with Cons.prems show ?thesis by (simp add: observe_ge_latest)
  next
    case False
    with Cons.prems have "u \<in> set (observe_all (fst (observe s x)) ts)" by simp
    from Cons.IH [OF observe_latest this] observe_ge_latest [OF Cons.prems(1)]
    show ?thesis by (rule order_trans [rotated])
  qed
qed simp

lemma observe_all_sorted: "sorted (observe_all s ts)"
  by (induction ts arbitrary: s) (auto dest: observe_all_ge [OF observe_latest])

end

section \<open>Bounded logs\<close>

text \<open>
  A log of at most \<open>cap\<close> entries, where \<open>cap\<close> is positive. Pushing onto a full log
  evicts its oldest entry.
\<close>

locale bounded_log =
  fixes entries :: "'s \<Rightarrow> 'e list"
    and cap :: "'s \<Rightarrow> nat"
    and push :: "'e \<Rightarrow> 's \<Rightarrow> 's"
  assumes push_cap: "cap (push e s) = cap s"
    and push_entries: "0 < cap s \<Longrightarrow> length (entries s) \<le> cap s \<Longrightarrow>
      entries (push e s) = drop (Suc (length (entries s)) - cap s) (entries s @ [e])"
begin

definition within :: "'s \<Rightarrow> bool" where
  "within s \<longleftrightarrow> 0 < cap s \<and> length (entries s) \<le> cap s"

lemma push_within: "within s \<Longrightarrow> within (push e s)"
  by (auto simp: within_def push_cap push_entries)

lemma fold_push_cap: "cap (fold push es s) = cap s"
  by (induction es arbitrary: s) (auto simp: push_cap)

lemma fold_push_within: "within s \<Longrightarrow> within (fold push es s)"
  by (induction es arbitrary: s) (auto simp: push_within)

text \<open>After any number of pushes the log is the newest \<open>cap\<close> entries, in order.\<close>

lemma fold_push_entries:
  assumes "within s"
  shows "entries (fold push es s)
    = drop (length (entries s) + length es - cap s) (entries s @ es)"
  using assms
proof (induction es arbitrary: s)
  case (Cons e es)
  note w = push_within [OF Cons.prems, of e]
  have ent: "entries (push e s) = drop (Suc (length (entries s)) - cap s) (entries s @ [e])"
    using Cons.prems by (simp add: within_def push_entries)
  show ?case
  proof (cases "length (entries s) < cap s")
    case True
    then have "entries (push e s) = entries s @ [e]" by (simp add: ent)
    with Cons.IH [OF w] show ?thesis by (simp add: push_cap)
  next
    case False
    with Cons.prems have full: "cap s = length (entries s)" by (simp add: within_def)
    obtain x xs where split: "entries s @ [e] = x # xs" by (cases "entries s @ [e]") auto
    then have xs: "length xs = cap s" using full
      by (metis One_nat_def add_Suc_right full length_Cons length_append list.size(3) nat.inject
          add_0_right)
    have e1: "entries (push e s) = xs" by (simp add: ent full split)
    have "entries (fold push es (push e s)) = drop (length es) (xs @ es)"
      using Cons.IH [OF w] by (simp add: e1 push_cap xs)
    also have "\<dots> = drop (Suc (length es)) ((entries s @ [e]) @ es)"
      by (simp only: split append_Cons drop_Suc_Cons)
    finally show ?thesis by (simp add: full)
  qed
qed (simp add: within_def)

end

end
