(* ===== verification/Generations.thy ===== *)
theory Generations
  imports Crikey_Prelude
begin

text \<open>
  Query generations: \<open>crates/crikey-core/src/generation.rs\<close> and the error type of
  \<open>crates/crikey-core/src/error.rs\<close>. A generation is the \<open>u64\<close> it wraps. The
  tracker's \<open>AtomicU64\<close> is read and written by single atomic operations, so every
  method is one transition of the tracker. The lemmas show that minted generations are
  strictly increasing, that exhaustion is reported and never wraps, and that every
  generation but the last one minted is stale.
\<close>

type_synonym generation = u64

datatype core_error =
    StaleGenerationError u64 u64
  | CancelledError
  | CapacityExceeded string
  | Invalid string

record generation_tracker =
  gt_current :: u64

definition generation_zero :: generation where
  "generation_zero = 0"

definition tracker_new :: generation_tracker where
  "tracker_new = \<lparr>gt_current = 0\<rparr>"

definition try_advance :: "generation_tracker \<Rightarrow> (core_error + generation) \<times> generation_tracker" where
  "try_advance t =
     (case checked_add (gt_current t) 1 of
        None \<Rightarrow> (Inl (CapacityExceeded ''query generations''), t)
      | Some next \<Rightarrow> (Inr (gt_current t + 1), t\<lparr>gt_current := next\<rparr>))"

text \<open>\<open>advance\<close> panics on exhaustion: \<open>None\<close>.\<close>

definition advance :: "generation_tracker \<Rightarrow> (generation \<times> generation_tracker) option" where
  "advance t = (case try_advance t of (Inl _, _) \<Rightarrow> None | (Inr g, t') \<Rightarrow> Some (g, t'))"

definition tracker_current :: "generation_tracker \<Rightarrow> generation" where
  "tracker_current t = gt_current t"

definition ensure_current :: "generation_tracker \<Rightarrow> generation \<Rightarrow> core_error + unit" where
  "ensure_current t g =
     (if g = tracker_current t then Inr () else Inl (StaleGenerationError g (tracker_current t)))"

definition is_current :: "generation_tracker \<Rightarrow> generation \<Rightarrow> bool" where
  "is_current t g \<longleftrightarrow> g = tracker_current t"

definition is_stale :: "generation_tracker \<Rightarrow> generation \<Rightarrow> bool" where
  "is_stale t g \<longleftrightarrow> \<not> is_current t g"

section \<open>Advancing\<close>

lemma word_inc_less: "a \<noteq> - 1 \<Longrightarrow> a < a + 1" for a :: u64
  by (metis checked_add_one_None_iff checked_add_def less_add_one option.simps(3) unat_1
      unat_add_lem word_less_nat_alt zero_less_one len_gt_0)

lemma try_advance_Inr_iff:
  "try_advance t = (Inr g, t') \<longleftrightarrow>
     gt_current t \<noteq> - 1 \<and> g = gt_current t + 1 \<and> t' = t\<lparr>gt_current := gt_current t + 1\<rparr>"
  using checked_add_one_None_iff [of "gt_current t"]
  by (auto simp: try_advance_def checked_add_def split: if_splits)

lemma try_advance_Inl_iff:
  "try_advance t = (Inl e, t') \<longleftrightarrow>
     gt_current t = - 1 \<and> e = CapacityExceeded ''query generations'' \<and> t' = t"
  using checked_add_one_None_iff [of "gt_current t"]
  by (auto simp: try_advance_def split: option.splits)

lemma advance_Some_iff:
  "advance t = Some (g, t') \<longleftrightarrow>
     gt_current t \<noteq> - 1 \<and> g = gt_current t + 1 \<and> t' = t\<lparr>gt_current := gt_current t + 1\<rparr>"
  by (auto simp: advance_def try_advance_Inr_iff try_advance_Inl_iff split: prod.splits sum.splits)

lemma advance_None_iff: "advance t = None \<longleftrightarrow> gt_current t = - 1"
  by (auto simp: advance_def try_advance_Inr_iff try_advance_Inl_iff split: prod.splits sum.splits)

lemma advance_increases: "advance t = Some (g, t') \<Longrightarrow> tracker_current t < g \<and> tracker_current t' = g"
  by (auto simp: advance_Some_iff tracker_current_def word_inc_less)

section \<open>Runs of calls\<close>

text \<open>The generations minted by \<open>n\<close> calls of \<open>try_advance\<close>, and the tracker after them.\<close>

fun mint :: "nat \<Rightarrow> generation_tracker \<Rightarrow> generation list \<times> generation_tracker" where
  "mint 0 t = ([], t)"
| "mint (Suc n) t =
     (case try_advance t of
        (Inl _, t') \<Rightarrow> mint n t'
      | (Inr g, t') \<Rightarrow> (let (gs, t'') = mint n t' in (g # gs, t'')))"

lemma mint_Suc_cases:
  assumes "mint (Suc n) t = (gs, t')"
  obtains "gt_current t = - 1" and "mint n t = (gs, t')"
  | hs where "gt_current t \<noteq> - 1" and "gs = (gt_current t + 1) # hs"
      and "mint n (t\<lparr>gt_current := gt_current t + 1\<rparr>) = (hs, t')"
  using assms
  by (auto split: prod.splits sum.splits simp: try_advance_Inr_iff try_advance_Inl_iff)

lemma mint_mono: "mint n t = (gs, t') \<Longrightarrow> gt_current t \<le> gt_current t'"
proof (induction n arbitrary: t gs t')
  case (Suc n)
  from Suc.prems show ?case
  proof (cases rule: mint_Suc_cases)
    case (2 hs)
    from Suc.IH [OF 2(3)] word_inc_less [OF 2(1)] show ?thesis by simp
  qed (rule Suc.IH)
qed auto

lemma mint_bounds: "mint n t = (gs, t') \<Longrightarrow> g \<in> set gs \<Longrightarrow> gt_current t < g"
proof (induction n arbitrary: t gs t')
  case (Suc n)
  from Suc.prems(1) show ?case
  proof (cases rule: mint_Suc_cases)
    case (2 hs)
    from Suc.prems(2) 2(2) consider "g = gt_current t + 1" | "g \<in> set hs" by auto
    then show ?thesis
    proof cases
      case 1
      with word_inc_less [OF 2(1)] show ?thesis by simp
    next
      case 2
      with Suc.IH [OF \<open>mint n _ = _\<close>] word_inc_less [OF \<open>gt_current t \<noteq> - 1\<close>]
      show ?thesis by (auto intro: less_trans)
    qed
  qed (use Suc in blast)
qed auto

lemma mint_sorted: "mint n t = (gs, t') \<Longrightarrow> sorted_wrt (<) gs"
proof (induction n arbitrary: t gs t')
  case (Suc n)
  from Suc.prems show ?case
  proof (cases rule: mint_Suc_cases)
    case (2 hs)
    from Suc.IH [OF 2(3)] mint_bounds [OF 2(3)] 2(2) show ?thesis by auto
  qed (rule Suc.IH)
qed auto

lemma mint_empty: "mint n t = ([], t') \<Longrightarrow> t' = t"
proof (induction n)
  case (Suc n)
  from Suc.prems show ?case
    by (cases rule: mint_Suc_cases) (use Suc.IH in auto)
qed auto

lemma mint_last_current: "mint n t = (gs, t') \<Longrightarrow> gs \<noteq> [] \<Longrightarrow> gt_current t' = last gs"
proof (induction n arbitrary: t gs t')
  case (Suc n)
  from Suc.prems(1) show ?case
  proof (cases rule: mint_Suc_cases)
    case (2 hs)
    show ?thesis
    proof (cases "hs = []")
      case True
      with 2(3) have "t' = t\<lparr>gt_current := gt_current t + 1\<rparr>" by (auto dest: mint_empty)
      with 2(2) True show ?thesis by simp
    next
      case False
      with Suc.IH [OF 2(3)] 2(2) show ?thesis by simp
    qed
  qed (use Suc in auto)
qed auto

text \<open>
  However often \<open>try_advance\<close> is called, the generations it mints are strictly
  increasing and larger than the generation the tracker started at, and afterwards
  \<open>ensure_current\<close> accepts exactly the last of them: every older one is answered with
  the typed stale error naming both generations.
\<close>

theorem minted_generations_fresh:
  assumes "mint n t = (gs, t')"
  shows "sorted_wrt (<) gs \<and> list_all (\<lambda>g. tracker_current t < g) gs
    \<and> list_all (\<lambda>g. ensure_current t' g
         = (if g = last gs then Inr () else Inl (StaleGenerationError g (last gs)))) gs"
proof -
  have "list_all (\<lambda>g. tracker_current t < g) gs"
    using mint_bounds [OF assms] by (simp add: list_all_iff tracker_current_def)
  moreover have "tracker_current t' = last gs" if "gs \<noteq> []"
    using mint_last_current [OF assms that] by (simp add: tracker_current_def)
  then have "list_all (\<lambda>g. ensure_current t' g
      = (if g = last gs then Inr () else Inl (StaleGenerationError g (last gs)))) gs"
    by (cases "gs = []") (auto simp: list_all_iff ensure_current_def)
  ultimately show ?thesis
    using mint_sorted [OF assms] by simp
qed

theorem minted_generations_fresh_witness:
  "mint (Suc (Suc 0)) tracker_new = ([1, 2], \<lparr>gt_current = 2\<rparr>)
   \<and> ensure_current \<lparr>gt_current = 2\<rparr> 1 = Inl (StaleGenerationError 1 2)"
proof -
  have m: "mint (Suc (Suc 0)) tracker_new = ([1, 2], \<lparr>gt_current = 2\<rparr>)"
    by (simp add: tracker_new_def try_advance_def checked_add_def)
  from minted_generations_fresh [OF m] m show ?thesis by simp
qed

end
