(* ===== verification/Debounce.thy ===== *)
theory Debounce
  imports Generations
begin

text \<open>
  The modern debouncer: \<open>crates/crikey-input-scheduler/src/debounce.rs\<close>. Its state is
  the record \<open>debouncer\<close>; \<open>on_query\<close> and \<open>on_timer\<close> return the new state and
  the decision, or \<open>None\<close> where \<open>dispatch\<close> would panic for want of a pending
  query. The lemmas show that the panic is unreachable, that a promised deadline is kept
  exactly, that continuous typing cannot postpone a dispatch past the maximum wait, and
  that only the newest query survives.
\<close>

record debounce_policy =
  debounce_ms :: millis
  maximum_wait_ms :: "millis option"
  leading_edge :: bool
  trailing_edge :: bool
  minimum_query_length :: nat

definition default_debounce_policy :: debounce_policy where
  "default_debounce_policy =
     \<lparr>debounce_ms = 50, maximum_wait_ms = Some 200, leading_edge = True,
      trailing_edge = True, minimum_query_length = 0\<rparr>"

datatype dispatch = DispatchNow generation | DispatchAt millis | DispatchIdle

record debouncer =
  db_policy :: debounce_policy
  db_pending :: "generation option"
  db_burst_started :: "millis option"
  db_last_change :: millis
  db_last_dispatch :: "millis option"
  db_last_observed :: "millis option"

definition debouncer_new :: "debounce_policy \<Rightarrow> debouncer" where
  "debouncer_new policy =
     \<lparr>db_policy = policy, db_pending = None, db_burst_started = None, db_last_change = 0,
      db_last_dispatch = None, db_last_observed = None\<rparr>"

definition db_observe :: "debouncer \<Rightarrow> millis \<Rightarrow> debouncer \<times> millis" where
  "db_observe d now =
     (let now = (case db_last_observed d of None \<Rightarrow> now | Some t \<Rightarrow> max t now)
      in (d\<lparr>db_last_observed := Some now\<rparr>, now))"

definition db_reset :: "debouncer \<Rightarrow> debouncer" where
  "db_reset d = d\<lparr>db_pending := None, db_burst_started := None, db_last_dispatch := None\<rparr>"

definition db_dispatch :: "debouncer \<Rightarrow> millis \<Rightarrow> bool \<Rightarrow> (debouncer \<times> dispatch) option" where
  "db_dispatch d now reset_burst =
     (case db_pending d of
        None \<Rightarrow> None
      | Some g \<Rightarrow>
          (let d = d\<lparr>db_pending := None\<rparr>;
               d = (if reset_burst then d\<lparr>db_burst_started := None\<rparr> else d)
           in Some (d\<lparr>db_last_dispatch := Some now\<rparr>, DispatchNow g)))"

definition db_on_query ::
  "debouncer \<Rightarrow> millis \<Rightarrow> generation \<Rightarrow> nat \<Rightarrow> (debouncer \<times> dispatch) option" where
  "db_on_query d now g query_len =
     (let (d, now) = db_observe d now; policy = db_policy d in
      if query_len < minimum_query_length policy then Some (db_reset d, DispatchIdle)
      else if \<not> leading_edge policy \<and> \<not> trailing_edge policy then
        Some (d\<lparr>db_pending := None, db_burst_started := None\<rparr>, DispatchIdle)
      else if \<not> trailing_edge policy \<and> db_last_dispatch d \<noteq> None then
        Some (d\<lparr>db_pending := None\<rparr>, DispatchIdle)
      else
        let d = (if db_pending d = None \<and> db_burst_started d \<noteq> None
                   \<and> (case db_last_dispatch d of None \<Rightarrow> False
                       | Some prev \<Rightarrow> debounce_ms policy \<le> sat_sub now prev)
                 then d\<lparr>db_burst_started := None\<rparr> else d);
            d = d\<lparr>db_pending := Some g, db_last_change := now\<rparr>;
            burst_start = (case db_burst_started d of None \<Rightarrow> now | Some b \<Rightarrow> b);
            d = d\<lparr>db_burst_started := Some burst_start\<rparr>
        in if leading_edge policy \<and> db_last_dispatch d = None then db_dispatch d now False
           else if \<not> trailing_edge policy then Some (d\<lparr>db_pending := None\<rparr>, DispatchIdle)
           else
             let trailing_at = sat_add now (debounce_ms policy)
             in Some (d, DispatchAt (case maximum_wait_ms policy of
                  None \<Rightarrow> trailing_at
                | Some w \<Rightarrow> min trailing_at (sat_add burst_start w))))"

definition db_on_timer :: "debouncer \<Rightarrow> millis \<Rightarrow> (debouncer \<times> dispatch) option" where
  "db_on_timer d now =
     (let (d, now) = db_observe d now; policy = db_policy d in
      if \<not> trailing_edge policy then Some (d\<lparr>db_pending := None\<rparr>, DispatchIdle)
      else if db_pending d = None then Some (d, DispatchIdle)
      else
        let trailing_ready = sat_add (db_last_change d) (debounce_ms policy) \<le> now;
            max_wait_ready = (case (maximum_wait_ms policy, db_burst_started d) of
                (Some w, Some start) \<Rightarrow> sat_add start w \<le> now
              | _ \<Rightarrow> False)
        in if trailing_ready \<or> max_wait_ready then db_dispatch d now True
           else
             let trailing_at = sat_add (db_last_change d) (debounce_ms policy)
             in Some (d, DispatchAt (case (maximum_wait_ms policy, db_burst_started d) of
                  (Some w, Some start) \<Rightarrow> min trailing_at (sat_add start w)
                | _ \<Rightarrow> trailing_at)))"

section \<open>The clock\<close>

interpretation db_clock: monotone_clock db_observe db_last_observed
  by unfold_locales (auto simp: db_observe_def Let_def split: option.split)

lemma db_observe_fields [frame_simps]:
  "db_policy (fst (db_observe d now)) = db_policy d"
  "db_pending (fst (db_observe d now)) = db_pending d"
  "db_burst_started (fst (db_observe d now)) = db_burst_started d"
  "db_last_change (fst (db_observe d now)) = db_last_change d"
  "db_last_dispatch (fst (db_observe d now)) = db_last_dispatch d"
  by (simp_all add: db_observe_def Let_def)

section \<open>Invariant\<close>

text \<open>
  A query is retained only under a policy that can still dispatch it on the trailing
  edge and not while the leading edge could have taken it, its burst is dated, and no
  recorded time is later than the last one observed.
\<close>

definition db_inv :: "debouncer \<Rightarrow> bool" where
  "db_inv d \<longleftrightarrow>
     (db_pending d \<noteq> None \<longrightarrow>
        trailing_edge (db_policy d)
      \<and> (leading_edge (db_policy d) \<longrightarrow> db_last_dispatch d \<noteq> None)
      \<and> (\<exists>b t. db_burst_started d = Some b \<and> db_last_observed d = Some t
              \<and> b \<le> db_last_change d \<and> db_last_change d \<le> t))
   \<and> (\<forall>b. db_burst_started d = Some b \<longrightarrow>
        (\<exists>t. db_last_observed d = Some t \<and> b \<le> t))"

text \<open>The moment at which the retained query is due.\<close>

definition db_deadline :: "debouncer \<Rightarrow> millis" where
  "db_deadline d =
     (let trailing_at = sat_add (db_last_change d) (debounce_ms (db_policy d)) in
      case (maximum_wait_ms (db_policy d), db_burst_started d) of
        (Some w, Some b) \<Rightarrow> min trailing_at (sat_add b w)
      | _ \<Rightarrow> trailing_at)"

lemma db_inv_new: "db_inv (debouncer_new policy)"
  by (simp add: db_inv_def debouncer_new_def)

lemma db_inv_reset: "db_inv d \<Longrightarrow> db_inv (db_reset d)"
  by (simp add: db_inv_def db_reset_def)

lemma db_observe_eq:
  obtains t where "db_observe d now = (d\<lparr>db_last_observed := Some t\<rparr>, t)" and "now \<le> t"
    and "\<forall>u. db_last_observed d = Some u \<longrightarrow> u \<le> t"
  by (rule that [of "snd (db_observe d now)"])
    (auto simp: db_observe_def Let_def split: option.split)

lemma db_inv_observe: "db_inv d \<Longrightarrow> db_inv (fst (db_observe d now))"
  by (rule db_observe_eq [of d now]) (fastforce simp: db_inv_def)

lemma db_inv_on_query:
  assumes "db_inv d" and "db_on_query d now g n = Some (d', r)"
  shows "db_inv d'"
proof (rule db_observe_eq [of d now])
  fix t assume obs: "db_observe d now = (d\<lparr>db_last_observed := Some t\<rparr>, t)"
    and late: "\<forall>u. db_last_observed d = Some u \<longrightarrow> u \<le> t"
  from assms(1) late have "\<forall>b. db_burst_started d = Some b \<longrightarrow> b \<le> t"
    by (fastforce simp: db_inv_def)
  with assms(2) show ?thesis
    by (auto simp: db_on_query_def obs Let_def db_inv_def db_reset_def db_dispatch_def
        split: if_splits option.splits)
qed

lemma db_on_query_Some: "\<exists>d' r. db_on_query d now g n = Some (d', r)"
  by (simp add: db_on_query_def db_dispatch_def Let_def split: prod.split)

lemma db_on_timer_Some: "\<exists>d' r. db_on_timer d now = Some (d', r)"
  by (auto simp: db_on_timer_def db_dispatch_def Let_def split: prod.split option.split)

section \<open>Deadlines\<close>

lemma db_on_query_At:
  assumes "db_on_query d now g n = Some (d', DispatchAt t)"
  shows "db_pending d' = Some g \<and> db_deadline d' = t \<and> trailing_edge (db_policy d')
    \<and> db_last_observed d' = Some (db_last_change d') \<and> db_policy d' = db_policy d"
proof (rule db_observe_eq [of d now])
  fix u assume "db_observe d now = (d\<lparr>db_last_observed := Some u\<rparr>, u)"
  with assms show ?thesis
    by (cases "maximum_wait_ms (db_policy d)"; cases "db_burst_started d")
      (auto simp: db_on_query_def Let_def db_reset_def db_dispatch_def db_deadline_def
        split: if_splits)
qed

lemma db_on_timer_pending:
  assumes "db_pending d = Some g" and "trailing_edge (db_policy d)"
    and "db_observe d now = (d1, u)"
  shows "db_on_timer d now
    = (if db_deadline d \<le> u
       then Some (d1\<lparr>db_pending := None, db_burst_started := None, db_last_dispatch := Some u\<rparr>,
                  DispatchNow g)
       else Some (d1, DispatchAt (db_deadline d)))"
proof -
  have "db_policy d1 = db_policy d" and "db_pending d1 = Some g"
    and "db_burst_started d1 = db_burst_started d" and "db_last_change d1 = db_last_change d"
    using db_observe_fields [of d now] assms by simp_all
  with assms show ?thesis
    by (auto simp: db_on_timer_def db_dispatch_def db_deadline_def Let_def min_le_iff_disj
        split: option.splits)
qed

lemma db_inv_on_timer:
  assumes inv: "db_inv d" and step: "db_on_timer d now = Some (d', r)"
  shows "db_inv d'"
proof (cases "db_pending d")
  case None
  with step have "d' = fst (db_observe d now) \<or> d' = (fst (db_observe d now))\<lparr>db_pending := None\<rparr>"
    by (auto simp: db_on_timer_def db_observe_fields Let_def case_prod_beta split: if_splits)
  with db_inv_observe [OF inv, of now] show ?thesis by (auto simp: db_inv_def)
next
  case (Some g)
  with inv have "trailing_edge (db_policy d)" by (simp add: db_inv_def)
  from db_on_timer_pending [OF Some this prod.collapse [symmetric]] step
  have "d' = fst (db_observe d now)
      \<or> d' = (fst (db_observe d now))\<lparr>db_pending := None, db_burst_started := None,
               db_last_dispatch := Some (snd (db_observe d now))\<rparr>"
    by (auto split: if_splits)
  with db_inv_observe [OF inv, of now] show ?thesis by (auto simp: db_inv_def)
qed

text \<open>
  The debouncer keeps the deadline it promises. When a query change is answered with
  \<open>DispatchAt t\<close>, a later timer call dispatches exactly that query once the observed
  time has reached \<open>t\<close>, and before it repeats the same deadline \<open>t\<close>; an early or a
  backwards timestamp neither loses nor moves it.
\<close>

theorem debounce_deadline_kept:
  assumes "db_on_query d now g n = Some (d', DispatchAt t)"
  shows "map_option snd (db_on_timer d' now')
    = Some (if t \<le> max (db_last_change d') now' then DispatchNow g else DispatchAt t)"
proof -
  note at = db_on_query_At [OF assms]
  have u: "snd (db_observe d' now') = max (db_last_change d') now'"
    using at by (simp add: db_clock.observe_result)
  obtain d1 where obs: "db_observe d' now' = (d1, max (db_last_change d') now')"
    using u by (cases "db_observe d' now'") simp
  from at have "db_pending d' = Some g" and "trailing_edge (db_policy d')" by auto
  from db_on_timer_pending [OF this obs] at show ?thesis by simp
qed

theorem debounce_deadline_kept_witness:
  "map_option snd (db_on_timer
      ((debouncer_new (default_debounce_policy\<lparr>leading_edge := False\<rparr>))
         \<lparr>db_pending := Some 1, db_burst_started := Some 100, db_last_change := 100,
          db_last_observed := Some 100\<rparr>) 149) = Some (DispatchAt 150)"
proof -
  let ?d = "debouncer_new (default_debounce_policy\<lparr>leading_edge := False\<rparr>)"
  have q: "db_on_query ?d 100 1 1
    = Some (?d\<lparr>db_pending := Some 1, db_burst_started := Some 100, db_last_change := 100,
               db_last_observed := Some 100\<rparr>, DispatchAt 150)"
    by (simp add: db_on_query_def db_observe_def debouncer_new_def default_debounce_policy_def
        sat_add_def Let_def)
  from debounce_deadline_kept [OF q, of 149] show ?thesis by simp
qed

section \<open>Continuous typing\<close>

text \<open>Query changes and timer calls one after the other, with the answer to each.\<close>

datatype db_event = DbQuery millis generation nat | DbTimer millis

fun db_step :: "debouncer \<Rightarrow> db_event \<Rightarrow> (debouncer \<times> dispatch) option" where
  "db_step d (DbQuery now g n) = db_on_query d now g n"
| "db_step d (DbTimer now) = db_on_timer d now"

fun db_events :: "debouncer \<Rightarrow> db_event list \<Rightarrow> (debouncer \<times> dispatch list) option" where
  "db_events d [] = Some (d, [])"
| "db_events d (e # es) =
     (case db_step d e of
        None \<Rightarrow> None
      | Some (d', r) \<Rightarrow> map_option (\<lambda>(d'', rs). (d'', r # rs)) (db_events d' es))"

fun admissible_event :: "debounce_policy \<Rightarrow> db_event \<Rightarrow> bool" where
  "admissible_event policy (DbQuery now g n) = (minimum_query_length policy \<le> n)"
| "admissible_event policy (DbTimer now) = True"

text \<open>The newest query, when \<open>h\<close> is the one retained before the events.\<close>

fun newest_query :: "generation \<Rightarrow> db_event list \<Rightarrow> generation" where
  "newest_query h [] = h"
| "newest_query h (DbQuery now g n # es) = newest_query g es"
| "newest_query h (DbTimer now # es) = newest_query h es"

lemma db_events_total: "\<exists>d' rs. db_events d es = Some (d', rs)"
proof (induction es arbitrary: d)
  case (Cons e es)
  obtain d1 r where "db_step d e = Some (d1, r)"
    using db_on_query_Some db_on_timer_Some by (cases e) fastforce+
  with Cons.IH [of d1] show ?case by auto
qed simp

lemma db_on_query_policy: "db_on_query d now g n = Some (d', r) \<Longrightarrow> db_policy d' = db_policy d"
  by (auto simp: db_on_query_def db_observe_def db_reset_def db_dispatch_def Let_def split: if_splits option.splits)

lemma db_on_timer_policy: "db_on_timer d now = Some (d', r) \<Longrightarrow> db_policy d' = db_policy d"
  by (auto simp: db_on_timer_def db_observe_def db_dispatch_def Let_def split: if_splits option.splits)

lemma db_step_inv:
  "db_inv d \<Longrightarrow> db_step d e = Some (d', r) \<Longrightarrow> db_inv d' \<and> db_policy d' = db_policy d"
  by (cases e) (auto dest: db_inv_on_query db_inv_on_timer db_on_query_policy db_on_timer_policy)

lemma db_events_inv:
  "db_inv d \<Longrightarrow> db_events d es = Some (d', rs) \<Longrightarrow> db_inv d' \<and> db_policy d' = db_policy d"
  by (induction d es arbitrary: d' rs rule: db_events.induct)
    (fastforce dest: db_step_inv split: option.splits)+

lemma db_on_query_retained:
  assumes "db_inv d" and "db_pending d = Some h" and "db_burst_started d = Some b"
    and "minimum_query_length (db_policy d) \<le> n"
  shows "\<exists>d' t. db_on_query d now g n = Some (d', DispatchAt t)
    \<and> db_pending d' = Some g \<and> db_burst_started d' = Some b"
  using assms
  by (auto simp: db_on_query_def db_inv_def Let_def db_observe_def split: option.splits)

lemma db_deadline_wait:
  "db_burst_started d = Some b \<Longrightarrow> maximum_wait_ms (db_policy d) = Some w \<Longrightarrow> db_deadline d \<le> sat_add b w"
  by (simp add: db_deadline_def Let_def)

text \<open>One admissible event, while a query is retained.\<close>

lemma db_step_retained:
  assumes inv: "db_inv d" and pending: "db_pending d = Some h" and burst: "db_burst_started d = Some b"
    and wait: "maximum_wait_ms (db_policy d) = Some w" and ok: "admissible_event (db_policy d) e"
  shows "\<exists>d' r. db_step d e = Some (d', r) \<and> ((\<exists>g. r = DispatchNow g)
    \<or> (\<exists>t. r = DispatchAt t \<and> t \<le> sat_add b w) \<and> db_pending d' = Some (newest_query h [e]) \<and> db_burst_started d' = Some b)"
proof (cases e)
  case (DbQuery now g n)
  with db_on_query_retained [OF inv pending burst, of n now g] ok obtain d' t where
    q: "db_on_query d now g n = Some (d', DispatchAt t)" "db_pending d' = Some g" "db_burst_started d' = Some b" by auto
  have "t \<le> sat_add b w"
    using db_on_query_At [OF q(1)] db_deadline_wait [OF q(3), of w] wait by simp
  with DbQuery q show ?thesis by simp
next
  case (DbTimer now)
  obtain d1 u where obs: "db_observe d now = (d1, u)" by fastforce
  have "trailing_edge (db_policy d)" using inv pending by (simp add: db_inv_def)
  note timer = db_on_timer_pending [OF pending this obs]
  have "db_pending d1 = Some h" "db_burst_started d1 = Some b"
    using db_observe_fields [of d now] obs pending burst by simp_all
  with DbTimer timer db_deadline_wait [OF burst wait] show ?thesis by auto
qed

lemma db_events_retained:
  assumes "db_inv d" and "db_pending d = Some h" and "db_burst_started d = Some b"
    and "maximum_wait_ms (db_policy d) = Some w" and "list_all (admissible_event (db_policy d)) es"
  shows "\<exists>d' rs. db_events d es = Some (d', rs) \<and> ((\<exists>g. DispatchNow g \<in> set rs)
    \<or> (\<forall>r \<in> set rs. \<exists>t. r = DispatchAt t \<and> t \<le> sat_add b w)
      \<and> db_pending d' = Some (newest_query h es) \<and> db_burst_started d' = Some b)"
  using assms
proof (induction es arbitrary: d h)
  case (Cons e es)
  obtain d1 r where step: "db_step d e = Some (d1, r)" and r: "(\<exists>g. r = DispatchNow g)
    \<or> (\<exists>t. r = DispatchAt t \<and> t \<le> sat_add b w) \<and> db_pending d1 = Some (newest_query h [e]) \<and> db_burst_started d1 = Some b"
    using db_step_retained [OF Cons.prems(1-4), of e] Cons.prems(5) by auto
  have inv: "db_inv d1" "db_policy d1 = db_policy d" using db_step_inv [OF Cons.prems(1) step] by simp_all
  show ?case
  proof (cases "\<exists>g. r = DispatchNow g")
    case True
    obtain d' rs where "db_events d1 es = Some (d', rs)" using db_events_total by blast
    with step True show ?thesis by auto
  next
    case False
    have newest: "newest_query (newest_query h [e]) es = newest_query h (e # es)" by (cases e) simp_all
    from False r Cons.IH [OF inv(1), of "newest_query h [e]"] Cons.prems(4,5) inv(2) step newest show ?thesis by auto
  qed
qed simp

text \<open>
  C36: continuous typing cannot starve a plugin. Whatever a debouncer has been through, once
  it retains a query in a burst that began at \<open>b\<close>, let any further admissible query changes
  and timer calls follow, however many and however fast. Unless one of them dispatches,
  every answer is a wake-up time no later than \<open>b\<close> plus the policy's maximum wait, and a
  timer call at or after that moment dispatches the newest query.
\<close>

theorem debounce_maximum_wait:
  assumes "db_events (debouncer_new policy) past = Some (d, answers)"
    and "db_pending d = Some h" and "db_burst_started d = Some b"
    and "maximum_wait_ms policy = Some w" and "list_all (admissible_event policy) es"
  shows "\<exists>d' rs. db_events d es = Some (d', rs) \<and> ((\<exists>g. DispatchNow g \<in> set rs)
    \<or> (\<forall>r \<in> set rs. \<exists>t. r = DispatchAt t \<and> t \<le> sat_add b w)
      \<and> (sat_add b w \<le> now \<longrightarrow> map_option snd (db_on_timer d' now) = Some (DispatchNow (newest_query h es))))"
proof -
  have inv: "db_inv d" "db_policy d = policy"
    using db_events_inv [OF db_inv_new assms(1)] by (simp_all add: debouncer_new_def)
  obtain d' rs where run: "db_events d es = Some (d', rs)" and r: "(\<exists>g. DispatchNow g \<in> set rs)
    \<or> (\<forall>r \<in> set rs. \<exists>t. r = DispatchAt t \<and> t \<le> sat_add b w)
      \<and> db_pending d' = Some (newest_query h es) \<and> db_burst_started d' = Some b"
    using db_events_retained [OF inv(1) assms(2,3)] assms(4,5) inv(2) by blast
  have inv': "db_inv d'" "db_policy d' = policy" using db_events_inv [OF inv(1) run] inv(2) by simp_all
  have "map_option snd (db_on_timer d' now) = Some (DispatchNow (newest_query h es))"
    if late: "sat_add b w \<le> now" and p: "db_pending d' = Some (newest_query h es)" "db_burst_started d' = Some b"
  proof -
    obtain d1 u where obs: "db_observe d' now = (d1, u)" and u: "now \<le> u" by (rule db_observe_eq [of d' now])
    have "trailing_edge (db_policy d')" using inv'(1) p(1) by (simp add: db_inv_def)
    from db_on_timer_pending [OF p(1) this obs] db_deadline_wait [OF p(2)] assms(4) inv'(2) late u
    show ?thesis by (auto dest: order_trans)
  qed
  with run r show ?thesis by blast
qed

definition demo_burst :: debouncer where
  "demo_burst = (debouncer_new (default_debounce_policy\<lparr>leading_edge := False\<rparr>))
     \<lparr>db_pending := Some 1, db_burst_started := Some 100, db_last_change := 100, db_last_observed := Some 100\<rparr>"

theorem debounce_maximum_wait_witness:
  "\<exists>d' rs. db_events demo_burst [DbQuery 140 2 1, DbTimer 150, DbQuery 180 3 1, DbQuery 225 4 2, DbQuery 270 5 2] = Some (d', rs)
    \<and> rs = [DispatchAt 190, DispatchAt 190, DispatchAt 230, DispatchAt 275, DispatchAt 300]
    \<and> map_option snd (db_on_timer d' 300) = Some (DispatchNow 5)"
proof -
  let ?policy = "default_debounce_policy\<lparr>leading_edge := False\<rparr>"
  let ?es = "[DbQuery 140 2 1, DbTimer 150, DbQuery 180 3 1, DbQuery 225 4 2, DbQuery 270 5 2]"
  have past: "db_events (debouncer_new ?policy) [DbQuery 100 1 1] = Some (demo_burst, [DispatchAt 150])"
    by (simp add: db_on_query_def db_observe_def debouncer_new_def default_debounce_policy_def demo_burst_def
        sat_add_def Let_def)
  have burst: "db_pending demo_burst = Some 1" "db_burst_started demo_burst = Some 100"
    and wait: "maximum_wait_ms ?policy = Some 200" and ok: "list_all (admissible_event ?policy) ?es"
    by (simp_all add: demo_burst_def default_debounce_policy_def)
  have "map_option snd (db_events demo_burst ?es)
      = Some [DispatchAt 190, DispatchAt 190, DispatchAt 230, DispatchAt 275, DispatchAt 300]" by code_simp
  then obtain d' where run: "db_events demo_burst ?es
      = Some (d', [DispatchAt 190, DispatchAt 190, DispatchAt 230, DispatchAt 275, DispatchAt 300])" by auto
  have "sat_add 100 200 = (300 :: millis)" by (simp add: sat_add_def)
  with debounce_maximum_wait [OF past burst wait ok, of 300] run show ?thesis by simp
qed

section \<open>Edges\<close>

text \<open>
  The leading edge. A query that makes the plugin newly relevant is dispatched on the
  spot under a leading-edge policy, and under a leading-only policy every later query
  is dropped without leaving a pending request that no timer could wake.
\<close>

theorem debounce_leading_edge:
  assumes "leading_edge (db_policy d)" and "minimum_query_length (db_policy d) \<le> n"
    and "db_inv d"
  shows "\<exists>d' r. db_on_query d now g n = Some (d', r)
    \<and> (db_last_dispatch d = None \<longrightarrow> r = DispatchNow g \<and> db_pending d' = None)
    \<and> (\<not> trailing_edge (db_policy d) \<longrightarrow> db_pending d' = None)
    \<and> (\<not> trailing_edge (db_policy d) \<and> db_last_dispatch d \<noteq> None \<longrightarrow> r = DispatchIdle)"
  using assms
  by (auto simp: db_on_query_def db_observe_def Let_def db_dispatch_def split: option.split)

theorem debounce_leading_edge_witness:
  "\<exists>d' r. db_on_query (debouncer_new default_debounce_policy) 7 1 3 = Some (d', r)
    \<and> r = DispatchNow 1 \<and> db_pending d' = None"
proof -
  have "leading_edge (db_policy (debouncer_new default_debounce_policy))"
    and "minimum_query_length (db_policy (debouncer_new default_debounce_policy)) \<le> 3"
    by (simp_all add: debouncer_new_def default_debounce_policy_def)
  from debounce_leading_edge [OF this db_inv_new, of 7 1] show ?thesis
    by (auto simp: debouncer_new_def)
qed

end
