(* ===== verification/Obsolete_Work.thy ===== *)
theory Obsolete_Work
  imports Generations
begin

text \<open>
  The serial dispatcher of one legacy plugin instance:
  \<open>crates/crikey-input-scheduler/src/legacy.rs\<close>. The methods are transitions of the
  record \<open>obsolete_work_manager\<close>; \<open>owm_step\<close> runs one of them and yields what it
  returns. The lemmas show that callbacks never overlap, that the running callback is
  told to stop exactly when something newer happened, and that only the newest query
  waits.
\<close>

datatype legacy_dispatch =
    LegacyNow generation
  | QueuedBehindRunning generation generation
  | LegacyIdle

datatype owm_run_state = OwmIdle | OwmRunning generation bool

record obsolete_work_manager =
  owm_state :: owm_run_state
  owm_pending :: "generation option"

definition owm_new :: obsolete_work_manager where
  "owm_new = \<lparr>owm_state = OwmIdle, owm_pending = None\<rparr>"

definition owm_on_query ::
  "obsolete_work_manager \<Rightarrow> generation \<Rightarrow> obsolete_work_manager \<times> legacy_dispatch" where
  "owm_on_query m g =
     (case owm_state m of
        OwmIdle \<Rightarrow> (m\<lparr>owm_state := OwmRunning g False, owm_pending := None\<rparr>, LegacyNow g)
      | OwmRunning running _ \<Rightarrow>
          (m\<lparr>owm_state := OwmRunning running True, owm_pending := Some g\<rparr>,
           QueuedBehindRunning running g))"

definition owm_on_callback_finished ::
  "obsolete_work_manager \<Rightarrow> obsolete_work_manager \<times> legacy_dispatch" where
  "owm_on_callback_finished m =
     (let m = m\<lparr>owm_state := OwmIdle\<rparr> in
      case owm_pending m of
        Some g \<Rightarrow> (m\<lparr>owm_pending := None, owm_state := OwmRunning g False\<rparr>, LegacyNow g)
      | None \<Rightarrow> (m\<lparr>owm_pending := None\<rparr>, LegacyIdle))"

definition owm_should_terminate :: "obsolete_work_manager \<Rightarrow> bool" where
  "owm_should_terminate m =
     (case owm_state m of OwmRunning _ obsolete \<Rightarrow> obsolete | OwmIdle \<Rightarrow> False)"

definition owm_invalidate :: "obsolete_work_manager \<Rightarrow> obsolete_work_manager" where
  "owm_invalidate m =
     (let m = (case owm_state m of
                 OwmRunning g _ \<Rightarrow> m\<lparr>owm_state := OwmRunning g True\<rparr>
               | OwmIdle \<Rightarrow> m)
      in m\<lparr>owm_pending := None\<rparr>)"

definition owm_running_generation :: "obsolete_work_manager \<Rightarrow> generation option" where
  "owm_running_generation m =
     (case owm_state m of OwmRunning g _ \<Rightarrow> Some g | OwmIdle \<Rightarrow> None)"

section \<open>Runs\<close>

datatype owm_event = OnQuery generation | CallbackFinished | Invalidate

fun owm_step :: "obsolete_work_manager \<Rightarrow> owm_event \<Rightarrow> obsolete_work_manager \<times> legacy_dispatch" where
  "owm_step m (OnQuery g) = owm_on_query m g"
| "owm_step m CallbackFinished = owm_on_callback_finished m"
| "owm_step m Invalidate = (owm_invalidate m, LegacyIdle)"

fun owm_run :: "obsolete_work_manager \<Rightarrow> owm_event list \<Rightarrow> obsolete_work_manager \<times> legacy_dispatch list" where
  "owm_run m [] = (m, [])"
| "owm_run m (e # es) =
     (let (m', r) = owm_step m e; (m'', rs) = owm_run m' es in (m'', r # rs))"

lemma owm_run_Cons [simp]:
  "fst (owm_run m (e # es)) = fst (owm_run (fst (owm_step m e)) es)"
  "snd (owm_run m (e # es)) = snd (owm_step m e) # snd (owm_run (fst (owm_step m e)) es)"
  by (simp_all add: case_prod_beta Let_def)

declare owm_run.simps(2) [simp del]

lemma owm_run_append [simp]:
  "fst (owm_run m (es @ fs)) = fst (owm_run (fst (owm_run m es)) fs)"
  "snd (owm_run m (es @ fs)) = snd (owm_run m es) @ snd (owm_run (fst (owm_run m es)) fs)"
  by (induction es arbitrary: m) auto

text \<open>A callback is started by \<open>LegacyNow\<close> and ends when the host reports it finished.\<close>

fun is_start :: "legacy_dispatch \<Rightarrow> bool" where
  "is_start (LegacyNow _) = True"
| "is_start _ = False"

definition callbacks_started :: "obsolete_work_manager \<Rightarrow> owm_event list \<Rightarrow> nat" where
  "callbacks_started m es = length (filter is_start (snd (owm_run m es)))"

fun callbacks_ended :: "obsolete_work_manager \<Rightarrow> owm_event list \<Rightarrow> nat" where
  "callbacks_ended m [] = 0"
| "callbacks_ended m (e # es) =
     (if e = CallbackFinished \<and> owm_running_generation m \<noteq> None then 1 else 0)
       + callbacks_ended (fst (owm_step m e)) es"

definition owm_busy :: "obsolete_work_manager \<Rightarrow> nat" where
  "owm_busy m = (if owm_running_generation m = None then 0 else 1)"

text \<open>A pending request exists only behind a running callback that was told to stop.\<close>

definition owm_inv :: "obsolete_work_manager \<Rightarrow> bool" where
  "owm_inv m \<longleftrightarrow> (owm_pending m \<noteq> None \<longrightarrow> owm_should_terminate m)"

lemmas owm_defs =
  owm_on_query_def owm_on_callback_finished_def owm_invalidate_def owm_should_terminate_def
  owm_running_generation_def owm_busy_def owm_inv_def Let_def

lemma owm_inv_new: "owm_inv owm_new"
  by (simp add: owm_inv_def owm_new_def)

lemma owm_inv_step: "owm_inv m \<Longrightarrow> owm_inv (fst (owm_step m e))"
  by (cases e) (auto simp: owm_defs split: option.splits owm_run_state.splits)

lemma owm_step_balance:
  assumes "owm_inv m"
  shows "owm_busy m + (if is_start (snd (owm_step m e)) then 1 else 0)
    = owm_busy (fst (owm_step m e))
      + (if e = CallbackFinished \<and> owm_running_generation m \<noteq> None then 1 else 0)"
  using assms
  by (cases e) (auto simp: owm_defs split: option.splits owm_run_state.splits)

lemma owm_run_balance:
  "owm_inv m \<Longrightarrow>
   owm_busy m + callbacks_started m es = owm_busy (fst (owm_run m es)) + callbacks_ended m es"
proof (induction es arbitrary: m)
  case Nil
  then show ?case by (simp add: callbacks_started_def)
next
  case (Cons e es)
  have start: "callbacks_started m (e # es)
      = (if is_start (snd (owm_step m e)) then 1 else 0) + callbacks_started (fst (owm_step m e)) es"
    by (simp add: callbacks_started_def)
  from Cons.IH [OF owm_inv_step [OF Cons.prems, of e]] owm_step_balance [OF Cons.prems, of e] start
  show ?case unfolding callbacks_ended.simps owm_run_Cons by linarith
qed

text \<open>
  C37: legacy callbacks never overlap. From a fresh dispatcher, whatever sequence of query
  changes, finished callbacks and invalidations happens, the callbacks started are exactly
  the callbacks that ended plus at most the one now running.
\<close>

theorem legacy_callbacks_never_overlap:
  "callbacks_started owm_new es
     = callbacks_ended owm_new es + owm_busy (fst (owm_run owm_new es))
   \<and> owm_busy (fst (owm_run owm_new es)) \<le> 1"
  using owm_run_balance [OF owm_inv_new, of es]
  by (simp add: owm_busy_def owm_new_def owm_running_generation_def)

section \<open>Supersession\<close>

text \<open>What waits behind a running callback is decided by the last thing that happened.\<close>

definition waiting_after :: "owm_event list \<Rightarrow> generation option" where
  "waiting_after es =
     (if es = [] then None else case last es of OnQuery g \<Rightarrow> Some g | _ \<Rightarrow> None)"

lemma owm_step_busy:
  assumes "e \<noteq> CallbackFinished" and "owm_state m = OwmRunning g obsolete"
  shows "owm_state (fst (owm_step m e)) = OwmRunning g True
    \<and> owm_pending (fst (owm_step m e)) = waiting_after [e]"
  using assms by (cases e) (auto simp: owm_defs waiting_after_def)

lemma owm_run_busy:
  assumes "CallbackFinished \<notin> set es" and "owm_state m = OwmRunning g obsolete"
  shows "owm_state (fst (owm_run m es)) = OwmRunning g (obsolete \<or> es \<noteq> [])
    \<and> owm_pending (fst (owm_run m es)) = (if es = [] then owm_pending m else waiting_after es)"
  using assms
proof (induction es arbitrary: m obsolete)
  case (Cons e es)
  from Cons.prems have step: "owm_state (fst (owm_step m e)) = OwmRunning g True"
    and "owm_pending (fst (owm_step m e)) = waiting_after [e]"
    using owm_step_busy [of e m g obsolete] by auto
  with Cons.IH [OF _ step] Cons.prems(1) show ?case by (auto simp: waiting_after_def)
qed simp

text \<open>
  Obsolete work is replaced, never queued up. While a callback runs,
  \<open>should_terminate\<close> turns true with the first query change or invalidation and stays
  true; when the callback returns, the plugin is handed the newest query if that is the
  last thing that happened, and nothing otherwise.
\<close>

theorem legacy_newest_query_wins:
  assumes "CallbackFinished \<notin> set es" and "owm_state m = OwmRunning g False"
    and "owm_pending m = None"
  shows "owm_should_terminate (fst (owm_run m es)) = (es \<noteq> [])
    \<and> owm_running_generation (fst (owm_run m es)) = Some g
    \<and> last (snd (owm_run m (es @ [CallbackFinished])))
        = (case waiting_after es of None \<Rightarrow> LegacyIdle | Some h \<Rightarrow> LegacyNow h)"
proof -
  have st: "owm_state (fst (owm_run m es)) = OwmRunning g (es \<noteq> [])"
    and pend: "owm_pending (fst (owm_run m es)) = waiting_after es"
    using owm_run_busy [OF assms(1,2)] assms(3) by (auto simp: waiting_after_def)
  from pend have "snd (owm_on_callback_finished (fst (owm_run m es)))
    = (case waiting_after es of None \<Rightarrow> LegacyIdle | Some h \<Rightarrow> LegacyNow h)"
    by (simp add: owm_on_callback_finished_def Let_def split: option.split)
  with st show ?thesis
    by (simp add: owm_should_terminate_def owm_running_generation_def)
qed

theorem legacy_newest_query_wins_witness:
  "last (snd (owm_run \<lparr>owm_state = OwmRunning 1 False, owm_pending = None\<rparr>
      ([OnQuery 2, OnQuery 3] @ [CallbackFinished]))) = LegacyNow 3"
  using legacy_newest_query_wins
    [of "[OnQuery 2, OnQuery 3]" "\<lparr>owm_state = OwmRunning 1 False, owm_pending = None\<rparr>" 1]
  by (simp add: waiting_after_def)

end
