(* ===== verification/Activation.thy ===== *)
theory Activation
  imports Crikey_Prelude
begin

text \<open>
  Compiled activation patterns: \<open>crates/crikey-core/src/activation.rs\<close>. The regular
  expression engine is the \<open>regex\<close> crate: a compiled \<open>Regex\<close> is the predicate on
  queries it decides, and the builder is the parameter \<open>regex_build\<close>, which takes the
  source text and an optional size limit and returns either the reason for refusing it or
  the compiled predicate.
\<close>

type_synonym regex = "string \<Rightarrow> bool"
type_synonym regex_builder = "string \<Rightarrow> nat option \<Rightarrow> string + regex"

definition max_pattern_bytes :: nat where
  "max_pattern_bytes = 512"

definition compiled_size_limit :: nat where
  "compiled_size_limit = 64 * 1024"

datatype activation_pattern_error =
    PatternEmpty
  | PatternTooLong nat
  | PatternMalformed string string

record activation_pattern =
  ap_source :: string
  ap_matcher :: regex

definition pattern_new ::
  "regex_builder \<Rightarrow> string \<Rightarrow> activation_pattern_error + activation_pattern" where
  "pattern_new regex_build pattern =
     (let source = trim pattern in
      if source = [] then Inl PatternEmpty
      else if max_pattern_bytes < utf8_len source then Inl (PatternTooLong (utf8_len source))
      else case regex_build source (Some compiled_size_limit) of
             Inl reason \<Rightarrow> Inl (PatternMalformed source reason)
           | Inr matcher \<Rightarrow> Inr \<lparr>ap_source = source, ap_matcher = matcher\<rparr>)"

text \<open>The source text of the pattern that matches nothing, \<open>0x5C\<close> being the backslash.\<close>

definition never_pattern :: string where
  "never_pattern = ''[^'' @ [CHR 0x5C] @ ''s'' @ [CHR 0x5C] @ ''S]''"

text \<open>\<open>never_matching\<close> panics if its constant pattern does not compile: \<open>None\<close>.\<close>

definition never_matching :: "regex_builder \<Rightarrow> string \<Rightarrow> activation_pattern option" where
  "never_matching regex_build source =
     (case regex_build never_pattern None of
        Inl _ \<Rightarrow> None
      | Inr matcher \<Rightarrow> Some \<lparr>ap_source = trim source, ap_matcher = matcher\<rparr>)"

definition pattern_is_match :: "activation_pattern \<Rightarrow> string \<Rightarrow> bool" where
  "pattern_is_match p query = ap_matcher p query"

text \<open>Equality of patterns is equality of the declaration.\<close>

definition pattern_eq :: "activation_pattern \<Rightarrow> activation_pattern \<Rightarrow> bool" where
  "pattern_eq p q \<longleftrightarrow> ap_source p = ap_source q"

lemma pattern_new_Inr_iff:
  "pattern_new regex_build pattern = Inr p \<longleftrightarrow>
     trim pattern \<noteq> [] \<and> utf8_len (trim pattern) \<le> max_pattern_bytes
     \<and> ap_source p = trim pattern
     \<and> regex_build (trim pattern) (Some compiled_size_limit) = Inr (ap_matcher p)"
  by (cases p) (auto simp: pattern_new_def Let_def split: sum.splits)

text \<open>
  The failure direction of a retained declaration: given that the builder compiles the
  complement of every character class to a predicate that no query satisfies, a pattern
  kept in place of one that did not compile admits nothing and still quotes its source.
\<close>

lemma never_matching_admits_nothing:
  assumes "regex_build never_pattern None = Inr matcher" and "\<And>query. \<not> matcher query"
  shows "\<exists>p. never_matching regex_build source = Some p \<and> ap_source p = trim source
    \<and> (\<forall>query. \<not> pattern_is_match p query)"
  using assms by (simp add: never_matching_def pattern_is_match_def)

end
