(* ===== verification/Items.thy ===== *)
theory Items
  imports Crikey_Prelude
begin

text \<open>
  The catalog item model: \<open>crates/crikey-core/src/item.rs\<close> and \<open>action.rs\<close>.
  Identifiers are the strings they wrap. The two encodings of the module are shown to lose
  nothing: a category's wire tag decodes to the category, and a derived item identity
  determines the plugin, the category and the target it was derived from.
\<close>

type_synonym plugin_id = string
type_synonym item_id = string
type_synonym action_id = string

section \<open>Categories\<close>

datatype category =
    CatApplication | CatFile | CatDirectory | CatUrl | CatCommand | CatExpression
  | CatKeyword | CatContact | CatClipboardItem
  | CatPluginDefined string

definition plugin_defined_prefix :: string where
  "plugin_defined_prefix = ''plugin-defined:''"

fun category_as_str :: "category \<Rightarrow> string" where
  "category_as_str CatApplication = ''application''"
| "category_as_str CatFile = ''file''"
| "category_as_str CatDirectory = ''directory''"
| "category_as_str CatUrl = ''url''"
| "category_as_str CatCommand = ''command''"
| "category_as_str CatExpression = ''expression''"
| "category_as_str CatKeyword = ''keyword''"
| "category_as_str CatContact = ''contact''"
| "category_as_str CatClipboardItem = ''clipboard-item''"
| "category_as_str (CatPluginDefined name) = name"

definition wire_tag :: "category \<Rightarrow> string" where
  "wire_tag c =
     (case c of
        CatPluginDefined name \<Rightarrow> plugin_defined_prefix @ name
      | builtin \<Rightarrow> category_as_str builtin)"

definition strip_prefix :: "string \<Rightarrow> string \<Rightarrow> string option" where
  "strip_prefix s p = (if starts_with s p then Some (drop (length p) s) else None)"

definition from_wire_tag :: "string \<Rightarrow> category" where
  "from_wire_tag tag =
     (case strip_prefix tag plugin_defined_prefix of
        Some name \<Rightarrow> CatPluginDefined name
      | None \<Rightarrow>
          (if tag = ''application'' then CatApplication
           else if tag = ''file'' then CatFile
           else if tag = ''directory'' then CatDirectory
           else if tag = ''url'' then CatUrl
           else if tag = ''command'' then CatCommand
           else if tag = ''expression'' then CatExpression
           else if tag = ''keyword'' then CatKeyword
           else if tag = ''contact'' then CatContact
           else if tag = ''clipboard-item'' then CatClipboardItem
           else CatPluginDefined tag))"

text \<open>
  Decoding a category's wire tag gives the category back, for every category,
  including a plugin-defined one whose name shadows a built-in; so the tag is injective,
  which the display spelling is not.
\<close>

theorem wire_tag_round_trip:
  "from_wire_tag (wire_tag c) = c
   \<and> inj wire_tag
   \<and> category_as_str (CatPluginDefined ''application'') = category_as_str CatApplication"
proof -
  have rt: "from_wire_tag (wire_tag c) = c" for c
    by (cases c) (simp_all add: wire_tag_def from_wire_tag_def strip_prefix_def starts_with_def
        plugin_defined_prefix_def)
  then have "inj wire_tag" by (metis injI)
  with rt show ?thesis by simp
qed

section \<open>Items\<close>

datatype argument_policy = ArgForbidden | ArgOptional | ArgRequired

datatype hit_policy = HitRecorded | HitIgnored

datatype execution_policy = HostMediated | PluginExecuted

record action =
  ac_action_id :: action_id
  ac_label :: string
  ac_description :: string
  ac_applicable_categories :: "category list"
  ac_icon_reference :: "string option"
  ac_execution_policy :: execution_policy

record item =
  it_stable_id :: item_id
  it_plugin_id :: plugin_id
  it_category :: category
  it_label :: string
  it_description :: string
  it_target :: string
  it_search_terms :: "string list"
  it_icon_reference :: "string option"
  it_argument_policy :: argument_policy
  it_hit_policy :: hit_policy
  it_score_hint :: "32 word"
  it_metadata :: "(string \<times> string) list"
  it_actions :: "action list"

section \<open>Derived identities\<close>

text \<open>The decimal spelling \<open>write!\<close> gives a length.\<close>

definition digit :: "nat \<Rightarrow> char" where
  "digit n = char_of (48 + n)"

fun decimal :: "nat \<Rightarrow> string" where
  "decimal n = (if n < 10 then [digit n] else decimal (n div 10) @ [digit (n mod 10)])"

declare decimal.simps [simp del]

definition category_parts :: "category \<Rightarrow> string \<times> string" where
  "category_parts c =
     (case c of
        CatPluginDefined name \<Rightarrow> (''plugin-defined'', name)
      | builtin \<Rightarrow> (category_as_str builtin, []))"

definition encode_component :: "string \<Rightarrow> string" where
  "encode_component component = decimal (utf8_len component) @ '':'' @ component"

definition derived_id :: "plugin_id \<Rightarrow> category \<Rightarrow> string \<Rightarrow> item_id" where
  "derived_id plugin c target =
     concat (map encode_component
       [''crikey-derived-item-v1'', plugin, fst (category_parts c), snd (category_parts c), target])"

lemma of_char_digit: "n < 10 \<Longrightarrow> (of_char (digit n) :: nat) = 48 + n"
  by (simp add: digit_def)

lemma digit_not_colon: "n < 10 \<Longrightarrow> digit n \<noteq> CHR '':''"
  by (auto dest: arg_cong [of _ _ "of_char :: char \<Rightarrow> nat"] simp: of_char_digit)

lemma decimal_not_colon: "CHR '':'' \<notin> set (decimal n)"
proof (induction n rule: decimal.induct)
  case (1 n)
  show ?case
  proof (cases "n < 10")
    case True
    with digit_not_colon [of n] show ?thesis by (auto simp: decimal.simps [of n])
  next
    case False
    with 1 digit_not_colon [of "n mod 10"] show ?thesis by (auto simp: decimal.simps [of n])
  qed
qed

definition decimal_value :: "string \<Rightarrow> nat" where
  "decimal_value = foldl (\<lambda>v c. 10 * v + (of_char c - 48)) 0"

lemma decimal_value_decimal: "decimal_value (decimal n) = n"
proof (induction n rule: decimal.induct)
  case (1 n)
  then show ?case
    by (cases "n < 10") (simp_all add: decimal.simps [of n] decimal_value_def of_char_digit)
qed

lemma decimal_inj: "decimal m = decimal n \<longleftrightarrow> m = n"
  by (metis decimal_value_decimal)

lemma utf8_len_0_iff [simp]: "utf8_len s = 0 \<longleftrightarrow> s = []"
  by (cases s) (auto simp: utf8_len_def)

lemma utf8_len_cancel:
  assumes "a @ x = b @ y" and "utf8_len a = utf8_len b"
  shows "a = b \<and> x = y"
proof -
  from assms(1) obtain us where "a = b @ us \<and> us @ x = y \<or> a @ us = b \<and> x = us @ y"
    unfolding append_eq_append_conv2 by blast
  with assms(2) show ?thesis by (metis add_cancel_left_right append_Nil append_Nil2 utf8_len_0_iff utf8_len_append)
qed

text \<open>A length-prefixed component can be read off the front of any text it starts.\<close>

lemma encode_component_cancel:
  assumes "encode_component a @ x = encode_component b @ y"
  shows "a = b \<and> x = y"
proof -
  have eq: "decimal (utf8_len a) @ CHR '':'' # (a @ x) = decimal (utf8_len b) @ CHR '':'' # (b @ y)"
    using assms by (simp add: encode_component_def)
  have tw: "takeWhile (\<lambda>c. c \<noteq> CHR '':'') (decimal n @ CHR '':'' # z) = decimal n" for n z
    using decimal_not_colon [of n] by (subst takeWhile_append2) auto
  from arg_cong [OF eq, of "takeWhile (\<lambda>c. c \<noteq> CHR '':'')"] have len: "utf8_len a = utf8_len b"
    by (simp only: tw decimal_inj)
  with eq have "a @ x = b @ y" by simp
  from utf8_len_cancel [OF this len] show ?thesis .
qed

lemma encode_components_inj:
  "length xs = length ys \<Longrightarrow> concat (map encode_component xs) = concat (map encode_component ys) \<Longrightarrow> xs = ys"
  by (induction xs ys rule: list_induct2) (auto dest: encode_component_cancel)

lemma category_parts_inj: "category_parts c = category_parts d \<Longrightarrow> c = d"
  by (cases c; cases d) (simp_all add: category_parts_def)

text \<open>
  C40: the identity the host derives for an item determines the plugin, the category and
  the target it was derived from, whatever separators or digits those contain.
\<close>

theorem derived_id_injective:
  "derived_id plugin c target = derived_id plugin' c' target' \<longleftrightarrow>
     plugin = plugin' \<and> c = c' \<and> target = target'"
proof
  assume eq: "derived_id plugin c target = derived_id plugin' c' target'"
  have "plugin = plugin' \<and> fst (category_parts c) = fst (category_parts c')
      \<and> snd (category_parts c) = snd (category_parts c') \<and> target = target'"
    using encode_components_inj [OF _ eq [unfolded derived_id_def]] by simp
  then show "plugin = plugin' \<and> c = c' \<and> target = target'"
    using category_parts_inj [of c c'] by (simp add: prod_eq_iff)
qed simp

end
