(* ===== verification/Scheduler_Model.thy ===== *)
theory Scheduler_Model
  imports Debounce Obsolete_Work Activation Items
begin

text \<open>
  The stateful query scheduler: \<open>crates/crikey-input-scheduler/src/runtime.rs\<close> and
  the profiles of \<open>profile.rs\<close>. \<open>QueryScheduler\<close> is the record
  \<open>query_scheduler\<close>, and every method is a function of it and of the caller's
  timestamp, as in the source. A long method is split at its block expressions, each
  block one definition; the methods compose them in the source's order.
  \<open>submit_query\<close> returns \<open>None\<close> where minting a generation panics.
\<close>

section \<open>Profiles\<close>

datatype scheduling_profile = LegacyStrict | LegacyOptimized | Modern

definition allows_time_debounce :: "scheduling_profile \<Rightarrow> bool" where
  "allows_time_debounce p \<longleftrightarrow> p \<noteq> LegacyStrict"

definition allows_host_gating :: "scheduling_profile \<Rightarrow> bool" where
  "allows_host_gating p \<longleftrightarrow> p \<noteq> LegacyStrict"

definition allows_dynamic_result_cache :: "scheduling_profile \<Rightarrow> bool" where
  "allows_dynamic_result_cache p \<longleftrightarrow> p \<noteq> LegacyStrict"

definition profile_as_str :: "scheduling_profile \<Rightarrow> string" where
  "profile_as_str p =
     (case p of
        LegacyStrict \<Rightarrow> ''legacy-strict''
      | LegacyOptimized \<Rightarrow> ''legacy-optimized''
      | Modern \<Rightarrow> ''modern'')"

section \<open>Policies and configuration\<close>

record activation_policy =
  supports_empty_query :: bool
  act_prefixes :: "string list"
  act_keywords :: "string list"
  act_patterns :: "activation_pattern list"

definition default_activation_policy :: activation_policy where
  "default_activation_policy =
     \<lparr>supports_empty_query = False, act_prefixes = [], act_keywords = [], act_patterns = []\<rparr>"

datatype queue_policy = ReplaceOldest | RejectNewest | DropOldest

record plugin_policy =
  profile :: scheduling_profile
  debounce :: debounce_policy
  activation :: activation_policy
  max_concurrent_requests :: nat
  queue_policy :: queue_policy
  queue_capacity :: nat

definition legacy_strict :: plugin_policy where
  "legacy_strict =
     \<lparr>profile = LegacyStrict,
      debounce = \<lparr>debounce_ms = 0, maximum_wait_ms = None, leading_edge = True,
                  trailing_edge = True, minimum_query_length = 0\<rparr>,
      activation = default_activation_policy\<lparr>supports_empty_query := True\<rparr>,
      max_concurrent_requests = 1, queue_policy = ReplaceOldest, queue_capacity = 1\<rparr>"

definition legacy_optimized :: plugin_policy where
  "legacy_optimized =
     \<lparr>profile = LegacyOptimized, debounce = default_debounce_policy,
      activation = default_activation_policy,
      max_concurrent_requests = 1, queue_policy = ReplaceOldest, queue_capacity = 1\<rparr>"

definition modern :: plugin_policy where
  "modern =
     \<lparr>profile = Modern, debounce = default_debounce_policy,
      activation = default_activation_policy,
      max_concurrent_requests = 1, queue_policy = ReplaceOldest, queue_capacity = 1\<rparr>"

record scheduler_config =
  request_queue_capacity :: nat
  result_queue_capacity :: nat
  per_plugin_dispatch_budget :: nat
  dispatch_budget_per_tick :: nat
  trace_capacity :: nat

definition default_scheduler_config :: scheduler_config where
  "default_scheduler_config =
     \<lparr>request_queue_capacity = 64, result_queue_capacity = 64, per_plugin_dispatch_budget = 1,
      dispatch_budget_per_tick = 16, trace_capacity = 1024\<rparr>"

definition normalize_config :: "scheduler_config \<Rightarrow> scheduler_config" where
  "normalize_config c =
     \<lparr>request_queue_capacity = max (request_queue_capacity c) 1,
      result_queue_capacity = max (result_queue_capacity c) 1,
      per_plugin_dispatch_budget = max (per_plugin_dispatch_budget c) 1,
      dispatch_budget_per_tick = max (dispatch_budget_per_tick c) 1,
      trace_capacity = max (trace_capacity c) 1\<rparr>"

definition normalize_policy :: "plugin_policy \<Rightarrow> plugin_policy" where
  "normalize_policy policy =
     (if profile policy = LegacyStrict then legacy_strict
      else
        let fold_texts = (\<lambda>ts. filter (\<lambda>t. t \<noteq> []) (map (\<lambda>t. to_lowercase (trim t)) ts));
            d = debounce policy;
            d = (if \<not> leading_edge d \<and> \<not> trailing_edge d then d\<lparr>trailing_edge := True\<rparr> else d);
            a = activation policy
        in policy\<lparr>max_concurrent_requests := max (max_concurrent_requests policy) 1,
                  queue_capacity := max (queue_capacity policy) 1,
                  debounce := d,
                  activation := a\<lparr>act_prefixes := fold_texts (act_prefixes a),
                                   act_keywords := fold_texts (act_keywords a)\<rparr>\<rparr>)"

definition effective_concurrency_limit :: "plugin_policy \<Rightarrow> nat" where
  "effective_concurrency_limit policy =
     (if profile policy = LegacyStrict then 1 else max_concurrent_requests policy)"

definition effective_queue_policy :: "plugin_policy \<Rightarrow> queue_policy" where
  "effective_queue_policy policy =
     (if profile policy = LegacyStrict then ReplaceOldest else queue_policy policy)"

definition effective_queue_capacity :: "plugin_policy \<Rightarrow> nat" where
  "effective_queue_capacity policy =
     (if profile policy = LegacyStrict then 1 else queue_capacity policy)"

section \<open>Decisions, requests, trace events\<close>

datatype gate_reason =
    GateDisabled | GateMinimumQueryLength | GateEmptyQueryUnsupported
  | GatePrefixMismatch | GateKeywordMismatch | GatePatternMismatch

datatype debounce_decision =
    DecLeadingEdge | DecDeferred millis | DecCoalesced generation
  | DecTrailingEdge | DecMaximumWait | DecGated gate_reason

datatype cancel_reason =
    QueryChanged | NoLongerRelevant | Reconfigured | ProfileChanged | CancelDisabled | Shutdown

datatype completion_outcome = CompletionAccepted | CompletionStale | CompletionUnknown

datatype batch_completion = CompPartial | CompFinal | CompCancelled | CompFailed

datatype batch_admission = BatchAccepted | StaleRejected | RejectedResultQueueFull

record dispatched_request =
  dr_plugin :: plugin_id
  dr_generation :: generation
  dr_query :: string
  dr_dispatched_at :: millis

record cancelled_request =
  cr_plugin :: plugin_id
  cr_generation :: generation
  cr_reason :: cancel_reason
  cr_cancelled_at :: millis

datatype query_trace_event =
    TrKeystroke millis generation nat
  | TrDebounce millis plugin_id generation debounce_decision
  | TrLegacyDispatch millis plugin_id generation legacy_dispatch
  | TrDispatched millis plugin_id generation
  | TrRequestDropped millis plugin_id generation queue_policy
  | TrCancelled millis plugin_id generation cancel_reason
  | TrFirstResult millis plugin_id generation millis
  | TrFinalResult millis plugin_id generation millis
  | TrResultBatch millis plugin_id generation nat batch_completion
  | TrStaleResultRejected millis plugin_id generation
  | TrRanking millis generation nat
  | TrPresentation millis generation nat

record scheduler_diagnostics =
  sd_queued_requests :: nat
  sd_in_flight_requests :: nat
  sd_peak_queue_depth :: nat
  sd_coalesced_requests :: u64
  sd_dropped_obsolete_requests :: u64
  sd_cancelled_requests :: u64
  sd_dropped_cancellation_notifications :: u64
  sd_rejected_stale_results :: u64
  sd_rejected_plugin_queue_full :: u64
  sd_rejected_global_queue_full :: u64
  sd_dispatched_requests :: u64
  sd_trace_events_dropped :: u64
  sd_counters_saturated :: bool

definition default_scheduler_diagnostics :: scheduler_diagnostics where
  "default_scheduler_diagnostics =
     \<lparr>sd_queued_requests = 0, sd_in_flight_requests = 0, sd_peak_queue_depth = 0,
      sd_coalesced_requests = 0, sd_dropped_obsolete_requests = 0, sd_cancelled_requests = 0,
      sd_dropped_cancellation_notifications = 0, sd_rejected_stale_results = 0,
      sd_rejected_plugin_queue_full = 0, sd_rejected_global_queue_full = 0,
      sd_dispatched_requests = 0, sd_trace_events_dropped = 0, sd_counters_saturated = False\<rparr>"

definition sd_rejected_requests :: "scheduler_diagnostics \<Rightarrow> u64" where
  "sd_rejected_requests d =
     sat_add (sd_rejected_plugin_queue_full d) (sd_rejected_global_queue_full d)"

definition sd_discarded_requests :: "scheduler_diagnostics \<Rightarrow> u64" where
  "sd_discarded_requests d =
     sat_add (sat_add (sd_coalesced_requests d) (sd_dropped_obsolete_requests d))
       (sd_rejected_requests d)"

record plugin_diagnostics =
  pd_queued_requests :: nat
  pd_in_flight_requests :: nat
  pd_peak_queue_depth :: nat
  pd_dispatched_requests :: u64
  pd_coalesced_requests :: u64
  pd_dropped_obsolete_requests :: u64
  pd_rejected_queue_full :: u64
  pd_cancelled_requests :: u64
  pd_rejected_stale_results :: u64
  pd_last_dispatched_at :: "millis option"
  pd_should_terminate :: bool

definition default_plugin_diagnostics :: plugin_diagnostics where
  "default_plugin_diagnostics =
     \<lparr>pd_queued_requests = 0, pd_in_flight_requests = 0, pd_peak_queue_depth = 0,
      pd_dispatched_requests = 0, pd_coalesced_requests = 0, pd_dropped_obsolete_requests = 0,
      pd_rejected_queue_full = 0, pd_cancelled_requests = 0, pd_rejected_stale_results = 0,
      pd_last_dispatched_at = None, pd_should_terminate = False\<rparr>"

datatype due_reason = DueTrailingEdge | DueMaximumWait

record pending_request =
  pr_generation :: generation
  pr_query :: string
  pr_ready :: bool
  pr_due_at :: "millis option"
  pr_due_reason :: "due_reason option"

record in_flight_request =
  if_generation :: generation
  if_dispatched_at :: millis
  if_cancel_reason :: "cancel_reason option"
  if_first_result_recorded :: bool
  if_final_result_recorded :: bool

record plugin_state =
  ps_policy :: plugin_policy
  ps_enabled :: bool
  ps_relevant :: bool
  ps_burst_started :: "millis option"
  ps_queue :: "pending_request list"
  ps_in_flight :: "in_flight_request list"
  ps_diagnostics :: plugin_diagnostics

definition plugin_state_new :: "plugin_policy \<Rightarrow> plugin_state" where
  "plugin_state_new policy =
     \<lparr>ps_policy = policy, ps_enabled = True, ps_relevant = False, ps_burst_started = None,
      ps_queue = [], ps_in_flight = [], ps_diagnostics = default_plugin_diagnostics\<rparr>"

datatype either_decision = EitherLegacy legacy_dispatch | EitherModern debounce_decision

text \<open>
  \<open>PreparedRequest\<close>: a legacy request carries its decision, a modern one also its
  readiness, deadline and the reason for the deadline.
\<close>

datatype prepared_request =
    PreparedLegacy legacy_dispatch
  | PreparedModern bool "millis option" "due_reason option" debounce_decision

record query_scheduler =
  qs_config :: scheduler_config
  qs_generations :: generation_tracker
  qs_plugins :: "(plugin_id \<times> plugin_state) list"
  qs_plugin_order :: "plugin_id list"
  qs_round_robin_cursor :: nat
  qs_diagnostics :: scheduler_diagnostics
  qs_trace :: "query_trace_event list"
  qs_cancellations :: "cancelled_request list"
  qs_result_queue_depth :: nat
  qs_shutdown :: bool
  qs_last_now :: "millis option"

definition scheduler_new :: "scheduler_config \<Rightarrow> query_scheduler" where
  "scheduler_new config =
     \<lparr>qs_config = normalize_config config, qs_generations = tracker_new, qs_plugins = [],
      qs_plugin_order = [], qs_round_robin_cursor = 0,
      qs_diagnostics = default_scheduler_diagnostics, qs_trace = [], qs_cancellations = [],
      qs_result_queue_depth = 0, qs_shutdown = False, qs_last_now = None\<rparr>"

section \<open>Counters, trace, clock\<close>

definition add_diagnostic_counter :: "u64 \<Rightarrow> u64 \<Rightarrow> bool \<Rightarrow> u64 \<times> bool" where
  "add_diagnostic_counter counter amount saturated =
     (let counter' = sat_add counter amount
      in (counter', if counter \<noteq> - 1 \<and> counter' = - 1 then True else saturated))"

text \<open>\<open>add_diagnostic_counter\<close> on one counter of the scheduler's diagnostics.\<close>

definition count_diagnostic ::
  "(scheduler_diagnostics \<Rightarrow> u64) \<Rightarrow> ((u64 \<Rightarrow> u64) \<Rightarrow> scheduler_diagnostics \<Rightarrow> scheduler_diagnostics)
   \<Rightarrow> u64 \<Rightarrow> query_scheduler \<Rightarrow> query_scheduler" where
  "count_diagnostic get upd amount s =
     (let d = qs_diagnostics s;
          (counter, saturated) = add_diagnostic_counter (get d) amount (sd_counters_saturated d)
      in s\<lparr>qs_diagnostics := upd (\<lambda>_. counter) (d\<lparr>sd_counters_saturated := saturated\<rparr>)\<rparr>)"

definition push_trace :: "query_trace_event \<Rightarrow> query_scheduler \<Rightarrow> query_scheduler" where
  "push_trace event s =
     (if trace_capacity (qs_config s) = 0 then
        count_diagnostic sd_trace_events_dropped sd_trace_events_dropped_update 1 s
      else if length (qs_trace s) = trace_capacity (qs_config s) then
        (count_diagnostic sd_trace_events_dropped sd_trace_events_dropped_update 1 s)
          \<lparr>qs_trace := tl (qs_trace s) @ [event]\<rparr>
      else s\<lparr>qs_trace := qs_trace s @ [event]\<rparr>)"

definition observe_now :: "query_scheduler \<Rightarrow> millis \<Rightarrow> query_scheduler \<times> millis" where
  "observe_now s now =
     (let now = (case qs_last_now s of None \<Rightarrow> now | Some t \<Rightarrow> max t now)
      in (s\<lparr>qs_last_now := Some now\<rparr>, now))"

definition modify_plugin ::
  "plugin_id \<Rightarrow> (plugin_state \<Rightarrow> plugin_state) \<Rightarrow> query_scheduler \<Rightarrow> query_scheduler" where
  "modify_plugin plugin f s = s\<lparr>qs_plugins := adjust plugin f (qs_plugins s)\<rparr>"

text \<open>\<open>saturating_add\<close> on one counter of a plugin's diagnostics.\<close>

definition count_plugin ::
  "plugin_id \<Rightarrow> (plugin_diagnostics \<Rightarrow> u64) \<Rightarrow> ((u64 \<Rightarrow> u64) \<Rightarrow> plugin_diagnostics \<Rightarrow> plugin_diagnostics)
   \<Rightarrow> u64 \<Rightarrow> query_scheduler \<Rightarrow> query_scheduler" where
  "count_plugin plugin get upd amount =
     modify_plugin plugin (\<lambda>st.
       st\<lparr>ps_diagnostics := upd (\<lambda>_. sat_add (get (ps_diagnostics st)) amount) (ps_diagnostics st)\<rparr>)"

definition total_queued :: "query_scheduler \<Rightarrow> nat" where
  "total_queued s =
     foldl (\<lambda>total kv. usize_sat_add total (length (ps_queue (snd kv)))) 0 (qs_plugins s)"

definition record_explicit_queue_peaks :: "query_scheduler \<Rightarrow> query_scheduler" where
  "record_explicit_queue_peaks s =
     (let explicit = (\<lambda>st. effective_queue_policy (ps_policy st) \<noteq> ReplaceOldest);
          has_explicit = list_ex (explicit \<circ> snd) (qs_plugins s);
          explicit_depth = total_queued s;
          s = s\<lparr>qs_plugins := map (\<lambda>(k, st). (k,
                 if explicit st
                 then st\<lparr>ps_diagnostics := (ps_diagnostics st)
                        \<lparr>pd_peak_queue_depth :=
                            max (pd_peak_queue_depth (ps_diagnostics st)) (length (ps_queue st))\<rparr>\<rparr>
                 else st)) (qs_plugins s)\<rparr>
      in if has_explicit
         then s\<lparr>qs_diagnostics := (qs_diagnostics s)
                  \<lparr>sd_peak_queue_depth := max (sd_peak_queue_depth (qs_diagnostics s)) explicit_depth\<rparr>\<rparr>
         else s)"

definition record_remaining_queue_peaks :: "query_scheduler \<Rightarrow> query_scheduler" where
  "record_remaining_queue_peaks s =
     (let depth = total_queued s;
          s = s\<lparr>qs_plugins := map (\<lambda>(k, st). (k,
                 st\<lparr>ps_diagnostics := (ps_diagnostics st)
                      \<lparr>pd_peak_queue_depth :=
                          max (pd_peak_queue_depth (ps_diagnostics st)) (length (ps_queue st))\<rparr>\<rparr>))
                 (qs_plugins s)\<rparr>
      in s\<lparr>qs_diagnostics := (qs_diagnostics s)
             \<lparr>sd_peak_queue_depth := max (sd_peak_queue_depth (qs_diagnostics s)) depth\<rparr>\<rparr>)"

section \<open>Cancellation\<close>

text \<open>
  The notification queue is bounded by \<open>request_queue_capacity\<close>, which
  \<open>normalize_config\<close> makes positive, so the full queue whose oldest notice is removed
  is never empty.
\<close>

definition emit_cancellation ::
  "plugin_id \<Rightarrow> generation \<Rightarrow> cancel_reason \<Rightarrow> millis \<Rightarrow> bool \<Rightarrow> query_scheduler \<Rightarrow> query_scheduler" where
  "emit_cancellation plugin g reason now newly_cancelled s =
     (if \<not> newly_cancelled then s
      else
        let s = count_diagnostic sd_cancelled_requests sd_cancelled_requests_update 1 s;
            s = count_plugin plugin pd_cancelled_requests pd_cancelled_requests_update 1 s;
            s = (if length (qs_cancellations s) = request_queue_capacity (qs_config s)
                 then count_diagnostic sd_dropped_cancellation_notifications
                        sd_dropped_cancellation_notifications_update 1
                        (s\<lparr>qs_cancellations := tl (qs_cancellations s)\<rparr>)
                 else s);
            s = s\<lparr>qs_cancellations := qs_cancellations s @
                   [\<lparr>cr_plugin = plugin, cr_generation = g, cr_reason = reason, cr_cancelled_at = now\<rparr>]\<rparr>
        in push_trace (TrCancelled now plugin g reason) s)"

definition emit_cancellations ::
  "plugin_id \<Rightarrow> cancel_reason \<Rightarrow> millis \<Rightarrow> (generation \<times> bool) list \<Rightarrow> query_scheduler \<Rightarrow> query_scheduler" where
  "emit_cancellations plugin reason now records =
     fold (\<lambda>(g, newly). emit_cancellation plugin g reason now newly) records"

definition cancel_in_flight :: "cancel_reason \<Rightarrow> in_flight_request \<Rightarrow> in_flight_request" where
  "cancel_in_flight reason r =
     (if if_cancel_reason r = None then r\<lparr>if_cancel_reason := Some reason\<rparr> else r)"

definition invalidate_plugin ::
  "plugin_id \<Rightarrow> cancel_reason \<Rightarrow> millis \<Rightarrow> bool \<Rightarrow> query_scheduler \<Rightarrow> query_scheduler \<times> generation list" where
  "invalidate_plugin plugin reason now include_already_cancelled s =
     (case map_of (qs_plugins s) plugin of
        None \<Rightarrow> (s, [])
      | Some st \<Rightarrow>
          (let records =
                 map (\<lambda>r. (if_generation r, if_cancel_reason r = None))
                   (filter (\<lambda>r. include_already_cancelled \<or> if_cancel_reason r = None) (ps_in_flight st))
                 @ map (\<lambda>r. (pr_generation r, True)) (ps_queue st);
               s = modify_plugin plugin (\<lambda>st.
                     st\<lparr>ps_in_flight := map (cancel_in_flight reason) (ps_in_flight st),
                        ps_queue := [], ps_relevant := False, ps_burst_started := None\<rparr>) s
           in (emit_cancellations plugin reason now records s, map fst records)))"

section \<open>Registration\<close>

definition sched_register_plugin :: "plugin_id \<Rightarrow> plugin_policy \<Rightarrow> query_scheduler \<Rightarrow> query_scheduler" where
  "sched_register_plugin plugin policy s =
     (let s = (if map_of (qs_plugins s) plugin = None
               then s\<lparr>qs_plugin_order := qs_plugin_order s @ [plugin]\<rparr> else s)
      in s\<lparr>qs_plugins := AList.update plugin (plugin_state_new (normalize_policy policy)) (qs_plugins s)\<rparr>)"

definition sched_unregister_plugin :: "plugin_id \<Rightarrow> query_scheduler \<Rightarrow> query_scheduler \<times> bool" where
  "sched_unregister_plugin plugin s =
     (if map_of (qs_plugins s) plugin = None then (s, False)
      else
        let order = filter (\<lambda>p. p \<noteq> plugin) (qs_plugin_order s)
        in (s\<lparr>qs_plugins := AList.delete plugin (qs_plugins s),
              qs_plugin_order := order,
              qs_round_robin_cursor :=
                (if order = [] then 0 else min (qs_round_robin_cursor s) (length order - 1)),
              qs_cancellations := filter (\<lambda>c. cr_plugin c \<noteq> plugin) (qs_cancellations s)\<rparr>, True))"

definition set_policy :: "plugin_id \<Rightarrow> plugin_policy \<Rightarrow> millis \<Rightarrow> query_scheduler \<Rightarrow> query_scheduler" where
  "set_policy plugin policy now s =
     (let (s, now) = observe_now s now in
      case map_of (qs_plugins s) plugin of
        None \<Rightarrow> s
      | Some st \<Rightarrow>
          (let reason = (if profile (ps_policy st) = profile policy then Reconfigured else ProfileChanged);
               s = fst (invalidate_plugin plugin reason now True s)
           in modify_plugin plugin (\<lambda>st.
                st\<lparr>ps_policy := normalize_policy policy, ps_relevant := False,
                   ps_burst_started := None\<rparr>) s))"

definition disable_plugin :: "plugin_id \<Rightarrow> millis \<Rightarrow> query_scheduler \<Rightarrow> query_scheduler" where
  "disable_plugin plugin now s =
     (let (s, now) = observe_now s now;
          s = fst (invalidate_plugin plugin CancelDisabled now True s)
      in modify_plugin plugin (\<lambda>st.
           st\<lparr>ps_enabled := False, ps_relevant := False, ps_burst_started := None,
              ps_in_flight := []\<rparr>) s)"

definition enable_plugin :: "plugin_id \<Rightarrow> millis \<Rightarrow> query_scheduler \<Rightarrow> query_scheduler" where
  "enable_plugin plugin now s =
     modify_plugin plugin (\<lambda>st.
       st\<lparr>ps_enabled := True, ps_relevant := False, ps_burst_started := None\<rparr>)
       (fst (observe_now s now))"

definition cancel_plugin ::
  "plugin_id \<Rightarrow> cancel_reason \<Rightarrow> millis \<Rightarrow> query_scheduler \<Rightarrow> query_scheduler \<times> generation list" where
  "cancel_plugin plugin reason now s =
     (let (s, now) = observe_now s now in invalidate_plugin plugin reason now True s)"

definition drain_cancellations :: "query_scheduler \<Rightarrow> query_scheduler \<times> cancelled_request list" where
  "drain_cancellations s = (s\<lparr>qs_cancellations := []\<rparr>, qs_cancellations s)"

definition shutdown_plugin :: "millis \<Rightarrow> plugin_id \<Rightarrow> query_scheduler \<Rightarrow> query_scheduler" where
  "shutdown_plugin now plugin s =
     modify_plugin plugin (\<lambda>st.
       st\<lparr>ps_in_flight := [], ps_queue := [], ps_relevant := False, ps_burst_started := None\<rparr>)
       (fst (invalidate_plugin plugin Shutdown now False s))"

definition sched_shutdown :: "millis \<Rightarrow> query_scheduler \<Rightarrow> query_scheduler" where
  "sched_shutdown now s =
     (let (s, now) = observe_now s now in
      if qs_shutdown s then s
      else (fold (shutdown_plugin now) (qs_plugin_order s) s)
             \<lparr>qs_result_queue_depth := 0, qs_shutdown := True\<rparr>)"

section \<open>Query admission\<close>

definition gate_for_query :: "plugin_state \<Rightarrow> string \<Rightarrow> gate_reason option" where
  "gate_for_query st normalized =
     (if \<not> ps_enabled st then Some GateDisabled
      else if \<not> allows_host_gating (profile (ps_policy st)) then None
      else if normalized = [] then
        (if supports_empty_query (activation (ps_policy st)) then None
         else Some GateEmptyQueryUnsupported)
      else if length normalized < minimum_query_length (debounce (ps_policy st)) then
        Some GateMinimumQueryLength
      else
        let a = activation (ps_policy st) in
        if act_prefixes a = [] \<and> act_keywords a = [] \<and> act_patterns a = [] then None
        else
          let prefix_matches = list_ex (\<lambda>p. starts_with normalized p) (act_prefixes a);
              keyword_matches =
                (case split_whitespace normalized of
                   [] \<Rightarrow> False
                 | first # _ \<Rightarrow> list_ex (\<lambda>keyword. first = keyword) (act_keywords a));
              pattern_matches = list_ex (\<lambda>p. pattern_is_match p normalized) (act_patterns a)
          in if prefix_matches \<or> keyword_matches \<or> pattern_matches then None
             else if act_prefixes a \<noteq> [] then Some GatePrefixMismatch
             else if act_keywords a \<noteq> [] then Some GateKeywordMismatch
             else Some GatePatternMismatch)"

text \<open>One round of \<open>reclaim_obsolete_queued\<close>, for one plugin.\<close>

definition reclaim_plugin ::
  "generation \<Rightarrow> millis \<Rightarrow> bool \<Rightarrow> plugin_id \<Rightarrow> query_scheduler \<Rightarrow> query_scheduler" where
  "reclaim_plugin current now include_replace_oldest plugin s =
     (case map_of (qs_plugins s) plugin of
        None \<Rightarrow> s
      | Some st \<Rightarrow>
          (let policy = effective_queue_policy (ps_policy st) in
           if \<not> include_replace_oldest \<and> policy = ReplaceOldest then s
           else
             let obsolete = map pr_generation (filter (\<lambda>r. pr_generation r \<noteq> current) (ps_queue st));
                 s = modify_plugin plugin (\<lambda>st.
                       st\<lparr>ps_queue := filter (\<lambda>r. pr_generation r = current) (ps_queue st)\<rparr>) s
             in if obsolete = [] then s
                else
                  let dropped = u64_of_len (length obsolete);
                      s = count_plugin plugin pd_dropped_obsolete_requests
                            pd_dropped_obsolete_requests_update dropped s;
                      s = count_diagnostic sd_dropped_obsolete_requests
                            sd_dropped_obsolete_requests_update dropped s
                  in fold (\<lambda>g. push_trace (TrRequestDropped now plugin g policy)) obsolete s))"

definition reclaim_obsolete_queued ::
  "generation \<Rightarrow> millis \<Rightarrow> bool \<Rightarrow> query_scheduler \<Rightarrow> query_scheduler" where
  "reclaim_obsolete_queued current now include_replace_oldest s =
     fold (reclaim_plugin current now include_replace_oldest) (qs_plugin_order s) s"

text \<open>
  The block expressions of \<open>process_query_for_plugin\<close>: the plugin's own state after a
  query change and the cancellations to announce; the debounce decision; the slot taken.
\<close>

definition cancel_for_query :: "gate_reason option \<Rightarrow> cancel_reason \<Rightarrow> plugin_state \<Rightarrow> plugin_state" where
  "cancel_for_query gate reason st =
     (let st = st\<lparr>ps_in_flight := map (cancel_in_flight reason) (ps_in_flight st)\<rparr>
      in if gate \<noteq> None
         then st\<lparr>ps_queue := [], ps_relevant := False, ps_burst_started := None\<rparr> else st)"

definition query_cancellations :: "gate_reason option \<Rightarrow> plugin_state \<Rightarrow> (generation \<times> bool) list" where
  "query_cancellations gate st =
     map (\<lambda>r. (if_generation r, True)) (filter (\<lambda>r. if_cancel_reason r = None) (ps_in_flight st))
     @ (if gate \<noteq> None then map (\<lambda>r. (pr_generation r, True)) (ps_queue st) else [])"

definition prepare_request ::
  "generation \<Rightarrow> millis \<Rightarrow> plugin_state \<Rightarrow> plugin_state \<times> prepared_request option" where
  "prepare_request g now st =
     (let d = debounce (ps_policy st);
          quiet_gap =
            (case pd_last_dispatched_at (ps_diagnostics st) of
               None \<Rightarrow> False
             | Some t \<Rightarrow> debounce_ms d \<le> sat_sub now t);
          st = (if ps_queue st = [] \<and> ps_burst_started st \<noteq> None \<and> quiet_gap
                then st\<lparr>ps_burst_started := None\<rparr> else st);
          was_relevant = ps_relevant st;
          st = st\<lparr>ps_relevant := True\<rparr>
      in if \<not> allows_time_debounce (profile (ps_policy st)) then
           (st, Some (PreparedLegacy
             (case ps_in_flight st of
                running # _ \<Rightarrow> QueuedBehindRunning (if_generation running) g
              | [] \<Rightarrow>
                  (case ps_queue st of
                     pending # _ \<Rightarrow> QueuedBehindRunning (pr_generation pending) g
                   | [] \<Rightarrow> LegacyNow g))))
         else if \<not> was_relevant \<and> leading_edge d then
           (st\<lparr>ps_burst_started := Some now\<rparr>, Some (PreparedModern True None None DecLeadingEdge))
         else if trailing_edge d then
           let burst = (case ps_burst_started st of None \<Rightarrow> now | Some b \<Rightarrow> b);
               trailing_at = sat_add now (debounce_ms d);
               maximum_at = map_option (\<lambda>wait. sat_add burst wait) (maximum_wait_ms d);
               due_at = (case maximum_at of None \<Rightarrow> trailing_at | Some m \<Rightarrow> min trailing_at m);
               due_reason = (case maximum_at of
                               None \<Rightarrow> DueTrailingEdge
                             | Some m \<Rightarrow> if m < trailing_at then DueMaximumWait else DueTrailingEdge)
           in (st\<lparr>ps_burst_started := Some burst\<rparr>,
               Some (PreparedModern False (Some due_at) (Some due_reason) (DecDeferred due_at)))
         else (st, None))"

definition can_reuse_slot :: "queue_policy \<Rightarrow> nat \<Rightarrow> nat \<Rightarrow> bool" where
  "can_reuse_slot policy capacity len =
     (case policy of
        ReplaceOldest \<Rightarrow> 0 < len
      | DropOldest \<Rightarrow> 0 < capacity \<and> capacity \<le> len
      | RejectNewest \<Rightarrow> False)"

text \<open>The two refusals differ only in the scheduler counter they raise.\<close>

definition drop_request ::
  "plugin_id \<Rightarrow> generation \<Rightarrow> millis \<Rightarrow> queue_policy \<Rightarrow> query_scheduler \<Rightarrow> query_scheduler" where
  "drop_request plugin g now policy s =
     push_trace (TrRequestDropped now plugin g policy)
       (count_plugin plugin pd_rejected_queue_full pd_rejected_queue_full_update 1 s)"

definition make_room :: "queue_policy \<Rightarrow> nat \<Rightarrow> pending_request list \<Rightarrow> pending_request list" where
  "make_room policy capacity queue =
     (case policy of
        ReplaceOldest \<Rightarrow> []
      | RejectNewest \<Rightarrow> queue
      | DropOldest \<Rightarrow> if capacity \<le> length queue then tl queue else queue)"

definition superseded_by :: "queue_policy \<Rightarrow> pending_request list \<Rightarrow> generation option" where
  "superseded_by policy queue =
     (if policy = ReplaceOldest \<and> queue \<noteq> [] then Some (pr_generation (last queue)) else None)"

definition evicted_by :: "queue_policy \<Rightarrow> nat \<Rightarrow> pending_request list \<Rightarrow> generation option" where
  "evicted_by policy capacity queue =
     (if policy = DropOldest \<and> capacity \<le> length queue
      then (case queue of [] \<Rightarrow> None | r # _ \<Rightarrow> Some (pr_generation r)) else None)"

fun prepared_slot :: "generation \<Rightarrow> string \<Rightarrow> prepared_request \<Rightarrow> pending_request \<times> either_decision" where
  "prepared_slot g query (PreparedLegacy decision) =
     (\<lparr>pr_generation = g, pr_query = query, pr_ready = True, pr_due_at = None, pr_due_reason = None\<rparr>,
      EitherLegacy decision)"
| "prepared_slot g query (PreparedModern ready due_at due_reason decision) =
     (\<lparr>pr_generation = g, pr_query = query, pr_ready = ready, pr_due_at = due_at, pr_due_reason = due_reason\<rparr>,
      EitherModern decision)"

definition note_superseded :: "plugin_id \<Rightarrow> millis \<Rightarrow> generation option \<Rightarrow> query_scheduler \<Rightarrow> query_scheduler" where
  "note_superseded plugin now superseded s =
     (case superseded of
        None \<Rightarrow> s
      | Some old \<Rightarrow>
          push_trace (TrRequestDropped now plugin old ReplaceOldest)
            (count_plugin plugin pd_coalesced_requests pd_coalesced_requests_update 1
              (count_diagnostic sd_coalesced_requests sd_coalesced_requests_update 1 s)))"

definition note_evicted :: "plugin_id \<Rightarrow> millis \<Rightarrow> generation option \<Rightarrow> query_scheduler \<Rightarrow> query_scheduler" where
  "note_evicted plugin now evicted s =
     (case evicted of
        None \<Rightarrow> s
      | Some old \<Rightarrow>
          push_trace (TrRequestDropped now plugin old DropOldest)
            (count_plugin plugin pd_dropped_obsolete_requests pd_dropped_obsolete_requests_update 1
              (count_diagnostic sd_dropped_obsolete_requests sd_dropped_obsolete_requests_update 1 s)))"

fun final_decision :: "generation option \<Rightarrow> either_decision \<Rightarrow> either_decision" where
  "final_decision (Some old) (EitherModern _) = EitherModern (DecCoalesced old)"
| "final_decision _ decision = decision"

fun decision_event :: "plugin_id \<Rightarrow> generation \<Rightarrow> millis \<Rightarrow> either_decision \<Rightarrow> query_trace_event" where
  "decision_event plugin g now (EitherLegacy decision) = TrLegacyDispatch now plugin g decision"
| "decision_event plugin g now (EitherModern decision) = TrDebounce now plugin g decision"

text \<open>The tail of \<open>process_query_for_plugin\<close>, on the plugin state \<open>st\<close> just prepared.\<close>

definition admit_request ::
  "plugin_id \<Rightarrow> generation \<Rightarrow> string \<Rightarrow> millis \<Rightarrow> prepared_request \<Rightarrow> plugin_state
   \<Rightarrow> query_scheduler \<Rightarrow> query_scheduler" where
  "admit_request plugin g query now prepared st s =
     (let policy = effective_queue_policy (ps_policy st);
          capacity = effective_queue_capacity (ps_policy st);
          queue = ps_queue st
      in if request_queue_capacity (qs_config s) \<le> total_queued s
            \<and> \<not> can_reuse_slot policy capacity (length queue) then
           drop_request plugin g now policy
             (count_diagnostic sd_rejected_global_queue_full sd_rejected_global_queue_full_update 1 s)
         else if capacity = 0 \<or> (policy = RejectNewest \<and> capacity \<le> length queue) then
           drop_request plugin g now policy
             (count_diagnostic sd_rejected_plugin_queue_full sd_rejected_plugin_queue_full_update 1 s)
         else
           let (slot, decision) = prepared_slot g query prepared;
               superseded = superseded_by policy queue;
               evicted = evicted_by policy capacity queue;
               s = modify_plugin plugin (\<lambda>st. st\<lparr>ps_queue := make_room policy capacity queue @ [slot]\<rparr>) s;
               s = note_superseded plugin now superseded s;
               s = note_evicted plugin now evicted s
           in push_trace (decision_event plugin g now (final_decision superseded decision)) s)"

text \<open>\<open>None\<close> is the panic of \<open>expect("registered plugin")\<close>.\<close>

definition process_query_for_plugin ::
  "generation \<Rightarrow> string \<Rightarrow> string \<Rightarrow> millis \<Rightarrow> plugin_id \<Rightarrow> query_scheduler \<Rightarrow> query_scheduler option" where
  "process_query_for_plugin g query normalized now plugin s =
     (case map_of (qs_plugins s) plugin of
        None \<Rightarrow> Some s
      | Some st \<Rightarrow>
          (let gate = gate_for_query st normalized;
               reason = (if gate \<noteq> None then NoLongerRelevant else QueryChanged);
               s = modify_plugin plugin (cancel_for_query gate reason) s;
               s = emit_cancellations plugin reason now (query_cancellations gate st) s
           in case gate of
                Some why \<Rightarrow> Some (push_trace (TrDebounce now plugin g (DecGated why)) s)
              | None \<Rightarrow>
                  (case map_of (qs_plugins s) plugin of
                     None \<Rightarrow> None
                   | Some st \<Rightarrow>
                       (let (st', prepared) = prepare_request g now st;
                            s = modify_plugin plugin (\<lambda>_. st') s
                        in case prepared of
                             None \<Rightarrow> Some s
                           | Some req \<Rightarrow> Some (admit_request plugin g query now req st' s)))))"

fun process_query_for_plugins ::
  "generation \<Rightarrow> string \<Rightarrow> string \<Rightarrow> millis \<Rightarrow> plugin_id list \<Rightarrow> query_scheduler \<Rightarrow> query_scheduler option" where
  "process_query_for_plugins g query normalized now [] s = Some s"
| "process_query_for_plugins g query normalized now (plugin # ps) s =
     (case process_query_for_plugin g query normalized now plugin s of
        None \<Rightarrow> None
      | Some s' \<Rightarrow> process_query_for_plugins g query normalized now ps s')"

definition reclaims_replace_slot :: "generation \<Rightarrow> query_scheduler \<Rightarrow> plugin_id \<Rightarrow> bool" where
  "reclaims_replace_slot g s plugin =
     (case map_of (qs_plugins s) plugin of
        None \<Rightarrow> False
      | Some st \<Rightarrow> effective_queue_policy (ps_policy st) = ReplaceOldest
                  \<and> list_ex (\<lambda>r. pr_generation r \<noteq> g) (ps_queue st))"

text \<open>
  The loop over \<open>[true, false]\<close> visits first the plugins whose stale slot is reclaimed
  by replacement and then the others, each in registration order.
\<close>

definition submit_query :: "string \<Rightarrow> millis \<Rightarrow> query_scheduler \<Rightarrow> (query_scheduler \<times> generation) option" where
  "submit_query query now s =
     (let (s, now) = observe_now s now in
      case advance (qs_generations s) of
        None \<Rightarrow> None
      | Some (g, tracker) \<Rightarrow>
          (let normalized = to_lowercase (trim query);
               s = s\<lparr>qs_generations := tracker, qs_result_queue_depth := 0\<rparr>;
               s = push_trace (TrKeystroke now g (length normalized)) s
           in if qs_shutdown s then Some (s, g)
              else
                let s = reclaim_obsolete_queued g now False s;
                    plugins = qs_plugin_order s;
                    visits = filter (reclaims_replace_slot g s) plugins
                             @ filter (\<lambda>p. \<not> reclaims_replace_slot g s p) plugins
                in map_option (\<lambda>s. (s, g))
                     (process_query_for_plugins g query normalized now visits s)))"

section \<open>Queries of the scheduler\<close>

definition sched_current_generation :: "query_scheduler \<Rightarrow> generation" where
  "sched_current_generation s = tracker_current (qs_generations s)"

definition sched_plugin_policy :: "query_scheduler \<Rightarrow> plugin_id \<Rightarrow> plugin_policy option" where
  "sched_plugin_policy s plugin = map_option ps_policy (map_of (qs_plugins s) plugin)"

definition sched_pending :: "query_scheduler \<Rightarrow> plugin_id \<Rightarrow> generation option" where
  "sched_pending s plugin =
     (case map_of (qs_plugins s) plugin of
        None \<Rightarrow> None
      | Some st \<Rightarrow> if ps_queue st = [] then None else Some (pr_generation (last (ps_queue st))))"

definition sched_queued :: "query_scheduler \<Rightarrow> plugin_id \<Rightarrow> nat" where
  "sched_queued s plugin =
     (case map_of (qs_plugins s) plugin of None \<Rightarrow> 0 | Some st \<Rightarrow> length (ps_queue st))"

definition sched_in_flight :: "query_scheduler \<Rightarrow> plugin_id \<Rightarrow> nat" where
  "sched_in_flight s plugin =
     (case map_of (qs_plugins s) plugin of None \<Rightarrow> 0 | Some st \<Rightarrow> length (ps_in_flight st))"

definition plugin_should_terminate :: "plugin_state \<Rightarrow> bool" where
  "plugin_should_terminate st \<longleftrightarrow>
     profile (ps_policy st) = LegacyStrict
     \<and> list_ex (\<lambda>r. if_cancel_reason r \<noteq> None) (ps_in_flight st)"

definition sched_should_terminate :: "query_scheduler \<Rightarrow> plugin_id \<Rightarrow> bool" where
  "sched_should_terminate s plugin =
     (case map_of (qs_plugins s) plugin of None \<Rightarrow> False | Some st \<Rightarrow> plugin_should_terminate st)"

definition pending_deadlines :: "query_scheduler \<Rightarrow> millis list" where
  "pending_deadlines s =
     List.map_filter (\<lambda>r. if \<not> pr_ready r then pr_due_at r else None)
       (concat (map (\<lambda>(_, st). ps_queue st) (filter (\<lambda>(_, st). ps_enabled st) (qs_plugins s))))"

definition next_wakeup :: "query_scheduler \<Rightarrow> millis option" where
  "next_wakeup s =
     (if qs_shutdown s then None
      else case pending_deadlines s of
             [] \<Rightarrow> None
           | d # ds \<Rightarrow> Some (foldl min d ds))"

definition diagnostics_snapshot :: "query_scheduler \<Rightarrow> scheduler_diagnostics" where
  "diagnostics_snapshot s =
     (qs_diagnostics s)\<lparr>sd_queued_requests := total_queued s,
        sd_in_flight_requests := (\<Sum>(_, st) \<leftarrow> qs_plugins s. length (ps_in_flight st))\<rparr>"

definition plugin_diagnostics_snapshot :: "query_scheduler \<Rightarrow> plugin_id \<Rightarrow> plugin_diagnostics option" where
  "plugin_diagnostics_snapshot s plugin =
     map_option (\<lambda>st. (ps_diagnostics st)\<lparr>pd_queued_requests := length (ps_queue st),
         pd_in_flight_requests := length (ps_in_flight st),
         pd_should_terminate := plugin_should_terminate st\<rparr>) (map_of (qs_plugins s) plugin)"

section \<open>Ticks: deadlines and dispatch\<close>

definition is_due :: "millis \<Rightarrow> pending_request \<Rightarrow> bool" where
  "is_due now r \<longleftrightarrow>
     \<not> pr_ready r \<and> (case pr_due_at r of None \<Rightarrow> False | Some deadline \<Rightarrow> deadline \<le> now)"

definition mature_request :: "millis \<Rightarrow> pending_request \<Rightarrow> pending_request" where
  "mature_request now r =
     (if is_due now r then r\<lparr>pr_ready := True, pr_due_at := None, pr_due_reason := None\<rparr> else r)"

definition due_requests :: "millis \<Rightarrow> pending_request list \<Rightarrow> (generation \<times> due_reason) list" where
  "due_requests now queue =
     List.map_filter (\<lambda>r. map_option (Pair (pr_generation r)) (pr_due_reason r)) (filter (is_due now) queue)"

fun due_decision :: "due_reason \<Rightarrow> debounce_decision" where
  "due_decision DueTrailingEdge = DecTrailingEdge"
| "due_decision DueMaximumWait = DecMaximumWait"

definition mature_plugin :: "millis \<Rightarrow> plugin_id \<Rightarrow> query_scheduler \<Rightarrow> query_scheduler" where
  "mature_plugin now plugin s =
     (case map_of (qs_plugins s) plugin of
        None \<Rightarrow> s
      | Some st \<Rightarrow>
          (let due = due_requests now (ps_queue st);
               s = modify_plugin plugin (\<lambda>st.
                     st\<lparr>ps_queue := map (mature_request now) (ps_queue st),
                        ps_burst_started := (if due = [] then ps_burst_started st else None)\<rparr>) s
           in fold (\<lambda>(g, reason). push_trace (TrDebounce now plugin g (due_decision reason))) due s))"

text \<open>One turn of the dispatch loop; \<open>None\<close> is its \<open>break\<close>.\<close>

definition dispatch_one ::
  "millis \<Rightarrow> plugin_id \<Rightarrow> query_scheduler \<Rightarrow> (query_scheduler \<times> dispatched_request) option" where
  "dispatch_one now plugin s =
     (case map_of (qs_plugins s) plugin of
        None \<Rightarrow> None
      | Some st \<Rightarrow>
          (case ps_queue st of
             [] \<Rightarrow> None
           | pending # rest \<Rightarrow>
               (if effective_concurrency_limit (ps_policy st) \<le> length (ps_in_flight st)
                   \<or> \<not> pr_ready pending then None
                else
                  let s = modify_plugin plugin (\<lambda>st.
                        st\<lparr>ps_queue := rest,
                           ps_in_flight := ps_in_flight st @
                             [\<lparr>if_generation = pr_generation pending, if_dispatched_at = now,
                               if_cancel_reason = None, if_first_result_recorded = False,
                               if_final_result_recorded = False\<rparr>],
                           ps_diagnostics := (ps_diagnostics st)
                             \<lparr>pd_dispatched_requests := sat_add (pd_dispatched_requests (ps_diagnostics st)) 1,
                              pd_last_dispatched_at := Some now\<rparr>\<rparr>) s;
                      s = count_diagnostic sd_dispatched_requests sd_dispatched_requests_update 1 s;
                      s = push_trace (TrDispatched now plugin (pr_generation pending)) s
                  in Some (s, \<lparr>dr_plugin = plugin, dr_generation = pr_generation pending,
                               dr_query = pr_query pending, dr_dispatched_at = now\<rparr>))))"

text \<open>
  The inner \<open>while\<close> runs at most \<open>per_plugin_dispatch_budget\<close> times: the first argument
  is what is left of it.
\<close>

fun dispatch_plugin ::
  "nat \<Rightarrow> millis \<Rightarrow> plugin_id \<Rightarrow> query_scheduler \<times> dispatched_request list
   \<Rightarrow> query_scheduler \<times> dispatched_request list" where
  "dispatch_plugin 0 now plugin (s, out) = (s, out)"
| "dispatch_plugin (Suc own) now plugin (s, out) =
     (if length out < dispatch_budget_per_tick (qs_config s) then
        (case dispatch_one now plugin s of
           None \<Rightarrow> (s, out)
         | Some (s', request) \<Rightarrow> dispatch_plugin own now plugin (s', out @ [request]))
      else (s, out))"

fun dispatch_round ::
  "millis \<Rightarrow> plugin_id list \<Rightarrow> nat list \<Rightarrow> query_scheduler \<times> dispatched_request list \<times> nat option
   \<Rightarrow> query_scheduler \<times> dispatched_request list \<times> nat option" where
  "dispatch_round now plugins [] (s, out, served) = (s, out, served)"
| "dispatch_round now plugins (index # rest) (s, out, served) =
     (if dispatch_budget_per_tick (qs_config s) \<le> length out then (s, out, served)
      else
        let (s', out') = dispatch_plugin (per_plugin_dispatch_budget (qs_config s)) now (plugins ! index) (s, out)
        in dispatch_round now plugins rest
             (s', out', if length out < length out' then Some index else served))"

definition rotation :: "nat \<Rightarrow> nat \<Rightarrow> nat list" where
  "rotation start n = map (\<lambda>offset. (start + offset) mod n) [0..<n]"

definition tick_prepare :: "millis \<Rightarrow> query_scheduler \<Rightarrow> query_scheduler" where
  "tick_prepare now s =
     (let s = reclaim_obsolete_queued (sched_current_generation s) now True s;
          s = fold (mature_plugin now) (qs_plugin_order s) s
      in record_explicit_queue_peaks s)"

definition tick :: "millis \<Rightarrow> query_scheduler \<Rightarrow> query_scheduler \<times> dispatched_request list" where
  "tick now s =
     (let (s, now) = observe_now s now in
      if qs_shutdown s then (s, [])
      else
        let s = tick_prepare now s;
            plugins = qs_plugin_order s;
            plugin_count = length plugins
        in if plugin_count = 0 \<or> dispatch_budget_per_tick (qs_config s) = 0
              \<or> per_plugin_dispatch_budget (qs_config s) = 0
           then (record_remaining_queue_peaks s, [])
           else
             let start = qs_round_robin_cursor s mod plugin_count;
                 (s, dispatched, last_served) =
                   dispatch_round now plugins (rotation start plugin_count) (s, [], None);
                 s = s\<lparr>qs_round_robin_cursor :=
                        (case last_served of
                           Some index \<Rightarrow> (index + 1) mod plugin_count
                         | None \<Rightarrow> (start + 1) mod plugin_count)\<rparr>
             in (record_remaining_queue_peaks s, dispatched))"

section \<open>Completions, results, presentation\<close>

fun remove_first :: "('a \<Rightarrow> bool) \<Rightarrow> 'a list \<Rightarrow> 'a list" where
  "remove_first P [] = []"
| "remove_first P (x # xs) = (if P x then xs else x # remove_first P xs)"

fun update_first :: "('a \<Rightarrow> bool) \<Rightarrow> ('a \<Rightarrow> 'a) \<Rightarrow> 'a list \<Rightarrow> 'a list" where
  "update_first P f [] = []"
| "update_first P f (x # xs) = (if P x then f x # xs else x # update_first P f xs)"

definition sched_complete ::
  "plugin_id \<Rightarrow> generation \<Rightarrow> millis \<Rightarrow> query_scheduler \<Rightarrow> query_scheduler \<times> completion_outcome" where
  "sched_complete plugin g now s =
     (let (s, now) = observe_now s now in
      case map_of (qs_plugins s) plugin of
        None \<Rightarrow> (s, CompletionUnknown)
      | Some st \<Rightarrow>
          (case find (\<lambda>r. if_generation r = g) (ps_in_flight st) of
             None \<Rightarrow> (s, CompletionUnknown)
           | Some request \<Rightarrow>
               (let s = modify_plugin plugin (\<lambda>st.
                      st\<lparr>ps_in_flight := remove_first (\<lambda>r. if_generation r = g) (ps_in_flight st)\<rparr>) s
                in if if_cancel_reason request \<noteq> None \<or> g \<noteq> sched_current_generation s
                   then (s, CompletionStale)
                   else if \<not> if_final_result_recorded request
                   then (push_trace (TrFinalResult now plugin g (sat_sub now (if_dispatched_at request))) s,
                         CompletionAccepted)
                   else (s, CompletionAccepted))))"

definition record_result :: "batch_completion \<Rightarrow> in_flight_request \<Rightarrow> in_flight_request" where
  "record_result completion r =
     r\<lparr>if_first_result_recorded := True,
       if_final_result_recorded := if_final_result_recorded r \<or> completion \<noteq> CompPartial\<rparr>"

definition record_result_batch ::
  "plugin_id \<Rightarrow> generation \<Rightarrow> nat \<Rightarrow> batch_completion \<Rightarrow> millis \<Rightarrow> query_scheduler
   \<Rightarrow> query_scheduler \<times> batch_admission" where
  "record_result_batch plugin g item_count completion now s =
     (let (s, now) = observe_now s now;
          requests = (case map_of (qs_plugins s) plugin of None \<Rightarrow> [] | Some st \<Rightarrow> ps_in_flight st);
          usable = list_ex (\<lambda>r. if_generation r = g \<and> if_cancel_reason r = None) requests
      in if g \<noteq> sched_current_generation s \<or> \<not> usable then
           let s = count_diagnostic sd_rejected_stale_results sd_rejected_stale_results_update 1 s;
               s = count_plugin plugin pd_rejected_stale_results pd_rejected_stale_results_update 1 s
           in (push_trace (TrStaleResultRejected now plugin g) s, StaleRejected)
         else if result_queue_capacity (qs_config s) \<le> qs_result_queue_depth s then
           (s, RejectedResultQueueFull)
         else
           let s = s\<lparr>qs_result_queue_depth := usize_sat_add (qs_result_queue_depth s) 1\<rparr>;
               request = hd (filter (\<lambda>r. if_generation r = g) requests);
               s = modify_plugin plugin (\<lambda>st.
                     st\<lparr>ps_in_flight := update_first (\<lambda>r. if_generation r = g)
                                        (record_result completion) (ps_in_flight st)\<rparr>) s;
               first = (\<not> if_first_result_recorded request);
               final = (completion \<noteq> CompPartial \<and> \<not> if_final_result_recorded request);
               latency = sat_sub now (if_dispatched_at request);
               s = (if first then push_trace (TrFirstResult now plugin g latency) s else s);
               s = push_trace (TrResultBatch now plugin g item_count completion) s;
               s = (if final then push_trace (TrFinalResult now plugin g latency) s else s)
           in (s, BatchAccepted))"

definition record_ranking :: "generation \<Rightarrow> nat \<Rightarrow> millis \<Rightarrow> query_scheduler \<Rightarrow> query_scheduler" where
  "record_ranking g ranked_items now s =
     (let (s, now) = observe_now s now
      in push_trace (TrRanking now g ranked_items) (s\<lparr>qs_result_queue_depth := 0\<rparr>))"

definition record_presentation :: "generation \<Rightarrow> nat \<Rightarrow> millis \<Rightarrow> query_scheduler \<Rightarrow> query_scheduler" where
  "record_presentation g visible_items now s =
     (let (s, now) = observe_now s now
      in push_trace (TrPresentation now g visible_items) (s\<lparr>qs_result_queue_depth := 0\<rparr>))"

end
