(* ===== verification/Scheduler_Frame.thy ===== *)
theory Scheduler_Frame
  imports Scheduler_Model
begin

text \<open>
  The frame of the scheduler model: which fields the bookkeeping operations (counters,
  trace, cancellation notices) leave alone, how a predicate on every plugin's state and the
  total queue length move through a change of one plugin, and the bounds of the two logs.
\<close>

section \<open>Field by field\<close>

lemma count_diagnostic_fields [simp]:
  "qs_config (count_diagnostic get upd n s) = qs_config s"
  "qs_generations (count_diagnostic get upd n s) = qs_generations s"
  "qs_plugins (count_diagnostic get upd n s) = qs_plugins s"
  "qs_plugin_order (count_diagnostic get upd n s) = qs_plugin_order s"
  "qs_round_robin_cursor (count_diagnostic get upd n s) = qs_round_robin_cursor s"
  "qs_trace (count_diagnostic get upd n s) = qs_trace s"
  "qs_cancellations (count_diagnostic get upd n s) = qs_cancellations s"
  "qs_result_queue_depth (count_diagnostic get upd n s) = qs_result_queue_depth s"
  "qs_shutdown (count_diagnostic get upd n s) = qs_shutdown s"
  "qs_last_now (count_diagnostic get upd n s) = qs_last_now s"
  by (simp_all add: count_diagnostic_def Let_def case_prod_beta)

lemma push_trace_fields [simp]:
  "qs_config (push_trace e s) = qs_config s"
  "qs_generations (push_trace e s) = qs_generations s"
  "qs_plugins (push_trace e s) = qs_plugins s"
  "qs_plugin_order (push_trace e s) = qs_plugin_order s"
  "qs_round_robin_cursor (push_trace e s) = qs_round_robin_cursor s"
  "qs_cancellations (push_trace e s) = qs_cancellations s"
  "qs_result_queue_depth (push_trace e s) = qs_result_queue_depth s"
  "qs_shutdown (push_trace e s) = qs_shutdown s"
  "qs_last_now (push_trace e s) = qs_last_now s"
  by (simp_all add: push_trace_def)

lemma modify_plugin_fields [simp]:
  "qs_config (modify_plugin p f s) = qs_config s"
  "qs_generations (modify_plugin p f s) = qs_generations s"
  "qs_plugins (modify_plugin p f s) = adjust p f (qs_plugins s)"
  "qs_plugin_order (modify_plugin p f s) = qs_plugin_order s"
  "qs_round_robin_cursor (modify_plugin p f s) = qs_round_robin_cursor s"
  "qs_trace (modify_plugin p f s) = qs_trace s"
  "qs_cancellations (modify_plugin p f s) = qs_cancellations s"
  "qs_result_queue_depth (modify_plugin p f s) = qs_result_queue_depth s"
  "qs_shutdown (modify_plugin p f s) = qs_shutdown s"
  "qs_last_now (modify_plugin p f s) = qs_last_now s"
  by (simp_all add: modify_plugin_def)

lemma observe_now_fields [simp]:
  "qs_config (fst (observe_now s now)) = qs_config s"
  "qs_generations (fst (observe_now s now)) = qs_generations s"
  "qs_plugins (fst (observe_now s now)) = qs_plugins s"
  "qs_plugin_order (fst (observe_now s now)) = qs_plugin_order s"
  "qs_round_robin_cursor (fst (observe_now s now)) = qs_round_robin_cursor s"
  "qs_trace (fst (observe_now s now)) = qs_trace s"
  "qs_cancellations (fst (observe_now s now)) = qs_cancellations s"
  "qs_result_queue_depth (fst (observe_now s now)) = qs_result_queue_depth s"
  "qs_shutdown (fst (observe_now s now)) = qs_shutdown s"
  by (simp_all add: observe_now_def Let_def)

interpretation sched_clock: monotone_clock observe_now qs_last_now
  by unfold_locales (simp_all add: observe_now_def Let_def)

section \<open>The two logs\<close>

lemma push_trace_entries:
  assumes "0 < trace_capacity (qs_config s)" and "length (qs_trace s) \<le> trace_capacity (qs_config s)"
  shows "qs_trace (push_trace e s)
    = drop (Suc (length (qs_trace s)) - trace_capacity (qs_config s)) (qs_trace s @ [e])"
proof (cases "length (qs_trace s) = trace_capacity (qs_config s)")
  case True
  with assms show ?thesis
    by (cases "qs_trace s") (auto simp: push_trace_def)
next
  case False
  with assms have "Suc (length (qs_trace s)) \<le> trace_capacity (qs_config s)" by simp
  with False assms show ?thesis by (simp add: push_trace_def)
qed

interpretation trace_log: bounded_log qs_trace "\<lambda>s. trace_capacity (qs_config s)" push_trace
  by unfold_locales (simp_all add: push_trace_entries)

definition notify :: "cancelled_request \<Rightarrow> query_scheduler \<Rightarrow> query_scheduler" where
  "notify c = emit_cancellation (cr_plugin c) (cr_generation c) (cr_reason c) (cr_cancelled_at c) True"

lemma count_plugin_fields [simp]:
  "qs_config (count_plugin p get upd n s) = qs_config s"
  "qs_cancellations (count_plugin p get upd n s) = qs_cancellations s"
  "qs_trace (count_plugin p get upd n s) = qs_trace s"
  "qs_generations (count_plugin p get upd n s) = qs_generations s"
  "qs_plugin_order (count_plugin p get upd n s) = qs_plugin_order s"
  "qs_round_robin_cursor (count_plugin p get upd n s) = qs_round_robin_cursor s"
  "qs_result_queue_depth (count_plugin p get upd n s) = qs_result_queue_depth s"
  "qs_shutdown (count_plugin p get upd n s) = qs_shutdown s"
  "qs_last_now (count_plugin p get upd n s) = qs_last_now s"
  by (simp_all add: count_plugin_def)

lemma notify_entries:
  assumes "0 < request_queue_capacity (qs_config s)"
    and "length (qs_cancellations s) \<le> request_queue_capacity (qs_config s)"
  shows "qs_cancellations (notify c s)
    = drop (Suc (length (qs_cancellations s)) - request_queue_capacity (qs_config s))
        (qs_cancellations s @ [c])"
proof (cases "length (qs_cancellations s) = request_queue_capacity (qs_config s)")
  case True
  with assms show ?thesis
    by (cases "qs_cancellations s") (auto simp: notify_def emit_cancellation_def Let_def)
next
  case False
  with assms have "Suc (length (qs_cancellations s)) \<le> request_queue_capacity (qs_config s)" by simp
  with False assms show ?thesis by (simp add: notify_def emit_cancellation_def Let_def)
qed

lemma emit_cancellation_fields [simp]:
  "qs_config (emit_cancellation p g reason now newly s) = qs_config s"
  "qs_generations (emit_cancellation p g reason now newly s) = qs_generations s"
  "qs_plugin_order (emit_cancellation p g reason now newly s) = qs_plugin_order s"
  "qs_round_robin_cursor (emit_cancellation p g reason now newly s) = qs_round_robin_cursor s"
  "qs_result_queue_depth (emit_cancellation p g reason now newly s) = qs_result_queue_depth s"
  "qs_shutdown (emit_cancellation p g reason now newly s) = qs_shutdown s"
  "qs_last_now (emit_cancellation p g reason now newly s) = qs_last_now s"
  by (simp_all add: emit_cancellation_def Let_def)

lemma emit_cancellation_plugins:
  "qs_plugins (emit_cancellation p g reason now newly s) =
     (if newly then qs_plugins (count_plugin p pd_cancelled_requests pd_cancelled_requests_update 1 s)
      else qs_plugins s)"
  by (simp add: emit_cancellation_def Let_def count_plugin_def)

interpretation cancel_log:
  bounded_log qs_cancellations "\<lambda>s. request_queue_capacity (qs_config s)" notify
  by unfold_locales (simp_all add: notify_entries, simp add: notify_def)

definition logs_ok :: "query_scheduler \<Rightarrow> bool" where
  "logs_ok s \<longleftrightarrow> trace_log.within s \<and> cancel_log.within s"

lemmas logs_ok_defs = logs_ok_def trace_log.within_def cancel_log.within_def

lemma logs_ok_cong:
  "qs_config s' = qs_config s \<Longrightarrow> qs_trace s' = qs_trace s \<Longrightarrow> qs_cancellations s' = qs_cancellations s
   \<Longrightarrow> logs_ok s' = logs_ok s"
  by (simp add: logs_ok_defs)

lemma logs_ok_push_trace: "logs_ok s \<Longrightarrow> logs_ok (push_trace e s)"
  by (simp add: logs_ok_def trace_log.push_within) (simp add: cancel_log.within_def)

lemma logs_ok_emit_cancellation:
  assumes "logs_ok s"
  shows "logs_ok (emit_cancellation p g reason now newly s)"
proof (cases newly)
  case True
  define c where "c = \<lparr>cr_plugin = p, cr_generation = g, cr_reason = reason, cr_cancelled_at = now\<rparr>"
  have eq: "emit_cancellation p g reason now newly s = notify c s"
    by (simp add: notify_def c_def True)
  have "\<exists>e t. notify c s = push_trace e t \<and> qs_trace t = qs_trace s \<and> qs_config t = qs_config s"
    unfolding notify_def emit_cancellation_def Let_def by (simp, fastforce)
  then obtain e t where t: "notify c s = push_trace e t" "qs_trace t = qs_trace s" "qs_config t = qs_config s"
    by blast
  then have "trace_log.within t" using assms by (simp add: logs_ok_defs)
  then have "trace_log.within (notify c s)" by (simp add: t(1) trace_log.push_within)
  with assms show ?thesis by (simp add: eq logs_ok_def cancel_log.push_within)
next
  case False
  with assms show ?thesis by (simp add: emit_cancellation_def)
qed

section \<open>Quiet changes\<close>

text \<open>
  A quiet change touches counters, the trace, the cancellation notices and the plugins'
  diagnostics only. \<open>strip\<close> forgets a plugin's diagnostics.
\<close>

definition strip :: "plugin_state \<Rightarrow> plugin_state" where
  "strip st = st\<lparr>ps_diagnostics := default_plugin_diagnostics\<rparr>"

definition stripped :: "query_scheduler \<Rightarrow> (plugin_id \<times> plugin_state) list" where
  "stripped s = map (\<lambda>(k, st). (k, strip st)) (qs_plugins s)"

definition quiet :: "query_scheduler \<Rightarrow> query_scheduler \<Rightarrow> bool" where
  "quiet s s' \<longleftrightarrow>
     qs_config s' = qs_config s \<and> qs_generations s' = qs_generations s
     \<and> stripped s' = stripped s \<and> qs_plugin_order s' = qs_plugin_order s
     \<and> qs_round_robin_cursor s' = qs_round_robin_cursor s \<and> qs_shutdown s' = qs_shutdown s
     \<and> qs_last_now s' = qs_last_now s \<and> (logs_ok s \<longrightarrow> logs_ok s')"

lemma strip_fields [simp]:
  "ps_policy (strip st) = ps_policy st"
  "ps_enabled (strip st) = ps_enabled st"
  "ps_relevant (strip st) = ps_relevant st"
  "ps_burst_started (strip st) = ps_burst_started st"
  "ps_queue (strip st) = ps_queue st"
  "ps_in_flight (strip st) = ps_in_flight st"
  by (simp_all add: strip_def)

lemma quiet_refl [simp, intro]: "quiet s s"
  by (simp add: quiet_def)

lemma quiet_trans [trans]: "quiet s t \<Longrightarrow> quiet t u \<Longrightarrow> quiet s u"
  by (simp add: quiet_def)

lemma quiet_fold: "(\<And>x s. quiet s (f x s)) \<Longrightarrow> quiet s (fold f xs s)"
  by (induction xs arbitrary: s) (auto intro: quiet_trans)

lemma strip_adjust_diagnostics:
  "map (\<lambda>(k, st). (k, strip st)) (adjust p (\<lambda>st. st\<lparr>ps_diagnostics := d st\<rparr>) m)
   = map (\<lambda>(k, st). (k, strip st)) m"
  by (induction m) (auto simp: adjust_def strip_def)

lemma quiet_count_diagnostic [intro]: "quiet s (count_diagnostic get upd n s)"
  by (simp add: quiet_def stripped_def logs_ok_cong [of "count_diagnostic get upd n s" s])

lemma quiet_push_trace [intro]: "quiet s (push_trace e s)"
  by (simp add: quiet_def stripped_def logs_ok_push_trace)

lemma quiet_count_plugin [intro]: "quiet s (count_plugin p get upd n s)"
  using logs_ok_cong [of "count_plugin p get upd n s" s]
  by (simp add: quiet_def stripped_def count_plugin_def strip_adjust_diagnostics)

lemma quiet_emit_cancellation [intro]: "quiet s (emit_cancellation p g reason now newly s)"
  by (simp add: quiet_def stripped_def emit_cancellation_plugins count_plugin_def
      strip_adjust_diagnostics logs_ok_emit_cancellation)

lemma quiet_emit_cancellations [intro]: "quiet s (emit_cancellations p reason now records s)"
  unfolding emit_cancellations_def by (rule quiet_fold) (auto simp: case_prod_beta)

lemma quiet_push_traces [intro]: "quiet s (fold (\<lambda>x. push_trace (f x)) xs s)"
  by (rule quiet_fold) auto

lemma quiet_drop_request [intro]: "quiet s (drop_request p g now policy s)"
  unfolding drop_request_def by (rule quiet_trans [OF quiet_count_plugin quiet_push_trace])

lemma quiet_note_superseded [intro]: "quiet s (note_superseded p now old s)"
  unfolding note_superseded_def
  by (cases old) (auto intro: quiet_trans [OF quiet_trans [OF quiet_count_diagnostic quiet_count_plugin] quiet_push_trace])

lemma quiet_note_evicted [intro]: "quiet s (note_evicted p now old s)"
  unfolding note_evicted_def
  by (cases old) (auto intro: quiet_trans [OF quiet_trans [OF quiet_count_diagnostic quiet_count_plugin] quiet_push_trace])

lemma quiet_record_explicit [intro]: "quiet s (record_explicit_queue_peaks s)"
  by (auto simp: quiet_def stripped_def record_explicit_queue_peaks_def Let_def strip_def logs_ok_defs)

lemma quiet_record_remaining [intro]: "quiet s (record_remaining_queue_peaks s)"
  by (auto simp: quiet_def stripped_def record_remaining_queue_peaks_def Let_def strip_def logs_ok_defs)

lemma map_of_stripped: "map_of (stripped s) p = map_option strip (map_of (qs_plugins s) p)"
  by (simp add: stripped_def map_of_map)

lemma keys_stripped: "map fst (stripped s) = map fst (qs_plugins s)"
  by (simp add: stripped_def case_prod_beta comp_def)

lemma quiet_keys: "quiet s s' \<Longrightarrow> map fst (qs_plugins s') = map fst (qs_plugins s)"
  by (metis keys_stripped quiet_def)

lemma quiet_lookup:
  assumes "quiet s s'" and "map_of (qs_plugins s) p = Some st"
  obtains st' where "map_of (qs_plugins s') p = Some st'" and "strip st' = strip st"
proof -
  have "map_of (stripped s') p = map_of (stripped s) p" using assms(1) by (simp add: quiet_def)
  then have "map_option strip (map_of (qs_plugins s') p) = Some (strip st)"
    by (simp add: map_of_stripped assms(2))
  then show thesis using that by (auto simp: map_option_eq_Some)
qed

lemma quiet_lookup_None: "quiet s s' \<Longrightarrow> map_of (qs_plugins s) p = None \<Longrightarrow> map_of (qs_plugins s') p = None"
  using map_of_stripped [of s' p] map_of_stripped [of s p] by (simp add: quiet_def)

lemma strip_eqD:
  assumes "strip st' = strip st"
  shows "ps_policy st' = ps_policy st" and "ps_enabled st' = ps_enabled st"
    and "ps_relevant st' = ps_relevant st" and "ps_burst_started st' = ps_burst_started st"
    and "ps_queue st' = ps_queue st" and "ps_in_flight st' = ps_in_flight st"
  using arg_cong [OF assms, of ps_policy] arg_cong [OF assms, of ps_enabled]
    arg_cong [OF assms, of ps_relevant] arg_cong [OF assms, of ps_burst_started]
    arg_cong [OF assms, of ps_queue] arg_cong [OF assms, of ps_in_flight] by simp_all

section \<open>Every plugin\<close>

definition all_plugins :: "(plugin_id \<Rightarrow> plugin_state \<Rightarrow> bool) \<Rightarrow> query_scheduler \<Rightarrow> bool" where
  "all_plugins P s \<longleftrightarrow> list_all (\<lambda>(k, st). P k (strip st)) (qs_plugins s)"

lemma all_plugins_stripped: "all_plugins P s \<longleftrightarrow> list_all (\<lambda>(k, st). P k st) (stripped s)"
  by (simp add: all_plugins_def stripped_def list_all_iff case_prod_beta)

lemma all_plugins_quiet: "quiet s s' \<Longrightarrow> all_plugins P s \<Longrightarrow> all_plugins P s'"
  by (simp add: all_plugins_stripped quiet_def)

lemma all_plugins_lookup: "all_plugins P s \<Longrightarrow> map_of (qs_plugins s) p = Some st \<Longrightarrow> P p (strip st)"
  by (auto simp: all_plugins_def list_all_iff dest: map_of_SomeD)

lemma all_plugins_mono:
  "all_plugins P s \<Longrightarrow> (\<And>k st. k \<in> fst ` set (qs_plugins s) \<Longrightarrow> P k st \<Longrightarrow> Q k st) \<Longrightarrow> all_plugins Q s"
  by (force simp: all_plugins_def list_all_iff)

lemma all_plugins_modify:
  assumes "all_plugins P s"
    and "\<And>st. map_of (qs_plugins s) p = Some st \<Longrightarrow> P p (strip st) \<Longrightarrow> Q p (strip (f st))"
    and "\<And>k st. k \<noteq> p \<Longrightarrow> P k st \<Longrightarrow> Q k st"
    and "distinct (map fst (qs_plugins s))"
  shows "all_plugins Q (modify_plugin p f s)"
  using assms
  by (fastforce simp: all_plugins_def list_all_iff adjust_def)

lemma all_plugins_cong: "qs_plugins s' = qs_plugins s \<Longrightarrow> all_plugins P s' = all_plugins P s"
  by (simp add: all_plugins_def)

section \<open>The total queue length\<close>

definition queue_total :: "query_scheduler \<Rightarrow> nat" where
  "queue_total s = (\<Sum>(_, st) \<leftarrow> qs_plugins s. length (ps_queue st))"

lemma sum_values_snd: "(\<Sum>(_, x) \<leftarrow> m. g x) = sum_list (map (\<lambda>kv. g (snd kv)) m)"
  by (induction m) auto

lemma total_queued_eq: "total_queued s = min (queue_total s) usize_max"
  using fold_usize_sat_add [of 0 "\<lambda>kv. length (ps_queue (snd kv))" "qs_plugins s"]
  by (simp add: total_queued_def queue_total_def sum_values_snd)

lemma queue_total_stripped: "queue_total s = (\<Sum>(_, st) \<leftarrow> stripped s. length (ps_queue st))"
  by (simp add: queue_total_def stripped_def sum_values_snd case_prod_beta comp_def)

lemma queue_total_quiet: "quiet s s' \<Longrightarrow> queue_total s' = queue_total s"
  by (simp add: queue_total_stripped quiet_def)

lemma queue_total_modify:
  "distinct (map fst (qs_plugins s)) \<Longrightarrow> map_of (qs_plugins s) p = Some st \<Longrightarrow>
   queue_total (modify_plugin p f s) + length (ps_queue st) = queue_total s + length (ps_queue (f st))"
  unfolding queue_total_def modify_plugin_fields by (rule sum_values_adjust)

lemma queue_total_modify_le:
  assumes "distinct (map fst (qs_plugins s))"
    and "\<And>st. map_of (qs_plugins s) p = Some st \<Longrightarrow> length (ps_queue (f st)) \<le> length (ps_queue st)"
  shows "queue_total (modify_plugin p f s) \<le> queue_total s"
proof (cases "map_of (qs_plugins s) p")
  case None
  then show ?thesis by (simp add: queue_total_def adjust_absent)
next
  case (Some st)
  from queue_total_modify [OF assms(1) Some, of f] assms(2) [OF Some] show ?thesis by linarith
qed

lemma queue_le_total:
  "map_of (qs_plugins s) p = Some st \<Longrightarrow> length (ps_queue st) \<le> queue_total s"
  unfolding queue_total_def using value_le_sum_values [of "qs_plugins s" p st "\<lambda>st. length (ps_queue st)"] by simp

section \<open>Framed changes\<close>

text \<open>
  A framed change may alter the state of the plugins but not who they are, nor the
  configuration, the newest generation or the shutdown flag.
\<close>

definition framed :: "query_scheduler \<Rightarrow> query_scheduler \<Rightarrow> bool" where
  "framed s s' \<longleftrightarrow>
     qs_config s' = qs_config s \<and> qs_generations s' = qs_generations s
     \<and> map fst (qs_plugins s') = map fst (qs_plugins s) \<and> qs_plugin_order s' = qs_plugin_order s
     \<and> qs_shutdown s' = qs_shutdown s \<and> qs_round_robin_cursor s' = qs_round_robin_cursor s
     \<and> qs_last_now s' = qs_last_now s"

lemma framed_refl [simp, intro]: "framed s s"
  by (simp add: framed_def)

lemma framed_trans [trans]: "framed s t \<Longrightarrow> framed t u \<Longrightarrow> framed s u"
  by (simp add: framed_def)

lemma framed_fold: "(\<And>x s. framed s (f x s)) \<Longrightarrow> framed s (fold f xs s)"
  by (induction xs arbitrary: s) (auto intro: framed_trans)

lemma quiet_framed: "quiet s s' \<Longrightarrow> framed s s'"
  using quiet_keys [of s s'] by (simp add: quiet_def framed_def)

lemma framed_modify [intro]: "framed s (modify_plugin p f s)"
  by (simp add: framed_def)

lemma framed_keys: "framed s s' \<Longrightarrow> fst ` set (qs_plugins s') = fst ` set (qs_plugins s)"
  by (metis framed_def list.set_map)

lemma framed_current: "framed s s' \<Longrightarrow> sched_current_generation s' = sched_current_generation s"
  by (simp add: framed_def sched_current_generation_def)

lemma framed_invalidate [intro]: "framed s (fst (invalidate_plugin p reason now incl s))"
  by (cases "map_of (qs_plugins s) p")
    (auto simp: invalidate_plugin_def Let_def
      intro: framed_trans [OF framed_modify quiet_framed [OF quiet_emit_cancellations]])

lemma framed_shutdown_plugin [intro]: "framed s (shutdown_plugin now p s)"
  unfolding shutdown_plugin_def by (rule framed_trans [OF framed_invalidate framed_modify])

lemma framed_reclaim_plugin [intro]: "framed s (reclaim_plugin current now incl p s)"
proof (cases "map_of (qs_plugins s) p")
  case None
  then show ?thesis by (simp add: reclaim_plugin_def)
next
  case (Some st)
  then show ?thesis
    by (auto simp: reclaim_plugin_def Let_def
        intro!: framed_trans [OF framed_modify quiet_framed]
        intro: quiet_trans [OF quiet_trans [OF quiet_count_plugin quiet_count_diagnostic] quiet_push_traces])
qed

lemma framed_reclaim [intro]: "framed s (reclaim_obsolete_queued current now incl s)"
  unfolding reclaim_obsolete_queued_def by (rule framed_fold) auto

lemma quiet_due_traces [intro]:
  "quiet s (fold (\<lambda>(g, reason). push_trace (TrDebounce now p g (due_decision reason))) due s)"
  by (rule quiet_fold) (auto simp: case_prod_beta)

lemma framed_mature_plugin [intro]: "framed s (mature_plugin now p s)"
  by (cases "map_of (qs_plugins s) p")
    (auto simp: mature_plugin_def Let_def intro: framed_trans [OF framed_modify quiet_framed])

lemma framed_admit [intro]: "framed s (admit_request p g query now prepared st s)"
proof -
  have drop: "framed s (drop_request p g now policy (count_diagnostic get upd n s))" for policy get upd n
    by (rule quiet_framed [OF quiet_trans [OF quiet_count_diagnostic quiet_drop_request]])
  have enqueue: "framed s (push_trace e (note_evicted p now ev (note_superseded p now su (modify_plugin p f s))))"
    for e ev su f
    by (rule framed_trans [OF framed_modify quiet_framed
          [OF quiet_trans [OF quiet_trans [OF quiet_note_superseded quiet_note_evicted] quiet_push_trace]]])
  show ?thesis by (simp add: admit_request_def Let_def case_prod_beta drop enqueue)
qed

end
