(* ===== verification/Scheduler_Inv.thy ===== *)
theory Scheduler_Inv
  imports Scheduler_Frame
begin

text \<open>
  The scheduler's invariant and its preservation by every operation of
  \<open>QueryScheduler\<close>, as rule induction over the reachable states.
\<close>

section \<open>The invariant\<close>

definition policy_ok :: "plugin_policy \<Rightarrow> bool" where
  "policy_ok p \<longleftrightarrow>
     0 < effective_concurrency_limit p \<and> 0 < effective_queue_capacity p
     \<and> (leading_edge (debounce p) \<or> trailing_edge (debounce p))"

definition queue_bound :: "plugin_policy \<Rightarrow> nat" where
  "queue_bound p =
     (if effective_queue_policy p = ReplaceOldest then 1 else effective_queue_capacity p)"

definition plugin_ok :: "bool \<Rightarrow> plugin_state \<Rightarrow> bool" where
  "plugin_ok stopped st \<longleftrightarrow>
     policy_ok (ps_policy st)
     \<and> length (ps_queue st) \<le> queue_bound (ps_policy st)
     \<and> list_all (\<lambda>r. pr_ready r \<or> pr_due_at r \<noteq> None) (ps_queue st)
     \<and> (stopped \<or> \<not> ps_enabled st \<longrightarrow> ps_queue st = [] \<and> ps_in_flight st = [])"

definition generations_of :: "plugin_state \<Rightarrow> generation list" where
  "generations_of st = map if_generation (ps_in_flight st) @ map pr_generation (ps_queue st)"

text \<open>
  Relative to the newest generation: no generation occurs twice in a plugin, none is from
  the future, and a request that still counts as live belongs to the newest query.
\<close>

definition plugin_current :: "generation \<Rightarrow> plugin_state \<Rightarrow> bool" where
  "plugin_current g st \<longleftrightarrow>
     distinct (generations_of st) \<and> list_all (\<lambda>h. h \<le> g) (generations_of st)
     \<and> list_all (\<lambda>r. if_cancel_reason r = None \<longrightarrow> if_generation r = g) (ps_in_flight st)"

definition plugin_before :: "generation \<Rightarrow> plugin_state \<Rightarrow> bool" where
  "plugin_before g st \<longleftrightarrow>
     distinct (generations_of st) \<and> list_all (\<lambda>h. h < g) (generations_of st)"

definition config_ok :: "scheduler_config \<Rightarrow> bool" where
  "config_ok c \<longleftrightarrow>
     0 < request_queue_capacity c \<and> request_queue_capacity c \<le> usize_max
     \<and> 0 < result_queue_capacity c \<and> 0 < per_plugin_dispatch_budget c
     \<and> 0 < dispatch_budget_per_tick c \<and> 0 < trace_capacity c"

definition shape_ok :: "query_scheduler \<Rightarrow> bool" where
  "shape_ok s \<longleftrightarrow>
     config_ok (qs_config s)
     \<and> distinct (map fst (qs_plugins s)) \<and> distinct (qs_plugin_order s)
     \<and> set (qs_plugin_order s) = fst ` set (qs_plugins s)
     \<and> queue_total s \<le> request_queue_capacity (qs_config s) \<and> logs_ok s"

definition sched_inv :: "query_scheduler \<Rightarrow> bool" where
  "sched_inv s \<longleftrightarrow>
     shape_ok s
     \<and> all_plugins (\<lambda>_ st. plugin_ok (qs_shutdown s) st
                         \<and> plugin_current (sched_current_generation s) st) s"

lemma plugin_preds_strip [simp]:
  "plugin_ok b (strip st) = plugin_ok b st"
  "plugin_current g (strip st) = plugin_current g st"
  "plugin_before g (strip st) = plugin_before g st"
  "generations_of (strip st) = generations_of st"
  by (simp_all add: plugin_ok_def plugin_current_def plugin_before_def generations_of_def)

lemma shape_distinct: "shape_ok s \<Longrightarrow> distinct (map fst (qs_plugins s))"
  by (simp add: shape_ok_def)

lemma shape_keys_set: "shape_ok s \<Longrightarrow> p \<in> set (qs_plugin_order s) \<longleftrightarrow> map_of (qs_plugins s) p \<noteq> None"
  by (auto simp: shape_ok_def map_of_eq_None_iff)

lemma quiet_shape: "quiet s s' \<Longrightarrow> shape_ok s \<Longrightarrow> shape_ok s'"
  using queue_total_quiet [of s s'] quiet_keys [of s s']
  by (simp add: shape_ok_def quiet_def) (metis list.set_map)

lemma quiet_current: "quiet s s' \<Longrightarrow> sched_current_generation s' = sched_current_generation s"
  by (simp add: quiet_def sched_current_generation_def)

lemma quiet_inv: "quiet s s' \<Longrightarrow> sched_inv s \<Longrightarrow> sched_inv s'"
  unfolding sched_inv_def
  by (auto intro: quiet_shape all_plugins_quiet simp: quiet_current) (auto simp: quiet_def all_plugins_stripped)

lemma shape_modify:
  assumes "shape_ok s"
    and "\<And>st. map_of (qs_plugins s) p = Some st \<Longrightarrow> length (ps_queue (f st)) \<le> length (ps_queue st)"
  shows "shape_ok (modify_plugin p f s)"
proof -
  have "queue_total (modify_plugin p f s) \<le> queue_total s"
    using assms(2) by (rule queue_total_modify_le [OF shape_distinct [OF assms(1)]])
  moreover have "fst ` set (adjust p f (qs_plugins s)) = fst ` set (qs_plugins s)"
    by (metis keys_adjust list.set_map)
  moreover have "logs_ok (modify_plugin p f s) = logs_ok s" by (simp add: logs_ok_defs)
  ultimately show ?thesis using assms(1) by (simp add: shape_ok_def)
qed

lemma inv_modify:
  assumes "sched_inv s"
    and "\<And>st. map_of (qs_plugins s) p = Some st \<Longrightarrow> plugin_ok (qs_shutdown s) st \<Longrightarrow>
        plugin_current (sched_current_generation s) st \<Longrightarrow>
        length (ps_queue (f st)) \<le> length (ps_queue st) \<and> plugin_ok (qs_shutdown s) (f st)
        \<and> plugin_current (sched_current_generation s) (f st)"
  shows "sched_inv (modify_plugin p f s)"
proof -
  have shape: "shape_ok s"
    and all: "all_plugins (\<lambda>_ st. plugin_ok (qs_shutdown s) st
                         \<and> plugin_current (sched_current_generation s) st) s"
    using assms(1) by (simp_all add: sched_inv_def)
  have "shape_ok (modify_plugin p f s)"
    using all_plugins_lookup [OF all] assms(2) by (intro shape_modify [OF shape]) simp
  moreover have "all_plugins (\<lambda>_ st. plugin_ok (qs_shutdown s) st
      \<and> plugin_current (sched_current_generation s) st) (modify_plugin p f s)"
    using assms(2) by (intro all_plugins_modify [OF all _ _ shape_distinct [OF shape]]) simp_all
  ultimately show ?thesis
    by (simp add: sched_inv_def sched_current_generation_def)
qed

section \<open>Registration and configuration\<close>

lemma normalize_policy_ok: "policy_ok (normalize_policy p)"
  by (auto simp: policy_ok_def normalize_policy_def legacy_strict_def effective_concurrency_limit_def
      effective_queue_capacity_def Let_def)

lemma plugin_new_ok [simp]:
  "plugin_ok b (plugin_state_new (normalize_policy p))"
  "plugin_current g (plugin_state_new (normalize_policy p))"
  by (simp_all add: plugin_ok_def plugin_current_def plugin_state_new_def generations_of_def
      normalize_policy_ok)

lemma inv_new: "request_queue_capacity c \<le> usize_max \<Longrightarrow> sched_inv (scheduler_new c)"
  by (auto simp: sched_inv_def shape_ok_def scheduler_new_def config_ok_def normalize_config_def
      queue_total_def logs_ok_defs all_plugins_def usize_max_def)

lemma inv_plain_update:
  assumes "sched_inv s"
  shows "sched_inv (s\<lparr>qs_last_now := t\<rparr>)" and "sched_inv (s\<lparr>qs_result_queue_depth := n\<rparr>)"
    and "sched_inv (s\<lparr>qs_round_robin_cursor := n\<rparr>)"
  using assms
  by (simp_all add: sched_inv_def shape_ok_def logs_ok_defs queue_total_def all_plugins_def
      sched_current_generation_def)

lemma inv_observe: "sched_inv s \<Longrightarrow> sched_inv (fst (observe_now s now))"
  by (simp add: observe_now_def Let_def inv_plain_update)

lemma all_plugins_update:
  "all_plugins P s \<Longrightarrow> P p (strip st) \<Longrightarrow>
   all_plugins P (s\<lparr>qs_plugins := AList.update p st (qs_plugins s)\<rparr>)"
  by (auto simp: all_plugins_def intro: list_all_update)

lemma inv_register:
  assumes "sched_inv s"
  shows "sched_inv (sched_register_plugin p policy s)"
proof -
  let ?st = "plugin_state_new (normalize_policy policy)"
  have shape: "shape_ok s"
    and all: "all_plugins (\<lambda>_ st. plugin_ok (qs_shutdown s) st
                         \<and> plugin_current (sched_current_generation s) st) s"
    using assms by (simp_all add: sched_inv_def)
  have q: "ps_queue ?st = []" by (simp add: plugin_state_new_def)
  have "(\<Sum>(_, st) \<leftarrow> AList.update p ?st (qs_plugins s). length (ps_queue st)) \<le> queue_total s"
  proof (cases "map_of (qs_plugins s) p")
    case None
    from sum_values_update_new [OF this, of "\<lambda>st. length (ps_queue st)"] show ?thesis
      by (simp add: queue_total_def q)
  next
    case (Some old)
    from sum_values_update_old [OF shape_distinct [OF shape] this, of "\<lambda>st. length (ps_queue st)" ?st]
    show ?thesis by (simp add: queue_total_def q)
  qed
  with shape have "shape_ok (sched_register_plugin p policy s)"
    by (auto simp: shape_ok_def sched_register_plugin_def Let_def queue_total_def distinct_update
        dom_update map_of_eq_None_iff logs_ok_defs)
  moreover have "all_plugins (\<lambda>_ st. plugin_ok (qs_shutdown s) st
      \<and> plugin_current (sched_current_generation s) st) (s\<lparr>qs_plugins := AList.update p ?st (qs_plugins s)\<rparr>)"
    by (rule all_plugins_update [OF all]) simp
  ultimately show ?thesis
    by (simp add: sched_inv_def sched_register_plugin_def Let_def all_plugins_def sched_current_generation_def)
qed

lemma inv_unregister:
  assumes "sched_inv s"
  shows "sched_inv (fst (sched_unregister_plugin p s))"
proof (cases "map_of (qs_plugins s) p")
  case None
  with assms show ?thesis by (simp add: sched_unregister_plugin_def)
next
  case (Some st)
  have shape: "shape_ok s"
    and all: "all_plugins (\<lambda>_ st. plugin_ok (qs_shutdown s) st
                         \<and> plugin_current (sched_current_generation s) st) s"
    using assms by (simp_all add: sched_inv_def)
  let ?s = "fst (sched_unregister_plugin p s)"
  have fields: "qs_plugins ?s = AList.delete p (qs_plugins s)" "qs_config ?s = qs_config s"
    "qs_plugin_order ?s = filter (\<lambda>q. q \<noteq> p) (qs_plugin_order s)" "qs_trace ?s = qs_trace s"
    "qs_cancellations ?s = filter (\<lambda>c. cr_plugin c \<noteq> p) (qs_cancellations s)"
    "qs_shutdown ?s = qs_shutdown s" "qs_generations ?s = qs_generations s"
    using Some by (simp_all add: sched_unregister_plugin_def Let_def)
  have "queue_total ?s \<le> queue_total s"
    using sum_values_delete [OF shape_distinct [OF shape] Some, of "\<lambda>st. length (ps_queue st)"]
    by (simp add: queue_total_def fields)
  moreover have "fst ` set (AList.delete p (qs_plugins s)) = fst ` set (qs_plugins s) - {p}"
    by (metis delete_keys list.set_map set_removeAll)
  moreover have "logs_ok ?s"
    using shape le_trans [OF length_filter_le [of "\<lambda>c. cr_plugin c \<noteq> p" "qs_cancellations s"]]
    by (simp add: shape_ok_def logs_ok_defs fields)
  ultimately have "shape_ok ?s"
    using shape by (auto simp: shape_ok_def fields distinct_delete)
  moreover have "all_plugins (\<lambda>_ st. plugin_ok (qs_shutdown s) st
                         \<and> plugin_current (sched_current_generation s) st) ?s"
    using all by (simp add: all_plugins_def fields list_all_delete)
  ultimately show ?thesis by (simp add: sched_inv_def fields sched_current_generation_def)
qed

section \<open>Cancellation\<close>

lemma cancel_in_flight_fields [simp]:
  "if_generation (cancel_in_flight reason r) = if_generation r"
  "if_cancel_reason (cancel_in_flight reason r) \<noteq> None"
  by (simp_all add: cancel_in_flight_def)

lemma cancelled_generations [simp]:
  "map (if_generation \<circ> cancel_in_flight reason) rs = map if_generation rs"
  by simp

lemma distinct_append1: "distinct (xs @ ys) \<Longrightarrow> distinct xs"
  by simp

lemma inv_invalidate:
  assumes "sched_inv s"
  shows "sched_inv (fst (invalidate_plugin p reason now incl s))"
proof (cases "map_of (qs_plugins s) p")
  case None
  with assms show ?thesis by (simp add: invalidate_plugin_def)
next
  case (Some st)
  have "sched_inv (modify_plugin p (\<lambda>st.
      st\<lparr>ps_in_flight := map (cancel_in_flight reason) (ps_in_flight st),
         ps_queue := [], ps_relevant := False, ps_burst_started := None\<rparr>) s)"
    by (rule inv_modify [OF assms])
      (auto simp: plugin_ok_def plugin_current_def generations_of_def list_all_iff)
  with Some show ?thesis
    by (auto simp: invalidate_plugin_def Let_def intro: quiet_inv [OF quiet_emit_cancellations])
qed

lemma invalidate_lookup:
  assumes "map_of (qs_plugins s) p = Some st"
  obtains st' where "map_of (qs_plugins (fst (invalidate_plugin p reason now incl s))) p = Some st'"
    and "ps_queue st' = []" and "ps_enabled st' = ps_enabled st" and "ps_policy st' = ps_policy st"
    and "ps_in_flight st' = map (cancel_in_flight reason) (ps_in_flight st)"
proof -
  let ?f = "\<lambda>st. st\<lparr>ps_in_flight := map (cancel_in_flight reason) (ps_in_flight st),
         ps_queue := [], ps_relevant := False, ps_burst_started := None\<rparr>"
  have at: "map_of (qs_plugins (modify_plugin p ?f s)) p = Some (?f st)"
    using assms by (simp add: lookup_simps)
  have "quiet (modify_plugin p ?f s) (fst (invalidate_plugin p reason now incl s))"
    using assms by (auto simp: invalidate_plugin_def Let_def)
  from quiet_lookup [OF this at] obtain st' where
    st': "map_of (qs_plugins (fst (invalidate_plugin p reason now incl s))) p = Some st'"
    and strip: "strip st' = strip (?f st)" by blast
  from that [OF st'] strip_eqD [OF strip] show thesis by simp
qed

lemma invalidate_empty_queue:
  "map_of (qs_plugins (fst (invalidate_plugin p reason now incl s))) p = Some st \<Longrightarrow> ps_queue st = []"
proof (cases "map_of (qs_plugins s) p")
  case (Some st0)
  assume "map_of (qs_plugins (fst (invalidate_plugin p reason now incl s))) p = Some st"
  with invalidate_lookup [OF Some, of reason now incl] show ?thesis by (metis option.inject)
qed (simp add: invalidate_plugin_def)

lemma inv_set_policy: "sched_inv s \<Longrightarrow> sched_inv (set_policy p policy now s)"
  unfolding set_policy_def Let_def case_prod_beta
  by (cases "map_of (qs_plugins (fst (observe_now s now))) p")
    (auto intro!: inv_modify inv_invalidate inv_observe dest!: invalidate_empty_queue
      simp: plugin_ok_def plugin_current_def generations_of_def normalize_policy_ok simp del: observe_now_fields)

lemma inv_disable: "sched_inv s \<Longrightarrow> sched_inv (disable_plugin p now s)"
  unfolding disable_plugin_def Let_def case_prod_beta
  by (auto intro!: inv_modify inv_invalidate inv_observe dest!: invalidate_empty_queue
      simp: plugin_ok_def plugin_current_def generations_of_def)

lemma inv_enable: "sched_inv s \<Longrightarrow> sched_inv (enable_plugin p now s)"
  unfolding enable_plugin_def
  by (auto intro!: inv_modify inv_observe simp: plugin_ok_def plugin_current_def generations_of_def)

lemma inv_cancel: "sched_inv s \<Longrightarrow> sched_inv (fst (cancel_plugin p reason now s))"
  by (simp add: cancel_plugin_def case_prod_beta inv_invalidate inv_observe)

lemma inv_drain: "sched_inv s \<Longrightarrow> sched_inv (fst (drain_cancellations s))"
  by (simp add: drain_cancellations_def sched_inv_def shape_ok_def logs_ok_defs queue_total_def
      all_plugins_def sched_current_generation_def)

section \<open>Shutdown\<close>

lemma inv_shutdown_plugin: "sched_inv s \<Longrightarrow> sched_inv (shutdown_plugin now p s)"
  unfolding shutdown_plugin_def
  by (auto intro!: inv_modify inv_invalidate simp: plugin_ok_def plugin_current_def generations_of_def)

definition idle :: "plugin_state \<Rightarrow> bool" where
  "idle st \<longleftrightarrow> ps_queue st = [] \<and> ps_in_flight st = []"

lemma idle_strip [simp]: "idle (strip st) = idle st"
  by (simp add: idle_def)

lemma all_plugins_invalidate:
  assumes "all_plugins P s" and "distinct (map fst (qs_plugins s))"
    and "\<And>st. P p (strip st) \<Longrightarrow> P p (strip (st\<lparr>ps_in_flight := map (cancel_in_flight reason) (ps_in_flight st),
         ps_queue := [], ps_relevant := False, ps_burst_started := None\<rparr>))"
  shows "all_plugins P (fst (invalidate_plugin p reason now incl s))"
proof (cases "map_of (qs_plugins s) p")
  case None
  with assms show ?thesis by (simp add: invalidate_plugin_def)
next
  case (Some st)
  have "all_plugins P (modify_plugin p (\<lambda>st. st\<lparr>ps_in_flight := map (cancel_in_flight reason) (ps_in_flight st),
         ps_queue := [], ps_relevant := False, ps_burst_started := None\<rparr>) s)"
    using assms by (intro all_plugins_modify [OF assms(1)]) auto
  from all_plugins_quiet [OF quiet_emit_cancellations this] Some show ?thesis
    by (simp add: invalidate_plugin_def Let_def)
qed

lemma idle_shutdown_plugin:
  assumes "all_plugins (\<lambda>k st. k \<in> D \<longrightarrow> idle st) s" and "distinct (map fst (qs_plugins s))"
  shows "all_plugins (\<lambda>k st. k \<in> insert p D \<longrightarrow> idle st) (shutdown_plugin now p s)"
proof -
  have "all_plugins (\<lambda>k st. k \<in> D \<longrightarrow> idle st) (fst (invalidate_plugin p Shutdown now False s))"
    by (rule all_plugins_invalidate [OF assms]) (auto simp: idle_def)
  moreover have "distinct (map fst (qs_plugins (fst (invalidate_plugin p Shutdown now False s))))"
    using framed_invalidate [of s p Shutdown now False] assms(2) by (simp add: framed_def)
  ultimately show ?thesis
    unfolding shutdown_plugin_def by (auto intro!: all_plugins_modify simp: idle_def)
qed

lemma inv_shutdown_plugins: "sched_inv s \<Longrightarrow> sched_inv (fold (shutdown_plugin now) ps s)"
  by (induction ps arbitrary: s) (auto simp: inv_shutdown_plugin)

lemma idle_shutdown_plugins:
  "all_plugins (\<lambda>k st. k \<in> D \<longrightarrow> idle st) s \<Longrightarrow> distinct (map fst (qs_plugins s)) \<Longrightarrow>
   all_plugins (\<lambda>k st. k \<in> set ps \<union> D \<longrightarrow> idle st) (fold (shutdown_plugin now) ps s)"
proof (induction ps arbitrary: s D)
  case (Cons p ps)
  have "distinct (map fst (qs_plugins (shutdown_plugin now p s)))"
    using framed_shutdown_plugin [of s now p] Cons.prems(2) by (simp add: framed_def)
  from Cons.IH [OF idle_shutdown_plugin [OF Cons.prems] this] show ?case by simp
qed simp

lemma shutdown_idle:
  assumes "shape_ok s"
  shows "all_plugins (\<lambda>_. idle) (fold (shutdown_plugin now) (qs_plugin_order s) s)"
proof -
  let ?s = "fold (shutdown_plugin now) (qs_plugin_order s) s"
  have "all_plugins (\<lambda>k st. k \<in> set (qs_plugin_order s) \<union> {} \<longrightarrow> idle st) ?s"
    by (rule idle_shutdown_plugins) (simp_all add: shape_distinct assms all_plugins_def list_all_iff)
  moreover have "fst ` set (qs_plugins ?s) = set (qs_plugin_order s)"
    using framed_keys [OF framed_fold [OF framed_shutdown_plugin]] assms by (simp add: shape_ok_def)
  ultimately show ?thesis by (auto elim!: all_plugins_mono)
qed

lemma inv_shutdown:
  assumes "sched_inv s"
  shows "sched_inv (sched_shutdown now s)"
proof (cases "qs_shutdown s")
  case True
  with assms show ?thesis by (simp add: sched_shutdown_def case_prod_beta inv_observe)
next
  case False
  let ?start = "fst (observe_now s now)"
  let ?stop = "fold (shutdown_plugin (snd (observe_now s now))) (qs_plugin_order ?start) ?start"
  have inv0: "sched_inv ?start" by (rule inv_observe [OF assms])
  then have inv: "sched_inv ?stop" by (simp add: inv_shutdown_plugins del: observe_now_fields)
  have "all_plugins (\<lambda>_. idle) ?stop" using inv0 by (intro shutdown_idle) (simp add: sched_inv_def)
  with inv have "all_plugins (\<lambda>_ st. plugin_ok True st \<and> plugin_current (sched_current_generation ?stop) st) ?stop"
    by (auto simp: sched_inv_def all_plugins_def list_all_iff plugin_ok_def idle_def)
  with inv False show ?thesis
    by (simp add: sched_shutdown_def case_prod_beta sched_inv_def shape_ok_def logs_ok_defs
        queue_total_def all_plugins_def sched_current_generation_def)
qed

section \<open>Submitting a query\<close>

text \<open>
  While a query is being submitted, some plugins have been told of the new generation and
  others not yet; \<open>C\<close> says which condition each plugin satisfies.
\<close>

definition mid_inv :: "(plugin_id \<Rightarrow> plugin_state \<Rightarrow> bool) \<Rightarrow> query_scheduler \<Rightarrow> bool" where
  "mid_inv C s \<longleftrightarrow> shape_ok s \<and> all_plugins (\<lambda>k st. plugin_ok False st \<and> C k st) s"

definition told :: "generation \<Rightarrow> plugin_id set \<Rightarrow> plugin_id \<Rightarrow> plugin_state \<Rightarrow> bool" where
  "told g waiting k st \<longleftrightarrow> (if k \<in> waiting then plugin_before g st else plugin_current g st)"

definition settled :: "generation \<Rightarrow> plugin_state \<Rightarrow> bool" where
  "settled g st \<longleftrightarrow> plugin_before g st \<and> list_all (\<lambda>r. if_cancel_reason r \<noteq> None) (ps_in_flight st)"

lemma told_strip [simp]: "told g W k (strip st) = told g W k st"
  by (simp add: told_def)

lemma settled_strip [simp]: "settled g (strip st) = settled g st"
  by (simp add: settled_def)

lemma settled_current: "settled g st \<Longrightarrow> plugin_current g st"
  by (auto simp: settled_def plugin_before_def plugin_current_def list_all_iff)

lemma mid_quiet: "quiet s s' \<Longrightarrow> mid_inv C s \<Longrightarrow> mid_inv C s'"
  by (auto simp: mid_inv_def intro: quiet_shape all_plugins_quiet)

lemma mid_mono: "mid_inv C s \<Longrightarrow> (\<And>k st. k \<in> fst ` set (qs_plugins s) \<Longrightarrow> C k st \<Longrightarrow> D k st) \<Longrightarrow> mid_inv D s"
  by (auto simp: mid_inv_def elim!: all_plugins_mono)

lemma mid_modify:
  assumes mid: "mid_inv C s"
    and own: "\<And>st. map_of (qs_plugins s) p = Some st \<Longrightarrow> plugin_ok False st \<Longrightarrow> C p (strip st) \<Longrightarrow>
        length (ps_queue (f st)) \<le> length (ps_queue st) \<and> plugin_ok False (f st) \<and> D p (strip (f st))"
    and other: "\<And>k st. k \<noteq> p \<Longrightarrow> C k st \<Longrightarrow> D k st"
  shows "mid_inv D (modify_plugin p f s)"
proof -
  have shape: "shape_ok s" and all: "all_plugins (\<lambda>k st. plugin_ok False st \<and> C k st) s"
    using mid by (simp_all add: mid_inv_def)
  have "shape_ok (modify_plugin p f s)"
    using all_plugins_lookup [OF all] own by (intro shape_modify [OF shape]) simp
  moreover have "all_plugins (\<lambda>k st. plugin_ok False st \<and> D k st) (modify_plugin p f s)"
    using own other by (intro all_plugins_modify [OF all _ _ shape_distinct [OF shape]]) simp_all
  ultimately show ?thesis by (simp add: mid_inv_def)
qed

lemma mid_lookup:
  "mid_inv C s \<Longrightarrow> map_of (qs_plugins s) p = Some st \<Longrightarrow> plugin_ok False st \<and> C p (strip st)"
  unfolding mid_inv_def by (auto dest: all_plugins_lookup)

lemma inv_mid_iff:
  "\<not> qs_shutdown s \<Longrightarrow> sched_current_generation s = g \<Longrightarrow> sched_inv s \<longleftrightarrow> mid_inv (\<lambda>_. plugin_current g) s"
  by (simp add: sched_inv_def mid_inv_def)

lemma mid_reclaim_plugin:
  assumes "mid_inv C s"
    and "\<And>k st. C k (strip st) \<Longrightarrow>
      C k (strip (st\<lparr>ps_queue := filter (\<lambda>r. pr_generation r = current) (ps_queue st)\<rparr>))"
  shows "mid_inv C (reclaim_plugin current now incl p s)"
proof (cases "map_of (qs_plugins s) p")
  case None
  with assms show ?thesis by (simp add: reclaim_plugin_def)
next
  case (Some st)
  let ?keep = "modify_plugin p (\<lambda>st. st\<lparr>ps_queue := filter (\<lambda>r. pr_generation r = current) (ps_queue st)\<rparr>) s"
  have "mid_inv C ?keep"
    by (rule mid_modify [OF assms(1)])
      (auto simp: plugin_ok_def list_all_iff assms(2) intro: le_trans [OF length_filter_le])
  with assms(1) Some show ?thesis
    by (auto simp: reclaim_plugin_def Let_def
        intro: mid_quiet [OF quiet_trans [OF quiet_trans [OF quiet_count_plugin quiet_count_diagnostic]
            quiet_push_traces]])
qed

lemma mid_reclaim_plugins:
  assumes "\<And>k st. C k (strip st) \<Longrightarrow>
      C k (strip (st\<lparr>ps_queue := filter (\<lambda>r. pr_generation r = current) (ps_queue st)\<rparr>))"
  shows "mid_inv C s \<Longrightarrow> mid_inv C (fold (reclaim_plugin current now incl) ps s)"
  by (induction ps arbitrary: s) (auto intro: mid_reclaim_plugin assms)

lemma distinct_generations_filter:
  "distinct (generations_of st) \<Longrightarrow>
   distinct (generations_of (st\<lparr>ps_queue := filter P (ps_queue st)\<rparr>))"
  by (auto simp: generations_of_def distinct_map_filter)

lemma told_filter:
  "told g W k st \<Longrightarrow> told g W k (st\<lparr>ps_queue := filter P (ps_queue st)\<rparr>)"
  using distinct_generations_filter [of st P]
  by (auto simp: told_def plugin_before_def plugin_current_def generations_of_def list_all_iff split: if_splits)

lemma current_filter:
  "plugin_current g st \<Longrightarrow> plugin_current g (st\<lparr>ps_queue := filter P (ps_queue st)\<rparr>)"
  using told_filter [of g "{}" undefined st P] by (simp add: told_def)

lemma mid_reclaim: "mid_inv (told g W) s \<Longrightarrow> mid_inv (told g W) (reclaim_obsolete_queued current now incl s)"
  unfolding reclaim_obsolete_queued_def by (rule mid_reclaim_plugins) (auto intro: told_filter)

lemma settled_cancel_for_query: "plugin_before g st \<Longrightarrow> settled g (cancel_for_query gate reason st)"
  by (auto simp: settled_def plugin_before_def cancel_for_query_def Let_def generations_of_def list_all_iff)

lemma cancel_for_query_ok: "plugin_ok False st \<Longrightarrow> plugin_ok False (cancel_for_query gate reason st)"
  by (auto simp: plugin_ok_def cancel_for_query_def Let_def)

lemma cancel_for_query_queue: "length (ps_queue (cancel_for_query gate reason st)) \<le> length (ps_queue st)"
  by (simp add: cancel_for_query_def Let_def)

lemma prepare_request_fields:
  "ps_policy (fst (prepare_request g now st)) = ps_policy st"
  "ps_enabled (fst (prepare_request g now st)) = ps_enabled st"
  "ps_queue (fst (prepare_request g now st)) = ps_queue st"
  "ps_in_flight (fst (prepare_request g now st)) = ps_in_flight st"
  by (simp_all add: prepare_request_def Let_def)

lemma prepared_slot_ok:
  "snd (prepare_request g now st) = Some req \<Longrightarrow>
   pr_generation (fst (prepared_slot h query req)) = h
   \<and> (pr_ready (fst (prepared_slot h query req)) \<or> pr_due_at (fst (prepared_slot h query req)) \<noteq> None)"
  by (auto simp: prepare_request_def Let_def split: if_splits)

text \<open>Taking a slot: the per-plugin bound and the global bound survive.\<close>

lemma make_room_length:
  "0 < capacity \<Longrightarrow> capacity = effective_queue_capacity p \<Longrightarrow>
   policy = effective_queue_policy p \<Longrightarrow> length queue \<le> queue_bound p \<Longrightarrow>
   \<not> (policy = RejectNewest \<and> capacity \<le> length queue) \<Longrightarrow>
   Suc (length (make_room policy capacity queue)) \<le> queue_bound p"
  by (cases policy) (auto simp: make_room_def queue_bound_def)

lemma make_room_reuse:
  "can_reuse_slot policy capacity (length queue) \<Longrightarrow> Suc (length (make_room policy capacity queue)) \<le> length queue"
  by (cases policy; cases queue) (auto simp: make_room_def can_reuse_slot_def)

lemma make_room_le: "length (make_room policy capacity queue) \<le> length queue"
  by (cases policy) (auto simp: make_room_def)

lemma make_room_suffix: "\<exists>n. make_room policy capacity queue = drop n queue"
proof (cases policy)
  case ReplaceOldest
  then have "make_room policy capacity queue = drop (length queue) queue" by (simp add: make_room_def)
  then show ?thesis ..
next
  case RejectNewest
  then have "make_room policy capacity queue = drop 0 queue" by (simp add: make_room_def)
  then show ?thesis ..
next
  case DropOldest
  then have "make_room policy capacity queue = drop (if capacity \<le> length queue then 1 else 0) queue"
    by (simp add: make_room_def drop_Suc)
  then show ?thesis ..
qed

lemma settled_enqueue:
  assumes "settled g st" and "pr_generation slot = g"
  shows "plugin_current g (st\<lparr>ps_queue := make_room policy capacity (ps_queue st) @ [slot]\<rparr>)"
proof -
  obtain n where n: "make_room policy capacity (ps_queue st) = drop n (ps_queue st)"
    using make_room_suffix by blast
  have sub: "set (drop n (ps_queue st)) \<subseteq> set (ps_queue st)" by (rule set_drop_subset)
  have before: "\<forall>h \<in> set (generations_of st). h < g" and dist: "distinct (generations_of st)"
    and gone: "\<forall>r \<in> set (ps_in_flight st). if_cancel_reason r \<noteq> None"
    using assms(1) by (auto simp: settled_def plugin_before_def list_all_iff)
  have "distinct (map pr_generation (drop n (ps_queue st)))"
    using dist by (simp add: generations_of_def drop_map [symmetric])
  moreover have "h < g" if "h \<in> if_generation ` set (ps_in_flight st) \<union> pr_generation ` set (drop n (ps_queue st))" for h
    using that before sub by (auto simp: generations_of_def)
  moreover have "if_generation ` set (ps_in_flight st) \<inter> pr_generation ` set (drop n (ps_queue st)) = {}"
    using dist sub by (auto simp: generations_of_def)
  ultimately show ?thesis
    using dist gone assms(2) unfolding n plugin_current_def generations_of_def list_all_iff
    by (auto simp: less_imp_le)
qed

lemma shape_enqueue:
  assumes shape: "shape_ok s" and at: "map_of (qs_plugins s) p = Some st"
    and room: "request_queue_capacity (qs_config s) \<le> total_queued s \<longrightarrow>
      can_reuse_slot policy capacity (length (ps_queue st))"
  shows "shape_ok (modify_plugin p (\<lambda>st'. st'\<lparr>ps_queue := make_room policy capacity (ps_queue st) @ [slot]\<rparr>) s)"
    (is "shape_ok ?s")
proof -
  have sum: "queue_total ?s + length (ps_queue st)
      = queue_total s + Suc (length (make_room policy capacity (ps_queue st)))"
    using queue_total_modify [OF shape_distinct [OF shape] at,
        of "\<lambda>st'. st'\<lparr>ps_queue := make_room policy capacity (ps_queue st) @ [slot]\<rparr>"] by simp
  have cap: "queue_total s \<le> request_queue_capacity (qs_config s)"
    "request_queue_capacity (qs_config s) \<le> usize_max"
    using shape by (simp_all add: shape_ok_def config_ok_def)
  have "queue_total ?s \<le> request_queue_capacity (qs_config s)"
  proof (cases "request_queue_capacity (qs_config s) \<le> total_queued s")
    case True
    with room have "Suc (length (make_room policy capacity (ps_queue st))) \<le> length (ps_queue st)"
      by (simp add: make_room_reuse)
    with sum cap show ?thesis by linarith
  next
    case False
    with cap have "queue_total s < request_queue_capacity (qs_config s)" by (auto simp: total_queued_eq)
    with sum make_room_le [of policy capacity "ps_queue st"] show ?thesis by linarith
  qed
  moreover have "fst ` set (qs_plugins ?s) = fst ` set (qs_plugins s)" by (rule framed_keys [OF framed_modify])
  moreover have "logs_ok ?s = logs_ok s" by (simp add: logs_ok_defs)
  ultimately show ?thesis using shape by (simp add: shape_ok_def)
qed

lemma plugin_ok_enqueue:
  assumes "plugin_ok False st" and "ps_enabled st"
    and "pr_ready slot \<or> pr_due_at slot \<noteq> None"
    and "Suc (length (make_room policy capacity (ps_queue st))) \<le> queue_bound (ps_policy st)"
  shows "plugin_ok False (st\<lparr>ps_queue := make_room policy capacity (ps_queue st) @ [slot]\<rparr>)"
proof -
  obtain n where n: "make_room policy capacity (ps_queue st) = drop n (ps_queue st)"
    using make_room_suffix by blast
  show ?thesis
    using assms in_set_dropD [of _ n "ps_queue st"] unfolding n plugin_ok_def by (auto simp: list_all_iff)
qed

lemma mid_admit:
  assumes mid: "mid_inv C s" and at: "map_of (qs_plugins s) p = Some st"
    and st: "settled g st" "ps_enabled st"
    and slot: "pr_generation (fst (prepared_slot g query req)) = g"
      "pr_ready (fst (prepared_slot g query req)) \<or> pr_due_at (fst (prepared_slot g query req)) \<noteq> None"
    and C: "\<And>k st. k \<noteq> p \<Longrightarrow> C k st \<Longrightarrow> D k st" "\<And>st. plugin_current g st \<Longrightarrow> D p st"
      "\<And>st. C p st \<Longrightarrow> D p st"
  shows "mid_inv D (admit_request p g query now req st s)"
proof -
  define policy capacity where "policy = effective_queue_policy (ps_policy st)"
    and "capacity = effective_queue_capacity (ps_policy st)"
  define enq where "enq = modify_plugin p
    (\<lambda>st'. st'\<lparr>ps_queue := make_room policy capacity (ps_queue st) @ [fst (prepared_slot g query req)]\<rparr>) s"
  have shape: "shape_ok s" and all: "all_plugins (\<lambda>k st. plugin_ok False st \<and> C k st) s"
    using mid by (simp_all add: mid_inv_def)
  have ok: "plugin_ok False st" using mid_lookup [OF mid at] by simp
  have D: "mid_inv D s" using mid by (rule mid_mono) (metis C(1) C(3))
  have drop: "mid_inv D (drop_request p g now policy (count_diagnostic get upd n s))" for get upd n
    by (rule mid_quiet [OF quiet_trans [OF quiet_count_diagnostic quiet_drop_request] D])
  have enq: "mid_inv D enq"
    if room: "request_queue_capacity (qs_config s) \<le> total_queued s \<longrightarrow>
        can_reuse_slot policy capacity (length (ps_queue st))"
      and fits: "capacity \<noteq> 0" "\<not> (policy = RejectNewest \<and> capacity \<le> length (ps_queue st))"
  proof -
    have "Suc (length (make_room policy capacity (ps_queue st))) \<le> queue_bound (ps_policy st)"
      using fits ok by (intro make_room_length) (auto simp: policy_def capacity_def plugin_ok_def)
    then have "plugin_ok False (st\<lparr>ps_queue := make_room policy capacity (ps_queue st)
        @ [fst (prepared_slot g query req)]\<rparr>)"
      by (rule plugin_ok_enqueue [OF ok st(2) slot(2)])
    moreover have "plugin_current g (st\<lparr>ps_queue := make_room policy capacity (ps_queue st)
        @ [fst (prepared_slot g query req)]\<rparr>)"
      by (rule settled_enqueue [OF st(1) slot(1)])
    ultimately have "all_plugins (\<lambda>k st. plugin_ok False st \<and> D k st) enq"
      unfolding enq_def using at C
      by (intro all_plugins_modify [OF all _ _ shape_distinct [OF shape]]) auto
    with shape_enqueue [OF shape at room] show ?thesis by (simp add: mid_inv_def enq_def)
  qed
  have "mid_inv D (push_trace e (note_evicted p now ev (note_superseded p now su enq)))"
    if "mid_inv D enq" for e ev su
    by (rule mid_quiet [OF quiet_trans [OF quiet_trans [OF quiet_note_superseded quiet_note_evicted]
            quiet_push_trace] that])
  then show ?thesis
    using drop enq
    by (simp add: admit_request_def Let_def case_prod_beta policy_def [symmetric] capacity_def [symmetric]
        enq_def [symmetric])
qed

text \<open>
  The first half of \<open>process_query_for_plugin\<close>: the plugin's outstanding work is
  cancelled and the cancellations are announced.
\<close>

definition query_cancelled ::
  "string \<Rightarrow> millis \<Rightarrow> plugin_id \<Rightarrow> plugin_state \<Rightarrow> query_scheduler \<Rightarrow> query_scheduler" where
  "query_cancelled normalized now p st s =
     (let gate = gate_for_query st normalized;
          reason = (if gate \<noteq> None then NoLongerRelevant else QueryChanged)
      in emit_cancellations p reason now (query_cancellations gate st)
           (modify_plugin p (cancel_for_query gate reason) s))"

lemma process_query_eq:
  "map_of (qs_plugins s) p = Some st \<Longrightarrow>
   process_query_for_plugin g query normalized now p s =
     (case gate_for_query st normalized of
        Some why \<Rightarrow> Some (push_trace (TrDebounce now p g (DecGated why)) (query_cancelled normalized now p st s))
      | None \<Rightarrow>
          (case map_of (qs_plugins (query_cancelled normalized now p st s)) p of
             None \<Rightarrow> None
           | Some st2 \<Rightarrow>
               (case snd (prepare_request g now st2) of
                  None \<Rightarrow> Some (modify_plugin p (\<lambda>_. fst (prepare_request g now st2))
                                (query_cancelled normalized now p st s))
                | Some req \<Rightarrow> Some (admit_request p g query now req (fst (prepare_request g now st2))
                                (modify_plugin p (\<lambda>_. fst (prepare_request g now st2))
                                  (query_cancelled normalized now p st s))))))"
  unfolding process_query_for_plugin_def query_cancelled_def Let_def case_prod_beta by simp

lemma framed_query_cancelled: "framed s (query_cancelled normalized now p st s)"
  unfolding query_cancelled_def Let_def
  by (rule framed_trans [OF framed_modify quiet_framed [OF quiet_emit_cancellations]])

definition settling :: "generation \<Rightarrow> plugin_id set \<Rightarrow> plugin_id \<Rightarrow> plugin_id \<Rightarrow> plugin_state \<Rightarrow> bool" where
  "settling g W p k st = (if k = p then settled g st else told g W k st)"

lemma settling_told: "settling g W p k st \<Longrightarrow> told g (W - {p}) k st"
  by (auto simp: settling_def told_def settled_current split: if_splits)

lemma mid_query_cancelled:
  assumes "mid_inv (told g W) s" and "p \<in> W"
  shows "mid_inv (settling g W p) (query_cancelled normalized now p st s)"
proof -
  have "mid_inv (settling g W p) (modify_plugin p (cancel_for_query gate reason) s)" for gate reason
    using assms(1)
    by (rule mid_modify) (auto simp: settling_def told_def assms(2) settled_cancel_for_query
        cancel_for_query_ok cancel_for_query_queue)
  then show ?thesis
    unfolding query_cancelled_def Let_def by (rule mid_quiet [OF quiet_emit_cancellations])
qed

lemma query_cancelled_lookup:
  assumes "map_of (qs_plugins s) p = Some st"
  obtains st2 reason where "map_of (qs_plugins (query_cancelled normalized now p st s)) p = Some st2"
    and "strip st2 = strip (cancel_for_query (gate_for_query st normalized) reason st)"
proof -
  define gate reason where "gate = gate_for_query st normalized"
    and "reason = (if gate \<noteq> None then NoLongerRelevant else QueryChanged)"
  have "map_of (qs_plugins (modify_plugin p (cancel_for_query gate reason) s)) p
      = Some (cancel_for_query gate reason st)"
    by (simp add: assms lookup_simps)
  from quiet_lookup [OF quiet_emit_cancellations this] that show thesis
    unfolding query_cancelled_def Let_def gate_def reason_def by blast
qed

lemma gate_None_enabled: "gate_for_query st normalized = None \<Longrightarrow> ps_enabled st"
  by (auto simp: gate_for_query_def split: if_splits)

lemma settled_prepare: "settled g st \<Longrightarrow> settled g (fst (prepare_request h now st))"
  by (simp add: settled_def plugin_before_def generations_of_def prepare_request_fields)

lemma plugin_ok_prepare: "plugin_ok b st \<Longrightarrow> plugin_ok b (fst (prepare_request h now st))"
  by (simp add: plugin_ok_def prepare_request_fields)

lemma process_query_mid:
  assumes mid: "mid_inv (told g W) s" and p: "p \<in> W"
  shows "\<exists>s'. process_query_for_plugin g query normalized now p s = Some s'
    \<and> mid_inv (told g (W - {p})) s' \<and> framed s s'"
proof (cases "map_of (qs_plugins s) p")
  case None
  then have "mid_inv (told g (W - {p})) s"
    using mid by (elim mid_mono) (auto simp: told_def map_of_eq_None_iff)
  with None show ?thesis by (simp add: process_query_for_plugin_def)
next
  case (Some st)
  let ?s = "query_cancelled normalized now p st s"
  note at = Some and eq = process_query_eq [OF Some, of g query normalized now]
  note mid2 = mid_query_cancelled [OF mid p, of normalized now st]
  show ?thesis
  proof (cases "gate_for_query st normalized")
    case (Some why)
    have "mid_inv (told g (W - {p})) (push_trace (TrDebounce now p g (DecGated why)) ?s)"
      by (rule mid_quiet [OF quiet_push_trace mid_mono [OF mid2 settling_told]])
    with eq Some show ?thesis
      by (auto intro: framed_trans [OF framed_query_cancelled quiet_framed])
  next
    case None
    obtain st2 reason where st2: "map_of (qs_plugins ?s) p = Some st2"
      and strip2: "strip st2 = strip (cancel_for_query (gate_for_query st normalized) reason st)"
      by (rule query_cancelled_lookup [OF at])
    let ?st = "fst (prepare_request g now st2)" and ?t = "modify_plugin p (\<lambda>_. fst (prepare_request g now st2)) ?s"
    have ok2: "plugin_ok False st2" "settled g st2" using mid_lookup [OF mid2 st2] by (simp_all add: settling_def)
    have enabled: "ps_enabled ?st"
      using gate_None_enabled [OF None] strip_eqD(2) [OF strip2]
      by (simp add: prepare_request_fields cancel_for_query_def Let_def)
    have mid3: "mid_inv (settling g W p) ?t"
      using ok2 by (intro mid_modify [OF mid2])
        (auto simp: st2 settling_def settled_prepare plugin_ok_prepare prepare_request_fields)
    have frame3: "framed s ?t" by (rule framed_trans [OF framed_query_cancelled framed_modify])
    have at3: "map_of (qs_plugins ?t) p = Some ?st" by (simp add: st2 lookup_simps)
    show ?thesis
    proof (cases "snd (prepare_request g now st2)")
      case no_request: None
      with eq None st2 frame3 mid_mono [OF mid3 settling_told] show ?thesis by simp
    next
      case (Some req)
      have "mid_inv (told g (W - {p})) (admit_request p g query now req ?st ?t)"
        using prepared_slot_ok [OF Some] settling_told
        by (intro mid_admit [OF mid3 at3 settled_prepare [OF ok2(2)] enabled]) (auto simp: told_def)
      with eq None st2 Some framed_trans [OF frame3 framed_admit] show ?thesis by simp
    qed
  qed
qed

lemma process_queries_mid:
  "mid_inv (told g W) s \<Longrightarrow> distinct ps \<Longrightarrow> set ps \<subseteq> W \<Longrightarrow>
   \<exists>s'. process_query_for_plugins g query normalized now ps s = Some s'
     \<and> mid_inv (told g (W - set ps)) s' \<and> framed s s'"
proof (induction ps arbitrary: s W)
  case (Cons p ps)
  then have "p \<in> W" by simp
  from process_query_mid [OF Cons.prems(1) this] obtain s1 where
    s1: "process_query_for_plugin g query normalized now p s = Some s1"
      "mid_inv (told g (W - {p})) s1" "framed s s1" by blast
  have "set ps \<subseteq> W - {p}" and "distinct ps" using Cons.prems by auto
  from Cons.IH [OF s1(2) this(2,1)] s1 show ?case
    by (auto simp: Diff_insert2 [symmetric] insert_commute intro: framed_trans)
qed simp

lemma told_all: "mid_inv (\<lambda>_. plugin_current g) s \<longleftrightarrow> mid_inv (told g {}) s"
  by (simp add: mid_inv_def told_def)

lemma current_before: "plugin_current h st \<Longrightarrow> h < g \<Longrightarrow> plugin_before g st"
  by (auto simp: plugin_current_def plugin_before_def list_all_iff)

text \<open>
  Submitting a query panics only when the generations are exhausted; otherwise it returns
  the next generation and keeps the invariant.
\<close>

lemma submit_query_inv:
  assumes inv: "sched_inv s" and fresh: "sched_current_generation s \<noteq> - 1"
  obtains s' where "submit_query query now s = Some (s', sched_current_generation s + 1)"
    and "sched_inv s'" and "sched_current_generation s' = sched_current_generation s + 1"
    and "qs_shutdown s' = qs_shutdown s" and "qs_plugin_order s' = qs_plugin_order s"
proof -
  define g where "g = sched_current_generation s + 1"
  define t where "t = snd (observe_now s now)"
  define s1 where "s1 = push_trace (TrKeystroke t g (length (to_lowercase (trim query))))
    ((fst (observe_now s now))\<lparr>qs_generations := \<lparr>gt_current = g\<rparr>, qs_result_queue_depth := 0\<rparr>)"
  have adv: "advance (qs_generations s) = Some (g, \<lparr>gt_current = g\<rparr>)"
    using fresh by (simp add: advance_Some_iff g_def sched_current_generation_def tracker_current_def)
  have less: "sched_current_generation s < g" unfolding g_def using fresh by (rule word_inc_less)
  have cur1: "sched_current_generation s1 = g"
    by (simp add: s1_def sched_current_generation_def tracker_current_def)
  have fields1: "qs_shutdown s1 = qs_shutdown s" "qs_plugin_order s1 = qs_plugin_order s"
    by (simp_all add: s1_def)
  have before: "shape_ok s1 \<and> all_plugins (\<lambda>_ st. plugin_ok (qs_shutdown s) st \<and> plugin_before g st) s1"
  proof -
    let ?u = "(fst (observe_now s now))\<lparr>qs_generations := \<lparr>gt_current = g\<rparr>, qs_result_queue_depth := 0\<rparr>"
    have "shape_ok ?u"
      using inv by (simp add: sched_inv_def shape_ok_def queue_total_def logs_ok_defs)
    moreover have "all_plugins (\<lambda>_ st. plugin_ok (qs_shutdown s) st \<and> plugin_before g st) s"
      using inv unfolding sched_inv_def by (auto elim!: all_plugins_mono intro: current_before [OF _ less])
    then have "all_plugins (\<lambda>_ st. plugin_ok (qs_shutdown s) st \<and> plugin_before g st) ?u"
      by (simp add: all_plugins_def)
    ultimately show ?thesis
      unfolding s1_def using quiet_shape [OF quiet_push_trace] all_plugins_quiet [OF quiet_push_trace] by blast
  qed
  show thesis
  proof (cases "qs_shutdown s")
    case True
    have "plugin_current g st" if "plugin_ok True st" for st
      using that by (simp add: plugin_ok_def plugin_current_def generations_of_def)
    then have "sched_inv s1"
      using before True by (auto simp: sched_inv_def cur1 fields1 elim!: all_plugins_mono)
    then show thesis
      using that [of s1] True adv cur1 fields1
      by (simp add: submit_query_def Let_def case_prod_beta s1_def t_def g_def)
  next
    case False
    let ?W = "set (qs_plugin_order s)"
    define s2 where "s2 = reclaim_obsolete_queued g t False s1"
    define visits where "visits = filter (reclaims_replace_slot g s2) (qs_plugin_order s2)
       @ filter (\<lambda>p. \<not> reclaims_replace_slot g s2 p) (qs_plugin_order s2)"
    have keys: "fst ` set (qs_plugins s1) = ?W"
      using before fields1 by (simp add: shape_ok_def)
    have "mid_inv (told g ?W) s1"
      using before False unfolding mid_inv_def by (elim conjE, intro conjI)
        (assumption, erule all_plugins_mono, simp add: told_def keys)
    then have mid2: "mid_inv (told g ?W) s2" unfolding s2_def by (rule mid_reclaim)
    have frame2: "framed s1 s2" unfolding s2_def ..
    have "distinct (qs_plugin_order s2)" using mid2 by (simp add: mid_inv_def shape_ok_def)
    then have "distinct visits" by (auto simp: visits_def)
    moreover have "set visits = ?W" using frame2 fields1 by (auto simp: visits_def framed_def)
    ultimately obtain s3 where
      s3: "process_query_for_plugins g query (to_lowercase (trim query)) t visits s2 = Some s3"
        "mid_inv (told g {}) s3" "framed s2 s3"
      using process_queries_mid [OF mid2, of visits query "to_lowercase (trim query)" t] by auto
    have frame3: "framed s1 s3" using frame2 s3(3) by (rule framed_trans)
    then have cur3: "sched_current_generation s3 = g" by (simp add: framed_current cur1)
    have "sched_inv s3"
      using s3(2) False frame3 fields1 by (subst inv_mid_iff [OF _ cur3]) (auto simp: told_all framed_def)
    moreover have "submit_query query now s = Some (s3, g)"
      using False adv s3(1) fields1
      by (simp add: submit_query_def Let_def case_prod_beta s1_def [symmetric] t_def [symmetric]
          s2_def [symmetric] visits_def [symmetric])
    ultimately show thesis
      using that [of s3] cur3 frame3 fields1 by (simp add: g_def framed_def)
  qed
qed

end
