(* ===== verification/Scheduler_Tick.thy ===== *)
theory Scheduler_Tick
  imports Scheduler_Inv
begin

text \<open>
  Ticks: the invariant, and the specification of \<open>tick\<close> as the eligible plugins in
  rotation order cut off at the budget.
\<close>

section \<open>Requests of the newest generation only\<close>

definition only_current :: "generation \<Rightarrow> plugin_state \<Rightarrow> bool" where
  "only_current g st \<longleftrightarrow> list_all (\<lambda>r. pr_generation r = g) (ps_queue st)"

lemma only_current_strip [simp]: "only_current g (strip st) = only_current g st"
  by (simp add: only_current_def)

text \<open>No generation occurs twice in a plugin, so such a queue holds one request at most.\<close>

lemma only_current_queue:
  assumes "plugin_current g st" and "only_current g st"
  obtains "ps_queue st = []" | r where "ps_queue st = [r]" and "pr_generation r = g"
    and "g \<notin> if_generation ` set (ps_in_flight st)"
proof (cases "ps_queue st")
  case (Cons r rs)
  show thesis
  proof (cases rs)
    case Nil
    with Cons assms that(2) [of r] show thesis
      by (auto simp: plugin_current_def only_current_def generations_of_def)
  next
    case (Cons r' rs')
    with \<open>ps_queue st = r # rs\<close> assms show thesis
      by (simp add: plugin_current_def only_current_def generations_of_def)
  qed
qed (rule that(1))

definition tick_inv :: "generation \<Rightarrow> query_scheduler \<Rightarrow> bool" where
  "tick_inv g s \<longleftrightarrow> mid_inv (\<lambda>_ st. plugin_current g st \<and> only_current g st) s"

lemma tick_inv_quiet: "quiet s s' \<Longrightarrow> tick_inv g s \<Longrightarrow> tick_inv g s'"
  unfolding tick_inv_def by (rule mid_quiet)

lemma tick_inv_mid: "tick_inv g s \<Longrightarrow> mid_inv (\<lambda>_. plugin_current g) s"
  unfolding tick_inv_def by (erule mid_mono) simp

lemma tick_inv_lookup:
  "tick_inv g s \<Longrightarrow> map_of (qs_plugins s) p = Some st \<Longrightarrow>
   plugin_ok False st \<and> plugin_current g st \<and> only_current g st"
  unfolding tick_inv_def by (drule (1) mid_lookup) simp

section \<open>Reclaiming\<close>

text \<open>What \<open>reclaim_obsolete_queued\<close> and the maturing loop make of one plugin.\<close>

definition reclaimed :: "generation \<Rightarrow> bool \<Rightarrow> plugin_state \<Rightarrow> plugin_state" where
  "reclaimed g incl st =
     (if \<not> incl \<and> effective_queue_policy (ps_policy st) = ReplaceOldest then st
      else st\<lparr>ps_queue := filter (\<lambda>r. pr_generation r = g) (ps_queue st)\<rparr>)"

lemma fold_map_of_other:
  assumes "\<And>p s. k \<noteq> p \<Longrightarrow> map_of (qs_plugins (f p s)) k = map_of (qs_plugins s) k"
  shows "k \<notin> set ps \<Longrightarrow> map_of (qs_plugins (fold f ps s)) k = map_of (qs_plugins s) k"
  by (induction ps arbitrary: s) (auto simp: assms)

definition view :: "query_scheduler \<Rightarrow> plugin_id \<Rightarrow> plugin_state option" where
  "view s p = map_option strip (map_of (qs_plugins s) p)"

lemma view_quiet: "quiet s s' \<Longrightarrow> view s' p = view s p"
  unfolding view_def map_of_stripped [symmetric] by (simp add: quiet_def)

lemma view_modify:
  "view (modify_plugin p f s) k =
     (if k = p then map_option (\<lambda>st. strip (f st)) (map_of (qs_plugins s) p) else view s k)"
  by (simp add: view_def lookup_simps option.map_comp comp_def)

lemma view_fold_each:
  assumes step: "\<And>p s k. view (f p s) k = (if k = p then map_option h (view s k) else view s k)"
  shows "distinct ps \<Longrightarrow> view (fold f ps s) k = (if k \<in> set ps then map_option h (view s k) else view s k)"
  by (induction ps arbitrary: s) (auto simp: step)

lemma strip_reclaimed: "strip (reclaimed g incl st) = reclaimed g incl (strip st)"
  by (simp add: reclaimed_def strip_def)

lemma view_reclaim_plugin:
  "view (reclaim_plugin g now incl p s) k =
     (if k = p then map_option (reclaimed g incl) (view s k) else view s k)"
proof (cases "map_of (qs_plugins s) p")
  case None
  then show ?thesis by (simp add: reclaim_plugin_def view_def)
next
  case (Some st)
  let ?keep = "modify_plugin p (\<lambda>st. st\<lparr>ps_queue := filter (\<lambda>r. pr_generation r = g) (ps_queue st)\<rparr>) s"
  show ?thesis
  proof (cases "\<not> incl \<and> effective_queue_policy (ps_policy st) = ReplaceOldest")
    case True
    with Some show ?thesis by (simp add: reclaim_plugin_def Let_def view_def reclaimed_def)
  next
    case False
    have "quiet ?keep (reclaim_plugin g now incl p s)"
      using Some False
      by (auto simp: reclaim_plugin_def Let_def
          intro: quiet_trans [OF quiet_trans [OF quiet_count_plugin quiet_count_diagnostic] quiet_push_traces])
    from view_quiet [OF this] Some False show ?thesis
      by (simp add: view_modify) (auto simp: view_def reclaimed_def strip_def)
  qed
qed

lemma view_reclaim:
  assumes "shape_ok s"
  shows "view (reclaim_obsolete_queued g now incl s) k = map_option (reclaimed g incl) (view s k)"
proof -
  have "distinct (qs_plugin_order s)" using assms by (simp add: shape_ok_def)
  then show ?thesis
    using shape_keys_set [OF assms, of k]
    unfolding reclaim_obsolete_queued_def
    by (subst view_fold_each [OF view_reclaim_plugin]) (auto simp: view_def)
qed

section \<open>Maturing\<close>

definition matured :: "millis \<Rightarrow> plugin_state \<Rightarrow> plugin_state" where
  "matured now st =
     st\<lparr>ps_queue := map (mature_request now) (ps_queue st),
        ps_burst_started :=
          (if due_requests now (ps_queue st) = [] then ps_burst_started st else None)\<rparr>"

lemma view_mature_plugin:
  "view (mature_plugin now p s) k = (if k = p then map_option (matured now) (view s k) else view s k)"
proof (cases "map_of (qs_plugins s) p")
  case None
  then show ?thesis by (simp add: mature_plugin_def view_def)
next
  case (Some st)
  let ?due = "due_requests now (ps_queue st)"
  let ?f = "\<lambda>st'. st'\<lparr>ps_queue := map (mature_request now) (ps_queue st'),
       ps_burst_started := (if ?due = [] then ps_burst_started st' else None)\<rparr>"
  have "quiet (modify_plugin p ?f s) (mature_plugin now p s)"
    using Some by (auto simp: mature_plugin_def Let_def)
  from view_quiet [OF this] Some show ?thesis
    by (simp add: view_modify) (simp add: view_def matured_def strip_def)
qed

lemma view_mature:
  assumes "shape_ok s"
  shows "view (fold (mature_plugin now) (qs_plugin_order s) s) k = map_option (matured now) (view s k)"
proof -
  have "distinct (qs_plugin_order s)" using assms by (simp add: shape_ok_def)
  then show ?thesis
    using shape_keys_set [OF assms, of k]
    by (subst view_fold_each [OF view_mature_plugin]) (auto simp: view_def)
qed

lemma mature_request_fields [simp]:
  "pr_generation (mature_request now r) = pr_generation r"
  "pr_query (mature_request now r) = pr_query r"
  by (simp_all add: mature_request_def)

lemma mature_request_ready: "pr_ready (mature_request now r) \<longleftrightarrow> pr_ready r \<or> is_due now r"
  by (auto simp: mature_request_def is_due_def)

lemma generations_of_matured [simp]: "generations_of (matured now st) = generations_of st"
  by (simp add: generations_of_def matured_def)

lemma matured_ok: "plugin_ok b st \<Longrightarrow> plugin_ok b (matured now st)"
  by (auto simp: plugin_ok_def matured_def list_all_iff mature_request_def)

lemma mid_mature_plugin:
  assumes "mid_inv C s" and "\<And>k st. C k (strip st) \<Longrightarrow> C k (strip (matured now st))"
  shows "mid_inv C (mature_plugin now p s)"
proof (cases "map_of (qs_plugins s) p")
  case None
  with assms show ?thesis by (simp add: mature_plugin_def)
next
  case (Some st)
  let ?due = "due_requests now (ps_queue st)"
  let ?f = "\<lambda>st'. st'\<lparr>ps_queue := map (mature_request now) (ps_queue st'),
       ps_burst_started := (if ?due = [] then ps_burst_started st' else None)\<rparr>"
  have "mid_inv C (modify_plugin p ?f s)"
  proof (rule mid_modify [OF assms(1)])
    fix st' assume st': "map_of (qs_plugins s) p = Some st'" "plugin_ok False st'" "C p (strip st')"
    then have "st' = st" using Some by simp
    then have eq: "?f st' = matured now st'" by (simp add: matured_def)
    show "length (ps_queue (?f st')) \<le> length (ps_queue st') \<and> plugin_ok False (?f st') \<and> C p (strip (?f st'))"
      unfolding eq using assms(2) st'(2,3) by (simp add: matured_ok) (simp add: matured_def)
  qed
  from mid_quiet [OF quiet_due_traces this] Some show ?thesis by (simp add: mature_plugin_def Let_def)
qed

lemma mid_mature:
  "mid_inv C s \<Longrightarrow> (\<And>k st. C k (strip st) \<Longrightarrow> C k (strip (matured now st))) \<Longrightarrow>
   mid_inv C (fold (mature_plugin now) ps s)"
  by (induction ps arbitrary: s) (auto intro: mid_mature_plugin)

section \<open>The state a tick dispatches from\<close>

lemma framed_tick_prepare: "framed s (tick_prepare now s)"
  unfolding tick_prepare_def Let_def
  by (rule framed_trans [OF framed_trans [OF framed_reclaim framed_fold [OF framed_mature_plugin]]
        quiet_framed [OF quiet_record_explicit]])

lemma shape_quiet_view: "shape_ok s \<Longrightarrow> quiet s s' \<Longrightarrow> shape_ok s'"
  by (rule quiet_shape)

lemma mid_reclaim_current:
  "mid_inv (\<lambda>_. plugin_current g) s \<Longrightarrow>
   mid_inv (\<lambda>_. plugin_current g) (reclaim_obsolete_queued h now incl s)"
  unfolding told_all by (rule mid_reclaim)

lemma view_tick_prepare:
  assumes "mid_inv (\<lambda>_. plugin_current (sched_current_generation s)) s"
  shows "view (tick_prepare now s) k =
    map_option (\<lambda>st. matured now (reclaimed (sched_current_generation s) True st)) (view s k)"
proof -
  let ?r = "reclaim_obsolete_queued (sched_current_generation s) now True s"
  have "shape_ok s" and "shape_ok ?r"
    using assms mid_reclaim_current [OF assms] by (simp_all add: mid_inv_def)
  then show ?thesis
    by (simp add: tick_prepare_def Let_def view_quiet [OF quiet_record_explicit] view_mature view_reclaim
        option.map_comp comp_def)
qed

lemma matured_preds:
  "plugin_current g st \<Longrightarrow> plugin_current g (matured now st)"
  "only_current g st \<Longrightarrow> only_current g (matured now st)"
  by (simp add: plugin_current_def) (simp add: matured_def plugin_current_def,
      auto simp: only_current_def matured_def list_all_iff)

lemma tick_inv_prepare:
  assumes "mid_inv (\<lambda>_. plugin_current (sched_current_generation s)) s"
  shows "tick_inv (sched_current_generation s) (tick_prepare now s)"
proof -
  let ?g = "sched_current_generation s"
  let ?r = "reclaim_obsolete_queued ?g now True s"
  have r: "mid_inv (\<lambda>_. plugin_current ?g) ?r" by (rule mid_reclaim_current [OF assms])
  have "shape_ok s" using assms by (simp add: mid_inv_def)
  note v = view_reclaim [OF this, of ?g now True]
  have "only_current ?g st" if "map_of (qs_plugins ?r) k = Some st" for k st
  proof -
    have "view ?r k = Some (strip st)" by (simp add: view_def that)
    with v [of k] obtain st0 where "strip st = reclaimed ?g True st0" by (metis map_option_eq_Some)
    then have "only_current ?g (strip st)" by (simp add: only_current_def reclaimed_def list_all_iff)
    then show ?thesis by simp
  qed
  then have "tick_inv ?g ?r"
    using r by (auto simp: tick_inv_def mid_inv_def all_plugins_def list_all_iff shape_ok_def)
  then have "tick_inv ?g (fold (mature_plugin now) (qs_plugin_order ?r) ?r)"
    unfolding tick_inv_def by (rule mid_mature) (simp add: matured_preds)
  from tick_inv_quiet [OF quiet_record_explicit this] show ?thesis
    by (simp add: tick_prepare_def Let_def)
qed

section \<open>One dispatch\<close>

lemma dispatch_one_Some_iff:
  "dispatch_one now p s = Some (s', r) \<Longrightarrow>
   \<exists>st pending rest. map_of (qs_plugins s) p = Some st \<and> ps_queue st = pending # rest
     \<and> length (ps_in_flight st) < effective_concurrency_limit (ps_policy st) \<and> pr_ready pending
     \<and> r = \<lparr>dr_plugin = p, dr_generation = pr_generation pending, dr_query = pr_query pending,
             dr_dispatched_at = now\<rparr>"
  by (auto simp: dispatch_one_def Let_def split: option.splits list.splits if_splits)

text \<open>The request a plugin would be handed: the observable part of \<open>dispatch_one\<close>.\<close>

definition next_request :: "millis \<Rightarrow> query_scheduler \<Rightarrow> plugin_id \<Rightarrow> dispatched_request option" where
  "next_request now s p = map_option snd (dispatch_one now p s)"

lemma next_request_view:
  "next_request now s p =
     (case view s p of
        None \<Rightarrow> None
      | Some st \<Rightarrow>
          (case ps_queue st of
             [] \<Rightarrow> None
           | pending # _ \<Rightarrow>
               (if length (ps_in_flight st) < effective_concurrency_limit (ps_policy st) \<and> pr_ready pending
                then Some \<lparr>dr_plugin = p, dr_generation = pr_generation pending, dr_query = pr_query pending,
                           dr_dispatched_at = now\<rparr>
                else None)))"
  by (cases "map_of (qs_plugins s) p"; cases "ps_queue (the (map_of (qs_plugins s) p))")
    (auto simp: next_request_def view_def dispatch_one_def Let_def)

lemma next_request_cong: "view s' p = view s p \<Longrightarrow> next_request now s' p = next_request now s p"
  by (simp add: next_request_view)

definition dispatched_state :: "millis \<Rightarrow> pending_request \<Rightarrow> pending_request list \<Rightarrow> plugin_state \<Rightarrow> plugin_state" where
  "dispatched_state now pending rest st =
     st\<lparr>ps_queue := rest,
        ps_in_flight := ps_in_flight st @
          [\<lparr>if_generation = pr_generation pending, if_dispatched_at = now, if_cancel_reason = None,
            if_first_result_recorded = False, if_final_result_recorded = False\<rparr>],
        ps_diagnostics := (ps_diagnostics st)
          \<lparr>pd_dispatched_requests := sat_add (pd_dispatched_requests (ps_diagnostics st)) 1,
           pd_last_dispatched_at := Some now\<rparr>\<rparr>"

lemma dispatch_one_quiet:
  assumes "dispatch_one now p s = Some (s', r)" and "map_of (qs_plugins s) p = Some st"
    and "ps_queue st = pending # rest"
  shows "quiet (modify_plugin p (dispatched_state now pending rest) s) s'"
  using assms
  by (auto simp: dispatch_one_def Let_def dispatched_state_def [abs_def] split: if_splits
      intro: quiet_trans [OF quiet_count_diagnostic quiet_push_trace])

lemma dispatched_state_preds:
  assumes "plugin_ok False st" and "plugin_current g st" and "only_current g st"
    and "ps_queue st = pending # rest"
  shows "plugin_ok False (dispatched_state now pending rest st)"
    and "plugin_current g (dispatched_state now pending rest st)"
    and "only_current g (dispatched_state now pending rest st)"
  using assms
  by (auto simp: plugin_ok_def dispatched_state_def plugin_current_def only_current_def generations_of_def
      list_all_iff)

lemma dispatch_one_step:
  assumes inv: "tick_inv g s" and d: "dispatch_one now p s = Some (s', r)"
  shows "tick_inv g s'" and "framed s s'" and "dispatch_one now p s' = None"
    and "k \<noteq> p \<Longrightarrow> view s' k = view s k"
proof -
  from dispatch_one_Some_iff [OF d] obtain st pending rest where
    at: "map_of (qs_plugins s) p = Some st" and q: "ps_queue st = pending # rest" by blast
  let ?m = "modify_plugin p (dispatched_state now pending rest) s"
  note quiet = dispatch_one_quiet [OF d at q]
  have st: "plugin_ok False st" "plugin_current g st" "only_current g st"
    using tick_inv_lookup [OF inv at] by simp_all
  have "tick_inv g ?m"
    using dispatched_state_preds [OF st q, of now] unfolding tick_inv_def
    by (intro mid_modify [OF inv [unfolded tick_inv_def]]) (auto simp: at dispatched_state_def q)
  then show "tick_inv g s'" by (rule tick_inv_quiet [OF quiet])
  show "framed s s'" by (rule framed_trans [OF framed_modify quiet_framed [OF quiet]])
  show "k \<noteq> p \<Longrightarrow> view s' k = view s k" by (simp add: view_quiet [OF quiet] view_modify)
  have "rest = []" using only_current_queue [OF st(2,3)] q by auto
  then have "view s' p = Some (strip (dispatched_state now pending [] st))"
    by (simp add: view_quiet [OF quiet] view_modify at)
  then have "next_request now s' p = None" by (simp add: next_request_view dispatched_state_def)
  then show "dispatch_one now p s' = None" by (simp add: next_request_def)
qed

section \<open>A plugin's turn, and the round\<close>

text \<open>The per-plugin budget never matters beyond the first request: there is only one.\<close>

lemma dispatch_plugin_None: "dispatch_one now p s = None \<Longrightarrow> dispatch_plugin n now p (s, out) = (s, out)"
  by (cases n) simp_all

lemma dispatch_plugin_once:
  assumes "tick_inv g s" and "0 < n" and "length out < dispatch_budget_per_tick (qs_config s)"
  shows "dispatch_plugin n now p (s, out) =
    (case dispatch_one now p s of None \<Rightarrow> (s, out) | Some (s', r) \<Rightarrow> (s', out @ [r]))"
proof (cases n)
  case (Suc m)
  show ?thesis
  proof (cases "dispatch_one now p s")
    case (Some sr)
    obtain s' r where sr: "sr = (s', r)" by (cases sr)
    have "dispatch_one now p s' = None" using dispatch_one_step(3) [OF assms(1)] Some sr by simp
    then show ?thesis using Suc Some sr assms(3) by (simp add: dispatch_plugin_None)
  qed (simp add: Suc)
qed (use assms in simp)

lemma map_filter_same: "(\<And>x. x \<in> set xs \<Longrightarrow> f x = g x) \<Longrightarrow> List.map_filter f xs = List.map_filter g xs"
  by (induction xs) (auto simp: map_filter_simps split: option.splits)

lemma map_filter_map: "List.map_filter f (map g xs) = List.map_filter (\<lambda>x. f (g x)) xs"
  by (induction xs) (auto simp: map_filter_simps split: option.splits)

text \<open>
  The whole round: the requests handed out, the last plugin served, and that the plugins
  not served are as they were.
\<close>

definition last_served :: "nat list \<Rightarrow> nat option \<Rightarrow> nat option" where
  "last_served hits before = (if hits = [] then before else Some (last hits))"

lemma dispatch_round_spec:
  "tick_inv g s \<Longrightarrow> 0 < per_plugin_dispatch_budget (qs_config s) \<Longrightarrow>
   length out \<le> dispatch_budget_per_tick (qs_config s) \<Longrightarrow> distinct (map (\<lambda>i. plugins ! i) is) \<Longrightarrow>
   dispatch_round now plugins is (s, out, served) = (s', out', served') \<Longrightarrow>
   out' = take (dispatch_budget_per_tick (qs_config s))
            (out @ List.map_filter (\<lambda>i. next_request now s (plugins ! i)) is)
   \<and> served' = last_served (take (dispatch_budget_per_tick (qs_config s) - length out)
                 (filter (\<lambda>i. next_request now s (plugins ! i) \<noteq> None) is)) served
   \<and> (\<forall>p. p \<notin> dr_plugin ` set out' \<longrightarrow> view s' p = view s p)
   \<and> tick_inv g s' \<and> framed s s'"
proof (induction "is" arbitrary: s out served)
  case Nil
  then show ?case by (simp add: map_filter_simps last_served_def)
next
  case (Cons i "is")
  let ?p = "plugins ! i" and ?B = "dispatch_budget_per_tick (qs_config s)"
  let ?req = "\<lambda>s i. next_request now s (plugins ! i)"
  show ?case
  proof (cases "?B \<le> length out")
    case True
    with Cons.prems show ?thesis by (simp add: last_served_def)
  next
    case False
    then have room: "length out < ?B" by simp
    note once = dispatch_plugin_once [OF Cons.prems(1,2) room, of now ?p]
    show ?thesis
    proof (cases "dispatch_one now ?p s")
      case None
      with Cons.IH [of s out served] Cons.prems False once show ?thesis
        by (simp add: map_filter_simps next_request_def)
    next
      case (Some sr)
      obtain s1 r where sr: "sr = (s1, r)" by (cases sr)
      note step = dispatch_one_step [OF Cons.prems(1) Some [unfolded sr]]
      have cfg: "qs_config s1 = qs_config s" using step(2) by (simp add: framed_def)
      have r: "dr_plugin r = ?p" "?req s i = Some r"
        using dispatch_one_Some_iff [OF Some [unfolded sr]] Some sr by (auto simp: next_request_def)
      have same: "?req s1 j = ?req s j" if "j \<in> set is" for j
        using Cons.prems(4) that by (intro next_request_cong step(4)) (auto simp: image_iff)
      have rest: "dispatch_round now plugins is (s1, out @ [r], Some i) = (s', out', served')"
        using Cons.prems(5) False once Some sr by simp
      have IH: "out' = take ?B ((out @ [r]) @ List.map_filter (?req s) is)
          \<and> served' = last_served (take (?B - length (out @ [r])) (filter (\<lambda>i. ?req s i \<noteq> None) is)) (Some i)
          \<and> (\<forall>p. p \<notin> dr_plugin ` set out' \<longrightarrow> view s' p = view s1 p) \<and> tick_inv g s' \<and> framed s1 s'"
        using Cons.IH [OF step(1) _ _ _ rest] Cons.prems(2,4) room cfg
          map_filter_same [of "is" "?req s1" "?req s"] filter_cong [OF refl, of "is" "\<lambda>i. ?req s1 i \<noteq> None" "\<lambda>i. ?req s i \<noteq> None"] same
        by simp
      have "?B - length out = Suc (?B - length (out @ [r]))" using room by simp
      then have "served' = last_served (take (?B - length out) (filter (\<lambda>i. ?req s i \<noteq> None) (i # is))) served"
        using IH r by (simp add: last_served_def)
      moreover have "r \<in> set out'" using IH room by (auto simp: take_Cons')
      then have "\<forall>p. p \<notin> dr_plugin ` set out' \<longrightarrow> view s' p = view s p"
        using IH step(4) r(1) by (metis imageI)
      ultimately show ?thesis
        using IH r step(2) by (auto simp: map_filter_simps intro: framed_trans)
    qed
  qed
qed

lemma rotation_nth:
  assumes "start < length xs"
  shows "map (\<lambda>i. xs ! i) (rotation start (length xs)) = rotate start xs"
  using assms by (auto simp: rotation_def nth_rotate intro!: nth_equalityI)

section \<open>The specification of a tick\<close>

text \<open>
  The request a tick at time \<open>now\<close> may hand to plugin \<open>p\<close>, read off the state before
  the tick: a request of the newest generation that is ready or whose deadline has come,
  for a plugin below its concurrency limit.
\<close>

definition tick_request :: "millis \<Rightarrow> query_scheduler \<Rightarrow> plugin_id \<Rightarrow> dispatched_request option" where
  "tick_request now s p =
     (case map_of (qs_plugins s) p of
        None \<Rightarrow> None
      | Some st \<Rightarrow>
          (case filter (\<lambda>r. pr_generation r = sched_current_generation s) (ps_queue st) of
             [] \<Rightarrow> None
           | r # _ \<Rightarrow>
               (if length (ps_in_flight st) < effective_concurrency_limit (ps_policy st)
                   \<and> (pr_ready r \<or> is_due now r)
                then Some \<lparr>dr_plugin = p, dr_generation = sched_current_generation s,
                           dr_query = pr_query r, dr_dispatched_at = now\<rparr>
                else None)))"

lemma tick_request_dr_plugin: "tick_request now s p = Some r \<Longrightarrow> dr_plugin r = p"
  by (auto simp: tick_request_def split: option.splits list.splits if_splits)

lemma next_request_prepare:
  assumes "mid_inv (\<lambda>_. plugin_current (sched_current_generation s)) s"
  shows "next_request now (tick_prepare now s) p = tick_request now s p"
proof (cases "map_of (qs_plugins s) p")
  case None
  then show ?thesis
    unfolding next_request_view view_tick_prepare [OF assms] by (simp add: view_def tick_request_def)
next
  case (Some st)
  let ?q = "filter (\<lambda>r. pr_generation r = sched_current_generation s) (ps_queue st)"
  have "r \<in> set ?q \<Longrightarrow> pr_generation r = sched_current_generation s" for r by simp
  then show ?thesis
    using Some unfolding next_request_view view_tick_prepare [OF assms]
    by (cases ?q) (auto simp: view_def tick_request_def matured_def reclaimed_def mature_request_ready)
qed

lemma observe_mid:
  "sched_inv s \<Longrightarrow> \<not> qs_shutdown s \<Longrightarrow>
   mid_inv (\<lambda>_. plugin_current (sched_current_generation (fst (observe_now s now)))) (fst (observe_now s now))"
  using inv_observe [of s now] by (subst inv_mid_iff [symmetric]) simp_all

lemma observe_now_current [simp]: "sched_current_generation (fst (observe_now s now)) = sched_current_generation s"
  by (simp add: sched_current_generation_def)

lemma tick_request_observe: "tick_request t (fst (observe_now s now)) p = tick_request t s p"
  unfolding tick_request_def observe_now_current observe_now_fields ..

lemma tick_round:
  fixes s :: query_scheduler and now :: millis
  assumes inv: "sched_inv s" and run: "\<not> qs_shutdown s"
    and order: "qs_plugin_order s \<noteq> []"
  defines "t \<equiv> snd (observe_now s now)" and "n \<equiv> length (qs_plugin_order s)"
  defines "start \<equiv> qs_round_robin_cursor s mod n"
  obtains s2 served where
    "tick now s = (record_remaining_queue_peaks (s2\<lparr>qs_round_robin_cursor :=
        (case served of Some index \<Rightarrow> (index + 1) mod n | None \<Rightarrow> (start + 1) mod n)\<rparr>),
      take (dispatch_budget_per_tick (qs_config s))
        (List.map_filter (\<lambda>i. tick_request t s (qs_plugin_order s ! i)) (rotation start n)))"
    and "served = last_served (take (dispatch_budget_per_tick (qs_config s))
        (filter (\<lambda>i. tick_request t s (qs_plugin_order s ! i) \<noteq> None) (rotation start n))) None"
    and "\<forall>p. p \<notin> dr_plugin ` set (snd (tick now s)) \<longrightarrow> view s2 p = view (tick_prepare t (fst (observe_now s now))) p"
    and "tick_inv (sched_current_generation s) s2" and "framed (fst (observe_now s now)) s2"
proof -
  define s0 where "s0 = fst (observe_now s now)"
  define s1 where "s1 = tick_prepare t s0"
  have mid: "mid_inv (\<lambda>_. plugin_current (sched_current_generation s0)) s0"
    unfolding s0_def by (rule observe_mid [OF inv run])
  have cur: "sched_current_generation s0 = sched_current_generation s"
    by (simp add: s0_def sched_current_generation_def)
  have f1: "framed s0 s1" unfolding s1_def by (rule framed_tick_prepare)
  have ti: "tick_inv (sched_current_generation s) s1"
    using tick_inv_prepare [OF mid] cur by (simp add: s1_def)
  have cfg: "config_ok (qs_config s)" and dist: "distinct (qs_plugin_order s)"
    using inv by (simp_all add: sched_inv_def shape_ok_def)
  have fields: "qs_config s1 = qs_config s" "qs_plugin_order s1 = qs_plugin_order s"
    "qs_round_robin_cursor s1 = qs_round_robin_cursor s"
    using f1 by (simp_all add: framed_def s0_def)
  have n: "0 < n" "start < n" using order by (simp_all add: n_def start_def)
  have rot: "distinct (map (\<lambda>i. qs_plugin_order s ! i) (rotation start n))"
    using rotation_nth [of start "qs_plugin_order s"] n dist by (simp add: n_def)
  have req: "next_request t s1 p = tick_request t s p" for p
    unfolding s1_def next_request_prepare [OF mid] by (simp add: s0_def tick_request_observe)
  obtain s2 out served where round:
    "dispatch_round t (qs_plugin_order s) (rotation start n) (s1, [], None) = (s2, out, served)"
    by (cases "dispatch_round t (qs_plugin_order s) (rotation start n) (s1, [], None)")
  have spec: "out = take (dispatch_budget_per_tick (qs_config s))
        (List.map_filter (\<lambda>i. tick_request t s (qs_plugin_order s ! i)) (rotation start n))
      \<and> served = last_served (take (dispatch_budget_per_tick (qs_config s))
        (filter (\<lambda>i. tick_request t s (qs_plugin_order s ! i) \<noteq> None) (rotation start n))) None
      \<and> (\<forall>p. p \<notin> dr_plugin ` set out \<longrightarrow> view s2 p = view s1 p)
      \<and> tick_inv (sched_current_generation s) s2 \<and> framed s1 s2"
    using dispatch_round_spec [OF ti _ _ rot round] cfg by (simp add: fields config_ok_def req)
  have "tick now s = (record_remaining_queue_peaks (s2\<lparr>qs_round_robin_cursor :=
        (case served of Some index \<Rightarrow> (index + 1) mod n | None \<Rightarrow> (start + 1) mod n)\<rparr>), out)"
  proof -
    have "\<not> qs_shutdown s0" using run by (simp add: s0_def)
    with order cfg round show ?thesis
      by (cases served) (simp_all add: tick_def case_prod_beta Let_def s0_def [symmetric] t_def [symmetric] s1_def [symmetric]
          fields n_def [symmetric] start_def [symmetric] config_ok_def del: observe_now_fields)
  qed
  with spec f1 that [of served s2] show thesis
    by (auto simp: s0_def s1_def intro: framed_trans)
qed

lemma rotation_requests:
  "start = c mod length xs \<Longrightarrow> xs \<noteq> [] \<Longrightarrow>
   List.map_filter (\<lambda>i. f (xs ! i)) (rotation start (length xs)) = List.map_filter f (rotate c xs)"
  using rotation_nth [of start xs] by (simp add: map_filter_map [symmetric] rotate_conv_mod [of c])

text \<open>The observable result of a tick.\<close>

lemma tick_output:
  assumes "sched_inv s" and "\<not> qs_shutdown s"
  shows "snd (tick now s) = take (dispatch_budget_per_tick (qs_config s))
    (List.map_filter (tick_request (snd (observe_now s now)) s)
      (rotate (qs_round_robin_cursor s) (qs_plugin_order s)))"
proof (cases "qs_plugin_order s = []")
  case True
  then have "qs_plugin_order (tick_prepare t (fst (observe_now s now))) = []" for t
    using framed_tick_prepare [of "fst (observe_now s now)" t] by (simp add: framed_def)
  with True assms(2) show ?thesis by (simp add: tick_def case_prod_beta Let_def map_filter_simps)
next
  case False
  obtain s2 served where
    "tick now s = (record_remaining_queue_peaks (s2\<lparr>qs_round_robin_cursor :=
        (case served of
           Some index \<Rightarrow> (index + 1) mod length (qs_plugin_order s)
         | None \<Rightarrow> (qs_round_robin_cursor s mod length (qs_plugin_order s) + 1) mod length (qs_plugin_order s))\<rparr>),
      take (dispatch_budget_per_tick (qs_config s))
        (List.map_filter (\<lambda>i. tick_request (snd (observe_now s now)) s (qs_plugin_order s ! i))
          (rotation (qs_round_robin_cursor s mod length (qs_plugin_order s)) (length (qs_plugin_order s)))))"
    by (rule tick_round [OF assms False, of now])
  with False show ?thesis by (simp add: rotation_requests)
qed

lemma tick_stopped: "qs_shutdown s \<Longrightarrow> tick now s = (fst (observe_now s now), [])"
  by (simp add: tick_def case_prod_beta)

lemma tick_inv_sched_inv:
  "tick_inv g s \<Longrightarrow> \<not> qs_shutdown s \<Longrightarrow> sched_current_generation s = g \<Longrightarrow> sched_inv s"
  by (simp add: inv_mid_iff tick_inv_mid)

lemma inv_tick:
  assumes "sched_inv s"
  shows "sched_inv (fst (tick now s))"
proof (cases "qs_shutdown s")
  case True
  with assms show ?thesis by (simp add: tick_stopped inv_observe)
next
  case run: False
  show ?thesis
  proof (cases "qs_plugin_order s = []")
    case True
    let ?s = "tick_prepare (snd (observe_now s now)) (fst (observe_now s now))"
    have "qs_plugin_order ?s = []"
      using framed_tick_prepare [of "fst (observe_now s now)"] True by (simp add: framed_def)
    moreover have "sched_inv ?s"
    proof (rule tick_inv_sched_inv)
      show "tick_inv (sched_current_generation (fst (observe_now s now))) ?s"
        by (rule tick_inv_prepare [OF observe_mid [OF assms run]])
      show "\<not> qs_shutdown ?s" using framed_tick_prepare [of "fst (observe_now s now)"] run by (simp add: framed_def)
      show "sched_current_generation ?s = sched_current_generation (fst (observe_now s now))"
        by (rule framed_current [OF framed_tick_prepare])
    qed
    ultimately show ?thesis
      using run by (simp add: tick_def case_prod_beta Let_def quiet_inv [OF quiet_record_remaining])
  next
    case False
    have "\<exists>s2 c. fst (tick now s) = record_remaining_queue_peaks (s2\<lparr>qs_round_robin_cursor := c\<rparr>)
        \<and> tick_inv (sched_current_generation s) s2 \<and> framed (fst (observe_now s now)) s2"
      by (rule tick_round [OF assms run False, of now]) (intro exI conjI, simp, assumption+)
    then obtain s2 c where
      tick: "fst (tick now s) = record_remaining_queue_peaks (s2\<lparr>qs_round_robin_cursor := c\<rparr>)"
      and s2: "tick_inv (sched_current_generation s) s2" "framed (fst (observe_now s now)) s2"
      by blast
    have "sched_inv s2"
      using run s2 by (intro tick_inv_sched_inv [OF s2(1)]) (simp add: framed_def, simp add: framed_current)
    with tick show ?thesis by (simp add: quiet_inv [OF quiet_record_remaining] inv_plain_update)
  qed
qed

section \<open>Completions, results, presentation\<close>

lemma set_remove_first: "set (remove_first P xs) \<subseteq> set xs"
  by (induction xs) auto

lemma distinct_map_remove_first: "distinct (map f xs) \<Longrightarrow> distinct (map f (remove_first P xs))"
  by (induction xs) (auto simp: image_iff dest!: subsetD [OF set_remove_first])

lemma map_update_first: "(\<And>x. f (g x) = f x) \<Longrightarrow> map f (update_first P g xs) = map f xs"
  by (induction xs) auto

lemma update_first_Nil [simp]: "update_first P g xs = [] \<longleftrightarrow> xs = []"
  by (cases xs) auto

lemma list_all_update_first:
  "list_all Q xs \<Longrightarrow> (\<And>x. Q x \<Longrightarrow> Q (g x)) \<Longrightarrow> list_all Q (update_first P g xs)"
  by (induction xs) auto

lemma plugin_remove_first:
  assumes "plugin_ok b st" and "plugin_current g st"
  shows "plugin_ok b (st\<lparr>ps_in_flight := remove_first P (ps_in_flight st)\<rparr>)"
    and "plugin_current g (st\<lparr>ps_in_flight := remove_first P (ps_in_flight st)\<rparr>)"
  using assms set_remove_first [of P "ps_in_flight st"] distinct_map_remove_first [of if_generation "ps_in_flight st" P]
  by (auto simp: plugin_ok_def plugin_current_def generations_of_def list_all_iff)

lemma inv_complete: "sched_inv s \<Longrightarrow> sched_inv (fst (sched_complete p g now s))"
proof -
  assume "sched_inv s"
  then have "sched_inv (modify_plugin p (\<lambda>st. st\<lparr>ps_in_flight :=
      remove_first (\<lambda>r. if_generation r = g) (ps_in_flight st)\<rparr>) (fst (observe_now s now)))"
    by (intro inv_modify inv_observe) (auto intro: plugin_remove_first)
  from quiet_inv [OF quiet_push_trace this] this inv_observe [OF \<open>sched_inv s\<close>, of now] show ?thesis
    unfolding sched_complete_def case_prod_beta Let_def
    by (cases "map_of (qs_plugins (fst (observe_now s now))) p";
        cases "find (\<lambda>r. if_generation r = g) (ps_in_flight (the (map_of (qs_plugins (fst (observe_now s now))) p)))")
      (auto simp del: observe_now_fields)
qed

lemma record_result_fields [simp]:
  "if_generation (record_result completion r) = if_generation r"
  "if_cancel_reason (record_result completion r) = if_cancel_reason r"
  by (simp_all add: record_result_def)

lemma plugin_update_first:
  assumes "plugin_ok b st" and "plugin_current g st"
  shows "plugin_ok b (st\<lparr>ps_in_flight := update_first P (record_result c) (ps_in_flight st)\<rparr>)"
    and "plugin_current g (st\<lparr>ps_in_flight := update_first P (record_result c) (ps_in_flight st)\<rparr>)"
  using assms
  by (auto simp: plugin_ok_def plugin_current_def generations_of_def map_update_first
      intro: list_all_update_first)

lemma inv_record_result_batch: "sched_inv s \<Longrightarrow> sched_inv (fst (record_result_batch p g k completion now s))"
proof -
  assume inv: "sched_inv s"
  let ?s = "fst (observe_now s now)"
  have s0: "sched_inv ?s" by (rule inv_observe [OF inv])
  then have upd: "sched_inv (modify_plugin p (\<lambda>st. st\<lparr>ps_in_flight :=
      update_first (\<lambda>r. if_generation r = g) (record_result completion) (ps_in_flight st)\<rparr>)
      (?s\<lparr>qs_result_queue_depth := d\<rparr>))" for d
    by (intro inv_modify inv_plain_update) (auto intro: plugin_update_first)
  have stale: "sched_inv (push_trace e (count_plugin p get upd 1 (count_diagnostic get' upd' 1 ?s)))"
    for e get upd get' upd'
    by (rule quiet_inv [OF quiet_trans [OF quiet_trans [OF quiet_count_diagnostic quiet_count_plugin] quiet_push_trace] s0])
  show ?thesis
    unfolding record_result_batch_def case_prod_beta Let_def
    using s0 upd stale by (auto intro!: quiet_inv [OF quiet_push_trace] simp del: observe_now_fields)
qed

lemma inv_record_ranking: "sched_inv s \<Longrightarrow> sched_inv (record_ranking g k now s)"
  by (auto simp: record_ranking_def case_prod_beta Let_def intro!: quiet_inv [OF quiet_push_trace] inv_plain_update inv_observe)

lemma inv_record_presentation: "sched_inv s \<Longrightarrow> sched_inv (record_presentation g k now s)"
  by (auto simp: record_presentation_def case_prod_beta Let_def intro!: quiet_inv [OF quiet_push_trace] inv_plain_update inv_observe)

end
