(* ===== verification/Scheduler.thy ===== *)
theory Scheduler
  imports Scheduler_Tick
begin

text \<open>
  The scheduler as a state machine: every public operation of \<open>QueryScheduler\<close>, the
  states reachable by them, and what holds in all of these.
\<close>

section \<open>Operations and reachable states\<close>

datatype sched_op =
    OpRegister plugin_id plugin_policy
  | OpUnregister plugin_id
  | OpSetPolicy plugin_id plugin_policy millis
  | OpDisable plugin_id millis
  | OpEnable plugin_id millis
  | OpSubmit string millis
  | OpTick millis
  | OpComplete plugin_id generation millis
  | OpCancel plugin_id cancel_reason millis
  | OpDrainCancellations
  | OpShutdown millis
  | OpResultBatch plugin_id generation nat batch_completion millis
  | OpRanking generation nat millis
  | OpPresentation generation nat millis

fun sched_exec :: "sched_op \<Rightarrow> query_scheduler \<Rightarrow> query_scheduler option" where
  "sched_exec (OpRegister p policy) s = Some (sched_register_plugin p policy s)"
| "sched_exec (OpUnregister p) s = Some (fst (sched_unregister_plugin p s))"
| "sched_exec (OpSetPolicy p policy now) s = Some (set_policy p policy now s)"
| "sched_exec (OpDisable p now) s = Some (disable_plugin p now s)"
| "sched_exec (OpEnable p now) s = Some (enable_plugin p now s)"
| "sched_exec (OpSubmit query now) s = map_option fst (submit_query query now s)"
| "sched_exec (OpTick now) s = Some (fst (tick now s))"
| "sched_exec (OpComplete p g now) s = Some (fst (sched_complete p g now s))"
| "sched_exec (OpCancel p reason now) s = Some (fst (cancel_plugin p reason now s))"
| "sched_exec OpDrainCancellations s = Some (fst (drain_cancellations s))"
| "sched_exec (OpShutdown now) s = Some (sched_shutdown now s)"
| "sched_exec (OpResultBatch p g k completion now) s = Some (fst (record_result_batch p g k completion now s))"
| "sched_exec (OpRanking g k now) s = Some (record_ranking g k now s)"
| "sched_exec (OpPresentation g k now) s = Some (record_presentation g k now s)"

inductive sched_reachable :: "scheduler_config \<Rightarrow> query_scheduler \<Rightarrow> bool" for c where
  sched_start: "sched_reachable c (scheduler_new c)"
| sched_step: "sched_reachable c s \<Longrightarrow> sched_exec op s = Some s' \<Longrightarrow> sched_reachable c s'"

text \<open>Runs of operations, for concrete states; \<open>None\<close> once an operation panics.\<close>

fun sched_run :: "sched_op list \<Rightarrow> query_scheduler \<Rightarrow> query_scheduler option" where
  "sched_run [] s = Some s"
| "sched_run (op # ops) s = (case sched_exec op s of None \<Rightarrow> None | Some s' \<Rightarrow> sched_run ops s')"

lemma sched_run_reachable: "sched_reachable c s \<Longrightarrow> sched_run ops s = Some s' \<Longrightarrow> sched_reachable c s'"
  by (induction ops arbitrary: s) (auto split: option.splits intro: sched_step)

section \<open>The configuration and the shutdown flag\<close>

lemma submit_panics_iff:
  "sched_inv s \<Longrightarrow> submit_query query now s = None \<longleftrightarrow> sched_current_generation s = - 1"
proof
  assume "sched_inv s" and "submit_query query now s = None"
  then show "sched_current_generation s = - 1" by (metis option.distinct(1) submit_query_inv)
next
  assume "sched_current_generation s = - 1"
  then have "advance (qs_generations s) = None"
    by (simp add: advance_None_iff sched_current_generation_def tracker_current_def)
  then show "submit_query query now s = None"
    by (simp add: submit_query_def case_prod_beta)
qed

lemma submit_query_Some:
  assumes "sched_inv s" and "submit_query query now s = Some (s', g)"
  shows "sched_inv s'" and "g = sched_current_generation s + 1" and "sched_current_generation s' = g"
    and "sched_current_generation s < g"
    and "qs_shutdown s' = qs_shutdown s" and "qs_plugin_order s' = qs_plugin_order s"
proof -
  have fresh: "sched_current_generation s \<noteq> - 1" using assms submit_panics_iff [OF assms(1)] by force
  obtain s'' where "submit_query query now s = Some (s'', sched_current_generation s + 1)"
    and "sched_inv s''" and "sched_current_generation s'' = sched_current_generation s + 1"
    and "qs_shutdown s'' = qs_shutdown s" and "qs_plugin_order s'' = qs_plugin_order s"
    by (rule submit_query_inv [OF assms(1) fresh])
  with assms(2) word_inc_less [OF fresh]
  show "sched_inv s'" and "g = sched_current_generation s + 1" and "sched_current_generation s' = g"
    and "sched_current_generation s < g"
    and "qs_shutdown s' = qs_shutdown s" and "qs_plugin_order s' = qs_plugin_order s"
    by simp_all
qed

lemma inv_exec: "sched_inv s \<Longrightarrow> sched_exec op s = Some s' \<Longrightarrow> sched_inv s'"
  by (cases op)
    (auto intro: inv_register inv_unregister inv_set_policy inv_disable inv_enable submit_query_Some(1)
      inv_tick inv_complete inv_cancel inv_drain inv_shutdown inv_record_result_batch inv_record_ranking
      inv_record_presentation)

lemma reachable_inv:
  "sched_reachable c s \<Longrightarrow> request_queue_capacity c \<le> usize_max \<Longrightarrow> sched_inv s"
  by (induction rule: sched_reachable.induct) (auto intro: inv_new inv_exec)

lemma framed_process_queries:
  "process_query_for_plugins g query normalized now ps s = Some s' \<Longrightarrow> framed s s'"
proof (induction ps arbitrary: s)
  case (Cons p ps)
  have one: "framed s s1" if "process_query_for_plugin g query normalized now p s = Some s1" for s1
  proof (cases "map_of (qs_plugins s) p")
    case None
    with that show ?thesis by (simp add: process_query_for_plugin_def)
  next
    case (Some st)
    have "framed s (push_trace e (query_cancelled normalized now p st s))" for e
      by (rule framed_trans [OF framed_query_cancelled quiet_framed [OF quiet_push_trace]])
    moreover have m: "framed s (modify_plugin p f (query_cancelled normalized now p st s))" for f
      by (rule framed_trans [OF framed_query_cancelled framed_modify])
    moreover have "framed s (admit_request p g query now req st' (modify_plugin p f (query_cancelled normalized now p st s)))"
      for req st' f by (rule framed_trans [OF m framed_admit])
    ultimately show ?thesis
      using that unfolding process_query_eq [OF Some] by (auto split: option.splits)
  qed
  from Cons.prems obtain s1 where "process_query_for_plugin g query normalized now p s = Some s1"
    and "process_query_for_plugins g query normalized now ps s1 = Some s'" by (auto split: option.splits)
  with one Cons.IH show ?case by (blast intro: framed_trans)
qed simp

lemma submit_config: "submit_query query now s = Some (s', g) \<Longrightarrow> qs_config s' = qs_config s"
  unfolding submit_query_def Let_def case_prod_beta
  by (cases "advance (qs_generations s)")
    (auto split: if_splits dest!: framed_process_queries simp: framed_def
      framed_reclaim [unfolded framed_def])

lemma tick_frame:
  assumes "sched_inv s"
  shows "qs_config (fst (tick now s)) = qs_config s \<and> qs_generations (fst (tick now s)) = qs_generations s
    \<and> qs_plugin_order (fst (tick now s)) = qs_plugin_order s \<and> qs_shutdown (fst (tick now s)) = qs_shutdown s"
proof (cases "qs_shutdown s")
  case True
  then show ?thesis by (simp add: tick_stopped)
next
  case run: False
  have peaks: "framed u (record_remaining_queue_peaks u)" for u by (rule quiet_framed [OF quiet_record_remaining])
  show ?thesis
  proof (cases "qs_plugin_order s = []")
    case True
    have prep: "framed (fst (observe_now s now)) (tick_prepare t (fst (observe_now s now)))" for t
      by (rule framed_tick_prepare)
    then have "qs_plugin_order (tick_prepare t (fst (observe_now s now))) = []" for t
      using True by (simp add: framed_def)
    with run have "fst (tick now s) =
        record_remaining_queue_peaks (tick_prepare (snd (observe_now s now)) (fst (observe_now s now)))"
      by (simp add: tick_def case_prod_beta Let_def)
    with framed_trans [OF prep peaks] show ?thesis by (simp add: framed_def)
  next
    case False
    have "\<exists>s2 c. fst (tick now s) = record_remaining_queue_peaks (s2\<lparr>qs_round_robin_cursor := c\<rparr>)
        \<and> framed (fst (observe_now s now)) s2"
      by (rule tick_round [OF assms run False, of now]) (intro exI conjI, simp, assumption+)
    then obtain s2 c where "fst (tick now s) = record_remaining_queue_peaks (s2\<lparr>qs_round_robin_cursor := c\<rparr>)"
      and "framed (fst (observe_now s now)) s2" by blast
    with peaks [of "s2\<lparr>qs_round_robin_cursor := c\<rparr>"] show ?thesis by (simp add: framed_def)
  qed
qed

lemma framed_fields:
  "framed s s' \<Longrightarrow> qs_config s' = qs_config s"
  "framed s s' \<Longrightarrow> qs_shutdown s' = qs_shutdown s"
  "framed s s' \<Longrightarrow> qs_generations s' = qs_generations s"
  by (simp_all add: framed_def)

lemma op_fields [simp]:
  "qs_generations (set_policy p policy now s) = qs_generations s"
  "qs_generations (disable_plugin p now s) = qs_generations s"
  "qs_generations (enable_plugin p now s) = qs_generations s"
  "qs_generations (fst (cancel_plugin p reason now s)) = qs_generations s"
  "qs_generations (sched_register_plugin p policy s) = qs_generations s"
  "qs_generations (fst (sched_unregister_plugin p s)) = qs_generations s"
  "qs_generations (fst (drain_cancellations s)) = qs_generations s"
  "qs_config (set_policy p policy now s) = qs_config s"
  "qs_config (disable_plugin p now s) = qs_config s"
  "qs_config (enable_plugin p now s) = qs_config s"
  "qs_config (fst (cancel_plugin p reason now s)) = qs_config s"
  "qs_config (sched_register_plugin p policy s) = qs_config s"
  "qs_config (fst (sched_unregister_plugin p s)) = qs_config s"
  "qs_config (fst (drain_cancellations s)) = qs_config s"
  "qs_shutdown (set_policy p policy now s) = qs_shutdown s"
  "qs_shutdown (disable_plugin p now s) = qs_shutdown s"
  "qs_shutdown (enable_plugin p now s) = qs_shutdown s"
  "qs_shutdown (fst (cancel_plugin p reason now s)) = qs_shutdown s"
  "qs_shutdown (sched_register_plugin p policy s) = qs_shutdown s"
  "qs_shutdown (fst (sched_unregister_plugin p s)) = qs_shutdown s"
  "qs_shutdown (fst (drain_cancellations s)) = qs_shutdown s"
  by (simp_all add: set_policy_def disable_plugin_def enable_plugin_def cancel_plugin_def Let_def case_prod_beta
      sched_register_plugin_def sched_unregister_plugin_def drain_cancellations_def
      framed_fields [OF framed_invalidate] split: option.split)

lemma shutdown_fields [simp]:
  "qs_generations (sched_shutdown now s) = qs_generations s"
  "qs_config (sched_shutdown now s) = qs_config s" "qs_shutdown (sched_shutdown now s)"
  by (simp_all add: sched_shutdown_def Let_def case_prod_beta
      framed_fields [OF framed_fold [OF framed_shutdown_plugin]])

lemma result_op_fields [simp]:
  "qs_generations (fst (sched_complete p g now s)) = qs_generations s"
  "qs_generations (fst (record_result_batch p g k completion now s)) = qs_generations s"
  "qs_generations (record_ranking g k now s) = qs_generations s"
  "qs_generations (record_presentation g k now s) = qs_generations s"
  "qs_config (fst (sched_complete p g now s)) = qs_config s"
  "qs_config (fst (record_result_batch p g k completion now s)) = qs_config s"
  "qs_config (record_ranking g k now s) = qs_config s"
  "qs_config (record_presentation g k now s) = qs_config s"
  "qs_shutdown (fst (sched_complete p g now s)) = qs_shutdown s"
  "qs_shutdown (fst (record_result_batch p g k completion now s)) = qs_shutdown s"
  "qs_shutdown (record_ranking g k now s) = qs_shutdown s"
  "qs_shutdown (record_presentation g k now s) = qs_shutdown s"
  by (simp_all add: sched_complete_def record_result_batch_def record_ranking_def record_presentation_def Let_def
      case_prod_beta split: option.split)

lemma exec_config: "sched_inv s \<Longrightarrow> sched_exec op s = Some s' \<Longrightarrow> qs_config s' = qs_config s"
  by (cases op) (auto simp: tick_frame dest: submit_config)

lemma exec_shutdown: "sched_inv s \<Longrightarrow> qs_shutdown s \<Longrightarrow> sched_exec op s = Some s' \<Longrightarrow> qs_shutdown s'"
  by (cases op) (auto simp: tick_frame dest: submit_query_Some(5))

lemma reachable_config:
  "sched_reachable c s \<Longrightarrow> request_queue_capacity c \<le> usize_max \<Longrightarrow> qs_config s = normalize_config c"
  by (induction rule: sched_reachable.induct)
    (auto simp: scheduler_new_def dest!: exec_config [OF reachable_inv])

section \<open>Bounds\<close>

text \<open>A concrete scheduler for the witnesses: two plugins and one query, with two budgets of one.\<close>

definition demo_config :: scheduler_config where
  "demo_config =
     \<lparr>request_queue_capacity = 8, result_queue_capacity = 8, per_plugin_dispatch_budget = 1,
      dispatch_budget_per_tick = 1, trace_capacity = 8\<rparr>"

definition demo_ops :: "sched_op list" where
  "demo_ops = [OpRegister ''calc'' legacy_strict, OpRegister ''files'' legacy_strict, OpSubmit ''2+2'' 10]"

definition demo_state :: query_scheduler where
  "demo_state = the (sched_run demo_ops (scheduler_new demo_config))"

lemma demo_run: "sched_run demo_ops (scheduler_new demo_config) = Some demo_state"
proof -
  have "\<not> Option.is_none (sched_run demo_ops (scheduler_new demo_config))" by code_simp
  then show ?thesis by (auto simp: demo_state_def Option.is_none_def)
qed

lemma demo_reachable: "sched_reachable demo_config demo_state"
  by (rule sched_run_reachable [OF sched_start demo_run])

lemma demo_capacity: "request_queue_capacity demo_config \<le> usize_max"
  by (simp add: demo_config_def usize_max_def)

text \<open>
  C13: in every reachable state the queued requests stay within the global request
  capacity and within every plugin's own bound (one slot for a newest-wins queue, the
  policy's capacity otherwise), and the trace and the cancellation notices stay within
  their capacities.
\<close>

theorem scheduler_queues_bounded:
  assumes "sched_reachable c s" and "request_queue_capacity c \<le> usize_max"
  shows "total_queued s \<le> max (request_queue_capacity c) 1
    \<and> length (qs_trace s) \<le> max (trace_capacity c) 1
    \<and> length (qs_cancellations s) \<le> max (request_queue_capacity c) 1
    \<and> list_all (\<lambda>(p, st). sched_queued s p \<le> queue_bound (ps_policy st)) (qs_plugins s)"
proof -
  have inv: "sched_inv s" by (rule reachable_inv [OF assms])
  have cfg: "qs_config s = normalize_config c" by (rule reachable_config [OF assms])
  have dist: "distinct (map fst (qs_plugins s))" using inv by (simp add: sched_inv_def shape_ok_def)
  have "length (ps_queue st) \<le> queue_bound (ps_policy st)" if "(p, st) \<in> set (qs_plugins s)" for p st
    using inv that by (auto simp: sched_inv_def all_plugins_def list_all_iff plugin_ok_def)
  moreover have "sched_queued s p = length (ps_queue st)" if "(p, st) \<in> set (qs_plugins s)" for p st
    using map_of_is_SomeI [OF dist that] by (simp add: sched_queued_def)
  ultimately show ?thesis
    using inv by (auto simp: sched_inv_def shape_ok_def logs_ok_defs cfg normalize_config_def
        total_queued_eq list_all_iff)
qed

theorem scheduler_queues_bounded_witness:
  "total_queued demo_state = 2 \<and> total_queued demo_state \<le> max (request_queue_capacity demo_config) 1"
proof -
  have "total_queued demo_state = 2" unfolding demo_state_def by code_simp
  then show ?thesis using scheduler_queues_bounded [OF demo_reachable demo_capacity] by simp
qed

text \<open>
  In every reachable state submitting a query panics exactly when the generations are
  exhausted (never because a registered plugin is missing); otherwise it returns the next
  generation, which is the current one from then on.
\<close>

theorem submit_query_total:
  assumes "sched_reachable c s" and "request_queue_capacity c \<le> usize_max"
  shows "if sched_current_generation s = - 1 then submit_query query now s = None
    else \<exists>s'. submit_query query now s = Some (s', sched_current_generation s + 1)
           \<and> sched_current_generation s' = sched_current_generation s + 1"
proof (cases "sched_current_generation s = - 1")
  case True
  then show ?thesis using submit_panics_iff [OF reachable_inv [OF assms]] by simp
next
  case False
  from submit_query_inv [OF reachable_inv [OF assms] False] False show ?thesis by metis
qed

theorem submit_query_total_witness:
  "\<exists>s'. submit_query ''files'' 20 demo_state = Some (s', 2) \<and> sched_current_generation s' = 2"
proof -
  have "sched_current_generation demo_state = 1" unfolding demo_state_def by code_simp
  then show ?thesis
    using submit_query_total [OF demo_reachable demo_capacity, of "''files''" 20] by simp
qed

section \<open>Stale work\<close>

text \<open>
  C14: in every reachable state a request that is in flight and not cancelled belongs to
  the newest query, no generation occurs twice among a plugin's queued and in-flight
  requests, none is newer than the current one, and a disabled plugin, or any plugin after
  shutdown, has nothing queued or in flight.
\<close>

theorem live_requests_current:
  assumes "sched_reachable c s" and "request_queue_capacity c \<le> usize_max"
    and "map_of (qs_plugins s) p = Some st"
  shows "list_all (\<lambda>r. if_cancel_reason r \<noteq> None \<or> if_generation r = sched_current_generation s) (ps_in_flight st)
    \<and> distinct (generations_of st) \<and> list_all (\<lambda>g. g \<le> sched_current_generation s) (generations_of st)
    \<and> (qs_shutdown s \<or> \<not> ps_enabled st \<longrightarrow> generations_of st = [])"
proof -
  have "plugin_ok (qs_shutdown s) st" and "plugin_current (sched_current_generation s) st"
    using reachable_inv [OF assms(1,2)] assms(3) by (auto simp: sched_inv_def dest: all_plugins_lookup)
  then show ?thesis
    by (auto simp: plugin_ok_def plugin_current_def generations_of_def list_all_iff)
qed

theorem live_requests_current_witness:
  "\<exists>st. map_of (qs_plugins demo_state) ''calc'' = Some st
    \<and> distinct (generations_of st) \<and> list_all (\<lambda>g. g \<le> 1) (generations_of st) \<and> generations_of st = [1]"
proof -
  have "map_option generations_of (map_of (qs_plugins demo_state) ''calc'') = Some [1]"
    and cur: "sched_current_generation demo_state = 1" unfolding demo_state_def by code_simp+
  then obtain st where st: "map_of (qs_plugins demo_state) ''calc'' = Some st" "generations_of st = [1]"
    by (auto simp: map_option_eq_Some)
  with live_requests_current [OF demo_reachable demo_capacity st(1)] cur show ?thesis by auto
qed

definition live_request :: "query_scheduler \<Rightarrow> plugin_id \<Rightarrow> generation \<Rightarrow> bool" where
  "live_request s p g \<longleftrightarrow>
     g = sched_current_generation s
     \<and> (case map_of (qs_plugins s) p of
          None \<Rightarrow> False
        | Some st \<Rightarrow> list_ex (\<lambda>r. if_generation r = g \<and> if_cancel_reason r = None) (ps_in_flight st))"

lemma find_by_key:
  "distinct (map f xs) \<Longrightarrow> find (\<lambda>x. f x = k) xs = Some x \<longleftrightarrow> x \<in> set xs \<and> f x = k"
  by (induction xs) (auto simp: image_iff)

lemma find_remove_first: "find P xs = Some x \<Longrightarrow> Suc (length (remove_first P xs)) = length xs"
  by (induction xs) (auto split: if_splits)

lemma record_result_batch_stale_iff:
  "snd (record_result_batch p g k completion now s) = StaleRejected \<longleftrightarrow> \<not> live_request s p g"
proof (cases "map_of (qs_plugins s) p")
  case None
  then show ?thesis by (simp add: record_result_batch_def Let_def case_prod_beta live_request_def)
next
  case (Some st)
  then show ?thesis
    unfolding record_result_batch_def Let_def case_prod_beta live_request_def by auto
qed

lemma record_result_batch_stale:
  assumes "\<not> live_request s p g"
  shows "stripped (fst (record_result_batch p g k completion now s)) = stripped s"
proof -
  have "quiet (fst (observe_now s now)) (fst (record_result_batch p g k completion now s))"
    using assms
    by (cases "map_of (qs_plugins s) p")
      (auto simp: record_result_batch_def Let_def case_prod_beta live_request_def
        intro: quiet_trans [OF quiet_trans [OF quiet_count_diagnostic quiet_count_plugin] quiet_push_trace])
  then show ?thesis by (simp add: quiet_def) (simp add: stripped_def)
qed

lemma complete_live:
  assumes cur: "\<And>st. map_of (qs_plugins s) p = Some st \<Longrightarrow> plugin_current (sched_current_generation s) st"
  shows "(snd (sched_complete p g now s) = CompletionAccepted) = live_request s p g
    \<and> (live_request s p g \<longrightarrow> sched_in_flight (fst (sched_complete p g now s)) p + 1 = sched_in_flight s p)"
proof (cases "map_of (qs_plugins s) p")
  case None
  then show ?thesis by (simp add: sched_complete_def Let_def case_prod_beta live_request_def)
next
  case (Some st)
  let ?find = "find (\<lambda>r. if_generation r = g) (ps_in_flight st)"
  have dist: "distinct (map if_generation (ps_in_flight st))"
    using cur [OF Some] by (simp add: plugin_current_def generations_of_def)
  show ?thesis
  proof (cases ?find)
    case None
    have "\<not> live_request s p g"
      using Some None [unfolded find_None_iff] by (auto simp: live_request_def list_ex_iff)
    then show ?thesis
      using Some None by (simp add: sched_complete_def Let_def case_prod_beta)
  next
    case (Some r)
    have r: "r \<in> set (ps_in_flight st)" "if_generation r = g" using Some by (simp_all add: find_by_key [OF dist])
    have only: "r' = r" if "r' \<in> set (ps_in_flight st)" "if_generation r' = g" for r'
      using that Some find_by_key [OF dist, of g r'] by simp
    have live: "live_request s p g \<longleftrightarrow> g = sched_current_generation s \<and> if_cancel_reason r = None"
    proof -
      have "list_ex (\<lambda>r. if_generation r = g \<and> if_cancel_reason r = None) (ps_in_flight st)
          \<longleftrightarrow> if_cancel_reason r = None"
        unfolding list_ex_iff using r only by blast
      then show ?thesis using \<open>map_of (qs_plugins s) p = Some st\<close> by (simp add: live_request_def)
    qed
    have "Suc (length (remove_first (\<lambda>r. if_generation r = g) (ps_in_flight st))) = length (ps_in_flight st)"
      by (rule find_remove_first [OF Some])
    then show ?thesis
      using Some \<open>map_of (qs_plugins s) p = Some st\<close>
      by (auto simp: sched_complete_def Let_def case_prod_beta live sched_in_flight_def lookup_simps
          sched_current_generation_def)
  qed
qed

text \<open>
  C1: in every reachable state a result batch is rejected as stale exactly when its
  request is not live (in flight, not cancelled, of the newest generation); the rejection
  changes no plugin beyond its counters. A completion is accepted exactly for a live
  request, which it removes from the requests in flight.
\<close>

theorem stale_results_rejected:
  assumes "sched_reachable c s" and "request_queue_capacity c \<le> usize_max"
  shows "(snd (record_result_batch p g k completion now s) = StaleRejected) = (\<not> live_request s p g)
    \<and> (\<not> live_request s p g \<longrightarrow> stripped (fst (record_result_batch p g k completion now s)) = stripped s)
    \<and> (snd (sched_complete p g now s) = CompletionAccepted) = live_request s p g
    \<and> (live_request s p g \<longrightarrow> sched_in_flight (fst (sched_complete p g now s)) p + 1 = sched_in_flight s p)"
proof -
  have "plugin_current (sched_current_generation s) st" if "map_of (qs_plugins s) p = Some st" for st
    using reachable_inv [OF assms] that by (auto simp: sched_inv_def dest: all_plugins_lookup)
  from complete_live [OF this] show ?thesis
    by (simp add: record_result_batch_stale_iff record_result_batch_stale)
qed

theorem stale_results_rejected_witness:
  "live_request (fst (tick 20 demo_state)) ''calc'' 1
   \<and> snd (sched_complete ''calc'' 1 30 (fst (tick 20 demo_state))) = CompletionAccepted
   \<and> snd (record_result_batch ''files'' 1 3 CompFinal 30 (fst (tick 20 demo_state))) = StaleRejected"
proof -
  have reach: "sched_reachable demo_config (fst (tick 20 demo_state))"
    by (rule sched_step [OF demo_reachable, of "OpTick 20"]) simp
  have "live_request (fst (tick 20 demo_state)) ''calc'' 1"
    and "\<not> live_request (fst (tick 20 demo_state)) ''files'' 1"
    unfolding demo_state_def by code_simp+
  with stale_results_rejected [OF reach demo_capacity] show ?thesis by blast
qed

section \<open>Dispatch\<close>

text \<open>
  C2: a tick hands out exactly the requests its specification names, in rotation order
  from the cursor and cut off at the dispatch budget: for every registered plugin below its
  concurrency limit, its request of the newest generation if that is ready or due. After
  shutdown it hands out nothing.
\<close>

theorem tick_specification:
  assumes "sched_reachable c s" and "request_queue_capacity c \<le> usize_max"
  shows "snd (tick now s) =
    (if qs_shutdown s then []
     else take (max (dispatch_budget_per_tick c) 1)
       (List.map_filter (tick_request (snd (observe_now s now)) s)
         (rotate (qs_round_robin_cursor s) (qs_plugin_order s))))"
  using tick_output [OF reachable_inv [OF assms], of now] reachable_config [OF assms]
  by (simp add: tick_stopped normalize_config_def)

theorem tick_specification_witness:
  "map dr_plugin (snd (tick 20 demo_state)) = [''calc'']
   \<and> snd (tick 20 demo_state) = take 1
       (List.map_filter (tick_request 20 demo_state) [''calc'', ''files''])"
proof -
  have "map dr_plugin (snd (tick 20 demo_state)) = [''calc'']" and "\<not> qs_shutdown demo_state"
    and "snd (observe_now demo_state 20) = 20"
    and "rotate (qs_round_robin_cursor demo_state) (qs_plugin_order demo_state) = [''calc'', ''files'']"
    unfolding demo_state_def by code_simp+
  then show ?thesis
    using tick_specification [OF demo_reachable demo_capacity, of 20] by (simp add: demo_config_def)
qed

end
