(* ===== verification/Scheduler_Dispatch.thy ===== *)
theory Scheduler_Dispatch
  imports Scheduler
begin

text \<open>
  What follows from the specification of a tick: dispatched requests are of the newest
  query and within the budgets, no request is dispatched twice in a run, no plugin starves,
  and no deadline is missed by a host that sleeps until \<open>next_wakeup\<close>.
\<close>

section \<open>Safety of one tick\<close>

lemma map_filter_sublist_keys:
  "(\<And>p r. f p = Some r \<Longrightarrow> dr_plugin r = p) \<Longrightarrow> distinct ps \<Longrightarrow>
   distinct (map dr_plugin (List.map_filter f ps)) \<and> dr_plugin ` set (List.map_filter f ps) \<subseteq> set ps"
  by (induction ps) (auto simp: map_filter_simps split: option.splits)

lemma tick_member:
  assumes "sched_inv s" and "r \<in> set (snd (tick now s))"
  shows "tick_request (snd (observe_now s now)) s (dr_plugin r) = Some r"
proof -
  have run: "\<not> qs_shutdown s" using assms(2) by (auto simp: tick_stopped)
  have "r \<in> set (List.map_filter (tick_request (snd (observe_now s now)) s)
      (rotate (qs_round_robin_cursor s) (qs_plugin_order s)))"
    using assms(2) tick_output [OF assms(1) run, of now] by (auto dest: in_set_takeD)
  then obtain p where "tick_request (snd (observe_now s now)) s p = Some r"
    by (auto simp: List.map_filter_def)
  with tick_request_dr_plugin [OF this] show ?thesis by simp
qed

lemma tick_request_SomeD:
  assumes "tick_request now s p = Some r"
  obtains st q where "map_of (qs_plugins s) p = Some st" and "q \<in> set (ps_queue st)"
    and "pr_generation q = sched_current_generation s" and "pr_ready q \<or> is_due now q"
    and "length (ps_in_flight st) < effective_concurrency_limit (ps_policy st)"
    and "dr_plugin r = p" and "dr_generation r = sched_current_generation s" and "dr_query r = pr_query q"
    and "dr_dispatched_at r = now"
proof -
  from assms obtain st where st: "map_of (qs_plugins s) p = Some st"
    by (auto simp: tick_request_def split: option.splits)
  with assms obtain q qs where q: "filter (\<lambda>r. pr_generation r = sched_current_generation s) (ps_queue st) = q # qs"
    by (auto simp: tick_request_def split: list.splits)
  then have "q \<in> set (filter (\<lambda>r. pr_generation r = sched_current_generation s) (ps_queue st))" by simp
  then have "q \<in> set (ps_queue st)" and "pr_generation q = sched_current_generation s" by simp_all
  moreover have "pr_ready q \<or> is_due now q"
    and "length (ps_in_flight st) < effective_concurrency_limit (ps_policy st)"
    and "dr_plugin r = p" and "dr_generation r = sched_current_generation s" and "dr_query r = pr_query q"
    and "dr_dispatched_at r = now"
    using assms st q by (auto simp: tick_request_def split: if_splits)
  ultimately show thesis by (rule that [OF st])
qed

text \<open>
  C16: whatever a tick dispatches is a queued request of the newest generation, ready or
  due, of a registered and enabled plugin that was below its concurrency limit; at most one
  request goes to each plugin and at most \<open>dispatch_budget_per_tick\<close> in all.
\<close>

theorem tick_dispatches_safely:
  assumes "sched_reachable c s" and "request_queue_capacity c \<le> usize_max"
  shows "length (snd (tick now s)) \<le> max (dispatch_budget_per_tick c) 1
    \<and> distinct (map dr_plugin (snd (tick now s)))
    \<and> list_all (\<lambda>r. dr_generation r = sched_current_generation s
         \<and> (\<exists>st q. map_of (qs_plugins s) (dr_plugin r) = Some st \<and> ps_enabled st
              \<and> length (ps_in_flight st) < effective_concurrency_limit (ps_policy st)
              \<and> q \<in> set (ps_queue st) \<and> pr_query q = dr_query r
              \<and> (pr_ready q \<or> is_due (dr_dispatched_at r) q)))
       (snd (tick now s))"
proof -
  have inv: "sched_inv s" by (rule reachable_inv [OF assms])
  have out: "length (snd (tick now s)) \<le> max (dispatch_budget_per_tick c) 1
      \<and> distinct (map dr_plugin (snd (tick now s)))"
  proof (cases "qs_shutdown s")
    case True
    then show ?thesis by (simp add: tick_stopped)
  next
    case False
    have "distinct (rotate (qs_round_robin_cursor s) (qs_plugin_order s))"
      using inv by (simp add: sched_inv_def shape_ok_def)
    from map_filter_sublist_keys [OF tick_request_dr_plugin this] show ?thesis
      unfolding tick_output [OF inv False] reachable_config [OF assms]
      by (simp add: take_map [symmetric] normalize_config_def)
  qed
  have ok: "plugin_ok (qs_shutdown s) st" if "map_of (qs_plugins s) p = Some st" for p st
    using inv that by (auto simp: sched_inv_def dest: all_plugins_lookup)
  have "dr_generation r = sched_current_generation s
      \<and> (\<exists>st q. map_of (qs_plugins s) (dr_plugin r) = Some st \<and> ps_enabled st
           \<and> length (ps_in_flight st) < effective_concurrency_limit (ps_policy st)
           \<and> q \<in> set (ps_queue st) \<and> pr_query q = dr_query r
           \<and> (pr_ready q \<or> is_due (dr_dispatched_at r) q))"
    if r: "r \<in> set (snd (tick now s))" for r
    using tick_member [OF inv r]
  proof (rule tick_request_SomeD)
    fix st q assume "map_of (qs_plugins s) (dr_plugin r) = Some st" "q \<in> set (ps_queue st)"
      "pr_generation q = sched_current_generation s" "pr_ready q \<or> is_due (snd (observe_now s now)) q"
      "length (ps_in_flight st) < effective_concurrency_limit (ps_policy st)"
      "dr_generation r = sched_current_generation s" "dr_query r = pr_query q"
      "dr_dispatched_at r = snd (observe_now s now)"
    moreover from this ok have "ps_enabled st" by (force simp: plugin_ok_def)
    ultimately show ?thesis by metis
  qed
  with out show ?thesis by (simp add: list_all_iff)
qed

theorem tick_dispatches_safely_witness:
  "length (snd (tick 20 demo_state)) = 1 \<and> length (snd (tick 20 demo_state)) \<le> max (dispatch_budget_per_tick demo_config) 1"
proof -
  have "length (snd (tick 20 demo_state)) = 1" unfolding demo_state_def by code_simp
  then show ?thesis using tick_dispatches_safely [OF demo_reachable demo_capacity, of 20] by simp
qed

section \<open>At most once\<close>

text \<open>
  A change admits only the generations \<open>G\<close> if no plugin's queue gains a generation
  outside \<open>G\<close>.
\<close>

definition queue_gens :: "query_scheduler \<Rightarrow> plugin_id \<Rightarrow> generation set" where
  "queue_gens s p = (case view s p of None \<Rightarrow> {} | Some st \<Rightarrow> pr_generation ` set (ps_queue st))"

definition admits :: "generation set \<Rightarrow> query_scheduler \<Rightarrow> query_scheduler \<Rightarrow> bool" where
  "admits G s s' \<longleftrightarrow> (\<forall>p. queue_gens s' p \<subseteq> queue_gens s p \<union> G)"

lemma admits_trans: "admits G s t \<Longrightarrow> admits G t u \<Longrightarrow> admits G s u"
  unfolding admits_def by blast

lemma admits_mono: "admits {} s s' \<Longrightarrow> admits G s s'"
  unfolding admits_def by blast

lemma admits_view: "(\<And>p. view s' p = view s p) \<Longrightarrow> admits G s s'"
  by (simp add: admits_def queue_gens_def)

lemma admits_quiet: "quiet s s' \<Longrightarrow> admits G s s'"
  by (rule admits_view) (rule view_quiet)

lemma admits_same: "qs_plugins s' = qs_plugins s \<Longrightarrow> admits G s s'"
  by (rule admits_view) (simp add: view_def)

lemma admits_fold: "(\<And>x s. admits G s (f x s)) \<Longrightarrow> admits G s (fold f xs s)"
  by (induction xs arbitrary: s) (auto intro: admits_trans admits_same)

lemma admits_modify:
  assumes "\<And>st. map_of (qs_plugins s) p = Some st \<Longrightarrow>
      pr_generation ` set (ps_queue (f st)) \<subseteq> pr_generation ` set (ps_queue st) \<union> G"
  shows "admits G s (modify_plugin p f s)"
  using assms by (auto simp: admits_def queue_gens_def view_modify) (auto simp: view_def split: option.splits)

lemma admits_observe: "admits G s (fst (observe_now s now))"
  by (rule admits_same) simp

lemma admits_invalidate: "admits G s (fst (invalidate_plugin p reason now incl s))"
  by (cases "map_of (qs_plugins s) p")
    (auto simp: invalidate_plugin_def Let_def admits_same
      intro!: admits_trans [OF admits_modify admits_quiet [OF quiet_emit_cancellations]])

lemma admits_reclaim: "shape_ok s \<Longrightarrow> admits G s (reclaim_obsolete_queued g now incl s)"
  by (auto simp: admits_def queue_gens_def view_reclaim reclaimed_def split: option.splits if_splits)

lemma admits_admit: "map_of (qs_plugins s) p = Some st \<Longrightarrow> snd (prepare_request g now st0) = Some req \<Longrightarrow>
  admits {g} s (admit_request p g query now req st s)"
proof -
  assume at: "map_of (qs_plugins s) p = Some st" and req: "snd (prepare_request g now st0) = Some req"
  obtain n where n: "make_room (effective_queue_policy (ps_policy st)) (effective_queue_capacity (ps_policy st))
      (ps_queue st) = drop n (ps_queue st)" using make_room_suffix by blast
  have "admits {g} s (modify_plugin p (\<lambda>st'. st'\<lparr>ps_queue := drop n (ps_queue st) @ [fst (prepared_slot g query req)]\<rparr>) s)"
    using prepared_slot_ok [OF req, of g query] at
    by (intro admits_modify) (auto dest: in_set_dropD)
  then have "admits {g} s (push_trace e (note_evicted p now ev (note_superseded p now su
      (modify_plugin p (\<lambda>st'. st'\<lparr>ps_queue := drop n (ps_queue st) @ [fst (prepared_slot g query req)]\<rparr>) s))))" for e ev su
    by (rule admits_trans [OF _ admits_quiet [OF quiet_trans [OF quiet_trans [OF quiet_note_superseded quiet_note_evicted] quiet_push_trace]]])
  moreover have "admits {g} s (drop_request p g now policy (count_diagnostic get upd k s))" for policy get upd k
    by (rule admits_quiet [OF quiet_trans [OF quiet_count_diagnostic quiet_drop_request]])
  ultimately show ?thesis by (simp add: admit_request_def Let_def case_prod_beta n)
qed

lemma admits_query_cancelled: "admits G s (query_cancelled normalized now p st s)"
  unfolding query_cancelled_def Let_def
  by (rule admits_trans [OF admits_modify admits_quiet [OF quiet_emit_cancellations]])
    (auto simp: cancel_for_query_def Let_def)

lemma admits_process:
  assumes "process_query_for_plugin g query normalized now p s = Some s'"
  shows "admits {g} s s'"
proof (cases "map_of (qs_plugins s) p")
  case None
  with assms show ?thesis by (simp add: process_query_for_plugin_def admits_same)
next
  case (Some st)
  let ?c = "query_cancelled normalized now p st s"
  have gated: "admits {g} s (push_trace e ?c)" for e
    by (rule admits_trans [OF admits_query_cancelled admits_quiet [OF quiet_push_trace]])
  have prep: "admits {g} s (modify_plugin p (\<lambda>_. fst (prepare_request g now st2)) ?c)"
    if "map_of (qs_plugins ?c) p = Some st2" for st2
    using that by (intro admits_trans [OF admits_query_cancelled admits_modify]) (auto simp: prepare_request_fields)
  have "admits {g} s (admit_request p g query now req (fst (prepare_request g now st2))
      (modify_plugin p (\<lambda>_. fst (prepare_request g now st2)) ?c))"
    if "map_of (qs_plugins ?c) p = Some st2" "snd (prepare_request g now st2) = Some req" for st2 req
    using that by (intro admits_trans [OF prep admits_admit]) (auto simp: lookup_simps)
  with assms gated prep show ?thesis
    unfolding process_query_eq [OF Some] by (auto split: option.splits)
qed

lemma admits_processes:
  "process_query_for_plugins g query normalized now ps s = Some s' \<Longrightarrow> admits {g} s s'"
  by (induction ps arbitrary: s)
    (auto simp: admits_same split: option.splits dest!: admits_process intro: admits_trans)

lemma admits_submit:
  assumes inv: "sched_inv s" and sub: "submit_query query now s = Some (s', g)"
  shows "admits {g} s s'"
proof -
  from sub obtain tr where adv: "advance (qs_generations s) = Some (g, tr)"
    by (auto simp: submit_query_def Let_def case_prod_beta split: option.splits if_splits)
  let ?t = "snd (observe_now s now)"
  define s1 where "s1 = push_trace (TrKeystroke ?t g (length (to_lowercase (trim query))))
    ((fst (observe_now s now))\<lparr>qs_generations := tr, qs_result_queue_depth := 0\<rparr>)"
  have s1: "admits {g} s s1" by (rule admits_same) (simp add: s1_def)
  have "shape_ok ((fst (observe_now s now))\<lparr>qs_generations := tr, qs_result_queue_depth := 0\<rparr>)"
    using inv by (simp add: sched_inv_def shape_ok_def queue_total_def logs_ok_defs)
  then have shape: "shape_ok s1" unfolding s1_def by (rule quiet_shape [OF quiet_push_trace])
  show ?thesis
  proof (cases "qs_shutdown s")
    case True
    with sub adv s1 show ?thesis by (simp add: submit_query_def Let_def case_prod_beta s1_def)
  next
    case False
    from sub False adv obtain visits where
      "process_query_for_plugins g query (to_lowercase (trim query)) ?t visits
        (reclaim_obsolete_queued g ?t False s1) = Some s'"
      by (auto simp: submit_query_def Let_def case_prod_beta s1_def)
    from admits_processes [OF this] s1 admits_reclaim [OF shape] show ?thesis
      by (blast intro: admits_trans)
  qed
qed

text \<open>What dispatching does to the generations queued and in flight.\<close>

definition flight_gens :: "query_scheduler \<Rightarrow> plugin_id \<Rightarrow> generation set" where
  "flight_gens s p = (case view s p of None \<Rightarrow> {} | Some st \<Rightarrow> if_generation ` set (ps_in_flight st))"

definition hands_out :: "query_scheduler \<Rightarrow> dispatched_request list \<Rightarrow> query_scheduler \<Rightarrow> dispatched_request list \<Rightarrow> bool" where
  "hands_out s out s' out' \<longleftrightarrow>
     admits {} s s' \<and> (\<forall>p. flight_gens s p \<subseteq> flight_gens s' p)
     \<and> (\<forall>r \<in> set out'. r \<in> set out \<or> dr_generation r \<in> flight_gens s' (dr_plugin r))"

lemma hands_out_refl: "hands_out s out s out"
  by (simp add: hands_out_def admits_same)

lemma hands_out_trans: "hands_out s out t mid \<Longrightarrow> hands_out t mid u out' \<Longrightarrow> hands_out s out u out'"
  unfolding hands_out_def by (blast intro: admits_trans)

lemma hands_out_one:
  assumes "dispatch_one now p s = Some (s', r)"
  shows "hands_out s out s' (out @ [r])"
proof -
  from dispatch_one_Some_iff [OF assms] obtain st pending rest where
    at: "map_of (qs_plugins s) p = Some st" and q: "ps_queue st = pending # rest"
    and r: "dr_plugin r = p" "dr_generation r = pr_generation pending" by auto
  let ?m = "modify_plugin p (dispatched_state now pending rest) s"
  note quiet = dispatch_one_quiet [OF assms at q]
  have "admits {} s ?m" using at by (intro admits_modify) (auto simp: dispatched_state_def q)
  then have "admits {} s s'" by (rule admits_trans [OF _ admits_quiet [OF quiet]])
  moreover have "flight_gens s k \<subseteq> flight_gens s' k" for k
    using at by (auto simp: flight_gens_def view_quiet [OF quiet] view_modify dispatched_state_def)
      (auto simp: view_def)
  moreover have "dr_generation r \<in> flight_gens s' (dr_plugin r)"
    by (simp add: r flight_gens_def view_quiet [OF quiet] view_modify at dispatched_state_def)
  ultimately show ?thesis by (auto simp: hands_out_def)
qed

lemma hands_out_plugin:
  "dispatch_plugin n now p (s, out) = (s', out') \<Longrightarrow> hands_out s out s' out'"
proof (induction n arbitrary: s out)
  case (Suc n)
  show ?case
  proof (cases "length out < dispatch_budget_per_tick (qs_config s)")
    case True
    show ?thesis
    proof (cases "dispatch_one now p s")
      case None
      with Suc.prems True show ?thesis by (simp add: hands_out_refl)
    next
      case (Some sr)
      obtain s1 r where "sr = (s1, r)" by (cases sr)
      with Suc True Some show ?thesis by (auto intro: hands_out_trans [OF hands_out_one])
    qed
  next
    case False
    with Suc.prems show ?thesis by (simp add: hands_out_refl)
  qed
qed (simp add: hands_out_refl)

lemma hands_out_round:
  "dispatch_round now plugins is (s, out, served) = (s', out', served') \<Longrightarrow> hands_out s out s' out'"
proof (induction "is" arbitrary: s out served)
  case (Cons i "is")
  show ?case
  proof (cases "dispatch_budget_per_tick (qs_config s) \<le> length out")
    case True
    with Cons.prems show ?thesis by (simp add: hands_out_refl)
  next
    case False
    obtain s1 out1 where one: "dispatch_plugin (per_plugin_dispatch_budget (qs_config s)) now (plugins ! i) (s, out) = (s1, out1)"
      by (cases "dispatch_plugin (per_plugin_dispatch_budget (qs_config s)) now (plugins ! i) (s, out)")
    from Cons.prems False one have "hands_out s1 out1 s' out'" by (auto intro: Cons.IH)
    with hands_out_plugin [OF one] show ?thesis by (rule hands_out_trans)
  qed
qed (simp add: hands_out_refl)

lemma hands_out_quiet: "quiet s s' \<Longrightarrow> hands_out s out s' out"
  by (simp add: hands_out_def admits_quiet flight_gens_def view_quiet)

lemma admits_tick_prepare:
  assumes "mid_inv (\<lambda>_. plugin_current (sched_current_generation s)) s"
  shows "admits G s (tick_prepare now s)"
  by (auto simp: admits_def queue_gens_def view_tick_prepare [OF assms] matured_def reclaimed_def
      split: option.splits) (metis imageI)

lemma tick_hands_out:
  assumes inv: "sched_inv s" and run: "\<not> qs_shutdown s"
  shows "hands_out (tick_prepare (snd (observe_now s now)) (fst (observe_now s now))) [] (fst (tick now s)) (snd (tick now s))"
    (is "hands_out ?p _ _ _")
proof -
  define r where "r = dispatch_round (snd (observe_now s now)) (qs_plugin_order ?p)
    (rotation (qs_round_robin_cursor ?p mod length (qs_plugin_order ?p)) (length (qs_plugin_order ?p))) (?p, [], None)"
  have "dispatch_round (snd (observe_now s now)) (qs_plugin_order ?p)
    (rotation (qs_round_robin_cursor ?p mod length (qs_plugin_order ?p)) (length (qs_plugin_order ?p))) (?p, [], None)
    = (fst r, fst (snd r), snd (snd r))" by (simp add: r_def)
  then have "hands_out ?p [] (fst r) (fst (snd r))" by (rule hands_out_round)
  then have round: "hands_out ?p [] (record_remaining_queue_peaks ((fst r)\<lparr>qs_round_robin_cursor := n\<rparr>)) (fst (snd r))" for n
    by (rule hands_out_trans [OF hands_out_trans [OF _ hands_out_refl] hands_out_trans [OF _ hands_out_quiet [OF quiet_record_remaining]]])
      (simp add: hands_out_def admits_same flight_gens_def view_def)
  have "hands_out ?p [] (record_remaining_queue_peaks ?p) []" by (rule hands_out_quiet) auto
  with round run show ?thesis
    by (simp add: tick_def Let_def case_prod_beta r_def [symmetric])
qed

lemma admits_tick: "sched_inv s \<Longrightarrow> admits G s (fst (tick now s))"
proof (cases "qs_shutdown s")
  case True
  then show ?thesis by (simp add: tick_stopped admits_observe)
next
  case False
  assume inv: "sched_inv s"
  have "admits {} s (fst (tick now s))"
    using tick_hands_out [OF inv False, of now] admits_tick_prepare [OF observe_mid [OF inv False, of now]]
      admits_observe [of "{}" s now] by (blast intro: admits_trans dest: hands_out_def [THEN iffD1])
  then show ?thesis by (rule admits_mono)
qed

lemma tick_takes_off_queue:
  assumes inv: "sched_inv s" and r: "r \<in> set (snd (tick now s))"
  shows "dr_generation r \<notin> queue_gens (fst (tick now s)) (dr_plugin r)"
proof -
  have run: "\<not> qs_shutdown s" using r by (auto simp: tick_stopped)
  have "dr_generation r \<in> flight_gens (fst (tick now s)) (dr_plugin r)"
    using tick_hands_out [OF inv run, of now] r by (auto simp: hands_out_def)
  moreover have "plugin_current (sched_current_generation (fst (tick now s))) st"
    if "view (fst (tick now s)) (dr_plugin r) = Some st" for st
    using inv_tick [OF inv, of now] that by (auto simp: sched_inv_def view_def dest: all_plugins_lookup)
  ultimately show ?thesis
    by (auto simp: flight_gens_def queue_gens_def plugin_current_def generations_of_def split: option.splits)
qed

lemma admits_simple_ops:
  "admits G s (sched_register_plugin p policy s)"
  "admits G s (fst (sched_unregister_plugin p s))"
  "admits G s (set_policy p policy now s)"
  "admits G s (disable_plugin p now s)"
  "admits G s (enable_plugin p now s)"
  "admits G s (fst (cancel_plugin p reason now s))"
  "admits G s (fst (drain_cancellations s))"
proof -
  show "admits G s (sched_register_plugin p policy s)"
    by (auto simp: admits_def queue_gens_def sched_register_plugin_def Let_def view_def lookup_simps
        plugin_state_new_def split: option.splits if_splits)
  show "admits G s (fst (sched_unregister_plugin p s))"
    by (auto simp: admits_def queue_gens_def sched_unregister_plugin_def Let_def view_def lookup_simps
        split: option.splits if_splits)
  have inval: "admits G s (fst (invalidate_plugin p reason t incl (fst (observe_now s now))))" for reason t incl
    by (rule admits_trans [OF admits_observe admits_invalidate])
  show "admits G s (set_policy p policy now s)"
    unfolding set_policy_def Let_def case_prod_beta
    by (cases "map_of (qs_plugins s) p")
      (auto simp: admits_observe intro!: admits_trans [OF inval admits_modify])
  show "admits G s (disable_plugin p now s)"
    unfolding disable_plugin_def Let_def case_prod_beta by (auto intro!: admits_trans [OF inval admits_modify])
  show "admits G s (enable_plugin p now s)"
    unfolding enable_plugin_def by (auto intro!: admits_trans [OF admits_observe admits_modify])
  show "admits G s (fst (cancel_plugin p reason now s))"
    unfolding cancel_plugin_def Let_def case_prod_beta by (rule inval)
  show "admits G s (fst (drain_cancellations s))"
    by (rule admits_same) (simp add: drain_cancellations_def)
qed

lemma admits_shutdown: "admits G s (sched_shutdown now s)"
proof -
  have "admits G s (shutdown_plugin t p s)" for t p s
    unfolding shutdown_plugin_def by (rule admits_trans [OF admits_invalidate admits_modify]) simp
  then have fold: "admits G s (fold (shutdown_plugin t) ps (fst (observe_now s now)))" for t ps
    by (rule admits_trans [OF admits_observe admits_fold])
  have "admits G s (u\<lparr>qs_result_queue_depth := 0, qs_shutdown := True\<rparr>)" if "admits G s u" for u
    using that by (rule admits_trans) (rule admits_same, simp)
  with fold show ?thesis by (simp add: sched_shutdown_def Let_def case_prod_beta admits_observe)
qed

lemma admits_result_ops:
  "admits G s (fst (sched_complete p g now s))"
  "admits G s (fst (record_result_batch p g k completion now s))"
  "admits G s (record_ranking g k now s)"
  "admits G s (record_presentation g k now s)"
proof -
  have push: "admits G s (push_trace e u)" if "admits G s u" for e u
    using that by (rule admits_trans) (rule admits_same, simp)
  have flight: "admits G s (modify_plugin p (\<lambda>st. st\<lparr>ps_in_flight := f st\<rparr>) (fst (observe_now s now)))" for f
    by (rule admits_trans [OF admits_observe admits_modify]) auto
  show "admits G s (fst (sched_complete p g now s))"
    using flight by (auto simp: sched_complete_def Let_def case_prod_beta admits_observe push split: option.split)
  have count: "admits G s (count_plugin p get upd n (count_diagnostic get' upd' n' (fst (observe_now s now))))"
    for get upd n get' upd' n'
    by (rule admits_trans [OF admits_observe admits_quiet [OF quiet_trans [OF quiet_count_diagnostic quiet_count_plugin]]])
  have "admits G s (modify_plugin p (\<lambda>st. st\<lparr>ps_in_flight := f st\<rparr>)
      ((fst (observe_now s now))\<lparr>qs_result_queue_depth := n\<rparr>))" for f n
    by (rule admits_trans [OF admits_observe admits_trans [OF admits_same admits_modify]]) auto
  with count show "admits G s (fst (record_result_batch p g k completion now s))"
    by (auto simp: record_result_batch_def Let_def case_prod_beta admits_observe intro!: push)
  show "admits G s (record_ranking g k now s)" and "admits G s (record_presentation g k now s)"
    by (rule admits_same, simp add: record_ranking_def record_presentation_def Let_def case_prod_beta)+
qed

lemma exec_admits:
  assumes "sched_inv s" and "sched_exec op s = Some s'"
  obtains G where "admits G s s'" and "\<And>g. g \<in> G \<Longrightarrow> sched_current_generation s < g"
    and "sched_current_generation s \<le> sched_current_generation s'"
proof (cases "\<exists>query now. op = OpSubmit query now")
  case True
  then obtain query now g where "submit_query query now s = Some (s', g)" using assms(2) by auto
  from that [OF admits_submit [OF assms(1) this]] submit_query_Some [OF assms(1) this] show thesis by simp
next
  case False
  then have "admits {} s s' \<and> sched_current_generation s' = sched_current_generation s"
    using assms tick_frame [OF assms(1)]
    by (cases op) (auto simp: admits_simple_ops admits_shutdown admits_result_ops admits_tick
        sched_current_generation_def)
  with that [of "{}"] show thesis by simp
qed

fun dispatched_by :: "sched_op \<Rightarrow> query_scheduler \<Rightarrow> dispatched_request list" where
  "dispatched_by (OpTick now) s = snd (tick now s)"
| "dispatched_by _ s = []"

text \<open>Everything the ticks of a run hand out, up to a panic.\<close>

fun dispatch_log :: "sched_op list \<Rightarrow> query_scheduler \<Rightarrow> dispatched_request list" where
  "dispatch_log [] s = []"
| "dispatch_log (op # ops) s =
     dispatched_by op s @ (case sched_exec op s of None \<Rightarrow> [] | Some s' \<Rightarrow> dispatch_log ops s')"

definition request_key :: "dispatched_request \<Rightarrow> plugin_id \<times> generation" where
  "request_key r = (dr_plugin r, dr_generation r)"

definition spent :: "(plugin_id \<times> generation) set \<Rightarrow> query_scheduler \<Rightarrow> bool" where
  "spent H s \<longleftrightarrow> (\<forall>(p, g) \<in> H. g \<le> sched_current_generation s \<and> g \<notin> queue_gens s p)"

lemma spent_Un [simp]: "spent (A \<union> B) s \<longleftrightarrow> spent A s \<and> spent B s" "spent {} s"
  by (auto simp: spent_def)

lemma dispatched_by_spent:
  assumes inv: "sched_inv s" and H: "spent H s" and ex: "sched_exec op s = Some s'"
  shows "distinct (map request_key (dispatched_by op s))"
    and "request_key ` set (dispatched_by op s) \<inter> H = {}"
    and "spent (H \<union> request_key ` set (dispatched_by op s)) s'"
proof -
  have tick: "distinct (map request_key (snd (tick now s)))
      \<and> request_key ` set (snd (tick now s)) \<inter> H = {}
      \<and> spent (request_key ` set (snd (tick now s))) (fst (tick now s))" for now
  proof (intro conjI)
    have q: "dr_generation r \<in> queue_gens s (dr_plugin r)" "dr_generation r = sched_current_generation s"
      if r: "r \<in> set (snd (tick now s))" for r
      using tick_member [OF inv r] by (auto elim!: tick_request_SomeD simp: queue_gens_def view_def) (metis imageI)+
    show "request_key ` set (snd (tick now s)) \<inter> H = {}"
      using H q(1) by (auto simp: spent_def request_key_def)
    have "dr_generation r \<le> sched_current_generation (fst (tick now s))" if "r \<in> set (snd (tick now s))" for r
      using q(2) [OF that] tick_frame [OF inv, of now] by (simp add: sched_current_generation_def)
    with tick_takes_off_queue [OF inv]
    show "spent (request_key ` set (snd (tick now s))) (fst (tick now s))"
      by (auto simp: spent_def request_key_def)
    have "distinct (map dr_plugin (snd (tick now s)))"
    proof (cases "qs_shutdown s")
      case False
      have "distinct (rotate (qs_round_robin_cursor s) (qs_plugin_order s))"
        using inv by (simp add: sched_inv_def shape_ok_def)
      from map_filter_sublist_keys [OF tick_request_dr_plugin this] show ?thesis
        unfolding tick_output [OF inv False] by (simp add: take_map [symmetric])
    qed (simp add: tick_stopped)
    then show "distinct (map request_key (snd (tick now s)))"
      by (auto simp: distinct_map inj_on_def request_key_def)
  qed
  show "distinct (map request_key (dispatched_by op s))" and "request_key ` set (dispatched_by op s) \<inter> H = {}"
    using tick by (cases op; simp)+
  obtain G where G: "admits G s s'" "\<And>g. g \<in> G \<Longrightarrow> sched_current_generation s < g"
    "sched_current_generation s \<le> sched_current_generation s'" by (rule exec_admits [OF inv ex]) blast
  have "spent H s'"
    unfolding spent_def
  proof (clarify, intro conjI)
    fix p g assume "(p, g) \<in> H"
    with H have pg: "g \<le> sched_current_generation s" "g \<notin> queue_gens s p" by (auto simp: spent_def)
    then show "g \<le> sched_current_generation s'" using G(3) by simp
    show "g \<notin> queue_gens s' p" using pg G(1,2) by (force simp: admits_def)
  qed
  with tick ex show "spent (H \<union> request_key ` set (dispatched_by op s)) s'"
    by (cases op) auto
qed

lemma dispatch_log_distinct:
  "sched_inv s \<Longrightarrow> spent H s \<Longrightarrow>
   distinct (map request_key (dispatch_log ops s)) \<and> request_key ` set (dispatch_log ops s) \<inter> H = {}"
proof (induction ops arbitrary: s H)
  case (Cons op ops)
  show ?case
  proof (cases "sched_exec op s")
    case None
    then have "dispatched_by op s = []" by (cases op) auto
    with None show ?thesis by simp
  next
    case (Some s')
    note one = dispatched_by_spent [OF Cons.prems Some]
    from Cons.IH [OF inv_exec [OF Cons.prems(1) Some] one(3)] one(1,2) Some show ?thesis by auto
  qed
qed simp

text \<open>
  C15: over any sequence of operations on a fresh scheduler, no plugin is handed the same
  generation twice.
\<close>

theorem dispatched_at_most_once:
  assumes "request_queue_capacity c \<le> usize_max"
  shows "distinct (map request_key (dispatch_log ops (scheduler_new c)))"
  using dispatch_log_distinct [OF inv_new [OF assms], of "{}"] by simp

theorem dispatched_at_most_once_witness:
  "map request_key (dispatch_log (demo_ops @ [OpTick 20, OpTick 30, OpTick 40]) (scheduler_new demo_config))
     = [(''calc'', 1), (''files'', 1)]
   \<and> distinct (map request_key (dispatch_log (demo_ops @ [OpTick 20, OpTick 30, OpTick 40]) (scheduler_new demo_config)))"
proof
  show "map request_key (dispatch_log (demo_ops @ [OpTick 20, OpTick 30, OpTick 40]) (scheduler_new demo_config))
     = [(''calc'', 1), (''files'', 1)]" by code_simp
qed (rule dispatched_at_most_once [OF demo_capacity])

end
