(* ===== verification/Scheduler_Liveness.thy ===== *)
theory Scheduler_Liveness
  imports Scheduler_Dispatch
begin

text \<open>
  Liveness of the scheduler: the rotation starves no plugin, a host that sleeps until
  \<open>next_wakeup\<close> misses no deadline, and shutdown is final.
\<close>

section \<open>Positions in a round\<close>

lemma takeWhile_distinct_index:
  assumes "distinct xs" and "i < length xs" and "xs ! i = p"
  shows "length (takeWhile (\<lambda>q. q \<noteq> p) xs) = i"
proof -
  have "takeWhile (\<lambda>q. q \<noteq> p) xs = take i xs"
  proof (rule takeWhile_eq_take_P_nth)
    fix j assume "j < i" "j < length xs"
    then show "xs ! j \<noteq> p" using assms nth_eq_iff_index_eq [OF assms(1), of j i] by auto
  qed (use assms in simp)
  then show ?thesis using assms(2) by simp
qed

text \<open>The positions at which a round finds a request, in increasing order.\<close>

definition hits :: "('a \<Rightarrow> 'b option) \<Rightarrow> 'a list \<Rightarrow> nat list" where
  "hits f xs = filter (\<lambda>k. f (xs ! k) \<noteq> None) [0..<length xs]"

lemma hits_Cons:
  "hits f (x # xs) = (if f x \<noteq> None then [0] else []) @ map Suc (hits f xs)"
  unfolding hits_def by (simp add: upt_conv_Cons map_Suc_upt [symmetric] filter_map comp_def del: upt_Suc)

lemma map_filter_hits: "List.map_filter f xs = map (\<lambda>k. the (f (xs ! k))) (hits f xs)"
proof (induction xs)
  case (Cons x xs)
  then show ?case by (cases "f x") (simp_all add: hits_Cons map_filter_simps comp_def)
qed (simp add: hits_def map_filter_simps)

lemma hits_sorted: "sorted_wrt (<) (hits f xs)"
  unfolding hits_def by (rule sorted_wrt_filter) simp

lemma hits_before:
  assumes "d \<in> set (hits f xs)" and "d \<notin> set (take B (hits f xs))" and "0 < B"
  shows "take B (hits f xs) \<noteq> [] \<and> last (take B (hits f xs)) < d"
proof -
  have "d \<in> set (drop B (hits f xs))"
    using assms(1,2) by (metis Un_iff append_take_drop_id set_append)
  moreover have "\<forall>x \<in> set (take B (hits f xs)). \<forall>y \<in> set (drop B (hits f xs)). x < y"
    using hits_sorted [of f xs] by (metis append_take_drop_id sorted_wrt_append)
  moreover have "take B (hits f xs) \<noteq> []" using assms by auto
  ultimately show ?thesis using last_in_set by blast
qed

lemma rotation_hits:
  assumes "start = c mod length xs" and "xs \<noteq> []"
  shows "filter (\<lambda>i. f (xs ! i) \<noteq> None) (rotation start (length xs))
    = map (\<lambda>k. (start + k) mod length xs) (hits f (rotate c xs))"
proof -
  have "f (xs ! ((start + k) mod length xs)) = f (rotate c xs ! k)" if "k < length xs" for k
    using that assms nth_rotate [of k xs c] by (simp add: mod_simps)
  then show ?thesis
    by (auto simp: rotation_def hits_def filter_map comp_def intro!: arg_cong [of _ _ "map _"] filter_cong)
qed

section \<open>No starvation\<close>

text \<open>How many plugins the rotation visits before \<open>p\<close>.\<close>

definition lag :: "query_scheduler \<Rightarrow> plugin_id \<Rightarrow> nat" where
  "lag s p = length (takeWhile (\<lambda>q. q \<noteq> p) (rotate (qs_round_robin_cursor s) (qs_plugin_order s)))"

lemma view_peaks_cursor:
  "view (record_remaining_queue_peaks (s\<lparr>qs_round_robin_cursor := c\<rparr>)) p = view s p"
  by (simp add: view_quiet [OF quiet_record_remaining]) (simp add: view_def)

lemma cursor_peaks [simp]:
  "qs_round_robin_cursor (record_remaining_queue_peaks s) = qs_round_robin_cursor s"
  "qs_plugin_order (record_remaining_queue_peaks s) = qs_plugin_order s"
  using quiet_record_remaining [of s] by (simp_all add: quiet_def)

lemma passed_over_view:
  assumes inv: "sched_inv s" and run: "\<not> qs_shutdown s" and order: "qs_plugin_order s \<noteq> []"
    and "p \<notin> dr_plugin ` set (snd (tick now s))"
  shows "view (fst (tick now s)) p
    = view (tick_prepare (snd (observe_now s now)) (fst (observe_now s now))) p"
  using inv run order
proof (rule tick_round [of s now])
  fix s2 served
  assume "tick now s = (record_remaining_queue_peaks (s2\<lparr>qs_round_robin_cursor :=
        (case served of
           Some index \<Rightarrow> (index + 1) mod length (qs_plugin_order s)
         | None \<Rightarrow> (qs_round_robin_cursor s mod length (qs_plugin_order s) + 1) mod length (qs_plugin_order s))\<rparr>),
      take (dispatch_budget_per_tick (qs_config s))
        (List.map_filter (\<lambda>i. tick_request (snd (observe_now s now)) s (qs_plugin_order s ! i))
          (rotation (qs_round_robin_cursor s mod length (qs_plugin_order s)) (length (qs_plugin_order s)))))"
    and "\<forall>p. p \<notin> dr_plugin ` set (snd (tick now s)) \<longrightarrow>
      view s2 p = view (tick_prepare (snd (observe_now s now)) (fst (observe_now s now))) p"
  with assms(4) show ?thesis by (metis fst_conv view_peaks_cursor)
qed

lemma tick_request_view:
  "tick_request now s p =
     (case view s p of
        None \<Rightarrow> None
      | Some st \<Rightarrow>
          (case filter (\<lambda>r. pr_generation r = sched_current_generation s) (ps_queue st) of
             [] \<Rightarrow> None
           | r # _ \<Rightarrow>
               (if length (ps_in_flight st) < effective_concurrency_limit (ps_policy st)
                   \<and> (pr_ready r \<or> is_due now r)
                then Some \<lparr>dr_plugin = p, dr_generation = sched_current_generation s,
                           dr_query = pr_query r, dr_dispatched_at = now\<rparr>
                else None)))"
  by (cases "map_of (qs_plugins s) p";
      cases "filter (\<lambda>r. pr_generation r = sched_current_generation s) (ps_queue (the (map_of (qs_plugins s) p)))")
    (simp_all add: tick_request_def view_def)

text \<open>A plugin that is passed over keeps its request, whatever the time of the next tick.\<close>

lemma passed_over_request:
  assumes inv: "sched_inv s" and run: "\<not> qs_shutdown s"
    and req: "tick_request (snd (observe_now s now)) s p = Some r"
    and out: "p \<notin> dr_plugin ` set (snd (tick now s))"
  shows "tick_request t (fst (tick now s)) p = Some (r\<lparr>dr_dispatched_at := t\<rparr>)"
proof -
  let ?s0 = "fst (observe_now s now)" and ?t = "snd (observe_now s now)" and ?g = "sched_current_generation s"
  from req obtain st where st: "map_of (qs_plugins s) p = Some st" by (auto simp: tick_request_def split: option.splits)
  then have order: "qs_plugin_order s \<noteq> []"
    using inv shape_keys_set [of s p] by (auto simp: sched_inv_def)
  have gen: "sched_current_generation (fst (tick now s)) = ?g"
    using tick_frame [OF inv, of now] by (simp add: sched_current_generation_def)
  have view: "view (fst (tick now s)) p = Some (matured ?t (reclaimed ?g True (strip st)))"
    unfolding passed_over_view [OF inv run order out] view_tick_prepare [OF observe_mid [OF inv run]]
    using st by (simp add: view_def)
  obtain q qs where q: "filter (\<lambda>r. pr_generation r = ?g) (ps_queue st) = q # qs"
    using req st by (auto simp: tick_request_def split: list.splits)
  have ready: "pr_ready (mature_request ?t q)"
    and r: "r = \<lparr>dr_plugin = p, dr_generation = ?g, dr_query = pr_query q, dr_dispatched_at = ?t\<rparr>"
    and room: "length (ps_in_flight st) < effective_concurrency_limit (ps_policy st)"
    using req st q by (auto simp: tick_request_def mature_request_ready split: if_splits)
  have "filter (\<lambda>r. pr_generation r = ?g) (ps_queue (matured ?t (reclaimed ?g True (strip st))))
      = map (mature_request ?t) (q # qs)"
  proof -
    have "\<forall>x \<in> set (q # qs). pr_generation x = ?g"
      using arg_cong [OF q, of set] by auto
    then show ?thesis by (auto simp: matured_def reclaimed_def q filter_id_conv)
  qed
  then show ?thesis
    using ready room by (simp add: tick_request_view view gen r) (simp add: matured_def reclaimed_def)
qed

lemma served_or_closer:
  assumes inv: "sched_inv s" and run: "\<not> qs_shutdown s"
    and req: "tick_request (snd (observe_now s now)) s p = Some r"
    and out: "r \<notin> set (snd (tick now s))"
  shows "lag (fst (tick now s)) p < lag s p"
proof -
  let ?n = "length (qs_plugin_order s)" and ?c = "qs_round_robin_cursor s" and ?xs = "qs_plugin_order s"
  let ?B = "dispatch_budget_per_tick (qs_config s)" and ?f = "tick_request (snd (observe_now s now)) s"
  define ys where "ys = rotate ?c ?xs"
  have shape: "shape_ok s" using inv by (simp add: sched_inv_def)
  have B: "0 < ?B" and dist: "distinct ys"
    using shape by (simp_all add: shape_ok_def config_ok_def ys_def)
  have "p \<in> set ys"
    using req shape_keys_set [OF shape, of p] by (auto simp: ys_def tick_request_def split: option.splits)
  moreover have len: "length ys = ?n" by (simp add: ys_def)
  ultimately obtain d where d: "d < ?n" "ys ! d = p" by (metis in_set_conv_nth)
  then have order: "?xs \<noteq> []" by auto
  have lag: "lag s p = d"
    unfolding lag_def ys_def [symmetric] using dist d by (intro takeWhile_distinct_index) (simp_all add: ys_def)
  have hit: "d \<in> set (hits ?f ys)" using d req by (simp add: hits_def ys_def)
  have "d \<notin> set (take ?B (hits ?f ys))"
  proof
    assume "d \<in> set (take ?B (hits ?f ys))"
    then have "the (?f (ys ! d)) \<in> set (take ?B (List.map_filter ?f ys))"
      by (auto simp: map_filter_hits take_map)
    then show False using out req d tick_output [OF inv run, of now] by (simp add: ys_def)
  qed
  from hits_before [OF hit this B] obtain k where
    k: "take ?B (hits ?f ys) \<noteq> []" "k = last (take ?B (hits ?f ys))" "k < d" by blast
  have cursor: "qs_round_robin_cursor (fst (tick now s)) = ((?c mod ?n + k) mod ?n + 1) mod ?n"
    using inv run order
  proof (rule tick_round [of s now])
    fix s2 served
    assume tick: "tick now s = (record_remaining_queue_peaks (s2\<lparr>qs_round_robin_cursor :=
        (case served of Some index \<Rightarrow> (index + 1) mod ?n | None \<Rightarrow> (?c mod ?n + 1) mod ?n)\<rparr>),
      take ?B (List.map_filter (\<lambda>i. ?f (?xs ! i)) (rotation (?c mod ?n) ?n)))"
      and served: "served = last_served (take ?B (filter (\<lambda>i. ?f (?xs ! i) \<noteq> None) (rotation (?c mod ?n) ?n))) None"
    have "served = Some ((?c mod ?n + k) mod ?n)"
      unfolding served rotation_hits [OF refl order] take_map using k
      by (simp add: last_served_def last_map ys_def)
    with tick show ?thesis by simp
  qed
  have "rotate (qs_round_robin_cursor (fst (tick now s))) ?xs = rotate (Suc k) ys"
    unfolding cursor ys_def rotate_rotate
    by (subst (1 2) rotate_conv_mod) (simp add: mod_simps ac_simps)
  then have "lag (fst (tick now s)) p = length (takeWhile (\<lambda>q. q \<noteq> p) (rotate (Suc k) ys))"
    using tick_frame [OF inv, of now] by (simp add: lag_def)
  also have "\<dots> = d - Suc k"
  proof (rule takeWhile_distinct_index)
    show "rotate (Suc k) ys ! (d - Suc k) = p"
      using nth_rotate [of "d - Suc k" ys "Suc k"] d k(3) len by simp
  qed (use dist d k(3) len in simp_all)
  finally show ?thesis using lag k(3) by simp
qed

lemma starvation_free:
  "sched_inv s \<Longrightarrow> \<not> qs_shutdown s \<Longrightarrow> tick_request (snd (observe_now s now)) s p = Some r \<Longrightarrow>
   lag s p \<le> length nows \<Longrightarrow>
   \<exists>r' \<in> set (dispatch_log (map OpTick (now # nows)) s).
     dr_plugin r' = p \<and> dr_generation r' = dr_generation r \<and> dr_query r' = dr_query r"
proof (induction nows arbitrary: s now r)
  case Nil
  then have "r \<in> set (snd (tick now s))" using served_or_closer [OF Nil.prems(1,2,3)] by fastforce
  with tick_request_dr_plugin [OF Nil.prems(3)] show ?case by auto
next
  case (Cons now' nows)
  show ?case
  proof (cases "r \<in> set (snd (tick now s))")
    case True
    with tick_request_dr_plugin [OF Cons.prems(3)] show ?thesis by auto
  next
    case False
    let ?s = "fst (tick now s)"
    have "p \<notin> dr_plugin ` set (snd (tick now s))"
    proof
      assume "p \<in> dr_plugin ` set (snd (tick now s))"
      then obtain r' where r': "r' \<in> set (snd (tick now s))" "dr_plugin r' = p" by auto
      from tick_member [OF Cons.prems(1) r'(1)] r'(2) Cons.prems(3) False r'(1) show False by simp
    qed
    note req = passed_over_request [OF Cons.prems(1,2,3) this, of "snd (observe_now ?s now')"]
    have "lag ?s p \<le> length nows"
      using served_or_closer [OF Cons.prems(1,2,3) False] Cons.prems(4) by simp
    moreover have "\<not> qs_shutdown ?s" using tick_frame [OF Cons.prems(1), of now] Cons.prems(2) by simp
    ultimately have "\<exists>r' \<in> set (dispatch_log (map OpTick (now' # nows)) ?s).
        dr_plugin r' = p \<and> dr_generation r' = dr_generation r \<and> dr_query r' = dr_query r"
      using Cons.IH [OF inv_tick [OF Cons.prems(1)] _ req] by simp
    then show ?thesis by auto
  qed
qed

text \<open>
  C17: the rotation starves nobody. If plugin \<open>p\<close> has a request that the next tick may
  dispatch, then as many ticks as there are plugins, at whatever times, dispatch it, even
  with a budget of one request per tick.
\<close>

theorem no_plugin_starves:
  assumes "sched_reachable c s" and "request_queue_capacity c \<le> usize_max" and "\<not> qs_shutdown s"
    and "tick_request (snd (observe_now s now)) s p = Some r"
    and "length (qs_plugin_order s) \<le> length (now # nows)"
  shows "\<exists>r' \<in> set (dispatch_log (map OpTick (now # nows)) s).
    dr_plugin r' = p \<and> dr_generation r' = sched_current_generation s \<and> dr_query r' = dr_query r"
proof -
  have inv: "sched_inv s" by (rule reachable_inv [OF assms(1,2)])
  from assms(4) obtain st where "map_of (qs_plugins s) p = Some st"
    and gen: "dr_generation r = sched_current_generation s" by (rule tick_request_SomeD)
  then have "p \<in> set (rotate (qs_round_robin_cursor s) (qs_plugin_order s))"
    using inv shape_keys_set [of s p] by (simp add: sched_inv_def)
  then have "lag s p < length (qs_plugin_order s)"
    unfolding lag_def by (metis length_rotate takeWhile_shorter)
  then have "lag s p \<le> length nows" using assms(5) by simp
  from starvation_free [OF inv assms(3,4) this] gen show ?thesis by simp
qed

theorem no_plugin_starves_witness:
  "\<exists>r' \<in> set (dispatch_log [OpTick 20, OpTick 30] demo_state). dr_plugin r' = ''files'' \<and> dr_query r' = ''2+2''"
proof -
  have "tick_request (snd (observe_now demo_state 20)) demo_state ''files''
      = Some \<lparr>dr_plugin = ''files'', dr_generation = 1, dr_query = ''2+2'', dr_dispatched_at = 20\<rparr>"
    and "\<not> qs_shutdown demo_state" and "length (qs_plugin_order demo_state) \<le> length [20 :: millis, 30]"
    unfolding demo_state_def by code_simp+
  from no_plugin_starves [OF demo_reachable demo_capacity this(2,1,3)] show ?thesis by auto
qed

section \<open>Wake-ups\<close>

lemma foldl_min_le: "x \<in> set (y # ys) \<Longrightarrow> foldl min y ys \<le> (x :: 'a::linorder)"
proof (induction ys arbitrary: x y)
  case (Cons z ys)
  have "foldl min (min y z) ys \<le> min y z" by (rule Cons.IH) simp
  with Cons show ?case by auto
qed simp

lemma foldl_min_in: "foldl min y ys \<in> set (y # ys)" for y :: "'a::linorder"
proof (induction ys arbitrary: y)
  case (Cons z ys)
  from Cons.IH [of "min y z"] show ?case by (auto simp: min_def)
qed simp

lemma pending_deadlines_iff:
  "d \<in> set (pending_deadlines s) \<longleftrightarrow>
     (\<exists>p st q. (p, st) \<in> set (qs_plugins s) \<and> ps_enabled st \<and> q \<in> set (ps_queue st)
        \<and> \<not> pr_ready q \<and> pr_due_at q = Some d)"
  by (force simp: pending_deadlines_def List.map_filter_def split: if_splits)

lemma next_wakeup_Some_iff:
  "\<not> qs_shutdown s \<Longrightarrow>
   next_wakeup s = Some d \<longleftrightarrow> d \<in> set (pending_deadlines s) \<and> (\<forall>e \<in> set (pending_deadlines s). d \<le> e)"
proof (cases "pending_deadlines s")
  case (Cons e es)
  assume "\<not> qs_shutdown s"
  moreover have "foldl min e es = d \<longleftrightarrow> d \<in> set (e # es) \<and> (\<forall>x \<in> set (e # es). d \<le> x)"
    using foldl_min_le [of _ e es] foldl_min_in [of e es] by (metis order_antisym)
  ultimately show ?thesis using Cons by (simp add: next_wakeup_def)
qed (simp add: next_wakeup_def)

text \<open>The queue of a plugin, and what a tick does to it: requests mature and leave, none comes.\<close>

definition queued :: "query_scheduler \<Rightarrow> plugin_id \<Rightarrow> pending_request list" where
  "queued s p = (case map_of (qs_plugins s) p of None \<Rightarrow> [] | Some st \<Rightarrow> ps_queue st)"

lemma queued_view: "queued s p = (case view s p of None \<Rightarrow> [] | Some st \<Rightarrow> ps_queue st)"
  by (simp add: queued_def view_def split: option.split)

lemma queued_quiet: "quiet s s' \<Longrightarrow> queued s' p = queued s p"
  by (simp add: queued_view view_quiet)

lemma dispatch_one_queued:
  assumes "dispatch_one now p s = Some (s', r)"
  shows "set (queued s' k) \<subseteq> set (queued s k)"
proof -
  from dispatch_one_Some_iff [OF assms] obtain st pending rest where
    at: "map_of (qs_plugins s) p = Some st" and q: "ps_queue st = pending # rest" by blast
  have eq: "queued s' k = queued (modify_plugin p (dispatched_state now pending rest) s) k"
    by (rule queued_quiet [OF dispatch_one_quiet [OF assms at q]])
  show ?thesis
  proof (cases "k = p")
    case True
    have "queued s' k = rest" unfolding eq unfolding queued_view view_modify
      by (simp add: True at dispatched_state_def strip_def)
    moreover have "queued s k = pending # rest" using True at q by (simp add: queued_def)
    ultimately show ?thesis by auto
  qed (simp only: eq, simp add: queued_view view_modify)
qed

lemma dispatch_plugin_queued: "set (queued (fst (dispatch_plugin n now p (s, out))) k) \<subseteq> set (queued s k)"
proof (induction n arbitrary: s out)
  case (Suc n)
  show ?case
  proof (cases "dispatch_one now p s")
    case (Some sr)
    obtain s' r where sr: "sr = (s', r)" by (cases sr)
    from order_trans [OF Suc.IH dispatch_one_queued [OF Some [unfolded sr]]] show ?thesis by (simp add: Some sr)
  qed simp
qed simp

lemma dispatch_round_queued:
  "set (queued (fst (dispatch_round now plugins is (s, out, served))) k) \<subseteq> set (queued s k)"
proof (induction "is" arbitrary: s out served)
  case (Cons i "is")
  obtain s' out' where d: "dispatch_plugin (per_plugin_dispatch_budget (qs_config s)) now (plugins ! i) (s, out) = (s', out')"
    by fastforce
  have "set (queued s' k) \<subseteq> set (queued s k)" using dispatch_plugin_queued [of _ now _ s out k] d by (metis fst_conv)
  from order_trans [OF Cons.IH this] d show ?case by simp
qed simp

lemma tick_queued:
  assumes inv: "sched_inv s" and run: "\<not> qs_shutdown s" and q: "q \<in> set (queued (fst (tick now s)) k)"
  obtains q0 where "q0 \<in> set (queued s k)" and "q = mature_request (snd (observe_now s now)) q0"
proof -
  define s0 where "s0 = fst (observe_now s now)"
  define t where "t = snd (observe_now s now)"
  have quiet: "queued (record_remaining_queue_peaks v) k = queued v k" for v
    by (rule queued_quiet) (rule quiet_record_remaining)
  have cursor: "queued (v\<lparr>qs_round_robin_cursor := c\<rparr>) k = queued v k" for v c by (simp add: queued_def)
  have "\<not> qs_shutdown s0" using run by (simp add: s0_def)
  then have "set (queued (fst (tick now s)) k) \<subseteq> set (queued (tick_prepare t s0) k)"
    using dispatch_round_queued [of t "qs_plugin_order (tick_prepare t s0)" _ "tick_prepare t s0" "[]" None k]
    by (auto simp: tick_def case_prod_beta Let_def s0_def [symmetric] t_def [symmetric] quiet cursor simp del: observe_now_fields)
  also have "set (queued (tick_prepare t s0) k) \<subseteq> mature_request t ` set (queued s k)"
    unfolding queued_view view_tick_prepare [OF observe_mid [OF inv run], of t now, folded s0_def]
    by (auto simp: s0_def view_def matured_def reclaimed_def strip_def split: option.splits)
  finally show thesis using q that by (auto simp: t_def)
qed

lemma mature_request_cases: "\<not> is_due t (mature_request t q)" "\<not> is_due t q \<Longrightarrow> mature_request t q = q"
  by (auto simp: mature_request_def is_due_def)

lemma queued_due:
  assumes "sched_inv s" and "q \<in> set (queued s p)"
  shows "pr_ready q \<or> (\<exists>e. pr_due_at q = Some e \<and> e \<in> set (pending_deadlines s))"
proof -
  from assms(2) obtain st where st: "(p, st) \<in> set (qs_plugins s)" "q \<in> set (ps_queue st)"
    by (cases "map_of (qs_plugins s) p") (auto simp: queued_def dest: map_of_SomeD)
  then have "plugin_ok (qs_shutdown s) st" using assms(1) by (auto simp: sched_inv_def all_plugins_def list_all_iff)
  with st show ?thesis unfolding pending_deadlines_iff plugin_ok_def list_all_iff
    by (metis empty_iff list.set(1) option.exhaust)
qed

lemma pending_queued:
  assumes "sched_inv s" and "e \<in> set (pending_deadlines s)"
  obtains p q where "q \<in> set (queued s p)" and "\<not> pr_ready q" and "pr_due_at q = Some e"
proof -
  obtain p st q where "(p, st) \<in> set (qs_plugins s)" "q \<in> set (ps_queue st)" "\<not> pr_ready q" "pr_due_at q = Some e"
    using assms(2) by (auto simp: pending_deadlines_iff)
  moreover have "distinct (map fst (qs_plugins s))" using assms(1) by (simp add: sched_inv_def shape_ok_def)
  ultimately have "q \<in> set (queued s p)" by (simp add: queued_def)
  with \<open>\<not> pr_ready q\<close> \<open>pr_due_at q = Some e\<close> show thesis using that by blast
qed

text \<open>Whatever a tick leaves waiting is due after it.\<close>

lemma tick_wakeup_later:
  assumes inv: "sched_inv s" and run: "\<not> qs_shutdown s" and e: "next_wakeup (fst (tick now s)) = Some e"
  shows "snd (observe_now s now) < e"
proof -
  have "\<not> qs_shutdown (fst (tick now s))" using tick_frame [OF inv, of now] run by simp
  with e have "e \<in> set (pending_deadlines (fst (tick now s)))" using next_wakeup_Some_iff by blast
  then obtain p q where q: "q \<in> set (queued (fst (tick now s)) p)" "\<not> pr_ready q" "pr_due_at q = Some e"
    using pending_queued [OF inv_tick [OF inv]] by blast
  have "\<not> is_due (snd (observe_now s now)) q" using tick_queued [OF inv run q(1)] mature_request_cases(1) by metis
  with q show ?thesis by (simp add: is_due_def)
qed

text \<open>A tick at which nothing is due moves no request and dispatches only what was ready.\<close>

lemma calm_tick:
  assumes inv: "sched_inv s" and run: "\<not> qs_shutdown s"
    and calm: "\<And>p q. q \<in> set (queued s p) \<Longrightarrow> \<not> is_due (snd (observe_now s now)) q"
  shows "set (queued (fst (tick now s)) p) \<subseteq> set (queued s p)"
    and "r \<in> set (snd (tick now s)) \<Longrightarrow>
      list_ex (\<lambda>q. pr_ready q \<and> pr_query q = dr_query r \<and> pr_generation q = dr_generation r) (queued s (dr_plugin r))"
proof -
  show "set (queued (fst (tick now s)) p) \<subseteq> set (queued s p)"
    using tick_queued [OF inv run] mature_request_cases(2) calm by (metis subsetI)
  assume "r \<in> set (snd (tick now s))"
  then have "tick_request (snd (observe_now s now)) s (dr_plugin r) = Some r" using tick_member [OF inv, of r now] by simp
  then obtain st q where "map_of (qs_plugins s) (dr_plugin r) = Some st" "q \<in> set (ps_queue st)"
    "pr_ready q \<or> is_due (snd (observe_now s now)) q"
    "pr_generation q = dr_generation r" "dr_query r = pr_query q" by (auto elim!: tick_request_SomeD)
  then show "list_ex (\<lambda>q. pr_ready q \<and> pr_query q = dr_query r \<and> pr_generation q = dr_generation r) (queued s (dr_plugin r))"
    using calm [of q "dr_plugin r"] by (auto simp: queued_def list_ex_iff)
qed

text \<open>
  C18: a host that sleeps until \<open>next_wakeup\<close> misses nothing and does not wake in vain. In
  every reachable state before shutdown, each queued request is ready or has a deadline no
  earlier than the wake-up, and the wake-up is the deadline of some queued request. The
  scheduler takes the later of the time it is given and the last one it has seen. A tick
  that happens before the wake-up in this sense changes no queued request and dispatches
  only requests that were ready already; after any tick, the next wake-up lies in the
  future, so every request whose deadline has come has been made ready.
\<close>

theorem next_wakeup_is_first_deadline:
  assumes "sched_reachable c s" and "request_queue_capacity c \<le> usize_max" and "\<not> qs_shutdown s"
    and "observe_now s now = (s0, t)" and "tick now s = (s', dispatched)"
  shows "(case next_wakeup s of
       None \<Rightarrow> \<forall>p. list_all pr_ready (queued s p)
     | Some d \<Rightarrow>
         (\<forall>p. list_all (\<lambda>q. pr_ready q \<or> (\<exists>e. pr_due_at q = Some e \<and> d \<le> e)) (queued s p))
         \<and> (\<exists>p. list_ex (\<lambda>q. \<not> pr_ready q \<and> pr_due_at q = Some d) (queued s p))
         \<and> (t < d \<longrightarrow> (\<forall>p. set (queued s' p) \<subseteq> set (queued s p))
              \<and> list_all (\<lambda>r. list_ex (\<lambda>q. pr_ready q \<and> pr_query q = dr_query r \<and> pr_generation q = dr_generation r)
                  (queued s (dr_plugin r))) dispatched))
     \<and> (\<forall>e. next_wakeup s' = Some e \<longrightarrow> t < e)"
proof -
  have inv: "sched_inv s" by (rule reachable_inv [OF assms(1,2)])
  have later: "\<forall>e. next_wakeup s' = Some e \<longrightarrow> t < e"
    using tick_wakeup_later [OF inv assms(3), of now] assms(4,5) by simp
  show ?thesis
  proof (cases "next_wakeup s")
    case None
    then have "pending_deadlines s = []" using assms(3) by (auto simp: next_wakeup_def split: list.splits)
    with queued_due [OF inv] None later show ?thesis by (force simp: list_all_iff)
  next
    case (Some d)
    then have d: "d \<in> set (pending_deadlines s)" "\<forall>e \<in> set (pending_deadlines s). d \<le> e"
      using next_wakeup_Some_iff [OF assms(3)] by auto
    have first: "list_all (\<lambda>q. pr_ready q \<or> (\<exists>e. pr_due_at q = Some e \<and> d \<le> e)) (queued s p)" for p
      using queued_due [OF inv] d(2) unfolding list_all_iff by blast
    have some: "\<exists>p. list_ex (\<lambda>q. \<not> pr_ready q \<and> pr_due_at q = Some d) (queued s p)"
      using pending_queued [OF inv d(1)] unfolding list_ex_iff by metis
    have calm: "\<not> is_due (snd (observe_now s now)) q" if "t < d" "q \<in> set (queued s p)" for p q
      using queued_due [OF inv that(2)] d(2) that(1) assms(4) by (force simp: is_due_def)
    show ?thesis
      using Some first some later calm_tick [OF inv assms(3) calm] assms(5) by (simp add: list_all_iff)
  qed
qed

section \<open>Shutdown\<close>

text \<open>
  C19: shutdown is final. Once a reachable scheduler is shut down, no sequence of further
  operations dispatches anything, and in the state they lead to it is still shut down with
  nothing queued and nothing in flight.
\<close>

theorem shutdown_is_final:
  assumes "sched_reachable c s" and "request_queue_capacity c \<le> usize_max" and "qs_shutdown s"
  shows "dispatch_log ops s = []
    \<and> (sched_run ops s = Some s' \<longrightarrow> qs_shutdown s' \<and> total_queued s' = 0
         \<and> sd_in_flight_requests (diagnostics_snapshot s') = 0)"
  using assms(1,3)
proof (induction ops arbitrary: s)
  case Nil
  have "ps_queue st = [] \<and> ps_in_flight st = []" if "(p, st) \<in> set (qs_plugins s)" for p st
    using reachable_inv [OF Nil(1) assms(2)] Nil(2) that
    by (auto simp: sched_inv_def all_plugins_def list_all_iff plugin_ok_def)
  then have "queue_total s = 0" and "(\<Sum>(_, st) \<leftarrow> qs_plugins s. length (ps_in_flight st)) = 0"
    by (auto simp: queue_total_def sum_list_eq_0_iff)
  with Nil show ?case by (auto simp: total_queued_eq diagnostics_snapshot_def)
next
  case (Cons op ops)
  have "dispatched_by op s = []" using Cons.prems by (cases op) (simp_all add: tick_stopped)
  then show ?case
    using Cons.IH [OF sched_step [OF Cons.prems(1)] exec_shutdown [OF reachable_inv [OF Cons.prems(1) assms(2)] Cons.prems(2)]]
    by (auto split: option.splits)
qed

definition stopped_state :: query_scheduler where
  "stopped_state = sched_shutdown 20 demo_state"

theorem shutdown_is_final_witness:
  "qs_shutdown stopped_state \<and> dispatch_log [OpSubmit ''x'' 30, OpTick 40] stopped_state = []"
proof -
  have reach: "sched_reachable demo_config stopped_state"
    unfolding stopped_state_def by (rule sched_step [OF demo_reachable, of "OpShutdown 20"]) simp
  moreover have "qs_shutdown stopped_state" by (simp add: stopped_state_def)
  ultimately show ?thesis using shutdown_is_final [OF reach demo_capacity] by blast
qed

definition deferred_state :: query_scheduler where
  "deferred_state = the (sched_run [OpRegister ''web'' modern, OpSubmit ''ab'' 10, OpTick 10, OpSubmit ''abc'' 20]
     (scheduler_new demo_config))"

theorem next_wakeup_is_first_deadline_witness:
  "\<exists>d. next_wakeup deferred_state = Some d \<and> 25 < d
     \<and> (\<forall>p. set (queued (fst (tick 25 deferred_state)) p) \<subseteq> set (queued deferred_state p))
     \<and> list_ex (\<lambda>q. \<not> pr_ready q \<and> pr_due_at q = Some d) (queued deferred_state ''web'')"
proof -
  let ?run = "sched_run [OpRegister ''web'' modern, OpSubmit ''ab'' 10, OpTick 10, OpSubmit ''abc'' 20] (scheduler_new demo_config)"
  have "\<not> Option.is_none ?run" by code_simp
  then have "?run = Some deferred_state" by (auto simp: deferred_state_def Option.is_none_def)
  then have reach: "sched_reachable demo_config deferred_state" by (rule sched_run_reachable [OF sched_start])
  have run: "\<not> qs_shutdown deferred_state" and t: "snd (observe_now deferred_state 25) = 25"
    and wake: "(case next_wakeup deferred_state of None \<Rightarrow> False | Some d \<Rightarrow> 25 < d
      \<and> list_ex (\<lambda>q. \<not> pr_ready q \<and> pr_due_at q = Some d) (queued deferred_state ''web''))"
    unfolding deferred_state_def by code_simp+
  from next_wakeup_is_first_deadline [OF reach demo_capacity run prod.collapse [symmetric] prod.collapse [symmetric], of 25] t wake
  show ?thesis by (auto split: option.splits)
qed

end
