(* ===== verification/Generation_Gate.thy ===== *)
theory Generation_Gate
  imports Generations
begin

text \<open>
  Two components hold the generation gate of the result path: the aggregator and the intake
  queue in front of it both keep one active generation and an exclusive retirement floor,
  and move them with \<open>begin_generation\<close> and \<open>retire_before\<close>. This theory states what
  the two promise, as an abstract gate and a locale that says a component refines it; the
  properties of the gate are proved once, in the locale.
\<close>

type_synonym gate = "generation option \<times> generation"

definition gate_begin :: "generation \<Rightarrow> gate \<Rightarrow> gate" where
  "gate_begin g gt =
     (case gt of (active, floor) \<Rightarrow>
       if g < floor \<or> (case active of None \<Rightarrow> False | Some a \<Rightarrow> g \<le> a) then gt else (Some g, floor))"

definition gate_retire :: "generation \<Rightarrow> gate \<Rightarrow> gate" where
  "gate_retire g gt =
     (case gt of (active, floor) \<Rightarrow>
       if g \<le> floor then gt
       else (case active of None \<Rightarrow> None | Some a \<Rightarrow> if g \<le> a then Some a else None, g))"

datatype gate_op = GateBegin generation | GateRetire generation

definition gate_ok :: "gate \<Rightarrow> bool" where
  "gate_ok gt \<longleftrightarrow> (case fst gt of None \<Rightarrow> True | Some a \<Rightarrow> snd gt \<le> a)"

locale generation_gate =
  fixes gate_of :: "'s \<Rightarrow> gate"
    and begin_gen :: "generation \<Rightarrow> 's \<Rightarrow> 's"
    and retire_gen :: "generation \<Rightarrow> 's \<Rightarrow> 's"
  assumes begin_refines: "gate_of (begin_gen g s) = gate_begin g (gate_of s)"
    and retire_refines: "gate_of (retire_gen g s) = gate_retire g (gate_of s)"
begin

fun gate_run :: "gate_op list \<Rightarrow> 's \<Rightarrow> 's" where
  "gate_run [] s = s"
| "gate_run (GateBegin g # ops) s = gate_run ops (begin_gen g s)"
| "gate_run (GateRetire g # ops) s = gate_run ops (retire_gen g s)"

lemma gate_ok_begin: "gate_ok (gate_of s) \<Longrightarrow> gate_ok (gate_of (begin_gen g s))"
  by (auto simp: begin_refines gate_begin_def gate_ok_def split: prod.splits option.splits if_splits)

lemma gate_ok_retire: "gate_ok (gate_of s) \<Longrightarrow> gate_ok (gate_of (retire_gen g s))"
  by (auto simp: retire_refines gate_retire_def gate_ok_def split: prod.splits option.splits if_splits)

lemma gate_ok_run: "gate_ok (gate_of s) \<Longrightarrow> gate_ok (gate_of (gate_run ops s))"
  by (induction ops s rule: gate_run.induct) (auto simp: gate_ok_begin gate_ok_retire)

lemma floor_begin: "snd (gate_of (begin_gen g s)) = snd (gate_of s)"
  by (simp add: begin_refines gate_begin_def split: prod.splits option.splits)

lemma floor_retire: "snd (gate_of (retire_gen g s)) = max (snd (gate_of s)) g"
  by (auto simp: retire_refines gate_retire_def max_def split: prod.splits option.splits)

lemma floor_run: "snd (gate_of s) \<le> snd (gate_of (gate_run ops s))"
  by (induction ops s rule: gate_run.induct) (auto simp: floor_begin floor_retire)

text \<open>A retired generation never becomes active again.\<close>

lemma retired_stays_retired:
  assumes "gate_ok (gate_of s)" and "g < snd (gate_of s)"
  shows "fst (gate_of (gate_run ops s)) \<noteq> Some g"
proof
  assume active: "fst (gate_of (gate_run ops s)) = Some g"
  have "snd (gate_of (gate_run ops s)) \<le> g"
    using gate_ok_run [OF assms(1), of ops] active by (simp add: gate_ok_def)
  with floor_run [of s ops] assms(2) show False by simp
qed

lemma gate_run_refines:
  "gate_of (gate_run ops s) =
     fold (\<lambda>op. case op of GateBegin g \<Rightarrow> gate_begin g | GateRetire g \<Rightarrow> gate_retire g) ops (gate_of s)"
  by (induction ops s rule: gate_run.induct) (auto simp: begin_refines retire_refines)

end

end
