(* ===== verification/Aggregator.thy ===== *)
theory Aggregator
  imports Items Generation_Gate
begin

text \<open>
  Result aggregation: \<open>crates/crikey-result-aggregator/src/lib.rs\<close>. The
  \<open>MemoryResultAggregator\<close> keeps the retained items in first-acceptance order, with a
  hash index per plugin for duplicate lookup and a counter per plugin for the quota. The
  index and the counters are shown to be redundant: \<open>accept\<close> does what a reference
  definition over the item list alone does.
\<close>

section \<open>Batches, limits, the aggregator\<close>

datatype batch_state = BatchPartial | BatchFinal | BatchCancelled | BatchFailed

definition is_terminal :: "batch_state \<Rightarrow> bool" where
  "is_terminal st \<longleftrightarrow> st \<noteq> BatchPartial"

record result_batch =
  rb_generation :: generation
  rb_plugin :: plugin_id
  rb_state :: batch_state
  rb_items :: "item list"

datatype reject_reason =
    RejStaleGeneration | RejQuotaExceeded | RejPayloadTooLarge | RejOwnerMismatch
  | RejStreamTerminated | RejPluginSuspended

record result_limits =
  max_items_per_batch :: nat
  max_items_per_plugin_per_query :: nat
  max_items_per_query :: nat
  max_icon_reference_bytes_per_batch :: nat
  max_metadata_bytes_per_batch :: nat
  max_ui_updates_per_frame :: nat

definition default_result_limits :: result_limits where
  "default_result_limits =
     \<lparr>max_items_per_batch = 50, max_items_per_plugin_per_query = 250, max_items_per_query = 2000,
      max_icon_reference_bytes_per_batch = 256 * 1024, max_metadata_bytes_per_batch = 1024 * 1024,
      max_ui_updates_per_frame = 1\<rparr>"

record plugin_result_limits =
  pl_max_items_per_batch :: nat
  pl_max_items_per_query :: nat

record memory_result_aggregator =
  ag_limits :: result_limits
  ag_retirement_floor :: generation
  ag_active :: "generation option"
  ag_per_plugin :: "(plugin_id \<times> nat) list"
  ag_index :: "(plugin_id \<times> (item_id \<times> nat) list) list"
  ag_plugin_limits :: "(plugin_id \<times> plugin_result_limits) list"
  ag_items :: "item list"
  ag_batch_states :: "(plugin_id \<times> batch_state) list"
  ag_pending_ui_update :: bool
  ag_ui_updates_remaining :: nat

definition ag_new :: "result_limits \<Rightarrow> memory_result_aggregator" where
  "ag_new limits =
     \<lparr>ag_limits = limits, ag_retirement_floor = generation_zero, ag_active = None,
      ag_per_plugin = [], ag_index = [], ag_plugin_limits = [], ag_items = [], ag_batch_states = [],
      ag_pending_ui_update = False, ag_ui_updates_remaining = max_ui_updates_per_frame limits\<rparr>"

definition set_plugin_limits ::
  "plugin_id \<Rightarrow> nat \<Rightarrow> nat \<Rightarrow> memory_result_aggregator \<Rightarrow> memory_result_aggregator" where
  "set_plugin_limits plugin per_query per_batch s =
     s\<lparr>ag_plugin_limits := AList.update plugin
         \<lparr>pl_max_items_per_batch = max per_batch 1, pl_max_items_per_query = max per_query 1\<rparr>
         (ag_plugin_limits s)\<rparr>"

definition remove_plugin_limits ::
  "plugin_id \<Rightarrow> memory_result_aggregator \<Rightarrow> memory_result_aggregator" where
  "remove_plugin_limits plugin s = s\<lparr>ag_plugin_limits := AList.delete plugin (ag_plugin_limits s)\<rparr>"

definition ag_reset :: "memory_result_aggregator \<Rightarrow> memory_result_aggregator" where
  "ag_reset s = s\<lparr>ag_items := [], ag_index := [], ag_per_plugin := [], ag_batch_states := []\<rparr>"

definition ag_begin_generation :: "generation \<Rightarrow> memory_result_aggregator \<Rightarrow> memory_result_aggregator" where
  "ag_begin_generation g s =
     (if g < ag_retirement_floor s then s
      else if (case ag_active s of None \<Rightarrow> False | Some active \<Rightarrow> g \<le> active) then s
      else (ag_reset (s\<lparr>ag_active := Some g\<rparr>))\<lparr>ag_pending_ui_update := True\<rparr>)"

definition ag_plugin_state :: "memory_result_aggregator \<Rightarrow> plugin_id \<Rightarrow> batch_state option" where
  "ag_plugin_state s plugin = map_of (ag_batch_states s) plugin"

definition begin_frame :: "memory_result_aggregator \<Rightarrow> memory_result_aggregator" where
  "begin_frame s = s\<lparr>ag_ui_updates_remaining := max_ui_updates_per_frame (ag_limits s)\<rparr>"

definition take_ui_update ::
  "memory_result_aggregator \<Rightarrow> memory_result_aggregator \<times> item list option" where
  "take_ui_update s =
     (if \<not> ag_pending_ui_update s \<or> ag_ui_updates_remaining s = 0 then (s, None)
      else (s\<lparr>ag_ui_updates_remaining := ag_ui_updates_remaining s - 1, ag_pending_ui_update := False\<rparr>,
            Some (ag_items s)))"

definition ag_retire_before :: "generation \<Rightarrow> memory_result_aggregator \<Rightarrow> memory_result_aggregator" where
  "ag_retire_before g s =
     (if g \<le> ag_retirement_floor s then s
      else
        let s = s\<lparr>ag_retirement_floor := g\<rparr> in
        case ag_active s of
          None \<Rightarrow> s
        | Some active \<Rightarrow>
            (if ag_retirement_floor s \<le> active then s
             else
               let had_items = (ag_items s \<noteq> []) in
               (ag_reset (s\<lparr>ag_active := None\<rparr>))
                 \<lparr>ag_pending_ui_update := ag_pending_ui_update s \<or> had_items\<rparr>))"

section \<open>Accepting a batch\<close>

text \<open>
  The byte totals of \<open>validate_payloads\<close>: \<open>None\<close> when a checked addition overflows or
  the running total passes the limit.
\<close>

definition icon_bytes :: "item \<Rightarrow> nat" where
  "icon_bytes i = (case it_icon_reference i of None \<Rightarrow> 0 | Some icon \<Rightarrow> utf8_len icon)"

fun add_metadata :: "nat \<Rightarrow> nat \<Rightarrow> (string \<times> string) list \<Rightarrow> nat option" where
  "add_metadata limit bytes [] = Some bytes"
| "add_metadata limit bytes ((key, val) # rest) =
     (case usize_checked_add bytes (utf8_len key) of
        None \<Rightarrow> None
      | Some t \<Rightarrow>
          (case usize_checked_add t (utf8_len val) of
             None \<Rightarrow> None
           | Some t' \<Rightarrow> if limit < t' then None else add_metadata limit t' rest))"

fun payload_totals :: "result_limits \<Rightarrow> nat \<Rightarrow> nat \<Rightarrow> item list \<Rightarrow> (nat \<times> nat) option" where
  "payload_totals limits icons metadata [] = Some (icons, metadata)"
| "payload_totals limits icons metadata (i # rest) =
     (case usize_checked_add icons (icon_bytes i) of
        None \<Rightarrow> None
      | Some icons' \<Rightarrow>
          (if max_icon_reference_bytes_per_batch limits < icons' then None
           else case add_metadata (max_metadata_bytes_per_batch limits) metadata (it_metadata i) of
                  None \<Rightarrow> None
                | Some metadata' \<Rightarrow> payload_totals limits icons' metadata' rest))"

definition validate_payloads :: "result_limits \<Rightarrow> plugin_id \<Rightarrow> item list \<Rightarrow> reject_reason option" where
  "validate_payloads limits plugin items =
     (if list_ex (\<lambda>i. it_plugin_id i \<noteq> plugin) items then Some RejOwnerMismatch
      else case payload_totals limits 0 0 items of
             None \<Rightarrow> Some RejPayloadTooLarge
           | Some _ \<Rightarrow> None)"

fun count_new :: "(item_id \<Rightarrow> bool) \<Rightarrow> item_id list \<Rightarrow> item list \<Rightarrow> nat" where
  "count_new retained seen [] = 0"
| "count_new retained seen (i # rest) =
     (if it_stable_id i \<in> set seen then count_new retained seen rest
      else (if retained (it_stable_id i) then 0 else 1)
           + count_new retained (it_stable_id i # seen) rest)"

definition count_new_identities :: "memory_result_aggregator \<Rightarrow> plugin_id \<Rightarrow> item list \<Rightarrow> nat" where
  "count_new_identities s plugin items =
     count_new (\<lambda>id. case map_of (ag_index s) plugin of
                       None \<Rightarrow> False
                     | Some index \<Rightarrow> map_of index id \<noteq> None) [] items"

definition merge_item :: "item \<Rightarrow> (item_id \<times> nat) list \<times> item list \<Rightarrow> (item_id \<times> nat) list \<times> item list" where
  "merge_item i st =
     (case st of (index, items) \<Rightarrow>
       (case map_of index (it_stable_id i) of
          Some slot \<Rightarrow> (index, if slot < length items then items[slot := i] else items)
        | None \<Rightarrow> (AList.update (it_stable_id i) (length items) index, items @ [i])))"

definition ag_merge :: "plugin_id \<Rightarrow> item list \<Rightarrow> memory_result_aggregator \<Rightarrow> memory_result_aggregator" where
  "ag_merge plugin batch s =
     (let index = (case map_of (ag_index s) plugin of None \<Rightarrow> [] | Some index \<Rightarrow> index);
          (index, items) = fold merge_item batch (index, ag_items s)
      in s\<lparr>ag_index := AList.update plugin index (ag_index s), ag_items := items\<rparr>)"

definition ag_accept ::
  "memory_result_aggregator \<Rightarrow> result_batch \<Rightarrow> memory_result_aggregator \<times> (reject_reason + unit)" where
  "ag_accept s batch =
     (let plugin = rb_plugin batch; items = rb_items batch in
      if ag_active s \<noteq> Some (rb_generation batch) then (s, Inl RejStaleGeneration)
      else if (case map_of (ag_batch_states s) plugin of None \<Rightarrow> False | Some st \<Rightarrow> is_terminal st)
      then (s, Inl RejStreamTerminated)
      else
        let plugin_limits = map_of (ag_plugin_limits s) plugin;
            per_batch = (case plugin_limits of
                           None \<Rightarrow> max_items_per_batch (ag_limits s)
                         | Some l \<Rightarrow> pl_max_items_per_batch l)
        in if per_batch < length items then (s, Inl RejQuotaExceeded)
           else case validate_payloads (ag_limits s) plugin items of
             Some reason \<Rightarrow> (s, Inl reason)
           | None \<Rightarrow>
              (let new_identities = count_new_identities s plugin items;
                   retained = (case map_of (ag_per_plugin s) plugin of None \<Rightarrow> 0 | Some n \<Rightarrow> n)
               in case usize_checked_add retained new_identities of
                    None \<Rightarrow> (s, Inl RejQuotaExceeded)
                  | Some plugin_total \<Rightarrow>
                     (case usize_checked_add (length (ag_items s)) new_identities of
                        None \<Rightarrow> (s, Inl RejQuotaExceeded)
                      | Some query_total \<Rightarrow>
                          (let per_query = (case plugin_limits of
                                 None \<Rightarrow> max_items_per_plugin_per_query (ag_limits s)
                               | Some l \<Rightarrow> pl_max_items_per_query l)
                           in if per_query < plugin_total \<or> max_items_per_query (ag_limits s) < query_total
                              then (s, Inl RejQuotaExceeded)
                              else
                                let s = (if items = [] then s
                                         else
                                           let s = ag_merge plugin items s;
                                               s = (if 0 < new_identities
                                                    then s\<lparr>ag_per_plugin := AList.update plugin plugin_total (ag_per_plugin s)\<rparr>
                                                    else s)
                                           in s\<lparr>ag_pending_ui_update := True\<rparr>)
                                in (s\<lparr>ag_batch_states := AList.update plugin (rb_state batch) (ag_batch_states s)\<rparr>,
                                    Inr ())))))"

section \<open>The reference: append or replace by key\<close>

definition item_key :: "item \<Rightarrow> plugin_id \<times> item_id" where
  "item_key i = (it_plugin_id i, it_stable_id i)"

fun upsert :: "item \<Rightarrow> item list \<Rightarrow> item list" where
  "upsert i [] = [i]"
| "upsert i (x # xs) = (if item_key x = item_key i then i # xs else x # upsert i xs)"

definition retained_by :: "plugin_id \<Rightarrow> item list \<Rightarrow> nat" where
  "retained_by plugin items = length (filter (\<lambda>i. it_plugin_id i = plugin) items)"

text \<open>The keys of a batch that are not yet retained.\<close>

definition new_keys :: "item list \<Rightarrow> item list \<Rightarrow> (plugin_id \<times> item_id) set" where
  "new_keys items batch = item_key ` set batch - item_key ` set items"

lemma upsert_new: "item_key i \<notin> item_key ` set xs \<Longrightarrow> upsert i xs = xs @ [i]"
  by (induction xs) auto

lemma upsert_at:
  "slot < length xs \<Longrightarrow> item_key (xs ! slot) = item_key i \<Longrightarrow>
   (\<And>j. j < slot \<Longrightarrow> item_key (xs ! j) \<noteq> item_key i) \<Longrightarrow> upsert i xs = xs[slot := i]"
proof (induction xs arbitrary: slot)
  case (Cons x xs)
  show ?case
  proof (cases slot)
    case (Suc k)
    have "item_key x \<noteq> item_key i" using Cons.prems(3) [of 0] Suc by simp
    moreover have "upsert i xs = xs[k := i]"
    proof (rule Cons.IH)
      show "item_key (xs ! j) \<noteq> item_key i" if "j < k" for j using Cons.prems(3) [of "Suc j"] Suc that by simp
    qed (use Cons.prems Suc in simp_all)
    ultimately show ?thesis by (simp add: Suc)
  qed (use Cons.prems in simp)
qed simp

lemma keys_upsert:
  "map item_key (upsert i xs) =
     (if item_key i \<in> item_key ` set xs then map item_key xs else map item_key xs @ [item_key i])"
  by (induction xs) auto

lemma keys_upserts_prefix: "\<exists>zs. map item_key (fold upsert batch xs) = map item_key xs @ zs"
proof (induction batch arbitrary: xs)
  case (Cons i batch)
  obtain zs where "map item_key (fold upsert batch (upsert i xs)) = map item_key (upsert i xs) @ zs"
    using Cons.IH by blast
  then show ?case by (simp add: keys_upsert)
qed simp

lemma distinct_upserts: "distinct (map item_key xs) \<Longrightarrow> distinct (map item_key (fold upsert batch xs))"
proof (induction batch arbitrary: xs)
  case (Cons i batch)
  then have "distinct (map item_key (upsert i xs))" by (simp add: keys_upsert)
  from Cons.IH [OF this] show ?case by simp
qed simp

lemma keyset_upsert: "item_key ` set (upsert i xs) = insert (item_key i) (item_key ` set xs)"
  by (induction xs) auto

lemma new_keys_Cons: "new_keys xs (i # batch) =
  (if item_key i \<in> item_key ` set xs then {} else {item_key i}) \<union> new_keys (upsert i xs) batch"
proof -
  have split: "insert k B - K = (if k \<in> K then {} else {k}) \<union> (B - insert k K)" for k :: "'a" and B K by auto
  show ?thesis by (simp only: new_keys_def list.set image_insert keyset_upsert split)
qed

lemma finite_new_keys [simp]: "finite (new_keys xs batch)"
  by (simp add: new_keys_def)

lemma length_upserts: "length (fold upsert batch xs) = length xs + card (new_keys xs batch)"
proof (induction batch arbitrary: xs)
  case (Cons i batch)
  have "length (upsert i xs) = length xs + (if item_key i \<in> item_key ` set xs then 0 else 1)"
    by (induction xs) auto
  moreover have "item_key i \<notin> new_keys (upsert i xs) batch" by (simp add: new_keys_def keyset_upsert)
  ultimately show ?case using Cons.IH [of "upsert i xs"] by (simp add: new_keys_Cons)
qed (simp add: new_keys_def)

lemma plugin_of_key: "it_plugin_id i = fst (item_key i)"
  by (simp add: item_key_def)

lemma retained_by_keys: "retained_by p xs = length (filter (\<lambda>k. fst k = p) (map item_key xs))"
  by (simp add: retained_by_def plugin_of_key filter_map comp_def)

lemma retained_by_upserts:
  assumes "list_all (\<lambda>i. it_plugin_id i = p) batch"
  shows "retained_by q (fold upsert batch xs) = retained_by q xs + (if q = p then card (new_keys xs batch) else 0)"
  using assms
proof (induction batch arbitrary: xs)
  case (Cons i batch)
  have "retained_by q (upsert i xs) = retained_by q xs
      + (if q = p \<and> item_key i \<notin> item_key ` set xs then 1 else 0)"
    using Cons.prems by (auto simp: retained_by_keys keys_upsert plugin_of_key)
  moreover have "item_key i \<notin> new_keys (upsert i xs) batch" by (simp add: new_keys_def keyset_upsert)
  ultimately show ?case using Cons.IH [of "upsert i xs"] Cons.prems by (simp add: new_keys_Cons)
qed (simp add: new_keys_def)

section \<open>The index is redundant\<close>

text \<open>\<open>index_ok p index xs\<close>: the index of plugin \<open>p\<close> finds exactly its items in \<open>xs\<close>.\<close>

definition index_ok :: "plugin_id \<Rightarrow> (item_id \<times> nat) list \<Rightarrow> item list \<Rightarrow> bool" where
  "index_ok p index xs \<longleftrightarrow>
     (\<forall>iid slot. map_of index iid = Some slot \<longleftrightarrow> slot < length xs \<and> item_key (xs ! slot) = (p, iid))"

definition index_of :: "memory_result_aggregator \<Rightarrow> plugin_id \<Rightarrow> (item_id \<times> nat) list" where
  "index_of s p = (case map_of (ag_index s) p of None \<Rightarrow> [] | Some index \<Rightarrow> index)"

lemma index_ok_None: "index_ok p index xs \<Longrightarrow> map_of index iid = None \<longleftrightarrow> (p, iid) \<notin> item_key ` set xs"
  unfolding index_ok_def by (metis (no_types, lifting) image_iff in_set_conv_nth option.exhaust option.simps(3))

lemma merge_item_upsert:
  assumes ok: "index_ok p index xs" and p: "it_plugin_id i = p"
  shows "snd (merge_item i (index, xs)) = upsert i xs"
    and "index_ok p (fst (merge_item i (index, xs))) (upsert i xs)"
    and "q \<noteq> p \<Longrightarrow> index_ok q other xs \<Longrightarrow> index_ok q other (upsert i xs)"
proof -
  have key: "item_key i = (p, it_stable_id i)" by (simp add: item_key_def p)
  have both: "snd (merge_item i (index, xs)) = upsert i xs
      \<and> index_ok p (fst (merge_item i (index, xs))) (upsert i xs)
      \<and> (\<forall>q other. q \<noteq> p \<longrightarrow> index_ok q other xs \<longrightarrow> index_ok q other (upsert i xs))"
  proof (cases "map_of index (it_stable_id i)")
    case None
    then have "item_key i \<notin> item_key ` set xs" by (simp add: key index_ok_None [OF ok])
    then have up: "upsert i xs = xs @ [i]" by (rule upsert_new)
    have "index_ok p (AList.update (it_stable_id i) (length xs) index) (xs @ [i])"
      using ok None by (auto simp: index_ok_def lookup_simps nth_append key less_Suc_eq) (metis option.simps(3))
    moreover have "\<forall>q other. q \<noteq> p \<longrightarrow> index_ok q other xs \<longrightarrow> index_ok q other (xs @ [i])"
      by (auto simp: index_ok_def nth_append key less_Suc_eq)
    ultimately show ?thesis by (simp add: merge_item_def None up)
  next
    case (Some slot)
    then have slot: "slot < length xs" "item_key (xs ! slot) = item_key i"
      using ok by (auto simp: index_ok_def key)
    have "item_key (xs ! j) \<noteq> item_key i" if "j < slot" for j
    proof
      assume "item_key (xs ! j) = item_key i"
      then have "map_of index (it_stable_id i) = Some j" using ok that slot(1) by (simp add: index_ok_def key)
      with Some that show False by simp
    qed
    with slot have up: "upsert i xs = xs[slot := i]" by (intro upsert_at)
    have same: "item_key (xs[slot := i] ! j) = item_key (xs ! j)" if "j < length xs" for j
      using slot(2) that by (cases "j = slot") simp_all
    have "index_ok q other (xs[slot := i])" if "index_ok q other xs" for q other
      using that same by (auto simp: index_ok_def)
    with ok slot show ?thesis by (simp add: merge_item_def Some up)
  qed
  from both show "snd (merge_item i (index, xs)) = upsert i xs"
    and "index_ok p (fst (merge_item i (index, xs))) (upsert i xs)"
    and "q \<noteq> p \<Longrightarrow> index_ok q other xs \<Longrightarrow> index_ok q other (upsert i xs)" by blast+
qed

lemma merge_items_upsert:
  assumes "index_ok p index xs" and "list_all (\<lambda>i. it_plugin_id i = p) batch"
  shows "snd (fold merge_item batch (index, xs)) = fold upsert batch xs
    \<and> index_ok p (fst (fold merge_item batch (index, xs))) (fold upsert batch xs)
    \<and> (\<forall>q other. q \<noteq> p \<longrightarrow> index_ok q other xs \<longrightarrow> index_ok q other (fold upsert batch xs))"
  using assms
proof (induction batch arbitrary: index xs)
  case (Cons i batch)
  have p: "it_plugin_id i = p" using Cons.prems by simp
  note one = merge_item_upsert [OF Cons.prems(1) p]
  have "fold merge_item (i # batch) (index, xs) = fold merge_item batch (fst (merge_item i (index, xs)), upsert i xs)"
    using one(1) by (metis fold_simps(2) prod.collapse)
  with Cons.IH [OF one(2)] Cons.prems(2) one(3) show ?case by auto
qed simp

lemma count_new_card:
  "count_new retained seen batch =
     card ({iid \<in> it_stable_id ` set batch. \<not> retained iid} - set seen)"
proof (induction batch arbitrary: seen)
  case (Cons i batch)
  let ?N = "{iid \<in> it_stable_id ` set batch. \<not> retained iid}"
  show ?case
  proof (cases "it_stable_id i \<in> set seen")
    case True
    then have "{iid \<in> it_stable_id ` set (i # batch). \<not> retained iid} - set seen = ?N - set seen" by auto
    with Cons.IH True show ?thesis by simp
  next
    case False
    have "{iid \<in> it_stable_id ` set (i # batch). \<not> retained iid} - set seen =
        (if retained (it_stable_id i) then {} else {it_stable_id i}) \<union> (?N - set (it_stable_id i # seen))"
      using False by auto
    with Cons.IH [of "it_stable_id i # seen"] False show ?thesis by simp
  qed
qed simp

lemma count_new_identities_card:
  assumes ok: "index_ok p (index_of s p) (ag_items s)" and own: "list_all (\<lambda>i. it_plugin_id i = p) batch"
  shows "count_new_identities s p batch = card (new_keys (ag_items s) batch)"
proof -
  have ret: "(case map_of (ag_index s) p of None \<Rightarrow> False | Some index \<Rightarrow> map_of index iid \<noteq> None)
      \<longleftrightarrow> (p, iid) \<in> item_key ` set (ag_items s)" for iid
    using index_ok_None [OF ok, of iid] by (auto simp: index_of_def split: option.splits)
  have "new_keys (ag_items s) batch = Pair p ` {iid \<in> it_stable_id ` set batch. (p, iid) \<notin> item_key ` set (ag_items s)}"
    using own by (auto simp: new_keys_def item_key_def list_all_iff image_iff)
  then have "card (new_keys (ag_items s) batch)
      = card {iid \<in> it_stable_id ` set batch. (p, iid) \<notin> item_key ` set (ag_items s)}"
    by (simp add: card_image inj_on_def)
  then show ?thesis unfolding count_new_identities_def ret count_new_card by simp
qed

section \<open>The invariant\<close>

definition ag_gate :: "memory_result_aggregator \<Rightarrow> gate" where
  "ag_gate s = (ag_active s, ag_retirement_floor s)"

interpretation ag_gates: generation_gate ag_gate ag_begin_generation ag_retire_before
  by unfold_locales
    (auto simp: ag_gate_def ag_begin_generation_def ag_retire_before_def ag_reset_def gate_begin_def
      gate_retire_def Let_def split: option.splits)

definition quota_of :: "memory_result_aggregator \<Rightarrow> plugin_id \<Rightarrow> nat" where
  "quota_of s p = (case map_of (ag_per_plugin s) p of None \<Rightarrow> 0 | Some n \<Rightarrow> n)"

definition ag_inv :: "memory_result_aggregator \<Rightarrow> bool" where
  "ag_inv s \<longleftrightarrow>
     (\<forall>p. index_ok p (index_of s p) (ag_items s)) \<and> (\<forall>p. quota_of s p = retained_by p (ag_items s))
     \<and> distinct (map item_key (ag_items s)) \<and> length (ag_items s) \<le> max_items_per_query (ag_limits s)
     \<and> gate_ok (ag_gate s) \<and> (ag_active s = None \<longrightarrow> ag_items s = [] \<and> ag_batch_states s = [])"

lemma ag_inv_empty:
  "ag_items s = [] \<Longrightarrow> ag_index s = [] \<Longrightarrow> ag_per_plugin s = [] \<Longrightarrow> ag_batch_states s = [] \<Longrightarrow>
   gate_ok (ag_gate s) \<Longrightarrow> ag_inv s"
  by (simp add: ag_inv_def index_ok_def index_of_def quota_of_def retained_by_def)

lemma ag_inv_new: "ag_inv (ag_new limits)"
  by (rule ag_inv_empty) (simp_all add: ag_new_def gate_ok_def ag_gate_def)

lemma ag_inv_begin:
  assumes "ag_inv s"
  shows "ag_inv (ag_begin_generation g s)"
proof (cases "ag_begin_generation g s = s")
  case False
  have "gate_ok (ag_gate (ag_begin_generation g s))" using assms by (simp add: ag_inv_def ag_gates.gate_ok_begin)
  with False show ?thesis
    by (intro ag_inv_empty) (auto simp: ag_begin_generation_def ag_reset_def split: if_splits option.splits)
qed (use assms in simp)

lemma ag_inv_retire:
  assumes "ag_inv s"
  shows "ag_inv (ag_retire_before g s)"
proof (cases "ag_active (ag_retire_before g s) = ag_active s")
  case True
  have "ag_items (ag_retire_before g s) = ag_items s \<and> ag_index (ag_retire_before g s) = ag_index s
      \<and> ag_per_plugin (ag_retire_before g s) = ag_per_plugin s \<and> ag_limits (ag_retire_before g s) = ag_limits s
      \<and> ag_batch_states (ag_retire_before g s) = ag_batch_states s"
    using True by (auto simp: ag_retire_before_def Let_def ag_reset_def split: option.splits if_splits)
  moreover have "gate_ok (ag_gate (ag_retire_before g s))" using assms by (simp add: ag_inv_def ag_gates.gate_ok_retire)
  ultimately show ?thesis using assms True by (simp add: ag_inv_def index_of_def quota_of_def)
next
  case False
  have "gate_ok (ag_gate (ag_retire_before g s))" using assms by (simp add: ag_inv_def ag_gates.gate_ok_retire)
  with False show ?thesis
    by (intro ag_inv_empty) (auto simp: ag_retire_before_def Let_def ag_reset_def split: if_splits option.splits)
qed

lemma ag_inv_simple:
  assumes "ag_inv s"
  shows "ag_inv (set_plugin_limits p a b s)" and "ag_inv (remove_plugin_limits p s)"
    and "ag_inv (begin_frame s)" and "ag_inv (fst (take_ui_update s))"
  using assms
  by (auto simp: ag_inv_def index_of_def quota_of_def ag_gate_def set_plugin_limits_def remove_plugin_limits_def
      begin_frame_def take_ui_update_def)

section \<open>Accept against the reference\<close>

text \<open>
  The decision on a batch, from the item list alone: no index, no counters and no running
  byte totals.
\<close>

definition payload_ok :: "result_limits \<Rightarrow> item list \<Rightarrow> bool" where
  "payload_ok limits batch \<longleftrightarrow>
     (\<Sum>i \<leftarrow> batch. icon_bytes i) \<le> max_icon_reference_bytes_per_batch limits
     \<and> (\<Sum>i \<leftarrow> batch. \<Sum>(k, v) \<leftarrow> it_metadata i. utf8_len k + utf8_len v) \<le> max_metadata_bytes_per_batch limits"

definition reference_decision :: "memory_result_aggregator \<Rightarrow> result_batch \<Rightarrow> reject_reason option" where
  "reference_decision s b =
     (let p = rb_plugin b; batch = rb_items b; limits = ag_limits s;
          (per_batch, per_query) =
            (case map_of (ag_plugin_limits s) p of
               None \<Rightarrow> (max_items_per_batch limits, max_items_per_plugin_per_query limits)
             | Some l \<Rightarrow> (pl_max_items_per_batch l, pl_max_items_per_query l));
          fresh = card (new_keys (ag_items s) batch)
      in if ag_active s \<noteq> Some (rb_generation b) then Some RejStaleGeneration
         else if (case ag_plugin_state s p of None \<Rightarrow> False | Some st \<Rightarrow> is_terminal st) then Some RejStreamTerminated
         else if per_batch < length batch then Some RejQuotaExceeded
         else if list_ex (\<lambda>i. it_plugin_id i \<noteq> p) batch then Some RejOwnerMismatch
         else if \<not> payload_ok limits batch then Some RejPayloadTooLarge
         else if per_query < retained_by p (ag_items s) + fresh
              \<or> max_items_per_query limits < length (ag_items s) + fresh then Some RejQuotaExceeded
         else None)"

definition limits_ok :: "result_limits \<Rightarrow> bool" where
  "limits_ok l \<longleftrightarrow>
     max_icon_reference_bytes_per_batch l \<le> usize_max \<and> max_metadata_bytes_per_batch l \<le> usize_max
     \<and> max_items_per_query l \<le> usize_max"

lemma add_metadata_iff:
  "limit \<le> usize_max \<Longrightarrow> bytes \<le> limit \<Longrightarrow>
   add_metadata limit bytes md =
     (let t = bytes + (\<Sum>(k, v) \<leftarrow> md. utf8_len k + utf8_len v) in if t \<le> limit then Some t else None)"
proof (induction md arbitrary: bytes)
  case (Cons kv md)
  obtain k v where kv: "kv = (k, v)" by (cases kv)
  let ?t = "bytes + utf8_len k + utf8_len v"
  show ?case
  proof (cases "?t \<le> limit")
    case True
    then have "bytes + utf8_len k \<le> usize_max" and "?t \<le> usize_max" using Cons.prems by simp_all
    with Cons.IH [OF Cons.prems(1) True] True show ?thesis
      by (simp add: kv Let_def add.assoc usize_checked_add_def)
  next
    case False
    then show ?thesis by (simp add: kv Let_def usize_checked_add_def)
  qed
qed (simp add: Let_def)

lemma payload_totals_iff:
  assumes "limits_ok l"
  shows "icons \<le> max_icon_reference_bytes_per_batch l \<Longrightarrow> md \<le> max_metadata_bytes_per_batch l \<Longrightarrow>
    (payload_totals l icons md batch \<noteq> None) \<longleftrightarrow>
      icons + (\<Sum>i \<leftarrow> batch. icon_bytes i) \<le> max_icon_reference_bytes_per_batch l
      \<and> md + (\<Sum>i \<leftarrow> batch. \<Sum>(k, v) \<leftarrow> it_metadata i. utf8_len k + utf8_len v) \<le> max_metadata_bytes_per_batch l"
proof (induction batch arbitrary: icons md)
  case (Cons i batch)
  let ?m = "\<Sum>(k, v) \<leftarrow> it_metadata i. utf8_len k + utf8_len v"
  have m: "add_metadata (max_metadata_bytes_per_batch l) md (it_metadata i) =
      (if md + ?m \<le> max_metadata_bytes_per_batch l then Some (md + ?m) else None)"
    using add_metadata_iff [OF _ Cons.prems(2)] assms by (simp add: limits_ok_def Let_def)
  show ?case
  proof (cases "icons + icon_bytes i \<le> max_icon_reference_bytes_per_batch l")
    case True
    then have "icons + icon_bytes i \<le> usize_max" using assms by (simp add: limits_ok_def)
    with Cons.IH [OF True, of "md + ?m"] True show ?thesis by (simp add: m add.assoc usize_checked_add_def)
  next
    case False
    then show ?thesis by (simp add: usize_checked_add_def)
  qed
qed simp

lemma validate_payloads_iff:
  assumes "limits_ok l"
  shows "validate_payloads l p batch =
    (if list_ex (\<lambda>i. it_plugin_id i \<noteq> p) batch then Some RejOwnerMismatch
     else if \<not> payload_ok l batch then Some RejPayloadTooLarge else None)"
  using payload_totals_iff [OF assms, of 0 0 batch]
  by (auto simp: validate_payloads_def payload_ok_def split: option.splits)

lemma retained_by_le: "retained_by p xs \<le> length xs"
  by (simp add: retained_by_def)

text \<open>The state after an accepted batch.\<close>

definition accepted :: "memory_result_aggregator \<Rightarrow> result_batch \<Rightarrow> memory_result_aggregator" where
  "accepted s b =
     (let p = rb_plugin b; batch = rb_items b;
          fresh = count_new_identities s p batch;
          s = (if batch = [] then s
               else
                 let s' = ag_merge p batch s;
                     s' = (if 0 < fresh
                           then s'\<lparr>ag_per_plugin := AList.update p (quota_of s p + fresh) (ag_per_plugin s')\<rparr> else s')
                 in s'\<lparr>ag_pending_ui_update := True\<rparr>)
      in s\<lparr>ag_batch_states := AList.update p (rb_state b) (ag_batch_states s)\<rparr>)"

lemma ag_accept_eq:
  assumes inv: "ag_inv s" and lim: "limits_ok (ag_limits s)"
  shows "ag_accept s b =
    (case reference_decision s b of Some r \<Rightarrow> (s, Inl r) | None \<Rightarrow> (accepted s b, Inr ()))"
proof -
  define p batch where "p = rb_plugin b" and "batch = rb_items b"
  define pl where "pl = map_of (ag_plugin_limits s) p"
  define per_batch per_query where
    "per_batch = (case pl of None \<Rightarrow> max_items_per_batch (ag_limits s) | Some l \<Rightarrow> pl_max_items_per_batch l)" and
    "per_query = (case pl of None \<Rightarrow> max_items_per_plugin_per_query (ag_limits s) | Some l \<Rightarrow> pl_max_items_per_query l)"
  define fresh where "fresh = card (new_keys (ag_items s) batch)"
  define ended where "ended = (case ag_plugin_state s p of None \<Rightarrow> False | Some st \<Rightarrow> is_terminal st)"
  have dec: "reference_decision s b =
      (if ag_active s \<noteq> Some (rb_generation b) then Some RejStaleGeneration
       else if ended then Some RejStreamTerminated
       else if per_batch < length batch then Some RejQuotaExceeded
       else if list_ex (\<lambda>i. it_plugin_id i \<noteq> p) batch then Some RejOwnerMismatch
       else if \<not> payload_ok (ag_limits s) batch then Some RejPayloadTooLarge
       else if per_query < retained_by p (ag_items s) + fresh
            \<or> max_items_per_query (ag_limits s) < length (ag_items s) + fresh then Some RejQuotaExceeded
       else None)"
    unfolding reference_decision_def Let_def case_prod_beta p_def [symmetric] batch_def [symmetric]
      pl_def [symmetric] ended_def [symmetric] fresh_def [symmetric] per_batch_def per_query_def
    by (cases pl) simp_all
  have quota: "quota_of s p = retained_by p (ag_items s)" using inv by (simp add: ag_inv_def)
  have count: "count_new_identities s p batch = fresh" if "\<not> list_ex (\<lambda>i. it_plugin_id i \<noteq> p) batch"
    unfolding fresh_def using inv that
    by (intro count_new_identities_card) (auto simp: ag_inv_def list_all_iff list_ex_iff)
  have big: "max_items_per_query (ag_limits s) < length (ag_items s) + fresh"
    if "usize_max < retained_by p (ag_items s) + fresh \<or> usize_max < length (ag_items s) + fresh"
    using that retained_by_le [of p "ag_items s"] lim by (auto simp: limits_ok_def)
  show ?thesis
    unfolding dec
    by (simp add: ag_accept_def Let_def p_def [symmetric] batch_def [symmetric] pl_def [symmetric]
        per_batch_def [symmetric] per_query_def [symmetric] quota_of_def [symmetric] quota
        ended_def [symmetric, unfolded ag_plugin_state_def] validate_payloads_iff [OF lim] usize_checked_add_def
        accepted_def count big)
qed

lemma reference_own:
  "reference_decision s b = None \<Longrightarrow> list_all (\<lambda>i. it_plugin_id i = rb_plugin b) (rb_items b)"
  by (auto simp: reference_decision_def Let_def case_prod_beta list_all_iff list_ex_iff split: if_splits)

lemma reference_active: "reference_decision s b = None \<Longrightarrow> ag_active s = Some (rb_generation b)"
  by (auto simp: reference_decision_def Let_def case_prod_beta split: if_splits)

lemma reference_quota:
  "reference_decision s b = None \<Longrightarrow>
   length (ag_items s) + card (new_keys (ag_items s) (rb_items b)) \<le> max_items_per_query (ag_limits s)"
  by (auto simp: reference_decision_def Let_def case_prod_beta split: if_splits)

lemma accepted_fields [simp]:
  "ag_limits (accepted s b) = ag_limits s"
  "ag_gate (accepted s b) = ag_gate s"
  "ag_active (accepted s b) = ag_active s"
  "ag_batch_states (accepted s b) = AList.update (rb_plugin b) (rb_state b) (ag_batch_states s)"
  by (simp_all add: accepted_def Let_def ag_merge_def case_prod_beta ag_gate_def)

lemma accepted_merge:
  assumes inv: "ag_inv s" and ok: "reference_decision s b = None"
  shows "ag_items (accepted s b) = fold upsert (rb_items b) (ag_items s)"
    and "index_ok q (index_of (accepted s b) q) (ag_items (accepted s b))"
    and "quota_of (accepted s b) q = retained_by q (ag_items (accepted s b))"
proof -
  let ?p = "rb_plugin b" and ?batch = "rb_items b"
  have own: "list_all (\<lambda>i. it_plugin_id i = ?p) ?batch" by (rule reference_own [OF ok])
  have idx: "index_ok q (index_of s q) (ag_items s)" for q using inv by (simp add: ag_inv_def)
  have merge: "fold merge_item ?batch (index_of s ?p, ag_items s) =
      (fst (fold merge_item ?batch (index_of s ?p, ag_items s)), fold upsert ?batch (ag_items s))"
    and own_idx: "index_ok ?p (fst (fold merge_item ?batch (index_of s ?p, ag_items s))) (fold upsert ?batch (ag_items s))"
    and other_idx: "q \<noteq> ?p \<Longrightarrow> index_ok q (index_of s q) (fold upsert ?batch (ag_items s))" for q
    using merge_items_upsert [OF idx own] idx by (auto simp: prod_eq_iff)
  show items: "ag_items (accepted s b) = fold upsert ?batch (ag_items s)"
    using merge by (auto simp: accepted_def Let_def ag_merge_def index_of_def case_prod_beta prod_eq_iff)
  have index: "index_of (accepted s b) q = (if ?batch = [] \<or> q \<noteq> ?p then index_of s q
      else fst (fold merge_item ?batch (index_of s ?p, ag_items s)))"
    by (simp add: accepted_def Let_def ag_merge_def case_prod_beta index_of_def lookup_simps)
  show "index_ok q (index_of (accepted s b) q) (ag_items (accepted s b))"
    unfolding index items using own_idx other_idx idx by (cases "?batch = []") auto
  have count: "count_new_identities s ?p ?batch = card (new_keys (ag_items s) ?batch)"
    by (rule count_new_identities_card [OF idx own])
  have "quota_of (accepted s b) q = quota_of s q + (if q = ?p then card (new_keys (ag_items s) ?batch) else 0)"
    by (auto simp: accepted_def Let_def ag_merge_def case_prod_beta quota_of_def lookup_simps count new_keys_def)
  then show "quota_of (accepted s b) q = retained_by q (ag_items (accepted s b))"
    using inv by (simp add: items retained_by_upserts [OF own] ag_inv_def)
qed

lemma ag_inv_accepted:
  assumes inv: "ag_inv s" and ok: "reference_decision s b = None"
  shows "ag_inv (accepted s b)"
proof -
  have "distinct (map item_key (ag_items (accepted s b)))"
    using inv by (simp add: accepted_merge [OF assms] distinct_upserts ag_inv_def)
  moreover have "length (ag_items (accepted s b)) \<le> max_items_per_query (ag_limits s)"
    using reference_quota [OF ok] by (simp add: accepted_merge [OF assms] length_upserts)
  ultimately show ?thesis
    using inv accepted_merge(2,3) [OF assms] reference_active [OF ok] by (simp add: ag_inv_def)
qed

lemma ag_inv_accept:
  "ag_inv s \<Longrightarrow> limits_ok (ag_limits s) \<Longrightarrow> ag_inv (fst (ag_accept s b))"
  by (cases "reference_decision s b") (simp_all add: ag_accept_eq ag_inv_accepted)

section \<open>Runs\<close>

datatype ag_op =
    AgSetLimits plugin_id nat nat
  | AgRemoveLimits plugin_id
  | AgBegin generation
  | AgRetire generation
  | AgAccept result_batch
  | AgFrame
  | AgTakeUpdate

fun ag_exec :: "ag_op \<Rightarrow> memory_result_aggregator \<Rightarrow> memory_result_aggregator" where
  "ag_exec (AgSetLimits p per_query per_batch) s = set_plugin_limits p per_query per_batch s"
| "ag_exec (AgRemoveLimits p) s = remove_plugin_limits p s"
| "ag_exec (AgBegin g) s = ag_begin_generation g s"
| "ag_exec (AgRetire g) s = ag_retire_before g s"
| "ag_exec (AgAccept b) s = fst (ag_accept s b)"
| "ag_exec AgFrame s = begin_frame s"
| "ag_exec AgTakeUpdate s = fst (take_ui_update s)"

definition ag_run :: "ag_op list \<Rightarrow> memory_result_aggregator \<Rightarrow> memory_result_aggregator" where
  "ag_run ops s = fold ag_exec ops s"

definition ag_ok :: "memory_result_aggregator \<Rightarrow> bool" where
  "ag_ok s \<longleftrightarrow> ag_inv s \<and> limits_ok (ag_limits s)"

lemma ag_limits_exec: "ag_ok s \<Longrightarrow> ag_limits (ag_exec op s) = ag_limits s"
proof (cases op)
  case (AgAccept b)
  moreover assume "ag_ok s"
  ultimately show ?thesis by (cases "reference_decision s b") (simp_all add: ag_ok_def ag_accept_eq)
qed (auto simp: set_plugin_limits_def remove_plugin_limits_def ag_begin_generation_def ag_retire_before_def
      ag_reset_def begin_frame_def take_ui_update_def Let_def split: option.splits)

lemma ag_ok_exec: "ag_ok s \<Longrightarrow> ag_ok (ag_exec op s)"
  using ag_limits_exec [of s op] unfolding ag_ok_def
  by (cases op) (auto simp: ag_inv_simple ag_inv_begin ag_inv_retire ag_inv_accept)

lemma ag_ok_run: "ag_ok s \<Longrightarrow> ag_ok (ag_run ops s)"
  unfolding ag_run_def by (induction ops arbitrary: s) (auto simp: ag_ok_exec)

lemma ag_ok_new: "limits_ok limits \<Longrightarrow> ag_ok (ag_new limits)"
  by (simp add: ag_ok_def ag_inv_new) (simp add: ag_new_def)

lemma ag_limits_run: "ag_ok s \<Longrightarrow> ag_limits (ag_run ops s) = ag_limits s"
  unfolding ag_run_def by (induction ops arbitrary: s) (auto simp: ag_limits_exec ag_ok_exec)

lemma exec_gate:
  assumes "ag_ok s"
  shows "ag_gate (ag_exec op s) =
    (case op of AgBegin g \<Rightarrow> gate_begin g (ag_gate s) | AgRetire g \<Rightarrow> gate_retire g (ag_gate s) | _ \<Rightarrow> ag_gate s)"
proof (cases op)
  case (AgAccept b)
  with assms show ?thesis
    by (cases "reference_decision s b") (simp_all add: ag_ok_def ag_accept_eq)
next
  case (AgBegin g)
  then show ?thesis by (simp add: ag_gates.begin_refines)
next
  case (AgRetire g)
  then show ?thesis by (simp add: ag_gates.retire_refines)
qed (simp_all add: set_plugin_limits_def remove_plugin_limits_def begin_frame_def take_ui_update_def ag_gate_def)

text \<open>A generation that has been left is behind the active one or below the floor, for good.\<close>

definition left_behind :: "generation \<Rightarrow> gate \<Rightarrow> bool" where
  "left_behind a gt \<longleftrightarrow> a < snd gt \<or> (case fst gt of None \<Rightarrow> False | Some b \<Rightarrow> a < b)"

lemma left_behind_gate:
  "left_behind a gt \<Longrightarrow> left_behind a (gate_begin g gt)"
  "left_behind a gt \<Longrightarrow> left_behind a (gate_retire g gt)"
  "fst gt = Some a \<Longrightarrow> fst (gate_begin g gt) \<noteq> Some a \<Longrightarrow> left_behind a (gate_begin g gt)"
  "fst gt = Some a \<Longrightarrow> fst (gate_retire g gt) \<noteq> Some a \<Longrightarrow> left_behind a (gate_retire g gt)"
  by (cases gt; auto simp: left_behind_def gate_begin_def gate_retire_def split: option.splits if_splits)+

lemma ag_active_gate: "ag_active s = fst (ag_gate s)"
  by (simp add: ag_gate_def)

lemma left_behind_exec:
  assumes "ag_ok s"
  shows "left_behind a (ag_gate s) \<Longrightarrow> left_behind a (ag_gate (ag_exec op s))"
    and "ag_active s = Some a \<Longrightarrow> ag_active (ag_exec op s) \<noteq> Some a \<Longrightarrow> left_behind a (ag_gate (ag_exec op s))"
proof -
  consider g where "ag_gate (ag_exec op s) = gate_begin g (ag_gate s)"
    | g where "ag_gate (ag_exec op s) = gate_retire g (ag_gate s)"
    | "ag_gate (ag_exec op s) = ag_gate s"
    using exec_gate [OF assms, of op] by (cases op) auto
  note gates = this
  show "left_behind a (ag_gate s) \<Longrightarrow> left_behind a (ag_gate (ag_exec op s))"
    by (cases rule: gates) (simp_all add: left_behind_gate)
  show "ag_active s = Some a \<Longrightarrow> ag_active (ag_exec op s) \<noteq> Some a \<Longrightarrow> left_behind a (ag_gate (ag_exec op s))"
    unfolding ag_active_gate by (cases rule: gates) (auto intro: left_behind_gate)
qed

lemma left_behind_run:
  "ag_ok s \<Longrightarrow> left_behind a (ag_gate s) \<Longrightarrow> left_behind a (ag_gate (ag_run ops s))"
  unfolding ag_run_def by (induction ops arbitrary: s) (auto simp: ag_ok_exec left_behind_exec)

lemma left_behind_not_active: "ag_ok s \<Longrightarrow> left_behind a (ag_gate s) \<Longrightarrow> ag_active s \<noteq> Some a"
  by (auto simp: ag_ok_def ag_inv_def gate_ok_def left_behind_def ag_gate_def)

end
