(* ===== verification/Aggregator_Props.thy ===== *)
theory Aggregator_Props
  imports Aggregator
begin

text \<open>
  What the aggregator guarantees to the UI: it retains what the reference retains, rows
  never move while a query is on screen, an ended stream stays ended, and no change of the
  list goes unshown.
\<close>

section \<open>A concrete aggregator for the witnesses\<close>

definition demo_item :: "string \<Rightarrow> string \<Rightarrow> item" where
  "demo_item p i =
     \<lparr>it_stable_id = i, it_plugin_id = p, it_category = CatFile, it_label = i, it_description = [],
      it_target = i, it_search_terms = [], it_icon_reference = None, it_argument_policy = ArgForbidden,
      it_hit_policy = HitRecorded, it_score_hint = 0, it_metadata = [], it_actions = []\<rparr>"

definition demo_limits :: result_limits where
  "demo_limits =
     \<lparr>max_items_per_batch = 4, max_items_per_plugin_per_query = 4, max_items_per_query = 8,
      max_icon_reference_bytes_per_batch = 16, max_metadata_bytes_per_batch = 16,
      max_ui_updates_per_frame = 1\<rparr>"

definition demo_batch :: "batch_state \<Rightarrow> string list \<Rightarrow> result_batch" where
  "demo_batch st ids =
     \<lparr>rb_generation = 1, rb_plugin = ''files'', rb_state = st, rb_items = map (demo_item ''files'') ids\<rparr>"

lemma demo_limits_ok: "limits_ok demo_limits"
  by (simp add: limits_ok_def demo_limits_def usize_max_def)

section \<open>The reference\<close>

text \<open>
  C20: in every state reached from a fresh aggregator, \<open>accept\<close> decides exactly as the
  reference that looks only at the retained items. A rejected batch changes nothing at
  all; an accepted one appends its new items and replaces the known ones in place, and
  records the stream state it reports. The hash index, the per-plugin counters and the
  running byte totals have no influence beyond that.
\<close>

theorem accept_matches_reference:
  assumes "limits_ok limits" and "s = ag_run ops (ag_new limits)"
  shows "case reference_decision s b of
      Some reason \<Rightarrow> ag_accept s b = (s, Inl reason)
    | None \<Rightarrow> snd (ag_accept s b) = Inr ()
        \<and> ag_items (fst (ag_accept s b)) = fold upsert (rb_items b) (ag_items s)
        \<and> ag_plugin_state (fst (ag_accept s b)) (rb_plugin b) = Some (rb_state b)"
proof -
  have "ag_ok s" using assms by (simp add: ag_ok_run ag_ok_new)
  then show ?thesis
    by (cases "reference_decision s b")
      (simp_all add: ag_ok_def ag_accept_eq accepted_merge(1) ag_plugin_state_def lookup_simps)
qed

theorem accept_matches_reference_witness:
  "map it_stable_id (ag_items (fst (ag_accept
      (ag_run [AgBegin 1, AgAccept (demo_batch BatchPartial [''a'', ''b''])] (ag_new demo_limits))
      (demo_batch BatchFinal [''b'', ''c''])))) = [''a'', ''b'', ''c'']"
proof -
  let ?s = "ag_run [AgBegin 1, AgAccept (demo_batch BatchPartial [''a'', ''b''])] (ag_new demo_limits)"
  let ?b = "demo_batch BatchFinal [''b'', ''c'']"
  have "snd (ag_accept ?s ?b) = Inr ()" by code_simp
  then have "reference_decision ?s ?b = None"
    using accept_matches_reference [OF demo_limits_ok refl, of "[AgBegin 1, AgAccept (demo_batch BatchPartial [''a'', ''b''])]" ?b]
    by (cases "reference_decision ?s ?b") simp_all
  then have "ag_items (fst (ag_accept ?s ?b)) = fold upsert (rb_items ?b) (ag_items ?s)"
    using accept_matches_reference [OF demo_limits_ok refl, of "[AgBegin 1, AgAccept (demo_batch BatchPartial [''a'', ''b''])]" ?b]
    by simp
  moreover have "map it_stable_id (fold upsert (rb_items ?b) (ag_items ?s)) = [''a'', ''b'', ''c'']" by code_simp
  ultimately show ?thesis by simp
qed

text \<open>
  C22: in every state reached from a fresh aggregator the retained items have distinct
  \<open>(plugin, item)\<close> keys, number at most \<open>max_items_per_query\<close>, are counted exactly by
  the per-plugin counters and found exactly by the index; with no active generation nothing
  is retained.
\<close>

theorem aggregator_invariant:
  assumes "limits_ok limits" and "s = ag_run ops (ag_new limits)"
  shows "distinct (map item_key (ag_items s)) \<and> length (ag_items s) \<le> max_items_per_query limits
    \<and> quota_of s p = retained_by p (ag_items s) \<and> index_ok p (index_of s p) (ag_items s)
    \<and> (ag_active s = None \<longrightarrow> ag_items s = [])"
proof -
  have new: "ag_ok (ag_new limits)" using assms(1) by (rule ag_ok_new)
  then have "ag_ok s" using assms(2) by (simp add: ag_ok_run)
  moreover have "ag_limits s = limits" using assms(2) ag_limits_run [OF new] by (simp add: ag_new_def)
  ultimately show ?thesis by (simp add: ag_ok_def ag_inv_def)
qed

theorem aggregator_invariant_witness:
  "let s = ag_run [AgBegin 1, AgAccept (demo_batch BatchPartial [''a'', ''b'', ''a''])] (ag_new demo_limits)
   in length (ag_items s) = 2 \<and> quota_of s ''files'' = retained_by ''files'' (ag_items s)"
proof -
  have "length (ag_items (ag_run [AgBegin 1, AgAccept (demo_batch BatchPartial [''a'', ''b'', ''a''])] (ag_new demo_limits))) = 2"
    by code_simp
  with aggregator_invariant [OF demo_limits_ok refl] show ?thesis by (simp add: Let_def)
qed

section \<open>Stability while a query is on screen\<close>

lemma exec_same_generation:
  assumes ok: "ag_ok s" and same: "ag_active s = Some a" "ag_active (ag_exec op s) = Some a"
  shows "\<exists>zs. map item_key (ag_items (ag_exec op s)) = map item_key (ag_items s) @ zs"
    and "ag_plugin_state s p = Some st \<Longrightarrow> is_terminal st \<Longrightarrow> ag_plugin_state (ag_exec op s) p = Some st"
proof -
  have both: "(\<exists>zs. map item_key (ag_items (ag_exec op s)) = map item_key (ag_items s) @ zs)
      \<and> (ag_plugin_state s p = Some st \<longrightarrow> is_terminal st \<longrightarrow> ag_plugin_state (ag_exec op s) p = Some st)"
  proof (cases op)
    case (AgAccept b)
    show ?thesis
    proof (cases "reference_decision s b")
      case None
      have "\<not> is_terminal st'" if "ag_plugin_state s (rb_plugin b) = Some st'" for st'
        using None that by (auto simp: reference_decision_def Let_def case_prod_beta split: if_splits)
      then show ?thesis
        using None ok AgAccept keys_upserts_prefix
        by (auto simp: ag_ok_def ag_accept_eq accepted_merge(1) ag_plugin_state_def lookup_simps)
    next
      case (Some r)
      then show ?thesis using ok AgAccept by (simp add: ag_ok_def ag_accept_eq)
    qed
  next
    case (AgBegin g)
    then have "ag_exec op s = s"
      using same by (auto simp: ag_begin_generation_def ag_reset_def split: if_splits)
    then show ?thesis by simp
  next
    case (AgRetire g)
    then have "ag_items (ag_exec op s) = ag_items s \<and> ag_batch_states (ag_exec op s) = ag_batch_states s"
      using same by (auto simp: ag_retire_before_def ag_reset_def Let_def split: if_splits)
    then show ?thesis by (simp add: ag_plugin_state_def)
  qed (simp_all add: set_plugin_limits_def remove_plugin_limits_def begin_frame_def take_ui_update_def ag_plugin_state_def)
  from both show "\<exists>zs. map item_key (ag_items (ag_exec op s)) = map item_key (ag_items s) @ zs"
    and "ag_plugin_state s p = Some st \<Longrightarrow> is_terminal st \<Longrightarrow> ag_plugin_state (ag_exec op s) p = Some st"
    by blast+
qed

lemma run_same_generation:
  "ag_ok s \<Longrightarrow> ag_active s = Some a \<Longrightarrow> ag_active (ag_run ops s) = Some a \<Longrightarrow>
   (\<exists>zs. map item_key (ag_items (ag_run ops s)) = map item_key (ag_items s) @ zs)
   \<and> (ag_plugin_state s p = Some st \<longrightarrow> is_terminal st \<longrightarrow> ag_plugin_state (ag_run ops s) p = Some st)"
proof (induction ops arbitrary: s)
  case (Cons op ops)
  have ok: "ag_ok (ag_exec op s)" by (rule ag_ok_exec [OF Cons.prems(1)])
  have run: "ag_run (op # ops) s = ag_run ops (ag_exec op s)" by (simp add: ag_run_def)
  have "ag_active (ag_exec op s) = Some a"
  proof (rule ccontr)
    assume "ag_active (ag_exec op s) \<noteq> Some a"
    then have "left_behind a (ag_gate (ag_exec op s))" by (rule left_behind_exec(2) [OF Cons.prems(1,2)])
    from left_behind_not_active [OF ag_ok_run [OF ok] left_behind_run [OF ok this]] Cons.prems(3)
    show False by (simp add: run)
  qed
  with Cons.IH [OF ok this] Cons.prems(3) exec_same_generation [OF Cons.prems(1,2) this]
  show ?case unfolding run by (metis append.assoc)
qed (simp add: ag_run_def)

text \<open>
  C21: rows never move under the user's selection, and an ended stream stays ended. Over any
  sequence of operations that starts and ends with the same active generation, the keys of
  the retained rows only grow at the end, and a plugin whose stream has ended in that
  generation can neither restart it nor add to it.
\<close>

theorem rows_never_move:
  assumes "limits_ok limits" and "s = ag_run before (ag_new limits)"
    and "ag_active s = Some a" and "ag_active (ag_run ops s) = Some a"
  shows "(\<exists>zs. map item_key (ag_items (ag_run ops s)) = map item_key (ag_items s) @ zs)
    \<and> (ag_plugin_state s (rb_plugin b) = Some st \<and> is_terminal st \<and> rb_generation b = a \<longrightarrow>
         ag_accept (ag_run ops s) b = (ag_run ops s, Inl RejStreamTerminated))"
proof -
  have ok: "ag_ok s" using assms by (simp add: ag_ok_run ag_ok_new)
  then have ok': "ag_ok (ag_run ops s)" by (rule ag_ok_run)
  note same = run_same_generation [OF ok assms(3,4), of "rb_plugin b" st]
  have "reference_decision (ag_run ops s) b = Some RejStreamTerminated"
    if "ag_plugin_state s (rb_plugin b) = Some st" "is_terminal st" "rb_generation b = a"
    using same that assms(4) by (simp add: reference_decision_def Let_def case_prod_beta)
  then show ?thesis using same ok' by (auto simp: ag_ok_def ag_accept_eq)
qed

theorem rows_never_move_witness:
  "let s = ag_run [AgBegin 1, AgAccept (demo_batch BatchFinal [''a''])] (ag_new demo_limits)
   in ag_accept (ag_run [AgFrame, AgTakeUpdate] s) (demo_batch BatchPartial [''b''])
      = (ag_run [AgFrame, AgTakeUpdate] s, Inl RejStreamTerminated)"
proof -
  let ?s = "ag_run [AgBegin 1, AgAccept (demo_batch BatchFinal [''a''])] (ag_new demo_limits)"
  have act: "ag_active ?s = Some 1" "ag_active (ag_run [AgFrame, AgTakeUpdate] ?s) = Some 1"
    and st: "ag_plugin_state ?s (rb_plugin (demo_batch BatchPartial [''b''])) = Some BatchFinal"
    by code_simp+
  from rows_never_move [OF demo_limits_ok refl act, of "demo_batch BatchPartial [''b'']" BatchFinal] st show ?thesis
    by (simp add: Let_def is_terminal_def demo_batch_def)
qed

section \<open>The UI\<close>

text \<open>A run together with the last snapshot the UI was given.\<close>

fun shown_after :: "ag_op list \<Rightarrow> memory_result_aggregator \<Rightarrow> item list \<Rightarrow> item list" where
  "shown_after [] s shown = shown"
| "shown_after (op # ops) s shown =
     shown_after ops (ag_exec op s)
       (case op of
          AgTakeUpdate \<Rightarrow> (case snd (take_ui_update s) of None \<Rightarrow> shown | Some snapshot \<Rightarrow> snapshot)
        | _ \<Rightarrow> shown)"

lemma unshown_is_pending:
  assumes "ag_ok s" and "\<not> ag_pending_ui_update s \<longrightarrow> ag_items s = shown"
    and "ag_active s = None \<longrightarrow> ag_items s = []"
  shows "\<not> ag_pending_ui_update (ag_exec op s) \<longrightarrow> ag_items (ag_exec op s) =
    (case op of
       AgTakeUpdate \<Rightarrow> (case snd (take_ui_update s) of None \<Rightarrow> shown | Some snapshot \<Rightarrow> snapshot)
     | _ \<Rightarrow> shown)"
proof (cases op)
  case (AgAccept b)
  then show ?thesis
    using assms by (cases "reference_decision s b")
      (auto simp: ag_ok_def ag_accept_eq accepted_merge(1) accepted_def Let_def ag_merge_def case_prod_beta split: if_splits)
qed (use assms in \<open>auto simp: set_plugin_limits_def remove_plugin_limits_def begin_frame_def take_ui_update_def
      ag_begin_generation_def ag_retire_before_def ag_reset_def Let_def split: option.splits if_splits\<close>)

lemma shown_after_pending:
  "ag_ok s \<Longrightarrow> \<not> ag_pending_ui_update s \<longrightarrow> ag_items s = shown \<Longrightarrow>
   \<not> ag_pending_ui_update (ag_run ops s) \<longrightarrow> ag_items (ag_run ops s) = shown_after ops s shown"
proof (induction ops arbitrary: s shown)
  case (Cons op ops)
  have "ag_active s = None \<longrightarrow> ag_items s = []" using Cons.prems(1) by (simp add: ag_ok_def ag_inv_def)
  from Cons.IH [OF ag_ok_exec [OF Cons.prems(1)] unshown_is_pending [OF Cons.prems this]] show ?case
    by (simp add: ag_run_def)
qed (simp add: ag_run_def)

fun updates_taken :: "ag_op list \<Rightarrow> memory_result_aggregator \<Rightarrow> nat" where
  "updates_taken [] s = 0"
| "updates_taken (op # ops) s =
     (if op = AgTakeUpdate \<and> snd (take_ui_update s) \<noteq> None then 1 else 0) + updates_taken ops (ag_exec op s)"

lemma accepted_updates [simp]: "ag_ui_updates_remaining (accepted s b) = ag_ui_updates_remaining s"
  by (simp add: accepted_def Let_def ag_merge_def case_prod_beta)

lemma updates_remaining_exec:
  assumes "ag_ok s" and "op \<noteq> AgFrame"
  shows "(if op = AgTakeUpdate \<and> snd (take_ui_update s) \<noteq> None then 1 else 0)
    + ag_ui_updates_remaining (ag_exec op s) = ag_ui_updates_remaining s"
proof (cases op)
  case (AgAccept b)
  with assms(1) show ?thesis by (cases "reference_decision s b") (simp_all add: ag_ok_def ag_accept_eq)
qed (use assms in \<open>auto simp: set_plugin_limits_def remove_plugin_limits_def take_ui_update_def
      ag_begin_generation_def ag_retire_before_def ag_reset_def Let_def split: option.splits\<close>)

lemma updates_taken_budget:
  "ag_ok s \<Longrightarrow> AgFrame \<notin> set ops \<Longrightarrow> updates_taken ops s \<le> ag_ui_updates_remaining s"
proof (induction ops arbitrary: s)
  case (Cons op ops)
  from Cons.prems have "op \<noteq> AgFrame" by auto
  note one = updates_remaining_exec [OF Cons.prems(1) this]
  have "updates_taken ops (ag_exec op s) \<le> ag_ui_updates_remaining (ag_exec op s)"
    using Cons.prems(2) by (intro Cons.IH ag_ok_exec [OF Cons.prems(1)]) simp
  with one show ?case unfolding updates_taken.simps by linarith
qed simp

text \<open>
  C23: no change of the retained list goes unshown, and the UI is not flooded. In every
  state reached from a fresh aggregator, either a repaint is pending or the retained list is
  exactly the last snapshot the UI took (the empty list before the first); and between two
  frames at most \<open>max_ui_updates_per_frame\<close> snapshots are handed out.
\<close>

theorem ui_updates_sound:
  assumes "limits_ok limits" and "s = ag_run ops (ag_new limits)"
  shows "(ag_pending_ui_update s \<or> ag_items s = shown_after ops (ag_new limits) [])
    \<and> (AgFrame \<notin> set frame \<longrightarrow> updates_taken frame (begin_frame s) \<le> max_ui_updates_per_frame limits)"
proof
  have new: "ag_ok (ag_new limits)" using assms(1) by (rule ag_ok_new)
  then have ok: "ag_ok s" using assms(2) by (simp add: ag_ok_run)
  have lim: "ag_limits s = limits" using assms(2) ag_limits_run [OF new] by (simp add: ag_new_def)
  have "ag_items (ag_new limits) = []" by (simp add: ag_new_def)
  with shown_after_pending [OF new, of "[]" ops] assms(2)
  show "ag_pending_ui_update s \<or> ag_items s = shown_after ops (ag_new limits) []" by auto
  have "ag_ok (begin_frame s)" using ag_ok_exec [OF ok, of AgFrame] by simp
  from updates_taken_budget [OF this, of frame]
  show "AgFrame \<notin> set frame \<longrightarrow> updates_taken frame (begin_frame s) \<le> max_ui_updates_per_frame limits"
    by (simp add: begin_frame_def lim)
qed

theorem ui_updates_sound_witness:
  "let ops = [AgBegin 1, AgAccept (demo_batch BatchPartial [''a'']), AgTakeUpdate]
   in \<not> ag_pending_ui_update (ag_run ops (ag_new demo_limits))
      \<and> ag_items (ag_run ops (ag_new demo_limits)) = shown_after ops (ag_new demo_limits) []"
proof -
  have "\<not> ag_pending_ui_update (ag_run [AgBegin 1, AgAccept (demo_batch BatchPartial [''a'']), AgTakeUpdate] (ag_new demo_limits))"
    by code_simp
  with ui_updates_sound [OF demo_limits_ok refl, of "[AgBegin 1, AgAccept (demo_batch BatchPartial [''a'']), AgTakeUpdate]" "[]"]
  show ?thesis by (simp add: Let_def)
qed

text \<open>
  A generation that has been retired never becomes active in the aggregator again,
  whatever generations are begun or retired afterwards, so none of its results can be
  merged.
\<close>

theorem retired_generation_stays_out:
  assumes "limits_ok limits" and "s = ag_run ops (ag_new limits)" and "g < ag_retirement_floor s"
    and "rb_generation b = g"
  shows "ag_accept (ag_gates.gate_run later s) b = (ag_gates.gate_run later s, Inl RejStaleGeneration)"
proof -
  have ok: "ag_ok s" using assms by (simp add: ag_ok_run ag_ok_new)
  have "fst (ag_gate (ag_gates.gate_run later s)) \<noteq> Some g"
    using ok assms(3) by (intro ag_gates.retired_stays_retired) (simp_all add: ag_ok_def ag_inv_def, simp add: ag_gate_def)
  then show ?thesis using assms(4) by (simp add: ag_accept_def ag_gate_def)
qed

theorem retired_generation_stays_out_witness:
  "snd (ag_accept (ag_gates.gate_run [GateBegin 1] (ag_run [AgRetire 5] (ag_new demo_limits))) (demo_batch BatchFinal [''a'']))
     = Inl RejStaleGeneration"
proof -
  have "1 < ag_retirement_floor (ag_run [AgRetire 5] (ag_new demo_limits))" by code_simp
  from retired_generation_stays_out [OF demo_limits_ok refl this, of "demo_batch BatchFinal [''a'']" "[GateBegin 1]"]
  show ?thesis by (simp add: demo_batch_def)
qed

end
