(* ===== verification/Intake.thy ===== *)
theory Intake
  imports Aggregator "HOL-Library.Monad_Syntax"
begin

text \<open>
  The bounded intake in front of the aggregator:
  \<open>crates/crikey-result-aggregator/src/intake.rs\<close>. Sizes are natural numbers. A
  panic is \<open>None\<close>, in every operation that can reach one: the \<open>expect\<close> of a lookup or
  of a front entry, an index past the end of \<open>order\<close>, and the underflow of a plain
  subtraction of the totals. A plain addition to the totals has no such case: its result is
  within the configured capacities, which are sizes, as the invariant shows. The aggregator
  behind \<open>drain_into\<close> is any implementation of the trait: its \<open>accept\<close> is an argument.
\<close>

section \<open>Data\<close>

record queue_limits =
  ql_capacity_batches :: nat
  ql_capacity_items :: nat

datatype overflow_policy = OvRejectLowPriority | OvPauseProducer | OvReplaceOldest | OvDisconnect

record intake_policy =
  ip_capacity_batches :: nat
  ip_capacity_items :: nat
  ip_pause_at_batches :: nat
  ip_resume_at_batches :: nat
  ip_overflow :: overflow_policy

datatype batch_priority = PriorityHigh | PriorityLow

record inbound_batch =
  ib_batch :: result_batch
  ib_priority :: batch_priority

datatype producer_state = ProducerRunning | ProducerPausedState | ProducerDisconnected

datatype queue_reject =
    QrUnregistered | QrStaleGeneration | QrStreamTerminated | QrLowPriorityShed
  | QrQueueFull | QrBoundaryFull | QrDisconnected

record queue_depth =
  qd_batches :: nat
  qd_items :: nat
  qd_obsolete :: nat

record drain_budget =
  dg_batches_per_plugin :: nat
  dg_items_per_plugin :: nat
  dg_total_batches :: nat

record merged_batch =
  mb_plugin :: plugin_id
  mb_admitted_at :: u64
  mb_generation :: generation
  mb_state :: batch_state
  mb_items :: nat

record drain_report =
  rp_merged :: nat
  rp_merged_batches :: "merged_batch list"
  rp_dropped_obsolete :: nat
  rp_merge_rejected :: "(plugin_id \<times> reject_reason) list"

datatype queue_event_kind =
    EvAdmitted nat | EvRejected queue_reject | EvDroppedObsolete nat nat | EvEvictedOldest nat
  | EvMerged nat | EvMergeRejected reject_reason | EvProducerPaused | EvProducerResumed

record queue_event =
  qe_at :: u64
  qe_plugin :: plugin_id
  qe_generation :: generation
  qe_kind :: queue_event_kind

record queue_diagnostics =
  dx_admitted :: nat
  dx_merged :: nat
  dx_dropped_obsolete :: nat
  dx_evicted_oldest :: nat
  dx_rejected :: "nat list"
  dx_merge_rejected :: "nat list"
  dx_pauses :: nat
  dx_resumes :: nat
  dx_events_dropped :: nat
  dx_peak_batches :: nat
  dx_peak_items :: nat
  dx_counters_saturated :: bool

definition default_queue_diagnostics :: queue_diagnostics where
  "default_queue_diagnostics =
     \<lparr>dx_admitted = 0, dx_merged = 0, dx_dropped_obsolete = 0, dx_evicted_oldest = 0,
      dx_rejected = replicate 7 0, dx_merge_rejected = replicate 6 0, dx_pauses = 0, dx_resumes = 0,
      dx_events_dropped = 0, dx_peak_batches = 0, dx_peak_items = 0, dx_counters_saturated = False\<rparr>"

fun queue_reject_index :: "queue_reject \<Rightarrow> nat" where
  "queue_reject_index QrUnregistered = 0"
| "queue_reject_index QrStaleGeneration = 1"
| "queue_reject_index QrStreamTerminated = 2"
| "queue_reject_index QrLowPriorityShed = 3"
| "queue_reject_index QrQueueFull = 4"
| "queue_reject_index QrBoundaryFull = 5"
| "queue_reject_index QrDisconnected = 6"

fun merge_reject_index :: "reject_reason \<Rightarrow> nat" where
  "merge_reject_index RejStaleGeneration = 0"
| "merge_reject_index RejQuotaExceeded = 1"
| "merge_reject_index RejPayloadTooLarge = 2"
| "merge_reject_index RejOwnerMismatch = 3"
| "merge_reject_index RejStreamTerminated = 4"
| "merge_reject_index RejPluginSuspended = 5"

definition add_counter :: "nat \<Rightarrow> nat \<Rightarrow> bool \<Rightarrow> nat \<times> bool" where
  "add_counter counter amount saturated =
     (case usize_checked_add counter amount of
        None \<Rightarrow> (usize_max, True)
      | Some value \<Rightarrow> (value, saturated))"

record entry =
  en_admitted_at :: u64
  en_inbound :: inbound_batch

definition en_generation :: "entry \<Rightarrow> generation" where
  "en_generation e = rb_generation (ib_batch (en_inbound e))"

definition en_items :: "entry \<Rightarrow> nat" where
  "en_items e = length (rb_items (ib_batch (en_inbound e)))"

record plugin_queue =
  pq_policy :: intake_policy
  pq_entries :: "entry list"
  pq_items :: nat
  pq_state :: producer_state
  pq_terminal_generation :: "generation option"

definition plugin_queue_new :: "intake_policy \<Rightarrow> plugin_queue" where
  "plugin_queue_new policy =
     \<lparr>pq_policy = policy, pq_entries = [], pq_items = 0, pq_state = ProducerRunning,
      pq_terminal_generation = None\<rparr>"

record inbound_result_queue =
  iq_limits :: queue_limits
  iq_retirement_floor :: generation
  iq_active :: "generation option"
  iq_plugins :: "(plugin_id \<times> plugin_queue) list"
  iq_order :: "plugin_id list"
  iq_drain_cursor :: nat
  iq_total_batches :: nat
  iq_total_items :: nat
  iq_diagnostics :: queue_diagnostics
  iq_events :: "queue_event list"

definition intake_new :: "queue_limits \<Rightarrow> inbound_result_queue" where
  "intake_new limits =
     \<lparr>iq_limits = limits, iq_retirement_floor = generation_zero, iq_active = None, iq_plugins = [],
      iq_order = [], iq_drain_cursor = 0, iq_total_batches = 0, iq_total_items = 0,
      iq_diagnostics = default_queue_diagnostics, iq_events = []\<rparr>"

definition normalize_intake_policy :: "intake_policy \<Rightarrow> intake_policy" where
  "normalize_intake_policy p =
     (let cap = max (ip_capacity_batches p) 1;
          pause = min (max (ip_pause_at_batches p) 1) cap
      in p\<lparr>ip_capacity_batches := cap, ip_pause_at_batches := pause,
           ip_resume_at_batches := min (ip_resume_at_batches p) (pause - 1)\<rparr>)"

definition exceeds :: "nat \<Rightarrow> nat \<Rightarrow> nat \<Rightarrow> bool" where
  "exceeds current additional limit \<longleftrightarrow> limit - current < additional"

section \<open>Counters and events\<close>

definition count_intake ::
  "(queue_diagnostics \<Rightarrow> nat) \<Rightarrow> ((nat \<Rightarrow> nat) \<Rightarrow> queue_diagnostics \<Rightarrow> queue_diagnostics)
   \<Rightarrow> nat \<Rightarrow> inbound_result_queue \<Rightarrow> inbound_result_queue" where
  "count_intake get upd amount s =
     (let d = iq_diagnostics s;
          (counter, saturated) = add_counter (get d) amount (dx_counters_saturated d)
      in s\<lparr>iq_diagnostics := upd (\<lambda>_. counter) (d\<lparr>dx_counters_saturated := saturated\<rparr>)\<rparr>)"

definition count_slot ::
  "(queue_diagnostics \<Rightarrow> nat list) \<Rightarrow> ((nat list \<Rightarrow> nat list) \<Rightarrow> queue_diagnostics \<Rightarrow> queue_diagnostics)
   \<Rightarrow> nat \<Rightarrow> inbound_result_queue \<Rightarrow> inbound_result_queue" where
  "count_slot get upd slot s =
     (let d = iq_diagnostics s;
          (counter, saturated) = add_counter (get d ! slot) 1 (dx_counters_saturated d)
      in s\<lparr>iq_diagnostics := upd (\<lambda>cs. cs[slot := counter]) (d\<lparr>dx_counters_saturated := saturated\<rparr>)\<rparr>)"

definition push_event :: "queue_event \<Rightarrow> inbound_result_queue \<Rightarrow> inbound_result_queue" where
  "push_event event s =
     (let capacity = ql_capacity_batches (iq_limits s) in
      if capacity = 0 then count_intake dx_events_dropped dx_events_dropped_update 1 s
      else if capacity \<le> length (iq_events s) then
        (count_intake dx_events_dropped dx_events_dropped_update 1 s)\<lparr>iq_events := tl (iq_events s) @ [event]\<rparr>
      else s\<lparr>iq_events := iq_events s @ [event]\<rparr>)"

definition intake_event ::
  "u64 \<Rightarrow> plugin_id \<Rightarrow> generation \<Rightarrow> queue_event_kind \<Rightarrow> inbound_result_queue \<Rightarrow> inbound_result_queue" where
  "intake_event at plugin g kind =
     push_event \<lparr>qe_at = at, qe_plugin = plugin, qe_generation = g, qe_kind = kind\<rparr>"

definition take_events :: "inbound_result_queue \<Rightarrow> inbound_result_queue \<times> queue_event list" where
  "take_events s = (s\<lparr>iq_events := []\<rparr>, iq_events s)"

definition modify_queue ::
  "plugin_id \<Rightarrow> (plugin_queue \<Rightarrow> plugin_queue) \<Rightarrow> inbound_result_queue \<Rightarrow> inbound_result_queue" where
  "modify_queue plugin f s = s\<lparr>iq_plugins := adjust plugin f (iq_plugins s)\<rparr>"

text \<open>\<open>get_mut(plugin).expect(..)\<close>, and the change made through it.\<close>

definition expect_queue ::
  "plugin_id \<Rightarrow> (plugin_queue \<Rightarrow> plugin_queue) \<Rightarrow> inbound_result_queue \<Rightarrow> inbound_result_queue option" where
  "expect_queue plugin f s =
     (case map_of (iq_plugins s) plugin of None \<Rightarrow> None | Some _ \<Rightarrow> Some (modify_queue plugin f s))"

definition intake_reject ::
  "u64 \<Rightarrow> plugin_id \<Rightarrow> generation \<Rightarrow> queue_reject \<Rightarrow> inbound_result_queue \<Rightarrow> inbound_result_queue" where
  "intake_reject at plugin g reason s =
     intake_event at plugin g (EvRejected reason)
       (count_slot dx_rejected dx_rejected_update (queue_reject_index reason) s)"

section \<open>Registration and generations\<close>

definition intake_register :: "plugin_id \<Rightarrow> intake_policy \<Rightarrow> inbound_result_queue \<Rightarrow> inbound_result_queue" where
  "intake_register plugin policy s =
     (let policy = normalize_intake_policy policy in
      case map_of (iq_plugins s) plugin of
        Some queue \<Rightarrow>
          (let depth = length (filter (\<lambda>e. iq_active s = Some (en_generation e)) (pq_entries queue));
               connected_state = (if pq_state queue = ProducerDisconnected then ProducerRunning else pq_state queue);
               state = (if connected_state = ProducerRunning \<and> ip_pause_at_batches policy \<le> depth
                        then ProducerPausedState
                        else if connected_state = ProducerPausedState \<and> depth \<le> ip_resume_at_batches policy
                        then ProducerRunning
                        else connected_state)
           in modify_queue plugin (\<lambda>q. q\<lparr>pq_policy := policy, pq_state := state\<rparr>) s)
      | None \<Rightarrow>
          s\<lparr>iq_order := iq_order s @ [plugin],
            iq_plugins := AList.update plugin (plugin_queue_new policy) (iq_plugins s)\<rparr>)"

fun position :: "'a \<Rightarrow> 'a list \<Rightarrow> nat option" where
  "position x [] = None"
| "position x (y # ys) = (if y = x then Some 0 else map_option Suc (position x ys))"

definition intake_unregister :: "plugin_id \<Rightarrow> inbound_result_queue \<Rightarrow> inbound_result_queue \<times> bool" where
  "intake_unregister plugin s =
     (case map_of (iq_plugins s) plugin of
        None \<Rightarrow> (s, False)
      | Some queue \<Rightarrow>
          (let s = s\<lparr>iq_plugins := AList.delete plugin (iq_plugins s),
                     iq_total_batches := iq_total_batches s - length (pq_entries queue),
                     iq_total_items := iq_total_items s - pq_items queue\<rparr>;
               s = (case position plugin (iq_order s) of
                      None \<Rightarrow> s
                    | Some removed \<Rightarrow>
                        (let order = take removed (iq_order s) @ drop (Suc removed) (iq_order s);
                             cursor = (if removed < iq_drain_cursor s then iq_drain_cursor s - 1
                                       else iq_drain_cursor s)
                         in s\<lparr>iq_order := order,
                              iq_drain_cursor := (if order = [] then 0 else cursor mod length order)\<rparr>))
           in (s\<lparr>iq_events := filter (\<lambda>e. qe_plugin e \<noteq> plugin) (iq_events s)\<rparr>, True)))"

definition intake_begin_generation :: "generation \<Rightarrow> inbound_result_queue \<Rightarrow> inbound_result_queue" where
  "intake_begin_generation g s =
     (if g < iq_retirement_floor s then s
      else if (case iq_active s of None \<Rightarrow> False | Some active \<Rightarrow> g \<le> active) then s
      else s\<lparr>iq_active := Some g\<rparr>)"

definition intake_retire_before :: "generation \<Rightarrow> inbound_result_queue \<Rightarrow> inbound_result_queue" where
  "intake_retire_before g s =
     (if g \<le> iq_retirement_floor s then s
      else
        let s = s\<lparr>iq_retirement_floor := g\<rparr> in
        if (case iq_active s of None \<Rightarrow> False | Some active \<Rightarrow> active < g) then s\<lparr>iq_active := None\<rparr> else s)"

definition obsolete_batches :: "inbound_result_queue \<Rightarrow> plugin_queue \<Rightarrow> nat" where
  "obsolete_batches s queue =
     length (filter (\<lambda>e. iq_active s \<noteq> Some (en_generation e)) (pq_entries queue))"

definition intake_depth :: "inbound_result_queue \<Rightarrow> queue_depth" where
  "intake_depth s =
     \<lparr>qd_batches = iq_total_batches s, qd_items = iq_total_items s,
      qd_obsolete = (\<Sum>(_, q) \<leftarrow> iq_plugins s. obsolete_batches s q)\<rparr>"

definition plugin_depth :: "inbound_result_queue \<Rightarrow> plugin_id \<Rightarrow> queue_depth" where
  "plugin_depth s plugin =
     (case map_of (iq_plugins s) plugin of
        None \<Rightarrow> \<lparr>qd_batches = 0, qd_items = 0, qd_obsolete = 0\<rparr>
      | Some q \<Rightarrow> \<lparr>qd_batches = length (pq_entries q), qd_items = pq_items q, qd_obsolete = obsolete_batches s q\<rparr>)"

definition intake_producer_state :: "inbound_result_queue \<Rightarrow> plugin_id \<Rightarrow> producer_state option" where
  "intake_producer_state s plugin = map_option pq_state (map_of (iq_plugins s) plugin)"

section \<open>Taking entries off a queue\<close>

text \<open>
  The block shared by reclamation, eviction and draining: the front entry is popped and
  the four counts follow. \<open>None\<close> is a panic: the plugin is not registered, its queue is
  empty, or one of the three subtractions underflows.
\<close>

definition pop_entry :: "plugin_id \<Rightarrow> inbound_result_queue \<Rightarrow> (inbound_result_queue \<times> entry) option" where
  "pop_entry plugin s =
     (case map_of (iq_plugins s) plugin of
        None \<Rightarrow> None
      | Some queue \<Rightarrow>
          (case pq_entries queue of
             [] \<Rightarrow> None
           | e # rest \<Rightarrow>
               do {
                 items \<leftarrow> usize_minus (pq_items queue) (en_items e);
                 batches \<leftarrow> usize_minus (iq_total_batches s) 1;
                 total_items \<leftarrow> usize_minus (iq_total_items s) (en_items e);
                 Some ((modify_queue plugin (\<lambda>q. q\<lparr>pq_entries := rest, pq_items := items\<rparr>) s)
                         \<lparr>iq_total_batches := batches, iq_total_items := total_items\<rparr>, e)
               }))"

text \<open>\<open>plugins.get(plugin).and_then(front)\<close>, which does not panic.\<close>

definition front_entry :: "plugin_id \<Rightarrow> inbound_result_queue \<Rightarrow> entry option" where
  "front_entry plugin s =
     (case map_of (iq_plugins s) plugin of
        None \<Rightarrow> None
      | Some q \<Rightarrow> (case pq_entries q of [] \<Rightarrow> None | e # _ \<Rightarrow> Some e))"

definition queue_len :: "inbound_result_queue \<Rightarrow> plugin_id \<Rightarrow> nat" where
  "queue_len s plugin =
     (case map_of (iq_plugins s) plugin of None \<Rightarrow> 0 | Some q \<Rightarrow> length (pq_entries q))"

lemma pop_entry_len: "pop_entry plugin s = Some (s', e) \<Longrightarrow> queue_len s' plugin < queue_len s plugin"
  by (auto simp: pop_entry_def queue_len_def modify_queue_def lookup_simps
      split: option.splits list.splits Option.bind_splits)

definition front_obsolete :: "generation option \<Rightarrow> plugin_id \<Rightarrow> inbound_result_queue \<Rightarrow> bool" where
  "front_obsolete active plugin s =
     (case front_entry plugin s of None \<Rightarrow> False | Some e \<Rightarrow> active \<noteq> Some (en_generation e))"

type_synonym reclaim_record = "plugin_id \<times> generation \<times> nat \<times> nat"

definition note_record :: "plugin_id \<Rightarrow> entry \<Rightarrow> reclaim_record list \<Rightarrow> reclaim_record list" where
  "note_record plugin e records =
     (if records \<noteq> [] \<and> fst (last records) = plugin \<and> fst (snd (last records)) = en_generation e
      then butlast records
           @ [(plugin, en_generation e, fst (snd (snd (last records))) + 1, snd (snd (snd (last records))) + en_items e)]
      else records @ [(plugin, en_generation e, 1, en_items e)])"

function reclaim_front ::
  "generation option \<Rightarrow> plugin_id \<Rightarrow> inbound_result_queue \<Rightarrow> reclaim_record list \<Rightarrow> nat
   \<Rightarrow> (inbound_result_queue \<times> reclaim_record list \<times> nat) option" where
  "reclaim_front active plugin s records dropped =
     (if \<not> front_obsolete active plugin s then Some (s, records, dropped)
      else case pop_entry plugin s of
             None \<Rightarrow> None
           | Some (s', e) \<Rightarrow> reclaim_front active plugin s' (note_record plugin e records) (dropped + 1))"
  by auto
termination
  by (relation "measure (\<lambda>(active, plugin, s, records, dropped). queue_len s plugin)") (auto dest: pop_entry_len)

declare reclaim_front.simps [simp del]

fun reclaim_each ::
  "generation option \<Rightarrow> plugin_id list \<Rightarrow> inbound_result_queue \<Rightarrow> reclaim_record list \<Rightarrow> nat
   \<Rightarrow> (inbound_result_queue \<times> reclaim_record list \<times> nat) option" where
  "reclaim_each active [] s records dropped = Some (s, records, dropped)"
| "reclaim_each active (plugin # plugins) s records dropped =
     do {
       (s, records, dropped) \<leftarrow> reclaim_front active plugin s records dropped;
       reclaim_each active plugins s records dropped
     }"

definition reclaim_obsolete :: "u64 \<Rightarrow> inbound_result_queue \<Rightarrow> (inbound_result_queue \<times> nat) option" where
  "reclaim_obsolete at s =
     do {
       (s, records, dropped) \<leftarrow> reclaim_each (iq_active s) (iq_order s) s [] 0;
       let s = count_intake dx_dropped_obsolete dx_dropped_obsolete_update dropped s;
       let s = fold (\<lambda>(plugin, g, batches, items). intake_event at plugin g (EvDroppedObsolete batches items)) records s;
       Some (s, dropped)
     }"

definition evict_oldest :: "u64 \<Rightarrow> plugin_id \<Rightarrow> inbound_result_queue \<Rightarrow> inbound_result_queue option" where
  "evict_oldest at plugin s =
     (case pop_entry plugin s of
        None \<Rightarrow> None
      | Some (s, e) \<Rightarrow>
          Some (intake_event at plugin (en_generation e) (EvEvictedOldest (en_items e))
                 (count_intake dx_evicted_oldest dx_evicted_oldest_update 1 s)))"

definition capacity_violations :: "inbound_result_queue \<Rightarrow> plugin_queue \<Rightarrow> nat \<Rightarrow> bool \<times> bool" where
  "capacity_violations s queue item_count =
     (exceeds (length (pq_entries queue)) 1 (ip_capacity_batches (pq_policy queue))
        \<or> exceeds (pq_items queue) item_count (ip_capacity_items (pq_policy queue)),
      exceeds (iq_total_batches s) 1 (ql_capacity_batches (iq_limits s))
        \<or> exceeds (iq_total_items s) item_count (ql_capacity_items (iq_limits s)))"

text \<open>The loop condition of the replacement; \<open>None\<close> is the panic on a plugin that is not registered.\<close>

definition is_full :: "inbound_result_queue \<Rightarrow> plugin_id \<Rightarrow> nat \<Rightarrow> bool option" where
  "is_full s plugin item_count =
     (case map_of (iq_plugins s) plugin of
        None \<Rightarrow> None
      | Some q \<Rightarrow> (case capacity_violations s q item_count of (own, shared) \<Rightarrow> Some (own \<or> shared)))"

section \<open>What bookkeeping leaves alone\<close>

lemma count_intake_fields [simp]:
  "iq_limits (count_intake get upd n s) = iq_limits s"
  "iq_retirement_floor (count_intake get upd n s) = iq_retirement_floor s"
  "iq_active (count_intake get upd n s) = iq_active s"
  "iq_plugins (count_intake get upd n s) = iq_plugins s"
  "iq_order (count_intake get upd n s) = iq_order s"
  "iq_drain_cursor (count_intake get upd n s) = iq_drain_cursor s"
  "iq_total_batches (count_intake get upd n s) = iq_total_batches s"
  "iq_total_items (count_intake get upd n s) = iq_total_items s"
  "iq_events (count_intake get upd n s) = iq_events s"
  by (simp_all add: count_intake_def Let_def case_prod_beta)

lemma count_slot_fields [simp]:
  "iq_limits (count_slot get upd2 n s) = iq_limits s"
  "iq_retirement_floor (count_slot get upd2 n s) = iq_retirement_floor s"
  "iq_active (count_slot get upd2 n s) = iq_active s"
  "iq_plugins (count_slot get upd2 n s) = iq_plugins s"
  "iq_order (count_slot get upd2 n s) = iq_order s"
  "iq_drain_cursor (count_slot get upd2 n s) = iq_drain_cursor s"
  "iq_total_batches (count_slot get upd2 n s) = iq_total_batches s"
  "iq_total_items (count_slot get upd2 n s) = iq_total_items s"
  "iq_events (count_slot get upd2 n s) = iq_events s"
  by (simp_all add: count_slot_def Let_def case_prod_beta)

lemma push_event_fields [simp]:
  "iq_limits (push_event e s) = iq_limits s"
  "iq_retirement_floor (push_event e s) = iq_retirement_floor s"
  "iq_active (push_event e s) = iq_active s"
  "iq_plugins (push_event e s) = iq_plugins s"
  "iq_order (push_event e s) = iq_order s"
  "iq_drain_cursor (push_event e s) = iq_drain_cursor s"
  "iq_total_batches (push_event e s) = iq_total_batches s"
  "iq_total_items (push_event e s) = iq_total_items s"
  by (simp_all add: push_event_def Let_def)

lemma intake_event_fields [simp]:
  "iq_limits (intake_event at p g kind s) = iq_limits s"
  "iq_retirement_floor (intake_event at p g kind s) = iq_retirement_floor s"
  "iq_active (intake_event at p g kind s) = iq_active s"
  "iq_plugins (intake_event at p g kind s) = iq_plugins s"
  "iq_order (intake_event at p g kind s) = iq_order s"
  "iq_drain_cursor (intake_event at p g kind s) = iq_drain_cursor s"
  "iq_total_batches (intake_event at p g kind s) = iq_total_batches s"
  "iq_total_items (intake_event at p g kind s) = iq_total_items s"
  by (simp_all add: intake_event_def)

lemma intake_reject_fields [simp]:
  "iq_limits (intake_reject at p g reason s) = iq_limits s"
  "iq_retirement_floor (intake_reject at p g reason s) = iq_retirement_floor s"
  "iq_active (intake_reject at p g reason s) = iq_active s"
  "iq_plugins (intake_reject at p g reason s) = iq_plugins s"
  "iq_order (intake_reject at p g reason s) = iq_order s"
  "iq_drain_cursor (intake_reject at p g reason s) = iq_drain_cursor s"
  "iq_total_batches (intake_reject at p g reason s) = iq_total_batches s"
  "iq_total_items (intake_reject at p g reason s) = iq_total_items s"
  by (simp_all add: intake_reject_def)

lemma modify_queue_fields [simp]:
  "iq_limits (modify_queue p f s) = iq_limits s"
  "iq_retirement_floor (modify_queue p f s) = iq_retirement_floor s"
  "iq_active (modify_queue p f s) = iq_active s"
  "iq_plugins (modify_queue p f s) = adjust p f (iq_plugins s)"
  "iq_order (modify_queue p f s) = iq_order s"
  "iq_drain_cursor (modify_queue p f s) = iq_drain_cursor s"
  "iq_total_batches (modify_queue p f s) = iq_total_batches s"
  "iq_total_items (modify_queue p f s) = iq_total_items s"
  "iq_events (modify_queue p f s) = iq_events s"
  by (simp_all add: modify_queue_def)

lemma evict_oldest_len: "evict_oldest at p s = Some s' \<Longrightarrow> queue_len s' p < queue_len s p"
proof (cases "pop_entry p s")
  case (Some se)
  assume "evict_oldest at p s = Some s'"
  with Some have "queue_len s' p = queue_len (fst se) p"
    by (auto simp: evict_oldest_def queue_len_def case_prod_beta)
  with pop_entry_len [of p s "fst se" "snd se"] Some show ?thesis by simp
qed (simp add: evict_oldest_def)

section \<open>Submitting\<close>

text \<open>The replacement loop; \<open>None\<close> is a panic of the condition or of the eviction.\<close>

function evict_until ::
  "u64 \<Rightarrow> plugin_id \<Rightarrow> nat \<Rightarrow> inbound_result_queue \<Rightarrow> inbound_result_queue option" where
  "evict_until at plugin item_count s =
     (case is_full s plugin item_count of
        None \<Rightarrow> None
      | Some False \<Rightarrow> Some s
      | Some True \<Rightarrow>
          (case evict_oldest at plugin s of
             None \<Rightarrow> None
           | Some s' \<Rightarrow> evict_until at plugin item_count s'))"
  by auto
termination
  by (relation "measure (\<lambda>(at, plugin, item_count, s). queue_len s plugin)") (auto dest: evict_oldest_len)

declare evict_until.simps [simp del]

text \<open>\<open>None\<close> is the underflow of a subtraction.\<close>

definition replacement_preflight ::
  "inbound_result_queue \<Rightarrow> plugin_queue \<Rightarrow> nat \<Rightarrow> (queue_reject + unit) option" where
  "replacement_preflight s queue item_count =
     (if exceeds 0 1 (ip_capacity_batches (pq_policy queue))
         \<or> exceeds 0 item_count (ip_capacity_items (pq_policy queue)) then Some (Inl QrQueueFull)
      else do {
        other_batches \<leftarrow> usize_minus (iq_total_batches s) (length (pq_entries queue));
        other_items \<leftarrow> usize_minus (iq_total_items s) (pq_items queue);
        if exceeds other_batches 1 (ql_capacity_batches (iq_limits s))
           \<or> exceeds other_items item_count (ql_capacity_items (iq_limits s))
        then Some (Inl QrBoundaryFull)
        else Some (Inr ())
      })"

definition low_at_watermark :: "plugin_queue \<Rightarrow> inbound_batch \<Rightarrow> bool" where
  "low_at_watermark queue inbound \<longleftrightarrow>
     ip_overflow (pq_policy queue) = OvRejectLowPriority \<and> ib_priority inbound = PriorityLow
     \<and> ip_pause_at_batches (pq_policy queue) \<le> length (pq_entries queue)"

definition admission_needs_reclamation :: "inbound_result_queue \<Rightarrow> plugin_queue \<Rightarrow> inbound_batch \<Rightarrow> bool" where
  "admission_needs_reclamation s queue inbound =
     (case capacity_violations s queue (length (rb_items (ib_batch inbound))) of
        (own, shared) \<Rightarrow> low_at_watermark queue inbound \<or> own \<or> shared)"

definition force_pause :: "u64 \<Rightarrow> plugin_id \<Rightarrow> generation \<Rightarrow> inbound_result_queue \<Rightarrow> inbound_result_queue option" where
  "force_pause at plugin g s =
     (case map_of (iq_plugins s) plugin of
        None \<Rightarrow> None
      | Some q \<Rightarrow>
          (if pq_state q \<noteq> ProducerRunning then Some s
           else Some (intake_event at plugin g EvProducerPaused
                        (count_intake dx_pauses dx_pauses_update 1
                          (modify_queue plugin (\<lambda>q. q\<lparr>pq_state := ProducerPausedState\<rparr>) s)))))"

definition watermark_transition :: "plugin_queue \<Rightarrow> producer_state option" where
  "watermark_transition q =
     (if pq_state q = ProducerRunning \<and> ip_pause_at_batches (pq_policy q) \<le> length (pq_entries q)
      then Some ProducerPausedState
      else if pq_state q = ProducerPausedState \<and> length (pq_entries q) \<le> ip_resume_at_batches (pq_policy q)
      then Some ProducerRunning
      else None)"

definition reconcile_producer ::
  "u64 \<Rightarrow> generation \<Rightarrow> plugin_id \<Rightarrow> inbound_result_queue \<Rightarrow> inbound_result_queue option" where
  "reconcile_producer at g plugin s =
     (case map_of (iq_plugins s) plugin of
        None \<Rightarrow> None
      | Some q \<Rightarrow>
          (case watermark_transition q of
             None \<Rightarrow> Some s
           | Some state \<Rightarrow>
               do {
                 s \<leftarrow> expect_queue plugin (\<lambda>q. q\<lparr>pq_state := state\<rparr>) s;
                 Some (if state = ProducerPausedState
                       then intake_event at plugin g EvProducerPaused (count_intake dx_pauses dx_pauses_update 1 s)
                       else intake_event at plugin g EvProducerResumed (count_intake dx_resumes dx_resumes_update 1 s))
               }))"

text \<open>The last block of \<open>submit\<close>: the batch has a place and takes it.\<close>

definition enqueue_batch ::
  "u64 \<Rightarrow> inbound_batch \<Rightarrow> inbound_result_queue \<Rightarrow> (inbound_result_queue \<times> (queue_reject + producer_state)) option" where
  "enqueue_batch at inbound s =
     (let plugin = rb_plugin (ib_batch inbound);
          g = rb_generation (ib_batch inbound);
          item_count = length (rb_items (ib_batch inbound))
      in do {
        s \<leftarrow> expect_queue plugin (\<lambda>q.
               q\<lparr>pq_items := pq_items q + item_count,
                 pq_terminal_generation :=
                   (if is_terminal (rb_state (ib_batch inbound)) then Some g else pq_terminal_generation q),
                 pq_entries := pq_entries q @ [\<lparr>en_admitted_at = at, en_inbound = inbound\<rparr>]\<rparr>) s;
        let s = s\<lparr>iq_total_batches := iq_total_batches s + 1, iq_total_items := iq_total_items s + item_count\<rparr>;
        let s = count_intake dx_admitted dx_admitted_update 1 s;
        let s = s\<lparr>iq_diagnostics := (iq_diagnostics s)
                   \<lparr>dx_peak_batches := max (dx_peak_batches (iq_diagnostics s)) (iq_total_batches s),
                    dx_peak_items := max (dx_peak_items (iq_diagnostics s)) (iq_total_items s)\<rparr>\<rparr>;
        let s = intake_event at plugin g (EvAdmitted item_count) s;
        s \<leftarrow> reconcile_producer at g plugin s;
        q \<leftarrow> map_of (iq_plugins s) plugin;
        Some (s, Inr (pq_state q))
      })"

definition full_reason :: "bool \<Rightarrow> queue_reject" where
  "full_reason own = (if own then QrQueueFull else QrBoundaryFull)"

text \<open>The overflow branch of \<open>submit\<close>, on a queue that is full.\<close>

definition overflow_batch ::
  "u64 \<Rightarrow> inbound_batch \<Rightarrow> plugin_queue \<Rightarrow> bool \<Rightarrow> inbound_result_queue
   \<Rightarrow> (inbound_result_queue \<times> (queue_reject + producer_state)) option" where
  "overflow_batch at inbound queue own s =
     (let plugin = rb_plugin (ib_batch inbound);
          g = rb_generation (ib_batch inbound);
          item_count = length (rb_items (ib_batch inbound))
      in case ip_overflow (pq_policy queue) of
           OvReplaceOldest \<Rightarrow>
             do {
               r \<leftarrow> replacement_preflight s queue item_count;
               case r of
                 Inl reason \<Rightarrow> Some (intake_reject at plugin g reason s, Inl reason)
               | Inr _ \<Rightarrow> do { s \<leftarrow> evict_until at plugin item_count s; enqueue_batch at inbound s }
             }
         | OvDisconnect \<Rightarrow>
             do {
               s \<leftarrow> expect_queue plugin (\<lambda>q. q\<lparr>pq_state := ProducerDisconnected\<rparr>) s;
               Some (intake_reject at plugin g QrDisconnected s, Inl QrDisconnected)
             }
         | OvPauseProducer \<Rightarrow>
             do {
               s \<leftarrow> force_pause at plugin g (intake_reject at plugin g (full_reason own) s);
               Some (s, Inl (full_reason own))
             }
         | OvRejectLowPriority \<Rightarrow>
             Some (intake_reject at plugin g (full_reason own) s, Inl (full_reason own)))"

definition intake_submit ::
  "u64 \<Rightarrow> inbound_batch \<Rightarrow> inbound_result_queue
   \<Rightarrow> (inbound_result_queue \<times> (queue_reject + producer_state)) option" where
  "intake_submit at inbound s =
     (let plugin = rb_plugin (ib_batch inbound);
          g = rb_generation (ib_batch inbound);
          item_count = length (rb_items (ib_batch inbound));
          refuse = (\<lambda>reason s. Some (intake_reject at plugin g reason s, Inl reason))
      in case map_of (iq_plugins s) plugin of
           None \<Rightarrow> refuse QrUnregistered s
         | Some queue \<Rightarrow>
             (if iq_active s \<noteq> Some g then refuse QrStaleGeneration s
              else if pq_state queue = ProducerDisconnected then refuse QrDisconnected s
              else if pq_terminal_generation queue = Some g then refuse QrStreamTerminated s
              else do {
                s \<leftarrow> (if admission_needs_reclamation s queue inbound
                      then map_option fst (reclaim_obsolete at s) else Some s);
                queue \<leftarrow> map_of (iq_plugins s) plugin;
                if low_at_watermark queue inbound then refuse QrLowPriorityShed s
                else case capacity_violations s queue item_count of
                       (own, shared) \<Rightarrow>
                         (if own \<or> shared then overflow_batch at inbound queue own s
                          else enqueue_batch at inbound s)
              }))"

section \<open>Draining\<close>

definition empty_report :: "nat \<Rightarrow> drain_report" where
  "empty_report dropped =
     \<lparr>rp_merged = 0, rp_merged_batches = [], rp_dropped_obsolete = dropped, rp_merge_rejected = []\<rparr>"

text \<open>The two arms after \<open>aggregator.accept\<close>.\<close>

definition note_merge_result ::
  "u64 \<Rightarrow> plugin_id \<Rightarrow> entry \<Rightarrow> reject_reason + unit \<Rightarrow> inbound_result_queue \<times> drain_report
   \<Rightarrow> (inbound_result_queue \<times> drain_report) option" where
  "note_merge_result at plugin e result sr =
     (case sr of (s, report) \<Rightarrow>
       let g = en_generation e; state = rb_state (ib_batch (en_inbound e)) in
       case result of
         Inr _ \<Rightarrow>
           Some (intake_event at plugin g (EvMerged (en_items e)) (count_intake dx_merged dx_merged_update 1 s),
                 report\<lparr>rp_merged := rp_merged report + 1,
                        rp_merged_batches := rp_merged_batches report @
                          [\<lparr>mb_plugin = plugin, mb_admitted_at = en_admitted_at e, mb_generation = g,
                            mb_state = state, mb_items = en_items e\<rparr>]\<rparr>)
       | Inl reason \<Rightarrow>
           do {
             s \<leftarrow> (if is_terminal state
                   then expect_queue plugin (\<lambda>q.
                          q\<lparr>pq_terminal_generation :=
                              (if pq_terminal_generation q = Some g then None else pq_terminal_generation q)\<rparr>) s
                   else Some s);
             let s = count_slot dx_merge_rejected dx_merge_rejected_update (merge_reject_index reason) s;
             Some (intake_event at plugin g (EvMergeRejected reason) s,
                   report\<lparr>rp_merge_rejected := rp_merge_rejected report @ [(plugin, reason)]\<rparr>)
           })"

text \<open>
  The inner loop for one plugin. The first argument counts down what is left of
  \<open>batches_per_plugin\<close>; \<open>handled\<close> and \<open>items\<close> are the plugin's own totals, and
  the last component counts the batches handled in the whole pass. \<open>None\<close> is a panic.
\<close>

fun drain_plugin ::
  "nat \<Rightarrow> ('a \<Rightarrow> result_batch \<Rightarrow> 'a \<times> (reject_reason + unit)) \<Rightarrow> u64 \<Rightarrow> drain_budget \<Rightarrow> plugin_id
   \<Rightarrow> nat \<Rightarrow> nat \<Rightarrow> inbound_result_queue \<times> 'a \<times> drain_report \<times> nat
   \<Rightarrow> (inbound_result_queue \<times> 'a \<times> drain_report \<times> nat) option" where
  "drain_plugin 0 accept at budget plugin handled items (s, sink, report, count) = Some (s, sink, report, count)"
| "drain_plugin (Suc n) accept at budget plugin handled items (s, sink, report, count) =
     (if dg_total_batches budget \<le> count then Some (s, sink, report, count)
      else case front_entry plugin s of
             None \<Rightarrow> Some (s, sink, report, count)
           | Some front \<Rightarrow>
               (if 0 < handled \<and> dg_items_per_plugin budget - items < en_items front
                then Some (s, sink, report, count)
                else case pop_entry plugin s of
                       None \<Rightarrow> None
                     | Some (s', e) \<Rightarrow>
                         (case accept sink (ib_batch (en_inbound e)) of
                            (sink', result) \<Rightarrow>
                              (case note_merge_result at plugin e result (s', report) of
                                 None \<Rightarrow> None
                               | Some (s'', report') \<Rightarrow>
                                   drain_plugin n accept at budget plugin (handled + 1)
                                     (usize_sat_add items (en_items front)) (s'', sink', report', count + 1)))))"

fun drain_round ::
  "('a \<Rightarrow> result_batch \<Rightarrow> 'a \<times> (reject_reason + unit)) \<Rightarrow> u64 \<Rightarrow> drain_budget \<Rightarrow> nat list
   \<Rightarrow> inbound_result_queue \<times> 'a \<times> drain_report \<times> nat \<Rightarrow> nat option
   \<Rightarrow> ((inbound_result_queue \<times> 'a \<times> drain_report \<times> nat) \<times> nat option) option" where
  "drain_round accept at budget [] st handled_last = Some (st, handled_last)"
| "drain_round accept at budget (index # rest) st handled_last =
     (case st of (s, sink, report, count) \<Rightarrow>
       if dg_total_batches budget \<le> count then Some (st, handled_last)
       else if length (iq_order s) \<le> index then None
       else
         do {
           st' \<leftarrow> drain_plugin (dg_batches_per_plugin budget) accept at budget (iq_order s ! index) 0 0 st;
           drain_round accept at budget rest st'
             (if count < snd (snd (snd st')) then Some index else handled_last)
         })"

fun reconcile_each ::
  "u64 \<Rightarrow> generation \<Rightarrow> plugin_id list \<Rightarrow> inbound_result_queue \<Rightarrow> inbound_result_queue option" where
  "reconcile_each at g [] s = Some s"
| "reconcile_each at g (plugin # plugins) s =
     do { s \<leftarrow> reconcile_producer at g plugin s; reconcile_each at g plugins s }"

definition drain_into ::
  "('a \<Rightarrow> result_batch \<Rightarrow> 'a \<times> (reject_reason + unit)) \<Rightarrow> u64 \<Rightarrow> drain_budget
   \<Rightarrow> inbound_result_queue \<Rightarrow> 'a \<Rightarrow> (inbound_result_queue \<times> 'a \<times> drain_report) option" where
  "drain_into accept at budget s sink =
     do {
       (s, dropped) \<leftarrow> reclaim_obsolete at s;
       let plugin_count = length (iq_order s);
       if plugin_count = 0 then Some (s, sink, empty_report dropped)
       else do {
         let start = iq_drain_cursor s mod plugin_count;
         ((s, sink, report, count), last_handled) \<leftarrow>
           drain_round accept at budget (map (\<lambda>offset. (start + offset) mod plugin_count) [0..<plugin_count])
             (s, sink, empty_report dropped, 0) None;
         let cursor = (case last_handled of
                         Some index \<Rightarrow> if dg_total_batches budget \<le> count then (index + 1) mod plugin_count
                                      else (start + 1) mod plugin_count
                       | None \<Rightarrow> if 0 < dg_total_batches budget then (start + 1) mod plugin_count
                                else iq_drain_cursor s);
         let s = s\<lparr>iq_drain_cursor := cursor\<rparr>;
         let transition = (case iq_active s of Some g \<Rightarrow> g | None \<Rightarrow> iq_retirement_floor s);
         s \<leftarrow> reconcile_each at transition (iq_order s) s;
         Some (s, sink, report)
       }
     }"

end
