(* ===== verification/Intake_Inv.thy ===== *)
theory Intake_Inv
  imports Intake
begin

text \<open>
  The invariant of the intake queue: the totals are exact and within the boundary limits,
  every queue holds its own plugin's batches in order of generation and none from the
  future, and the event ring is bounded. It holds in every reachable state.
\<close>

section \<open>The invariant\<close>

definition iq_gate :: "inbound_result_queue \<Rightarrow> gate" where
  "iq_gate s = (iq_active s, iq_retirement_floor s)"

interpretation iq_gates: generation_gate iq_gate intake_begin_generation intake_retire_before
  by unfold_locales
    (auto simp: iq_gate_def intake_begin_generation_def intake_retire_before_def gate_begin_def gate_retire_def
      Let_def split: option.splits)

lemma push_event_entries:
  assumes "0 < ql_capacity_batches (iq_limits s)" and "length (iq_events s) \<le> ql_capacity_batches (iq_limits s)"
  shows "iq_events (push_event e s)
    = drop (Suc (length (iq_events s)) - ql_capacity_batches (iq_limits s)) (iq_events s @ [e])"
proof (cases "length (iq_events s) = ql_capacity_batches (iq_limits s)")
  case True
  with assms show ?thesis by (cases "iq_events s") (auto simp: push_event_def Let_def)
next
  case False
  with assms have "Suc (length (iq_events s)) \<le> ql_capacity_batches (iq_limits s)" by simp
  then show ?thesis by (simp add: push_event_def Let_def)
qed

interpretation event_ring: bounded_log iq_events "\<lambda>s. ql_capacity_batches (iq_limits s)" push_event
  by unfold_locales (simp_all add: push_event_entries)

definition gate_admits :: "gate \<Rightarrow> generation \<Rightarrow> bool" where
  "gate_admits gt g = (case fst gt of Some a \<Rightarrow> g \<le> a | None \<Rightarrow> g < snd gt)"

definition intake_policy_ok :: "intake_policy \<Rightarrow> bool" where
  "intake_policy_ok p \<longleftrightarrow>
     0 < ip_pause_at_batches p \<and> ip_pause_at_batches p \<le> ip_capacity_batches p
     \<and> ip_resume_at_batches p < ip_pause_at_batches p"

definition queue_ok :: "gate \<Rightarrow> plugin_id \<Rightarrow> plugin_queue \<Rightarrow> bool" where
  "queue_ok gt p q \<longleftrightarrow>
     intake_policy_ok (pq_policy q)
     \<and> pq_items q = sum_list (map en_items (pq_entries q))
     \<and> sorted (map en_generation (pq_entries q))
     \<and> list_all (\<lambda>e. gate_admits gt (en_generation e) \<and> rb_plugin (ib_batch (en_inbound e)) = p) (pq_entries q)"

definition entry_total :: "inbound_result_queue \<Rightarrow> nat" where
  "entry_total s = (\<Sum>(_, q) \<leftarrow> iq_plugins s. length (pq_entries q))"

definition item_total :: "inbound_result_queue \<Rightarrow> nat" where
  "item_total s = (\<Sum>(_, q) \<leftarrow> iq_plugins s. pq_items q)"

definition intake_ok :: "inbound_result_queue \<Rightarrow> bool" where
  "intake_ok s \<longleftrightarrow>
     distinct (map fst (iq_plugins s)) \<and> distinct (iq_order s) \<and> set (iq_order s) = fst ` set (iq_plugins s)
     \<and> list_all (\<lambda>(p, q). queue_ok (iq_gate s) p q) (iq_plugins s)
     \<and> iq_total_batches s = entry_total s \<and> iq_total_items s = item_total s
     \<and> entry_total s \<le> ql_capacity_batches (iq_limits s) \<and> item_total s \<le> ql_capacity_items (iq_limits s)
     \<and> length (iq_events s) \<le> ql_capacity_batches (iq_limits s)
     \<and> gate_ok (iq_gate s)"

text \<open>A hushed change touches diagnostics and events only, and keeps the event ring bounded.\<close>

definition hushed :: "inbound_result_queue \<Rightarrow> inbound_result_queue \<Rightarrow> bool" where
  "hushed s s' \<longleftrightarrow>
     iq_limits s' = iq_limits s \<and> iq_retirement_floor s' = iq_retirement_floor s \<and> iq_active s' = iq_active s
     \<and> iq_plugins s' = iq_plugins s \<and> iq_order s' = iq_order s \<and> iq_drain_cursor s' = iq_drain_cursor s
     \<and> iq_total_batches s' = iq_total_batches s \<and> iq_total_items s' = iq_total_items s
     \<and> (length (iq_events s) \<le> ql_capacity_batches (iq_limits s) \<longrightarrow>
          length (iq_events s') \<le> ql_capacity_batches (iq_limits s))"

lemma hushed_refl [simp, intro]: "hushed s s"
  by (simp add: hushed_def)

lemma hushed_trans [trans]: "hushed s t \<Longrightarrow> hushed t u \<Longrightarrow> hushed s u"
  by (simp add: hushed_def)

lemma hushed_count [intro]: "hushed s (count_intake get upd n s)" "hushed s (count_slot get2 upd2 n s)"
  by (simp_all add: hushed_def)

lemma hushed_push_event [intro]: "hushed s (push_event e s)"
  by (auto simp: hushed_def push_event_def Let_def)

lemma hushed_event [intro]: "hushed s (intake_event at p g kind s)"
  unfolding intake_event_def by (rule hushed_push_event)

lemma hushed_reject [intro]: "hushed s (intake_reject at p g reason s)"
  unfolding intake_reject_def by (rule hushed_trans [OF hushed_count(2) hushed_event])

lemma hushed_fold: "(\<And>x s. hushed s (f x s)) \<Longrightarrow> hushed s (fold f xs s)"
  by (induction xs arbitrary: s) (auto intro: hushed_trans)

lemma hushed_ok: "hushed s s' \<Longrightarrow> intake_ok s \<Longrightarrow> intake_ok s'"
  by (simp add: hushed_def intake_ok_def entry_total_def item_total_def iq_gate_def)

lemma intake_ok_lookup: "intake_ok s \<Longrightarrow> map_of (iq_plugins s) p = Some q \<Longrightarrow> queue_ok (iq_gate s) p q"
  by (auto simp: intake_ok_def list_all_iff dest: map_of_SomeD)

lemma list_all_adjust:
  "list_all (\<lambda>(k, v). P k v) m \<Longrightarrow> (\<And>v. P k v \<Longrightarrow> P k (f v)) \<Longrightarrow> list_all (\<lambda>(k, v). P k v) (adjust k f m)"
  by (induction m) (auto simp: adjust_def)

lemma list_all_adjust_at:
  assumes "list_all (\<lambda>(k, v). P k v) m" and "distinct (map fst m)"
    and "\<And>v. map_of m k = Some v \<Longrightarrow> P k v \<Longrightarrow> P k (f v)"
  shows "list_all (\<lambda>(k, v). P k v) (adjust k f m)"
  using assms by (fastforce simp: adjust_def list_all_iff)

lemma set_keys_adjust: "fst ` set (adjust k f m) = fst ` set m"
  by (metis keys_adjust list.set_map)

lemma entry_total_modify:
  "distinct (map fst (iq_plugins s)) \<Longrightarrow> map_of (iq_plugins s) p = Some q \<Longrightarrow>
   entry_total (modify_queue p f s) + length (pq_entries q) = entry_total s + length (pq_entries (f q))"
  unfolding entry_total_def modify_queue_fields by (rule sum_values_adjust)

lemma item_total_modify:
  "distinct (map fst (iq_plugins s)) \<Longrightarrow> map_of (iq_plugins s) p = Some q \<Longrightarrow>
   item_total (modify_queue p f s) + pq_items q = item_total s + pq_items (f q)"
  unfolding item_total_def modify_queue_fields by (rule sum_values_adjust)

lemma totals_ge:
  "map_of (iq_plugins s) p = Some q \<Longrightarrow> length (pq_entries q) \<le> entry_total s \<and> pq_items q \<le> item_total s"
  unfolding entry_total_def item_total_def
  using value_le_sum_values [of "iq_plugins s" p q "\<lambda>q. length (pq_entries q)"]
    value_le_sum_values [of "iq_plugins s" p q pq_items] by simp

text \<open>A change of a plugin's producer state, policy or terminal mark only.\<close>

lemma intake_ok_relabel:
  assumes "intake_ok s"
    and "\<And>q. pq_entries (f q) = pq_entries q \<and> pq_items (f q) = pq_items q"
    and "\<And>q. intake_policy_ok (pq_policy q) \<Longrightarrow> intake_policy_ok (pq_policy (f q))"
  shows "intake_ok (modify_queue p f s)"
proof -
  have sums: "entry_total (modify_queue p f s) = entry_total s" "item_total (modify_queue p f s) = item_total s"
    using assms(1) entry_total_modify [of s p _ f] item_total_modify [of s p _ f] assms(2)
    by (cases "map_of (iq_plugins s) p"; auto simp: intake_ok_def entry_total_def item_total_def adjust_absent)+
  have "list_all (\<lambda>(p, q). queue_ok (iq_gate s) p q) (adjust p f (iq_plugins s))"
    using assms by (intro list_all_adjust) (auto simp: intake_ok_def queue_ok_def)
  then show ?thesis
    using assms(1) sums by (simp add: intake_ok_def set_keys_adjust iq_gate_def)
qed

section \<open>Popping\<close>

lemma pop_entry_ok:
  assumes ok: "intake_ok s" and pop: "pop_entry p s = Some (s', e)"
  shows "intake_ok s'"
    and "iq_total_batches s = Suc (iq_total_batches s')" and "iq_total_items s = iq_total_items s' + en_items e"
    and "iq_active s' = iq_active s \<and> iq_retirement_floor s' = iq_retirement_floor s \<and> iq_limits s' = iq_limits s
      \<and> iq_order s' = iq_order s \<and> iq_drain_cursor s' = iq_drain_cursor s"
    and "gate_admits (iq_gate s) (en_generation e)" and "rb_plugin (ib_batch (en_inbound e)) = p"
    and "\<exists>q rest. map_of (iq_plugins s) p = Some q \<and> pq_entries q = e # rest
      \<and> map_of (iq_plugins s') p = Some (q\<lparr>pq_entries := rest, pq_items := pq_items q - en_items e\<rparr>)"
    and "k \<noteq> p \<Longrightarrow> map_of (iq_plugins s') k = map_of (iq_plugins s) k"
proof -
  from pop obtain q rest where at: "map_of (iq_plugins s) p = Some q" and q: "pq_entries q = e # rest"
    by (auto simp: pop_entry_def split: option.splits list.splits Option.bind_splits)
  define f where "f = (\<lambda>r :: plugin_queue. r\<lparr>pq_entries := rest, pq_items := pq_items q - en_items e\<rparr>)"
  have s': "s' = (modify_queue p f s)\<lparr>iq_total_batches := iq_total_batches s - 1, iq_total_items := iq_total_items s - en_items e\<rparr>"
    using pop at q by (auto simp: pop_entry_def f_def split: Option.bind_splits)
  have qok: "queue_ok (iq_gate s) p q" by (rule intake_ok_lookup [OF ok at])
  then have items: "pq_items q = en_items e + sum_list (map en_items rest)" by (simp add: queue_ok_def q)
  have dist: "distinct (map fst (iq_plugins s))" using ok by (simp add: intake_ok_def)
  have sums: "entry_total s = Suc (entry_total (modify_queue p f s))"
    "item_total s = item_total (modify_queue p f s) + en_items e"
    using entry_total_modify [OF dist at, of f] item_total_modify [OF dist at, of f] items by (simp_all add: f_def q)
  have totals: "iq_total_batches s = entry_total s" "iq_total_items s = item_total s"
    using ok by (simp_all add: intake_ok_def)
  have all: "list_all (\<lambda>(p, q). queue_ok (iq_gate s) p q) (adjust p f (iq_plugins s))"
    using ok dist qok at q items
    by (intro list_all_adjust_at) (auto simp: intake_ok_def queue_ok_def f_def)
  show "intake_ok s'"
    using ok all sums totals unfolding s'
    by (simp add: intake_ok_def set_keys_adjust iq_gate_def entry_total_def item_total_def)
  show "iq_total_batches s = Suc (iq_total_batches s')" and "iq_total_items s = iq_total_items s' + en_items e"
    unfolding s' using sums totals by simp_all
  show "iq_active s' = iq_active s \<and> iq_retirement_floor s' = iq_retirement_floor s \<and> iq_limits s' = iq_limits s
      \<and> iq_order s' = iq_order s \<and> iq_drain_cursor s' = iq_drain_cursor s"
    by (simp add: s')
  show "gate_admits (iq_gate s) (en_generation e)" and "rb_plugin (ib_batch (en_inbound e)) = p"
    using qok by (simp_all add: queue_ok_def q)
  show "\<exists>q rest. map_of (iq_plugins s) p = Some q \<and> pq_entries q = e # rest
      \<and> map_of (iq_plugins s') p = Some (q\<lparr>pq_entries := rest, pq_items := pq_items q - en_items e\<rparr>)"
    using at q by (simp add: s' f_def lookup_simps)
  show "k \<noteq> p \<Longrightarrow> map_of (iq_plugins s') k = map_of (iq_plugins s) k"
    by (simp add: s' lookup_simps)
qed

end
