(* ===== verification/Intake_Take.thy ===== *)
theory Intake_Take
  imports Intake_Inv
begin

text \<open>
  Taking entries off the queues. Reclamation, eviction and draining all do nothing to the
  queues but take entries from their fronts, besides bookkeeping: the relation \<open>took\<close>
  says so and which entries went, and what it keeps is proved once.
\<close>

section \<open>The relation\<close>

definition entries_of :: "inbound_result_queue \<Rightarrow> plugin_id \<Rightarrow> entry list" where
  "entries_of s p = (case map_of (iq_plugins s) p of None \<Rightarrow> [] | Some q \<Rightarrow> pq_entries q)"

text \<open>A mark changes a queue's producer state or terminal generation only.\<close>

definition marks :: "(plugin_queue \<Rightarrow> plugin_queue) \<Rightarrow> bool" where
  "marks f \<longleftrightarrow> (\<forall>q. pq_entries (f q) = pq_entries q \<and> pq_items (f q) = pq_items q \<and> pq_policy (f q) = pq_policy q)"

inductive took :: "inbound_result_queue \<Rightarrow> (plugin_id \<times> entry) list \<Rightarrow> inbound_result_queue \<Rightarrow> bool" where
  took_nothing: "took s [] s"
| took_hushed: "took s es t \<Longrightarrow> hushed t u \<Longrightarrow> took s es u"
| took_mark: "took s es t \<Longrightarrow> marks f \<Longrightarrow> took s es (modify_queue p f t)"
| took_turn: "took s es t \<Longrightarrow> took s es (t\<lparr>iq_drain_cursor := c\<rparr>)"
| took_pop: "took s es t \<Longrightarrow> pop_entry p t = Some (u, e) \<Longrightarrow> took s (es @ [(p, e)]) u"

lemma took_hush [intro]: "hushed s t \<Longrightarrow> took s [] t"
  by (rule took_hushed [OF took_nothing])

lemma took_trans: "took t fs u \<Longrightarrow> took s es t \<Longrightarrow> took s (es @ fs) u"
proof (induction rule: took.induct)
  case (took_pop s' es' t' p u e)
  then show ?case using took.took_pop [of s "es @ es'" t' p u e] by simp
qed (auto intro: took.intros)

lemmas took_Nil_trans = took_trans [where fs = "[]", simplified] took_trans [where es = "[]", simplified]

lemma marks_ok: "marks f \<Longrightarrow> intake_ok s \<Longrightarrow> intake_ok (modify_queue p f s)"
  by (rule intake_ok_relabel) (simp_all add: marks_def)

lemma turn_ok: "intake_ok s \<Longrightarrow> intake_ok (s\<lparr>iq_drain_cursor := c\<rparr>)"
  by (simp add: intake_ok_def entry_total_def item_total_def iq_gate_def)

lemma entries_of_simps:
  "hushed s t \<Longrightarrow> entries_of t p = entries_of s p"
  "marks f \<Longrightarrow> entries_of (modify_queue k f s) p = entries_of s p"
  "entries_of (s\<lparr>iq_drain_cursor := c\<rparr>) p = entries_of s p"
  by (auto simp: entries_of_def hushed_def lookup_simps marks_def split: option.splits)

lemma entries_of_pop:
  assumes "intake_ok s" and "pop_entry p s = Some (t, e)"
  shows "entries_of s k = (if k = p then e # entries_of t p else entries_of t k)"
proof (cases "k = p")
  case True
  with pop_entry_ok(7) [OF assms] show ?thesis by (auto simp: entries_of_def)
next
  case False
  with pop_entry_ok(8) [OF assms False] show ?thesis by (simp add: entries_of_def)
qed

section \<open>What taking keeps\<close>

text \<open>What an operation that only takes leaves alone: limits, gate, order, and the policies.\<close>

definition policy_of :: "inbound_result_queue \<Rightarrow> plugin_id \<Rightarrow> intake_policy option" where
  "policy_of s p = map_option pq_policy (map_of (iq_plugins s) p)"

definition same_frame :: "inbound_result_queue \<Rightarrow> inbound_result_queue \<Rightarrow> bool" where
  "same_frame s t \<longleftrightarrow>
     iq_limits t = iq_limits s \<and> iq_active t = iq_active s \<and> iq_retirement_floor t = iq_retirement_floor s
     \<and> iq_order t = iq_order s \<and> policy_of t = policy_of s"

lemma same_frame_refl [simp]: "same_frame s s"
  by (simp add: same_frame_def)

lemma same_frame_trans: "same_frame s t \<Longrightarrow> same_frame t u \<Longrightarrow> same_frame s u"
  by (simp add: same_frame_def)

lemma same_frame_steps:
  "hushed s t \<Longrightarrow> same_frame s t"
  "marks f \<Longrightarrow> same_frame s (modify_queue p f s)"
  "same_frame s (s\<lparr>iq_drain_cursor := c\<rparr>)"
  by (auto simp: same_frame_def hushed_def policy_of_def lookup_simps marks_def fun_eq_iff option.map_comp comp_def)

lemma same_frame_pop:
  assumes "intake_ok s" and "pop_entry p s = Some (t, e)"
  shows "same_frame s t"
proof -
  have "policy_of t k = policy_of s k" for k
  proof (cases "k = p")
    case True
    with pop_entry_ok(7) [OF assms] show ?thesis by (auto simp: policy_of_def)
  next
    case False
    with pop_entry_ok(8) [OF assms False] show ?thesis by (simp add: policy_of_def)
  qed
  with pop_entry_ok(4) [OF assms] show ?thesis by (simp add: same_frame_def fun_eq_iff)
qed

lemma took_ok:
  assumes "took s es t" and "intake_ok s"
  shows "intake_ok t \<and> same_frame s t \<and> iq_total_batches s = iq_total_batches t + length es
    \<and> iq_total_items s = iq_total_items t + (\<Sum>(p, e) \<leftarrow> es. en_items e)
    \<and> (\<forall>p. entries_of s p = map snd (filter (\<lambda>(k, e). k = p) es) @ entries_of t p)"
  using assms
proof (induction rule: took.induct)
  case (took_hushed s es t u)
  then show ?case
    using hushed_ok [of t u] same_frame_steps(1) [of t u] entries_of_simps(1) [of t u]
    by (auto simp: hushed_def intro: same_frame_trans)
next
  case (took_mark s es t f p)
  then show ?case
    using marks_ok [of f t p] same_frame_steps(2) [of f t p] entries_of_simps(2) [of f p t]
    by (auto intro: same_frame_trans)
next
  case (took_turn s es t c)
  then show ?case
    using turn_ok [of t c] same_frame_steps(3) [of t c] by (auto simp: entries_of_simps(3) intro: same_frame_trans)
next
  case (took_pop s es t p u e)
  then have ok: "intake_ok t" by simp
  note pop = pop_entry_ok [OF ok took_pop.hyps(2)] same_frame_pop [OF ok took_pop.hyps(2)]
    entries_of_pop [OF ok took_pop.hyps(2)]
  have "entries_of s k = map snd (filter (\<lambda>(j, e). j = k) (es @ [(p, e)])) @ entries_of u k" for k
    using took_pop.IH [OF took_pop.prems] pop(10) [of k] by simp
  with took_pop.IH [OF took_pop.prems] pop(1-4) pop(9) show ?case
    by (auto intro: same_frame_trans)
qed simp

lemmas took_frame = took_ok [THEN conjunct2, THEN conjunct1, unfolded same_frame_def]

lemma registered_iff: "policy_of s p = None \<longleftrightarrow> map_of (iq_plugins s) p = None"
  by (simp add: policy_of_def)

lemma took_registered:
  assumes "took s es t" and "intake_ok s" and "map_of (iq_plugins s) p = Some q"
  obtains q' where "map_of (iq_plugins t) p = Some q'" and "pq_policy q' = pq_policy q"
    and "pq_entries q' = entries_of t p" and "entries_of s p = pq_entries q"
proof -
  have "policy_of t p = policy_of s p" using took_ok [OF assms(1,2)] by (simp add: same_frame_def)
  then obtain q' where "map_of (iq_plugins t) p = Some q'" "pq_policy q' = pq_policy q"
    using assms(3) by (auto simp: policy_of_def)
  with that show ?thesis using assms(3) by (simp add: entries_of_def)
qed

text \<open>Producer states: bookkeeping and popping leave them alone.\<close>

definition state_of :: "inbound_result_queue \<Rightarrow> plugin_id \<Rightarrow> producer_state option" where
  "state_of s p = map_option pq_state (map_of (iq_plugins s) p)"

section \<open>Obsolete entries are a prefix\<close>

definition obsolete :: "inbound_result_queue \<Rightarrow> entry \<Rightarrow> bool" where
  "obsolete s e \<longleftrightarrow> iq_active s \<noteq> Some (en_generation e)"

definition live_of :: "inbound_result_queue \<Rightarrow> plugin_id \<Rightarrow> entry list" where
  "live_of s p = filter (\<lambda>e. \<not> obsolete s e) (entries_of s p)"

lemma sorted_live_suffix:
  assumes "sorted (map f xs)" and "\<And>x. x \<in> set xs \<Longrightarrow> f x \<le> a"
  shows "dropWhile (\<lambda>x. f x \<noteq> a) xs = filter (\<lambda>x. f x = a) xs"
  using assms
proof (induction xs)
  case (Cons x xs)
  show ?case
  proof (cases "f x = a")
    case True
    with Cons.prems have "\<forall>y \<in> set xs. f y = a" by (fastforce intro: antisym)
    with True show ?thesis by simp
  qed (use Cons in simp)
qed simp

lemma queue_entries_ok:
  assumes "intake_ok s"
  shows "sorted (map en_generation (entries_of s p))"
    and "e \<in> set (entries_of s p) \<Longrightarrow> gate_admits (iq_gate s) (en_generation e)"
    and "e \<in> set (entries_of s p) \<Longrightarrow> rb_plugin (ib_batch (en_inbound e)) = p"
  using intake_ok_lookup [OF assms, of p]
  by (cases "map_of (iq_plugins s) p"; simp add: entries_of_def queue_ok_def list_all_iff)+

lemma obsolete_prefix:
  assumes "intake_ok s"
  shows "dropWhile (obsolete s) (entries_of s p) = live_of s p"
proof (cases "iq_active s")
  case None
  then show ?thesis by (simp add: obsolete_def live_of_def)
next
  case (Some a)
  have "obsolete s = (\<lambda>e. en_generation e \<noteq> a)" by (auto simp: obsolete_def Some)
  moreover have "en_generation e \<le> a" if "e \<in> set (entries_of s p)" for e
    using queue_entries_ok(2) [OF assms that] by (simp add: gate_admits_def iq_gate_def Some)
  ultimately show ?thesis
    using sorted_live_suffix [OF queue_entries_ok(1) [OF assms, of p], of a] by (simp add: live_of_def)
qed

section \<open>Reclamation\<close>

lemma front_entry_eq: "front_entry p s = (case entries_of s p of [] \<Rightarrow> None | e # _ \<Rightarrow> Some e)"
  by (simp add: front_entry_def entries_of_def split: option.splits)

lemma front_obsolete_iff:
  "front_obsolete active p s \<longleftrightarrow> (\<exists>e rest. entries_of s p = e # rest \<and> active \<noteq> Some (en_generation e))"
  by (auto simp: front_obsolete_def front_entry_eq split: option.splits list.splits)

text \<open>While the totals are exact, popping an entry that is there does not panic.\<close>

lemma pop_entry_Some:
  assumes "intake_ok s" and "entries_of s p = e # rest"
  shows "\<exists>t. pop_entry p s = Some (t, e)"
proof -
  obtain q where q: "map_of (iq_plugins s) p = Some q" "pq_entries q = e # rest"
    using assms(2) by (auto simp: entries_of_def split: option.splits)
  have "en_items e \<le> pq_items q" using intake_ok_lookup [OF assms(1) q(1)] by (simp add: queue_ok_def q(2))
  moreover have "0 < iq_total_batches s" "pq_items q \<le> iq_total_items s"
    using totals_ge [OF q(1)] assms(1) by (simp_all add: intake_ok_def q(2))
  ultimately show ?thesis by (simp add: pop_entry_def q usize_minus_def)
qed

lemma reclaim_front_took:
  assumes "intake_ok s" and "iq_active s = active"
  shows "\<exists>t records'. reclaim_front active p s records dropped
      = Some (t, records', dropped + length (takeWhile (obsolete s) (entries_of s p)))
    \<and> took s (map (Pair p) (takeWhile (obsolete s) (entries_of s p))) t"
  using assms
proof (induction active p s records dropped rule: reclaim_front.induct)
  case (1 active p s records dropped)
  show ?case
  proof (cases "front_obsolete active p s")
    case True
    then obtain e rest where e: "entries_of s p = e # rest" "active \<noteq> Some (en_generation e)"
      by (auto simp: front_obsolete_iff)
    then obtain u where u: "pop_entry p s = Some (u, e)" using pop_entry_Some [OF "1.prems"(1)] by blast
    have act: "iq_active u = active" using pop_entry_ok(4) [OF "1.prems"(1) u] "1.prems"(2) by simp
    have ent: "entries_of u p = rest" using entries_of_pop [OF "1.prems"(1) u, of p] e(1) by simp
    have obs: "obsolete u = obsolete s" "obsolete s e" using act "1.prems"(2) e(2) by (auto simp: obsolete_def fun_eq_iff)
    have step: "reclaim_front active p s records dropped = reclaim_front active p u (note_record p e records) (dropped + 1)"
      using True u by (simp add: reclaim_front.simps [of active p s])
    from "1.IH" [OF _ u refl pop_entry_ok(1) [OF "1.prems"(1) u] act] True obtain t records' where
      "reclaim_front active p u (note_record p e records) (dropped + 1)
        = Some (t, records', dropped + 1 + length (takeWhile (obsolete s) rest))"
      and "took u (map (Pair p) (takeWhile (obsolete s) rest)) t" by (auto simp: obs ent)
    with took_trans [OF _ took_pop [OF took_nothing u]] obs e(1) show ?thesis by (simp add: step)
  next
    case False
    moreover have "takeWhile (obsolete s) (entries_of s p) = []"
      using False "1.prems"(2) by (cases "entries_of s p") (auto simp: front_obsolete_iff obsolete_def)
    ultimately show ?thesis by (simp add: took_nothing reclaim_front.simps [of active p s])
  qed
qed

lemma reclaim_front_entries:
  assumes ok: "intake_ok s" and took: "took s (map (Pair p) (takeWhile (obsolete s) (entries_of s p))) t"
  shows "entries_of t k = (if k = p then live_of s p else entries_of s k)"
proof -
  have eq: "entries_of s k = map snd (filter (\<lambda>(j, e). j = k) (map (Pair p) (takeWhile (obsolete s) (entries_of s p)))) @ entries_of t k"
    for k using took_ok [OF took ok] by blast
  show ?thesis
  proof (cases "k = p")
    case True
    have "takeWhile (obsolete s) (entries_of s p) @ live_of s p = entries_of s p"
      by (simp add: obsolete_prefix [OF ok, symmetric])
    also have "\<dots> = takeWhile (obsolete s) (entries_of s p) @ entries_of t p"
      using eq [of p] by (simp add: filter_map comp_def)
    finally show ?thesis using True by simp
  next
    case False
    with eq [of k] show ?thesis by (simp add: filter_map comp_def)
  qed
qed

lemma live_of_frame: "same_frame s t \<Longrightarrow> live_of t p = filter (\<lambda>e. \<not> obsolete s e) (entries_of t p)"
  by (simp add: live_of_def obsolete_def same_frame_def)

lemma reclaim_each_took:
  assumes "intake_ok s" and "iq_active s = active"
  shows "\<exists>es t records'. reclaim_each active ps s records dropped = Some (t, records', dropped + length es)
    \<and> took s es t \<and> list_all (\<lambda>(p, e). obsolete s e) es
    \<and> (\<forall>k. entries_of t k = (if k \<in> set ps then live_of s k else entries_of s k))"
  using assms
proof (induction ps arbitrary: s records dropped)
  case Nil
  then show ?case by (intro exI [of _ "[]"]) (simp add: took_nothing)
next
  case (Cons p ps)
  define xs where "xs = map (Pair p) (takeWhile (obsolete s) (entries_of s p))"
  from reclaim_front_took [OF Cons.prems, of p records dropped] obtain u records1 where
    u: "reclaim_front active p s records dropped = Some (u, records1, dropped + length xs)" "took s xs u"
    by (auto simp: xs_def)
  note ok = took_ok [OF u(2) Cons.prems(1)]
  have obs: "obsolete u = obsolete s" using ok by (simp add: obsolete_def same_frame_def fun_eq_iff)
  from Cons.IH [of u records1 "dropped + length xs"] ok Cons.prems obtain es t records' where
    es: "reclaim_each active ps u records1 (dropped + length xs) = Some (t, records', dropped + length xs + length es)"
    "took u es t" "list_all (\<lambda>(p, e). obsolete u e) es"
    "\<forall>k. entries_of t k = (if k \<in> set ps then live_of u k else entries_of u k)"
    by (auto simp: same_frame_def)
  have "list_all (\<lambda>(p, e). obsolete s e) xs" by (auto simp: xs_def list_all_iff dest: set_takeWhileD)
  moreover have "entries_of t k = (if k \<in> set (p # ps) then live_of s k else entries_of s k)" for k
    using es(4) reclaim_front_entries [OF Cons.prems(1) u(2) [unfolded xs_def], of k]
    by (auto simp: live_of_def obs)
  ultimately show ?case
    using took_trans [OF es(2) u(2)] u(1) es(1,3) obs
    by (intro exI [of _ "xs @ es"] exI [of _ t] exI [of _ records']) (simp add: add.assoc)
qed

lemma registered_in_order: "intake_ok s \<Longrightarrow> p \<notin> set (iq_order s) \<Longrightarrow> map_of (iq_plugins s) p = None"
  by (simp add: intake_ok_def map_of_eq_None_iff)

text \<open>Reclaiming does not panic, takes exactly what is obsolete and leaves the cursor alone.\<close>

lemma pop_entry_cursor: "pop_entry p s = Some (t, e) \<Longrightarrow> iq_drain_cursor t = iq_drain_cursor s"
  by (auto simp: pop_entry_def split: option.splits list.splits Option.bind_splits)

lemma reclaim_front_cursor:
  "reclaim_front active p s records dropped = Some (t, r) \<Longrightarrow> iq_drain_cursor t = iq_drain_cursor s"
proof (induction active p s records dropped rule: reclaim_front.induct)
  case (1 active p s records dropped)
  then show ?case
    by (cases "front_obsolete active p s")
      (auto simp: reclaim_front.simps [of active p s] pop_entry_cursor split: option.splits)
qed

lemma reclaim_each_cursor:
  "reclaim_each active ps s records dropped = Some (t, r) \<Longrightarrow> iq_drain_cursor t = iq_drain_cursor s"
  by (induction active ps s records dropped rule: reclaim_each.induct)
    (auto dest: reclaim_front_cursor split: Option.bind_splits)

lemma reclaim_obsolete_took:
  assumes ok: "intake_ok s"
  obtains t es where "reclaim_obsolete at s = Some (t, length es)" "took s es t"
    "list_all (\<lambda>(p, e). obsolete s e) es" "\<And>p. entries_of t p = live_of s p"
    "iq_drain_cursor t = iq_drain_cursor s"
proof -
  from reclaim_each_took [OF ok refl, of "iq_order s" "[]" 0] obtain es u records where
    es: "reclaim_each (iq_active s) (iq_order s) s [] 0 = Some (u, records, length es)" "took s es u"
    "list_all (\<lambda>(p, e). obsolete s e) es"
    "\<forall>k. entries_of u k = (if k \<in> set (iq_order s) then live_of s k else entries_of s k)" by auto
  define t where "t = fold (\<lambda>(plugin, g, batches, items). intake_event at plugin g (EvDroppedObsolete batches items)) records
      (count_intake dx_dropped_obsolete dx_dropped_obsolete_update (length es) u)"
  have "hushed v (fold (\<lambda>(plugin, g, batches, items). intake_event at plugin g (EvDroppedObsolete batches items)) records v)"
    for v by (rule hushed_fold) (auto split: prod.splits)
  then have hush: "hushed u t" unfolding t_def by (rule hushed_trans [OF hushed_count(1)])
  have rc: "reclaim_obsolete at s = Some (t, length es)" by (simp add: reclaim_obsolete_def es(1) t_def)
  have took: "took s es t" and ent: "entries_of t p = entries_of u p" for p
    using es(2) hush by (auto intro: took_hushed simp: entries_of_simps)
  have "entries_of t p = live_of s p" for p
    using es(4) ent [of p] registered_in_order [OF ok, of p] by (auto simp: entries_of_def live_of_def)
  moreover have "iq_drain_cursor t = iq_drain_cursor s"
    using hush reclaim_each_cursor [OF es(1)] by (simp add: hushed_def)
  ultimately show ?thesis using that rc took es(3) by blast
qed

end
