(* ===== verification/Intake_Submit.thy ===== *)
theory Intake_Submit
  imports Intake_Take
begin

text \<open>
  Submitting to the intake. The decision is compared with a reference that looks at the
  entries of the active generation only: what is obsolete never costs a live batch its
  place, although the code reclaims it only when it has to.
\<close>

section \<open>Room\<close>

definition items_in :: "entry list \<Rightarrow> nat" where
  "items_in xs = (\<Sum>e \<leftarrow> xs. en_items e)"

text \<open>
  Room for one more batch of \<open>n\<close> items in a queue that holds \<open>xs\<close>: within the plugin's own
  policy, and within the shared limits beside \<open>ob\<close> batches and \<open>oi\<close> items of others.
\<close>

definition own_room :: "intake_policy \<Rightarrow> nat \<Rightarrow> entry list \<Rightarrow> bool" where
  "own_room pol n xs \<longleftrightarrow>
     1 \<le> ip_capacity_batches pol - length xs \<and> n \<le> ip_capacity_items pol - items_in xs"

definition shared_room :: "queue_limits \<Rightarrow> nat \<times> nat \<Rightarrow> nat \<Rightarrow> entry list \<Rightarrow> bool" where
  "shared_room lim others n xs \<longleftrightarrow>
     1 \<le> ql_capacity_batches lim - (fst others + length xs) \<and> n \<le> ql_capacity_items lim - (snd others + items_in xs)"

definition room :: "intake_policy \<Rightarrow> queue_limits \<Rightarrow> nat \<times> nat \<Rightarrow> nat \<Rightarrow> entry list \<Rightarrow> bool" where
  "room pol lim others n xs \<longleftrightarrow> own_room pol n xs \<and> shared_room lim others n xs"

text \<open>The longest suffix that satisfies \<open>P\<close>.\<close>

fun shrink :: "('a list \<Rightarrow> bool) \<Rightarrow> 'a list \<Rightarrow> 'a list" where
  "shrink P [] = []"
| "shrink P (x # xs) = (if P (x # xs) then x # xs else shrink P xs)"

lemma shrink_id: "P xs \<Longrightarrow> shrink P xs = xs"
  by (cases xs) auto

lemma shrink_suffix: "\<exists>ys. xs = ys @ shrink P xs"
  by (induction xs) (auto, metis append_Cons)

definition others_of :: "inbound_result_queue \<Rightarrow> (plugin_id \<Rightarrow> entry list) \<Rightarrow> plugin_id \<Rightarrow> nat \<times> nat" where
  "others_of s xs p =
     ((\<Sum>k \<leftarrow> filter (\<lambda>k. k \<noteq> p) (iq_order s). length (xs k)),
      (\<Sum>k \<leftarrow> filter (\<lambda>k. k \<noteq> p) (iq_order s). items_in (xs k)))"

lemma sum_values_keys:
  "distinct (map fst m) \<Longrightarrow>
   (\<Sum>(_, x) \<leftarrow> m. g x) = (\<Sum>k \<leftarrow> map fst m. case map_of m k of None \<Rightarrow> 0 | Some x \<Rightarrow> (g x :: nat))"
proof (induction m)
  case (Cons kv m)
  obtain k x where kv: "kv = (k, x)" by (cases kv)
  have "(\<Sum>j \<leftarrow> map fst m. case map_of (kv # m) j of None \<Rightarrow> 0 | Some x \<Rightarrow> g x)
      = (\<Sum>j \<leftarrow> map fst m. case map_of m j of None \<Rightarrow> 0 | Some x \<Rightarrow> g x)"
    using Cons.prems kv by (intro arg_cong [of _ _ sum_list] map_cong) auto
  with Cons kv show ?case by simp
qed simp

lemma totals_by_order:
  assumes "intake_ok s"
  shows "iq_total_batches s = (\<Sum>k \<leftarrow> iq_order s. length (entries_of s k))"
    and "iq_total_items s = (\<Sum>k \<leftarrow> iq_order s. items_in (entries_of s k))"
proof -
  have order: "sum_list (map (g \<circ> fst) (iq_plugins s)) = (\<Sum>k \<leftarrow> iq_order s. (g k :: nat))" for g
    using sum_list_distinct_conv_sum_set [of "map fst (iq_plugins s)" g]
      sum_list_distinct_conv_sum_set [of "iq_order s" g] assms by (simp add: intake_ok_def)
  have dist: "distinct (map fst (iq_plugins s))" using assms by (simp add: intake_ok_def)
  have "(case map_of (iq_plugins s) k of None \<Rightarrow> 0 | Some q \<Rightarrow> length (pq_entries q)) = length (entries_of s k)" for k
    by (simp add: entries_of_def split: option.splits)
  with sum_values_keys [OF dist, of "\<lambda>q. length (pq_entries q)"]
  show "iq_total_batches s = (\<Sum>k \<leftarrow> iq_order s. length (entries_of s k))"
    using assms by (simp add: intake_ok_def entry_total_def order)
  have "(case map_of (iq_plugins s) k of None \<Rightarrow> 0 | Some q \<Rightarrow> pq_items q) = items_in (entries_of s k)" for k
    using intake_ok_lookup [OF assms, of k]
    by (cases "map_of (iq_plugins s) k") (simp_all add: entries_of_def items_in_def queue_ok_def)
  with sum_values_keys [OF dist, of pq_items]
  show "iq_total_items s = (\<Sum>k \<leftarrow> iq_order s. items_in (entries_of s k))"
    using assms by (simp add: intake_ok_def item_total_def order)
qed

lemma sum_list_filter_out:
  "distinct xs \<Longrightarrow> p \<in> set xs \<Longrightarrow> (\<Sum>k \<leftarrow> xs. g k) = g p + (\<Sum>k \<leftarrow> filter (\<lambda>k. k \<noteq> p) xs. (g k :: nat))"
proof (induction xs)
  case (Cons x xs)
  show ?case
  proof (cases "x = p")
    case True
    with Cons.prems have "filter (\<lambda>k. k \<noteq> p) xs = xs" by (auto intro: filter_True)
    with True show ?thesis by simp
  qed (use Cons in simp)
qed simp

lemma totals_split:
  assumes "intake_ok s" and "map_of (iq_plugins s) p = Some q"
  shows "iq_total_batches s = fst (others_of s (entries_of s) p) + length (pq_entries q)"
    and "iq_total_items s = snd (others_of s (entries_of s) p) + pq_items q"
    and "pq_items q = items_in (pq_entries q)"
proof -
  have p: "p \<in> set (iq_order s)" and dist: "distinct (iq_order s)"
    using assms registered_in_order [OF assms(1), of p] by (auto simp: intake_ok_def)
  have ent: "entries_of s p = pq_entries q" by (simp add: entries_of_def assms(2))
  show items: "pq_items q = items_in (pq_entries q)"
    using intake_ok_lookup [OF assms] by (simp add: queue_ok_def items_in_def)
  show "iq_total_batches s = fst (others_of s (entries_of s) p) + length (pq_entries q)"
    and "iq_total_items s = snd (others_of s (entries_of s) p) + pq_items q"
    using totals_by_order [OF assms(1)] sum_list_filter_out [OF dist p] by (simp_all add: others_of_def ent items)
qed

abbreviation policy_room :: "inbound_result_queue \<Rightarrow> plugin_queue \<Rightarrow> plugin_id \<Rightarrow> nat \<Rightarrow> entry list \<Rightarrow> bool" where
  "policy_room s q p \<equiv> room (pq_policy q) (iq_limits s) (others_of s (entries_of s) p)"

lemma capacity_violations_room:
  assumes "intake_ok s" and "map_of (iq_plugins s) p = Some q"
  shows "capacity_violations s q n =
    (\<not> own_room (pq_policy q) n (pq_entries q),
     \<not> shared_room (iq_limits s) (others_of s (entries_of s) p) n (pq_entries q))"
  using totals_split [OF assms]
  by (auto simp: capacity_violations_def own_room_def shared_room_def exceeds_def not_less)

lemma is_full_room:
  assumes "intake_ok s" and "map_of (iq_plugins s) p = Some q"
  shows "is_full s p n = Some (\<not> policy_room s q p n (pq_entries q))"
  using capacity_violations_room [OF assms] assms(2) by (simp add: is_full_def room_def)

lemma preflight_room:
  assumes "intake_ok s" and "map_of (iq_plugins s) p = Some q"
  shows "replacement_preflight s q n = Some
    (if \<not> own_room (pq_policy q) n [] then Inl QrQueueFull
     else if \<not> shared_room (iq_limits s) (others_of s (entries_of s) p) n [] then Inl QrBoundaryFull else Inr ())"
  using totals_split [OF assms]
  by (auto simp: replacement_preflight_def own_room_def shared_room_def exceeds_def items_in_def not_less usize_minus_def)

section \<open>Eviction\<close>

lemma others_of_took:
  assumes "took s es t" and "intake_ok s" and "\<forall>(k, e) \<in> set es. k = p"
  shows "others_of t (entries_of t) p = others_of s (entries_of s) p"
proof -
  have "entries_of t k = entries_of s k" if "k \<noteq> p" for k
  proof -
    have none: "filter (\<lambda>(j, e). j = k) es = []" using assms(3) that by (auto simp: filter_empty_conv)
    have "entries_of s k = map snd (filter (\<lambda>(j, e). j = k) es) @ entries_of t k"
      using took_ok [OF assms(1,2)] by blast
    with none show ?thesis by simp
  qed
  then show ?thesis
    using took_ok [OF assms(1,2)]
    by (auto simp: others_of_def same_frame_def intro!: arg_cong [of _ _ sum_list] map_cong)
qed

lemma evict_oldest_took:
  assumes "intake_ok s" and "entries_of s p = e # rest"
  obtains t where "evict_oldest at p s = Some t" and "took s [(p, e)] t" and "entries_of t p = rest"
proof -
  from pop_entry_Some [OF assms] obtain u where u: "pop_entry p s = Some (u, e)" by blast
  define t where "t = intake_event at p (en_generation e) (EvEvictedOldest (en_items e))
                 (count_intake dx_evicted_oldest dx_evicted_oldest_update 1 u)"
  have hush: "hushed u t" unfolding t_def by (rule hushed_trans [OF hushed_count(1) hushed_event])
  have "took s [(p, e)] t" using took_hushed [OF took_pop [OF took_nothing u] hush] by simp
  moreover have "entries_of t p = rest"
    using entries_of_simps(1) [OF hush] entries_of_pop [OF assms(1) u, of p] assms(2) by simp
  ultimately show ?thesis using that [of t] by (simp add: evict_oldest_def u t_def)
qed

lemma evict_until_took:
  assumes "intake_ok s" and "map_of (iq_plugins s) p = Some q"
    and "policy_room s q p n []"
  shows "\<exists>t es. evict_until at p n s = Some t \<and> took s (map (Pair p) es) t
    \<and> entries_of t p = shrink (policy_room s q p n) (pq_entries q)
    \<and> policy_room s q p n (entries_of t p)"
  using assms
proof (induction "pq_entries q" arbitrary: s q)
  case Nil
  then have "evict_until at p n s = Some s" by (simp add: evict_until.simps [of at p n s] is_full_room)
  with Nil show ?case
    by (intro exI [of _ s] exI [of _ "[]"]) (simp add: took_nothing entries_of_def)
next
  case (Cons e rest)
  note ent = Cons.hyps(2) [symmetric]
  have entp: "entries_of s p = e # rest" using Cons.prems ent by (simp add: entries_of_def)
  show ?case
  proof (cases "policy_room s q p n (e # rest)")
    case True
    then have "evict_until at p n s = Some s"
      using Cons.prems ent by (simp add: evict_until.simps [of at p n s] is_full_room)
    with True ent entp show ?thesis
      by (intro exI [of _ s] exI [of _ "[]"]) (simp add: took_nothing)
  next
    case False
    obtain u where u: "evict_oldest at p s = Some u" "took s [(p, e)] u" "entries_of u p = rest"
      by (rule evict_oldest_took [OF Cons.prems(1) entp])
    have ok: "intake_ok u" and lim: "iq_limits u = iq_limits s"
      using took_ok [OF u(2) Cons.prems(1)] by (simp_all add: same_frame_def)
    obtain q' where q': "map_of (iq_plugins u) p = Some q'" "pq_policy q' = pq_policy q" "pq_entries q' = entries_of u p"
      by (rule took_registered [OF u(2) Cons.prems(1,2)])
    have oth: "others_of u (entries_of u) p = others_of s (entries_of s) p"
      by (rule others_of_took [OF u(2) Cons.prems(1)]) simp
    have room_eq: "policy_room u q' p n = policy_room s q p n" by (simp add: q'(2) lim oth)
    have "evict_until at p n s = evict_until at p n u"
      using False Cons.prems ent u(1) by (simp add: evict_until.simps [of at p n s] is_full_room)
    moreover from Cons.hyps(1) [OF _ ok q'(1)] Cons.prems(3) u(3) q'(3) obtain t es where
      "evict_until at p n u = Some t" "took u (map (Pair p) es) t"
      "entries_of t p = shrink (policy_room s q p n) rest" "policy_room s q p n (entries_of t p)"
      by (auto simp: room_eq)
    ultimately show ?thesis
      using took_trans [OF _ u(2)] False ent by (intro exI [of _ t] exI [of _ "e # es"]) simp
  qed
qed

section \<open>Producer states\<close>

lemma marks_state [simp, intro]: "marks (\<lambda>q. q\<lparr>pq_state := st\<rparr>)"
  by (simp add: marks_def)

lemma hushed_notice:
  "hushed s (intake_event at p g kind (count_intake get upd n s))"
  by (rule hushed_trans [OF hushed_count(1) hushed_event])

lemma force_pause_took:
  assumes "map_of (iq_plugins s) p = Some q"
  obtains t where "force_pause at p g s = Some t" and "took s [] t"
proof (cases "pq_state q = ProducerRunning")
  case True
  let ?m = "modify_queue p (\<lambda>q. q\<lparr>pq_state := ProducerPausedState\<rparr>) s"
  have "took s [] (intake_event at p g EvProducerPaused (count_intake dx_pauses dx_pauses_update 1 ?m))"
    by (rule took_hushed [OF took_mark [OF took_nothing marks_state] hushed_notice])
  with that assms True show thesis by (simp add: force_pause_def)
next
  case False
  with that [of s] assms show thesis by (simp add: force_pause_def took_nothing)
qed

text \<open>Reconciling moves the state of one producer, to what the watermarks say.\<close>

definition reconciled :: "plugin_queue \<Rightarrow> producer_state" where
  "reconciled q = (case watermark_transition q of None \<Rightarrow> pq_state q | Some st \<Rightarrow> st)"

lemma reconcile_producer_shape:
  assumes q: "map_of (iq_plugins s) p = Some q"
  shows "\<exists>t u. reconcile_producer at g p s = Some u \<and> hushed t u
     \<and> (t = s \<and> reconciled q = pq_state q \<or> t = modify_queue p (\<lambda>r. r\<lparr>pq_state := reconciled q\<rparr>) s)"
proof (cases "watermark_transition q")
  case None
  with q show ?thesis by (intro exI [of _ s]) (simp add: reconcile_producer_def reconciled_def)
next
  case (Some st)
  let ?t = "modify_queue p (\<lambda>r. r\<lparr>pq_state := st\<rparr>) s"
  let ?u = "if st = ProducerPausedState
    then intake_event at p g EvProducerPaused (count_intake dx_pauses dx_pauses_update 1 ?t)
    else intake_event at p g EvProducerResumed (count_intake dx_resumes dx_resumes_update 1 ?t)"
  have "reconciled q = st" by (simp add: reconciled_def Some)
  moreover have "reconcile_producer at g p s = Some ?u" by (simp add: reconcile_producer_def expect_queue_def q Some)
  moreover have "hushed ?t ?u" by (simp only: hushed_notice split: if_split) simp
  ultimately show ?thesis by blast
qed

lemma reconcile_took:
  assumes q: "map_of (iq_plugins s) p = Some q"
  obtains u where "reconcile_producer at g p s = Some u" and "took s [] u" and "iq_drain_cursor u = iq_drain_cursor s"
    and "map_of (iq_plugins u) p = Some (q\<lparr>pq_state := reconciled q\<rparr>)"
    and "\<And>k. map_of (iq_plugins u) k = None \<longleftrightarrow> map_of (iq_plugins s) k = None"
proof -
  from reconcile_producer_shape [OF q, of at g] obtain t u where u: "reconcile_producer at g p s = Some u" "hushed t u"
    and t: "t = s \<and> reconciled q = pq_state q \<or> t = modify_queue p (\<lambda>r. r\<lparr>pq_state := reconciled q\<rparr>) s" by blast
  show thesis
  proof (rule that [OF u(1)])
    show "took s [] u" using t took_hushed [OF _ u(2)] took_nothing took_mark [OF took_nothing marks_state] by blast
    show "iq_drain_cursor u = iq_drain_cursor s" using t u(2) by (auto simp: hushed_def)
    show "map_of (iq_plugins u) p = Some (q\<lparr>pq_state := reconciled q\<rparr>)"
      using t u(2) q by (auto simp: hushed_def lookup_simps)
    show "map_of (iq_plugins u) k = None \<longleftrightarrow> map_of (iq_plugins s) k = None" for k
      using t u(2) q by (auto simp: hushed_def lookup_simps split: if_splits)
  qed
qed

text \<open>The pass over all the plugins does not panic while each of them is registered.\<close>

lemma reconcile_each_took:
  assumes "\<And>p. p \<in> set ps \<Longrightarrow> map_of (iq_plugins s) p \<noteq> None"
  shows "\<exists>t. reconcile_each at g ps s = Some t \<and> took s [] t \<and> iq_drain_cursor t = iq_drain_cursor s"
  using assms
proof (induction ps arbitrary: s)
  case (Cons p ps)
  then obtain q where q: "map_of (iq_plugins s) p = Some q" by force
  obtain u where u: "reconcile_producer at g p s = Some u" "took s [] u" "iq_drain_cursor u = iq_drain_cursor s"
    "\<And>k. map_of (iq_plugins u) k = None \<longleftrightarrow> map_of (iq_plugins s) k = None"
    by (rule reconcile_took [OF q, of at g]) blast
  with Cons.IH [of u] Cons.prems obtain t where "reconcile_each at g ps u = Some t" "took u [] t"
    "iq_drain_cursor t = iq_drain_cursor s" by auto
  with u(1) took_Nil_trans(1) [OF _ u(2)] show ?case by auto
qed (simp add: took_nothing)

section \<open>Enqueueing\<close>

definition placed :: "u64 \<Rightarrow> inbound_batch \<Rightarrow> entry" where
  "placed at b = \<lparr>en_admitted_at = at, en_inbound = b\<rparr>"

definition put_entry :: "u64 \<Rightarrow> inbound_batch \<Rightarrow> plugin_queue \<Rightarrow> plugin_queue" where
  "put_entry at b q =
     q\<lparr>pq_items := pq_items q + length (rb_items (ib_batch b)),
       pq_terminal_generation :=
         (if is_terminal (rb_state (ib_batch b)) then Some (rb_generation (ib_batch b)) else pq_terminal_generation q),
       pq_entries := pq_entries q @ [placed at b]\<rparr>"

lemma put_entry_fields [simp]:
  "pq_policy (put_entry at b q) = pq_policy q"
  "pq_entries (put_entry at b q) = pq_entries q @ [placed at b]"
  "pq_items (put_entry at b q) = pq_items q + length (rb_items (ib_batch b))"
  by (simp_all add: put_entry_def)

definition put_state :: "u64 \<Rightarrow> inbound_batch \<Rightarrow> inbound_result_queue \<Rightarrow> inbound_result_queue" where
  "put_state at b s =
     (modify_queue (rb_plugin (ib_batch b)) (put_entry at b) s)
       \<lparr>iq_total_batches := iq_total_batches s + 1,
        iq_total_items := iq_total_items s + length (rb_items (ib_batch b))\<rparr>"

lemma enqueue_batch_eq:
  assumes "map_of (iq_plugins s) (rb_plugin (ib_batch b)) = Some q"
  shows "\<exists>t. hushed (put_state at b s) t
     \<and> enqueue_batch at b s =
        do { u \<leftarrow> reconcile_producer at (rb_generation (ib_batch b)) (rb_plugin (ib_batch b)) t;
             q \<leftarrow> map_of (iq_plugins u) (rb_plugin (ib_batch b));
             Some (u, Inr (pq_state q)) }"
proof -
  let ?a = "count_intake dx_admitted dx_admitted_update 1 (put_state at b s)"
  let ?b = "?a\<lparr>iq_diagnostics := (iq_diagnostics ?a)
                 \<lparr>dx_peak_batches := max (dx_peak_batches (iq_diagnostics ?a)) (iq_total_batches ?a),
                  dx_peak_items := max (dx_peak_items (iq_diagnostics ?a)) (iq_total_items ?a)\<rparr>\<rparr>"
  let ?t = "intake_event at (rb_plugin (ib_batch b)) (rb_generation (ib_batch b)) (EvAdmitted (length (rb_items (ib_batch b)))) ?b"
  have "hushed (put_state at b s) ?a" by (rule hushed_count)
  also have "hushed ?a ?b" by (simp add: hushed_def)
  also have "hushed ?b ?t" by (rule hushed_event)
  finally have hush: "hushed (put_state at b s) ?t" .
  have put: "put_entry at b = (\<lambda>q. q\<lparr>pq_items := pq_items q + length (rb_items (ib_batch b)),
       pq_terminal_generation :=
         (if is_terminal (rb_state (ib_batch b)) then Some (rb_generation (ib_batch b)) else pq_terminal_generation q),
       pq_entries := pq_entries q @ [placed at b]\<rparr>)"
    by (simp add: put_entry_def fun_eq_iff)
  have "enqueue_batch at b s =
        do { u \<leftarrow> reconcile_producer at (rb_generation (ib_batch b)) (rb_plugin (ib_batch b)) ?t;
             q \<leftarrow> map_of (iq_plugins u) (rb_plugin (ib_batch b));
             Some (u, Inr (pq_state q)) }"
    unfolding enqueue_batch_def Let_def put_state_def put placed_def expect_queue_def assms
    by (simp only: option.case Option.bind.simps modify_queue_fields)
  with hush show ?thesis by (intro exI [of _ ?t] conjI)
qed

lemma put_state_ok:
  assumes ok: "intake_ok s" and at: "map_of (iq_plugins s) (rb_plugin (ib_batch b)) = Some q"
    and act: "iq_active s = Some (rb_generation (ib_batch b))"
    and room: "policy_room s q (rb_plugin (ib_batch b)) (length (rb_items (ib_batch b))) (pq_entries q)"
  shows "intake_ok (put_state at b s)"
proof -
  let ?p = "rb_plugin (ib_batch b)" and ?n = "length (rb_items (ib_batch b))"
  have dist: "distinct (map fst (iq_plugins s))" using ok by (simp add: intake_ok_def)
  have tot: "iq_total_batches s = entry_total s" "iq_total_items s = item_total s"
    "item_total s \<le> ql_capacity_items (iq_limits s)" using ok by (simp_all add: intake_ok_def)
  have sums: "entry_total (modify_queue ?p (put_entry at b) s) = entry_total s + 1"
    "item_total (modify_queue ?p (put_entry at b) s) = item_total s + ?n"
    using entry_total_modify [OF dist at, of "put_entry at b"] item_total_modify [OF dist at, of "put_entry at b"]
    by simp_all
  have fit: "entry_total s + 1 \<le> ql_capacity_batches (iq_limits s)" "item_total s + ?n \<le> ql_capacity_items (iq_limits s)"
    using room tot totals_split [OF ok at] by (auto simp: room_def shared_room_def)
  have new: "en_items (placed at b) = ?n" "en_generation (placed at b) = rb_generation (ib_batch b)"
    "rb_plugin (ib_batch (en_inbound (placed at b))) = ?p"
    by (simp_all add: placed_def en_items_def en_generation_def)
  have "queue_ok (iq_gate s) ?p (put_entry at b q)"
    using intake_ok_lookup [OF ok at] act
    by (auto simp: queue_ok_def new sorted_append list_all_iff gate_admits_def iq_gate_def)
  then have all: "list_all (\<lambda>(p, q). queue_ok (iq_gate s) p q) (adjust ?p (put_entry at b) (iq_plugins s))"
    using ok dist at by (intro list_all_adjust_at) (auto simp: intake_ok_def)
  show ?thesis
    using ok all sums tot fit
    by (simp add: intake_ok_def put_state_def set_keys_adjust iq_gate_def entry_total_def item_total_def)
qed

lemma reconciled_watermarks:
  assumes "intake_policy_ok (pq_policy q)"
  shows "(reconciled q = ProducerRunning \<longrightarrow> length (pq_entries q) < ip_pause_at_batches (pq_policy q))
    \<and> (reconciled q = ProducerPausedState \<longrightarrow> ip_resume_at_batches (pq_policy q) < length (pq_entries q))"
  using assms by (auto simp: reconciled_def watermark_transition_def intake_policy_ok_def split: if_splits)

text \<open>The producer state that is returned agrees with the watermarks.\<close>

definition paced :: "intake_policy \<Rightarrow> producer_state \<Rightarrow> nat \<Rightarrow> bool" where
  "paced pol st n \<longleftrightarrow>
     (st = ProducerRunning \<longrightarrow> n < ip_pause_at_batches pol) \<and> (st = ProducerPausedState \<longrightarrow> ip_resume_at_batches pol < n)"

lemma enqueue_batch_result:
  assumes ok: "intake_ok s" and at: "map_of (iq_plugins s) p = Some q" and p: "p = rb_plugin (ib_batch b)"
    and act: "iq_active s = Some (rb_generation (ib_batch b))"
    and room: "policy_room s q p (length (rb_items (ib_batch b))) (pq_entries q)"
  obtains t st where "enqueue_batch now b s = Some (t, Inr st)" "intake_ok t" "same_frame s t"
    "\<And>k. entries_of t k = (if k = p then entries_of s p @ [placed now b] else entries_of s k)"
    "paced (pq_policy q) st (length (entries_of t p))"
proof -
  from enqueue_batch_eq [of s b q now] at p obtain u where u: "hushed (put_state now b s) u"
    and enq: "enqueue_batch now b s = do { t \<leftarrow> reconcile_producer now (rb_generation (ib_batch b)) p u;
             q \<leftarrow> map_of (iq_plugins t) p; Some (t, Inr (pq_state q)) }"
    by auto
  have "map_of (iq_plugins u) p = Some (put_entry now b q)"
    using u at by (simp add: hushed_def put_state_def lookup_simps p)
  then obtain t where rec: "reconcile_producer now (rb_generation (ib_batch b)) p u = Some t" "took u [] t"
    and lk: "map_of (iq_plugins t) p = Some ((put_entry now b q)\<lparr>pq_state := reconciled (put_entry now b q)\<rparr>)"
    by (rule reconcile_took) blast
  have ok1: "intake_ok (put_state now b s)" using assms by (intro put_state_ok) simp_all
  have took: "took (put_state now b s) [] t"
    using took_Nil_trans(1) [OF rec(2) took_hush [OF u]] .
  have ok2: "intake_ok t" "same_frame (put_state now b s) t" "\<And>k. entries_of t k = entries_of (put_state now b s) k"
    using took_ok [OF took ok1] by auto
  have "policy_of (put_state now b s) k = policy_of s k" for k
    by (cases "map_of (iq_plugins s) k") (auto simp: policy_of_def put_state_def lookup_simps)
  then have frame: "same_frame s (put_state now b s)" by (simp add: same_frame_def put_state_def fun_eq_iff)
  have ent: "entries_of (put_state now b s) k = (if k = p then entries_of s p @ [placed now b] else entries_of s k)" for k
    using at by (auto simp: entries_of_def put_state_def lookup_simps p split: option.splits)
  have res: "enqueue_batch now b s = Some (t, Inr (reconciled (put_entry now b q)))"
    by (simp add: enq rec(1) lk)
  have "paced (pq_policy q) (reconciled (put_entry now b q)) (length (entries_of t p))"
    using reconciled_watermarks [of "put_entry now b q"] intake_ok_lookup [OF ok at] lk
    by (simp add: paced_def queue_ok_def entries_of_def)
  with that [OF res ok2(1) same_frame_trans [OF frame ok2(2)]] ok2(3) ent show ?thesis by simp
qed

section \<open>The reference decision\<close>

text \<open>
  What \<open>submit\<close> decides when the queues hold \<open>xs\<close>; \<open>None\<close> is admission. The
  reference takes the live entries for \<open>xs\<close>.
\<close>

definition full_decision ::
  "inbound_result_queue \<Rightarrow> (plugin_id \<Rightarrow> entry list) \<Rightarrow> intake_policy \<Rightarrow> plugin_id \<Rightarrow> nat \<Rightarrow> entry list \<Rightarrow> queue_reject option" where
  "full_decision s xs pol p n ys =
     (if \<not> own_room pol n ys then Some QrQueueFull
      else if \<not> shared_room (iq_limits s) (others_of s xs p) n ys then Some QrBoundaryFull
      else None)"

definition overflow_decision ::
  "inbound_result_queue \<Rightarrow> (plugin_id \<Rightarrow> entry list) \<Rightarrow> intake_policy \<Rightarrow> inbound_batch \<Rightarrow> queue_reject option" where
  "overflow_decision s xs pol b =
     (let p = rb_plugin (ib_batch b); n = length (rb_items (ib_batch b)) in
      if ip_overflow pol = OvRejectLowPriority \<and> ib_priority b = PriorityLow
         \<and> ip_pause_at_batches pol \<le> length (xs p) then Some QrLowPriorityShed
      else case full_decision s xs pol p n (xs p) of
             None \<Rightarrow> None
           | Some reason \<Rightarrow>
               (case ip_overflow pol of
                  OvReplaceOldest \<Rightarrow> full_decision s xs pol p n []
                | OvDisconnect \<Rightarrow> Some QrDisconnected
                | OvPauseProducer \<Rightarrow> Some reason
                | OvRejectLowPriority \<Rightarrow> Some reason))"

definition admission :: "inbound_result_queue \<Rightarrow> inbound_batch \<Rightarrow> queue_reject option" where
  "admission s b =
     (case map_of (iq_plugins s) (rb_plugin (ib_batch b)) of
        None \<Rightarrow> Some QrUnregistered
      | Some q \<Rightarrow>
          (if iq_active s \<noteq> Some (rb_generation (ib_batch b)) then Some QrStaleGeneration
           else if pq_state q = ProducerDisconnected then Some QrDisconnected
           else if pq_terminal_generation q = Some (rb_generation (ib_batch b)) then Some QrStreamTerminated
           else overflow_decision s (live_of s) (pq_policy q) b))"

lemma room_mono:
  assumes "room pol lim others n xs" and "length ys \<le> length xs" and "items_in ys \<le> items_in xs"
    and "fst others' \<le> fst others" and "snd others' \<le> snd others"
  shows "room pol lim others' n ys"
  using assms by (auto simp: room_def own_room_def shared_room_def)

lemma live_of_le: "length (live_of s p) \<le> length (entries_of s p)" "items_in (live_of s p) \<le> items_in (entries_of s p)"
proof -
  show "length (live_of s p) \<le> length (entries_of s p)" by (simp add: live_of_def)
  have "items_in (filter P xs) \<le> items_in xs" for P xs by (induction xs) (auto simp: items_in_def)
  then show "items_in (live_of s p) \<le> items_in (entries_of s p)" by (simp add: live_of_def)
qed

lemma others_of_live_le:
  "fst (others_of s (live_of s) p) \<le> fst (others_of s (entries_of s) p)"
  "snd (others_of s (live_of s) p) \<le> snd (others_of s (entries_of s) p)"
  by (simp_all add: others_of_def sum_list_mono live_of_le)

text \<open>
  What a submission does to the queues \<open>xs\<close>, when its decision is \<open>d\<close>, and the
  producer state it returns for a queue of \<open>m\<close> entries.
\<close>

definition submit_effect ::
  "inbound_result_queue \<Rightarrow> (plugin_id \<Rightarrow> entry list) \<Rightarrow> u64 \<Rightarrow> inbound_batch \<Rightarrow> intake_policy \<Rightarrow> queue_reject option
   \<Rightarrow> (plugin_id \<Rightarrow> entry list) \<Rightarrow> nat \<Rightarrow> queue_reject + producer_state \<Rightarrow> bool" where
  "submit_effect s xs now b pol d ys m r \<longleftrightarrow>
     (let p = rb_plugin (ib_batch b) in
      case d of
        Some reason \<Rightarrow> r = Inl reason \<and> ys = xs
      | None \<Rightarrow>
          (\<exists>st. r = Inr st \<and> paced pol st m)
          \<and> ys = xs(p := shrink (room pol (iq_limits s) (others_of s xs p) (length (rb_items (ib_batch b)))) (xs p) @ [placed now b]))"

lemma submit_effect_rejected: "submit_effect s xs now b pol (Some reason) xs m (Inl reason)"
  by (simp add: submit_effect_def Let_def)

text \<open>The end of \<open>submit\<close>, after reclamation.\<close>

definition submit_tail ::
  "u64 \<Rightarrow> inbound_batch \<Rightarrow> inbound_result_queue \<Rightarrow> (inbound_result_queue \<times> (queue_reject + producer_state)) option" where
  "submit_tail now b s =
     (let p = rb_plugin (ib_batch b); g = rb_generation (ib_batch b) in
      case map_of (iq_plugins s) p of
        None \<Rightarrow> None
      | Some q \<Rightarrow>
          (if low_at_watermark q b then Some (intake_reject now p g QrLowPriorityShed s, Inl QrLowPriorityShed)
           else case capacity_violations s q (length (rb_items (ib_batch b))) of
                  (own, shared) \<Rightarrow> if own \<or> shared then overflow_batch now b q own s else enqueue_batch now b s))"

lemma enqueue_effect:
  assumes ok: "intake_ok s" and at: "map_of (iq_plugins s) (rb_plugin (ib_batch b)) = Some q"
    and act: "iq_active s = Some (rb_generation (ib_batch b))"
    and took: "took s es t" "\<forall>(k, e) \<in> set es. k = rb_plugin (ib_batch b)"
    and own: "entries_of t (rb_plugin (ib_batch b)) =
      shrink (policy_room s q (rb_plugin (ib_batch b)) (length (rb_items (ib_batch b)))) (pq_entries q)"
    and room: "policy_room s q (rb_plugin (ib_batch b)) (length (rb_items (ib_batch b))) (entries_of t (rb_plugin (ib_batch b)))"
  shows "\<exists>u r. enqueue_batch now b t = Some (u, r) \<and> intake_ok u \<and> same_frame s u
    \<and> submit_effect s (entries_of s) now b (pq_policy q) None (entries_of u) (length (entries_of u (rb_plugin (ib_batch b)))) r"
proof -
  let ?p = "rb_plugin (ib_batch b)"
  have ok': "intake_ok t" and frame: "same_frame s t" using took_ok [OF took(1) ok] by simp_all
  obtain q' where q': "map_of (iq_plugins t) ?p = Some q'" "pq_policy q' = pq_policy q" "pq_entries q' = entries_of t ?p"
    and ent: "entries_of s ?p = pq_entries q"
    by (rule took_registered [OF took(1) ok at])
  have oth: "others_of t (entries_of t) ?p = others_of s (entries_of s) ?p" by (rule others_of_took [OF took(1) ok took(2)])
  have same: "entries_of t k = entries_of s k" if "k \<noteq> ?p" for k
  proof -
    have "filter (\<lambda>(j, e). j = k) es = []" using took(2) that by (auto simp: filter_empty_conv)
    then show ?thesis using took_ok [OF took(1) ok] by (metis append_Nil list.map(1))
  qed
  have "policy_room t q' ?p (length (rb_items (ib_batch b))) (pq_entries q')"
    using room frame by (simp add: q' oth same_frame_def)
  moreover have "iq_active t = Some (rb_generation (ib_batch b))" using act frame by (simp add: same_frame_def)
  ultimately obtain u st where u: "enqueue_batch now b t = Some (u, Inr st)" "intake_ok u" "same_frame t u"
    "\<And>k. entries_of u k = (if k = ?p then entries_of t ?p @ [placed now b] else entries_of t k)"
    "paced (pq_policy q') st (length (entries_of u ?p))"
    using enqueue_batch_result [OF ok' q'(1) refl] by metis
  have "submit_effect s (entries_of s) now b (pq_policy q) None (entries_of u) (length (entries_of u ?p)) (Inr st)"
    using u(4,5) same own ent by (auto simp: submit_effect_def Let_def q'(2) fun_eq_iff)
  with u same_frame_trans [OF frame u(3)] show ?thesis by blast
qed

lemma took_effect:
  assumes "intake_ok s" and "took s [] t"
  shows "intake_ok t \<and> same_frame s t \<and> entries_of t = entries_of s"
  using took_ok [OF assms(2,1)] by (auto simp: fun_eq_iff)

lemma overflow_batch_effect:
  assumes ok: "intake_ok s" and at: "map_of (iq_plugins s) p = Some q" and p: "p = rb_plugin (ib_batch b)"
    and n: "n = length (rb_items (ib_batch b))"
    and act: "iq_active s = Some (rb_generation (ib_batch b))"
    and full: "full_decision s (entries_of s) (pq_policy q) p n (pq_entries q) = Some reason"
    and own: "own = (\<not> own_room (pq_policy q) n (pq_entries q))"
    and low: "\<not> low_at_watermark q b"
  shows "\<exists>t r. overflow_batch now b q own s = Some (t, r) \<and> intake_ok t \<and> same_frame s t
    \<and> submit_effect s (entries_of s) now b (pq_policy q) (overflow_decision s (entries_of s) (pq_policy q) b) (entries_of t)
      (length (entries_of t (rb_plugin (ib_batch b)))) r"
proof -
  let ?g = "rb_generation (ib_batch b)"
  have ent: "entries_of s p = pq_entries q" by (simp add: entries_of_def at)
  have reason: "full_reason own = reason"
    using full own by (auto simp: full_reason_def full_decision_def split: if_splits)
  have dec: "overflow_decision s (entries_of s) (pq_policy q) b =
      (case ip_overflow (pq_policy q) of
         OvReplaceOldest \<Rightarrow> full_decision s (entries_of s) (pq_policy q) p n []
       | OvDisconnect \<Rightarrow> Some QrDisconnected | OvPauseProducer \<Rightarrow> Some reason | OvRejectLowPriority \<Rightarrow> Some reason)"
    using low full ent unfolding p n by (auto simp: overflow_decision_def Let_def low_at_watermark_def)
  have rejected: "\<exists>t' r. Some (t, Inl why) = Some (t', r) \<and> intake_ok t' \<and> same_frame s t'
      \<and> submit_effect s (entries_of s) now b (pq_policy q) (Some why) (entries_of t') (length (entries_of t' (rb_plugin (ib_batch b)))) r" if "took s [] t" for t why
    using took_effect [OF ok that] submit_effect_rejected [of s "entries_of s" now b "pq_policy q" why] by simp
  have quiet: "took s [] (intake_reject now p ?g why s)" for why by (rule took_hush [OF hushed_reject])
  show ?thesis
  proof (cases "ip_overflow (pq_policy q)")
    case OvReplaceOldest
    have pre: "replacement_preflight s q n = Some (case full_decision s (entries_of s) (pq_policy q) p n [] of
        None \<Rightarrow> Inr () | Some why \<Rightarrow> Inl why)"
      by (simp add: preflight_room [OF ok at] full_decision_def)
    show ?thesis
    proof (cases "full_decision s (entries_of s) (pq_policy q) p n []")
      case None
      then have "policy_room s q p n []" by (simp add: full_decision_def room_def split: if_splits)
      from evict_until_took [OF ok at this, of now] obtain t es where t: "evict_until now p n s = Some t"
        "took s (map (Pair p) es) t" "entries_of t p = shrink (policy_room s q p n) (pq_entries q)"
        "policy_room s q p n (entries_of t p)" by blast
      have res: "overflow_batch now b q own s = enqueue_batch now b t"
        using pre None OvReplaceOldest t(1) by (simp add: overflow_batch_def Let_def p n)
      have "\<forall>(k, e) \<in> set (map (Pair p) es). k = rb_plugin (ib_batch b)" by (auto simp: p)
      from enqueue_effect [OF ok at [unfolded p] act t(2) this t(3,4) [unfolded p n], of now] None
      show ?thesis unfolding res dec by (simp add: OvReplaceOldest)
    next
      case (Some why)
      then have "overflow_batch now b q own s = Some (intake_reject now p ?g why s, Inl why)"
        using pre OvReplaceOldest by (simp add: overflow_batch_def Let_def p n)
      then show ?thesis unfolding dec using rejected [OF quiet, of why] by (simp add: OvReplaceOldest Some)
    qed
  next
    case OvDisconnect
    have "took s [] (intake_reject now p ?g QrDisconnected (modify_queue p (\<lambda>q. q\<lparr>pq_state := ProducerDisconnected\<rparr>) s))"
      by (rule took_hushed [OF took_mark [OF took_nothing marks_state] hushed_reject])
    from rejected [OF this, of QrDisconnected] show ?thesis unfolding dec
      using at by (simp add: overflow_batch_def Let_def p OvDisconnect expect_queue_def)
  next
    case OvPauseProducer
    have "map_of (iq_plugins (intake_reject now p ?g reason s)) p = Some q" using at by simp
    then obtain t where t: "force_pause now p ?g (intake_reject now p ?g reason s) = Some t"
      and "took (intake_reject now p ?g reason s) [] t" by (rule force_pause_took)
    then have "took s [] t" by (intro took_Nil_trans(1) [OF _ quiet])
    from rejected [OF this, of reason] show ?thesis unfolding dec
      using t by (simp add: overflow_batch_def Let_def p OvPauseProducer reason)
  next
    case OvRejectLowPriority
    from rejected [OF quiet [of reason], of reason]
    show ?thesis unfolding dec by (simp add: overflow_batch_def Let_def p OvRejectLowPriority reason)
  qed
qed

lemma submit_tail_effect:
  assumes ok: "intake_ok s" and at: "map_of (iq_plugins s) (rb_plugin (ib_batch b)) = Some q"
    and act: "iq_active s = Some (rb_generation (ib_batch b))"
  shows "\<exists>t r. submit_tail now b s = Some (t, r) \<and> intake_ok t \<and> same_frame s t
    \<and> submit_effect s (entries_of s) now b (pq_policy q) (overflow_decision s (entries_of s) (pq_policy q) b) (entries_of t)
      (length (entries_of t (rb_plugin (ib_batch b)))) r"
proof -
  let ?p = "rb_plugin (ib_batch b)" and ?n = "length (rb_items (ib_batch b))"
  have ent: "entries_of s ?p = pq_entries q" by (simp add: entries_of_def at)
  note viol = capacity_violations_room [OF ok at, of ?n]
  show ?thesis
  proof (cases "low_at_watermark q b")
    case True
    then have dec: "overflow_decision s (entries_of s) (pq_policy q) b = Some QrLowPriorityShed"
      by (simp add: overflow_decision_def Let_def low_at_watermark_def ent)
    have "took s [] (intake_reject now ?p (rb_generation (ib_batch b)) QrLowPriorityShed s)"
      by (rule took_hush [OF hushed_reject])
    from took_effect [OF ok this] True at dec show ?thesis
      by (simp add: submit_tail_def Let_def submit_effect_rejected)
  next
    case low: False
    show ?thesis
    proof (cases "full_decision s (entries_of s) (pq_policy q) ?p ?n (pq_entries q)")
      case None
      then have room: "policy_room s q ?p ?n (pq_entries q)" by (simp add: full_decision_def room_def split: if_splits)
      then have "submit_tail now b s = enqueue_batch now b s"
        using low at by (simp add: submit_tail_def Let_def viol room_def)
      moreover have "overflow_decision s (entries_of s) (pq_policy q) b = None"
        using low None by (simp add: overflow_decision_def Let_def low_at_watermark_def ent)
      ultimately show ?thesis
        using enqueue_effect [OF ok at act took_nothing, of now] room
        by (simp add: ent shrink_id [of "policy_room s q ?p ?n"])
    next
      case (Some reason)
      then have "submit_tail now b s = overflow_batch now b q (\<not> own_room (pq_policy q) ?n (pq_entries q)) s"
        using low at by (auto simp: submit_tail_def Let_def viol full_decision_def split: if_splits)
      with overflow_batch_effect [OF ok at refl refl act Some refl low, of now] show ?thesis by simp
    qed
  qed
qed

section \<open>Submitting\<close>

lemma submit_unfold:
  assumes "map_of (iq_plugins s) (rb_plugin (ib_batch b)) = Some q"
    and "iq_active s = Some (rb_generation (ib_batch b))" and "pq_state q \<noteq> ProducerDisconnected"
    and "pq_terminal_generation q \<noteq> Some (rb_generation (ib_batch b))"
  shows "intake_submit now b s =
    Option.bind (if admission_needs_reclamation s q b then map_option fst (reclaim_obsolete now s) else Some s)
      (submit_tail now b)"
  using assms
  by (cases "reclaim_obsolete now s")
    (auto simp: intake_submit_def submit_tail_def Let_def split: option.splits Option.bind_splits)

lemma submit_refused:
  assumes "\<And>q. map_of (iq_plugins s) (rb_plugin (ib_batch b)) = Some q \<Longrightarrow>
      iq_active s = Some (rb_generation (ib_batch b)) \<Longrightarrow> pq_state q \<noteq> ProducerDisconnected \<Longrightarrow>
      pq_terminal_generation q = Some (rb_generation (ib_batch b))"
  shows "\<exists>reason. admission s b = Some reason \<and> intake_submit now b s =
    Some (intake_reject now (rb_plugin (ib_batch b)) (rb_generation (ib_batch b)) reason s, Inl reason)"
  using assms
  by (cases "map_of (iq_plugins s) (rb_plugin (ib_batch b))") (auto simp: admission_def intake_submit_def Let_def)

lemma live_of_all_live:
  assumes "same_frame s t" and "\<And>p e. e \<in> set (entries_of t p) \<Longrightarrow> \<not> obsolete s e"
  shows "live_of t = entries_of t"
  using assms(2) by (auto simp: fun_eq_iff live_of_frame [OF assms(1)] intro!: filter_True)

lemma reclaimed_effect:
  assumes ok: "intake_ok s" and at: "map_of (iq_plugins s) (rb_plugin (ib_batch b)) = Some q"
    and act: "iq_active s = Some (rb_generation (ib_batch b))"
  shows "\<exists>t r. Option.bind (map_option fst (reclaim_obsolete now s)) (submit_tail now b) = Some (t, r) \<and> intake_ok t \<and> same_frame s t
    \<and> submit_effect s (live_of s) now b (pq_policy q) (overflow_decision s (live_of s) (pq_policy q) b) (live_of t)
      (length (entries_of t (rb_plugin (ib_batch b)))) r"
proof -
  obtain u es where u: "reclaim_obsolete now s = Some (u, length es)"
    and es: "took s es u" "\<And>p. entries_of u p = live_of s p"
    by (rule reclaim_obsolete_took [OF ok]) blast
  have ok': "intake_ok u" and fr: "same_frame s u" using took_ok [OF es(1) ok] by simp_all
  obtain q' where q': "map_of (iq_plugins u) (rb_plugin (ib_batch b)) = Some q'" "pq_policy q' = pq_policy q"
    by (rule took_registered [OF es(1) ok at])
  have eu: "entries_of u = live_of s" using es(2) by (rule ext)
  have oth: "others_of u xs = others_of s xs" for xs using fr by (simp add: others_of_def same_frame_def fun_eq_iff)
  have lim: "iq_limits u = iq_limits s" "iq_active u = iq_active s" using fr by (simp_all add: same_frame_def)
  have dec: "overflow_decision u xs pol b = overflow_decision s xs pol b" for xs pol
  proof -
    have "full_decision u = full_decision s" by (simp add: full_decision_def oth lim fun_eq_iff)
    then show ?thesis by (simp only: overflow_decision_def)
  qed
  have eff: "submit_effect u = submit_effect s" unfolding submit_effect_def oth lim ..
  from submit_tail_effect [OF ok' q'(1), of now] act lim obtain t r where t: "submit_tail now b u = Some (t, r)"
    "intake_ok t" "same_frame u t" "submit_effect s (live_of s) now b (pq_policy q)
      (overflow_decision s (live_of s) (pq_policy q) b) (entries_of t) (length (entries_of t (rb_plugin (ib_batch b)))) r"
    by (auto simp: eu dec eff q'(2))
  have fr2: "same_frame s t" by (rule same_frame_trans [OF fr t(3)])
  have new: "\<not> obsolete s (placed now b)" using act by (simp add: obsolete_def placed_def en_generation_def)
  have old: "\<not> obsolete s e" if "e \<in> set (live_of s k)" for e k using that by (simp add: live_of_def)
  have "\<not> obsolete s e" if "e \<in> set (entries_of t k)" for e k
    using t(4) that new old shrink_suffix [of "live_of s k"]
    by (auto simp: submit_effect_def Let_def split: option.splits if_splits) (metis Un_iff set_append)
  then have "live_of t = entries_of t" by (rule live_of_all_live [OF fr2])
  with t fr2 u show ?thesis by auto
qed

lemma obsolete_frame: "same_frame s t \<Longrightarrow> obsolete t = obsolete s"
  by (simp add: obsolete_def same_frame_def fun_eq_iff)

lemma unreclaimed_effect:
  assumes ok: "intake_ok s" and at: "map_of (iq_plugins s) (rb_plugin (ib_batch b)) = Some q"
    and act: "iq_active s = Some (rb_generation (ib_batch b))" and need: "\<not> admission_needs_reclamation s q b"
  shows "\<exists>t r. submit_tail now b s = Some (t, r) \<and> intake_ok t \<and> same_frame s t
    \<and> submit_effect s (live_of s) now b (pq_policy q) (overflow_decision s (live_of s) (pq_policy q) b) (live_of t)
      (length (entries_of t (rb_plugin (ib_batch b)))) r"
proof -
  let ?p = "rb_plugin (ib_batch b)" and ?n = "length (rb_items (ib_batch b))"
  have ent: "entries_of s ?p = pq_entries q" by (simp add: entries_of_def at)
  have low: "\<not> low_at_watermark q b" and room: "policy_room s q ?p ?n (entries_of s ?p)"
    using need by (auto simp: admission_needs_reclamation_def capacity_violations_room [OF ok at] room_def ent)
  have live: "room (pq_policy q) (iq_limits s) (others_of s (live_of s) ?p) ?n (live_of s ?p)"
    using room_mono [OF room live_of_le others_of_live_le] .
  have decided: "overflow_decision s xs (pq_policy q) b = None"
    if "length (xs ?p) \<le> length (entries_of s ?p)"
      and "room (pq_policy q) (iq_limits s) (others_of s xs ?p) ?n (xs ?p)" for xs
    using low that ent by (auto simp: overflow_decision_def Let_def low_at_watermark_def full_decision_def room_def)
  have dec: "overflow_decision s (entries_of s) (pq_policy q) b = None" "overflow_decision s (live_of s) (pq_policy q) b = None"
    using decided [OF _ room] decided [OF _ live] live_of_le by simp_all
  from submit_tail_effect [OF ok at act, of now] obtain t r where t: "submit_tail now b s = Some (t, r)"
    "intake_ok t" "same_frame s t" "submit_effect s (entries_of s) now b (pq_policy q) None (entries_of t) (length (entries_of t ?p)) r"
    by (auto simp: dec)
  have new: "\<not> obsolete s (placed now b)" using act by (simp add: obsolete_def placed_def en_generation_def)
  have "live_of t k = (if k = ?p then live_of s ?p @ [placed now b] else live_of s k)" for k
    using t(4) new room by (simp add: submit_effect_def Let_def obsolete_frame [OF t(3)] shrink_id live_of_def)
  with t(4) have "submit_effect s (live_of s) now b (pq_policy q) None (live_of t) (length (entries_of t ?p)) r"
    by (auto simp: submit_effect_def Let_def shrink_id [of "room _ _ _ _", OF live] fun_eq_iff)
  with t dec show ?thesis by auto
qed

definition policy_at :: "inbound_result_queue \<Rightarrow> plugin_id \<Rightarrow> intake_policy" where
  "policy_at s p = (case map_of (iq_plugins s) p of Some q \<Rightarrow> pq_policy q | None \<Rightarrow>
     \<lparr>ip_capacity_batches = 0, ip_capacity_items = 0, ip_pause_at_batches = 0, ip_resume_at_batches = 0,
      ip_overflow = OvDisconnect\<rparr>)"

lemma intake_submit_effect:
  assumes "intake_ok s"
  shows "\<exists>t r. intake_submit now b s = Some (t, r) \<and> intake_ok t \<and> same_frame s t
    \<and> submit_effect s (live_of s) now b (policy_at s (rb_plugin (ib_batch b))) (admission s b) (live_of t)
      (length (entries_of t (rb_plugin (ib_batch b)))) r"
proof (cases "\<exists>q. map_of (iq_plugins s) (rb_plugin (ib_batch b)) = Some q \<and>
      iq_active s = Some (rb_generation (ib_batch b)) \<and> pq_state q \<noteq> ProducerDisconnected \<and>
      pq_terminal_generation q \<noteq> Some (rb_generation (ib_batch b))")
  case True
  then obtain q where q: "map_of (iq_plugins s) (rb_plugin (ib_batch b)) = Some q"
    "iq_active s = Some (rb_generation (ib_batch b))" "pq_state q \<noteq> ProducerDisconnected"
    "pq_terminal_generation q \<noteq> Some (rb_generation (ib_batch b))" by blast
  have adm: "admission s b = overflow_decision s (live_of s) (pq_policy q) b" using q by (simp add: admission_def)
  have pol: "policy_at s (rb_plugin (ib_batch b)) = pq_policy q" by (simp add: policy_at_def q(1))
  show ?thesis
    using reclaimed_effect [OF assms q(1,2), of now] unreclaimed_effect [OF assms q(1,2), of now]
    by (simp add: submit_unfold [OF q] adm pol)
next
  case False
  then obtain reason where adm: "admission s b = Some reason" and sub: "intake_submit now b s =
    Some (intake_reject now (rb_plugin (ib_batch b)) (rb_generation (ib_batch b)) reason s, Inl reason)"
    using submit_refused [of s b now] by blast
  have took: "took s [] (intake_reject now (rb_plugin (ib_batch b)) (rb_generation (ib_batch b)) reason s)"
    by (rule took_hush [OF hushed_reject])
  have "live_of (intake_reject now (rb_plugin (ib_batch b)) (rb_generation (ib_batch b)) reason s) = live_of s"
    using took_effect [OF assms took] obsolete_frame by (auto simp: fun_eq_iff live_of_def)
  then show ?thesis using took_effect [OF assms took] by (simp add: sub adm submit_effect_rejected)
qed

end
