(* ===== verification/Intake_Drain.thy ===== *)
theory Intake_Drain
  imports Intake_Submit
begin

text \<open>
  Draining the intake into an aggregator. A pass takes live entries off the queues, each
  queue from its front, and offers them one by one; what is taken, in which order and
  within which budgets, and that the report says exactly what happened.
\<close>

section \<open>Handing over\<close>

text \<open>Offering entries to the aggregator one after the other, with its answers.\<close>

fun hand_over ::
  "('a \<Rightarrow> result_batch \<Rightarrow> 'a \<times> (reject_reason + unit)) \<Rightarrow> (plugin_id \<times> entry) list \<Rightarrow> 'a \<Rightarrow> 'a \<times> (reject_reason + unit) list" where
  "hand_over accept [] sink = (sink, [])"
| "hand_over accept ((p, e) # es) sink =
     (let (sink', r) = accept sink (ib_batch (en_inbound e)); (sink'', rs) = hand_over accept es sink' in (sink'', r # rs))"

lemma hand_over_append:
  "hand_over accept (xs @ ys) sink =
     (let (sink', rs) = hand_over accept xs sink; (sink'', rs') = hand_over accept ys sink' in (sink'', rs @ rs'))"
  by (induction accept xs sink rule: hand_over.induct) (auto simp: Let_def split: prod.splits)

lemma hand_over_length: "length (snd (hand_over accept es sink)) = length es"
  by (induction accept es sink rule: hand_over.induct) (auto simp: Let_def split: prod.splits)

text \<open>The report of a pass, from what was handed over and the answers.\<close>

definition merged_record :: "plugin_id \<times> entry \<Rightarrow> merged_batch" where
  "merged_record pe =
     \<lparr>mb_plugin = fst pe, mb_admitted_at = en_admitted_at (snd pe), mb_generation = en_generation (snd pe),
      mb_state = rb_state (ib_batch (en_inbound (snd pe))), mb_items = en_items (snd pe)\<rparr>"

definition merged_of :: "(plugin_id \<times> entry) list \<Rightarrow> (reject_reason + unit) list \<Rightarrow> merged_batch list" where
  "merged_of es rs = map (merged_record \<circ> fst) (filter (\<lambda>(pe, r). r = Inr ()) (zip es rs))"

definition rejected_of :: "(plugin_id \<times> entry) list \<Rightarrow> (reject_reason + unit) list \<Rightarrow> (plugin_id \<times> reject_reason) list" where
  "rejected_of es rs = concat (map (\<lambda>(pe, r). case r of Inl reason \<Rightarrow> [(fst pe, reason)] | Inr _ \<Rightarrow> []) (zip es rs))"

definition extended :: "drain_report \<Rightarrow> (plugin_id \<times> entry) list \<Rightarrow> (reject_reason + unit) list \<Rightarrow> drain_report" where
  "extended report es rs =
     report\<lparr>rp_merged := rp_merged report + length (merged_of es rs),
            rp_merged_batches := rp_merged_batches report @ merged_of es rs,
            rp_merge_rejected := rp_merge_rejected report @ rejected_of es rs\<rparr>"

lemma extended_Nil [simp]: "extended report [] rs = report"
  by (simp add: extended_def merged_of_def rejected_of_def)

lemma extended_append:
  "length es = length rs \<Longrightarrow> extended (extended report es rs) es' rs' = extended report (es @ es') (rs @ rs')"
  by (simp add: extended_def merged_of_def rejected_of_def)

lemma note_merge_took:
  assumes "map_of (iq_plugins s) p = Some q"
  obtains t where "note_merge_result at p e r (s, report) = Some (t, extended report [(p, e)] [r])" and "took s [] t"
proof (cases r)
  case (Inr x)
  have "note_merge_result at p e r (s, report) = Some
      (intake_event at p (en_generation e) (EvMerged (en_items e)) (count_intake dx_merged dx_merged_update 1 s),
       extended report [(p, e)] [r])"
    by (simp add: Inr note_merge_result_def Let_def extended_def merged_of_def rejected_of_def merged_record_def)
  then show thesis by (rule that [OF _ took_hush [OF hushed_notice]])
next
  case (Inl reason)
  define f where "f = (\<lambda>q :: plugin_queue. q\<lparr>pq_terminal_generation :=
      (if pq_terminal_generation q = Some (en_generation e) then None else pq_terminal_generation q)\<rparr>)"
  define t where "t = (if is_terminal (rb_state (ib_batch (en_inbound e))) then modify_queue p f s else s)"
  define u where "u = intake_event at p (en_generation e) (EvMergeRejected reason)
      (count_slot dx_merge_rejected dx_merge_rejected_update (merge_reject_index reason) t)"
  have "marks f" by (simp add: marks_def f_def)
  then have "took s [] t" unfolding t_def using took_mark [OF took_nothing] by (simp add: took_nothing)
  moreover have "hushed t u" unfolding u_def by (rule hushed_trans [OF hushed_count(2) hushed_event])
  ultimately have "took s [] u" by (rule took_hushed)
  moreover have "note_merge_result at p e r (s, report) = Some (u, extended report [(p, e)] [r])"
    unfolding u_def t_def f_def
    by (simp add: Inl note_merge_result_def Let_def expect_queue_def assms extended_def merged_of_def rejected_of_def)
  ultimately show thesis by (intro that)
qed

section \<open>One plugin\<close>

text \<open>
  The item budget of one plugin: its first batch always goes, the others as long as they
  fit in what the first leaves.
\<close>

definition within_items :: "nat \<Rightarrow> entry list \<Rightarrow> bool" where
  "within_items budget es \<longleftrightarrow> (case es of [] \<Rightarrow> True | e # rest \<Rightarrow> items_in rest \<le> budget - en_items e)"

text \<open>
  What the inner loop hands over, when \<open>handled\<close> batches of \<open>items\<close> items have gone before
  it. It does not panic.
\<close>

definition handed_by_plugin ::
  "('a \<Rightarrow> result_batch \<Rightarrow> 'a \<times> (reject_reason + unit)) \<Rightarrow> drain_budget \<Rightarrow> plugin_id \<Rightarrow> nat \<Rightarrow> nat
   \<Rightarrow> inbound_result_queue \<times> 'a \<times> drain_report \<times> nat \<Rightarrow> entry list
   \<Rightarrow> inbound_result_queue \<times> 'a \<times> drain_report \<times> nat \<Rightarrow> bool" where
  "handed_by_plugin accept budget p handled items st es st' \<longleftrightarrow>
     (case st of (s, sink, report, count) \<Rightarrow> case st' of (t, sink', report', count') \<Rightarrow>
        took s (map (Pair p) es) t \<and> fst (hand_over accept (map (Pair p) es) sink) = sink'
        \<and> report' = extended report (map (Pair p) es) (snd (hand_over accept (map (Pair p) es) sink))
        \<and> count' = count + length es \<and> (es = [] \<or> count' \<le> dg_total_batches budget)
        \<and> (0 < handled \<longrightarrow> items_in es \<le> dg_items_per_plugin budget - items)
        \<and> (handled = 0 \<and> items = 0 \<longrightarrow> within_items (dg_items_per_plugin budget) es))"

lemma handed_nothing: "handed_by_plugin accept budget p handled items st [] st"
  by (cases st) (simp add: handed_by_plugin_def took_nothing within_items_def items_in_def)

lemma handed_Cons:
  assumes rest: "handed_by_plugin accept budget p (Suc handled) (usize_sat_add items (en_items e))
      (v, sink1, extended report [(p, e)] [r], count + 1) es st'"
    and took: "took s [(p, e)] v" and r: "accept sink (ib_batch (en_inbound e)) = (sink1, r)"
    and room: "count < dg_total_batches budget" and budget: "dg_items_per_plugin budget \<le> usize_max"
    and go: "\<not> (0 < handled \<and> dg_items_per_plugin budget - items < en_items e)"
  shows "handed_by_plugin accept budget p handled items (s, sink, report, count) (e # es) st'"
proof -
  obtain t sink' report' count' where st': "st' = (t, sink', report', count')" by (metis prod_cases4)
  have es: "took v (map (Pair p) es) t" "fst (hand_over accept (map (Pair p) es) sink1) = sink'"
    "report' = extended (extended report [(p, e)] [r]) (map (Pair p) es) (snd (hand_over accept (map (Pair p) es) sink1))"
    "count' = count + 1 + length es" "es = [] \<or> count' \<le> dg_total_batches budget"
    "items_in es \<le> dg_items_per_plugin budget - usize_sat_add items (en_items e)"
    using rest by (auto simp: handed_by_plugin_def st')
  have fit: "items_in es \<le> dg_items_per_plugin budget - (items + en_items e)"
    using es(6) budget by (auto simp: usize_sat_add_def min_def split: if_splits)
  have "took s (map (Pair p) (e # es)) t" using took_trans [OF es(1) took] by simp
  moreover have "report' = extended report (map (Pair p) (e # es)) (snd (hand_over accept (map (Pair p) (e # es)) sink))"
    using es(3) r extended_append [of "[(p, e)]" "[r]" report] by (simp add: case_prod_beta)
  moreover have "0 < handled \<longrightarrow> items_in (e # es) \<le> dg_items_per_plugin budget - items"
    using go fit by (auto simp: items_in_def)
  ultimately show ?thesis
    using es(2,4,5) r fit room by (auto simp: handed_by_plugin_def st' within_items_def case_prod_beta)
qed

lemma drain_plugin_hands:
  assumes "intake_ok s" and "dg_items_per_plugin budget \<le> usize_max"
  shows "\<exists>st' es. drain_plugin n accept at budget p handled items (s, sink, report, count) = Some st'
    \<and> handed_by_plugin accept budget p handled items (s, sink, report, count) es st' \<and> length es \<le> n
    \<and> (handled = 0 \<and> 0 < n \<and> count < dg_total_batches budget \<and> entries_of s p \<noteq> [] \<longrightarrow> es \<noteq> [])"
  using assms
proof (induction n arbitrary: s sink report count handled items)
  case 0
  show ?case by (intro exI [of _ "(s, sink, report, count)"] exI [of _ "[]"]) (simp add: handed_nothing)
next
  case (Suc n)
  have stop: ?case if "drain_plugin (Suc n) accept at budget p handled items (s, sink, report, count) = Some (s, sink, report, count)"
    "handled \<noteq> 0 \<or> dg_total_batches budget \<le> count \<or> entries_of s p = []"
    using that by (intro exI [of _ "(s, sink, report, count)"] exI [of _ "[]"]) (auto simp: handed_nothing)
  show ?case
  proof (cases "dg_total_batches budget \<le> count \<or> entries_of s p = []")
    case True
    then show ?thesis by (intro stop) (auto simp: front_entry_eq)
  next
    case False
    then obtain e rest where e: "entries_of s p = e # rest" and room: "count < dg_total_batches budget"
      by (auto simp: neq_Nil_conv)
    have front: "front_entry p s = Some e" by (simp add: front_entry_eq e)
    show ?thesis
    proof (cases "0 < handled \<and> dg_items_per_plugin budget - items < en_items e")
      case True
      with front room show ?thesis by (intro stop) auto
    next
      case go: False
      obtain u where u: "pop_entry p s = Some (u, e)" using pop_entry_Some [OF Suc.prems(1) e] by blast
      obtain sink1 r where r: "accept sink (ib_batch (en_inbound e)) = (sink1, r)" by force
      obtain q where "map_of (iq_plugins u) p = Some q" using pop_entry_ok(7) [OF Suc.prems(1) u] by blast
      then obtain v where v: "note_merge_result at p e r (u, report) = Some (v, extended report [(p, e)] [r])" "took u [] v"
        by (rule note_merge_took)
      have took: "took s [(p, e)] v" using took_Nil_trans(1) [OF v(2) took_pop [OF took_nothing u]] by simp
      have ok: "intake_ok v" using took_ok [OF took Suc.prems(1)] by simp
      from Suc.IH [OF ok Suc.prems(2)] obtain st' es where
        step: "drain_plugin n accept at budget p (Suc handled) (usize_sat_add items (en_items e))
          (v, sink1, extended report [(p, e)] [r], count + 1) = Some st'"
        and es: "handed_by_plugin accept budget p (Suc handled) (usize_sat_add items (en_items e))
          (v, sink1, extended report [(p, e)] [r], count + 1) es st'" "length es \<le> n" by blast
      have "drain_plugin (Suc n) accept at budget p handled items (s, sink, report, count) = Some st'"
        using front room go u r v(1) step by auto
      with handed_Cons [OF es(1) took r room Suc.prems(2) go] es(2) show ?thesis by fastforce
    qed
  qed
qed

section \<open>One round\<close>

abbreviation part :: "plugin_id \<Rightarrow> (plugin_id \<times> entry) list \<Rightarrow> entry list" where
  "part p hs \<equiv> map snd (filter (\<lambda>(k, e). k = p) hs)"

lemma part_Pair [simp]: "part p (map (Pair k) es) = (if k = p then es else [])"
  by (simp add: filter_map comp_def)

text \<open>
  What a round over the plugins \<open>ps\<close> hands over: nothing twice past the budgets, and
  while the total budget lasts something of every plugin that has anything.
\<close>

definition fair_share :: "drain_budget \<Rightarrow> plugin_id list \<Rightarrow> (plugin_id \<Rightarrow> entry list) \<Rightarrow> nat \<Rightarrow> (plugin_id \<times> entry) list \<Rightarrow> bool" where
  "fair_share budget ps xs left hs \<longleftrightarrow>
     length hs \<le> left
     \<and> fst ` set hs \<subseteq> set ps
     \<and> (\<forall>p. length (part p hs) \<le> dg_batches_per_plugin budget \<and> within_items (dg_items_per_plugin budget) (part p hs))
     \<and> (0 < dg_batches_per_plugin budget \<and> length hs < left \<longrightarrow> (\<forall>p \<in> set ps. xs p \<noteq> [] \<longrightarrow> part p hs \<noteq> []))"

lemma part_outside: "fst ` set hs \<subseteq> K \<Longrightarrow> p \<notin> K \<Longrightarrow> part p hs = []"
  by (force simp: filter_empty_conv)

lemma fair_share_Cons:
  assumes share: "fair_share budget ps ys (left - length es) hs" and out: "p \<notin> set ps"
    and other: "\<And>k. k \<noteq> p \<Longrightarrow> ys k = xs k" and fits: "length es \<le> left" "length es \<le> dg_batches_per_plugin budget"
    and items: "within_items (dg_items_per_plugin budget) es"
    and some: "0 < dg_batches_per_plugin budget \<Longrightarrow> xs p \<noteq> [] \<Longrightarrow> es \<noteq> []"
  shows "fair_share budget (p # ps) xs left (map (Pair p) es @ hs)"
proof -
  have sub: "fst ` set hs \<subseteq> set ps" using share by (simp add: fair_share_def)
  have parts: "part k (map (Pair p) es @ hs) = (if k = p then es else part k hs)" for k
    using part_outside [OF sub out] by (simp add: filter_map comp_def)
  have "part k (map (Pair p) es @ hs) \<noteq> []"
    if "0 < dg_batches_per_plugin budget" "length (map (Pair p) es @ hs) < left" "k \<in> set (p # ps)" "xs k \<noteq> []" for k
  proof (cases "k = p")
    case True
    with some that show ?thesis by (simp add: parts)
  next
    case False
    with share that other [OF False] show ?thesis unfolding parts by (simp add: fair_share_def)
  qed
  moreover have "length (part k (map (Pair p) es @ hs)) \<le> dg_batches_per_plugin budget
      \<and> within_items (dg_items_per_plugin budget) (part k (map (Pair p) es @ hs))" for k
    unfolding parts using share fits items by (simp add: fair_share_def)
  ultimately show ?thesis
    using sub share fits(1) unfolding fair_share_def by (auto simp: image_iff)
qed

text \<open>Up to the last index it took from, the round passed over no plugin that had anything.\<close>

definition visited ::
  "drain_budget \<Rightarrow> plugin_id list \<Rightarrow> nat list \<Rightarrow> (plugin_id \<Rightarrow> entry list) \<Rightarrow> (plugin_id \<times> entry) list \<Rightarrow> nat option \<Rightarrow> nat option \<Rightarrow> bool" where
  "visited budget order is xs hs handled handled' \<longleftrightarrow>
     (if hs = [] then handled' = handled
      else \<exists>done i rest. is = done @ i # rest \<and> handled' = Some i
             \<and> (0 < dg_batches_per_plugin budget \<longrightarrow> (\<forall>k \<in> set (done @ [i]). xs (order ! k) \<noteq> [] \<longrightarrow> part (order ! k) hs \<noteq> [])))"

lemma visitedI:
  assumes "hs \<noteq> []" and "is = before @ i # after" and "handled' = Some i"
    and "\<And>k. 0 < dg_batches_per_plugin budget \<Longrightarrow> k \<in> set (before @ [i]) \<Longrightarrow> xs (order ! k) \<noteq> [] \<Longrightarrow> part (order ! k) hs \<noteq> []"
  shows "visited budget order is xs hs handled handled'"
proof -
  have "is = before @ i # after \<and> handled' = Some i
      \<and> (0 < dg_batches_per_plugin budget \<longrightarrow> (\<forall>k \<in> set (before @ [i]). xs (order ! k) \<noteq> [] \<longrightarrow> part (order ! k) hs \<noteq> []))"
    using assms(2-4) by blast
  then show ?thesis unfolding visited_def using assms(1) by auto
qed

lemma visited_Cons:
  assumes rest: "visited budget order is ys hs (if es = [] then handled else Some i) handled'"
    and other: "\<And>k. k \<noteq> order ! i \<Longrightarrow> ys k = xs k"
    and some: "0 < dg_batches_per_plugin budget \<Longrightarrow> xs (order ! i) \<noteq> [] \<Longrightarrow> es \<noteq> []"
  shows "visited budget order (i # is) xs (map (Pair (order ! i)) es @ hs) handled handled'"
proof (cases "hs = []")
  case True
  show ?thesis
  proof (cases "es = []")
    case False
    then show ?thesis
      by (intro visitedI [where before = "[]" and i = i and after = "is"])
        (use True rest in \<open>simp_all add: visited_def filter_map comp_def\<close>)
  qed (use True rest in \<open>simp add: visited_def\<close>)
next
  case False
  with rest obtain before j after where split: "is = before @ j # after" "handled' = Some j"
    and served: "0 < dg_batches_per_plugin budget \<Longrightarrow> k \<in> set (before @ [j]) \<Longrightarrow> ys (order ! k) \<noteq> [] \<Longrightarrow> part (order ! k) hs \<noteq> []" for k
    by (auto simp: visited_def)
  have "part (order ! k) (map (Pair (order ! i)) es @ hs) \<noteq> []"
    if "0 < dg_batches_per_plugin budget" "k \<in> set ((i # before) @ [j])" "xs (order ! k) \<noteq> []" for k
  proof (cases "order ! k = order ! i")
    case True
    with some that show ?thesis by (simp add: filter_map comp_def)
  next
    case ne: False
    then have "k \<in> set (before @ [j])" using that(2) by auto
    with served [OF that(1)] that(3) other [OF ne] show ?thesis by simp
  qed
  then show ?thesis
    by (intro visitedI [where before = "i # before" and i = j and after = after]) (use split False in simp_all)
qed

lemma drain_round_hands:
  assumes "intake_ok s" and "distinct (map ((!) (iq_order s)) is)" and "\<forall>i \<in> set is. i < length (iq_order s)"
    and "dg_items_per_plugin budget \<le> usize_max"
  shows "\<exists>t sink' report' count' handled' hs.
    drain_round accept at budget is (s, sink, report, count) handled = Some ((t, sink', report', count'), handled')
    \<and> took s hs t \<and> fst (hand_over accept hs sink) = sink'
    \<and> report' = extended report hs (snd (hand_over accept hs sink))
    \<and> count' = count + length hs
    \<and> fair_share budget (map ((!) (iq_order s)) is) (entries_of s) (dg_total_batches budget - count) hs
    \<and> visited budget (iq_order s) is (entries_of s) hs handled handled'"
  using assms
proof (induction "is" arbitrary: s sink report count handled)
  case Nil
  show ?case
    by (intro exI [of _ s] exI [of _ sink] exI [of _ report] exI [of _ count] exI [of _ handled] exI [of _ "[]"])
      (simp add: took_nothing fair_share_def within_items_def visited_def)
next
  case (Cons i "is")
  show ?case
  proof (cases "dg_total_batches budget \<le> count")
    case True
    then show ?thesis
      by (intro exI [of _ s] exI [of _ sink] exI [of _ report] exI [of _ count] exI [of _ handled] exI [of _ "[]"])
        (simp add: took_nothing fair_share_def within_items_def visited_def)
  next
    case False
    define p where "p = iq_order s ! i"
    from drain_plugin_hands [OF Cons.prems(1,4), of "dg_batches_per_plugin budget" accept at p 0 0 sink report count]
    obtain st' es where st': "drain_plugin (dg_batches_per_plugin budget) accept at budget p 0 0 (s, sink, report, count) = Some st'"
      and handed: "handed_by_plugin accept budget p 0 0 (s, sink, report, count) es st'" "length es \<le> dg_batches_per_plugin budget"
        "(0 :: nat) = 0 \<and> 0 < dg_batches_per_plugin budget \<and> count < dg_total_batches budget \<and> entries_of s p \<noteq> [] \<longrightarrow> es \<noteq> []"
      by blast
    obtain u sink1 report1 count1 where "st' = (u, sink1, report1, count1)" by (metis prod_cases4)
    note u = st' [unfolded this] and handed = handed [unfolded this]
    have es: "took s (map (Pair p) es) u" "fst (hand_over accept (map (Pair p) es) sink) = sink1"
        "report1 = extended report (map (Pair p) es) (snd (hand_over accept (map (Pair p) es) sink))"
        "count1 = count + length es" "length es \<le> dg_batches_per_plugin budget" "es = [] \<or> count1 \<le> dg_total_batches budget"
        "within_items (dg_items_per_plugin budget) es"
        "0 < dg_batches_per_plugin budget \<and> entries_of s p \<noteq> [] \<longrightarrow> es \<noteq> []"
      using handed False by (auto simp: handed_by_plugin_def)
    note ok = took_ok [OF es(1) Cons.prems(1)]
    have order: "iq_order u = iq_order s" using ok by (simp add: same_frame_def)
    have step: "drain_round accept at budget (i # is) (s, sink, report, count) handled
        = drain_round accept at budget is (u, sink1, report1, count1) (if es = [] then handled else Some i)"
      using Cons.prems(3) False u es(4) by (cases "es = []") (simp_all add: p_def [symmetric])
    from Cons.IH [of u, OF _ _ _ Cons.prems(4), of sink1 report1 count1 "if es = [] then handled else Some i"] ok Cons.prems(2,3) order
    obtain t sink' report' count' handled' hs where
      run: "drain_round accept at budget is (u, sink1, report1, count1) (if es = [] then handled else Some i)
        = Some ((t, sink', report', count'), handled')"
      and hs: "took u hs t" "fst (hand_over accept hs sink1) = sink'"
        "report' = extended report1 hs (snd (hand_over accept hs sink1))" "count' = count1 + length hs"
        "fair_share budget (map ((!) (iq_order s)) is) (entries_of u) (dg_total_batches budget - count1) hs"
        "visited budget (iq_order s) is (entries_of u) hs (if es = [] then handled else Some i) handled'" by auto
    have out: "p \<notin> set (map ((!) (iq_order s)) is)" using Cons.prems(2) by (simp add: p_def)
    have other: "entries_of u k = entries_of s k" if "k \<noteq> p" for k using ok that by simp
    have "fair_share budget (p # map ((!) (iq_order s)) is) (entries_of s) (dg_total_batches budget - count) (map (Pair p) es @ hs)"
      by (rule fair_share_Cons [OF _ out other]) (use hs(5) es(4-8) in auto)
    moreover have "visited budget (iq_order s) (i # is) (entries_of s) (map (Pair p) es @ hs) handled handled'"
      unfolding p_def by (rule visited_Cons [OF hs(6) other [unfolded p_def]]) (use es(8) in \<open>simp_all add: p_def\<close>)
    moreover have "report' = extended report (map (Pair p) es @ hs) (snd (hand_over accept (map (Pair p) es @ hs) sink))"
      using hs(3) es(2,3) hand_over_length [of accept "map (Pair p) es" sink]
      by (simp add: extended_append hand_over_append Let_def case_prod_beta)
    moreover have "fst (hand_over accept (map (Pair p) es @ hs) sink) = sink'"
      using hs(2) es(2) by (simp add: hand_over_append Let_def case_prod_beta)
    moreover have "count' = count + length (map (Pair p) es @ hs)" using hs(4) es(4) by simp
    ultimately show ?thesis
      unfolding step run using took_trans [OF hs(1) es(1)] by (auto simp: p_def)
  qed
qed

section \<open>One pass\<close>

text \<open>The plugins in the order the pass visits them.\<close>

definition drain_order :: "inbound_result_queue \<Rightarrow> plugin_id list" where
  "drain_order s = rotate (iq_drain_cursor s mod length (iq_order s)) (iq_order s)"

lemma rotation_indices:
  "map ((!) xs \<circ> (\<lambda>offset. (n mod length xs + offset) mod length xs)) [0..<length xs] = rotate (n mod length xs) xs"
  by (rule nth_equalityI) (auto simp: nth_rotate add.commute)

lemma sum_live_le: "(\<Sum>k \<leftarrow> ps. length (live_of s k)) \<le> (\<Sum>k \<leftarrow> ps. length (entries_of s k))"
  by (rule sum_list_mono) (rule live_of_le)

text \<open>How many plugins the next pass visits before \<open>p\<close>.\<close>

definition drain_lag :: "inbound_result_queue \<Rightarrow> plugin_id \<Rightarrow> nat" where
  "drain_lag s p = length (takeWhile (\<lambda>k. k \<noteq> p) (drain_order s))"

lemma takeWhile_rotated:
  assumes "p \<in> set ys" and "p \<notin> set xs" and "xs \<noteq> []"
  shows "length (takeWhile (\<lambda>k. k \<noteq> p) (ys @ xs)) < length (takeWhile (\<lambda>k. k \<noteq> p) (xs @ ys))"
proof -
  have "takeWhile (\<lambda>k. k \<noteq> p) (ys @ xs) = takeWhile (\<lambda>k. k \<noteq> p) ys"
    using assms(1) by (intro takeWhile_append1) auto
  moreover have "takeWhile (\<lambda>k. k \<noteq> p) (xs @ ys) = xs @ takeWhile (\<lambda>k. k \<noteq> p) ys"
    using assms(2) by (intro takeWhile_append2) auto
  ultimately show ?thesis using assms(3) by simp
qed

text \<open>A pass that spends its total budget before it reaches \<open>p\<close> resumes closer to \<open>p\<close>.\<close>

lemma resumes_closer:
  assumes xs: "xs \<noteq> []" and "is": "is = map (\<lambda>offset. (start + offset) mod length xs) [0..<length xs]"
    and split: "is = before @ i # after" and p: "p \<in> set xs" "\<And>k. k \<in> set (before @ [i]) \<Longrightarrow> xs ! k \<noteq> p"
  shows "length (takeWhile (\<lambda>k. k \<noteq> p) (rotate ((i + 1) mod length xs) xs)) < length (takeWhile (\<lambda>k. k \<noteq> p) (rotate start xs))"
proof -
  let ?n = "length xs" and ?a = "length before"
  have rot: "map ((!) xs) is = rotate start xs"
    unfolding "is" map_map by (rule nth_equalityI) (auto simp: nth_rotate add.commute)
  have "length is = ?n" by (simp add: "is")
  then have a: "?a < ?n" using split by (metis add_Suc_right length_Cons length_append less_add_Suc1)
  have "i = is ! ?a" by (simp add: split)
  then have i: "i = (start + ?a) mod ?n" using a by (simp add: "is")
  have "rotate ((i + 1) mod ?n) xs = rotate (Suc ?a) (rotate start xs)"
    unfolding i rotate_rotate by (subst (1 2) rotate_conv_mod) (simp add: mod_simps ac_simps)
  also have "\<dots> = map ((!) xs) after @ map ((!) xs) (before @ [i])"
    using rotate_append [of "map ((!) xs) (before @ [i])" "map ((!) xs) after"] by (simp add: rot [symmetric] split)
  finally have next_pass: "rotate ((i + 1) mod ?n) xs = map ((!) xs) after @ map ((!) xs) (before @ [i])" .
  have this_pass: "rotate start xs = map ((!) xs) (before @ [i]) @ map ((!) xs) after" by (simp add: rot [symmetric] split)
  have out: "p \<notin> set (map ((!) xs) (before @ [i]))" using p(2) by auto
  moreover have "p \<in> set (map ((!) xs) after)"
    using p(1) out this_pass by (metis Un_iff set_append set_rotate)
  ultimately show ?thesis unfolding next_pass this_pass by (intro takeWhile_rotated) simp_all
qed

lemma drain_into_hands:
  assumes ok: "intake_ok s" and budget: "dg_items_per_plugin budget \<le> usize_max"
  obtains t sink' report hs where "drain_into accept at budget s sink = Some (t, sink', report)" "intake_ok t" "same_frame s t"
    "sink' = fst (hand_over accept hs sink)"
    "report = extended (empty_report (iq_total_batches s - (\<Sum>k \<leftarrow> iq_order s. length (live_of s k)))) hs (snd (hand_over accept hs sink))"
    "\<And>p. live_of s p = part p hs @ entries_of t p" "entries_of t = live_of t"
    "fair_share budget (drain_order s) (live_of s) (dg_total_batches budget) hs"
    "\<And>p. 0 < dg_batches_per_plugin budget \<Longrightarrow> 0 < dg_total_batches budget \<Longrightarrow> p \<in> set (iq_order s) \<Longrightarrow>
      live_of s p \<noteq> [] \<Longrightarrow> part p hs = [] \<Longrightarrow> drain_lag t p < drain_lag s p"
proof -
  obtain u d es where u: "reclaim_obsolete at s = Some (u, d)" and cur: "iq_drain_cursor u = iq_drain_cursor s"
    and es: "took s es u" "d = length es" "\<And>p. entries_of u p = live_of s p"
    by (rule reclaim_obsolete_took [OF ok]) blast
  note tu = took_ok [OF es(1) ok]
  have oku: "intake_ok u" and fr: "same_frame s u" using tu by simp_all
  have eu: "entries_of u = live_of s" using es(3) by (rule ext)
  have order: "iq_order u = iq_order s" using fr by (simp add: same_frame_def)
  have d: "d = iq_total_batches s - (\<Sum>k \<leftarrow> iq_order s. length (live_of s k))"
    using tu totals_by_order(1) [OF oku] es(2,3) by (simp add: order)
  have live: "live_of v = entries_of v" if "took u hs v" for hs v
  proof (rule live_of_all_live [OF same_frame_trans [OF fr]])
    note tv = took_ok [OF that oku]
    show "same_frame u v" using tv by simp
    show "\<not> obsolete s e" if "e \<in> set (entries_of v p)" for p e
    proof -
      have "entries_of u p = part p hs @ entries_of v p" using tv by blast
      with that have "e \<in> set (live_of s p)" by (metis Un_iff es(3) set_append)
      then show ?thesis by (simp add: live_of_def)
    qed
  qed
  show ?thesis
  proof (cases "iq_order s = []")
    case True
    then have res: "drain_into accept at budget s sink = Some (u, sink, empty_report d)"
      by (simp add: drain_into_def u Let_def order)
    show ?thesis
    proof (rule that [OF res, of "[]"])
      show "fair_share budget (drain_order s) (live_of s) (dg_total_batches budget) []"
        by (simp add: fair_share_def drain_order_def True within_items_def)
      show "live_of s p = part p [] @ entries_of u p" for p using es(3) by simp
      show "entries_of u = live_of u" using live [OF took_nothing] by simp
    qed (use oku fr d True in simp_all)
  next
    case False
    let ?is = "map (\<lambda>offset. (iq_drain_cursor u mod length (iq_order s) + offset) mod length (iq_order s)) [0..<length (iq_order s)]"
    have ps: "map ((!) (iq_order u)) ?is = drain_order s"
      unfolding order cur drain_order_def map_map by (rule rotation_indices)
    have "distinct (map ((!) (iq_order u)) ?is)" unfolding ps using ok by (simp add: drain_order_def intake_ok_def)
    moreover have "\<forall>i \<in> set ?is. i < length (iq_order u)" using False by (simp add: order)
    ultimately obtain v sink1 report1 count1 last1 hs where
      v: "drain_round accept at budget ?is (u, sink, empty_report d, 0) None = Some ((v, sink1, report1, count1), last1)"
      and hs: "took u hs v" "fst (hand_over accept hs sink) = sink1"
        "report1 = extended (empty_report d) hs (snd (hand_over accept hs sink))"
        "fair_share budget (drain_order s) (live_of s) (dg_total_batches budget) hs"
        "count1 = length hs" "visited budget (iq_order s) ?is (live_of s) hs None last1"
      using drain_round_hands [OF oku _ _ budget, of ?is accept at sink "empty_report d" 0 None]
      unfolding ps eu by (auto simp: order)
    define c where "c = (case last1 of
        Some index \<Rightarrow> if dg_total_batches budget \<le> count1 then (index + 1) mod length (iq_order s)
                     else (iq_drain_cursor u mod length (iq_order s) + 1) mod length (iq_order s)
      | None \<Rightarrow> if 0 < dg_total_batches budget then (iq_drain_cursor u mod length (iq_order s) + 1) mod length (iq_order s)
               else iq_drain_cursor v)"
    define g where "g = (case iq_active v of Some g \<Rightarrow> g | None \<Rightarrow> iq_retirement_floor v)"
    note okv = took_ok [OF hs(1) oku]
    have "map_of (iq_plugins (v\<lparr>iq_drain_cursor := c\<rparr>)) p \<noteq> None" if "p \<in> set (iq_order v)" for p
      using okv that by (simp add: intake_ok_def map_of_eq_None_iff)
    from reconcile_each_took [OF this, of "iq_order v" at g] obtain t where
      t: "reconcile_each at g (iq_order v) (v\<lparr>iq_drain_cursor := c\<rparr>) = Some t" "took (v\<lparr>iq_drain_cursor := c\<rparr>) [] t"
        "iq_drain_cursor t = c" by auto
    have res: "drain_into accept at budget s sink = Some (t, sink1, report1)"
      using False v t(1) unfolding c_def g_def
      by (cases last1; cases "iq_active v") (auto simp: drain_into_def u Let_def order split: if_splits)
    have c: "c = (i + 1) mod length (iq_order s)" if "last1 = Some i" "dg_total_batches budget \<le> count1" for i
      using that by (simp add: c_def)
    have "took v [] t" by (rule took_Nil_trans(1) [OF t(2) took_turn [OF took_nothing]])
    then have took: "took u hs t" using took_Nil_trans(1) [OF _ hs(1)] by simp
    show ?thesis
    proof (rule that [OF res, of hs])
      show "live_of s p = part p hs @ entries_of t p" for p using took_ok [OF took oku] eu by metis
      show "intake_ok t" "same_frame s t" using took_ok [OF took oku] same_frame_trans [OF fr] by auto
      show "entries_of t = live_of t" by (rule live [OF took, symmetric])
      show "drain_lag t p < drain_lag s p" if "0 < dg_batches_per_plugin budget" "0 < dg_total_batches budget"
        "p \<in> set (iq_order s)" "live_of s p \<noteq> []" "part p hs = []" for p
      proof -
        note asm = that
        have spent: "dg_total_batches budget \<le> length hs"
          using hs(4) asm by (force simp: fair_share_def drain_order_def)
        then have "hs \<noteq> []" using asm(2) by auto
        with hs(6) obtain before i after where split: "?is = before @ i # after" "last1 = Some i"
          and seen: "\<forall>k \<in> set (before @ [i]). live_of s (iq_order s ! k) \<noteq> [] \<longrightarrow> part (iq_order s ! k) hs \<noteq> []"
          using asm(1) unfolding visited_def by auto
        have "iq_order s ! k \<noteq> p" if "k \<in> set (before @ [i])" for k
          using seen that \<open>live_of s p \<noteq> []\<close> \<open>part p hs = []\<close> by auto
        from resumes_closer [OF False refl split(1) asm(3) this]
        have "length (takeWhile (\<lambda>k. k \<noteq> p) (rotate c (iq_order s))) < drain_lag s p"
          using c [OF split(2)] spent hs(5) by (simp add: drain_lag_def drain_order_def cur)
        moreover have "iq_order t = iq_order s" using took_ok [OF took oku] order by (simp add: same_frame_def)
        ultimately show ?thesis using t(3) by (simp add: drain_lag_def drain_order_def rotate_conv_mod [symmetric])
      qed
    qed (use hs d in simp_all)
  qed
qed

end
