(* ===== verification/Intake_Props.thy ===== *)
theory Intake_Props
  imports Intake_Drain Aggregator_Props
begin

text \<open>
  The properties of the intake queue over every sequence of its operations, and of the
  queue together with the aggregator it drains into.
\<close>

section \<open>The other operations keep the invariant\<close>

lemma normalized_policy_ok: "intake_policy_ok (normalize_intake_policy p)"
  by (auto simp: intake_policy_ok_def normalize_intake_policy_def Let_def)

lemma intake_ok_new: "intake_ok (intake_new limits)"
  by (simp add: intake_ok_def intake_new_def entry_total_def item_total_def gate_ok_def iq_gate_def)

lemma intake_ok_gate:
  assumes "intake_ok s" and "iq_active s' = a" "iq_retirement_floor s' = f" "s' = s\<lparr>iq_active := a, iq_retirement_floor := f\<rparr>"
    and "gate_ok (a, f)" and "\<And>g. gate_admits (iq_gate s) g \<Longrightarrow> gate_admits (a, f) g"
  shows "intake_ok s'"
proof -
  have "list_all (\<lambda>(p, q). queue_ok (iq_gate s') p q) (iq_plugins s)"
    using assms by (auto simp: intake_ok_def list_all_iff queue_ok_def iq_gate_def)
  with assms show ?thesis
    by (simp add: intake_ok_def entry_total_def item_total_def iq_gate_def)
qed

lemma intake_ok_begin:
  assumes "intake_ok s"
  shows "intake_ok (intake_begin_generation g s)"
proof (cases "g < iq_retirement_floor s \<or> (case iq_active s of None \<Rightarrow> False | Some a \<Rightarrow> g \<le> a)")
  case False
  then have eq: "intake_begin_generation g s = s\<lparr>iq_active := Some g, iq_retirement_floor := iq_retirement_floor s\<rparr>"
    by (simp add: intake_begin_generation_def)
  show ?thesis
  proof (rule intake_ok_gate [OF assms _ _ eq])
    show "gate_ok (Some g, iq_retirement_floor s)" using False by (simp add: gate_ok_def not_less)
    show "gate_admits (Some g, iq_retirement_floor s) h" if "gate_admits (iq_gate s) h" for h
      using that False by (cases "iq_active s") (auto simp: gate_admits_def iq_gate_def)
  qed (simp_all add: eq)
qed (use assms in \<open>auto simp: intake_begin_generation_def\<close>)

lemma gate_admits_retire:
  assumes "gate_ok (a, f)" "gate_admits (a, f) h" "f < g"
  shows "gate_admits (if (case a of None \<Rightarrow> False | Some x \<Rightarrow> x < g) then None else a, g) h"
  using assms by (cases a) (auto simp: gate_admits_def gate_ok_def)

lemma intake_ok_retire:
  assumes "intake_ok s"
  shows "intake_ok (intake_retire_before g s)"
proof (cases "g \<le> iq_retirement_floor s")
  case False
  let ?a = "if (case iq_active s of None \<Rightarrow> False | Some x \<Rightarrow> x < g) then None else iq_active s"
  have eq: "intake_retire_before g s = s\<lparr>iq_active := ?a, iq_retirement_floor := g\<rparr>"
    using False by (cases "iq_active s") (simp_all add: intake_retire_before_def Let_def)
  have gate: "gate_ok (iq_active s, iq_retirement_floor s)" using assms by (simp add: intake_ok_def iq_gate_def)
  show ?thesis
  proof (rule intake_ok_gate [OF assms _ _ eq])
    show "gate_ok (?a, g)" by (auto simp: gate_ok_def split: option.splits)
    show "gate_admits (?a, g) h" if "gate_admits (iq_gate s) h" for h
      using gate_admits_retire [OF gate, of h g] that False by (simp add: iq_gate_def)
  qed (simp_all add: eq)
qed (use assms in \<open>simp add: intake_retire_before_def\<close>)

lemma intake_ok_register:
  assumes "intake_ok s"
  shows "intake_ok (intake_register p policy s)"
proof (cases "map_of (iq_plugins s) p")
  case (Some q)
  then obtain st where "intake_register p policy s =
      modify_queue p (\<lambda>q. q\<lparr>pq_policy := normalize_intake_policy policy, pq_state := st\<rparr>) s"
    by (simp add: intake_register_def Let_def)
  then show ?thesis using intake_ok_relabel [OF assms] by (simp add: normalized_policy_ok)
next
  case None
  have new: "p \<notin> fst ` set (iq_plugins s)" using None by (simp add: map_of_eq_None_iff)
  have "queue_ok (iq_gate s) p (plugin_queue_new (normalize_intake_policy policy))"
    by (simp add: queue_ok_def plugin_queue_new_def normalized_policy_ok)
  then show ?thesis
    using assms new None
    by (auto simp: intake_register_def Let_def intake_ok_def update_absent iq_gate_def entry_total_def item_total_def
        plugin_queue_new_def)
qed

lemma position_remove1: "position x xs = Some n \<Longrightarrow> take n xs @ drop (Suc n) xs = remove1 x xs"
  by (induction xs arbitrary: n) (auto split: if_splits)

lemma position_None: "position x xs = None \<longleftrightarrow> x \<notin> set xs"
  by (induction xs) auto

lemma intake_ok_unregister:
  assumes ok: "intake_ok s"
  shows "intake_ok (fst (intake_unregister p s))"
proof (cases "map_of (iq_plugins s) p")
  case (Some q)
  have dist: "distinct (map fst (iq_plugins s))" using ok by (simp add: intake_ok_def)
  have "p \<in> set (iq_order s)" using registered_in_order [OF ok, of p] Some by auto
  then obtain n where n: "position p (iq_order s) = Some n" using position_None [of p "iq_order s"] by auto
  define t where "t = fst (intake_unregister p s)"
  have t: "iq_plugins t = AList.delete p (iq_plugins s)" "iq_order t = remove1 p (iq_order s)"
    "iq_limits t = iq_limits s" "iq_gate t = iq_gate s"
    "iq_total_batches t = iq_total_batches s - length (pq_entries q)" "iq_total_items t = iq_total_items s - pq_items q"
    "iq_events t = filter (\<lambda>e. qe_plugin e \<noteq> p) (iq_events s)"
    using Some n position_remove1 [OF n]
    by (simp_all add: t_def intake_unregister_def Let_def iq_gate_def)
  have sums: "entry_total t + length (pq_entries q) = entry_total s" "item_total t + pq_items q = item_total s"
    using sum_values_delete [OF dist Some, of "\<lambda>q. length (pq_entries q)"] sum_values_delete [OF dist Some, of pq_items]
    by (simp_all add: entry_total_def item_total_def t(1))
  have "set (iq_order t) = fst ` set (iq_plugins t)"
    using ok by (auto simp: t intake_ok_def AList.delete_eq)
  moreover have "length (iq_events t) \<le> ql_capacity_batches (iq_limits s)"
    using ok unfolding t intake_ok_def by (meson le_trans length_filter_le)
  moreover have "distinct (map fst (iq_plugins t))" using dist by (simp add: t distinct_delete)
  moreover have "distinct (iq_order t)" using ok by (simp add: t intake_ok_def)
  moreover have "list_all (\<lambda>(p, q). queue_ok (iq_gate t) p q) (iq_plugins t)"
    using ok by (simp add: t intake_ok_def list_all_delete)
  ultimately show ?thesis
    using ok sums [symmetric] unfolding t_def [symmetric] by (simp add: intake_ok_def t)
qed (use ok in \<open>simp add: intake_unregister_def\<close>)

lemma intake_ok_take_events: "intake_ok s \<Longrightarrow> intake_ok (fst (take_events s))"
  by (simp add: intake_ok_def take_events_def entry_total_def item_total_def iq_gate_def)

section \<open>Histories\<close>

text \<open>Every operation of the queue; a drain goes into some aggregator.\<close>

datatype intake_op =
    InRegister plugin_id intake_policy
  | InUnregister plugin_id
  | InBegin generation
  | InRetire generation
  | InSubmit u64 inbound_batch
  | InDrain u64 drain_budget memory_result_aggregator
  | InTakeEvents

fun intake_exec :: "intake_op \<Rightarrow> inbound_result_queue \<Rightarrow> inbound_result_queue option" where
  "intake_exec (InRegister p policy) s = Some (intake_register p policy s)"
| "intake_exec (InUnregister p) s = Some (fst (intake_unregister p s))"
| "intake_exec (InBegin g) s = Some (intake_begin_generation g s)"
| "intake_exec (InRetire g) s = Some (intake_retire_before g s)"
| "intake_exec (InSubmit now b) s = map_option fst (intake_submit now b s)"
| "intake_exec (InDrain now budget sink) s = map_option fst (drain_into ag_accept now budget s sink)"
| "intake_exec InTakeEvents s = Some (fst (take_events s))"

fun intake_run :: "intake_op list \<Rightarrow> inbound_result_queue \<Rightarrow> inbound_result_queue option" where
  "intake_run [] s = Some s"
| "intake_run (op # ops) s = (case intake_exec op s of None \<Rightarrow> None | Some s' \<Rightarrow> intake_run ops s')"

text \<open>A budget is a record of machine sizes.\<close>

fun op_sized :: "intake_op \<Rightarrow> bool" where
  "op_sized (InDrain now budget sink) = (dg_items_per_plugin budget \<le> usize_max)"
| "op_sized op = True"

lemma intake_exec_ok:
  assumes "intake_ok s" and "op_sized op"
  shows "\<exists>t. intake_exec op s = Some t \<and> intake_ok t \<and> iq_limits t = iq_limits s"
proof (cases op)
  case (InRegister p policy)
  then show ?thesis
    using intake_ok_register [OF assms(1), of p policy]
    by (simp add: intake_register_def Let_def split: option.splits)
next
  case (InUnregister p)
  then show ?thesis
    using intake_ok_unregister [OF assms(1), of p]
    by (simp add: intake_unregister_def Let_def split: option.splits)
next
  case (InSubmit now b)
  then show ?thesis using intake_submit_effect [OF assms(1), of now b] by (auto simp: same_frame_def)
next
  case (InDrain now budget sink)
  then have "dg_items_per_plugin budget \<le> usize_max" using assms(2) by simp
  then obtain t where "map_option fst (drain_into ag_accept now budget s sink) = Some t" "intake_ok t" "same_frame s t"
    by (rule drain_into_hands [OF assms(1)]) auto
  with InDrain show ?thesis by (auto simp: same_frame_def)
next
  case (InRetire g)
  then show ?thesis using intake_ok_retire [OF assms(1), of g] by (simp add: intake_retire_before_def Let_def)
qed (use assms(1) in \<open>simp_all add: intake_ok_begin intake_ok_take_events, simp_all add: intake_begin_generation_def take_events_def\<close>)

lemma intake_run_ok:
  "intake_ok s \<Longrightarrow> list_all op_sized ops \<Longrightarrow> \<exists>t. intake_run ops s = Some t \<and> intake_ok t \<and> iq_limits t = iq_limits s"
proof (induction ops arbitrary: s)
  case (Cons op ops)
  then obtain u where u: "intake_exec op s = Some u" "intake_ok u" "iq_limits u = iq_limits s"
    using intake_exec_ok [of s op] by auto
  with Cons.IH [OF u(2)] Cons.prems show ?case by auto
qed simp

lemma reached_ok:
  assumes "list_all op_sized ops" and "intake_run ops (intake_new limits) = Some s"
  shows "intake_ok s" and "iq_limits s = limits"
  using intake_run_ok [OF intake_ok_new [of limits] assms(1)] assms(2) by (auto simp: intake_new_def)

section \<open>Properties\<close>

text \<open>
  C24: whatever sequence of registrations, generations, submissions, drains and event reads
  a fresh intake queue goes through, no operation panics; the totals are exactly what the
  queues hold and never exceed the boundary limits, the event ring is bounded, and every
  queue holds batches of its own plugin only, in order of generation.
\<close>

theorem intake_bounded:
  assumes "list_all op_sized ops"
  shows "\<exists>s. intake_run ops (intake_new limits) = Some s
    \<and> iq_total_batches s = (\<Sum>p \<leftarrow> iq_order s. length (entries_of s p))
    \<and> iq_total_items s = (\<Sum>p \<leftarrow> iq_order s. items_in (entries_of s p))
    \<and> iq_total_batches s \<le> ql_capacity_batches limits \<and> iq_total_items s \<le> ql_capacity_items limits
    \<and> length (iq_events s) \<le> ql_capacity_batches limits
    \<and> (\<forall>p. sorted (map en_generation (entries_of s p))
         \<and> list_all (\<lambda>e. rb_plugin (ib_batch (en_inbound e)) = p) (entries_of s p))"
proof -
  obtain s where s: "intake_run ops (intake_new limits) = Some s" "intake_ok s" "iq_limits s = limits"
    using intake_run_ok [OF intake_ok_new assms, of limits] by (auto simp: intake_new_def)
  have "iq_total_batches s \<le> ql_capacity_batches limits \<and> iq_total_items s \<le> ql_capacity_items limits
      \<and> length (iq_events s) \<le> ql_capacity_batches limits"
    using s(2,3) by (simp add: intake_ok_def)
  with s totals_by_order [OF s(2)] queue_entries_ok [OF s(2)] show ?thesis by (auto simp: list_all_iff)
qed

definition demo_queue_limits :: queue_limits where
  "demo_queue_limits = \<lparr>ql_capacity_batches = 2, ql_capacity_items = 4\<rparr>"

definition demo_intake_policy :: "overflow_policy \<Rightarrow> intake_policy" where
  "demo_intake_policy overflow =
     \<lparr>ip_capacity_batches = 2, ip_capacity_items = 3, ip_pause_at_batches = 2, ip_resume_at_batches = 0, ip_overflow = overflow\<rparr>"

definition demo_inbound :: "batch_state \<Rightarrow> item_id list \<Rightarrow> inbound_batch" where
  "demo_inbound st ids = \<lparr>ib_batch = demo_batch st ids, ib_priority = PriorityHigh\<rparr>"

definition demo_intake_ops :: "overflow_policy \<Rightarrow> intake_op list" where
  "demo_intake_ops overflow =
     [InRegister ''files'' (demo_intake_policy overflow), InBegin 1,
      InSubmit 5 (demo_inbound BatchPartial [''a'', ''b'']), InSubmit 6 (demo_inbound BatchPartial [''c''])]"

lemma demo_intake_sized: "list_all op_sized (demo_intake_ops overflow)"
  by (simp add: demo_intake_ops_def)

theorem intake_bounded_witness:
  "\<exists>s. intake_run (demo_intake_ops OvReplaceOldest) (intake_new demo_queue_limits) = Some s
     \<and> iq_total_batches s \<le> 2 \<and> iq_total_items s \<le> 4"
  using intake_bounded [OF demo_intake_sized [of OvReplaceOldest], of demo_queue_limits]
  by (auto simp: demo_queue_limits_def)

text \<open>
  C25: in every reachable state a submission decides exactly as the reference
  \<open>admission\<close>, which looks at the batches of the active generation only: obsolete
  batches never cost a live one its place. A rejection leaves the live batches as they are
  and returns the reason; an admission appends the batch, after evicting as few of the
  plugin's oldest live batches as make room under the replacing policy, and the producer
  state it returns agrees with the watermarks.
\<close>

theorem submit_matches_reference:
  assumes "list_all op_sized ops" and "intake_run ops (intake_new limits) = Some s"
    and "p = rb_plugin (ib_batch b)"
  shows "\<exists>t r. intake_submit now b s = Some (t, r)
    \<and> (case admission s b of
         Some reason \<Rightarrow> r = Inl reason \<and> live_of t = live_of s
       | None \<Rightarrow>
           (\<exists>st. r = Inr st \<and> paced (policy_at s p) st (length (entries_of t p)))
           \<and> live_of t = (live_of s)(p :=
               shrink (room (policy_at s p) limits (others_of s (live_of s) p) (length (rb_items (ib_batch b)))) (live_of s p)
               @ [placed now b]))"
  using intake_submit_effect [OF reached_ok(1) [OF assms(1,2)], of now b] reached_ok(2) [OF assms(1,2)]
  unfolding submit_effect_def Let_def assms(3) by blast

theorem submit_matches_reference_witness:
  "\<exists>s t r. intake_run (demo_intake_ops OvReplaceOldest) (intake_new demo_queue_limits) = Some s
     \<and> intake_submit 7 (demo_inbound BatchFinal [''d'', ''e'']) s = Some (t, r)
     \<and> map (map it_stable_id \<circ> rb_items \<circ> ib_batch \<circ> en_inbound) (live_of s ''files'') = [[''a'', ''b''], [''c'']]
     \<and> map (map it_stable_id \<circ> rb_items \<circ> ib_batch \<circ> en_inbound) (live_of t ''files'') = [[''c''], [''d'', ''e'']]"
proof -
  let ?ops = "demo_intake_ops OvReplaceOldest" and ?b = "demo_inbound BatchFinal [''d'', ''e'']"
  obtain s where s: "intake_run ?ops (intake_new demo_queue_limits) = Some s"
    using intake_run_ok [OF intake_ok_new demo_intake_sized] by blast
  let ?s = "the (intake_run ?ops (intake_new demo_queue_limits))"
  have live: "map (map it_stable_id \<circ> rb_items \<circ> ib_batch \<circ> en_inbound) (live_of ?s ''files'') = [[''a'', ''b''], [''c'']]"
    and adm: "admission ?s ?b = None"
    and shrunk: "map (map it_stable_id \<circ> rb_items \<circ> ib_batch \<circ> en_inbound)
      (shrink (room (policy_at ?s ''files'') demo_queue_limits (others_of ?s (live_of ?s) ''files'') 2) (live_of ?s ''files''))
      = [[''c'']]"
    by code_simp+
  have p: "''files'' = rb_plugin (ib_batch ?b)" and n: "length (rb_items (ib_batch ?b)) = 2"
    and new: "(map it_stable_id \<circ> rb_items \<circ> ib_batch \<circ> en_inbound) (placed 7 ?b) = [''d'', ''e'']"
    by (simp_all add: demo_inbound_def demo_batch_def demo_item_def placed_def)
  from submit_matches_reference [OF demo_intake_sized s p, of 7] adm s n obtain t r where
    "intake_submit 7 ?b s = Some (t, r)" and "live_of t ''files'' =
      shrink (room (policy_at s ''files'') demo_queue_limits (others_of s (live_of s) ''files'') 2) (live_of s ''files'') @ [placed 7 ?b]"
    by auto
  with s live shrunk new show ?thesis by auto
qed

text \<open>
  C26: a drain offers the aggregator live batches only. From every reachable state it returns,
  and there is a list of batches it hands over such that the aggregator ends as after accepting exactly
  those in turn; the report lists exactly what was merged and refused and how many obsolete
  batches were dropped; each plugin's live batches are the ones handed over followed by
  those that stay, in their order, so nothing is lost, repeated or reordered; the batch
  and item budgets hold; and unless the total budget is spent, every plugin with a live
  batch gets one in.
\<close>

theorem drain_hands_over_live:
  assumes "list_all op_sized ops" and "intake_run ops (intake_new limits) = Some s"
    and "dg_items_per_plugin budget \<le> usize_max"
  shows "\<exists>t sink' report hs. drain_into accept now budget s sink = Some (t, sink', report)
    \<and> sink' = fst (hand_over accept hs sink)
    \<and> report = extended (empty_report (iq_total_batches s - (\<Sum>p \<leftarrow> iq_order s. length (live_of s p)))) hs (snd (hand_over accept hs sink))
    \<and> (\<forall>p. live_of s p = part p hs @ entries_of t p)
    \<and> fair_share budget (drain_order s) (live_of s) (dg_total_batches budget) hs"
  by (rule drain_into_hands [OF reached_ok(1) [OF assms(1,2)] assms(3)]) blast

definition demo_budget :: drain_budget where
  "demo_budget = \<lparr>dg_batches_per_plugin = 1, dg_items_per_plugin = 5, dg_total_batches = 4\<rparr>"

theorem drain_hands_over_live_witness:
  "\<exists>s t sink report hs. intake_run (demo_intake_ops OvPauseProducer) (intake_new demo_queue_limits) = Some s
     \<and> drain_into ag_accept 9 demo_budget s (ag_run [AgBegin 1] (ag_new demo_limits)) = Some (t, sink, report)
     \<and> live_of s ''files'' = part ''files'' hs @ entries_of t ''files'' \<and> length (part ''files'' hs) = 1"
proof -
  obtain s where s: "intake_run (demo_intake_ops OvPauseProducer) (intake_new demo_queue_limits) = Some s"
    using intake_run_ok [OF intake_ok_new demo_intake_sized] by blast
  have "length (live_of (the (intake_run (demo_intake_ops OvPauseProducer) (intake_new demo_queue_limits))) ''files'') = 2"
    and "drain_order (the (intake_run (demo_intake_ops OvPauseProducer) (intake_new demo_queue_limits))) = [''files'']"
    by code_simp+
  then have "length (live_of s ''files'') = 2" and ord: "drain_order s = [''files'']" unfolding s option.sel .
  then have live: "live_of s ''files'' \<noteq> []" by auto
  have size: "dg_items_per_plugin demo_budget \<le> usize_max" by (simp add: demo_budget_def usize_max_def)
  from drain_hands_over_live [OF demo_intake_sized s size, of ag_accept 9 "ag_run [AgBegin 1] (ag_new demo_limits)"]
  obtain t sink report hs where
    d: "drain_into ag_accept 9 demo_budget s (ag_run [AgBegin 1] (ag_new demo_limits)) = Some (t, sink, report)"
    and hs: "live_of s ''files'' = part ''files'' hs @ entries_of t ''files''"
      "fair_share demo_budget (drain_order s) (live_of s) (dg_total_batches demo_budget) hs" by blast
  have "fst ` set hs \<subseteq> {''files''}" using hs(2) ord by (simp add: fair_share_def)
  then have all: "filter (\<lambda>(k, e). k = ''files'') hs = hs" by (intro filter_True) force
  have "length (part ''files'' hs) \<le> 1" using hs(2) by (simp add: fair_share_def demo_budget_def)
  moreover have "part ''files'' hs \<noteq> []"
    using hs(2) calculation live ord unfolding fair_share_def all by (auto simp: demo_budget_def)
  ultimately have "length (part ''files'' hs) = 1" by (cases "part ''files'' hs") auto
  with s d hs(1) show ?thesis by blast
qed

section \<open>The rotation of drains\<close>

fun drain_all ::
  "('a \<Rightarrow> result_batch \<Rightarrow> 'a \<times> (reject_reason + unit)) \<Rightarrow> (u64 \<times> drain_budget) list
   \<Rightarrow> inbound_result_queue \<times> 'a \<Rightarrow> (inbound_result_queue \<times> 'a) option" where
  "drain_all accept [] st = Some st"
| "drain_all accept ((now, budget) # ds) (s, sink) =
     (case drain_into accept now budget s sink of
        None \<Rightarrow> None
      | Some (t, sink', report) \<Rightarrow> drain_all accept ds (t, sink'))"

definition serving :: "drain_budget \<Rightarrow> bool" where
  "serving budget \<longleftrightarrow>
     0 < dg_batches_per_plugin budget \<and> 0 < dg_total_batches budget \<and> dg_items_per_plugin budget \<le> usize_max"

lemma drain_step:
  assumes "intake_ok s" and "serving budget"
  obtains t sink' report xs where "drain_into accept now budget s sink = Some (t, sink', report)"
    "intake_ok t" "iq_order t = iq_order s" "live_of s p = xs @ live_of t p"
    "xs = [] \<Longrightarrow> live_of s p \<noteq> [] \<Longrightarrow> p \<in> set (iq_order s) \<Longrightarrow> drain_lag t p < drain_lag s p"
proof (rule drain_into_hands [OF assms(1), of budget accept now sink])
  fix t sink' report hs
  assume hs: "drain_into accept now budget s sink = Some (t, sink', report)" "intake_ok t" "same_frame s t"
    "\<And>p. live_of s p = part p hs @ entries_of t p" "entries_of t = live_of t"
    "\<And>p. 0 < dg_batches_per_plugin budget \<Longrightarrow> 0 < dg_total_batches budget \<Longrightarrow> p \<in> set (iq_order s) \<Longrightarrow>
      live_of s p \<noteq> [] \<Longrightarrow> part p hs = [] \<Longrightarrow> drain_lag t p < drain_lag s p"
  show thesis
    by (rule that [OF hs(1), of "part p hs"]) (use hs assms(2) in \<open>auto simp: same_frame_def serving_def\<close>)
qed (use assms(2) in \<open>simp add: serving_def\<close>)

lemma drain_all_prefix:
  "intake_ok s \<Longrightarrow> list_all (\<lambda>d. serving (snd d)) ds \<Longrightarrow>
   \<exists>t sink' xs. drain_all accept ds (s, sink) = Some (t, sink') \<and> live_of s p = xs @ live_of t p"
proof (induction ds arbitrary: s sink)
  case (Cons d ds)
  obtain now budget where d: "d = (now, budget)" by (cases d)
  have "serving budget" using Cons.prems(2) d by simp
  then obtain t sink' report xs where "drain_into accept now budget s sink = Some (t, sink', report)"
    "intake_ok t" "live_of s p = xs @ live_of t p"
    by (rule drain_step [OF Cons.prems(1), of _ accept now sink p]) blast
  with Cons.IH [of t sink'] Cons.prems show ?case by (auto simp: d)
qed simp

lemma drain_all_serves:
  "intake_ok s \<Longrightarrow> list_all (\<lambda>d. serving (snd d)) ds \<Longrightarrow> p \<in> set (iq_order s) \<Longrightarrow> live_of s p \<noteq> [] \<Longrightarrow>
   drain_lag s p < length ds \<Longrightarrow>
   \<exists>t sink' xs. drain_all accept ds (s, sink) = Some (t, sink') \<and> xs \<noteq> [] \<and> live_of s p = xs @ live_of t p"
proof (induction ds arbitrary: s sink)
  case (Cons d ds)
  obtain now budget where d: "d = (now, budget)" by (cases d)
  have "serving budget" using Cons.prems(2) d by simp
  then obtain t sink' report xs where t: "drain_into accept now budget s sink = Some (t, sink', report)"
    and xs: "intake_ok t" "iq_order t = iq_order s" "live_of s p = xs @ live_of t p"
      "xs = [] \<Longrightarrow> live_of s p \<noteq> [] \<Longrightarrow> p \<in> set (iq_order s) \<Longrightarrow> drain_lag t p < drain_lag s p"
    by (rule drain_step [OF Cons.prems(1), of _ accept now sink p]) blast
  show ?case
  proof (cases "xs = []")
    case True
    with Cons.IH [of t sink'] xs Cons.prems show ?thesis by (auto simp: d t)
  next
    case False
    with drain_all_prefix [OF xs(1), of ds accept sink' p] xs(3) Cons.prems(2) show ?thesis by (auto simp: d t)
  qed
qed simp

text \<open>
  C27: the rotation of drains starves no producer. If a plugin has live batches in a
  reachable state, then as many drains as there are plugins, each with room for at least
  one batch, all return and hand over at least its first, even when each drain has room for
  only one.
\<close>

theorem no_producer_starves:
  assumes "list_all op_sized ops" and "intake_run ops (intake_new limits) = Some s"
    and "list_all (\<lambda>d. serving (snd d)) ds" and "length (iq_order s) \<le> length ds" and "live_of s p \<noteq> []"
  shows "\<exists>t sink' xs. drain_all accept ds (s, sink) = Some (t, sink') \<and> xs \<noteq> [] \<and> live_of s p = xs @ live_of t p"
proof (rule drain_all_serves)
  show ok: "intake_ok s" by (rule reached_ok [OF assms(1,2)])
  have "entries_of s p \<noteq> []" using assms(5) by (auto simp: live_of_def)
  then show p: "p \<in> set (iq_order s)" using registered_in_order [OF ok, of p] by (cases "map_of (iq_plugins s) p") (auto simp: entries_of_def)
  have "drain_lag s p < length (iq_order s)"
    using takeWhile_shorter [of p "drain_order s"] p by (simp add: drain_lag_def drain_order_def)
  with assms(4) show "drain_lag s p < length ds" by simp
qed (use assms in simp_all)

theorem no_producer_starves_witness:
  "\<exists>s t sink' xs. intake_run (demo_intake_ops OvPauseProducer) (intake_new demo_queue_limits) = Some s
     \<and> drain_all ag_accept [(9, demo_budget)] (s, ag_new demo_limits) = Some (t, sink') \<and> xs \<noteq> []
     \<and> live_of s ''files'' = xs @ live_of t ''files''"
proof -
  obtain s where s: "intake_run (demo_intake_ops OvPauseProducer) (intake_new demo_queue_limits) = Some s"
    using intake_run_ok [OF intake_ok_new demo_intake_sized] by blast
  have "length (live_of (the (intake_run (demo_intake_ops OvPauseProducer) (intake_new demo_queue_limits))) ''files'') = 2"
    and "length (iq_order (the (intake_run (demo_intake_ops OvPauseProducer) (intake_new demo_queue_limits)))) = 1"
    by code_simp+
  then have "length (live_of s ''files'') = 2" and "length (iq_order s) = 1" unfolding s option.sel .
  then have "live_of s ''files'' \<noteq> []" and "length (iq_order s) \<le> length [(9 :: u64, demo_budget)]" by auto
  moreover have "list_all (\<lambda>d. serving (snd d)) [(9 :: u64, demo_budget)]" by (simp add: serving_def demo_budget_def usize_max_def)
  ultimately show ?thesis using no_producer_starves [OF demo_intake_sized s, of "[(9, demo_budget)]" "''files''" ag_accept "ag_new demo_limits"] s by blast
qed

end
