(* ===== verification/Concurrency.thy ===== *)
theory Concurrency
  imports Crikey_Prelude
begin

text \<open>
  Concurrency budgets: \<open>crates/crikey-plugin-supervisor/src/concurrency.rs\<close> and the
  \<open>[concurrency]\<close> section of a manifest (\<open>crates/crikey-plugin-model/src/manifest.rs\<close>).
  Admission is a compare-and-swap loop on an atomic counter shared by the dispatch threads.
  It is modelled twice: as a step relation over any number of threads, one load,
  compare-and-swap or decrement at a time, and as the function \<open>admit\<close> that a thread
  computes when nothing interferes, which the query pipeline uses. Each counter is one
  atomic location, whose accesses all threads see in one order.
\<close>

section \<open>Kinds, refusals, budgets\<close>

datatype budget_kind = BkSuggestion | BkAction | BkBackground | BkCatalog

definition budget_kinds :: "budget_kind list" where
  "budget_kinds = [BkSuggestion, BkAction, BkBackground, BkCatalog]"

fun kind_index :: "budget_kind \<Rightarrow> nat" where
  "kind_index BkSuggestion = 0"
| "kind_index BkAction = 1"
| "kind_index BkBackground = 2"
| "kind_index BkCatalog = 3"

record concurrency_refusals =
  cr_suggestion :: u64
  cr_action :: u64
  cr_background :: u64
  cr_catalog :: u64

definition no_refusals :: concurrency_refusals where
  "no_refusals = \<lparr>cr_suggestion = 0, cr_action = 0, cr_background = 0, cr_catalog = 0\<rparr>"

fun refusals_of :: "concurrency_refusals \<Rightarrow> budget_kind \<Rightarrow> u64" where
  "refusals_of r BkSuggestion = cr_suggestion r"
| "refusals_of r BkAction = cr_action r"
| "refusals_of r BkBackground = cr_background r"
| "refusals_of r BkCatalog = cr_catalog r"

fun refusals_add :: "budget_kind \<Rightarrow> u64 \<Rightarrow> concurrency_refusals \<Rightarrow> concurrency_refusals" where
  "refusals_add BkSuggestion delta r = r\<lparr>cr_suggestion := sat_add (cr_suggestion r) delta\<rparr>"
| "refusals_add BkAction delta r = r\<lparr>cr_action := sat_add (cr_action r) delta\<rparr>"
| "refusals_add BkBackground delta r = r\<lparr>cr_background := sat_add (cr_background r) delta\<rparr>"
| "refusals_add BkCatalog delta r = r\<lparr>cr_catalog := sat_add (cr_catalog r) delta\<rparr>"

definition refusals_total :: "concurrency_refusals \<Rightarrow> u64" where
  "refusals_total r = sat_add (sat_add (sat_add (cr_suggestion r) (cr_action r)) (cr_background r)) (cr_catalog r)"

record concurrency_section =
  cs_max_suggestion_requests :: "u32 option"
  cs_max_action_requests :: "u32 option"
  cs_max_background_tasks :: "u32 option"
  cs_max_catalog_tasks :: "u32 option"

definition default_concurrency_section :: concurrency_section where
  "default_concurrency_section =
     \<lparr>cs_max_suggestion_requests = None, cs_max_action_requests = None, cs_max_background_tasks = None,
      cs_max_catalog_tasks = None\<rparr>"

definition default_suggestion_budget :: u32 where "default_suggestion_budget = 1"
definition default_action_budget :: u32 where "default_action_budget = 1"
definition default_background_budget :: u32 where "default_background_budget = 1"
definition default_catalog_budget :: u32 where "default_catalog_budget = 1"

record concurrency_budget =
  cb_limits :: "u32 list"
  cb_in_flight :: "u32 list"
  cb_refusals :: "u64 list"

definition unwrap_or :: "'a option \<Rightarrow> 'a \<Rightarrow> 'a" where
  "unwrap_or x d = (case x of None \<Rightarrow> d | Some v \<Rightarrow> v)"

definition budget_from_section :: "concurrency_section \<Rightarrow> concurrency_budget" where
  "budget_from_section section =
     \<lparr>cb_limits =
        [unwrap_or (cs_max_suggestion_requests section) default_suggestion_budget,
         unwrap_or (cs_max_action_requests section) default_action_budget,
         unwrap_or (cs_max_background_tasks section) default_background_budget,
         unwrap_or (cs_max_catalog_tasks section) default_catalog_budget],
      cb_in_flight = [0, 0, 0, 0], cb_refusals = [0, 0, 0, 0]\<rparr>"

definition budget_limit :: "concurrency_budget \<Rightarrow> budget_kind \<Rightarrow> u32" where
  "budget_limit b kind = cb_limits b ! kind_index kind"

definition budget_in_flight :: "concurrency_budget \<Rightarrow> budget_kind \<Rightarrow> u32" where
  "budget_in_flight b kind = cb_in_flight b ! kind_index kind"

definition budget_refusals :: "concurrency_budget \<Rightarrow> budget_kind \<Rightarrow> u64" where
  "budget_refusals b kind = cb_refusals b ! kind_index kind"

definition refusals_snapshot :: "concurrency_budget \<Rightarrow> concurrency_refusals" where
  "refusals_snapshot b = foldl (\<lambda>r kind. refusals_add kind (budget_refusals b kind) r) no_refusals budget_kinds"

text \<open>The single operations on the atomics.\<close>

definition set_in_flight :: "budget_kind \<Rightarrow> u32 \<Rightarrow> concurrency_budget \<Rightarrow> concurrency_budget" where
  "set_in_flight kind n b = b\<lparr>cb_in_flight := (cb_in_flight b)[kind_index kind := n]\<rparr>"

definition count_refusal :: "budget_kind \<Rightarrow> concurrency_budget \<Rightarrow> concurrency_budget" where
  "count_refusal kind b = b\<lparr>cb_refusals := (cb_refusals b)[kind_index kind := sat_add (budget_refusals b kind) 1]\<rparr>"

text \<open>Dropping a guard: \<open>fetch_sub\<close>, which wraps.\<close>

definition release :: "budget_kind \<Rightarrow> concurrency_budget \<Rightarrow> concurrency_budget" where
  "release kind b = set_in_flight kind (budget_in_flight b kind - 1) b"

text \<open>Admission when no other thread interferes; \<open>True\<close> is a granted slot.\<close>

definition admit :: "budget_kind \<Rightarrow> concurrency_budget \<Rightarrow> concurrency_budget \<times> bool" where
  "admit kind b =
     (let current = budget_in_flight b kind in
      if budget_limit b kind \<le> current then (count_refusal kind b, False)
      else (set_in_flight kind (current + 1) b, True))"

section \<open>Threads\<close>

text \<open>
  A unit of work: at rest, in the loop of \<open>admit\<close> with the value it last observed, or
  holding a guard.
\<close>

datatype contender = Resting | Trying budget_kind u32 | Holding budget_kind

type_synonym contention = "concurrency_budget \<times> contender list"

inductive contend :: "contention \<Rightarrow> contention \<Rightarrow> bool" where
  load: "i < length ts \<Longrightarrow> ts ! i = Resting \<Longrightarrow>
    contend (b, ts) (b, ts[i := Trying kind (budget_in_flight b kind)])"
| refuse: "i < length ts \<Longrightarrow> ts ! i = Trying kind current \<Longrightarrow> budget_limit b kind \<le> current \<Longrightarrow>
    contend (b, ts) (count_refusal kind b, ts[i := Resting])"
| swap: "i < length ts \<Longrightarrow> ts ! i = Trying kind current \<Longrightarrow> current < budget_limit b kind \<Longrightarrow>
    budget_in_flight b kind = current \<Longrightarrow>
    contend (b, ts) (set_in_flight kind (current + 1) b, ts[i := Holding kind])"
| retry: "i < length ts \<Longrightarrow> ts ! i = Trying kind current \<Longrightarrow> current < budget_limit b kind \<Longrightarrow>
    contend (b, ts) (b, ts[i := Trying kind (budget_in_flight b kind)])"
| drop_guard: "i < length ts \<Longrightarrow> ts ! i = Holding kind \<Longrightarrow>
    contend (b, ts) (release kind b, ts[i := Resting])"

inductive_cases contendE: "contend (b, ts) (b', ts')"

text \<open>\<open>retry\<close> also covers the spurious failures of \<open>compare_exchange_weak\<close>.\<close>

definition holders :: "budget_kind \<Rightarrow> contender list \<Rightarrow> nat" where
  "holders kind ts = length (filter (\<lambda>t. t = Holding kind) ts)"

definition budget_ok :: "concurrency_budget \<Rightarrow> bool" where
  "budget_ok b \<longleftrightarrow> length (cb_limits b) = 4 \<and> length (cb_in_flight b) = 4 \<and> length (cb_refusals b) = 4"

definition contention_ok :: "contention \<Rightarrow> bool" where
  "contention_ok s \<longleftrightarrow>
     budget_ok (fst s)
     \<and> (\<forall>kind. unat (budget_in_flight (fst s) kind) = holders kind (snd s)
          \<and> budget_in_flight (fst s) kind \<le> budget_limit (fst s) kind)"

lemma kind_index_less [simp]: "kind_index kind < 4"
  by (cases kind) simp_all

lemma kind_index_inj [simp]: "kind_index k = kind_index k' \<longleftrightarrow> k = k'"
  by (cases k; cases k') simp_all

lemma budget_ok_from_section: "budget_ok (budget_from_section section)"
  by (simp add: budget_ok_def budget_from_section_def)

lemma in_flight_from_section: "budget_in_flight (budget_from_section section) kind = 0"
  by (cases kind) (simp_all add: budget_in_flight_def budget_from_section_def)

lemma set_in_flight_simps [simp]:
  "budget_ok b \<Longrightarrow> budget_in_flight (set_in_flight k n b) k' = (if k' = k then n else budget_in_flight b k')"
  "budget_limit (set_in_flight k n b) k' = budget_limit b k'"
  "budget_refusals (set_in_flight k n b) k' = budget_refusals b k'"
  "budget_ok (set_in_flight k n b) = budget_ok b"
  by (auto simp: set_in_flight_def budget_in_flight_def budget_limit_def budget_refusals_def budget_ok_def
      nth_list_update)

lemma count_refusal_simps [simp]:
  "budget_in_flight (count_refusal k b) k' = budget_in_flight b k'"
  "budget_limit (count_refusal k b) k' = budget_limit b k'"
  "budget_ok (count_refusal k b) = budget_ok b"
  "budget_ok b \<Longrightarrow> budget_refusals (count_refusal k b) k' =
     (if k' = k then sat_add (budget_refusals b k) 1 else budget_refusals b k')"
  by (auto simp: count_refusal_def budget_in_flight_def budget_limit_def budget_refusals_def budget_ok_def
      nth_list_update)

lemma release_simps [simp]:
  "budget_ok b \<Longrightarrow> budget_in_flight (release k b) k' = (if k' = k then budget_in_flight b k - 1 else budget_in_flight b k')"
  "budget_limit (release k b) k' = budget_limit b k'"
  "budget_refusals (release k b) k' = budget_refusals b k'"
  "budget_ok (release k b) = budget_ok b"
  by (simp_all add: release_def)

lemma admit_simps:
  "budget_ok (fst (admit k b)) = budget_ok b"
  "budget_limit (fst (admit k b)) k' = budget_limit b k'"
  "snd (admit k b) \<longleftrightarrow> budget_in_flight b k < budget_limit b k"
  "budget_ok b \<Longrightarrow> budget_in_flight (fst (admit k b)) k' =
     (if k' = k \<and> snd (admit k b) then budget_in_flight b k + 1 else budget_in_flight b k')"
  by (auto simp: admit_def Let_def)

lemma filter_update_length:
  "i < length xs \<Longrightarrow>
   length (filter P (xs[i := y])) + (if P (xs ! i) then 1 else 0) = length (filter P xs) + (if P y then 1 else 0)"
proof (induction xs arbitrary: i)
  case (Cons x xs)
  then show ?case by (cases i) auto
qed simp

lemma holders_update:
  "i < length ts \<Longrightarrow>
   holders k (ts[i := t]) + (if ts ! i = Holding k then 1 else 0) = holders k ts + (if t = Holding k then 1 else 0)"
  unfolding holders_def by (rule filter_update_length)

lemma holders_same:
  "i < length ts \<Longrightarrow> ts ! i \<noteq> Holding k \<Longrightarrow> t \<noteq> Holding k \<Longrightarrow> holders k (ts[i := t]) = holders k ts"
  using holders_update [of i ts k t] by simp

lemma word_inc_le: "a < b \<Longrightarrow> unat (a + 1) = unat a + 1 \<and> a + 1 \<le> b" for a b :: "'a::len word"
proof -
  assume "a < b"
  then have "unat a < unat b" by (simp add: word_less_nat_alt)
  with unat_below [of b] have "unat a + 1 < 2 ^ LENGTH('a)" by linarith
  then have "unat (a + 1) = unat a + 1" by (simp add: unat_word_ariths)
  with \<open>unat a < unat b\<close> show ?thesis by (simp add: word_le_nat_alt)
qed

lemma word_dec: "0 < unat a \<Longrightarrow> unat (a - 1) = unat a - 1 \<and> a - 1 \<le> a" for a :: "'a::len word"
  by (metis One_nat_def diff_le_self less_irrefl_nat unat_minus_one word_le_nat_alt unat_0)

lemma contend_ok:
  assumes "contend s s'" and "contention_ok s"
  shows "contention_ok s'"
  using assms
proof (induction rule: contend.induct)
  case (swap i ts kind current b)
  then show ?case
    using word_inc_le [of current "budget_limit b kind"] holders_update [OF swap(1), of _ "Holding kind"]
    by (auto simp: contention_ok_def)
next
  case (drop_guard i ts kind b)
  have "0 < holders kind ts"
    using drop_guard(1,2) by (auto simp: holders_def length_greater_0_conv filter_empty_conv) (metis nth_mem)
  then have "0 < unat (budget_in_flight b kind)" using drop_guard(3) by (simp add: contention_ok_def)
  moreover have "holders k (ts[i := Resting]) = (if k = kind then holders kind ts - 1 else holders k ts)" for k
    using holders_update [OF drop_guard(1), of k Resting] drop_guard(2) by (auto split: if_splits)
  ultimately show ?case
    using word_dec [of "budget_in_flight b kind"] drop_guard(3) by (auto simp: contention_ok_def intro: order_trans)
qed (auto simp: contention_ok_def holders_same)

lemma contention_ok_fresh: "contention_ok (budget_from_section section, replicate n Resting)"
  by (simp add: contention_ok_def budget_ok_from_section in_flight_from_section holders_def)

lemma contended_ok: "contend\<^sup>*\<^sup>* s s' \<Longrightarrow> contention_ok s \<Longrightarrow> contention_ok s'"
  by (induction rule: rtranclp_induct) (auto dest: contend_ok)

lemma contend_limit: "contend s s' \<Longrightarrow> budget_limit (fst s') kind = budget_limit (fst s) kind"
  by (induction rule: contend.induct) simp_all

lemma contended_limit: "contend\<^sup>*\<^sup>* s s' \<Longrightarrow> budget_limit (fst s') kind = budget_limit (fst s) kind"
  by (induction rule: rtranclp_induct) (simp_all add: contend_limit)

text \<open>
  C28: however the threads that share a plugin's budget interleave their loads,
  compare-and-swaps and releases, the number of admitted units of each kind is exactly the
  counter and never exceeds the declared limit; the counter neither overflows nor wraps
  below zero, and once nothing is held it is back at zero.
\<close>

theorem budget_never_oversubscribed:
  assumes "contend\<^sup>*\<^sup>* (budget_from_section section, replicate n Resting) (b, ts)"
  shows "unat (budget_in_flight b kind) = holders kind ts
    \<and> holders kind ts \<le> unat (budget_limit (budget_from_section section) kind)
    \<and> (list_all (\<lambda>t. t = Resting) ts \<longrightarrow> budget_in_flight b kind = 0)"
proof -
  have ok: "contention_ok (b, ts)" by (rule contended_ok [OF assms contention_ok_fresh])
  have "budget_limit b kind = budget_limit (budget_from_section section) kind"
    using contended_limit [OF assms, of kind] by simp
  moreover have "holders kind ts = 0" if "list_all (\<lambda>t. t = Resting) ts"
    using that by (auto simp: holders_def filter_empty_conv list_all_iff)
  moreover have "unat (budget_in_flight b kind) = holders kind ts" and "unat (budget_in_flight b kind) \<le> unat (budget_limit b kind)"
    using ok unfolding contention_ok_def word_le_nat_alt fst_conv snd_conv by blast+
  ultimately show ?thesis by (auto simp: unat_eq_zero)
qed

text \<open>One thread alone: the steps of the loop compose to \<open>admit\<close>.\<close>

lemma admit_alone:
  assumes "i < length ts" and "ts ! i = Resting"
  shows "contend\<^sup>*\<^sup>* (b, ts) (fst (admit kind b), ts[i := if snd (admit kind b) then Holding kind else Resting])"
proof -
  let ?c = "budget_in_flight b kind" and ?ts = "ts[i := Trying kind (budget_in_flight b kind)]"
  have first: "contend (b, ts) (b, ?ts)" using assms by (rule contend.load)
  have i: "i < length ?ts" "?ts ! i = Trying kind ?c" using assms(1) by simp_all
  show ?thesis
  proof (cases "?c < budget_limit b kind")
    case True
    with contend.swap [OF i True refl] first show ?thesis
      by (auto simp: admit_def Let_def intro: converse_rtranclp_into_rtranclp)
  next
    case False
    then have "budget_limit b kind \<le> ?c" by simp
    from contend.refuse [OF i this] first False show ?thesis
      by (auto simp: admit_def Let_def intro: converse_rtranclp_into_rtranclp)
  qed
qed

theorem budget_never_oversubscribed_witness:
  "\<exists>b ts. contend\<^sup>*\<^sup>* (budget_from_section default_concurrency_section, [Resting, Resting]) (b, ts)
     \<and> ts = [Holding BkCatalog, Resting] \<and> holders BkCatalog ts \<le> 1"
proof -
  let ?b = "budget_from_section default_concurrency_section"
  have "snd (admit BkCatalog ?b)" and lim: "unat (budget_limit ?b BkCatalog) = 1" by code_simp+
  then have run: "contend\<^sup>*\<^sup>* (?b, replicate 2 Resting) (fst (admit BkCatalog ?b), [Holding BkCatalog, Resting])"
    using admit_alone [of 0 "[Resting, Resting]" ?b BkCatalog] by (simp add: numeral_2_eq_2)
  have "holders BkCatalog [Holding BkCatalog, Resting] \<le> 1"
    using budget_never_oversubscribed [OF run, of BkCatalog] lim by simp
  with run show ?thesis by (auto simp: numeral_2_eq_2)
qed

text \<open>
  A unit of work that tries on its own is admitted exactly when the budget has a free
  slot of its kind, taking that slot and no other; otherwise it is refused, the refusal is
  counted once (saturating), and nothing else changes. Releasing an admitted slot restores
  the occupancy from before.
\<close>

theorem admit_exact:
  assumes "budget_ok b"
  shows "(if budget_in_flight b kind < budget_limit b kind
     then snd (admit kind b) \<and> fst (admit kind b) = set_in_flight kind (budget_in_flight b kind + 1) b
          \<and> release kind (fst (admit kind b)) = b
     else \<not> snd (admit kind b) \<and> cb_in_flight (fst (admit kind b)) = cb_in_flight b
          \<and> (\<forall>k. budget_refusals (fst (admit kind b)) k =
               (if k = kind then sat_add (budget_refusals b kind) 1 else budget_refusals b k)))"
proof (cases "budget_in_flight b kind < budget_limit b kind")
  case True
  have "release kind (set_in_flight kind (budget_in_flight b kind + 1) b) = b"
    using assms by (simp add: release_def set_in_flight_def budget_in_flight_def budget_ok_def)
  with True show ?thesis by (simp add: admit_def Let_def)
next
  case False
  with assms show ?thesis by (simp add: admit_def Let_def) (simp add: count_refusal_def)
qed

theorem admit_exact_witness:
  "snd (admit BkAction (budget_from_section default_concurrency_section))
   \<and> release BkAction (fst (admit BkAction (budget_from_section default_concurrency_section)))
       = budget_from_section default_concurrency_section"
proof -
  have "budget_in_flight (budget_from_section default_concurrency_section) BkAction
      < budget_limit (budget_from_section default_concurrency_section) BkAction" by code_simp
  with admit_exact [OF budget_ok_from_section, of default_concurrency_section BkAction] show ?thesis by metis
qed

end
