(* ===== verification/Supervisor.thy ===== *)
theory Supervisor
  imports Items Concurrency
begin

text \<open>
  Plugin supervision: \<open>crates/crikey-plugin-supervisor/src/lib.rs\<close>. Each registered
  plugin has a worker state, health counters and a circuit breaker. A \<open>Duration\<close> is
  its number of nanoseconds; the \<open>u128\<close> values of the latency mean are natural numbers,
  and the lemmas show that they stay below \<open>2 ^ 128\<close>.
\<close>

section \<open>Data\<close>

datatype worker_state = WkNotStarted | WkStarting | WkReady | WkBusy | WkRestarting | WkSuspended | WkFailed

type_synonym duration = nat

text \<open>The largest \<open>Duration\<close>: \<open>u64::MAX\<close> seconds and 999999999 nanoseconds.\<close>

definition duration_max :: duration where
  "duration_max = 2 ^ 64 * 1000000000 - 1"

definition duration_checked_add :: "duration \<Rightarrow> duration \<Rightarrow> duration option" where
  "duration_checked_add a b = (if a + b \<le> duration_max then Some (a + b) else None)"

lemma duration_checked_add_code [code]:
  "duration_checked_add a b = (if int (a + b) < 18446744073709551616000000000 then Some (a + b) else None)"
  by (auto simp: duration_checked_add_def duration_max_def)

definition duration_from_millis :: "nat \<Rightarrow> duration" where
  "duration_from_millis ms = ms * 1000000"

definition duration_from_secs :: "nat \<Rightarrow> duration" where
  "duration_from_secs secs = secs * 1000000000"

record deadlines =
  dl_soft :: duration
  dl_hard :: "duration option"
  dl_hung_worker :: duration

definition modern_native_deadlines :: deadlines where
  "modern_native_deadlines =
     \<lparr>dl_soft = duration_from_millis 50, dl_hard = Some (duration_from_millis 500), dl_hung_worker = duration_from_secs 30\<rparr>"

definition modern_python_deadlines :: deadlines where
  "modern_python_deadlines =
     \<lparr>dl_soft = duration_from_millis 100, dl_hard = Some (duration_from_millis 500), dl_hung_worker = duration_from_secs 30\<rparr>"

definition legacy_deadlines :: deadlines where
  "legacy_deadlines = \<lparr>dl_soft = duration_from_millis 250, dl_hard = None, dl_hung_worker = duration_from_secs 60\<rparr>"

record plugin_health =
  ph_startup_failures :: u32
  ph_crashes :: u32
  ph_timeouts :: u32
  ph_soft_timeouts :: u32
  ph_protocol_violations :: u32
  ph_resource_limit_failures :: u32
  ph_cancellations_honoured :: u64
  ph_cancellations_ignored :: u64
  ph_stale_results_rejected :: u64
  ph_obsolete_requests_dropped :: u64
  ph_concurrency_refusals :: concurrency_refusals
  ph_queue_depth :: u32
  ph_average_latency_ms :: u64
  ph_peak_latency_ms :: u64
  ph_latency_samples :: u64

definition default_plugin_health :: plugin_health where
  "default_plugin_health =
     \<lparr>ph_startup_failures = 0, ph_crashes = 0, ph_timeouts = 0, ph_soft_timeouts = 0, ph_protocol_violations = 0,
      ph_resource_limit_failures = 0, ph_cancellations_honoured = 0, ph_cancellations_ignored = 0,
      ph_stale_results_rejected = 0, ph_obsolete_requests_dropped = 0, ph_concurrency_refusals = no_refusals,
      ph_queue_depth = 0, ph_average_latency_ms = 0, ph_peak_latency_ms = 0, ph_latency_samples = 0\<rparr>"

datatype failure_kind = FkStartup | FkCrash | FkTimeout | FkProtocolViolation | FkResourceLimit

record circuit_breaker_config =
  cc_failure_threshold :: u32
  cc_cooldown :: duration

datatype supervisor_error =
    UnknownPlugin plugin_id
  | SvAlreadyRegistered plugin_id
  | IllegalTransition plugin_id string worker_state
  | InvalidConfig string
  | RegressiveTimestamp plugin_id duration duration

record circuit_diagnostics =
  cd_failure_streak :: u32
  cd_last_failure :: "failure_kind option"
  cd_last_failure_at :: "duration option"
  cd_retry_at :: "duration option"

definition default_circuit_diagnostics :: circuit_diagnostics where
  "default_circuit_diagnostics =
     \<lparr>cd_failure_streak = 0, cd_last_failure = None, cd_last_failure_at = None, cd_retry_at = None\<rparr>"

record plugin_snapshot =
  sn_state :: worker_state
  sn_health :: plugin_health
  sn_circuit :: circuit_diagnostics

record plugin_record =
  rc_state :: worker_state
  rc_health :: plugin_health
  rc_circuit :: circuit_diagnostics
  rc_last_event_at :: "duration option"
  rc_latency_mean_ns :: nat
  rc_latency_remainder :: nat

definition default_plugin_record :: plugin_record where
  "default_plugin_record =
     \<lparr>rc_state = WkNotStarted, rc_health = default_plugin_health, rc_circuit = default_circuit_diagnostics,
      rc_last_event_at = None, rc_latency_mean_ns = 0, rc_latency_remainder = 0\<rparr>"

record memory_supervisor =
  sv_circuit_breaker :: circuit_breaker_config
  sv_plugins :: "(plugin_id \<times> plugin_record) list"

section \<open>Operations\<close>

type_synonym 'a supervised = "memory_supervisor \<times> (supervisor_error + 'a)"

definition supervisor_new :: "circuit_breaker_config \<Rightarrow> memory_supervisor" where
  "supervisor_new config = \<lparr>sv_circuit_breaker = config, sv_plugins = []\<rparr>"

definition supervisor_register :: "plugin_id \<Rightarrow> memory_supervisor \<Rightarrow> unit supervised" where
  "supervisor_register plugin s =
     (if map_of (sv_plugins s) plugin \<noteq> None then (s, Inl (SvAlreadyRegistered plugin))
      else (s\<lparr>sv_plugins := AList.update plugin default_plugin_record (sv_plugins s)\<rparr>, Inr ()))"

definition supervisor_unregister :: "plugin_id \<Rightarrow> memory_supervisor \<Rightarrow> memory_supervisor \<times> bool" where
  "supervisor_unregister plugin s =
     (s\<lparr>sv_plugins := AList.delete plugin (sv_plugins s)\<rparr>, map_of (sv_plugins s) plugin \<noteq> None)"

text \<open>
  \<open>record_mut\<close>, and what a method does through the reference it returns. A method body is a
  function from the record to the record it leaves in place and its result: a \<open>?\<close> or an
  early \<open>return Err\<close> gives the error together with whatever has been written by then, and
  nothing is rolled back.
\<close>

type_synonym record_method = "plugin_record \<Rightarrow> plugin_record \<times> (supervisor_error + unit)"

definition with_record :: "plugin_id \<Rightarrow> record_method \<Rightarrow> memory_supervisor \<Rightarrow> unit supervised" where
  "with_record plugin body s =
     (case map_of (sv_plugins s) plugin of
        None \<Rightarrow> (s, Inl (UnknownPlugin plugin))
      | Some r \<Rightarrow>
          (case body r of
             (r', result) \<Rightarrow> (s\<lparr>sv_plugins := AList.update plugin r' (sv_plugins s)\<rparr>, result)))"

definition transition ::
  "worker_state list \<Rightarrow> string \<Rightarrow> (plugin_record \<Rightarrow> plugin_record) \<Rightarrow> plugin_id \<Rightarrow> memory_supervisor \<Rightarrow> unit supervised" where
  "transition sources operation f plugin =
     with_record plugin (\<lambda>r.
       if rc_state r \<in> set sources then (f r, Inr ()) else (r, Inl (IllegalTransition plugin operation (rc_state r))))"

definition mark_ready :: "plugin_id \<Rightarrow> memory_supervisor \<Rightarrow> unit supervised" where
  "mark_ready = transition [WkStarting, WkBusy, WkRestarting] ''mark ready'' (rc_state_update (\<lambda>_. WkReady))"

definition mark_busy :: "plugin_id \<Rightarrow> memory_supervisor \<Rightarrow> unit supervised" where
  "mark_busy = transition [WkReady] ''mark busy'' (rc_state_update (\<lambda>_. WkBusy))"

definition start_worker :: "plugin_id \<Rightarrow> memory_supervisor \<Rightarrow> unit supervised" where
  "start_worker = transition [WkNotStarted] ''start'' (rc_state_update (\<lambda>_. WkStarting))"

definition stop_worker :: "plugin_id \<Rightarrow> memory_supervisor \<Rightarrow> unit supervised" where
  "stop_worker =
     transition [WkStarting, WkReady, WkBusy, WkRestarting, WkFailed] ''stop''
       (\<lambda>r. r\<lparr>rc_state := WkNotStarted, rc_circuit := (rc_circuit r)\<lparr>cd_retry_at := None\<rparr>\<rparr>)"

definition restart_worker :: "plugin_id \<Rightarrow> memory_supervisor \<Rightarrow> unit supervised" where
  "restart_worker = transition [WkReady, WkBusy, WkFailed] ''restart'' (rc_state_update (\<lambda>_. WkRestarting))"

fun failure_allowed :: "worker_state \<Rightarrow> failure_kind \<Rightarrow> bool" where
  "failure_allowed state FkStartup = (state \<in> set [WkStarting, WkRestarting])"
| "failure_allowed state FkTimeout = (state = WkBusy)"
| "failure_allowed state _ = (state \<in> set [WkStarting, WkReady, WkBusy, WkRestarting])"

fun failure_operation :: "failure_kind \<Rightarrow> string" where
  "failure_operation FkStartup = ''record startup failure''"
| "failure_operation FkCrash = ''record crash''"
| "failure_operation FkTimeout = ''record hard timeout''"
| "failure_operation FkProtocolViolation = ''record protocol violation''"
| "failure_operation FkResourceLimit = ''record resource-limit failure''"

definition validate_event_timestamp :: "plugin_id \<Rightarrow> plugin_record \<Rightarrow> duration \<Rightarrow> supervisor_error option" where
  "validate_event_timestamp plugin r received =
     (case rc_last_event_at r of
        None \<Rightarrow> None
      | Some previous \<Rightarrow> if received < previous then Some (RegressiveTimestamp plugin previous received) else None)"

fun count_failure :: "failure_kind \<Rightarrow> plugin_health \<Rightarrow> plugin_health" where
  "count_failure FkStartup h = h\<lparr>ph_startup_failures := sat_add (ph_startup_failures h) 1\<rparr>"
| "count_failure FkCrash h = h\<lparr>ph_crashes := sat_add (ph_crashes h) 1\<rparr>"
| "count_failure FkTimeout h = h\<lparr>ph_timeouts := sat_add (ph_timeouts h) 1\<rparr>"
| "count_failure FkProtocolViolation h = h\<lparr>ph_protocol_violations := sat_add (ph_protocol_violations h) 1\<rparr>"
| "count_failure FkResourceLimit h = h\<lparr>ph_resource_limit_failures := sat_add (ph_resource_limit_failures h) 1\<rparr>"

text \<open>The circuit after a failure: whether it opens, and when a retry is allowed.\<close>

definition opens_circuit :: "circuit_breaker_config \<Rightarrow> plugin_record \<Rightarrow> bool" where
  "opens_circuit config r \<longleftrightarrow>
     cc_failure_threshold config \<noteq> 0 \<and> cc_failure_threshold config \<le> sat_add (cd_failure_streak (rc_circuit r)) 1"

definition failed_record :: "failure_kind \<Rightarrow> duration \<Rightarrow> bool \<Rightarrow> duration option \<Rightarrow> plugin_record \<Rightarrow> plugin_record" where
  "failed_record failure at opens retry r =
     r\<lparr>rc_health := count_failure failure (rc_health r),
       rc_circuit := \<lparr>cd_failure_streak = sat_add (cd_failure_streak (rc_circuit r)) 1, cd_last_failure = Some failure,
                      cd_last_failure_at = Some at, cd_retry_at = retry\<rparr>,
       rc_last_event_at := Some at,
       rc_state := (if opens then WkSuspended else WkFailed)\<rparr>"

definition record_failure :: "plugin_id \<Rightarrow> failure_kind \<Rightarrow> duration \<Rightarrow> memory_supervisor \<Rightarrow> unit supervised" where
  "record_failure plugin failure at s =
     with_record plugin (\<lambda>r.
       if \<not> failure_allowed (rc_state r) failure
       then (r, Inl (IllegalTransition plugin (failure_operation failure) (rc_state r)))
       else case validate_event_timestamp plugin r at of
              Some e \<Rightarrow> (r, Inl e)
            | None \<Rightarrow>
                (if opens_circuit (sv_circuit_breaker s) r
                 then case duration_checked_add at (cc_cooldown (sv_circuit_breaker s)) of
                        None \<Rightarrow> (r, Inl (InvalidConfig ''circuit-breaker cooldown overflows the event timestamp''))
                      | Some retry \<Rightarrow> (failed_record failure at True (Some retry) r, Inr ())
                 else (failed_record failure at False None r, Inr ()))) s"

definition record_soft_timeout :: "plugin_id \<Rightarrow> memory_supervisor \<Rightarrow> unit supervised" where
  "record_soft_timeout =
     transition [WkBusy] ''record soft timeout''
       (\<lambda>r. r\<lparr>rc_health := (rc_health r)\<lparr>ph_soft_timeouts := sat_add (ph_soft_timeouts (rc_health r)) 1\<rparr>\<rparr>)"

definition record_success :: "plugin_id \<Rightarrow> memory_supervisor \<Rightarrow> unit supervised" where
  "record_success =
     transition [WkReady, WkBusy] ''record success''
       (\<lambda>r. r\<lparr>rc_circuit := (rc_circuit r)\<lparr>cd_failure_streak := 0, cd_retry_at := None\<rparr>\<rparr>)"

definition resume_if_ready :: "plugin_id \<Rightarrow> duration \<Rightarrow> memory_supervisor \<Rightarrow> unit supervised" where
  "resume_if_ready plugin now =
     with_record plugin (\<lambda>r.
       if rc_state r \<noteq> WkSuspended then (r, Inl (IllegalTransition plugin ''resume suspended plugin'' (rc_state r)))
       else case cd_retry_at (rc_circuit r) of
              None \<Rightarrow> (r, Inl (InvalidConfig ''suspended plugin has no retry timestamp''))
            | Some retry \<Rightarrow>
                (case validate_event_timestamp plugin r now of
                   Some e \<Rightarrow> (r, Inl e)
                 | None \<Rightarrow>
                     (let r = r\<lparr>rc_last_event_at := Some now\<rparr> in
                      (if retry \<le> now
                       then r\<lparr>rc_state := WkRestarting, rc_circuit := (rc_circuit r)\<lparr>cd_retry_at := None\<rparr>\<rparr>
                       else r, Inr ()))))"

text \<open>The running mean of the latency samples, with its remainder.\<close>

definition note_sample :: "nat \<Rightarrow> plugin_record \<Rightarrow> plugin_record" where
  "note_sample sample_ns r =
     (let old_count = ph_latency_samples (rc_health r) in
      if old_count = 0 then
        r\<lparr>rc_latency_mean_ns := sample_ns, rc_latency_remainder := 0,
          rc_health := (rc_health r)\<lparr>ph_latency_samples := 1\<rparr>\<rparr>
      else if old_count \<noteq> - 1 then
        let new_count = old_count + 1;
            denominator = unat new_count;
            adjusted_sample = rc_latency_remainder r + sample_ns;
            mean = rc_latency_mean_ns r;
            r = (if mean \<le> adjusted_sample then
                   let excess = adjusted_sample - mean
                   in r\<lparr>rc_latency_mean_ns := mean + excess div denominator,
                        rc_latency_remainder := excess mod denominator\<rparr>
                 else
                   let deficit = mean - adjusted_sample;
                       decrement = (deficit - 1) div denominator + 1
                   in r\<lparr>rc_latency_mean_ns := mean - decrement,
                        rc_latency_remainder := decrement * denominator - deficit\<rparr>)
        in r\<lparr>rc_health := (rc_health r)\<lparr>ph_latency_samples := new_count\<rparr>\<rparr>
      else r)"

definition note_latency :: "duration \<Rightarrow> plugin_record \<Rightarrow> plugin_record" where
  "note_latency latency r =
     (let r = note_sample latency r;
          h = rc_health r
      in r\<lparr>rc_health := h\<lparr>ph_average_latency_ms := u64_of_len (rc_latency_mean_ns r div 1000000),
                          ph_peak_latency_ms := max (ph_peak_latency_ms h) (u64_of_len (latency div 1000000))\<rparr>\<rparr>)"

lemma millis_as_int: "n div 1000000 = nat (int n div 1000000)" for n :: nat
  by (simp add: nat_div_distrib)

lemma note_latency_code [code]:
  "note_latency latency r =
     (let r = note_sample latency r;
          h = rc_health r
      in r\<lparr>rc_health := h\<lparr>ph_average_latency_ms := u64_of_len (nat (int (rc_latency_mean_ns r) div 1000000)),
                          ph_peak_latency_ms := max (ph_peak_latency_ms h)
                            (u64_of_len (nat (int latency div 1000000)))\<rparr>\<rparr>)"
  unfolding note_latency_def millis_as_int ..

definition record_latency :: "plugin_id \<Rightarrow> duration \<Rightarrow> memory_supervisor \<Rightarrow> unit supervised" where
  "record_latency plugin latency = transition [WkBusy] ''record suggestion latency'' (note_latency latency) plugin"

definition record_health :: "(plugin_health \<Rightarrow> plugin_health) \<Rightarrow> plugin_id \<Rightarrow> memory_supervisor \<Rightarrow> unit supervised" where
  "record_health f plugin = with_record plugin (\<lambda>r. (r\<lparr>rc_health := f (rc_health r)\<rparr>, Inr ()))"

definition record_queue_depth :: "plugin_id \<Rightarrow> u32 \<Rightarrow> memory_supervisor \<Rightarrow> unit supervised" where
  "record_queue_depth plugin depth = record_health (ph_queue_depth_update (\<lambda>_. depth)) plugin"

definition record_cancellation :: "plugin_id \<Rightarrow> bool \<Rightarrow> u64 \<Rightarrow> memory_supervisor \<Rightarrow> unit supervised" where
  "record_cancellation plugin honoured delta =
     record_health
       (\<lambda>h. if honoured then h\<lparr>ph_cancellations_honoured := sat_add (ph_cancellations_honoured h) delta\<rparr>
            else h\<lparr>ph_cancellations_ignored := sat_add (ph_cancellations_ignored h) delta\<rparr>) plugin"

definition record_stale_result_rejected :: "plugin_id \<Rightarrow> u64 \<Rightarrow> memory_supervisor \<Rightarrow> unit supervised" where
  "record_stale_result_rejected plugin delta =
     record_health (\<lambda>h. h\<lparr>ph_stale_results_rejected := sat_add (ph_stale_results_rejected h) delta\<rparr>) plugin"

definition record_obsolete_request_dropped :: "plugin_id \<Rightarrow> u64 \<Rightarrow> memory_supervisor \<Rightarrow> unit supervised" where
  "record_obsolete_request_dropped plugin delta =
     record_health (\<lambda>h. h\<lparr>ph_obsolete_requests_dropped := sat_add (ph_obsolete_requests_dropped h) delta\<rparr>) plugin"

definition record_concurrency_refusal :: "plugin_id \<Rightarrow> budget_kind \<Rightarrow> u64 \<Rightarrow> memory_supervisor \<Rightarrow> unit supervised" where
  "record_concurrency_refusal plugin kind delta =
     record_health (\<lambda>h. h\<lparr>ph_concurrency_refusals := refusals_add kind delta (ph_concurrency_refusals h)\<rparr>) plugin"

definition supervisor_contains :: "memory_supervisor \<Rightarrow> plugin_id \<Rightarrow> bool" where
  "supervisor_contains s plugin \<longleftrightarrow> map_of (sv_plugins s) plugin \<noteq> None"

definition supervisor_snapshot :: "memory_supervisor \<Rightarrow> plugin_id \<Rightarrow> plugin_snapshot option" where
  "supervisor_snapshot s plugin =
     map_option (\<lambda>r. \<lparr>sn_state = rc_state r, sn_health = rc_health r, sn_circuit = rc_circuit r\<rparr>) (map_of (sv_plugins s) plugin)"

definition supervisor_state :: "memory_supervisor \<Rightarrow> plugin_id \<Rightarrow> worker_state" where
  "supervisor_state s plugin = (case map_of (sv_plugins s) plugin of None \<Rightarrow> WkNotStarted | Some r \<Rightarrow> rc_state r)"

definition supervisor_health :: "memory_supervisor \<Rightarrow> plugin_id \<Rightarrow> plugin_health" where
  "supervisor_health s plugin = (case map_of (sv_plugins s) plugin of None \<Rightarrow> default_plugin_health | Some r \<Rightarrow> rc_health r)"

definition supervisor_circuit :: "memory_supervisor \<Rightarrow> plugin_id \<Rightarrow> circuit_diagnostics" where
  "supervisor_circuit s plugin =
     (case map_of (sv_plugins s) plugin of None \<Rightarrow> default_circuit_diagnostics | Some r \<Rightarrow> rc_circuit r)"

end
