(* ===== verification/Supervisor_Props.thy ===== *)
theory Supervisor_Props
  imports Supervisor
begin

text \<open>
  The properties of the supervisor: a rejected operation changes nothing, the circuit
  breaker keeps a suspended plugin suspended until its cooldown is over, and the latency
  statistics are exact.
\<close>

section \<open>Histories\<close>

datatype supervisor_op =
    SvRegister plugin_id | SvUnregister plugin_id
  | SvStart plugin_id | SvStop plugin_id | SvRestart plugin_id | SvReady plugin_id | SvBusy plugin_id
  | SvFailure plugin_id failure_kind duration | SvSoftTimeout plugin_id | SvSuccess plugin_id
  | SvResume plugin_id duration | SvLatency plugin_id duration
  | SvQueueDepth plugin_id u32 | SvCancellation plugin_id bool u64 | SvStale plugin_id u64
  | SvObsolete plugin_id u64 | SvRefusal plugin_id budget_kind u64

fun sv_exec :: "supervisor_op \<Rightarrow> memory_supervisor \<Rightarrow> unit supervised" where
  "sv_exec (SvRegister p) s = supervisor_register p s"
| "sv_exec (SvUnregister p) s = (fst (supervisor_unregister p s), Inr ())"
| "sv_exec (SvStart p) s = start_worker p s"
| "sv_exec (SvStop p) s = stop_worker p s"
| "sv_exec (SvRestart p) s = restart_worker p s"
| "sv_exec (SvReady p) s = mark_ready p s"
| "sv_exec (SvBusy p) s = mark_busy p s"
| "sv_exec (SvFailure p kind at) s = record_failure p kind at s"
| "sv_exec (SvSoftTimeout p) s = record_soft_timeout p s"
| "sv_exec (SvSuccess p) s = record_success p s"
| "sv_exec (SvResume p now) s = resume_if_ready p now s"
| "sv_exec (SvLatency p d) s = record_latency p d s"
| "sv_exec (SvQueueDepth p n) s = record_queue_depth p n s"
| "sv_exec (SvCancellation p honoured n) s = record_cancellation p honoured n s"
| "sv_exec (SvStale p n) s = record_stale_result_rejected p n s"
| "sv_exec (SvObsolete p n) s = record_obsolete_request_dropped p n s"
| "sv_exec (SvRefusal p kind n) s = record_concurrency_refusal p kind n s"

definition sv_run :: "supervisor_op list \<Rightarrow> memory_supervisor \<Rightarrow> memory_supervisor" where
  "sv_run = fold (\<lambda>op s. fst (sv_exec op s))"

lemmas operations =
  mark_ready_def mark_busy_def start_worker_def stop_worker_def restart_worker_def record_failure_def
  record_soft_timeout_def record_success_def resume_if_ready_def record_latency_def record_queue_depth_def
  record_cancellation_def record_stale_result_rejected_def record_obsolete_request_dropped_def
  record_concurrency_refusal_def transition_def record_health_def

text \<open>The effect of an operation on one plugin's record, over an abstract record function.\<close>

lemma with_record_config [simp]: "sv_circuit_breaker (fst (with_record p f s)) = sv_circuit_breaker s"
  by (simp add: with_record_def split: option.splits prod.splits)

lemma with_record_lookup:
  "map_of (sv_plugins (fst (with_record p f s))) k =
     (if k = p then map_option (\<lambda>r. fst (f r)) (map_of (sv_plugins s) k) else map_of (sv_plugins s) k)"
  by (auto simp: with_record_def lookup_simps split: option.splits prod.splits)

text \<open>
  A method body writes nothing before its last early return. The supervisor is as before an
  operation that fails only if its body has this property.
\<close>

definition errs_first :: "record_method \<Rightarrow> bool" where
  "errs_first body \<longleftrightarrow> (\<forall>r e. snd (body r) = Inl e \<longrightarrow> fst (body r) = r)"

lemma update_same: "map_of m k = Some v \<Longrightarrow> AList.update k v m = m"
  by (induction m) auto

lemma with_record_error:
  assumes "errs_first body" and "snd (with_record p body s) = Inl e"
  shows "fst (with_record p body s) = s"
proof (cases "map_of (sv_plugins s) p")
  case (Some r)
  with assms have "fst (body r) = r" by (simp add: errs_first_def with_record_def case_prod_beta)
  with Some show ?thesis by (simp add: with_record_def case_prod_beta update_same)
qed (simp add: with_record_def)

lemma transition_error: "snd (transition sources what f p s) = Inl e \<Longrightarrow> fst (transition sources what f p s) = s"
  unfolding transition_def by (rule with_record_error) (auto simp: errs_first_def)

lemma record_health_error: "snd (record_health f p s) = Inl e \<Longrightarrow> fst (record_health f p s) = s"
  unfolding record_health_def by (rule with_record_error) (auto simp: errs_first_def)

lemma record_failure_error: "snd (record_failure p kind at s) = Inl e \<Longrightarrow> fst (record_failure p kind at s) = s"
  unfolding record_failure_def
  by (rule with_record_error) (auto simp: errs_first_def split: if_splits option.splits)

lemma resume_error: "snd (resume_if_ready p now s) = Inl e \<Longrightarrow> fst (resume_if_ready p now s) = s"
  unfolding resume_if_ready_def
  by (rule with_record_error) (auto simp: errs_first_def Let_def split: if_splits option.splits)

text \<open>The record function of each operation on an existing record.\<close>

fun sv_target :: "supervisor_op \<Rightarrow> plugin_id" where
  "sv_target (SvRegister p) = p"
| "sv_target (SvUnregister p) = p"
| "sv_target (SvStart p) = p"
| "sv_target (SvStop p) = p"
| "sv_target (SvRestart p) = p"
| "sv_target (SvReady p) = p"
| "sv_target (SvBusy p) = p"
| "sv_target (SvFailure p kind at) = p"
| "sv_target (SvSoftTimeout p) = p"
| "sv_target (SvSuccess p) = p"
| "sv_target (SvResume p now) = p"
| "sv_target (SvLatency p d) = p"
| "sv_target (SvQueueDepth p n) = p"
| "sv_target (SvCancellation p honoured n) = p"
| "sv_target (SvStale p n) = p"
| "sv_target (SvObsolete p n) = p"
| "sv_target (SvRefusal p kind n) = p"

text \<open>
  Plugins are independent: an operation moves the record of its own plugin, as it would in
  a supervisor that has no other.
\<close>

definition record_step :: "circuit_breaker_config \<Rightarrow> supervisor_op \<Rightarrow> plugin_record \<Rightarrow> plugin_record option" where
  "record_step config op r =
     map_of (sv_plugins (fst (sv_exec op \<lparr>sv_circuit_breaker = config, sv_plugins = [(sv_target op, r)]\<rparr>))) (sv_target op)"

definition lifecycle :: "supervisor_op \<Rightarrow> bool" where
  "lifecycle op \<longleftrightarrow> (\<forall>p. op \<noteq> SvRegister p \<and> op \<noteq> SvUnregister p)"

lemma sv_exec_lookup:
  "map_of (sv_plugins (fst (sv_exec op s))) k =
     (if k \<noteq> sv_target op then map_of (sv_plugins s) k
      else case map_of (sv_plugins s) k of
             None \<Rightarrow> (if \<exists>p. op = SvRegister p then Some default_plugin_record else None)
           | Some r \<Rightarrow> record_step (sv_circuit_breaker s) op r)"
proof (cases op)
  case (SvFailure p kind at)
  then show ?thesis
    by (simp add: record_step_def record_failure_def with_record_lookup split: option.splits)
qed (auto simp: record_step_def operations with_record_lookup supervisor_register_def supervisor_unregister_def
    lookup_simps split: option.splits)

lemma note_latency_fields [simp]:
  "rc_state (note_latency d r) = rc_state r" "rc_circuit (note_latency d r) = rc_circuit r"
  "rc_last_event_at (note_latency d r) = rc_last_event_at r"
  by (simp_all add: note_latency_def note_sample_def Let_def)

lemma transition_step:
  "map_of (sv_plugins (fst (transition sources what f p \<lparr>sv_circuit_breaker = config, sv_plugins = [(p, r)]\<rparr>))) p
     = Some (if rc_state r \<in> set sources then f r else r)"
  by (simp add: transition_def with_record_lookup)

lemma health_step:
  "map_of (sv_plugins (fst (record_health f p \<lparr>sv_circuit_breaker = config, sv_plugins = [(p, r)]\<rparr>))) p
     = Some (r\<lparr>rc_health := f (rc_health r)\<rparr>)"
  by (simp add: record_health_def with_record_lookup)

lemmas record_step_unfold = record_step_def mark_ready_def mark_busy_def start_worker_def stop_worker_def restart_worker_def
  record_soft_timeout_def record_success_def record_latency_def record_queue_depth_def
  record_cancellation_def record_stale_result_rejected_def record_obsolete_request_dropped_def
  record_concurrency_refusal_def transition_step health_step

text \<open>Most operations change only the health, or only the worker state.\<close>

lemma record_step_cases:
  assumes "record_step config op r = Some r'"
  obtains (failure) p kind at where "op = SvFailure p kind at"
  | (resume) p now where "op = SvResume p now"
  | (success) p where "op = SvSuccess p" "r' = r \<or> rc_state r \<in> {WkReady, WkBusy} \<and>
      r' = r\<lparr>rc_circuit := (rc_circuit r)\<lparr>cd_failure_streak := 0, cd_retry_at := None\<rparr>\<rparr>"
  | (stop) p where "op = SvStop p" "r' = r \<or> rc_state r \<noteq> WkSuspended \<and>
      r' = r\<lparr>rc_state := WkNotStarted, rc_circuit := (rc_circuit r)\<lparr>cd_retry_at := None\<rparr>\<rparr>"
  | (moves) st where "rc_state r \<noteq> WkSuspended" "st \<notin> {WkSuspended, WkFailed}" "r' = r\<lparr>rc_state := st\<rparr>"
  | (keeps) "rc_state r' = rc_state r" "rc_circuit r' = rc_circuit r" "rc_last_event_at r' = rc_last_event_at r"
proof (cases op)
  case (SvSuccess p)
  then show ?thesis using assms by (intro success) (auto simp: record_step_unfold split: if_splits)
next
  case (SvStop p)
  then show ?thesis using assms by (intro stop) (auto simp: record_step_unfold split: if_splits)
next
  case (SvFailure p kind at)
  then show ?thesis by (rule failure)
next
  case (SvResume p now)
  then show ?thesis by (rule resume)
next
  case (SvStart p)
  with assms have "r' = (if rc_state r = WkNotStarted then r\<lparr>rc_state := WkStarting\<rparr> else r)"
    by (simp add: record_step_unfold)
  with moves [of WkStarting] keeps show ?thesis by (cases "rc_state r = WkNotStarted") simp_all
next
  case (SvRestart p)
  with assms have "r' = (if rc_state r \<in> {WkReady, WkBusy, WkFailed} then r\<lparr>rc_state := WkRestarting\<rparr> else r)"
    by (simp add: record_step_unfold)
  with moves [of WkRestarting] keeps show ?thesis by (cases "rc_state r \<in> {WkReady, WkBusy, WkFailed}") auto
next
  case (SvReady p)
  with assms have "r' = (if rc_state r \<in> {WkStarting, WkBusy, WkRestarting} then r\<lparr>rc_state := WkReady\<rparr> else r)"
    by (simp add: record_step_unfold)
  with moves [of WkReady] keeps show ?thesis by (cases "rc_state r \<in> {WkStarting, WkBusy, WkRestarting}") auto
next
  case (SvBusy p)
  with assms have "r' = (if rc_state r = WkReady then r\<lparr>rc_state := WkBusy\<rparr> else r)"
    by (simp add: record_step_unfold)
  with moves [of WkBusy] keeps show ?thesis by (cases "rc_state r = WkReady") simp_all
next
  case (SvSoftTimeout p)
  then show ?thesis using assms by (intro keeps) (auto simp: record_step_unfold split: if_splits)
next
  case (SvLatency p d)
  then show ?thesis using assms by (intro keeps) (auto simp: record_step_unfold split: if_splits)
next
  case (SvQueueDepth p n)
  then show ?thesis using assms by (intro keeps) (auto simp: record_step_unfold split: if_splits)
next
  case (SvCancellation p honoured n)
  then show ?thesis using assms by (intro keeps) (auto simp: record_step_unfold split: if_splits)
next
  case (SvStale p n)
  then show ?thesis using assms by (intro keeps) (auto simp: record_step_unfold split: if_splits)
next
  case (SvObsolete p n)
  then show ?thesis using assms by (intro keeps) (auto simp: record_step_unfold split: if_splits)
next
  case (SvRefusal p kind n)
  then show ?thesis using assms by (intro keeps) (auto simp: record_step_unfold split: if_splits)
next
  case (SvRegister p)
  then show ?thesis using assms by (intro keeps) (simp_all add: record_step_def supervisor_register_def)
next
  case (SvUnregister p)
  then show ?thesis using assms by (simp add: record_step_def supervisor_unregister_def)
qed

lemma sv_exec_config [simp]: "sv_circuit_breaker (fst (sv_exec op s)) = sv_circuit_breaker s"
  by (cases op) (simp_all add: operations supervisor_register_def supervisor_unregister_def)

lemma sv_run_config [simp]: "sv_circuit_breaker (sv_run ops s) = sv_circuit_breaker s"
  by (induction ops arbitrary: s) (simp_all add: sv_run_def)

lemma sv_exec_error: "snd (sv_exec op s) = Inl e \<Longrightarrow> fst (sv_exec op s) = s"
  by (cases op)
    (auto simp: mark_ready_def mark_busy_def start_worker_def stop_worker_def restart_worker_def
      record_soft_timeout_def record_success_def record_latency_def record_queue_depth_def
      record_cancellation_def record_stale_result_rejected_def record_obsolete_request_dropped_def
      record_concurrency_refusal_def supervisor_register_def
      dest: transition_error record_health_error record_failure_error resume_error split: if_splits)

section \<open>The invariant of a record\<close>

definition record_ok :: "circuit_breaker_config \<Rightarrow> plugin_record \<Rightarrow> bool" where
  "record_ok config r \<longleftrightarrow>
     (rc_state r = WkSuspended \<longleftrightarrow> cd_retry_at (rc_circuit r) \<noteq> None)
     \<and> (rc_state r = WkSuspended \<longrightarrow>
          cc_failure_threshold config \<noteq> 0 \<and> cc_failure_threshold config \<le> cd_failure_streak (rc_circuit r)
          \<and> (\<exists>at l. cd_last_failure_at (rc_circuit r) = Some at \<and> rc_last_event_at r = Some l
               \<and> cd_retry_at (rc_circuit r) = Some (at + cc_cooldown config) \<and> at \<le> l \<and> l \<le> at + cc_cooldown config))
     \<and> (rc_state r = WkFailed \<longrightarrow> cc_failure_threshold config = 0 \<or> cd_failure_streak (rc_circuit r) < cc_failure_threshold config)"

lemma record_ok_default: "record_ok config default_plugin_record"
  by (simp add: record_ok_def default_plugin_record_def default_circuit_diagnostics_def)

lemma record_step_ok:
  assumes "record_ok config r" and "record_step config op r = Some r'"
  shows "record_ok config r'"
  using assms(2)
proof (cases rule: record_step_cases)
  case (failure p kind at)
  then show ?thesis
    using assms
    by (auto simp: record_step_def record_failure_def with_record_lookup record_ok_def failed_record_def
        opens_circuit_def duration_checked_add_def not_le split: if_splits option.splits)
next
  case (resume p now)
  then show ?thesis
    using assms
    by (auto simp: record_step_def resume_if_ready_def with_record_lookup record_ok_def Let_def
        validate_event_timestamp_def split: if_splits option.splits)
qed (use assms(1) in \<open>auto simp: record_ok_def\<close>)

definition supervisor_ok :: "memory_supervisor \<Rightarrow> bool" where
  "supervisor_ok s \<longleftrightarrow> (\<forall>p r. map_of (sv_plugins s) p = Some r \<longrightarrow> record_ok (sv_circuit_breaker s) r)"

lemma supervisor_ok_exec: "supervisor_ok s \<Longrightarrow> supervisor_ok (fst (sv_exec op s))"
  by (auto simp: supervisor_ok_def sv_exec_lookup record_ok_default split: if_splits option.splits dest: record_step_ok)

lemma supervisor_ok_run: "supervisor_ok s \<Longrightarrow> supervisor_ok (sv_run ops s)"
  by (induction ops arbitrary: s) (simp_all add: sv_run_def supervisor_ok_exec)

lemma supervisor_ok_new: "supervisor_ok (supervisor_new config)"
  by (simp add: supervisor_ok_def supervisor_new_def)

section \<open>Errors\<close>

text \<open>
  C30: a supervisor operation that reports an error has changed nothing: not the worker
  state, not a counter, not the circuit, not the last timestamp. The methods write the
  record in place and roll nothing back, so this says that each of them does all its checks
  before its first write. An operation on one plugin
  never touches another, and an unknown plugin is always reported, except that registering
  it succeeds.
\<close>

theorem rejected_operation_is_inert:
  "(snd (sv_exec op s) = Inl e \<longrightarrow> fst (sv_exec op s) = s)
   \<and> (k \<noteq> sv_target op \<longrightarrow> map_of (sv_plugins (fst (sv_exec op s))) k = map_of (sv_plugins s) k)
   \<and> (lifecycle op \<and> map_of (sv_plugins s) (sv_target op) = None \<longrightarrow> snd (sv_exec op s) = Inl (UnknownPlugin (sv_target op)))"
proof (intro conjI impI)
  assume "lifecycle op \<and> map_of (sv_plugins s) (sv_target op) = None"
  then show "snd (sv_exec op s) = Inl (UnknownPlugin (sv_target op))"
    by (cases op) (simp_all add: lifecycle_def operations with_record_def)
qed (simp_all add: sv_exec_error sv_exec_lookup)

theorem rejected_operation_is_inert_witness:
  "fst (sv_exec (SvBusy ''calc'') (sv_run [SvRegister ''calc''] (supervisor_new \<lparr>cc_failure_threshold = 2, cc_cooldown = 5\<rparr>)))
     = sv_run [SvRegister ''calc''] (supervisor_new \<lparr>cc_failure_threshold = 2, cc_cooldown = 5\<rparr>)"
proof -
  have "snd (sv_exec (SvBusy ''calc'') (sv_run [SvRegister ''calc''] (supervisor_new \<lparr>cc_failure_threshold = 2, cc_cooldown = 5\<rparr>)))
      = Inl (IllegalTransition ''calc'' ''mark busy'' WkNotStarted)" by code_simp
  with rejected_operation_is_inert show ?thesis by blast
qed

section \<open>The circuit breaker\<close>

text \<open>A history that leaves an open circuit alone until \<open>t\<close>.\<close>

definition before_retry :: "plugin_id \<Rightarrow> duration \<Rightarrow> supervisor_op \<Rightarrow> bool" where
  "before_retry p t op \<longleftrightarrow> op \<noteq> SvUnregister p \<and> (case op of SvResume k now \<Rightarrow> k = p \<longrightarrow> now < t | _ \<Rightarrow> True)"

definition suspended_until :: "memory_supervisor \<Rightarrow> plugin_id \<Rightarrow> duration \<Rightarrow> bool" where
  "suspended_until s p t \<longleftrightarrow>
     supervisor_state s p = WkSuspended \<and> cd_retry_at (supervisor_circuit s p) = Some t"

lemma suspended_record_step:
  assumes "rc_state r = WkSuspended" and "record_ok config r" and "cd_retry_at (rc_circuit r) = Some t"
    and "before_retry (sv_target op) t op" and "record_step config op r = Some r'"
  shows "rc_state r' = WkSuspended \<and> cd_retry_at (rc_circuit r') = Some t"
  using assms(5)
proof (cases rule: record_step_cases)
  case (failure p kind at)
  then show ?thesis using assms by (cases kind) (simp_all add: record_step_def record_failure_def with_record_lookup)
next
  case (resume p now)
  then have "now < t" using assms(4) by (simp add: before_retry_def)
  with resume assms show ?thesis
    by (auto simp: record_step_def resume_if_ready_def with_record_lookup Let_def split: if_splits option.splits)
qed (use assms in auto)

lemma suspended_exec:
  assumes "supervisor_ok s" and "suspended_until s p t" and "before_retry p t op"
  shows "suspended_until (fst (sv_exec op s)) p t"
proof -
  from assms(2) obtain r where r: "map_of (sv_plugins s) p = Some r" "rc_state r = WkSuspended" "cd_retry_at (rc_circuit r) = Some t"
    by (auto simp: suspended_until_def supervisor_state_def supervisor_circuit_def split: option.splits)
  have ok: "record_ok (sv_circuit_breaker s) r" using assms(1) r(1) by (simp add: supervisor_ok_def)
  show ?thesis
  proof (cases "sv_target op = p")
    case True
    have "record_step (sv_circuit_breaker s) op r \<noteq> None"
      using assms(3) True
      by (cases op) (simp_all add: before_retry_def record_step_unfold record_failure_def resume_if_ready_def
          with_record_lookup supervisor_register_def)
    then obtain r' where r': "record_step (sv_circuit_breaker s) op r = Some r'" by auto
    from suspended_record_step [OF r(2) ok r(3) _ r'] assms(3) True
    have "rc_state r' = WkSuspended \<and> cd_retry_at (rc_circuit r') = Some t" by simp
    then show ?thesis
      using r(1) r' True by (simp add: suspended_until_def supervisor_state_def supervisor_circuit_def sv_exec_lookup)
  next
    case False
    then show ?thesis using r by (auto simp: suspended_until_def supervisor_state_def supervisor_circuit_def sv_exec_lookup)
  qed
qed

lemma suspended_run:
  "supervisor_ok s \<Longrightarrow> suspended_until s p t \<Longrightarrow> list_all (before_retry p t) ops \<Longrightarrow> suspended_until (sv_run ops s) p t"
proof (induction ops arbitrary: s)
  case (Cons op ops)
  from Cons.IH [OF supervisor_ok_exec [OF Cons.prems(1)] suspended_exec [OF Cons.prems(1,2)]] Cons.prems(3)
  show ?case by (simp add: sv_run_def)
qed (simp add: sv_run_def)

lemma resume_open_circuit:
  assumes "supervisor_ok s" and "suspended_until s p t" and "t \<le> now"
  shows "snd (sv_exec (SvResume p now) s) = Inr () \<and> supervisor_state (fst (sv_exec (SvResume p now) s)) p = WkRestarting"
proof -
  from assms(2) obtain r where r: "map_of (sv_plugins s) p = Some r" "rc_state r = WkSuspended" "cd_retry_at (rc_circuit r) = Some t"
    by (auto simp: suspended_until_def supervisor_state_def supervisor_circuit_def split: option.splits)
  then have "record_ok (sv_circuit_breaker s) r" using assms(1) by (simp add: supervisor_ok_def)
  then obtain l where "rc_last_event_at r = Some l" "l \<le> t" using r by (auto simp: record_ok_def)
  with r assms(3) show ?thesis
    by (simp add: resume_if_ready_def with_record_def validate_event_timestamp_def Let_def supervisor_state_def lookup_simps)
qed

text \<open>
  C29: a plugin that has failed too often is left alone for its cooldown and then retried.
  In every history, when the circuit of a plugin is open with retry time \<open>t\<close>, no sequence
  of operations (short of removing the plugin) starts, readies, restarts or fails its
  worker before \<open>t\<close>, and every attempt to do so is an error; at or after \<open>t\<close>
  \<open>resume_if_ready\<close> succeeds and the worker restarts. The retry time is the last failure
  plus the configured cooldown.
\<close>

theorem circuit_breaker_holds:
  assumes "s = sv_run ops (supervisor_new config)" and "suspended_until s p t"
    and "list_all (before_retry p t) later"
  shows "supervisor_state (sv_run later s) p = WkSuspended
    \<and> (op \<in> {SvStart p, SvStop p, SvRestart p, SvReady p, SvBusy p, SvFailure p kind at} \<longrightarrow>
         (\<exists>what. snd (sv_exec op (sv_run later s)) = Inl (IllegalTransition p what WkSuspended)))
    \<and> (t \<le> now \<longrightarrow> snd (sv_exec (SvResume p now) (sv_run later s)) = Inr ()
         \<and> supervisor_state (fst (sv_exec (SvResume p now) (sv_run later s))) p = WkRestarting)
    \<and> (\<exists>failed. cd_last_failure_at (supervisor_circuit s p) = Some failed \<and> t = failed + cc_cooldown config)"
proof -
  have ok: "supervisor_ok s" using assms(1) by (simp add: supervisor_ok_run supervisor_ok_new)
  note later = suspended_run [OF ok assms(2,3)]
  then obtain r where r: "map_of (sv_plugins (sv_run later s)) p = Some r" "rc_state r = WkSuspended"
    by (auto simp: suspended_until_def supervisor_state_def split: option.splits)
  have "\<exists>what. snd (sv_exec op (sv_run later s)) = Inl (IllegalTransition p what WkSuspended)"
    if "op \<in> {SvStart p, SvStop p, SvRestart p, SvReady p, SvBusy p, SvFailure p kind at}"
    using that r by (cases kind) (auto simp: operations with_record_def)
  moreover obtain q where q: "map_of (sv_plugins s) p = Some q" "rc_state q = WkSuspended" "cd_retry_at (rc_circuit q) = Some t"
    using assms(2) by (auto simp: suspended_until_def supervisor_state_def supervisor_circuit_def split: option.splits)
  then have "record_ok config q" using ok assms(1) by (simp add: supervisor_ok_def) (simp add: supervisor_new_def)
  then have "\<exists>failed. cd_last_failure_at (supervisor_circuit s p) = Some failed \<and> t = failed + cc_cooldown config"
    using q by (auto simp: record_ok_def supervisor_circuit_def)
  ultimately show ?thesis
    using later resume_open_circuit [OF supervisor_ok_run [OF ok] later] by (simp add: suspended_until_def)
qed

definition demo_breaker :: circuit_breaker_config where
  "demo_breaker = \<lparr>cc_failure_threshold = 2, cc_cooldown = 5\<rparr>"

definition demo_failing :: "supervisor_op list" where
  "demo_failing = [SvRegister ''calc'', SvStart ''calc'', SvFailure ''calc'' FkCrash 1, SvRestart ''calc'', SvFailure ''calc'' FkStartup 3]"

theorem circuit_breaker_holds_witness:
  "let s = sv_run demo_failing (supervisor_new demo_breaker) in
   supervisor_state (sv_run [SvResume ''calc'' 7, SvStart ''calc''] s) ''calc'' = WkSuspended
   \<and> supervisor_state (fst (sv_exec (SvResume ''calc'' 8) (sv_run [SvResume ''calc'' 7, SvStart ''calc''] s))) ''calc'' = WkRestarting"
proof -
  let ?s = "sv_run demo_failing (supervisor_new demo_breaker)"
  have "supervisor_state ?s ''calc'' = WkSuspended" and "cd_retry_at (supervisor_circuit ?s ''calc'') = Some 8" by code_simp+
  then have "suspended_until ?s ''calc'' 8" by (simp add: suspended_until_def)
  moreover have "list_all (before_retry ''calc'' 8) [SvResume ''calc'' 7, SvStart ''calc'']" by (simp add: before_retry_def)
  ultimately show ?thesis
    using circuit_breaker_holds [OF refl, of demo_failing demo_breaker "''calc''" 8 "[SvResume ''calc'' 7, SvStart ''calc'']"]
    by (simp add: Let_def)
qed

section \<open>Latency\<close>

text \<open>The latency samples recorded for \<open>p\<close> since it was last registered.\<close>

definition log_sample :: "plugin_id \<Rightarrow> supervisor_op \<Rightarrow> memory_supervisor \<Rightarrow> duration list \<Rightarrow> duration list" where
  "log_sample p op s xs =
     (case op of
        SvLatency k d \<Rightarrow> (if k = p \<and> snd (sv_exec op s) = Inr () then xs @ [d] else xs)
      | SvUnregister k \<Rightarrow> (if k = p then [] else xs)
      | _ \<Rightarrow> xs)"

fun latency_log :: "plugin_id \<Rightarrow> supervisor_op list \<Rightarrow> memory_supervisor \<Rightarrow> duration list \<Rightarrow> duration list" where
  "latency_log p [] s xs = xs"
| "latency_log p (op # ops) s xs = latency_log p ops (fst (sv_exec op s)) (log_sample p op s xs)"

definition mean_ok :: "duration list \<Rightarrow> plugin_record \<Rightarrow> bool" where
  "mean_ok xs r \<longleftrightarrow>
     unat (ph_latency_samples (rc_health r)) = length xs
     \<and> rc_latency_mean_ns r * length xs + rc_latency_remainder r = sum_list xs
     \<and> (xs = [] \<or> rc_latency_remainder r < length xs)
     \<and> (xs \<noteq> [] \<longrightarrow> ph_average_latency_ms (rc_health r) = u64_of_len (sum_list xs div length xs div 1000000))
     \<and> ph_peak_latency_ms (rc_health r) = foldl max 0 (map (\<lambda>d. u64_of_len (d div 1000000)) xs)"

lemma mean_step_up:
  fixes m n rem x S :: nat
  assumes "m * n + rem = S" and "m \<le> rem + x"
  shows "(m + (rem + x - m) div (n + 1)) * (n + 1) + (rem + x - m) mod (n + 1) = S + x"
proof -
  have "(m + (rem + x - m) div (n + 1)) * (n + 1) + (rem + x - m) mod (n + 1)
      = m * (n + 1) + ((rem + x - m) div (n + 1) * (n + 1) + (rem + x - m) mod (n + 1))"
    by (simp only: add_mult_distrib add.assoc)
  also have "\<dots> = m * (n + 1) + (rem + x - m)" by (simp only: div_mult_mod_eq)
  finally show ?thesis using assms by simp
qed

lemma mean_step_down:
  fixes m n rem x S :: nat
  assumes "m * n + rem = S" and "rem + x < m"
  defines "d \<equiv> m - (rem + x)" and "k \<equiv> (m - (rem + x) - 1) div (n + 1) + 1"
  shows "(m - k) * (n + 1) + (k * (n + 1) - d) = S + x" and "k * (n + 1) - d < n + 1"
proof -
  have d: "0 < d" "m = rem + x + d" using assms by simp_all
  have split: "d - 1 = (d - 1) div (n + 1) * (n + 1) + (d - 1) mod (n + 1)" by (simp only: div_mult_mod_eq)
  have r: "(d - 1) mod (n + 1) < n + 1" by simp
  have k: "k = (d - 1) div (n + 1) + 1" by (simp add: k_def d_def)
  have kn: "k * (n + 1) = (d - 1) div (n + 1) * (n + 1) + (n + 1)" by (simp add: k)
  have ge: "d \<le> k * (n + 1)" using split r d(1) unfolding kn by linarith
  have lt: "k * (n + 1) < d + (n + 1)" using split d(1) unfolding kn by linarith
  then show "k * (n + 1) - d < n + 1" using ge by linarith
  have "(d - 1) div (n + 1) \<le> d - 1" by (rule div_le_dividend)
  then have "k \<le> m" using d unfolding k by linarith
  then have "(m - k) * (n + 1) = m * (n + 1) - k * (n + 1)" and "k * (n + 1) \<le> m * (n + 1)"
    by (simp only: diff_mult_distrib, simp only: mult_le_mono1)
  then have "(m - k) * (n + 1) + (k * (n + 1) - d) = m * (n + 1) - d" using ge by linarith
  also have "\<dots> = S + x" using assms(1) d(2) by simp
  finally show "(m - k) * (n + 1) + (k * (n + 1) - d) = S + x" .
qed

lemma note_sample_mean:
  fixes x :: nat
  assumes "unat (ph_latency_samples (rc_health r)) = length xs" and "Suc (length xs) < 2 ^ 64"
    and "rc_latency_mean_ns r * length xs + rc_latency_remainder r = sum_list xs"
  defines "r' \<equiv> note_sample x r"
  shows "unat (ph_latency_samples (rc_health r')) = Suc (length xs)"
    and "rc_latency_mean_ns r' * Suc (length xs) + rc_latency_remainder r' = sum_list xs + x"
    and "rc_latency_remainder r' < Suc (length xs)"
    and "ph_peak_latency_ms (rc_health r') = ph_peak_latency_ms (rc_health r)"
proof -
  let ?c = "ph_latency_samples (rc_health r)"
  have peak: "ph_peak_latency_ms (rc_health r') = ph_peak_latency_ms (rc_health r)"
    by (simp add: r'_def note_sample_def Let_def)
  have zero: "?c = 0 \<longleftrightarrow> xs = []" using assms(1) by (metis length_0_conv unat_eq_zero)
  have top: "?c \<noteq> - 1"
  proof
    assume "?c = - 1"
    then show False using assms(1,2) by (simp add: unat_max_word)
  qed
  then have "checked_add ?c 1 \<noteq> None" by (simp add: checked_add_one_None_iff)
  then have "checked_add ?c 1 = Some (?c + 1)" by (auto simp: checked_add_def split: if_splits)
  from unat_checked_add [OF this] have next_count: "unat (?c + 1) = Suc (length xs)" using assms(1) by simp
  have all: "unat (ph_latency_samples (rc_health r')) = Suc (length xs)
      \<and> rc_latency_mean_ns r' * Suc (length xs) + rc_latency_remainder r' = sum_list xs + x
      \<and> rc_latency_remainder r' < Suc (length xs)"
  proof (cases "xs = []")
    case True
    with zero show ?thesis by (simp add: r'_def note_sample_def Let_def)
  next
    case False
    then have ne: "?c \<noteq> 0" using zero by simp
    show ?thesis
    proof (cases "rc_latency_mean_ns r \<le> rc_latency_remainder r + x")
      case True
      with ne top next_count mean_step_up [OF assms(3) True] show ?thesis
        by (simp add: r'_def note_sample_def Let_def)
    next
      case down: False
      then have "rc_latency_remainder r + x < rc_latency_mean_ns r" by simp
      note step = mean_step_down [OF assms(3) this]
      have "rc_latency_mean_ns r' = rc_latency_mean_ns r
            - ((rc_latency_mean_ns r - (rc_latency_remainder r + x) - 1) div (length xs + 1) + 1)"
        and "rc_latency_remainder r' =
            ((rc_latency_mean_ns r - (rc_latency_remainder r + x) - 1) div (length xs + 1) + 1) * (length xs + 1)
            - (rc_latency_mean_ns r - (rc_latency_remainder r + x))"
        and "unat (ph_latency_samples (rc_health r')) = Suc (length xs)"
        using down ne top next_count by (simp_all add: r'_def note_sample_def Let_def)
      with step show ?thesis unfolding Suc_eq_plus1 by simp
    qed
  qed
  from all peak show "unat (ph_latency_samples (rc_health r')) = Suc (length xs)"
    and "rc_latency_mean_ns r' * Suc (length xs) + rc_latency_remainder r' = sum_list xs + x"
    and "rc_latency_remainder r' < Suc (length xs)"
    and "ph_peak_latency_ms (rc_health r') = ph_peak_latency_ms (rc_health r)" by blast+
qed

lemma mean_of_division:
  fixes m n rem S :: nat
  assumes "m * n + rem = S" and "rem < n"
  shows "m = S div n"
  using assms by (metis add.commute add.right_neutral div_less div_mult_self2 less_nat_zero_code mult.commute)

lemma note_latency_mean:
  assumes "mean_ok xs r" and "Suc (length xs) < 2 ^ 64"
  shows "mean_ok (xs @ [x]) (note_latency x r)"
proof -
  have pre: "unat (ph_latency_samples (rc_health r)) = length xs"
    "rc_latency_mean_ns r * length xs + rc_latency_remainder r = sum_list xs"
    "ph_peak_latency_ms (rc_health r) = foldl max 0 (map (\<lambda>d. u64_of_len (d div 1000000)) xs)"
    using assms(1) by (simp_all add: mean_ok_def)
  note s = note_sample_mean [OF pre(1) assms(2) pre(2), of x]
  from mean_of_division [OF s(2,3)] have "rc_latency_mean_ns (note_sample x r) = (sum_list xs + x) div Suc (length xs)" .
  with s pre(3) show ?thesis by (simp add: mean_ok_def note_latency_def Let_def)
qed

definition mean_at :: "memory_supervisor \<Rightarrow> plugin_id \<Rightarrow> duration list \<Rightarrow> bool" where
  "mean_at s p xs \<longleftrightarrow> (case map_of (sv_plugins s) p of None \<Rightarrow> xs = [] | Some r \<Rightarrow> mean_ok xs r)"

lemma mean_ok_default: "mean_ok [] default_plugin_record"
  by (simp add: mean_ok_def default_plugin_record_def default_plugin_health_def)

text \<open>Every other operation leaves the latency statistics alone.\<close>

lemma mean_ok_step:
  assumes "mean_ok xs r" and "\<And>k d. op \<noteq> SvLatency k d" and "record_step config op r = Some r'"
  shows "mean_ok xs r'"
proof -
  have keep: "mean_ok xs (g r)"
    if "\<And>r. rc_latency_mean_ns (g r) = rc_latency_mean_ns r \<and> rc_latency_remainder (g r) = rc_latency_remainder r
      \<and> ph_latency_samples (rc_health (g r)) = ph_latency_samples (rc_health r)
      \<and> ph_average_latency_ms (rc_health (g r)) = ph_average_latency_ms (rc_health r)
      \<and> ph_peak_latency_ms (rc_health (g r)) = ph_peak_latency_ms (rc_health r)" for g
    using assms(1) that by (simp add: mean_ok_def)
  show ?thesis
  proof (cases op)
    case (SvFailure p kind at)
    have "mean_ok xs (failed_record kind at b t r)" for b t
      by (rule keep) (cases kind; simp add: failed_record_def)
    with SvFailure assms(1,3) show ?thesis
      by (auto simp: record_step_def record_failure_def with_record_lookup split: if_splits option.splits)
  next
    case (SvResume p now)
    with assms(1,3) show ?thesis
      by (auto simp: record_step_def resume_if_ready_def with_record_lookup Let_def mean_ok_def split: if_splits option.splits)
  qed (use assms in \<open>auto simp: record_step_unfold supervisor_register_def supervisor_unregister_def mean_ok_def split: if_splits\<close>)
qed

lemma mean_at_exec:
  assumes "mean_at s p xs" and "Suc (length xs) < 2 ^ 64"
  shows "mean_at (fst (sv_exec op s)) p (log_sample p op s xs)"
proof (cases "sv_target op = p")
  case False
  have "log_sample p op s xs = xs" using False by (cases op) (auto simp: log_sample_def)
  with assms(1) False show ?thesis by (simp add: mean_at_def sv_exec_lookup)
next
  case True
  show ?thesis
  proof (cases "map_of (sv_plugins s) p")
    case None
    then have "log_sample p op s xs = []"
      using assms(1) True
      by (cases op) (auto simp: mean_at_def log_sample_def record_latency_def transition_def with_record_def)
    with None True show ?thesis by (simp add: mean_at_def sv_exec_lookup mean_ok_default)
  next
    case (Some r)
    then have ok: "mean_ok xs r" using assms(1) by (simp add: mean_at_def)
    show ?thesis
    proof (cases "\<exists>k d. op = SvLatency k d")
      case lat: True
      then obtain d where op: "op = SvLatency p d" using True by auto
      show ?thesis
        using ok note_latency_mean [OF ok assms(2), of d] Some
        by (simp add: op mean_at_def log_sample_def record_latency_def transition_def with_record_def lookup_simps)
    next
      case lat: False
      show ?thesis
      proof (cases "op = SvUnregister p")
        case True
        then show ?thesis by (simp add: mean_at_def log_sample_def supervisor_unregister_def lookup_simps)
      next
        case False
        then have "log_sample p op s xs = xs" using lat True by (cases op) (auto simp: log_sample_def)
        moreover have "record_step (sv_circuit_breaker s) op r \<noteq> None"
          using False True
          by (cases op) (simp_all add: record_step_unfold record_failure_def resume_if_ready_def
              with_record_lookup supervisor_register_def)
        then obtain r' where r': "record_step (sv_circuit_breaker s) op r = Some r'" by auto
        have "mean_ok xs r'" by (rule mean_ok_step [OF ok _ r']) (use lat in blast)
        ultimately show ?thesis using Some True r' by (simp add: mean_at_def sv_exec_lookup)
      qed
    qed
  qed
qed

lemma log_sample_length: "length (log_sample p op s xs) \<le> Suc (length xs)"
  by (cases op) (simp_all add: log_sample_def)

lemma mean_at_run:
  "mean_at s p xs \<Longrightarrow> length xs + length ops < 2 ^ 64 \<Longrightarrow> mean_at (sv_run ops s) p (latency_log p ops s xs)"
proof (induction ops arbitrary: s xs)
  case (Cons op ops)
  have "Suc (length xs) < 2 ^ 64" using Cons.prems(2) by simp
  note one = mean_at_exec [OF Cons.prems(1) this, of op]
  have "length (log_sample p op s xs) + length ops < 2 ^ 64"
    using Cons.prems(2) log_sample_length [of p op s xs] by simp
  from Cons.IH [OF one this] show ?case by (simp add: sv_run_def)
qed (simp add: sv_run_def)

lemma mean_fits:
  assumes "mean_ok xs r" and "list_all (\<lambda>d. d \<le> duration_max) xs" and "length xs < 2 ^ 64"
  shows "rc_latency_mean_ns r \<le> duration_max \<or> xs = []" and "rc_latency_remainder r < 2 ^ 64 \<or> xs = []"
proof -
  have "sum_list ys \<le> length ys * duration_max" if "list_all (\<lambda>d. d \<le> duration_max) ys" for ys
    using that by (induction ys) auto
  then have "rc_latency_mean_ns r * length xs \<le> duration_max * length xs"
    using assms(1,2) unfolding mean_ok_def by (metis add_leD1 mult.commute)
  then show "rc_latency_mean_ns r \<le> duration_max \<or> xs = []" by (cases "xs = []") simp_all
  show "rc_latency_remainder r < 2 ^ 64 \<or> xs = []" using assms(1,3) by (auto simp: mean_ok_def)
qed

text \<open>
  C31: the latency statistics are exact. After any history of fewer than \<open>2 ^ 64\<close>
  operations, with \<open>xs\<close> the samples accepted for a plugin since it was registered, the
  sample count is the number of samples, the average is the true mean of all of them in
  whole milliseconds, not a drifting approximation, and the peak is the largest sample; the
  128-bit intermediate values do not overflow.
\<close>

theorem latency_statistics_exact:
  assumes "length ops < 2 ^ 64" and "s = sv_run ops (supervisor_new config)"
    and "xs = latency_log p ops (supervisor_new config) []"
  shows "unat (ph_latency_samples (supervisor_health s p)) = length xs
    \<and> (xs \<noteq> [] \<longrightarrow> ph_average_latency_ms (supervisor_health s p) = u64_of_len (sum_list xs div length xs div 1000000))
    \<and> ph_peak_latency_ms (supervisor_health s p) = foldl max 0 (map (\<lambda>d. u64_of_len (d div 1000000)) xs)
    \<and> (list_all (\<lambda>d. d \<le> duration_max) xs \<and> xs \<noteq> [] \<and> map_of (sv_plugins s) p = Some r \<longrightarrow>
         rc_latency_mean_ns r \<le> duration_max \<and> rc_latency_remainder r < 2 ^ 64)"
proof -
  have "mean_at (supervisor_new config) p []" by (simp add: mean_at_def supervisor_new_def)
  then have at: "mean_at s p xs" using mean_at_run [of "supervisor_new config" p "[]" ops] assms by simp
  have "length (latency_log p ops t ys) \<le> length ys + length ops" for t ys
  proof (induction ops arbitrary: t ys)
    case (Cons op ops)
    from Cons.IH [of "fst (sv_exec op t)" "log_sample p op t ys"] log_sample_length [of p op t ys] show ?case by simp
  qed simp
  then have len: "length xs < 2 ^ 64" using assms(1,3) by (metis add_0 le_less_trans list.size(3))
  show ?thesis
  proof (cases "map_of (sv_plugins s) p")
    case None
    with at show ?thesis by (simp add: mean_at_def supervisor_health_def default_plugin_health_def)
  next
    case (Some q)
    with at have "mean_ok xs q" by (simp add: mean_at_def)
    with mean_fits [OF this _ len] Some show ?thesis by (auto simp: mean_ok_def supervisor_health_def)
  qed
qed

definition demo_latency_ops :: "supervisor_op list" where
  "demo_latency_ops = [SvRegister ''calc'', SvStart ''calc'', SvReady ''calc'', SvBusy ''calc'',
     SvLatency ''calc'' 3, SvLatency ''calc'' 6]"

theorem latency_statistics_exact_witness:
  "unat (ph_latency_samples (supervisor_health (sv_run demo_latency_ops (supervisor_new demo_breaker)) ''calc'')) = 2
    \<and> ph_average_latency_ms (supervisor_health (sv_run demo_latency_ops (supervisor_new demo_breaker)) ''calc'')
        = u64_of_len (9 div 2 div 1000000)"
proof -
  have xs: "latency_log ''calc'' demo_latency_ops (supervisor_new demo_breaker) [] = [3, 6]" by code_simp
  have "length demo_latency_ops < 2 ^ 64" by (simp add: demo_latency_ops_def)
  note stats = latency_statistics_exact [OF this refl refl, of demo_breaker "''calc''", unfolded xs]
  have "length [3 :: nat, 6] = 2" and "sum_list [3 :: nat, 6] = 9" by simp_all
  with stats show ?thesis by (metis list.distinct(1))
qed

end
