(* ===== verification/Manifest_Policy.thy ===== *)
theory Manifest_Policy
  imports Scheduler_Model Concurrency
begin

text \<open>
  Plugin manifests and the policy resolved from them:
  \<open>crates/crikey-plugin-model/src/scheduling.rs\<close>, \<open>permissions.rs\<close>, the sections of
  \<open>manifest.rs\<close> they read, and \<open>plugin_policy_from_manifest\<close> of
  \<open>crates/crikey-app/src/query_pipeline.rs\<close>, which turns the resolved policy into the
  scheduler's. The record \<open>manifest\<close> has the sections these functions read; the
  \<open>[platform]\<close>, \<open>[python]\<close>, \<open>[configuration]\<close> and \<open>[catalog]\<close> sections are left out. The
  regular-expression builder is the parameter \<open>regex_build\<close> of \<open>Activation\<close>.
\<close>

section \<open>Permissions\<close>

datatype filesystem_scope = FsNone | FsUserSelected | FsPluginData | FsPackage | FsHome | FsAny

datatype filesystem_access = FaRead | FaWrite | FaReadWrite

definition fa_allows_read :: "filesystem_access \<Rightarrow> bool" where
  "fa_allows_read a \<longleftrightarrow> a = FaRead \<or> a = FaReadWrite"

definition fa_allows_write :: "filesystem_access \<Rightarrow> bool" where
  "fa_allows_write a \<longleftrightarrow> a = FaWrite \<or> a = FaReadWrite"

record filesystem_permission =
  fp_scope :: filesystem_scope
  fp_access :: filesystem_access

datatype clipboard_permission = ClNone | ClRead | ClWrite | ClReadWrite

definition cl_allows_read :: "clipboard_permission \<Rightarrow> bool" where
  "cl_allows_read c \<longleftrightarrow> c = ClRead \<or> c = ClReadWrite"

definition cl_allows_write :: "clipboard_permission \<Rightarrow> bool" where
  "cl_allows_write c \<longleftrightarrow> c = ClWrite \<or> c = ClReadWrite"

record permissions =
  pm_filesystem :: "filesystem_permission list"
  pm_network :: bool
  pm_network_listener :: bool
  pm_clipboard :: clipboard_permission
  pm_process :: bool
  pm_window_enumeration :: bool
  pm_window_control :: bool
  pm_notifications :: bool
  pm_secrets :: bool
  pm_environment :: bool
  pm_native_library_loading :: bool
  pm_web_storage :: bool
  pm_background_execution :: bool

definition default_permissions :: permissions where
  "default_permissions =
     \<lparr>pm_filesystem = [], pm_network = False, pm_network_listener = False, pm_clipboard = ClNone,
      pm_process = False, pm_window_enumeration = False, pm_window_control = False,
      pm_notifications = False, pm_secrets = False, pm_environment = False,
      pm_native_library_loading = False, pm_web_storage = False, pm_background_execution = False\<rparr>"

definition allows_filesystem_read :: "permissions \<Rightarrow> filesystem_scope \<Rightarrow> bool" where
  "allows_filesystem_read p scope =
     (case scope of
        FsNone \<Rightarrow> False
      | FsPackage \<Rightarrow> pm_filesystem p = [] \<or> list_ex (\<lambda>e. fp_scope e \<noteq> FsNone) (pm_filesystem p)
      | wanted \<Rightarrow>
          list_ex (\<lambda>e. (fp_scope e = wanted \<or> fp_scope e = FsAny) \<and> fa_allows_read (fp_access e))
            (pm_filesystem p))"

definition legacy_compatibility_baseline :: permissions where
  "legacy_compatibility_baseline =
     default_permissions\<lparr>pm_process := True,
       pm_filesystem := [\<lparr>fp_scope = FsPackage, fp_access = FaRead\<rparr>]\<rparr>"

datatype web_surface_refusal = NetworkNotGranted | StorageNotGranted

definition admit_web_surface :: "permissions \<Rightarrow> bool \<Rightarrow> bool \<Rightarrow> web_surface_refusal + unit" where
  "admit_web_surface p wants_navigation wants_persistent_storage =
     (if wants_navigation \<and> \<not> pm_network p then Inl NetworkNotGranted
      else if wants_persistent_storage \<and> \<not> pm_web_storage p then Inl StorageNotGranted
      else Inr ())"

section \<open>Manifest sections\<close>

datatype runtime = RtLegacyPython | RtPython | RtNative | RtWasm | RtCAbi | RtBuiltin

record plugin_section =
  pn_id :: string
  pn_name :: string
  pn_version :: string
  pn_runtime :: runtime
  pn_scheduling_profile :: "scheduling_profile option"
  pn_entrypoint :: "(string \<times> string) list"
  pn_api :: "string option"

record activation_section =
  an_minimum_query_length :: "nat option"
  an_prefixes :: "string list"
  an_keywords :: "string list"
  an_patterns :: "string list"
  an_categories :: "string list"
  an_empty_query :: "bool option"

record query_section =
  qs_debounce_ms :: "u64 option"
  qs_maximum_wait_ms :: "u64 option"
  qs_leading_edge :: "bool option"
  qs_trailing_edge :: "bool option"
  qs_max_concurrent_requests :: "u32 option"
  qs_network_backed :: "bool option"

datatype startup = Lazy | Eager

record performance_section =
  pf_startup :: startup
  pf_suggest_soft_timeout_ms :: u64
  pf_suggest_hard_timeout_ms :: u64
  pf_maximum_results_per_query :: nat
  pf_maximum_results_per_batch :: nat

definition default_performance_section :: performance_section where
  "default_performance_section =
     \<lparr>pf_startup = Lazy, pf_suggest_soft_timeout_ms = 50, pf_suggest_hard_timeout_ms = 500,
      pf_maximum_results_per_query = 250, pf_maximum_results_per_batch = 50\<rparr>"

record manifest =
  mf_manifest_version :: u32
  mf_plugin :: plugin_section
  mf_activation :: activation_section
  mf_query :: query_section
  mf_concurrency :: concurrency_section
  mf_permissions :: permissions
  mf_performance :: performance_section

datatype policy_problem = Contradictory | OutOfRange | NotPermitted | Malformed

datatype manifest_error =
    InvalidQueryPolicy string policy_problem "string option"
  | NoEntrypoint string string

text \<open>
  \<open>entrypoint_for\<close>: the entry of the platform pair if it has text, otherwise the
  runtime-neutral one if that has.
\<close>

definition with_text :: "string option \<Rightarrow> string option" where
  "with_text entry = (case entry of Some e \<Rightarrow> if trim e = [] then None else Some e | None \<Rightarrow> None)"

definition entrypoint_for :: "manifest \<Rightarrow> string \<Rightarrow> string \<Rightarrow> manifest_error + string" where
  "entrypoint_for mf os arch =
     (let entries = map_of (pn_entrypoint (mf_plugin mf)) in
      case with_text (entries (os @ ''-'' @ arch)) of
        Some e \<Rightarrow> Inr e
      | None \<Rightarrow>
          (case with_text (entries ''any'') of
             Some e \<Rightarrow> Inr e
           | None \<Rightarrow> Inl (NoEntrypoint os arch)))"

section \<open>Resolved policies\<close>

definition max_debounce_ms :: u64 where "max_debounce_ms = 1000"
definition max_concurrent_requests_limit :: u32 where "max_concurrent_requests_limit = 32"
definition max_minimum_query_length :: nat where "max_minimum_query_length = 1024"
definition max_activation_patterns :: nat where "max_activation_patterns = 16"
definition native_debounce_ms :: u64 where "native_debounce_ms = 40"
definition python_debounce_ms :: u64 where "python_debounce_ms = 60"
definition network_debounce_ms :: u64 where "network_debounce_ms = 200"
definition default_maximum_wait_multiplier :: u64 where "default_maximum_wait_multiplier = 4"

record unhonoured_declaration =
  ud_field :: string
  ud_reason :: string

record query_policy =
  qy_profile :: scheduling_profile
  qy_debounce_ms :: u64
  qy_maximum_wait_ms :: "u64 option"
  qy_leading_edge :: bool
  qy_trailing_edge :: bool
  qy_minimum_query_length :: nat
  qy_max_concurrent_requests :: u32
  qy_network_backed :: bool
  qy_empty_query :: bool
  qy_prefixes :: "string list"
  qy_keywords :: "string list"
  qy_patterns :: "activation_pattern list"
  qy_categories :: "string list"

text \<open>
  \<open>starts_with_ignore_ascii_case\<close> and \<open>str::eq_ignore_ascii_case\<close> compare UTF-8 bytes. On
  the characters of the model a scalar value below 128 is one byte and any other is two.
\<close>

definition utf8_char :: "char \<Rightarrow> nat list" where
  "utf8_char c =
     (let n = (of_char c :: nat) in if n < 128 then [n] else [192 + n div 64, 128 + n mod 64])"

definition utf8_bytes :: "string \<Rightarrow> nat list" where
  "utf8_bytes s = concat (map utf8_char s)"

definition ascii_lower :: "nat \<Rightarrow> nat" where
  "ascii_lower b = (if 65 \<le> b \<and> b \<le> 90 then b + 32 else b)"

definition eq_ignore_ascii_case :: "nat list \<Rightarrow> nat list \<Rightarrow> bool" where
  "eq_ignore_ascii_case a b \<longleftrightarrow> map ascii_lower a = map ascii_lower b"

definition starts_with_ignore_ascii_case :: "string \<Rightarrow> string \<Rightarrow> bool" where
  "starts_with_ignore_ascii_case v prefix =
     (let bytes = utf8_bytes v; n = length (utf8_bytes prefix) in
      n \<le> length bytes \<and> eq_ignore_ascii_case (take n bytes) (utf8_bytes prefix))"

definition policy_admits :: "query_policy \<Rightarrow> string \<Rightarrow> bool" where
  "policy_admits p query =
     (if query = [] then qy_empty_query p
      else if length query < qy_minimum_query_length p then False
      else if qy_prefixes p = [] \<and> qy_keywords p = [] \<and> qy_patterns p = [] then True
      else
        list_ex (\<lambda>prefix. starts_with_ignore_ascii_case query prefix) (qy_prefixes p)
        \<or> (case split_whitespace query of
             [] \<Rightarrow> False
           | first # _ \<Rightarrow>
               list_ex (\<lambda>keyword. eq_ignore_ascii_case (utf8_bytes first) (utf8_bytes keyword)) (qy_keywords p))
        \<or> (let normalized = to_lowercase query in
           list_ex (\<lambda>pattern. pattern_is_match pattern normalized) (qy_patterns p)))"

definition manifest_scheduling_profile :: "manifest \<Rightarrow> scheduling_profile" where
  "manifest_scheduling_profile mf =
     unwrap_or (pn_scheduling_profile (mf_plugin mf))
       (if pn_runtime (mf_plugin mf) = RtLegacyPython then LegacyStrict else Modern)"

fun default_debounce_ms :: "runtime \<Rightarrow> bool \<Rightarrow> u64" where
  "default_debounce_ms RtBuiltin network_backed = 0"
| "default_debounce_ms RtPython network_backed = (if network_backed then network_debounce_ms else python_debounce_ms)"
| "default_debounce_ms RtLegacyPython network_backed = (if network_backed then network_debounce_ms else python_debounce_ms)"
| "default_debounce_ms RtNative network_backed = (if network_backed then network_debounce_ms else native_debounce_ms)"
| "default_debounce_ms RtWasm network_backed = (if network_backed then network_debounce_ms else native_debounce_ms)"
| "default_debounce_ms RtCAbi network_backed = (if network_backed then network_debounce_ms else native_debounce_ms)"

text \<open>\<open>u64::saturating_mul\<close>.\<close>

definition sat_mul :: "u64 \<Rightarrow> u64 \<Rightarrow> u64" where
  "sat_mul a b = (if unat a * unat b < 2 ^ 64 then a * b else - 1)"

lemma sat_mul_code [code]:
  "sat_mul a b = (if int (unat a * unat b) < 18446744073709551616 then a * b else - 1)"
proof -
  have "n < 2 ^ 64 \<longleftrightarrow> int n < 18446744073709551616" for n :: nat by simp
  then show ?thesis unfolding sat_mul_def by (rule if_cong) simp_all
qed

definition default_maximum_wait_ms :: "u64 \<Rightarrow> u64 option" where
  "default_maximum_wait_ms period =
     (if period \<noteq> 0
      then Some (max (min (sat_mul period default_maximum_wait_multiplier) max_debounce_ms) period)
      else None)"

text \<open>A declaration that does not compile is kept as a pattern that admits nothing.\<close>

definition compiled_activation_patterns ::
  "regex_builder \<Rightarrow> manifest \<Rightarrow> activation_pattern list option" where
  "compiled_activation_patterns regex_build mf =
     those (map (\<lambda>declared.
       case pattern_new regex_build declared of
         Inr p \<Rightarrow> Some p
       | Inl _ \<Rightarrow> never_matching regex_build declared) (an_patterns (mf_activation mf)))"

definition effective_network_backed :: "manifest \<Rightarrow> bool" where
  "effective_network_backed mf = unwrap_or (qs_network_backed (mf_query mf)) (pm_network (mf_permissions mf))"

definition effective_debounce_ms :: "manifest \<Rightarrow> u64" where
  "effective_debounce_ms mf =
     unwrap_or (qs_debounce_ms (mf_query mf))
       (default_debounce_ms (pn_runtime (mf_plugin mf)) (effective_network_backed mf))"

definition resolve_query_policy :: "regex_builder \<Rightarrow> manifest \<Rightarrow> query_policy option" where
  "resolve_query_policy regex_build mf =
     (let prof = manifest_scheduling_profile mf; a = mf_activation mf; q = mf_query mf in
      if prof = LegacyStrict then
        Some \<lparr>qy_profile = prof, qy_debounce_ms = 0, qy_maximum_wait_ms = None, qy_leading_edge = True,
              qy_trailing_edge = True, qy_minimum_query_length = 0, qy_max_concurrent_requests = 1,
              qy_network_backed = False, qy_empty_query = True, qy_prefixes = [], qy_keywords = [],
              qy_patterns = [], qy_categories = an_categories a\<rparr>
      else
        let period = effective_debounce_ms mf;
            wait = (if period = 0 then None
                    else case qs_maximum_wait_ms q of
                           Some w \<Rightarrow> Some w
                         | None \<Rightarrow> default_maximum_wait_ms period)
        in case compiled_activation_patterns regex_build mf of
             None \<Rightarrow> None
           | Some patterns \<Rightarrow>
               Some \<lparr>qy_profile = prof, qy_debounce_ms = period, qy_maximum_wait_ms = wait,
                     qy_leading_edge = unwrap_or (qs_leading_edge q) True,
                     qy_trailing_edge = unwrap_or (qs_trailing_edge q) True,
                     qy_minimum_query_length = unwrap_or (an_minimum_query_length a) 0,
                     qy_max_concurrent_requests = unwrap_or (qs_max_concurrent_requests q) 1,
                     qy_network_backed = effective_network_backed mf,
                     qy_empty_query = unwrap_or (an_empty_query a) False,
                     qy_prefixes = an_prefixes a, qy_keywords = an_keywords a,
                     qy_patterns = patterns, qy_categories = an_categories a\<rparr>)"

section \<open>What a manifest declares in vain\<close>

definition ignored_modern_fields :: "manifest \<Rightarrow> string list" where
  "ignored_modern_fields mf =
     (if manifest_scheduling_profile mf \<noteq> LegacyStrict then []
      else
        let a = mf_activation mf; q = mf_query mf;
            note = (\<lambda>declared field. if declared then [field] else []) in
        note (an_minimum_query_length a \<noteq> None) ''activation.minimum-query-length''
        @ note (an_prefixes a \<noteq> []) ''activation.prefixes''
        @ note (an_keywords a \<noteq> []) ''activation.keywords''
        @ note (an_patterns a \<noteq> []) ''activation.patterns''
        @ note (an_empty_query a \<noteq> None) ''activation.empty-query''
        @ note (qs_debounce_ms q \<noteq> None) ''query.debounce-ms''
        @ note (qs_maximum_wait_ms q \<noteq> None) ''query.maximum-wait-ms''
        @ note (qs_leading_edge q \<noteq> None) ''query.leading-edge''
        @ note (qs_trailing_edge q \<noteq> None) ''query.trailing-edge''
        @ note (qs_max_concurrent_requests q \<noteq> None) ''query.max-concurrent-requests''
        @ note (qs_network_backed q \<noteq> None) ''query.network-backed'')"

definition unhonoured_declarations :: "manifest \<Rightarrow> unhonoured_declaration list" where
  "unhonoured_declarations mf =
     (let p = mf_permissions mf; rt = pn_runtime (mf_plugin mf);
          note = (\<lambda>declared field reason. if declared then [\<lparr>ud_field = field, ud_reason = reason\<rparr>] else []) in
      note (list_ex (\<lambda>e. fp_scope e \<noteq> FsPackage \<and> fp_scope e \<noteq> FsNone) (pm_filesystem p))
        ''permissions.filesystem'' ''host-mediates-no-filesystem-access-outside-the-plugin-package''
      @ note (pm_clipboard p \<noteq> ClNone) ''permissions.clipboard'' ''no-host-mediated-clipboard-api-for-plugins''
      @ note (pm_window_enumeration p) ''permissions.window-enumeration'' ''no-host-mediated-window-api-for-plugins''
      @ note (pm_window_control p) ''permissions.window-control'' ''no-host-mediated-window-api-for-plugins''
      @ note (pm_notifications p) ''permissions.notifications'' ''no-host-mediated-notification-api-for-plugins''
      @ note (pm_secrets p) ''permissions.secrets'' ''no-host-mediated-secret-store-api-for-plugins''
      @ note (pm_environment p \<and> \<not> (rt = RtPython \<or> rt = RtNative \<or> rt = RtCAbi))
          ''permissions.environment'' ''host-does-not-mediate-child-environment-for-runtime''
      @ note (pm_native_library_loading p \<and> rt \<noteq> RtCAbi)
          ''permissions.native-library-loading'' ''out-of-process-plugin-loads-its-own-libraries''
      @ note (pm_background_execution p \<and> rt \<noteq> RtPython)
          ''permissions.background-execution'' ''no-background-task-api-for-runtime''
      @ note (rt = RtCAbi \<and> (case cs_max_suggestion_requests (mf_concurrency mf) of None \<Rightarrow> False | Some n \<Rightarrow> 1 < n))
          ''concurrency.max-suggestion-requests'' ''c-abi-calls-are-serialised'')"

section \<open>Validation\<close>

definition invalid :: "string \<Rightarrow> policy_problem \<Rightarrow> manifest_error + 'a" where
  "invalid field problem = Inl (InvalidQueryPolicy field problem None)"

definition invalid_with_detail :: "string \<Rightarrow> policy_problem \<Rightarrow> string \<Rightarrow> manifest_error + 'a" where
  "invalid_with_detail field problem detail = Inl (InvalidQueryPolicy field problem (Some detail))"

definition validate_permissions :: "manifest \<Rightarrow> manifest_error + unit" where
  "validate_permissions mf =
     (if pm_network_listener (mf_permissions mf)
      then invalid_with_detail ''permissions.network-listener'' NotPermitted
             ''permissions.network-listener cannot be granted: this host offers plugins no inbound socket''
      else Inr ())"

text \<open>The \<open>Display\<close> of a pattern error, generated from its attributes.\<close>

fun pattern_error_text :: "activation_pattern_error \<Rightarrow> string" where
  "pattern_error_text PatternEmpty = ''an activation pattern must not be empty''"
| "pattern_error_text (PatternTooLong actual) =
     ''an activation pattern must be at most '' @ decimal max_pattern_bytes @ '' bytes, this one is '' @ decimal actual"
| "pattern_error_text (PatternMalformed pattern reason) =
     ''the activation pattern `'' @ pattern @ ''` did not compile: '' @ reason"

fun pattern_problem :: "activation_pattern_error \<Rightarrow> policy_problem" where
  "pattern_problem (PatternTooLong actual) = OutOfRange"
| "pattern_problem PatternEmpty = Malformed"
| "pattern_problem (PatternMalformed pattern reason) = Malformed"

fun validate_patterns :: "regex_builder \<Rightarrow> string list \<Rightarrow> manifest_error + unit" where
  "validate_patterns regex_build [] = Inr ()"
| "validate_patterns regex_build (declared # rest) =
     (case pattern_new regex_build declared of
        Inl e \<Rightarrow> invalid_with_detail ''activation.patterns'' (pattern_problem e) (pattern_error_text e)
      | Inr _ \<Rightarrow> validate_patterns regex_build rest)"

definition exceeding :: "'a::linorder option \<Rightarrow> 'a \<Rightarrow> bool" where
  "exceeding declared limit = (case declared of None \<Rightarrow> False | Some v \<Rightarrow> limit < v)"

text \<open>The checks on the resolved policy, the last block of \<open>validate_query_policy\<close>.\<close>

definition validate_resolved :: "query_policy \<Rightarrow> manifest_error + unit" where
  "validate_resolved policy =
     (if (case qy_maximum_wait_ms policy of None \<Rightarrow> False | Some w \<Rightarrow> w < qy_debounce_ms policy)
      then invalid ''query.maximum-wait-ms'' Contradictory
      else if \<not> qy_leading_edge policy \<and> \<not> qy_trailing_edge policy
      then invalid ''query.leading-edge'' Contradictory
      else if qy_empty_query policy \<and> 0 < qy_minimum_query_length policy
      then invalid ''activation.minimum-query-length'' Contradictory
      else Inr ())"

text \<open>\<open>None\<close> where resolving the policy panics.\<close>

definition validate_query_policy :: "regex_builder \<Rightarrow> manifest \<Rightarrow> (manifest_error + unit) option" where
  "validate_query_policy regex_build mf =
     (let prof = manifest_scheduling_profile mf;
          legacy_runtime = (pn_runtime (mf_plugin mf) = RtLegacyPython);
          q = mf_query mf; a = mf_activation mf in
      if legacy_runtime = (prof = Modern) then Some (invalid ''plugin.scheduling-profile'' Contradictory)
      else if \<not> legacy_runtime \<and> prof \<noteq> Modern then Some (invalid ''plugin.scheduling-profile'' Contradictory)
      else if exceeding (qs_debounce_ms q) max_debounce_ms then Some (invalid ''query.debounce-ms'' OutOfRange)
      else if exceeding (qs_maximum_wait_ms q) max_debounce_ms then Some (invalid ''query.maximum-wait-ms'' OutOfRange)
      else if (case qs_max_concurrent_requests q of
                 None \<Rightarrow> False | Some v \<Rightarrow> v = 0 \<or> max_concurrent_requests_limit < v)
      then Some (invalid ''query.max-concurrent-requests'' OutOfRange)
      else if exceeding (an_minimum_query_length a) max_minimum_query_length
      then Some (invalid ''activation.minimum-query-length'' OutOfRange)
      else if max_activation_patterns < length (an_patterns a)
      then Some (invalid ''activation.patterns'' OutOfRange)
      else case validate_patterns regex_build (an_patterns a) of
        Inl e \<Rightarrow> Some (Inl e)
      | Inr _ \<Rightarrow>
          if effective_debounce_ms mf = 0 \<and> qs_maximum_wait_ms q \<noteq> None
          then Some (invalid_with_detail ''query.maximum-wait-ms'' Contradictory
            ''query.maximum-wait-ms cannot be combined with query.debounce-ms = 0 or an effective debounce period of 0 because zero debounce dispatches immediately'')
          else if qs_network_backed q = Some True \<and> \<not> pm_network (mf_permissions mf)
          then Some (invalid ''query.network-backed'' NotPermitted)
          else map_option validate_resolved (resolve_query_policy regex_build mf))"

section \<open>The scheduler's policy\<close>

definition plugin_policy_of :: "query_policy \<Rightarrow> plugin_policy" where
  "plugin_policy_of resolved =
     (let defaults = (case qy_profile resolved of
                        LegacyStrict \<Rightarrow> legacy_strict | LegacyOptimized \<Rightarrow> legacy_optimized | Modern \<Rightarrow> modern) in
      \<lparr>profile = qy_profile resolved,
       debounce = \<lparr>debounce_ms = qy_debounce_ms resolved, maximum_wait_ms = qy_maximum_wait_ms resolved,
                   leading_edge = qy_leading_edge resolved, trailing_edge = qy_trailing_edge resolved,
                   minimum_query_length = qy_minimum_query_length resolved\<rparr>,
       activation = \<lparr>supports_empty_query = qy_empty_query resolved, act_prefixes = qy_prefixes resolved,
                     act_keywords = qy_keywords resolved, act_patterns = qy_patterns resolved\<rparr>,
       max_concurrent_requests = unat (qy_max_concurrent_requests resolved),
       queue_policy = queue_policy defaults, queue_capacity = queue_capacity defaults\<rparr>)"

definition plugin_policy_from_manifest :: "regex_builder \<Rightarrow> manifest \<Rightarrow> plugin_policy option" where
  "plugin_policy_from_manifest regex_build mf = map_option plugin_policy_of (resolve_query_policy regex_build mf)"

section \<open>Validated manifests resolve to coherent policies\<close>

lemma those_map_Some: "(\<And>x. x \<in> set xs \<Longrightarrow> f x = Some (g x)) \<Longrightarrow> those (map f xs) = Some (map g xs)"
  by (induction xs) auto

lemma validate_patterns_ok:
  "validate_patterns regex_build ds = Inr () \<longleftrightarrow> (\<forall>d \<in> set ds. \<exists>p. pattern_new regex_build d = Inr p)"
  by (induction ds) (auto simp: invalid_with_detail_def split: sum.splits)

lemma compiled_patterns:
  assumes "validate_patterns regex_build (an_patterns (mf_activation mf)) = Inr ()"
  shows "\<exists>ps. compiled_activation_patterns regex_build mf = Some ps \<and> length ps = length (an_patterns (mf_activation mf))
    \<and> map Inr ps = map (pattern_new regex_build) (an_patterns (mf_activation mf))"
proof -
  let ?g = "\<lambda>d. projr (pattern_new regex_build d)"
  have ok: "pattern_new regex_build d = Inr (?g d)" if "d \<in> set (an_patterns (mf_activation mf))" for d
    using assms that by (auto simp: validate_patterns_ok)
  have "compiled_activation_patterns regex_build mf = Some (map ?g (an_patterns (mf_activation mf)))"
    unfolding compiled_activation_patterns_def
    by (rule those_map_Some) (use assms in \<open>auto simp: validate_patterns_ok split: sum.splits\<close>)
  with ok show ?thesis by auto
qed

lemma default_wait_bounds:
  assumes "d \<le> max_debounce_ms"
  shows "default_maximum_wait_ms d = None \<longleftrightarrow> d = 0"
    and "default_maximum_wait_ms d = Some w \<Longrightarrow> d \<le> w \<and> w \<le> max_debounce_ms"
  using assms by (auto simp: default_maximum_wait_ms_def split: if_splits)

lemma default_debounce_bound: "default_debounce_ms rt nb \<le> max_debounce_ms"
  by (cases rt) (simp_all add: max_debounce_ms_def network_debounce_ms_def python_debounce_ms_def native_debounce_ms_def)

text \<open>What the declarations of an accepted manifest satisfy, check by check.\<close>

definition accepted_declarations :: "regex_builder \<Rightarrow> manifest \<Rightarrow> bool" where
  "accepted_declarations regex_build mf \<longleftrightarrow>
     (manifest_scheduling_profile mf = Modern \<longleftrightarrow> pn_runtime (mf_plugin mf) \<noteq> RtLegacyPython)
     \<and> \<not> exceeding (qs_debounce_ms (mf_query mf)) max_debounce_ms
     \<and> \<not> exceeding (qs_maximum_wait_ms (mf_query mf)) max_debounce_ms
     \<and> (\<forall>v. qs_max_concurrent_requests (mf_query mf) = Some v \<longrightarrow> v \<noteq> 0 \<and> v \<le> max_concurrent_requests_limit)
     \<and> \<not> exceeding (an_minimum_query_length (mf_activation mf)) max_minimum_query_length
     \<and> length (an_patterns (mf_activation mf)) \<le> max_activation_patterns
     \<and> validate_patterns regex_build (an_patterns (mf_activation mf)) = Inr ()
     \<and> (qs_network_backed (mf_query mf) = Some True \<longrightarrow> pm_network (mf_permissions mf))"

lemma validated_declarations:
  assumes "validate_query_policy regex_build mf = Some (Inr ())"
  shows "accepted_declarations regex_build mf"
    and "\<exists>p. resolve_query_policy regex_build mf = Some p \<and> validate_resolved p = Inr ()"
  using assms
  by (auto simp: validate_query_policy_def accepted_declarations_def invalid_def invalid_with_detail_def Let_def
      not_less split: if_splits sum.splits option.splits)

definition coherent_policy :: "manifest \<Rightarrow> query_policy \<Rightarrow> bool" where
  "coherent_policy mf p \<longleftrightarrow>
     qy_debounce_ms p \<le> max_debounce_ms
     \<and> (qy_maximum_wait_ms p = None \<longleftrightarrow> qy_debounce_ms p = 0)
     \<and> (\<forall>w. qy_maximum_wait_ms p = Some w \<longrightarrow> qy_debounce_ms p \<le> w \<and> w \<le> max_debounce_ms)
     \<and> (qy_leading_edge p \<or> qy_trailing_edge p)
     \<and> 1 \<le> qy_max_concurrent_requests p \<and> qy_max_concurrent_requests p \<le> max_concurrent_requests_limit
     \<and> qy_minimum_query_length p \<le> max_minimum_query_length
     \<and> (qy_empty_query p \<longrightarrow> qy_minimum_query_length p = 0)
     \<and> length (qy_patterns p) \<le> max_activation_patterns
     \<and> (qy_network_backed p \<longrightarrow> pm_network (mf_permissions mf))
     \<and> (qy_profile p = Modern \<longleftrightarrow> pn_runtime (mf_plugin mf) \<noteq> RtLegacyPython)"

text \<open>
  What the resolved policy keeps of the declarations. A strict legacy plugin is called for every
  query, so its activation rules are dropped, all of them; any other plugin has them as declared,
  each pattern compiled, in the order of the manifest.
\<close>

definition honours_activation :: "regex_builder \<Rightarrow> manifest \<Rightarrow> query_policy \<Rightarrow> bool" where
  "honours_activation regex_build mf p \<longleftrightarrow>
     qy_categories p = an_categories (mf_activation mf)
     \<and> (if qy_profile p = LegacyStrict
        then qy_prefixes p = [] \<and> qy_keywords p = [] \<and> qy_patterns p = []
        else qy_prefixes p = an_prefixes (mf_activation mf) \<and> qy_keywords p = an_keywords (mf_activation mf)
          \<and> map Inr (qy_patterns p) = map (pattern_new regex_build) (an_patterns (mf_activation mf)))"

lemma resolved_activation:
  assumes "accepted_declarations regex_build mf" and "resolve_query_policy regex_build mf = Some p"
  shows "honours_activation regex_build mf p"
proof -
  obtain ps where "compiled_activation_patterns regex_build mf = Some ps"
    and "map Inr ps = map (pattern_new regex_build) (an_patterns (mf_activation mf))"
    using assms(1) compiled_patterns [of regex_build mf] unfolding accepted_declarations_def by blast
  with assms(2) show ?thesis
    by (auto simp: resolve_query_policy_def honours_activation_def Let_def split: if_splits)
qed

text \<open>
  What the scheduler's normalization keeps of a policy: everything but the case and the blanks
  around the declared prefixes and keywords.
\<close>

definition same_schedule :: "plugin_policy \<Rightarrow> plugin_policy \<Rightarrow> bool" where
  "same_schedule a b \<longleftrightarrow>
     profile a = profile b \<and> debounce a = debounce b
     \<and> max_concurrent_requests a = max_concurrent_requests b
     \<and> queue_policy a = queue_policy b \<and> queue_capacity a = queue_capacity b
     \<and> supports_empty_query (activation a) = supports_empty_query (activation b)
     \<and> act_patterns (activation a) = act_patterns (activation b)"

lemma normalize_keeps_resolved:
  assumes p: "resolve_query_policy regex_build mf = Some p" and co: "coherent_policy mf p"
  shows "same_schedule (normalize_policy (plugin_policy_of p)) (plugin_policy_of p)"
proof -
  have "1 \<le> unat (qy_max_concurrent_requests p)" using co by (simp add: coherent_policy_def word_le_nat_alt)
  moreover have "qy_profile p = LegacyStrict \<Longrightarrow>
      p = \<lparr>qy_profile = LegacyStrict, qy_debounce_ms = 0, qy_maximum_wait_ms = None, qy_leading_edge = True,
           qy_trailing_edge = True, qy_minimum_query_length = 0, qy_max_concurrent_requests = 1,
           qy_network_backed = False, qy_empty_query = True, qy_prefixes = [], qy_keywords = [],
           qy_patterns = [], qy_categories = an_categories (mf_activation mf)\<rparr>"
    using p by (auto simp: resolve_query_policy_def Let_def split: if_splits option.splits)
  ultimately show ?thesis
    using co
    by (cases "qy_profile p")
      (auto simp: same_schedule_def normalize_policy_def plugin_policy_of_def Let_def
        legacy_strict_def legacy_optimized_def modern_def coherent_policy_def default_activation_policy_def)
qed

lemma resolved_queue:
  "queue_policy (plugin_policy_of p) = ReplaceOldest \<and> queue_capacity (plugin_policy_of p) = 1"
  by (cases "qy_profile p")
    (simp_all add: plugin_policy_of_def Let_def legacy_strict_def legacy_optimized_def modern_def)

lemma resolved_coherent:
  assumes ok: "accepted_declarations regex_build mf" and p: "resolve_query_policy regex_build mf = Some p"
    and res: "validate_resolved p = Inr ()"
  shows "coherent_policy mf p"
proof (cases "manifest_scheduling_profile mf = LegacyStrict")
  case True
  with p ok show ?thesis
    by (auto simp: resolve_query_policy_def coherent_policy_def accepted_declarations_def max_debounce_ms_def
        max_concurrent_requests_limit_def)
next
  case False
  obtain ps where ps: "compiled_activation_patterns regex_build mf = Some ps"
    and len: "length ps = length (an_patterns (mf_activation mf))"
    using ok compiled_patterns [of regex_build mf] unfolding accepted_declarations_def by blast
  have d: "effective_debounce_ms mf \<le> max_debounce_ms"
    using ok default_debounce_bound
    by (auto simp: accepted_declarations_def effective_debounce_ms_def unwrap_or_def exceeding_def not_less split: option.splits)
  have wait: "qy_maximum_wait_ms p =
      (if effective_debounce_ms mf = 0 then None
       else case qs_maximum_wait_ms (mf_query mf) of Some w \<Rightarrow> Some w | None \<Rightarrow> default_maximum_wait_ms (effective_debounce_ms mf))"
    and deb: "qy_debounce_ms p = effective_debounce_ms mf"
    and prof: "qy_profile p = manifest_scheduling_profile mf"
    and pats: "qy_patterns p = ps"
    and conc: "qy_max_concurrent_requests p = unwrap_or (qs_max_concurrent_requests (mf_query mf)) 1"
    and minlen: "qy_minimum_query_length p = unwrap_or (an_minimum_query_length (mf_activation mf)) 0"
    and nb: "qy_network_backed p = effective_network_backed mf"
    using p False ps by (auto simp: resolve_query_policy_def Let_def)
  have "qy_maximum_wait_ms p = None \<longleftrightarrow> qy_debounce_ms p = 0"
    using default_wait_bounds(1) [OF d] by (auto simp: wait deb split: option.splits)
  moreover have "qy_debounce_ms p \<le> w \<and> w \<le> max_debounce_ms" if "qy_maximum_wait_ms p = Some w" for w
  proof -
    have "qy_debounce_ms p \<le> w" using that res by (auto simp: validate_resolved_def invalid_def not_less split: if_splits)
    moreover have "w \<le> max_debounce_ms"
      using that ok default_wait_bounds(2) [OF d]
      by (auto simp: wait accepted_declarations_def exceeding_def not_less split: if_splits option.splits)
    ultimately show ?thesis ..
  qed
  moreover have "qy_leading_edge p \<or> qy_trailing_edge p" and "qy_empty_query p \<longrightarrow> qy_minimum_query_length p = 0"
    using res by (auto simp: validate_resolved_def invalid_def split: if_splits)
  moreover have "1 \<le> qy_max_concurrent_requests p \<and> qy_max_concurrent_requests p \<le> max_concurrent_requests_limit"
    using ok by (auto simp: conc accepted_declarations_def unwrap_or_def max_concurrent_requests_limit_def
        word_le_nat_alt unat_gt_0 Suc_le_eq split: option.splits)
  moreover have "qy_minimum_query_length p \<le> max_minimum_query_length"
    using ok by (auto simp: minlen accepted_declarations_def unwrap_or_def exceeding_def split: option.splits)
  moreover have "qy_network_backed p \<longrightarrow> pm_network (mf_permissions mf)"
    using ok by (auto simp: nb accepted_declarations_def effective_network_backed_def unwrap_or_def split: option.splits)
  ultimately show ?thesis
    using ok d by (simp add: coherent_policy_def deb pats len prof accepted_declarations_def)
qed

text \<open>
  C38: a manifest that passes validation resolves, without panicking, to a coherent policy
  that the scheduler takes as it is. The debounce period is at most \<open>MAX_DEBOUNCE_MS\<close>; a
  maximum wait exists exactly when there is a period to bound, and lies between the period
  and \<open>MAX_DEBOUNCE_MS\<close>; one edge at least dispatches; the request budget lies between 1
  and 32; there are at most 16 patterns; a plugin that accepts the empty query has no minimum
  length; only a plugin with the network permission is network-backed; and the modern profile
  goes with exactly the non-legacy runtimes (\<open>coherent_policy\<close>). Prefixes, keywords and categories
  are the declared ones, and the patterns are the declared ones, each compiled, none dropped, in
  order; for a strict legacy plugin the rules are dropped instead (\<open>honours_activation\<close>). The
  scheduler's normalization leaves the profile, the debounce, the budget, the queue's policy and
  capacity, the patterns and the empty-query rule as resolved (\<open>same_schedule\<close>); the budget is the
  resolved one and the queue holds one request, the newest.
\<close>

theorem validated_manifest_coherent:
  assumes "validate_query_policy regex_build mf = Some (Inr ())"
  shows "\<exists>p. resolve_query_policy regex_build mf = Some p \<and> coherent_policy mf p
    \<and> honours_activation regex_build mf p
    \<and> plugin_policy_from_manifest regex_build mf = Some (plugin_policy_of p)
    \<and> same_schedule (normalize_policy (plugin_policy_of p)) (plugin_policy_of p)
    \<and> profile (normalize_policy (plugin_policy_of p)) = qy_profile p
    \<and> debounce (normalize_policy (plugin_policy_of p)) = debounce (plugin_policy_of p)
    \<and> max_concurrent_requests (normalize_policy (plugin_policy_of p)) = unat (qy_max_concurrent_requests p)
    \<and> act_patterns (activation (normalize_policy (plugin_policy_of p))) = qy_patterns p
    \<and> queue_policy (normalize_policy (plugin_policy_of p)) = ReplaceOldest
    \<and> queue_capacity (normalize_policy (plugin_policy_of p)) = 1"
proof -
  obtain p where p: "resolve_query_policy regex_build mf = Some p" and "validate_resolved p = Inr ()"
    using validated_declarations(2) [OF assms] by blast
  with validated_declarations(1) [OF assms] have co: "coherent_policy mf p" and "honours_activation regex_build mf p"
    using resolved_coherent resolved_activation by blast+
  moreover have same: "same_schedule (normalize_policy (plugin_policy_of p)) (plugin_policy_of p)"
    using p co by (rule normalize_keeps_resolved)
  ultimately show ?thesis
    using p same resolved_queue [of p]
    by (intro exI [of _ p]) (simp add: plugin_policy_from_manifest_def same_schedule_def plugin_policy_of_def Let_def)
qed

definition demo_builder :: regex_builder where
  "demo_builder source limit = (if source = ''('' then Inl ''unclosed group'' else Inr (\<lambda>q. False))"

definition demo_manifest :: manifest where
  "demo_manifest =
     \<lparr>mf_manifest_version = 1,
      mf_plugin = \<lparr>pn_id = ''repo'', pn_name = ''Repos'', pn_version = ''1.0'', pn_runtime = RtPython,
        pn_scheduling_profile = None, pn_entrypoint = [(''any'', ''main.py'')], pn_api = None\<rparr>,
      mf_activation = \<lparr>an_minimum_query_length = Some 2, an_prefixes = [''Repo''], an_keywords = [''git''],
        an_patterns = [''v[0-9]''], an_categories = [], an_empty_query = None\<rparr>,
      mf_query = \<lparr>qs_debounce_ms = None, qs_maximum_wait_ms = Some 300, qs_leading_edge = Some False,
        qs_trailing_edge = None, qs_max_concurrent_requests = Some 4, qs_network_backed = None\<rparr>,
      mf_concurrency = default_concurrency_section,
      mf_permissions = default_permissions\<lparr>pm_network := True\<rparr>,
      mf_performance = default_performance_section\<rparr>"

lemma demo_pattern: "pattern_new demo_builder ''v[0-9]'' = Inr \<lparr>ap_source = ''v[0-9]'', ap_matcher = \<lambda>q. False\<rparr>"
  by (simp add: pattern_new_def demo_builder_def trim_def is_whitespace_def utf8_len_def max_pattern_bytes_def)

lemma demo_resolves:
  "validate_query_policy demo_builder demo_manifest = Some (Inr ())
   \<and> map_option qy_debounce_ms (resolve_query_policy demo_builder demo_manifest) = Some 200"
  by (simp add: validate_query_policy_def resolve_query_policy_def compiled_activation_patterns_def demo_pattern
      demo_manifest_def manifest_scheduling_profile_def unwrap_or_def exceeding_def effective_debounce_ms_def
      effective_network_backed_def validate_resolved_def default_permissions_def
      max_debounce_ms_def network_debounce_ms_def max_concurrent_requests_limit_def max_minimum_query_length_def
      max_activation_patterns_def)

theorem validated_manifest_coherent_witness:
  "\<exists>p. resolve_query_policy demo_builder demo_manifest = Some p \<and> coherent_policy demo_manifest p
    \<and> qy_debounce_ms p = 200 \<and> map Inr (qy_patterns p) = [pattern_new demo_builder ''v[0-9]'']"
proof -
  obtain p where p: "resolve_query_policy demo_builder demo_manifest = Some p" "coherent_policy demo_manifest p"
    "honours_activation demo_builder demo_manifest p"
    using validated_manifest_coherent [of demo_builder demo_manifest] demo_resolves by auto
  moreover have "qy_profile p \<noteq> LegacyStrict"
    using p(2) by (auto simp: coherent_policy_def demo_manifest_def)
  moreover have "an_patterns (mf_activation demo_manifest) = [''v[0-9]'']" by (simp add: demo_manifest_def)
  ultimately show ?thesis using demo_resolves by (auto simp: honours_activation_def)
qed

section \<open>Admission by the manifest and by the scheduler\<close>

text \<open>A literal the scheduler's normalization keeps, up to case: text in ASCII, no blanks around it.\<close>

definition plain_literal :: "string \<Rightarrow> bool" where
  "plain_literal t \<longleftrightarrow> t \<noteq> [] \<and> trim t = t \<and> list_all (\<lambda>c. (of_char c :: nat) < 128) t"

lemma ascii_lower_char:
  "(of_char c :: nat) < 128 \<Longrightarrow> (of_char (char_lower c) :: nat) = ascii_lower (of_char c)"
  by (auto simp: char_lower_def ascii_lower_def Let_def)

lemma lower_fixed_ascii:
  "(of_char c :: nat) < 128 \<Longrightarrow> char_lower c = c \<Longrightarrow> ascii_lower (of_char c) = of_char c"
  using ascii_lower_char [of c] by simp

lemma utf8_head_wide: "128 \<le> (of_char c :: nat) \<Longrightarrow> \<exists>b. utf8_char c = [192 + of_char c div 64, b]"
  by (simp add: utf8_char_def Let_def)

lemma utf8_ascii: "list_all (\<lambda>c. (of_char c :: nat) < 128) t \<Longrightarrow> utf8_bytes t = map of_char t"
  by (induction t) (auto simp: utf8_bytes_def utf8_char_def)

lemma same_ascii_char:
  assumes "char_lower d = d" and "(of_char c :: nat) < 128" and "(of_char d :: nat) < 128"
  shows "ascii_lower (of_char d) = ascii_lower (of_char c) \<longleftrightarrow> d = char_lower c"
  using assms by (metis ascii_lower_char of_char_eq_iff)

text \<open>
  Comparing UTF-8 bytes up to ASCII case, against a lower-case subject, is comparing
  characters against the lower-cased literal.
\<close>

lemma starts_with_bytes:
  assumes "to_lowercase q = q" and "list_all (\<lambda>c. (of_char c :: nat) < 128) t"
  shows "starts_with_ignore_ascii_case q t \<longleftrightarrow> starts_with q (to_lowercase t)"
  using assms
proof (induction t arbitrary: q)
  case Nil
  then show ?case by (simp add: starts_with_ignore_ascii_case_def starts_with_def utf8_bytes_def to_lowercase_def eq_ignore_ascii_case_def)
next
  case (Cons c t)
  show ?case
  proof (cases q)
    case Nil
    then have "utf8_bytes q = []" by (simp add: utf8_bytes_def)
    with Nil show ?thesis
      using Cons.prems(2) by (simp add: starts_with_ignore_ascii_case_def starts_with_def utf8_ascii to_lowercase_def Let_def)
  next
    case (Cons d ds)
    with Cons.prems Cons.IH [of ds]
    have IH: "starts_with_ignore_ascii_case ds t \<longleftrightarrow> starts_with ds (to_lowercase t)" and d: "char_lower d = d"
      and c: "(of_char c :: nat) < 128" by (auto simp: to_lowercase_def)
    show ?thesis
    proof (cases "(of_char d :: nat) < 128")
      case True
      have "utf8_bytes q = of_char d # utf8_bytes ds" using True Cons by (simp add: utf8_bytes_def utf8_char_def)
      then have "starts_with_ignore_ascii_case q (c # t) \<longleftrightarrow>
          ascii_lower (of_char d) = ascii_lower (of_char c) \<and> starts_with_ignore_ascii_case ds t"
        using Cons.prems(2) by (auto simp: starts_with_ignore_ascii_case_def Let_def utf8_ascii eq_ignore_ascii_case_def)
      with same_ascii_char [OF d c True] IH Cons show ?thesis by (auto simp: starts_with_def to_lowercase_def)
    next
      case False
      then obtain b where "utf8_bytes q = (192 + of_char d div 64) # b # utf8_bytes ds"
        using Cons utf8_head_wide [of d] by (auto simp: utf8_bytes_def)
      then have "\<not> starts_with_ignore_ascii_case q (c # t)"
        using Cons.prems(2) by (auto simp: starts_with_ignore_ascii_case_def Let_def utf8_ascii eq_ignore_ascii_case_def ascii_lower_def split: if_splits)
      moreover have "char_lower c \<noteq> d" using False ascii_lower_char [OF c] c by (auto simp: ascii_lower_def split: if_splits)
      ultimately show ?thesis using Cons by (auto simp: starts_with_def to_lowercase_def)
    qed
  qed
qed

lemma equal_bytes:
  assumes "to_lowercase q = q" and "list_all (\<lambda>c. (of_char c :: nat) < 128) t"
  shows "eq_ignore_ascii_case (utf8_bytes q) (utf8_bytes t) \<longleftrightarrow> q = to_lowercase t"
proof -
  have len: "length (utf8_bytes t) = length t" using assms(2) by (simp add: utf8_ascii)
  have long: "length q \<le> length (utf8_bytes q)"
    by (induction q) (auto simp: utf8_bytes_def utf8_char_def Let_def)
  show ?thesis
  proof (cases "starts_with_ignore_ascii_case q t")
    case True
    then have pre: "take (length t) q = to_lowercase t" using starts_with_bytes [OF assms] by (simp add: starts_with_def to_lowercase_def)
    show ?thesis
    proof
      assume "eq_ignore_ascii_case (utf8_bytes q) (utf8_bytes t)"
      then have "length (utf8_bytes q) = length t" unfolding eq_ignore_ascii_case_def using len by (metis length_map)
      with long pre show "q = to_lowercase t" by simp
    next
      assume q: "q = to_lowercase t"
      have "list_all (\<lambda>c. (of_char c :: nat) < 128) q"
        unfolding q to_lowercase_def using assms(2) by (auto simp: list_all_iff ascii_lower_char ascii_lower_def)
      then have "length (utf8_bytes q) = length t" by (simp add: utf8_ascii q to_lowercase_def)
      with True show "eq_ignore_ascii_case (utf8_bytes q) (utf8_bytes t)"
        by (simp add: starts_with_ignore_ascii_case_def Let_def len)
    qed
  next
    case False
    moreover from False have "take (length t) q \<noteq> to_lowercase t"
      using starts_with_bytes [OF assms] by (simp add: starts_with_def to_lowercase_def)
    moreover have "q = to_lowercase t \<Longrightarrow> take (length t) q = to_lowercase t" by (simp add: to_lowercase_def)
    moreover have "eq_ignore_ascii_case (utf8_bytes q) (utf8_bytes t) \<Longrightarrow> starts_with_ignore_ascii_case q t"
      unfolding starts_with_ignore_ascii_case_def eq_ignore_ascii_case_def Let_def by (metis length_map order_refl take_all)
    ultimately show ?thesis by blast
  qed
qed

lemma lower_idem: "to_lowercase (to_lowercase s) = to_lowercase s"
proof -
  have "char_lower (char_lower c) = char_lower c" for c
    by (auto simp: char_lower_def Let_def)
  then show ?thesis by (simp add: to_lowercase_def)
qed

lemma lower_fixed_iff: "to_lowercase q = q \<longleftrightarrow> (\<forall>c \<in> set q. char_lower c = c)"
  by (induction q) (auto simp: to_lowercase_def)

lemma lower_fixed_sub: "to_lowercase q = q \<Longrightarrow> set r \<subseteq> set q \<Longrightarrow> to_lowercase r = r"
  by (auto simp: lower_fixed_iff)

lemma first_word:
  "split_whitespace q = first # rest \<Longrightarrow> set first \<subseteq> set q"
  by (subst (asm) split_whitespace.simps) (auto simp: Let_def dest!: set_takeWhileD set_dropWhileD split: if_splits)

lemma normalized_literals:
  "list_all plain_literal ts \<Longrightarrow>
     filter (\<lambda>t. t \<noteq> []) (map (\<lambda>t. to_lowercase (trim t)) ts) = map to_lowercase ts"
  by (induction ts) (auto simp: plain_literal_def to_lowercase_def)

text \<open>
  C39: on a query as the scheduler normalizes it, trimmed and lower-cased, the manifest
  model's answer to which queries a plugin accepts is the scheduler's gate: the gate of an
  enabled plugin registered with the resolved policy is open exactly when \<open>policy_admits\<close> says so.
  The declared prefixes and keywords are text in ASCII with no blanks around it, in either
  case; patterns and the profile are arbitrary.
\<close>

theorem admission_agrees_with_scheduler:
  assumes "resolve_query_policy regex_build mf = Some p"
    and "list_all plain_literal (an_prefixes (mf_activation mf))"
    and "list_all plain_literal (an_keywords (mf_activation mf))"
    and "ps_enabled st" and "ps_policy st = normalize_policy (plugin_policy_of p)"
  shows "gate_for_query st (to_lowercase (trim query)) = None \<longleftrightarrow> policy_admits p (to_lowercase (trim query))"
proof -
  define q where "q = to_lowercase (trim query)"
  have q: "to_lowercase q = q" by (simp add: q_def lower_idem)
  show ?thesis unfolding q_def [symmetric]
  proof (cases "qy_profile p = LegacyStrict")
    case True
    with assms(1) have "qy_empty_query p" "qy_minimum_query_length p = 0" "qy_prefixes p = []" "qy_keywords p = []" "qy_patterns p = []"
      by (auto simp: resolve_query_policy_def Let_def split: if_splits option.splits)
    with True assms(4,5) show "gate_for_query st q = None \<longleftrightarrow> policy_admits p q"
      by (simp add: gate_for_query_def policy_admits_def allows_host_gating_def normalize_policy_def plugin_policy_of_def
          legacy_strict_def Let_def)
  next
    case False
    have lits: "list_all plain_literal (qy_prefixes p)" "list_all plain_literal (qy_keywords p)"
      using assms(1,2,3) False by (auto simp: resolve_query_policy_def Let_def split: if_splits option.splits)
    have pol: "ps_policy st = (plugin_policy_of p)\<lparr>max_concurrent_requests := max (unat (qy_max_concurrent_requests p)) 1,
        queue_capacity := max (queue_capacity (plugin_policy_of p)) 1,
        debounce := debounce (ps_policy st),
        activation := \<lparr>supports_empty_query = qy_empty_query p, act_prefixes = map to_lowercase (qy_prefixes p),
          act_keywords = map to_lowercase (qy_keywords p), act_patterns = qy_patterns p\<rparr>\<rparr>"
      using False assms(5) lits
      by (simp add: normalize_policy_def plugin_policy_of_def Let_def normalized_literals)
    have len: "minimum_query_length (debounce (ps_policy st)) = qy_minimum_query_length p"
      using False assms(5) by (simp add: normalize_policy_def plugin_policy_of_def Let_def)
    have prof: "profile (ps_policy st) = qy_profile p" by (subst pol) (simp add: plugin_policy_of_def Let_def)
    have act: "activation (ps_policy st) = \<lparr>supports_empty_query = qy_empty_query p, act_prefixes = map to_lowercase (qy_prefixes p),
          act_keywords = map to_lowercase (qy_keywords p), act_patterns = qy_patterns p\<rparr>"
      by (subst pol) simp
    have pre: "list_ex (\<lambda>t. starts_with q t) (map to_lowercase (qy_prefixes p))
        \<longleftrightarrow> list_ex (\<lambda>t. starts_with_ignore_ascii_case q t) (qy_prefixes p)"
      using lits(1) starts_with_bytes [OF q] by (auto simp: list_ex_iff list_all_iff plain_literal_def)
    have key: "list_ex (\<lambda>k. first = k) (map to_lowercase (qy_keywords p))
        \<longleftrightarrow> list_ex (\<lambda>k. eq_ignore_ascii_case (utf8_bytes first) (utf8_bytes k)) (qy_keywords p)"
      if "split_whitespace q = first # rest" for first rest
      using lits(2) equal_bytes [OF lower_fixed_sub [OF q first_word [OF that]]]
      by (auto simp: list_ex_iff list_all_iff plain_literal_def)
    show "gate_for_query st q = None \<longleftrightarrow> policy_admits p q"
      using False pre key
      by (auto simp: gate_for_query_def policy_admits_def allows_host_gating_def assms(4) prof len act q Let_def
          split: list.splits)
  qed
qed

definition demo_plugin_state :: plugin_state where
  "demo_plugin_state = plugin_state_new (normalize_policy (plugin_policy_of (the (resolve_query_policy demo_builder demo_manifest))))"

theorem admission_agrees_with_scheduler_witness:
  "gate_for_query demo_plugin_state (to_lowercase (trim '' Repo crikey'')) = None
   \<longleftrightarrow> policy_admits (the (resolve_query_policy demo_builder demo_manifest)) (to_lowercase (trim '' Repo crikey''))"
proof -
  let ?p = "the (resolve_query_policy demo_builder demo_manifest)"
  have "resolve_query_policy demo_builder demo_manifest = Some ?p" using demo_resolves by auto
  moreover have "list_all plain_literal (an_prefixes (mf_activation demo_manifest))"
    and "list_all plain_literal (an_keywords (mf_activation demo_manifest))"
    by (simp_all add: demo_manifest_def plain_literal_def trim_def is_whitespace_def)
  moreover have "ps_enabled demo_plugin_state" and "ps_policy demo_plugin_state = normalize_policy (plugin_policy_of ?p)"
    by (simp_all add: demo_plugin_state_def plugin_state_new_def)
  ultimately show ?thesis by (rule admission_agrees_with_scheduler)
qed

text \<open>
  Outside those literals the two disagree: a declared prefix of blanks, which no check
  refuses, is dropped by the scheduler, so that the plugin is not gated at all, and is
  compared as it stands by \<open>policy_admits\<close>.
\<close>

definition blank_policy :: query_policy where
  "blank_policy =
     \<lparr>qy_profile = Modern, qy_debounce_ms = 0, qy_maximum_wait_ms = None, qy_leading_edge = True,
      qy_trailing_edge = True, qy_minimum_query_length = 0, qy_max_concurrent_requests = 1, qy_network_backed = False,
      qy_empty_query = False, qy_prefixes = ['' ''], qy_keywords = [], qy_patterns = [], qy_categories = []\<rparr>"

lemma blank_prefix_divergence:
  "gate_for_query (plugin_state_new (normalize_policy (plugin_policy_of blank_policy))) ''abc'' = None
   \<and> \<not> policy_admits blank_policy ''abc''"
  by (simp add: blank_policy_def gate_for_query_def policy_admits_def plugin_state_new_def normalize_policy_def plugin_policy_of_def
      trim_def is_whitespace_def to_lowercase_def starts_with_ignore_ascii_case_def utf8_bytes_def utf8_char_def
      eq_ignore_ascii_case_def ascii_lower_def allows_host_gating_def split: list.splits)

end
