(* ===== verification/Query_Pipeline.thy ===== *)
theory Query_Pipeline
  imports Scheduler_Liveness Intake_Props Supervisor_Props Manifest_Policy "HOL-Library.Monad_Syntax"
begin

text \<open>
  The composed query pipeline: \<open>crates/crikey-app/src/query_pipeline.rs\<close>. The record
  \<open>query_pipeline\<close> holds the four components it composes and its own bookkeeping, and every
  method is a function that returns \<open>None\<close> where the source panics: where a component
  panics, and at each \<open>expect\<close> that the registries stay in lockstep.

  A budget handle is an \<open>Arc\<close>. The cells the handles share are the list \<open>qp_heap\<close>, a handle
  is an index into it, \<open>Arc::ptr_eq\<close> is equality of indices, and dropping a guard releases
  its slot in the cell. A \<open>HashMap\<close> or \<open>HashSet\<close> is an association list or a list of keys,
  visited in insertion order where the source iterates over it. What the icon resolver
  answers at the moment of a call is the parameter \<open>resolve\<close>; \<open>qp_icons\<close> records that a
  resolver is installed.
\<close>

section \<open>Data\<close>

record pipeline_config =
  pc_scheduler :: scheduler_config
  pc_limits :: result_limits
  pc_intake_limits :: queue_limits
  pc_default_intake_policy :: intake_policy
  pc_drain_budget :: drain_budget

definition default_pipeline_config :: pipeline_config where
  "default_pipeline_config =
     (let scheduler = default_scheduler_config; limits = default_result_limits in
      \<lparr>pc_scheduler = scheduler, pc_limits = limits,
       pc_intake_limits = \<lparr>ql_capacity_batches = result_queue_capacity scheduler,
                           ql_capacity_items = max_items_per_query limits\<rparr>,
       pc_default_intake_policy =
         \<lparr>ip_capacity_batches = result_queue_capacity scheduler,
          ip_capacity_items = max_items_per_plugin_per_query limits,
          ip_pause_at_batches = result_queue_capacity scheduler,
          ip_resume_at_batches = result_queue_capacity scheduler div 2,
          ip_overflow = OvPauseProducer\<rparr>,
       pc_drain_budget = \<lparr>dg_batches_per_plugin = 1, dg_items_per_plugin = max_items_per_batch limits,
                          dg_total_batches = dispatch_budget_per_tick scheduler\<rparr>\<rparr>)"

datatype pipeline_error =
    PlAlreadyRegistered plugin_id
  | PlQueueRejected plugin_id generation queue_reject
  | PlAggregatorRejected plugin_id generation reject_reason
  | PlUnsupportedRuntime plugin_id runtime
  | PlBudgetAlreadyOwned plugin_id plugin_id

record pipeline_tick =
  pt_dispatches :: "dispatched_request list"
  pt_cancellations :: "cancelled_request list"
  pt_drain_report :: drain_report
  pt_errors :: "pipeline_error list"

record health_sync =
  hs_stale_results :: u64
  hs_obsolete_requests :: u64
  hs_refusals :: concurrency_refusals

definition default_health_sync :: health_sync where
  "default_health_sync = \<lparr>hs_stale_results = 0, hs_obsolete_requests = 0, hs_refusals = no_refusals\<rparr>"

type_synonym icon_image = "nat list"
type_synonym icon_resolver = "string \<Rightarrow> string \<Rightarrow> icon_image option"

record result_row =
  rr_item :: item_id
  rr_label :: string
  rr_description :: string
  rr_icon_reference :: "string option"
  rr_icon :: "icon_image option"
  rr_category :: string
  rr_plugin_name :: string
  rr_highlights :: "(nat \<times> nat) list"
  rr_argument_hint :: "string option"
  rr_status :: "string option"
  rr_default_action :: "action option"
  rr_alternate_actions :: "action list"

text \<open>A frame of the pipeline; the settings and the page of a frame are always empty here.\<close>

record view_model =
  vm_generation :: generation
  vm_query :: string
  vm_rows :: "result_row list"
  vm_selected :: nat
  vm_pending_plugins :: bool
  vm_actions_open :: bool
  vm_settings_open :: bool
  vm_show_hints :: bool
  vm_rounded_corners :: bool

type_synonym budget_handle = nat
type_synonym request_id = "plugin_id \<times> generation"
type_synonym owned_guard = "budget_handle \<times> budget_kind"

record query_pipeline =
  qp_scheduler :: query_scheduler
  qp_intake :: inbound_result_queue
  qp_aggregator :: memory_result_aggregator
  qp_supervisor :: memory_supervisor
  qp_default_intake_policy :: intake_policy
  qp_drain_budget :: drain_budget
  qp_last_intake_drain_at :: "millis option"
  qp_result_trace_capacity :: nat
  qp_max_items_per_batch :: nat
  qp_max_items_per_plugin_per_query :: nat
  qp_max_items_per_query :: nat
  qp_unranked_batches :: nat
  qp_registered :: "plugin_id list"
  qp_health_sync :: "(plugin_id \<times> health_sync) list"
  qp_profile_overrides :: "(plugin_id \<times> scheduling_profile) list"
  qp_budgets :: "(plugin_id \<times> budget_handle) list"
  qp_admitted :: "(request_id \<times> owned_guard) list"
  qp_active_requests :: "request_id list"
  qp_unresolved_cancellations :: "request_id list"
  qp_pending_cancellations :: "cancelled_request list"
  qp_pending_completions :: "(request_id \<times> millis) list"
  qp_pending_errors :: "pipeline_error list"
  qp_error_capacity :: nat
  qp_dropped_errors :: u64
  qp_query :: string
  qp_generation :: generation
  qp_rows :: "result_row list"
  qp_visible_generation :: "generation option"
  qp_presented_pending :: "bool option"
  qp_presentation_dirty :: bool
  qp_icons :: bool
  qp_heap :: "concurrency_budget list"

text \<open>
  \<open>new\<close> takes the heap of budgets that exist already: providers create some before they
  register their plugins.
\<close>

definition pipeline_new :: "pipeline_config \<Rightarrow> concurrency_budget list \<Rightarrow> query_pipeline" where
  "pipeline_new config heap =
     (let limits = \<lparr>ql_capacity_batches = max (ql_capacity_batches (pc_intake_limits config)) 1,
                    ql_capacity_items = max (ql_capacity_items (pc_intake_limits config)) 1\<rparr>;
          b = pc_drain_budget config;
          budget = \<lparr>dg_batches_per_plugin = max (dg_batches_per_plugin b) 1,
                    dg_items_per_plugin = max (dg_items_per_plugin b) 1,
                    dg_total_batches = max (dg_total_batches b) 1\<rparr>
      in \<lparr>qp_scheduler = scheduler_new (pc_scheduler config),
          qp_intake = intake_new limits,
          qp_aggregator = ag_new (pc_limits config),
          qp_supervisor = supervisor_new \<lparr>cc_failure_threshold = 0, cc_cooldown = 0\<rparr>,
          qp_default_intake_policy = pc_default_intake_policy config,
          qp_drain_budget = budget,
          qp_last_intake_drain_at = None,
          qp_result_trace_capacity = max (result_queue_capacity (pc_scheduler config)) 1,
          qp_max_items_per_batch = max_items_per_batch (pc_limits config),
          qp_max_items_per_plugin_per_query = max_items_per_plugin_per_query (pc_limits config),
          qp_max_items_per_query = max_items_per_query (pc_limits config),
          qp_unranked_batches = 0,
          qp_registered = [], qp_health_sync = [], qp_profile_overrides = [], qp_budgets = [],
          qp_admitted = [], qp_active_requests = [], qp_unresolved_cancellations = [],
          qp_pending_cancellations = [], qp_pending_completions = [], qp_pending_errors = [],
          qp_error_capacity = ql_capacity_batches limits,
          qp_dropped_errors = 0,
          qp_query = [], qp_generation = generation_zero,
          qp_rows = [], qp_visible_generation = None, qp_presented_pending = None,
          qp_presentation_dirty = False, qp_icons = False, qp_heap = heap\<rparr>)"

text \<open>\<open>expect\<close> on a supervisor operation.\<close>

definition expect :: "'s \<times> ('e + 'a) \<Rightarrow> 's option" where
  "expect r = (case snd r of Inl _ \<Rightarrow> None | Inr _ \<Rightarrow> Some (fst r))"

section \<open>Policies and budgets\<close>

fun profile_policy :: "scheduling_profile \<Rightarrow> plugin_policy" where
  "profile_policy LegacyStrict = legacy_strict"
| "profile_policy LegacyOptimized = legacy_optimized"
| "profile_policy Modern = modern"

definition override_scheduling_profile :: "plugin_id \<Rightarrow> scheduling_profile \<Rightarrow> query_pipeline \<Rightarrow> query_pipeline" where
  "override_scheduling_profile plugin prof s =
     s\<lparr>qp_profile_overrides := AList.update plugin prof (qp_profile_overrides s)\<rparr>"

definition effective_policy :: "query_pipeline \<Rightarrow> plugin_id \<Rightarrow> plugin_policy \<Rightarrow> plugin_policy" where
  "effective_policy s plugin policy =
     (case map_of (qp_profile_overrides s) plugin of
        None \<Rightarrow> policy
      | Some prof \<Rightarrow>
          if prof = profile policy then policy
          else (profile_policy prof)\<lparr>activation := activation policy\<rparr>)"

definition set_scheduling_profile ::
  "plugin_id \<Rightarrow> scheduling_profile \<Rightarrow> query_pipeline \<Rightarrow> query_pipeline \<times> bool" where
  "set_scheduling_profile plugin prof s =
     (case sched_plugin_policy (qp_scheduler s) plugin of
        None \<Rightarrow> (s, False)
      | Some current \<Rightarrow>
          (let policy = (profile_policy prof)\<lparr>activation := activation current\<rparr> in
           (s\<lparr>qp_scheduler := set_policy plugin policy 0 (qp_scheduler s),
              qp_profile_overrides := AList.update plugin prof (qp_profile_overrides s)\<rparr>, True)))"

definition u32_of_size :: "nat \<Rightarrow> u32" where
  "u32_of_size n = (if n < 2 ^ 32 then of_nat n else - 1)"

lemma u32_of_size_code [code]: "u32_of_size n = (if int n < 4294967296 then of_nat n else - 1)"
  by (auto simp: u32_of_size_def)

definition resolved_budget_for_policy :: "plugin_policy \<Rightarrow> concurrency_section \<Rightarrow> concurrency_budget" where
  "resolved_budget_for_policy policy concurrency =
     (let scheduler_limit = u32_of_size (max_concurrent_requests policy) in
      budget_from_section (concurrency\<lparr>cs_max_suggestion_requests :=
        Some (case cs_max_suggestion_requests concurrency of
                Some declared \<Rightarrow> min declared scheduler_limit
              | None \<Rightarrow> scheduler_limit)\<rparr>))"

text \<open>\<open>shared_budget_from_section\<close>: a new cell, and its handle.\<close>

definition share_budget :: "concurrency_budget \<Rightarrow> query_pipeline \<Rightarrow> query_pipeline \<times> budget_handle" where
  "share_budget b s = (s\<lparr>qp_heap := qp_heap s @ [b]\<rparr>, length (qp_heap s))"

section \<open>Registration\<close>

definition register_plugin_with_budget ::
  "plugin_id \<Rightarrow> plugin_policy \<Rightarrow> intake_policy \<Rightarrow> budget_handle \<Rightarrow> query_pipeline
   \<Rightarrow> (query_pipeline \<times> (pipeline_error + unit)) option" where
  "register_plugin_with_budget plugin policy intake_pol budget s =
     (if map_of (qp_health_sync s) plugin \<noteq> None then Some (s, Inl (PlAlreadyRegistered plugin))
      else case find (\<lambda>(owner, existing). existing = budget) (qp_budgets s) of
        Some (owner, _) \<Rightarrow> Some (s, Inl (PlBudgetAlreadyOwned plugin owner))
      | None \<Rightarrow> do {
          let policy = effective_policy s plugin policy;
          supervisor \<leftarrow> expect (supervisor_register plugin (qp_supervisor s));
          Some (s\<lparr>qp_supervisor := supervisor,
                  qp_scheduler := sched_register_plugin plugin policy (qp_scheduler s),
                  qp_intake := intake_register plugin intake_pol (qp_intake s),
                  qp_health_sync := AList.update plugin default_health_sync (qp_health_sync s),
                  qp_budgets := AList.update plugin budget (qp_budgets s),
                  qp_registered := qp_registered s @ [plugin]\<rparr>, Inr ())
        })"

definition register_plugin_with_concurrency ::
  "plugin_id \<Rightarrow> plugin_policy \<Rightarrow> intake_policy \<Rightarrow> concurrency_section \<Rightarrow> query_pipeline
   \<Rightarrow> (query_pipeline \<times> (pipeline_error + unit)) option" where
  "register_plugin_with_concurrency plugin policy intake_pol concurrency s =
     (if map_of (qp_health_sync s) plugin \<noteq> None then Some (s, Inl (PlAlreadyRegistered plugin))
      else
        let policy = effective_policy s plugin policy;
            (s, budget) = share_budget (resolved_budget_for_policy policy concurrency) s
        in register_plugin_with_budget plugin policy intake_pol budget s)"

definition register_plugin_with_intake ::
  "plugin_id \<Rightarrow> plugin_policy \<Rightarrow> intake_policy \<Rightarrow> query_pipeline \<Rightarrow> (query_pipeline \<times> (pipeline_error + unit)) option" where
  "register_plugin_with_intake plugin policy intake_pol s =
     register_plugin_with_concurrency plugin policy intake_pol default_concurrency_section s"

definition register_plugin ::
  "plugin_id \<Rightarrow> plugin_policy \<Rightarrow> query_pipeline \<Rightarrow> (query_pipeline \<times> (pipeline_error + unit)) option" where
  "register_plugin plugin policy s = register_plugin_with_intake plugin policy (qp_default_intake_policy s) s"

definition register_plugin_with_budget_default_intake ::
  "plugin_id \<Rightarrow> plugin_policy \<Rightarrow> budget_handle \<Rightarrow> query_pipeline \<Rightarrow> (query_pipeline \<times> (pipeline_error + unit)) option" where
  "register_plugin_with_budget_default_intake plugin policy budget s =
     register_plugin_with_budget plugin policy (qp_default_intake_policy s) budget s"

text \<open>Every runtime of the manifest has a host.\<close>

fun ensure_supported_runtime :: "plugin_id \<Rightarrow> runtime \<Rightarrow> pipeline_error + unit" where
  "ensure_supported_runtime plugin RtLegacyPython = Inr ()"
| "ensure_supported_runtime plugin RtPython = Inr ()"
| "ensure_supported_runtime plugin RtNative = Inr ()"
| "ensure_supported_runtime plugin RtBuiltin = Inr ()"
| "ensure_supported_runtime plugin RtWasm = Inr ()"
| "ensure_supported_runtime plugin RtCAbi = Inr ()"

definition register_namespaced_manifest_with_budget ::
  "regex_builder \<Rightarrow> plugin_id \<Rightarrow> manifest \<Rightarrow> budget_handle \<Rightarrow> query_pipeline
   \<Rightarrow> (query_pipeline \<times> (pipeline_error + unit)) option" where
  "register_namespaced_manifest_with_budget regex_build plugin mf budget s =
     (if map_of (qp_health_sync s) plugin \<noteq> None then Some (s, Inl (PlAlreadyRegistered plugin))
      else case ensure_supported_runtime plugin (pn_runtime (mf_plugin mf)) of
        Inl e \<Rightarrow> Some (s, Inl e)
      | Inr _ \<Rightarrow> do {
          declared \<leftarrow> plugin_policy_from_manifest regex_build mf;
          let policy = effective_policy s plugin declared;
          (s, r) \<leftarrow> register_plugin_with_budget plugin policy (qp_default_intake_policy s) budget s;
          Some (case r of
            Inl e \<Rightarrow> (s, Inl e)
          | Inr _ \<Rightarrow>
              (s\<lparr>qp_aggregator := set_plugin_limits plugin (pf_maximum_results_per_query (mf_performance mf))
                   (pf_maximum_results_per_batch (mf_performance mf)) (qp_aggregator s)\<rparr>, Inr ()))
        })"

definition register_namespaced_manifest ::
  "regex_builder \<Rightarrow> plugin_id \<Rightarrow> manifest \<Rightarrow> query_pipeline
   \<Rightarrow> (query_pipeline \<times> (pipeline_error + budget_handle)) option" where
  "register_namespaced_manifest regex_build plugin mf s =
     (if map_of (qp_health_sync s) plugin \<noteq> None then Some (s, Inl (PlAlreadyRegistered plugin))
      else case ensure_supported_runtime plugin (pn_runtime (mf_plugin mf)) of
        Inl e \<Rightarrow> Some (s, Inl e)
      | Inr _ \<Rightarrow> do {
          declared \<leftarrow> plugin_policy_from_manifest regex_build mf;
          let policy = effective_policy s plugin declared;
          let (s, budget) = share_budget (resolved_budget_for_policy policy (mf_concurrency mf)) s;
          (s, r) \<leftarrow> register_plugin_with_budget plugin policy (qp_default_intake_policy s) budget s;
          Some (case r of
            Inl e \<Rightarrow> (s, Inl e)
          | Inr _ \<Rightarrow>
              (s\<lparr>qp_aggregator := set_plugin_limits plugin (pf_maximum_results_per_query (mf_performance mf))
                   (pf_maximum_results_per_batch (mf_performance mf)) (qp_aggregator s)\<rparr>, Inr budget))
        })"

definition register_manifest ::
  "regex_builder \<Rightarrow> manifest \<Rightarrow> query_pipeline \<Rightarrow> (query_pipeline \<times> (pipeline_error + plugin_id)) option" where
  "register_manifest regex_build mf s = do {
     let plugin = pn_id (mf_plugin mf);
     (s, r) \<leftarrow> register_namespaced_manifest regex_build plugin mf s;
     Some (s, case r of Inl e \<Rightarrow> Inl e | Inr _ \<Rightarrow> Inr plugin)
   }"

definition register_manifest_with_budget ::
  "regex_builder \<Rightarrow> manifest \<Rightarrow> budget_handle \<Rightarrow> query_pipeline \<Rightarrow> (query_pipeline \<times> (pipeline_error + plugin_id)) option" where
  "register_manifest_with_budget regex_build mf budget s = do {
     let plugin = pn_id (mf_plugin mf);
     (s, r) \<leftarrow> register_namespaced_manifest_with_budget regex_build plugin mf budget s;
     Some (s, case r of Inl e \<Rightarrow> Inl e | Inr _ \<Rightarrow> Inr plugin)
   }"
section \<open>Slots\<close>

text \<open>Dropping a guard, and the two edges of the admitted-work map.\<close>

definition drop_guard :: "owned_guard \<Rightarrow> query_pipeline \<Rightarrow> query_pipeline" where
  "drop_guard guard s =
     (case guard of (h, kind) \<Rightarrow>
        if h < length (qp_heap s) then s\<lparr>qp_heap := (qp_heap s)[h := release kind (qp_heap s ! h)]\<rparr> else s)"

definition admitted_remove :: "request_id \<Rightarrow> query_pipeline \<Rightarrow> query_pipeline" where
  "admitted_remove key s =
     (case map_of (qp_admitted s) key of
        None \<Rightarrow> s
      | Some guard \<Rightarrow> drop_guard guard (s\<lparr>qp_admitted := AList.delete key (qp_admitted s)\<rparr>))"

definition admitted_insert :: "request_id \<Rightarrow> owned_guard \<Rightarrow> query_pipeline \<Rightarrow> query_pipeline" where
  "admitted_insert key guard s =
     (let old = map_of (qp_admitted s) key;
          s = s\<lparr>qp_admitted := AList.update key guard (qp_admitted s)\<rparr>
      in case old of None \<Rightarrow> s | Some g \<Rightarrow> drop_guard g s)"

definition try_acquire_owned :: "budget_handle \<Rightarrow> budget_kind \<Rightarrow> query_pipeline \<Rightarrow> query_pipeline \<times> owned_guard option" where
  "try_acquire_owned h kind s =
     (let (b, granted) = admit kind (qp_heap s ! h)
      in (s\<lparr>qp_heap := (qp_heap s)[h := b]\<rparr>, if granted then Some (h, kind) else None))"

section \<open>Health\<close>

fun reconcile_kinds ::
  "concurrency_refusals \<Rightarrow> concurrency_refusals \<Rightarrow> plugin_id \<Rightarrow> budget_kind list \<Rightarrow> memory_supervisor
   \<Rightarrow> memory_supervisor option" where
  "reconcile_kinds observed synced plugin [] sv = Some sv"
| "reconcile_kinds observed synced plugin (kind # kinds) sv = do {
     let delta = sat_sub (refusals_of observed kind) (refusals_of synced kind);
     sv \<leftarrow> (if delta \<noteq> 0 then expect (record_concurrency_refusal plugin kind delta sv) else Some sv);
     reconcile_kinds observed synced plugin kinds sv
   }"

definition reconcile_refusals ::
  "concurrency_budget option \<Rightarrow> plugin_id \<Rightarrow> memory_supervisor \<Rightarrow> concurrency_refusals
   \<Rightarrow> (memory_supervisor \<times> concurrency_refusals) option" where
  "reconcile_refusals budget plugin sv synced =
     (case budget of
        None \<Rightarrow> Some (sv, synced)
      | Some b \<Rightarrow> do {
          let observed = refusals_snapshot b;
          sv \<leftarrow> reconcile_kinds observed synced plugin budget_kinds sv;
          Some (sv, observed)
        })"

definition plugin_budget :: "query_pipeline \<Rightarrow> plugin_id \<Rightarrow> concurrency_budget option" where
  "plugin_budget s plugin = map_option (\<lambda>h. qp_heap s ! h) (map_of (qp_budgets s) plugin)"

text \<open>One round of the loop of \<open>sync_health\<close>, and the loop.\<close>

definition sync_plugin :: "plugin_id \<Rightarrow> query_pipeline \<Rightarrow> query_pipeline option" where
  "sync_plugin plugin s =
     (case plugin_diagnostics_snapshot (qp_scheduler s) plugin of
        None \<Rightarrow> Some s
      | Some d \<Rightarrow> do {
          synced \<leftarrow> map_of (qp_health_sync s) plugin;
          let depth = qd_batches (plugin_depth (qp_intake s) plugin);
          sv \<leftarrow> expect (record_queue_depth plugin (u32_of_size depth) (qp_supervisor s));
          let stale_delta = sat_sub (pd_rejected_stale_results d) (hs_stale_results synced);
          sv \<leftarrow> (if stale_delta \<noteq> 0 then expect (record_stale_result_rejected plugin stale_delta sv) else Some sv);
          let synced = (if stale_delta \<noteq> 0 then synced\<lparr>hs_stale_results := pd_rejected_stale_results d\<rparr> else synced);
          let obsolete_delta = sat_sub (pd_dropped_obsolete_requests d) (hs_obsolete_requests synced);
          sv \<leftarrow> (if obsolete_delta \<noteq> 0 then expect (record_obsolete_request_dropped plugin obsolete_delta sv) else Some sv);
          let synced = (if obsolete_delta \<noteq> 0 then synced\<lparr>hs_obsolete_requests := pd_dropped_obsolete_requests d\<rparr> else synced);
          (sv, refusals) \<leftarrow> reconcile_refusals (plugin_budget s plugin) plugin sv (hs_refusals synced);
          Some (s\<lparr>qp_supervisor := sv,
                  qp_health_sync := AList.update plugin (synced\<lparr>hs_refusals := refusals\<rparr>) (qp_health_sync s)\<rparr>)
        })"

fun sync_plugins :: "plugin_id list \<Rightarrow> query_pipeline \<Rightarrow> query_pipeline option" where
  "sync_plugins [] s = Some s"
| "sync_plugins (p # ps) s = do { s \<leftarrow> sync_plugin p s; sync_plugins ps s }"

definition sync_health :: "query_pipeline \<Rightarrow> query_pipeline option" where
  "sync_health s = sync_plugins (qp_registered s) s"

definition sync_concurrency_refusals :: "plugin_id \<Rightarrow> query_pipeline \<Rightarrow> query_pipeline option" where
  "sync_concurrency_refusals plugin s =
     (case map_of (qp_health_sync s) plugin of
        None \<Rightarrow> Some s
      | Some synced \<Rightarrow> do {
          (sv, refusals) \<leftarrow> reconcile_refusals (plugin_budget s plugin) plugin (qp_supervisor s) (hs_refusals synced);
          Some (s\<lparr>qp_supervisor := sv,
                  qp_health_sync := AList.update plugin (synced\<lparr>hs_refusals := refusals\<rparr>) (qp_health_sync s)\<rparr>)
        })"

definition pipeline_health :: "plugin_id \<Rightarrow> query_pipeline \<Rightarrow> (query_pipeline \<times> plugin_health) option" where
  "pipeline_health plugin s = do {
     s \<leftarrow> sync_concurrency_refusals plugin s;
     Some (s, supervisor_health (qp_supervisor s) plugin)
   }"

fun health_reports :: "plugin_id list \<Rightarrow> query_pipeline \<Rightarrow> (query_pipeline \<times> (plugin_id \<times> plugin_health) list) option" where
  "health_reports [] s = Some (s, [])"
| "health_reports (p # ps) s = do {
     (s, health) \<leftarrow> pipeline_health p s;
     (s, rest) \<leftarrow> health_reports ps s;
     Some (s, (p, health) # rest)
   }"

definition plugin_health_report :: "query_pipeline \<Rightarrow> (query_pipeline \<times> (plugin_id \<times> plugin_health) list) option" where
  "plugin_health_report s = health_reports (qp_registered s) s"

section \<open>Completions and cancellations\<close>

text \<open>Removing a key from the unresolved cancellations: the state, and whether it was there.\<close>

definition unresolved_remove :: "request_id \<Rightarrow> query_pipeline \<Rightarrow> query_pipeline \<times> bool" where
  "unresolved_remove key s =
     (s\<lparr>qp_unresolved_cancellations := removeAll key (qp_unresolved_cancellations s)\<rparr>,
      key \<in> set (qp_unresolved_cancellations s))"

definition note_cancellation :: "plugin_id \<Rightarrow> bool \<Rightarrow> query_pipeline \<Rightarrow> query_pipeline option" where
  "note_cancellation plugin honoured s = do {
     sv \<leftarrow> expect (record_cancellation plugin honoured 1 (qp_supervisor s));
     Some (s\<lparr>qp_supervisor := sv\<rparr>)
   }"

definition finish_completion ::
  "plugin_id \<Rightarrow> generation \<Rightarrow> millis \<Rightarrow> query_pipeline \<Rightarrow> (query_pipeline \<times> completion_outcome) option" where
  "finish_completion plugin g now s = do {
     let (sched, outcome) = sched_complete plugin g now (qp_scheduler s);
     let s = s\<lparr>qp_scheduler := sched, qp_active_requests := removeAll (plugin, g) (qp_active_requests s)\<rparr>;
     let s = admitted_remove (plugin, g) s;
     s \<leftarrow> (if outcome = CompletionStale
           then let (s, was) = unresolved_remove (plugin, g) s
                in if was then note_cancellation plugin True s else Some s
           else Some s);
     s \<leftarrow> sync_health s;
     Some (s, outcome)
   }"

definition completion_ready :: "query_pipeline \<Rightarrow> merged_batch list \<Rightarrow> request_id \<Rightarrow> bool" where
  "completion_ready s merged key =
     (snd key \<noteq> qp_generation s
      \<or> list_ex (\<lambda>m. mb_plugin m = fst key \<and> mb_generation m = snd key \<and> mb_state m \<noteq> BatchPartial) merged)"

fun finish_all :: "request_id list \<Rightarrow> query_pipeline \<Rightarrow> query_pipeline option" where
  "finish_all [] s = Some s"
| "finish_all ((plugin, g) # keys) s = do {
     now \<leftarrow> map_of (qp_pending_completions s) (plugin, g);
     (s, _) \<leftarrow> finish_completion plugin g now
                (s\<lparr>qp_pending_completions := AList.delete (plugin, g) (qp_pending_completions s)\<rparr>);
     finish_all keys s
   }"

definition flush_ready_completions :: "merged_batch list \<Rightarrow> query_pipeline \<Rightarrow> query_pipeline option" where
  "flush_ready_completions merged s =
     finish_all (filter (completion_ready s merged) (map fst (qp_pending_completions s))) s"

definition capture_cancellation :: "cancelled_request \<Rightarrow> query_pipeline \<Rightarrow> query_pipeline" where
  "capture_cancellation c s =
     (let key = (cr_plugin c, cr_generation c) in
      if key \<notin> set (qp_active_requests s) then s
      else s\<lparr>qp_unresolved_cancellations := List.insert key (qp_unresolved_cancellations s),
             qp_pending_cancellations := qp_pending_cancellations s @ [c]\<rparr>)"

definition capture_cancellations :: "query_pipeline \<Rightarrow> query_pipeline" where
  "capture_cancellations s =
     (let (sched, cancelled) = drain_cancellations (qp_scheduler s)
      in fold capture_cancellation cancelled (s\<lparr>qp_scheduler := sched\<rparr>))"

definition push_error :: "pipeline_error \<Rightarrow> query_pipeline \<Rightarrow> query_pipeline" where
  "push_error e s =
     (let s = (if length (qp_pending_errors s) = qp_error_capacity s
               then s\<lparr>qp_pending_errors := tl (qp_pending_errors s),
                      qp_dropped_errors := sat_add (qp_dropped_errors s) 1\<rparr>
               else s)
      in s\<lparr>qp_pending_errors := qp_pending_errors s @ [e]\<rparr>)"

definition take_errors :: "query_pipeline \<Rightarrow> query_pipeline \<times> pipeline_error list" where
  "take_errors s = (s\<lparr>qp_pending_errors := []\<rparr>, qp_pending_errors s)"

definition classify_cancelled_response ::
  "plugin_id \<Rightarrow> generation \<Rightarrow> batch_state \<Rightarrow> query_pipeline \<Rightarrow> query_pipeline option" where
  "classify_cancelled_response plugin g state s =
     (let (s, was) = unresolved_remove (plugin, g) s
      in if was then note_cancellation plugin (state = BatchCancelled) s else Some s)"

definition has_pending_work :: "query_pipeline \<Rightarrow> bool" where
  "has_pending_work s =
     (let d = diagnostics_snapshot (qp_scheduler s) in
      sd_queued_requests d \<noteq> 0 \<or> sd_in_flight_requests d \<noteq> 0
      \<or> qd_batches (intake_depth (qp_intake s)) \<noteq> 0 \<or> next_wakeup (qp_scheduler s) \<noteq> None)"

fun batch_completion_of :: "batch_state \<Rightarrow> batch_completion" where
  "batch_completion_of BatchPartial = CompPartial"
| "batch_completion_of BatchFinal = CompFinal"
| "batch_completion_of BatchCancelled = CompCancelled"
| "batch_completion_of BatchFailed = CompFailed"

text \<open>\<open>unregister_plugin\<close>.\<close>

fun error_concerns :: "plugin_id \<Rightarrow> pipeline_error \<Rightarrow> bool" where
  "error_concerns plugin (PlAlreadyRegistered owner) = (owner = plugin)"
| "error_concerns plugin (PlQueueRejected owner g reason) = (owner = plugin)"
| "error_concerns plugin (PlAggregatorRejected owner g reason) = (owner = plugin)"
| "error_concerns plugin (PlUnsupportedRuntime owner rt) = (owner = plugin)"
| "error_concerns plugin (PlBudgetAlreadyOwned attempted owner) = (attempted = plugin \<or> owner = plugin)"

definition pipeline_unregister_plugin :: "plugin_id \<Rightarrow> query_pipeline \<Rightarrow> query_pipeline \<times> bool" where
  "pipeline_unregister_plugin plugin s =
     (if map_of (qp_health_sync s) plugin = None then (s, False)
      else
        let s = fold admitted_remove (filter (\<lambda>k. fst k = plugin) (map fst (qp_admitted s))) s
        in (s\<lparr>qp_active_requests := filter (\<lambda>k. fst k \<noteq> plugin) (qp_active_requests s),
              qp_unresolved_cancellations := filter (\<lambda>k. fst k \<noteq> plugin) (qp_unresolved_cancellations s),
              qp_pending_completions := filter (\<lambda>kv. fst (fst kv) \<noteq> plugin) (qp_pending_completions s),
              qp_pending_cancellations := filter (\<lambda>c. cr_plugin c \<noteq> plugin) (qp_pending_cancellations s),
              qp_pending_errors := filter (\<lambda>e. \<not> error_concerns plugin e) (qp_pending_errors s),
              qp_scheduler := fst (sched_unregister_plugin plugin (qp_scheduler s)),
              qp_intake := fst (intake_unregister plugin (qp_intake s)),
              qp_supervisor := fst (supervisor_unregister plugin (qp_supervisor s)),
              qp_aggregator := remove_plugin_limits plugin (qp_aggregator s),
              qp_health_sync := AList.delete plugin (qp_health_sync s),
              qp_budgets := AList.delete plugin (qp_budgets s),
              qp_registered := filter (\<lambda>r. r \<noteq> plugin) (qp_registered s)\<rparr>, True))"

section \<open>Draining the intake\<close>

text \<open>The loop over the merged batches of a drain.\<close>

definition note_merged :: "merged_batch \<Rightarrow> query_pipeline \<times> pipeline_error list \<Rightarrow> query_pipeline \<times> pipeline_error list" where
  "note_merged m se =
     (case se of (s, errors) \<Rightarrow>
       let (sched, admission) =
             record_result_batch (mb_plugin m) (mb_generation m) (mb_items m)
               (batch_completion_of (mb_state m)) (mb_admitted_at m) (qp_scheduler s);
           s = s\<lparr>qp_scheduler := sched\<rparr>
       in case admission of
            BatchAccepted \<Rightarrow>
              (s\<lparr>qp_unranked_batches := usize_sat_add (qp_unranked_batches s) 1, qp_presentation_dirty := True\<rparr>, errors)
          | StaleRejected \<Rightarrow>
              (s, errors @ [PlAggregatorRejected (mb_plugin m) (mb_generation m) RejStaleGeneration])
          | RejectedResultQueueFull \<Rightarrow>
              (s, errors @ [PlQueueRejected (mb_plugin m) (mb_generation m) QrBoundaryFull]))"

definition drain_budget_now :: "query_pipeline \<Rightarrow> drain_budget" where
  "drain_budget_now s =
     (qp_drain_budget s)\<lparr>dg_total_batches :=
        min (dg_total_batches (qp_drain_budget s)) (qp_result_trace_capacity s - qp_unranked_batches s)\<rparr>"

definition drain_intake ::
  "millis \<Rightarrow> query_pipeline \<Rightarrow> (query_pipeline \<times> drain_report \<times> pipeline_error list) option" where
  "drain_intake now s =
     (if qp_last_intake_drain_at s = Some now then Some (s, empty_report 0, [])
      else if qd_batches (intake_depth (qp_intake s)) = 0 then Some (s, empty_report 0, [])
      else do {
        (intake, aggregator, report) \<leftarrow>
          drain_into ag_accept now (drain_budget_now s) (qp_intake s) (qp_aggregator s);
        let s = s\<lparr>qp_last_intake_drain_at := Some now, qp_intake := intake, qp_aggregator := aggregator\<rparr>;
        let (s, errors) = fold note_merged (rp_merged_batches report) (s, []);
        let errors = errors @ map (\<lambda>(plugin, reason). PlAggregatorRejected plugin (qp_generation s) reason)
                                (rp_merge_rejected report);
        s \<leftarrow> flush_ready_completions (rp_merged_batches report) s;
        s \<leftarrow> sync_health s;
        Some (s, report, errors)
      })"

section \<open>The operations\<close>

definition keystroke :: "string \<Rightarrow> millis \<Rightarrow> query_pipeline \<Rightarrow> (query_pipeline \<times> generation) option" where
  "keystroke text now s = do {
     (sched, g) \<leftarrow> submit_query text now (qp_scheduler s);
     let s = s\<lparr>qp_scheduler := sched, qp_query := text, qp_generation := g, qp_unranked_batches := 0,
              qp_last_intake_drain_at := None\<rparr>;
     let s = capture_cancellations s;
     let s = s\<lparr>qp_intake := intake_begin_generation g (qp_intake s),
              qp_aggregator := ag_begin_generation g (qp_aggregator s),
              qp_rows := [], qp_visible_generation := Some g, qp_presented_pending := None,
              qp_presentation_dirty := True\<rparr>;
     (intake, aggregator, _) \<leftarrow>
       drain_into ag_accept now \<lparr>dg_batches_per_plugin = 0, dg_items_per_plugin = 0, dg_total_batches = 0\<rparr>
         (qp_intake s) (qp_aggregator s);
     let s = s\<lparr>qp_intake := intake, qp_aggregator := aggregator\<rparr>;
     s \<leftarrow> flush_ready_completions [] s;
     s \<leftarrow> sync_health s;
     Some (s, g)
   }"

text \<open>The admission of one dispatched request; the kept and the refused requests accumulate.\<close>

definition admit_dispatch ::
  "dispatched_request \<Rightarrow> query_pipeline \<times> dispatched_request list \<times> request_id list
   \<Rightarrow> query_pipeline \<times> dispatched_request list \<times> request_id list" where
  "admit_dispatch d st =
     (case st of (s, kept, refused) \<Rightarrow>
       let key = (dr_plugin d, dr_generation d) in
       case map_of (qp_budgets s) (dr_plugin d) of
         None \<Rightarrow> (s, kept @ [d], refused)
       | Some h \<Rightarrow>
           (case try_acquire_owned h BkSuggestion s of
              (s, Some guard) \<Rightarrow>
                (let s = admitted_insert key guard s
                 in (s\<lparr>qp_active_requests := List.insert key (qp_active_requests s)\<rparr>, kept @ [d], refused))
            | (s, None) \<Rightarrow> (s, kept, refused @ [key])))"

fun finish_refused :: "millis \<Rightarrow> request_id list \<Rightarrow> query_pipeline \<Rightarrow> query_pipeline option" where
  "finish_refused now [] s = Some s"
| "finish_refused now ((plugin, g) # keys) s = do {
     (s, _) \<leftarrow> finish_completion plugin g now s;
     finish_refused now keys s
   }"

definition run_tick :: "millis \<Rightarrow> query_pipeline \<Rightarrow> (query_pipeline \<times> pipeline_tick) option" where
  "run_tick now s = do {
     (s, report, errors) \<leftarrow> drain_intake now s;
     let errors = qp_pending_errors s @ errors;
     let s = s\<lparr>qp_pending_errors := []\<rparr>;
     let (sched, dispatches) = tick now (qp_scheduler s);
     let (s, kept, refused) = fold admit_dispatch dispatches (s\<lparr>qp_scheduler := sched\<rparr>, [], []);
     s \<leftarrow> finish_refused now refused s;
     let s = capture_cancellations s;
     let cancellations = qp_pending_cancellations s;
     let s = s\<lparr>qp_pending_cancellations := []\<rparr>;
     s \<leftarrow> sync_health s;
     Some (s, \<lparr>pt_dispatches = kept, pt_cancellations = cancellations, pt_drain_report = report, pt_errors = errors\<rparr>)
   }"

text \<open>A batch that came too late: counted, and its cancellation classified.\<close>

definition note_late_batch :: "result_batch \<Rightarrow> millis \<Rightarrow> query_pipeline \<Rightarrow> query_pipeline option" where
  "note_late_batch batch now s = do {
     let (sched, _) = record_result_batch (rb_plugin batch) (rb_generation batch) (length (rb_items batch))
                        (batch_completion_of (rb_state batch)) now (qp_scheduler s);
     s \<leftarrow> classify_cancelled_response (rb_plugin batch) (rb_generation batch) (rb_state batch) (s\<lparr>qp_scheduler := sched\<rparr>);
     sync_health s
   }"

definition deliver_with_priority ::
  "result_batch \<Rightarrow> batch_priority \<Rightarrow> millis \<Rightarrow> query_pipeline \<Rightarrow> (query_pipeline \<times> (pipeline_error + unit)) option" where
  "deliver_with_priority batch priority now s =
     (let plugin = rb_plugin batch; g = rb_generation batch in
      if map_of (qp_health_sync s) plugin \<noteq> None \<and> (plugin, g) \<notin> set (qp_active_requests s)
      then do {
        s \<leftarrow> note_late_batch batch now s;
        Some (s, Inl (PlQueueRejected plugin g QrStaleGeneration))
      }
      else do {
        (intake, r) \<leftarrow> intake_submit now \<lparr>ib_batch = batch, ib_priority = priority\<rparr> (qp_intake s);
        let s = s\<lparr>qp_intake := intake\<rparr>;
        case r of
          Inr _ \<Rightarrow> Some (s, Inr ())
        | Inl reason \<Rightarrow> do {
            s \<leftarrow> (if reason = QrStaleGeneration then note_late_batch batch now s else Some s);
            Some (s, Inl (PlQueueRejected plugin g reason))
          }
      })"

definition deliver :: "result_batch \<Rightarrow> millis \<Rightarrow> query_pipeline \<Rightarrow> (query_pipeline \<times> (pipeline_error + unit)) option" where
  "deliver batch now s = deliver_with_priority batch PriorityHigh now s"

definition pipeline_complete ::
  "plugin_id \<Rightarrow> generation \<Rightarrow> millis \<Rightarrow> query_pipeline \<Rightarrow> (query_pipeline \<times> completion_outcome) option" where
  "pipeline_complete plugin g now s =
     (if g = qp_generation s \<and> (plugin, g) \<in> set (qp_active_requests s)
          \<and> qd_batches (plugin_depth (qp_intake s) plugin) \<noteq> 0
      then Some (s\<lparr>qp_pending_completions := AList.update (plugin, g) now (qp_pending_completions s)\<rparr>, CompletionAccepted)
      else finish_completion plugin g now s)"

definition abort_request :: "plugin_id \<Rightarrow> generation \<Rightarrow> millis \<Rightarrow> query_pipeline \<Rightarrow> (query_pipeline \<times> bool) option" where
  "abort_request plugin g now s =
     (let key = (plugin, g);
          had_request = key \<in> set (qp_active_requests s) \<or> map_of (qp_admitted s) key \<noteq> None
            \<or> map_of (qp_pending_completions s) key \<noteq> None \<or> key \<in> set (qp_unresolved_cancellations s) in
      if \<not> had_request then Some (s, False)
      else do {
        let s = s\<lparr>qp_pending_completions := AList.delete key (qp_pending_completions s),
                 qp_pending_cancellations :=
                   filter (\<lambda>c. cr_plugin c \<noteq> plugin \<or> cr_generation c \<noteq> g) (qp_pending_cancellations s)\<rparr>;
        let (s, cancellation_pending) = unresolved_remove key s;
        (s, _) \<leftarrow> finish_completion plugin g now s;
        s \<leftarrow> (if cancellation_pending then note_cancellation plugin False s else Some s);
        Some (s, True)
      })"

section \<open>Presenting\<close>

definition argument_hint :: "argument_policy \<Rightarrow> string option" where
  "argument_hint p =
     (case p of
        ArgForbidden \<Rightarrow> None
      | ArgOptional \<Rightarrow> Some ''optional argument''
      | ArgRequired \<Rightarrow> Some ''argument required'')"

definition result_row_of :: "bool \<Rightarrow> icon_resolver \<Rightarrow> item \<Rightarrow> result_row" where
  "result_row_of icons resolve it =
     \<lparr>rr_item = it_stable_id it, rr_label = it_label it, rr_description = it_description it,
      rr_icon_reference = it_icon_reference it,
      rr_icon = (if icons then Option.bind (it_icon_reference it) (resolve (it_plugin_id it)) else None),
      rr_category = category_as_str (it_category it), rr_plugin_name = it_plugin_id it,
      rr_highlights = [], rr_argument_hint = argument_hint (it_argument_policy it), rr_status = None,
      rr_default_action = (case it_actions it of [] \<Rightarrow> None | a # _ \<Rightarrow> Some a),
      rr_alternate_actions = tl (it_actions it)\<rparr>"

definition set_plugin_icons :: "query_pipeline \<Rightarrow> query_pipeline" where
  "set_plugin_icons s = s\<lparr>qp_icons := True\<rparr>"

definition missing_icon :: "result_row \<Rightarrow> bool" where
  "missing_icon row \<longleftrightarrow> rr_icon row = None \<and> rr_icon_reference row \<noteq> None"

definition fill_icon :: "icon_resolver \<Rightarrow> result_row \<Rightarrow> result_row" where
  "fill_icon resolve row =
     (if rr_icon row \<noteq> None then row
      else case rr_icon_reference row of
             None \<Rightarrow> row
           | Some reference \<Rightarrow> row\<lparr>rr_icon := resolve (rr_plugin_name row) reference\<rparr>)"

definition fill_pending_icons :: "icon_resolver \<Rightarrow> query_pipeline \<Rightarrow> query_pipeline \<times> bool" where
  "fill_pending_icons resolve s =
     (if \<not> qp_icons s then (s, False)
      else if \<not> list_ex missing_icon (qp_rows s) then (s, False)
      else
        let rows = map (fill_icon resolve) (qp_rows s);
            changed = list_ex (\<lambda>row. rr_icon row = None \<and> rr_icon (fill_icon resolve row) \<noteq> None) (qp_rows s)
        in if changed then (s\<lparr>qp_rows := rows\<rparr>, True) else (s, False))"

definition frame_of :: "bool \<Rightarrow> query_pipeline \<Rightarrow> view_model" where
  "frame_of pending s =
     \<lparr>vm_generation = qp_generation s, vm_query = qp_query s, vm_rows = qp_rows s, vm_selected = 0,
      vm_pending_plugins = pending, vm_actions_open = False, vm_settings_open = False,
      vm_show_hints = True, vm_rounded_corners = True\<rparr>"

text \<open>The rows of a presentation: taken from the aggregator, or kept with their icons filled in.\<close>

definition refresh_rows :: "icon_resolver \<Rightarrow> query_pipeline \<Rightarrow> query_pipeline \<times> bool" where
  "refresh_rows resolve s =
     (let (aggregator, update) = take_ui_update (begin_frame (qp_aggregator s));
          s = s\<lparr>qp_aggregator := aggregator\<rparr>
      in case update of
           Some items \<Rightarrow>
             (s\<lparr>qp_rows := map (result_row_of (qp_icons s) resolve) items,
                qp_visible_generation := Some (qp_generation s)\<rparr>, True)
         | None \<Rightarrow> fill_pending_icons resolve s)"

definition present :: "icon_resolver \<Rightarrow> millis \<Rightarrow> query_pipeline \<Rightarrow> (query_pipeline \<times> view_model option) option" where
  "present resolve now s = do {
     (s, _, errors) \<leftarrow> drain_intake now s;
     let s = fold push_error errors s;
     let (s, rows_changed) = refresh_rows resolve s;
     if qp_visible_generation s \<noteq> Some (qp_generation s) then Some (s, None)
     else
       let pending = has_pending_work s in
       if \<not> rows_changed \<and> \<not> qp_presentation_dirty s \<and> qp_presented_pending s = Some pending then Some (s, None)
       else
         let rows = length (qp_rows s);
             sched = record_presentation (qp_generation s) rows now (record_ranking (qp_generation s) rows now (qp_scheduler s));
             s = s\<lparr>qp_presented_pending := Some pending, qp_scheduler := sched, qp_unranked_batches := 0,
                   qp_presentation_dirty := False\<rparr>
         in Some (s, Some (frame_of pending s))
   }"

fun present_rounds ::
  "nat \<Rightarrow> icon_resolver \<Rightarrow> millis \<Rightarrow> query_pipeline \<times> view_model option \<Rightarrow> (query_pipeline \<times> view_model option) option" where
  "present_rounds 0 resolve now sf = Some sf"
| "present_rounds (Suc rounds) resolve now (s, frame) =
     (let before = qd_batches (intake_depth (qp_intake s)) in
      if before = 0 then Some (s, frame)
      else do {
        (s, next_frame) \<leftarrow> present resolve now (s\<lparr>qp_last_intake_drain_at := None\<rparr>);
        let frame = (case next_frame of Some vm \<Rightarrow> Some vm | None \<Rightarrow> frame);
        if before \<le> qd_batches (intake_depth (qp_intake s)) then Some (s, frame)
        else present_rounds rounds resolve now (s, frame)
      })"

definition present_drained :: "icon_resolver \<Rightarrow> millis \<Rightarrow> query_pipeline \<Rightarrow> (query_pipeline \<times> view_model option) option" where
  "present_drained resolve now s = do {
     (s, frame) \<leftarrow> present resolve now s;
     present_rounds (usize_sat_add (qd_batches (intake_depth (qp_intake s))) 2) resolve now (s, frame)
   }"

end
