(* ===== verification/Scheduler_Flight.thy ===== *)
theory Scheduler_Flight
  imports Scheduler_Liveness
begin

text \<open>
  What the query pipeline relies on the scheduler for: which operations register a plugin
  and which change the requests in flight, and how the depth of the result queue moves.
\<close>

section \<open>Plugins and flights\<close>

definition flights :: "query_scheduler \<Rightarrow> plugin_id \<Rightarrow> generation list" where
  "flights s p = (case view s p of None \<Rightarrow> [] | Some st \<Rightarrow> map if_generation (ps_in_flight st))"

definition sched_members :: "query_scheduler \<Rightarrow> plugin_id set" where
  "sched_members s = {p. view s p \<noteq> None}"

text \<open>A steady change keeps the plugins and the generations each has in flight.\<close>

definition steady :: "query_scheduler \<Rightarrow> query_scheduler \<Rightarrow> bool" where
  "steady s s' \<longleftrightarrow> flights s' = flights s \<and> sched_members s' = sched_members s"

lemma steady_refl [simp, intro]: "steady s s"
  by (simp add: steady_def)

lemma steady_trans [trans]: "steady s t \<Longrightarrow> steady t u \<Longrightarrow> steady s u"
  by (simp add: steady_def)

lemma steady_view: "(\<And>p. view s' p = view s p) \<Longrightarrow> steady s s'"
  by (simp add: steady_def flights_def sched_members_def fun_eq_iff)

lemma steady_same: "qs_plugins s' = qs_plugins s \<Longrightarrow> steady s s'"
  by (rule steady_view) (simp add: view_def)

lemma steady_quiet: "quiet s s' \<Longrightarrow> steady s s'"
  by (rule steady_view) (rule view_quiet)

lemma steady_map_view:
  assumes "\<And>p. view s' p = map_option f (view s p)" and "\<And>st. map if_generation (ps_in_flight (f st)) = map if_generation (ps_in_flight st)"
  shows "steady s s'"
  using assms by (auto simp: steady_def flights_def sched_members_def fun_eq_iff split: option.splits)

lemma steady_modify:
  assumes "\<And>st. map_of (qs_plugins s) p = Some st \<Longrightarrow>
      map if_generation (ps_in_flight (f st)) = map if_generation (ps_in_flight st)"
  shows "steady s (modify_plugin p f s)"
  using assms by (auto simp: steady_def flights_def sched_members_def fun_eq_iff view_modify) (auto simp: view_def split: option.splits if_splits)

lemma steady_observe: "steady s (fst (observe_now s now))"
  by (rule steady_same) simp

lemma flights_distinct: "sched_inv s \<Longrightarrow> distinct (flights s p)"
  by (auto simp: flights_def view_def sched_inv_def plugin_current_def generations_of_def split: option.splits
      dest!: all_plugins_lookup)

lemma flights_current: "sched_inv s \<Longrightarrow> g \<in> set (flights s p) \<Longrightarrow> g \<le> sched_current_generation s"
  by (force simp: flights_def view_def sched_inv_def plugin_current_def generations_of_def list_all_iff
      split: option.splits dest!: all_plugins_lookup)

lemma members_lookup: "p \<in> sched_members s \<longleftrightarrow> map_of (qs_plugins s) p \<noteq> None"
  by (simp add: sched_members_def view_def)

lemma flights_member: "flights s p \<noteq> [] \<Longrightarrow> p \<in> sched_members s"
  by (cases "view s p") (simp_all add: flights_def sched_members_def)

section \<open>Each operation\<close>

lemma steady_invalidate: "steady s (fst (invalidate_plugin p reason now incl s))"
  by (cases "map_of (qs_plugins s) p")
    (auto simp: invalidate_plugin_def Let_def comp_def intro!: steady_trans [OF steady_modify steady_quiet [OF quiet_emit_cancellations]])

lemma steady_set_policy: "steady s (set_policy p policy now s)"
  unfolding set_policy_def Let_def case_prod_beta
  by (cases "map_of (qs_plugins s) p")
    (auto simp: steady_observe intro!: steady_trans [OF steady_trans [OF steady_observe steady_invalidate] steady_modify])

lemma steady_admit: "steady s (admit_request p g query now req st s)"
proof -
  have "steady s (push_trace e (note_evicted p now ev (note_superseded p now su (modify_plugin p (\<lambda>st. st\<lparr>ps_queue := q\<rparr>) s))))"
    for e ev su q
    by (rule steady_trans [OF steady_modify steady_quiet
          [OF quiet_trans [OF quiet_trans [OF quiet_note_superseded quiet_note_evicted] quiet_push_trace]]]) simp
  moreover have "steady s (drop_request p g now policy (count_diagnostic get upd k s))" for policy get upd k
    by (rule steady_quiet [OF quiet_trans [OF quiet_count_diagnostic quiet_drop_request]])
  ultimately show ?thesis by (simp add: admit_request_def Let_def case_prod_beta)
qed

lemma steady_query_cancelled: "steady s (query_cancelled normalized now p st s)"
  unfolding query_cancelled_def Let_def
  by (rule steady_trans [OF steady_modify steady_quiet [OF quiet_emit_cancellations]])
    (auto simp: cancel_for_query_def Let_def comp_def)

lemma prepare_request_in_flight: "ps_in_flight (fst (prepare_request g now st)) = ps_in_flight st"
  by (auto simp: prepare_request_def Let_def split: option.splits)

lemma steady_process:
  assumes "process_query_for_plugin g query normalized now p s = Some s'"
  shows "steady s s'"
proof (cases "map_of (qs_plugins s) p")
  case None
  with assms show ?thesis by (simp add: process_query_for_plugin_def)
next
  case (Some st)
  let ?c = "query_cancelled normalized now p st s"
  have gated: "steady s (push_trace e ?c)" for e
    by (rule steady_trans [OF steady_query_cancelled steady_quiet [OF quiet_push_trace]])
  have prep: "steady s (modify_plugin p (\<lambda>_. fst (prepare_request g now st2)) ?c)"
    if "map_of (qs_plugins ?c) p = Some st2" for st2
    using that by (intro steady_trans [OF steady_query_cancelled steady_modify]) (auto simp: prepare_request_in_flight)
  have "steady s (admit_request p g query now req st3 (modify_plugin p (\<lambda>_. fst (prepare_request g now st2)) ?c))"
    if "map_of (qs_plugins ?c) p = Some st2" for st2 st3 req
    by (rule steady_trans [OF prep [OF that] steady_admit])
  with assms gated prep show ?thesis
    unfolding process_query_eq [OF Some] by (auto split: option.splits)
qed

lemma steady_processes:
  "process_query_for_plugins g query normalized now ps s = Some s' \<Longrightarrow> steady s s'"
  by (induction ps arbitrary: s) (auto split: option.splits dest!: steady_process intro: steady_trans)

lemma steady_reclaim: "shape_ok s \<Longrightarrow> steady s (reclaim_obsolete_queued g now incl s)"
  by (rule steady_map_view [OF view_reclaim]) (auto simp: reclaimed_def)

lemma steady_submit:
  assumes inv: "sched_inv s" and sub: "submit_query query now s = Some (s', g)"
  shows "steady s s'"
proof -
  from sub obtain tr where adv: "advance (qs_generations s) = Some (g, tr)"
    by (auto simp: submit_query_def Let_def case_prod_beta split: option.splits if_splits)
  let ?t = "snd (observe_now s now)"
  define s1 where "s1 = push_trace (TrKeystroke ?t g (length (to_lowercase (trim query))))
    ((fst (observe_now s now))\<lparr>qs_generations := tr, qs_result_queue_depth := 0\<rparr>)"
  have s1: "steady s s1" by (rule steady_same) (simp add: s1_def)
  have "shape_ok ((fst (observe_now s now))\<lparr>qs_generations := tr, qs_result_queue_depth := 0\<rparr>)"
    using inv by (simp add: sched_inv_def shape_ok_def queue_total_def logs_ok_defs)
  then have shape: "shape_ok s1" unfolding s1_def by (rule quiet_shape [OF quiet_push_trace])
  show ?thesis
  proof (cases "qs_shutdown s")
    case True
    with sub adv s1 show ?thesis by (simp add: submit_query_def Let_def case_prod_beta s1_def)
  next
    case False
    from sub False adv obtain visits where
      "process_query_for_plugins g query (to_lowercase (trim query)) ?t visits
        (reclaim_obsolete_queued g ?t False s1) = Some s'"
      by (auto simp: submit_query_def Let_def case_prod_beta s1_def)
    from steady_processes [OF this] s1 steady_reclaim [OF shape] show ?thesis
      by (blast intro: steady_trans)
  qed
qed

lemma steady_result_ops:
  "steady s (fst (record_result_batch p g k completion now s))"
  "steady s (record_ranking g k now s)"
  "steady s (record_presentation g k now s)"
  "steady s (fst (drain_cancellations s))"
proof -
  have push: "steady s (push_trace e u)" if "steady s u" for e u
    using that by (rule steady_trans) (rule steady_same, simp)
  have count: "steady s (count_plugin p get upd n (count_diagnostic get' upd' n' (fst (observe_now s now))))"
    for get upd n get' upd' n'
    by (rule steady_trans [OF steady_observe steady_quiet [OF quiet_trans [OF quiet_count_diagnostic quiet_count_plugin]]])
  have upd: "map if_generation (update_first P (record_result c) rs) = map if_generation rs" for P c rs
    by (induction rs) (auto simp: record_result_def)
  have "steady s (modify_plugin p (\<lambda>st. st\<lparr>ps_in_flight := update_first P (record_result c) (ps_in_flight st)\<rparr>)
      ((fst (observe_now s now))\<lparr>qs_result_queue_depth := n\<rparr>))" for P c n
    by (rule steady_trans [OF steady_observe steady_trans [OF steady_same steady_modify]]) (auto simp: upd)
  with count show "steady s (fst (record_result_batch p g k completion now s))"
    by (auto simp: record_result_batch_def Let_def case_prod_beta steady_observe intro!: push)
  show "steady s (record_ranking g k now s)" and "steady s (record_presentation g k now s)"
    by (rule steady_same, simp add: record_ranking_def record_presentation_def Let_def case_prod_beta)+
  show "steady s (fst (drain_cancellations s))" by (rule steady_same) (simp add: drain_cancellations_def)
qed

text \<open>Completing a request takes exactly it out of the air.\<close>

lemma remove_first_gens: "map if_generation (remove_first (\<lambda>r. if_generation r = g) rs) = remove1 g (map if_generation rs)"
  by (induction rs) auto

lemma complete_flights:
  "flights (fst (sched_complete p g now s)) k = (if k = p then remove1 g (flights s p) else flights s k)"
  "sched_members (fst (sched_complete p g now s)) = sched_members s"
proof -
  have none: "g \<notin> set (flights s p)" if "map_of (qs_plugins s) p = Some st" "find (\<lambda>r. if_generation r = g) (ps_in_flight st) = None" for st
    using that by (auto simp: flights_def view_def find_None_iff)
  have v: "view (fst (sched_complete p g now s)) k =
      (if k = p \<and> g \<in> set (flights s p) then map_option (\<lambda>st. st\<lparr>ps_in_flight := remove_first (\<lambda>r. if_generation r = g) (ps_in_flight st)\<rparr>) (view s p)
       else view s k)" for k
  proof (cases "map_of (qs_plugins s) p")
    case None
    then have "flights s p = []" by (simp add: flights_def view_def)
    with None show ?thesis by (simp add: sched_complete_def Let_def case_prod_beta view_def)
  next
    case (Some st)
    show ?thesis
    proof (cases "find (\<lambda>r. if_generation r = g) (ps_in_flight st)")
      case None
      with Some none [OF Some None] show ?thesis by (simp add: sched_complete_def Let_def case_prod_beta view_def)
    next
      case req: (Some r)
      then have "g \<in> set (flights s p)" using Some by (auto simp: flights_def view_def find_Some_iff intro: nth_mem)
      moreover have "view (push_trace e u) k = view u k" for e u by (simp add: view_def)
      moreover have "view (modify_plugin p f (fst (observe_now s now))) k = (if k = p then map_option (\<lambda>st. strip (f st)) (map_of (qs_plugins s) p) else view s k)" for f
        by (simp add: view_modify) (simp add: view_def)
      ultimately show ?thesis using Some req
        by (auto simp: sched_complete_def Let_def case_prod_beta) (simp_all add: view_def strip_def)
    qed
  qed
  show "flights (fst (sched_complete p g now s)) k = (if k = p then remove1 g (flights s p) else flights s k)"
    by (auto simp: flights_def v remove_first_gens remove1_idem split: option.splits)
  show "sched_members (fst (sched_complete p g now s)) = sched_members s"
    by (auto simp: sched_members_def v)
qed

text \<open>The outcome of a completion says what was in the air.\<close>

lemma complete_outcome:
  assumes inv: "sched_inv s"
  shows "snd (sched_complete p g now s) = CompletionUnknown \<longleftrightarrow> g \<notin> set (flights s p)"
proof (cases "map_of (qs_plugins s) p")
  case None
  then show ?thesis by (simp add: sched_complete_def Let_def case_prod_beta flights_def view_def)
next
  case (Some st)
  then have fl: "set (flights s p) = if_generation ` set (ps_in_flight st)" by (simp add: flights_def view_def)
  show ?thesis
  proof (cases "find (\<lambda>r. if_generation r = g) (ps_in_flight st)")
    case None
    then have "g \<notin> set (flights s p)" by (auto simp: fl find_None_iff)
    with Some None show ?thesis by (simp add: sched_complete_def Let_def case_prod_beta)
  next
    case req: (Some r)
    then have "g \<in> set (flights s p)" by (auto simp: fl find_Some_iff intro: nth_mem)
    with Some req show ?thesis by (simp add: sched_complete_def Let_def case_prod_beta)
  qed
qed

lemma register_flights:
  assumes "p \<notin> sched_members s"
  shows "flights (sched_register_plugin p policy s) = flights s"
    and "sched_members (sched_register_plugin p policy s) = insert p (sched_members s)"
  using assms
  by (auto simp: fun_eq_iff flights_def sched_members_def sched_register_plugin_def Let_def view_def lookup_simps
      plugin_state_new_def split: option.splits)

lemma unregister_flights:
  "flights (fst (sched_unregister_plugin p s)) k = (if k = p then [] else flights s k)"
  "sched_members (fst (sched_unregister_plugin p s)) = sched_members s - {p}"
  by (auto simp: flights_def sched_members_def sched_unregister_plugin_def Let_def view_def lookup_simps
      split: option.splits)

text \<open>A tick puts exactly what it hands out into the air.\<close>

definition launches :: "query_scheduler \<Rightarrow> dispatched_request list \<Rightarrow> query_scheduler \<Rightarrow> dispatched_request list \<Rightarrow> bool" where
  "launches s out s' out' \<longleftrightarrow>
     (\<exists>new. out' = out @ new
        \<and> (\<forall>p. flights s' p = flights s p @ map dr_generation (filter (\<lambda>r. dr_plugin r = p) new))
        \<and> sched_members s' = sched_members s)"

lemma launches_refl: "launches s out s out"
  by (simp add: launches_def)

lemma launches_trans: "launches s out t mid \<Longrightarrow> launches t mid u out' \<Longrightarrow> launches s out u out'"
  unfolding launches_def by (elim exE conjE) (rule_tac x = "new @ newa" in exI, simp)

lemma launches_steady: "steady s t \<Longrightarrow> launches t out u out' \<Longrightarrow> launches s out u out'"
  by (simp add: launches_def steady_def)

lemma steady_launches: "launches s out t out' \<Longrightarrow> steady t u \<Longrightarrow> launches s out u out'"
  by (simp add: launches_def steady_def)

lemma launches_one:
  assumes "dispatch_one now p s = Some (s', r)"
  shows "launches s out s' (out @ [r])"
proof -
  from dispatch_one_Some_iff [OF assms] obtain st pending rest where
    at: "map_of (qs_plugins s) p = Some st" and q: "ps_queue st = pending # rest"
    and r: "dr_plugin r = p" "dr_generation r = pr_generation pending" by auto
  note quiet = dispatch_one_quiet [OF assms at q]
  have "flights s' k = flights s k @ map dr_generation (filter (\<lambda>r. dr_plugin r = k) [r])" for k
    using at by (auto simp: flights_def view_quiet [OF quiet] view_modify r dispatched_state_def) (simp add: view_def)
  moreover have "sched_members s' = sched_members s"
    using at by (auto simp: sched_members_def view_quiet [OF quiet] view_modify) (auto simp: view_def)
  ultimately show ?thesis unfolding launches_def by blast
qed

lemma launches_plugin:
  "dispatch_plugin n now p (s, out) = (s', out') \<Longrightarrow> launches s out s' out'"
proof (induction n arbitrary: s out)
  case (Suc n)
  show ?case
  proof (cases "length out < dispatch_budget_per_tick (qs_config s)")
    case True
    show ?thesis
    proof (cases "dispatch_one now p s")
      case None
      with Suc.prems True show ?thesis by (simp add: launches_refl)
    next
      case (Some sr)
      obtain s1 r where "sr = (s1, r)" by (cases sr)
      with Suc True Some show ?thesis by (auto intro: launches_trans [OF launches_one])
    qed
  next
    case False
    with Suc.prems show ?thesis by (simp add: launches_refl)
  qed
qed (simp add: launches_refl)

lemma launches_round:
  "dispatch_round now plugins is (s, out, served) = (s', out', served') \<Longrightarrow> launches s out s' out'"
proof (induction "is" arbitrary: s out served)
  case (Cons i "is")
  show ?case
  proof (cases "dispatch_budget_per_tick (qs_config s) \<le> length out")
    case True
    with Cons.prems show ?thesis by (simp add: launches_refl)
  next
    case False
    obtain s1 out1 where one: "dispatch_plugin (per_plugin_dispatch_budget (qs_config s)) now (plugins ! i) (s, out) = (s1, out1)"
      by (cases "dispatch_plugin (per_plugin_dispatch_budget (qs_config s)) now (plugins ! i) (s, out)")
    from Cons.prems False one have "launches s1 out1 s' out'" by (auto intro: Cons.IH)
    with launches_plugin [OF one] show ?thesis by (rule launches_trans)
  qed
qed (simp add: launches_refl)

lemma steady_tick_prepare:
  assumes "mid_inv (\<lambda>_. plugin_current (sched_current_generation s)) s"
  shows "steady s (tick_prepare now s)"
  by (rule steady_map_view [OF view_tick_prepare [OF assms]]) (simp add: matured_def reclaimed_def)

lemma tick_launches:
  assumes inv: "sched_inv s"
  shows "launches s [] (fst (tick now s)) (snd (tick now s))"
proof (cases "qs_shutdown s")
  case True
  then show ?thesis by (simp add: tick_stopped launches_def steady_observe [unfolded steady_def])
next
  case run: False
  let ?p = "tick_prepare (snd (observe_now s now)) (fst (observe_now s now))"
  have prep: "steady s ?p"
    using observe_mid [OF inv run, of now] by (intro steady_trans [OF steady_observe steady_tick_prepare]) simp
  define r where "r = dispatch_round (snd (observe_now s now)) (qs_plugin_order ?p)
    (rotation (qs_round_robin_cursor ?p mod length (qs_plugin_order ?p)) (length (qs_plugin_order ?p))) (?p, [], None)"
  have "dispatch_round (snd (observe_now s now)) (qs_plugin_order ?p)
    (rotation (qs_round_robin_cursor ?p mod length (qs_plugin_order ?p)) (length (qs_plugin_order ?p))) (?p, [], None)
    = (fst r, fst (snd r), snd (snd r))" by (simp add: r_def)
  then have round: "launches ?p [] (fst r) (fst (snd r))" by (rule launches_round)
  have "steady u (record_remaining_queue_peaks (u\<lparr>qs_round_robin_cursor := n\<rparr>))" for u n
    by (rule steady_trans [OF steady_same steady_quiet [OF quiet_record_remaining]]) simp
  then have "launches s [] (record_remaining_queue_peaks ((fst r)\<lparr>qs_round_robin_cursor := n\<rparr>)) (fst (snd r))" for n
    by (rule steady_launches [OF launches_steady [OF prep round]])
  moreover have "launches s [] (record_remaining_queue_peaks ?p) []"
    by (rule launches_steady [OF prep steady_launches [OF launches_refl steady_quiet [OF quiet_record_remaining]]])
  ultimately show ?thesis using run
    by (simp add: tick_def Let_def case_prod_beta r_def [symmetric])
qed

section \<open>The result queue\<close>

lemma depth_fold: "(\<And>x s. qs_result_queue_depth (f x s) = qs_result_queue_depth s) \<Longrightarrow>
  qs_result_queue_depth (fold f xs s) = qs_result_queue_depth s"
  by (induction xs arbitrary: s) auto

lemma depth_simps [simp]:
  "qs_result_queue_depth (emit_cancellations p reason now records s) = qs_result_queue_depth s"
  "qs_result_queue_depth (record_explicit_queue_peaks s) = qs_result_queue_depth s"
  "qs_result_queue_depth (record_remaining_queue_peaks s) = qs_result_queue_depth s"
  "qs_result_queue_depth (reclaim_obsolete_queued g now incl s) = qs_result_queue_depth s"
  "qs_result_queue_depth (tick_prepare now s) = qs_result_queue_depth s"
  "qs_result_queue_depth (fst (invalidate_plugin p reason now incl s)) = qs_result_queue_depth s"
  "qs_result_queue_depth (set_policy p policy now s) = qs_result_queue_depth s"
  "qs_result_queue_depth (sched_register_plugin p policy s) = qs_result_queue_depth s"
  "qs_result_queue_depth (fst (sched_unregister_plugin p s)) = qs_result_queue_depth s"
  "qs_result_queue_depth (fst (drain_cancellations s)) = qs_result_queue_depth s"
  "qs_result_queue_depth (fst (sched_complete p g now s)) = qs_result_queue_depth s"
proof -
  show emit: "qs_result_queue_depth (emit_cancellations p reason now records s) = qs_result_queue_depth s" for s records reason now
    unfolding emit_cancellations_def by (rule depth_fold) (simp add: case_prod_beta)
  show ex: "qs_result_queue_depth (record_explicit_queue_peaks s) = qs_result_queue_depth s" for s
    by (simp add: record_explicit_queue_peaks_def Let_def)
  show "qs_result_queue_depth (record_remaining_queue_peaks s) = qs_result_queue_depth s"
    by (simp add: record_remaining_queue_peaks_def Let_def)
  have traces: "qs_result_queue_depth (fold (\<lambda>x. push_trace (e x)) xs u) = qs_result_queue_depth u" for e :: "'z \<Rightarrow> _" and xs u
    by (rule depth_fold) simp
  have "qs_result_queue_depth (reclaim_plugin g now incl p s) = qs_result_queue_depth s" for g now incl p s
    by (simp add: reclaim_plugin_def Let_def traces split: option.splits)
  then show rec: "qs_result_queue_depth (reclaim_obsolete_queued g now incl s) = qs_result_queue_depth s" for g now incl s
    unfolding reclaim_obsolete_queued_def by (rule depth_fold)
  have "qs_result_queue_depth (fold (\<lambda>(g, reason). push_trace (TrDebounce now p g (due_decision reason))) xs u) = qs_result_queue_depth u" for p xs u
    by (rule depth_fold) (simp add: case_prod_beta)
  then have "qs_result_queue_depth (mature_plugin now p s) = qs_result_queue_depth s" for p s
    by (simp add: mature_plugin_def Let_def split: option.splits)
  then have "qs_result_queue_depth (fold (mature_plugin now) ps s) = qs_result_queue_depth s" for ps s
    by (rule depth_fold)
  then show "qs_result_queue_depth (tick_prepare now s) = qs_result_queue_depth s"
    by (simp add: tick_prepare_def Let_def ex rec)
  show inv: "qs_result_queue_depth (fst (invalidate_plugin p reason now incl s)) = qs_result_queue_depth s" for reason now incl s
    by (simp add: invalidate_plugin_def Let_def emit split: option.splits)
  show "qs_result_queue_depth (set_policy p policy now s) = qs_result_queue_depth s"
    by (simp add: set_policy_def Let_def case_prod_beta inv split: option.splits)
qed (simp_all add: sched_register_plugin_def sched_unregister_plugin_def drain_cancellations_def sched_complete_def
    Let_def case_prod_beta split: option.splits)

lemma depth_tick [simp]: "qs_result_queue_depth (fst (tick now s)) = qs_result_queue_depth s"
proof -
  have one: "qs_result_queue_depth s' = qs_result_queue_depth s" if "dispatch_one now p s = Some (s', r)" for now p s s' r
    using that by (auto simp: dispatch_one_def Let_def split: option.splits list.splits if_splits)
  have plug: "qs_result_queue_depth (fst (dispatch_plugin n now p (s, out))) = qs_result_queue_depth s" for n now p s out
    by (induction n arbitrary: s out) (auto split: option.splits dest!: one)
  have round: "qs_result_queue_depth (fst (dispatch_round now plugins is (s, out, served))) = qs_result_queue_depth s"
    for now plugins "is" s out served
  proof (induction "is" arbitrary: s out served)
    case (Cons i "is")
    then show ?case using plug by (simp add: Let_def case_prod_beta)
  qed simp
  show ?thesis by (simp add: tick_def Let_def case_prod_beta round)
qed

lemma depth_processes:
  "process_query_for_plugins g query normalized now ps s = Some s' \<Longrightarrow> qs_result_queue_depth s' = qs_result_queue_depth s"
proof (induction ps arbitrary: s)
  case (Cons p ps)
  have canc: "qs_result_queue_depth (query_cancelled normalized now p st s) = qs_result_queue_depth s" for st
    by (simp add: query_cancelled_def Let_def)
  have adm: "qs_result_queue_depth (admit_request p g query now req st u) = qs_result_queue_depth u" for req st u
    by (simp add: admit_request_def Let_def case_prod_beta drop_request_def note_evicted_def note_superseded_def split: option.splits)
  have "qs_result_queue_depth s1 = qs_result_queue_depth s" if "process_query_for_plugin g query normalized now p s = Some s1" for s1
  proof (cases "map_of (qs_plugins s) p")
    case None
    with that show ?thesis by (simp add: process_query_for_plugin_def)
  next
    case (Some st)
    with that show ?thesis unfolding process_query_eq [OF Some] by (auto simp: canc adm split: option.splits)
  qed
  with Cons show ?case by (auto split: option.splits)
qed simp

lemma depth_submit: "submit_query query now s = Some (s', g) \<Longrightarrow> qs_result_queue_depth s' = 0"
  by (auto simp: submit_query_def Let_def case_prod_beta split: option.splits if_splits dest!: depth_processes)

lemma depth_ranked [simp]:
  "qs_result_queue_depth (record_ranking g k now s) = 0" "qs_result_queue_depth (record_presentation g k now s) = 0"
  by (simp_all add: record_ranking_def record_presentation_def Let_def case_prod_beta)

lemma result_batch_depth:
  "qs_result_queue_depth (fst (record_result_batch p g k completion now s)) =
     (if snd (record_result_batch p g k completion now s) = BatchAccepted
      then usize_sat_add (qs_result_queue_depth s) 1 else qs_result_queue_depth s)"
  by (simp add: record_result_batch_def Let_def case_prod_beta)

lemma result_batch_full:
  "snd (record_result_batch p g k completion now s) = RejectedResultQueueFull \<Longrightarrow>
   result_queue_capacity (qs_config s) \<le> qs_result_queue_depth s"
  by (auto simp: record_result_batch_def Let_def case_prod_beta split: if_splits)

text \<open>A batch that is not in the air, or not current, is never accepted.\<close>

lemma result_batch_stale:
  assumes "g \<notin> set (flights s p) \<or> g \<noteq> sched_current_generation s"
  shows "snd (record_result_batch p g k completion now s) = StaleRejected"
proof (cases "g = sched_current_generation s")
  case True
  with assms have "\<not> list_ex (\<lambda>r. if_generation r = g \<and> if_cancel_reason r = None)
      (case map_of (qs_plugins s) p of None \<Rightarrow> [] | Some st \<Rightarrow> ps_in_flight st)"
    by (cases "map_of (qs_plugins s) p") (simp, force simp: flights_def view_def list_ex_iff)
  with True show ?thesis by (simp add: record_result_batch_def Let_def case_prod_beta)
next
  case False
  then show ?thesis by (simp add: record_result_batch_def Let_def case_prod_beta sched_current_generation_def)
qed

lemma result_batch_frame [simp]:
  "qs_config (fst (record_result_batch p g k completion now s)) = qs_config s"
  "qs_generations (fst (record_result_batch p g k completion now s)) = qs_generations s"
  "qs_shutdown (fst (record_result_batch p g k completion now s)) = qs_shutdown s"
  by (simp_all add: record_result_batch_def Let_def case_prod_beta)

end
