(* ===== verification/Pipeline_Inv.thy ===== *)
theory Pipeline_Inv
  imports Query_Pipeline Scheduler_Flight
begin

text \<open>
  The invariant of the composed pipeline, in parts: the registries of the components stay in
  lockstep, every suggestion slot is held by exactly one request the scheduler has in the
  air, the two generation gates agree with the newest query, the room left in the result
  queue is what the pipeline thinks it is, and the refusals in a plugin's health are the
  ones its watermark stands for.
\<close>

section \<open>Registries\<close>

text \<open>
  Each component keeps its own table of plugins. The contract the pipeline needs of it: who
  is in the table after a registration and after a removal.
\<close>

locale plugin_registry =
  fixes members :: "'s \<Rightarrow> plugin_id set"
    and enrol :: "plugin_id \<Rightarrow> 's \<Rightarrow> 's"
    and expel :: "plugin_id \<Rightarrow> 's \<Rightarrow> 's"
  assumes enrol_members: "p \<notin> members s \<Longrightarrow> members (enrol p s) = insert p (members s)"
    and expel_members: "members (expel p s) = members s - {p}"
begin

text \<open>A table in lockstep with a roster follows it through both operations.\<close>

lemma lockstep_enrol: "members s = R \<Longrightarrow> p \<notin> R \<Longrightarrow> members (enrol p s) = insert p R"
  using enrol_members by blast

lemma lockstep_expel: "members s = R \<Longrightarrow> members (expel p s) = R - {p}"
  using expel_members by blast

end

definition iq_members :: "inbound_result_queue \<Rightarrow> plugin_id set" where
  "iq_members s = dom (map_of (iq_plugins s))"

definition sv_members :: "memory_supervisor \<Rightarrow> plugin_id set" where
  "sv_members s = dom (map_of (sv_plugins s))"

interpretation sched_registry:
  plugin_registry sched_members "\<lambda>p. sched_register_plugin p policy" "\<lambda>p s. fst (sched_unregister_plugin p s)"
  by unfold_locales (simp_all add: register_flights unregister_flights)

interpretation intake_registry:
  plugin_registry iq_members "\<lambda>p. intake_register p policy" "\<lambda>p s. fst (intake_unregister p s)"
proof unfold_locales
  show "iq_members (intake_register p policy s) = insert p (iq_members s)" if "p \<notin> iq_members s" for p s
    using that by (auto simp: iq_members_def intake_register_def Let_def lookup_simps dom_def split: option.splits)
  show "iq_members (fst (intake_unregister p s)) = iq_members s - {p}" for p s
  proof (cases "map_of (iq_plugins s) p")
    case None
    then show ?thesis by (auto simp: iq_members_def intake_unregister_def)
  next
    case (Some q)
    then have "iq_plugins (fst (intake_unregister p s)) = AList.delete p (iq_plugins s)"
      by (simp add: intake_unregister_def Let_def split: option.split)
    then show ?thesis by (auto simp: iq_members_def lookup_simps split: if_splits)
  qed
qed

interpretation supervisor_registry:
  plugin_registry sv_members "\<lambda>p s. fst (supervisor_register p s)" "\<lambda>p s. fst (supervisor_unregister p s)"
  by unfold_locales
    (auto simp: sv_members_def supervisor_register_def supervisor_unregister_def lookup_simps split: if_splits)

definition registries_ok :: "query_pipeline \<Rightarrow> bool" where
  "registries_ok s \<longleftrightarrow>
     distinct (qp_registered s) \<and> distinct (map fst (qp_budgets s))
     \<and> dom (map_of (qp_health_sync s)) = set (qp_registered s)
     \<and> dom (map_of (qp_budgets s)) = set (qp_registered s)
     \<and> sched_members (qp_scheduler s) = set (qp_registered s)
     \<and> iq_members (qp_intake s) = set (qp_registered s)
     \<and> sv_members (qp_supervisor s) = set (qp_registered s)"

section \<open>Health\<close>

text \<open>
  A plugin's health counts, kind by kind, the refusals up to its watermark, and the
  watermark is not ahead of the budget.
\<close>

definition refusals_in_health :: "memory_supervisor \<Rightarrow> plugin_id \<Rightarrow> budget_kind \<Rightarrow> u64" where
  "refusals_in_health sv p kind = refusals_of (ph_concurrency_refusals (supervisor_health sv p)) kind"

definition watermark_ok :: "query_pipeline \<Rightarrow> plugin_id \<Rightarrow> bool" where
  "watermark_ok s p \<longleftrightarrow>
     (\<forall>hs b kind. map_of (qp_health_sync s) p = Some hs \<longrightarrow> plugin_budget s p = Some b \<longrightarrow>
        refusals_in_health (qp_supervisor s) p kind = refusals_of (hs_refusals hs) kind
        \<and> refusals_of (hs_refusals hs) kind \<le> budget_refusals b kind)"

lemma refusals_add_of:
  "refusals_of (refusals_add kind n r) kind' = (if kind' = kind then sat_add (refusals_of r kind) n else refusals_of r kind')"
  by (cases kind; cases kind') simp_all

lemma sat_add_0_left: "sat_add 0 a = a" for a :: "'a::len word"
  using unat_below [of a] by (simp add: sat_add_def)

lemma snapshot_of: "refusals_of (refusals_snapshot b) kind = budget_refusals b kind"
  by (cases kind) (simp_all add: refusals_snapshot_def budget_kinds_def no_refusals_def sat_add_0_left)

lemma sat_add_sub: "b \<le> a \<Longrightarrow> sat_add b (sat_sub a b) = a" for a b :: "'a::len word"
proof -
  assume "b \<le> a"
  then have "unat (sat_add b (sat_sub a b)) = unat a"
    using unat_le_max [of a] by (simp add: unat_sat_add unat_sat_sub word_le_nat_alt)
  then show ?thesis by (simp only: word_unat_eq_iff)
qed

text \<open>The health operations of the supervisor on a registered plugin.\<close>

lemma record_health_Some:
  assumes "p \<in> sv_members sv"
  obtains sv' where "expect (record_health f p sv) = Some sv'" and "sv_members sv' = sv_members sv"
    and "\<And>q. supervisor_health sv' q = (if q = p then f (supervisor_health sv p) else supervisor_health sv q)"
proof -
  from assms obtain r where "map_of (sv_plugins sv) p = Some r" by (auto simp: sv_members_def)
  then show thesis
    by (intro that [of "sv\<lparr>sv_plugins := AList.update p (r\<lparr>rc_health := f (rc_health r)\<rparr>) (sv_plugins sv)\<rparr>"])
      (auto simp: expect_def record_health_def with_record_def sv_members_def supervisor_health_def lookup_simps
        split: if_splits)
qed

lemma reconcile_kinds_Some:
  assumes "p \<in> sv_members sv" and "distinct kinds"
    and "\<And>kind. kind \<in> set kinds \<Longrightarrow>
      refusals_in_health sv p kind = refusals_of synced kind \<and> refusals_of synced kind \<le> refusals_of observed kind"
  obtains sv' where "reconcile_kinds observed synced p kinds sv = Some sv'" and "sv_members sv' = sv_members sv"
    and "\<And>q. q \<noteq> p \<Longrightarrow> supervisor_health sv' q = supervisor_health sv q"
    and "\<And>kind. refusals_in_health sv' p kind = (if kind \<in> set kinds then refusals_of observed kind else refusals_in_health sv p kind)"
proof -
  have "\<exists>sv'. reconcile_kinds observed synced p kinds sv = Some sv' \<and> sv_members sv' = sv_members sv
    \<and> (\<forall>q. q \<noteq> p \<longrightarrow> supervisor_health sv' q = supervisor_health sv q)
    \<and> (\<forall>kind. refusals_in_health sv' p kind = (if kind \<in> set kinds then refusals_of observed kind else refusals_in_health sv p kind))"
    using assms
  proof (induction kinds arbitrary: sv)
    case (Cons k kinds)
    define delta where "delta = sat_sub (refusals_of observed k) (refusals_of synced k)"
    have k: "refusals_in_health sv p k = refusals_of synced k" "refusals_of synced k \<le> refusals_of observed k"
      using Cons.prems(3) [of k] by simp_all
    obtain sv1 where sv1: "(if delta \<noteq> 0 then expect (record_concurrency_refusal p k delta sv) else Some sv) = Some sv1"
      and mem: "sv_members sv1 = sv_members sv" and other: "\<And>q. q \<noteq> p \<Longrightarrow> supervisor_health sv1 q = supervisor_health sv q"
      and ref: "\<And>kind. refusals_in_health sv1 p kind = (if kind = k then refusals_of observed k else refusals_in_health sv p kind)"
    proof (cases "delta = 0")
      case True
      then have "refusals_of observed k = refusals_of synced k"
        using sat_add_sub [OF k(2)] by (simp add: delta_def)
      with True k show thesis by (intro that [of sv]) auto
    next
      case False
      from record_health_Some [OF Cons.prems(1)] obtain sv1
        where "expect (record_concurrency_refusal p k delta sv) = Some sv1" "sv_members sv1 = sv_members sv"
          and h: "\<And>q. supervisor_health sv1 q = (if q = p then
            (supervisor_health sv p)\<lparr>ph_concurrency_refusals := refusals_add k delta (ph_concurrency_refusals (supervisor_health sv p))\<rparr>
            else supervisor_health sv q)"
        unfolding record_concurrency_refusal_def by blast
      moreover have "refusals_in_health sv1 p kind = (if kind = k then refusals_of observed k else refusals_in_health sv p kind)" for kind
        using k sat_add_sub [OF k(2)] by (auto simp: refusals_in_health_def h refusals_add_of delta_def)
      ultimately show thesis using False by (intro that [of sv1]) auto
    qed
    have "\<exists>sv'. reconcile_kinds observed synced p kinds sv1 = Some sv' \<and> sv_members sv' = sv_members sv1
      \<and> (\<forall>q. q \<noteq> p \<longrightarrow> supervisor_health sv' q = supervisor_health sv1 q)
      \<and> (\<forall>kind. refusals_in_health sv' p kind = (if kind \<in> set kinds then refusals_of observed kind else refusals_in_health sv1 p kind))"
      using Cons.prems mem ref by (intro Cons.IH) auto
    then show ?case using sv1 mem other ref Cons.prems(2) by (auto simp: delta_def [symmetric])
  qed simp
  then show thesis using that by blast
qed

lemma budget_kinds_all: "set budget_kinds = UNIV" "distinct budget_kinds"
  by (auto simp: budget_kinds_def) (metis budget_kind.exhaust)

text \<open>
  A health change touches the supervisor and the watermarks only, and keeps who is in them
  and that they agree.
\<close>

definition watermarks_ok :: "query_pipeline \<Rightarrow> bool" where
  "watermarks_ok s \<longleftrightarrow> (\<forall>p. watermark_ok s p)"

definition health_change :: "query_pipeline \<Rightarrow> query_pipeline \<Rightarrow> bool" where
  "health_change s s' \<longleftrightarrow>
     (\<exists>sv hs. s' = s\<lparr>qp_supervisor := sv, qp_health_sync := hs\<rparr>)
     \<and> sv_members (qp_supervisor s') = sv_members (qp_supervisor s)
     \<and> dom (map_of (qp_health_sync s')) = dom (map_of (qp_health_sync s))
     \<and> (watermarks_ok s \<longrightarrow> watermarks_ok s')"

text \<open>The refusals a plugin's health reports are the budget's, all of them.\<close>

definition refusals_settled :: "query_pipeline \<Rightarrow> plugin_id \<Rightarrow> bool" where
  "refusals_settled s p \<longleftrightarrow>
     (\<forall>b kind. plugin_budget s p = Some b \<longrightarrow> refusals_in_health (qp_supervisor s) p kind = budget_refusals b kind)"

lemma health_change_refl [simp]: "health_change s s"
  unfolding health_change_def
  by (intro conjI exI [of _ "qp_supervisor s"] exI [of _ "qp_health_sync s"]) simp_all

lemma health_change_trans: "health_change s t \<Longrightarrow> health_change t u \<Longrightarrow> health_change s u"
  by (auto simp: health_change_def) blast+

lemma health_change_fields:
  assumes "health_change s s'"
  obtains sv hs where "s' = s\<lparr>qp_supervisor := sv, qp_health_sync := hs\<rparr>"
    and "sv_members sv = sv_members (qp_supervisor s)" and "dom (map_of hs) = dom (map_of (qp_health_sync s))"
  using assms by (auto simp: health_change_def)

lemma health_change_registries: "health_change s s' \<Longrightarrow> registries_ok s \<Longrightarrow> registries_ok s'"
  by (erule health_change_fields) (simp add: registries_ok_def)

lemma plugin_budget_health [simp]:
  "plugin_budget (s\<lparr>qp_supervisor := sv, qp_health_sync := hs\<rparr>) p = plugin_budget s p"
  by (simp add: plugin_budget_def)

lemma health_change_budget: "health_change s s' \<Longrightarrow> plugin_budget s' p = plugin_budget s p"
  by (auto simp: health_change_def plugin_budget_def)

lemma registered_lookups:
  assumes "registries_ok s"
  shows "map_of (qp_health_sync s) p = None \<longleftrightarrow> p \<notin> set (qp_registered s)"
    and "map_of (qp_budgets s) p = None \<longleftrightarrow> p \<notin> set (qp_registered s)"
    and "map_of (qs_plugins (qp_scheduler s)) p = None \<longleftrightarrow> p \<notin> set (qp_registered s)"
    and "map_of (iq_plugins (qp_intake s)) p = None \<longleftrightarrow> p \<notin> set (qp_registered s)"
    and "p \<in> sv_members (qp_supervisor s) \<longleftrightarrow> p \<in> set (qp_registered s)"
proof -
  show "map_of (qs_plugins (qp_scheduler s)) p = None \<longleftrightarrow> p \<notin> set (qp_registered s)"
    using assms members_lookup [of p "qp_scheduler s"] by (simp add: registries_ok_def)
qed (use assms in \<open>auto simp: registries_ok_def iq_members_def simp del: map_of_eq_None_iff\<close>)

text \<open>Reconciling one plugin, whose other counters may have moved already.\<close>

lemma reconcile_change:
  assumes reg: "registries_ok s" and wm: "watermarks_ok s" and p: "p \<in> set (qp_registered s)"
    and mem: "sv_members sv = sv_members (qp_supervisor s)"
    and h: "\<And>q. q \<noteq> p \<Longrightarrow> supervisor_health sv q = supervisor_health (qp_supervisor s) q"
    and r: "ph_concurrency_refusals (supervisor_health sv p) = ph_concurrency_refusals (supervisor_health (qp_supervisor s) p)"
    and hs: "map_of (qp_health_sync s) p = Some hs0" "hs_refusals hs = hs_refusals hs0"
  obtains sv' refusals where "reconcile_refusals (plugin_budget s p) p sv (hs_refusals hs) = Some (sv', refusals)"
    and "health_change s (s\<lparr>qp_supervisor := sv', qp_health_sync := AList.update p (hs\<lparr>hs_refusals := refusals\<rparr>) (qp_health_sync s)\<rparr>)"
    and "\<And>q. q = p \<or> refusals_settled s q \<Longrightarrow>
      refusals_settled (s\<lparr>qp_supervisor := sv', qp_health_sync := AList.update p (hs\<lparr>hs_refusals := refusals\<rparr>) (qp_health_sync s)\<rparr>) q"
proof -
  from registered_lookups(2) [OF reg] p obtain b where b: "plugin_budget s p = Some b"
    unfolding plugin_budget_def by (metis not_None_eq option.simps(9))
  have at: "refusals_in_health (qp_supervisor s) p kind = refusals_of (hs_refusals hs) kind"
    "refusals_of (hs_refusals hs) kind \<le> budget_refusals b kind" for kind
    using wm hs b by (auto simp: watermarks_ok_def watermark_ok_def)
  have "p \<in> sv_members sv" using reg p mem by (simp add: registries_ok_def)
  moreover have "refusals_in_health sv p kind = refusals_of (hs_refusals hs) kind
      \<and> refusals_of (hs_refusals hs) kind \<le> refusals_of (refusals_snapshot b) kind" for kind
    using at [of kind] r by (simp add: refusals_in_health_def snapshot_of)
  ultimately obtain sv' where sv': "reconcile_kinds (refusals_snapshot b) (hs_refusals hs) p budget_kinds sv = Some sv'"
    "sv_members sv' = sv_members sv" "\<And>q. q \<noteq> p \<Longrightarrow> supervisor_health sv' q = supervisor_health sv q"
    "\<And>kind. refusals_in_health sv' p kind = budget_refusals b kind"
    using reconcile_kinds_Some [of p sv budget_kinds "hs_refusals hs" "refusals_snapshot b"]
    by (auto simp: budget_kinds_all snapshot_of)
  let ?s = "s\<lparr>qp_supervisor := sv', qp_health_sync := AList.update p (hs\<lparr>hs_refusals := refusals_snapshot b\<rparr>) (qp_health_sync s)\<rparr>"
  have "watermark_ok ?s q" for q
    using wm b sv'(3,4) h
    by (cases "q = p") (auto simp: watermarks_ok_def watermark_ok_def lookup_simps snapshot_of refusals_in_health_def)
  then have "health_change s ?s"
    using mem sv'(2) hs(1) by (auto simp: health_change_def watermarks_ok_def lookup_simps split: if_splits)
  moreover have "refusals_settled ?s q" if "q = p \<or> refusals_settled s q" for q
    using that b sv'(3,4) h by (cases "q = p") (simp_all add: refusals_settled_def refusals_in_health_def)
  ultimately show thesis using b sv'(1) by (intro that [of sv' "refusals_snapshot b"]) (simp_all add: reconcile_refusals_def)
qed

lemma sync_plugin_ok:
  assumes reg: "registries_ok s" and wm: "watermarks_ok s"
  obtains s' where "sync_plugin p s = Some s'" and "health_change s s'"
    and "\<And>q. q = p \<and> p \<in> set (qp_registered s) \<or> refusals_settled s q \<Longrightarrow> refusals_settled s' q"
proof (cases "plugin_diagnostics_snapshot (qp_scheduler s) p")
  case None
  then have "p \<notin> set (qp_registered s)"
    using registered_lookups(3) [OF reg, of p] by (auto simp: plugin_diagnostics_snapshot_def split: option.splits)
  with None that [of s] show thesis by (simp add: sync_plugin_def)
next
  case (Some d)
  then have p: "p \<in> set (qp_registered s)"
    using registered_lookups(3) [OF reg, of p] by (auto simp: plugin_diagnostics_snapshot_def split: option.splits)
  with registered_lookups(1) [OF reg, of p] obtain hs where hs: "map_of (qp_health_sync s) p = Some hs" by auto
  have pm: "p \<in> sv_members (qp_supervisor s)" using reg p by (simp add: registries_ok_def)
  define stale where "stale = sat_sub (pd_rejected_stale_results d) (hs_stale_results hs)"
  define hs1 where "hs1 = (if stale \<noteq> 0 then hs\<lparr>hs_stale_results := pd_rejected_stale_results d\<rparr> else hs)"
  define obsolete where "obsolete = sat_sub (pd_dropped_obsolete_requests d) (hs_obsolete_requests hs1)"
  define hs2 where "hs2 = (if obsolete \<noteq> 0 then hs1\<lparr>hs_obsolete_requests := pd_dropped_obsolete_requests d\<rparr> else hs1)"
  have step: "\<exists>sv'. (if c then expect (op sv) else Some sv) = Some sv' \<and> sv_members sv' = sv_members sv
      \<and> (\<forall>q. q \<noteq> p \<longrightarrow> supervisor_health sv' q = supervisor_health sv q)
      \<and> ph_concurrency_refusals (supervisor_health sv' p) = ph_concurrency_refusals (supervisor_health sv p)"
    if "op = record_health f p" "p \<in> sv_members sv" "\<And>h. ph_concurrency_refusals (f h) = ph_concurrency_refusals h" for c op f sv
  proof (cases c)
    case True
    from record_health_Some [OF that(2), of f] that(1,3) True show ?thesis by (metis (no_types, lifting))
  qed simp
  define depth where "depth = u32_of_size (qd_batches (plugin_depth (qp_intake s) p))"
  obtain sv1 where sv1: "expect (record_queue_depth p depth (qp_supervisor s)) = Some sv1"
    "sv_members sv1 = sv_members (qp_supervisor s)" "\<forall>q. q \<noteq> p \<longrightarrow> supervisor_health sv1 q = supervisor_health (qp_supervisor s) q"
    "ph_concurrency_refusals (supervisor_health sv1 p) = ph_concurrency_refusals (supervisor_health (qp_supervisor s) p)"
    using step [OF record_queue_depth_def [of p depth] pm, of True] by auto
  obtain sv2 where sv2: "(if stale \<noteq> 0 then expect (record_stale_result_rejected p stale sv1) else Some sv1) = Some sv2"
    "sv_members sv2 = sv_members sv1" "\<forall>q. q \<noteq> p \<longrightarrow> supervisor_health sv2 q = supervisor_health sv1 q"
    "ph_concurrency_refusals (supervisor_health sv2 p) = ph_concurrency_refusals (supervisor_health sv1 p)"
    using step [OF record_stale_result_rejected_def [of p stale], of sv1 "stale \<noteq> 0"] pm sv1(2) by auto
  obtain sv3 where sv3: "(if obsolete \<noteq> 0 then expect (record_obsolete_request_dropped p obsolete sv2) else Some sv2) = Some sv3"
    "sv_members sv3 = sv_members sv2" "\<forall>q. q \<noteq> p \<longrightarrow> supervisor_health sv3 q = supervisor_health sv2 q"
    "ph_concurrency_refusals (supervisor_health sv3 p) = ph_concurrency_refusals (supervisor_health sv2 p)"
    using step [OF record_obsolete_request_dropped_def [of p obsolete], of sv2 "obsolete \<noteq> 0"] pm sv1(2) sv2(2) by auto
  have refs: "hs_refusals hs2 = hs_refusals hs" by (simp add: hs2_def hs1_def)
  obtain sv' refusals where r: "reconcile_refusals (plugin_budget s p) p sv3 (hs_refusals hs2) = Some (sv', refusals)"
    and change: "health_change s (s\<lparr>qp_supervisor := sv', qp_health_sync := AList.update p (hs2\<lparr>hs_refusals := refusals\<rparr>) (qp_health_sync s)\<rparr>)"
    and settled: "\<And>q. q = p \<or> refusals_settled s q \<Longrightarrow>
      refusals_settled (s\<lparr>qp_supervisor := sv', qp_health_sync := AList.update p (hs2\<lparr>hs_refusals := refusals\<rparr>) (qp_health_sync s)\<rparr>) q"
    by (rule reconcile_change [OF reg wm p _ _ _ hs refs, of sv3]) (use sv1 sv2 sv3 in simp_all)
  have "sync_plugin p s = Some (s\<lparr>qp_supervisor := sv', qp_health_sync := AList.update p (hs2\<lparr>hs_refusals := refusals\<rparr>) (qp_health_sync s)\<rparr>)"
    using Some hs sv1(1) sv2(1) sv3(1) r
    by (simp add: sync_plugin_def depth_def [symmetric] stale_def [symmetric] hs1_def [symmetric] obsolete_def [symmetric] hs2_def [symmetric])
  with change settled show thesis using that by blast
qed

lemma sync_plugins_ok:
  "registries_ok s \<Longrightarrow> watermarks_ok s \<Longrightarrow> set ps \<subseteq> set (qp_registered s) \<Longrightarrow>
   \<exists>s'. sync_plugins ps s = Some s' \<and> health_change s s' \<and> (\<forall>q. q \<in> set ps \<or> refusals_settled s q \<longrightarrow> refusals_settled s' q)"
proof (induction ps arbitrary: s)
  case (Cons p ps)
  obtain t where t: "sync_plugin p s = Some t" "health_change s t"
    "\<And>q. q = p \<and> p \<in> set (qp_registered s) \<or> refusals_settled s q \<Longrightarrow> refusals_settled t q"
    by (rule sync_plugin_ok [OF Cons.prems(1,2), of p]) blast
  have "registries_ok t" "watermarks_ok t" using t(2) Cons.prems(1,2) health_change_registries by (auto simp: health_change_def)
  moreover have "qp_registered t = qp_registered s" using t(2) by (auto elim: health_change_fields)
  ultimately obtain s' where "sync_plugins ps t = Some s'" "health_change t s'"
    "\<forall>q. q \<in> set ps \<or> refusals_settled t q \<longrightarrow> refusals_settled s' q"
    using Cons.IH [of t] Cons.prems(3) by auto
  with t Cons.prems(3) show ?case by (auto intro: health_change_trans)
qed simp

lemma sync_health_ok:
  assumes "registries_ok s" and "watermarks_ok s"
  obtains s' where "sync_health s = Some s'" and "health_change s s'"
    and "\<And>p. p \<in> set (qp_registered s) \<Longrightarrow> refusals_settled s' p"
  using sync_plugins_ok [OF assms, of "qp_registered s"] unfolding sync_health_def by auto

lemma sync_refusals_ok:
  assumes "registries_ok s" and "watermarks_ok s"
  obtains s' where "sync_concurrency_refusals p s = Some s'" and "health_change s s'"
    and "\<And>q. q = p \<and> p \<in> set (qp_registered s) \<or> refusals_settled s q \<Longrightarrow> refusals_settled s' q"
proof (cases "map_of (qp_health_sync s) p")
  case None
  with registered_lookups(1) [OF assms(1), of p] that [of s] show thesis by (simp add: sync_concurrency_refusals_def)
next
  case (Some hs)
  then have p: "p \<in> set (qp_registered s)" using registered_lookups(1) [OF assms(1), of p] by auto
  show thesis
    by (rule reconcile_change [OF assms p refl refl refl Some refl])
      (use that Some in \<open>auto simp: sync_concurrency_refusals_def\<close>)
qed

lemma note_cancellation_ok:
  assumes "registries_ok s" and "p \<in> set (qp_registered s)"
  obtains s' where "note_cancellation p honoured s = Some s'" and "health_change s s'"
proof -
  from registered_lookups(5) [OF assms(1)] assms(2) have pm: "p \<in> sv_members (qp_supervisor s)" by simp
  let ?f = "\<lambda>h. if honoured then h\<lparr>ph_cancellations_honoured := sat_add (ph_cancellations_honoured h) 1\<rparr>
            else h\<lparr>ph_cancellations_ignored := sat_add (ph_cancellations_ignored h) 1\<rparr>"
  obtain sv where sv: "expect (record_cancellation p honoured 1 (qp_supervisor s)) = Some sv"
    "sv_members sv = sv_members (qp_supervisor s)"
    "\<And>q. supervisor_health sv q = (if q = p then ?f (supervisor_health (qp_supervisor s) p) else supervisor_health (qp_supervisor s) q)"
    unfolding record_cancellation_def by (rule record_health_Some [OF pm, of ?f]) blast
  have same: "refusals_in_health sv q kind = refusals_in_health (qp_supervisor s) q kind" for q kind
    by (simp add: refusals_in_health_def sv(3))
  have "health_change s (s\<lparr>qp_supervisor := sv\<rparr>)"
    unfolding health_change_def
  proof (intro conjI impI)
    show "\<exists>sv' hs. s\<lparr>qp_supervisor := sv\<rparr> = s\<lparr>qp_supervisor := sv', qp_health_sync := hs\<rparr>"
      by (intro exI [of _ sv] exI [of _ "qp_health_sync s"]) simp
    show "watermarks_ok (s\<lparr>qp_supervisor := sv\<rparr>)" if "watermarks_ok s"
      using that by (simp add: watermarks_ok_def watermark_ok_def same plugin_budget_def)
  qed (simp_all add: sv(2))
  with that [of "s\<lparr>qp_supervisor := sv\<rparr>"] sv(1) show thesis by (simp add: note_cancellation_def)
qed

end
