(* ===== verification/Pipeline_Slots.thy ===== *)
theory Pipeline_Slots
  imports Pipeline_Inv
begin

text \<open>
  The slots of the suggestion budgets. Between operations the requests a plugin has in the
  air, the pipeline's active requests, the guards it holds and the occupancy of the plugin's
  budget are the same set, counted four times; during a tick the requests handed out and not
  yet admitted are the difference.
\<close>

section \<open>The ledger\<close>

definition running :: "query_pipeline \<Rightarrow> plugin_id \<Rightarrow> generation set" where
  "running s p = {g. (p, g) \<in> set (qp_active_requests s)}"

text \<open>The active requests that hold a slot of a cell.\<close>

definition holders_of :: "query_pipeline \<Rightarrow> budget_handle \<Rightarrow> request_id set" where
  "holders_of s h = {k \<in> set (qp_active_requests s). map_of (qp_budgets s) (fst k) = Some h}"

definition cell_ok :: "concurrency_budget \<Rightarrow> nat \<Rightarrow> bool" where
  "cell_ok b n \<longleftrightarrow>
     budget_ok b \<and> unat (budget_in_flight b BkSuggestion) = n
     \<and> budget_in_flight b BkSuggestion \<le> budget_limit b BkSuggestion"

definition handles_apart :: "(plugin_id \<times> budget_handle) list \<Rightarrow> bool" where
  "handles_apart bs \<longleftrightarrow> (\<forall>p q h. map_of bs p = Some h \<longrightarrow> map_of bs q = Some h \<longrightarrow> p = q)"

definition guards_ok :: "query_pipeline \<Rightarrow> bool" where
  "guards_ok s \<longleftrightarrow>
     dom (map_of (qp_admitted s)) = set (qp_active_requests s)
     \<and> (\<forall>p g guard. map_of (qp_admitted s) (p, g) = Some guard \<longrightarrow>
          (\<exists>h. map_of (qp_budgets s) p = Some h \<and> guard = (h, BkSuggestion)))"

definition cells_ok :: "query_pipeline \<Rightarrow> bool" where
  "cells_ok s \<longleftrightarrow>
     (\<forall>p h. map_of (qp_budgets s) p = Some h \<longrightarrow> h < length (qp_heap s))
     \<and> (\<forall>h < length (qp_heap s). cell_ok (qp_heap s ! h) (card (holders_of s h)))"

definition ledger_ok :: "query_pipeline \<Rightarrow> bool" where
  "ledger_ok s \<longleftrightarrow> handles_apart (qp_budgets s) \<and> guards_ok s \<and> cells_ok s"

definition airborne_ok :: "request_id set \<Rightarrow> query_pipeline \<Rightarrow> bool" where
  "airborne_ok X s \<longleftrightarrow>
     X \<inter> set (qp_active_requests s) = {}
     \<and> (\<forall>p. set (flights (qp_scheduler s) p) = running s p \<union> {g. (p, g) \<in> X})"

definition slots_ok :: "request_id set \<Rightarrow> query_pipeline \<Rightarrow> bool" where
  "slots_ok X s \<longleftrightarrow> ledger_ok s \<and> airborne_ok X s"

lemma finite_holders [simp]: "finite (holders_of s h)"
  by (simp add: holders_of_def)

text \<open>The ledger reads four fields, and the air the scheduler's flights besides.\<close>

lemma ledger_cong:
  assumes "ledger_ok s" and "qp_heap s' = qp_heap s" and "qp_budgets s' = qp_budgets s"
    and "qp_admitted s' = qp_admitted s" and "set (qp_active_requests s') = set (qp_active_requests s)"
  shows "ledger_ok s'"
proof -
  have "holders_of s' = holders_of s" using assms(3,5) by (simp add: holders_of_def fun_eq_iff)
  with assms show ?thesis by (simp add: ledger_ok_def guards_ok_def cells_ok_def)
qed

lemma slots_cong:
  assumes "slots_ok X s" and "flights (qp_scheduler s') = flights (qp_scheduler s)"
    and "qp_heap s' = qp_heap s" and "qp_budgets s' = qp_budgets s" and "qp_admitted s' = qp_admitted s"
    and "qp_active_requests s' = qp_active_requests s"
  shows "slots_ok X s'"
  using assms ledger_cong [of s s'] by (simp add: slots_ok_def airborne_ok_def running_def)

lemma slots_health: "health_change s s' \<Longrightarrow> slots_ok X s \<Longrightarrow> slots_ok X s'"
  by (erule health_change_fields) (erule slots_cong, simp_all)

section \<open>One cell\<close>

lemma cell_release: "cell_ok b n \<Longrightarrow> 0 < n \<Longrightarrow> cell_ok (release BkSuggestion b) (n - 1)"
  using word_dec [of "budget_in_flight b BkSuggestion"] by (auto simp: cell_ok_def intro: order_trans)

lemma cell_admit: "cell_ok b n \<Longrightarrow> cell_ok (fst (admit BkSuggestion b)) (if snd (admit BkSuggestion b) then n + 1 else n)"
  using word_inc_le [of "budget_in_flight b BkSuggestion" "budget_limit b BkSuggestion"]
  by (auto simp: cell_ok_def admit_simps)

text \<open>Work of another kind does not touch the suggestion slots.\<close>

lemma cell_other:
  "cell_ok b n \<Longrightarrow> kind \<noteq> BkSuggestion \<Longrightarrow> cell_ok (release kind b) n"
  "cell_ok b n \<Longrightarrow> kind \<noteq> BkSuggestion \<Longrightarrow> cell_ok (fst (admit kind b)) n"
  by (auto simp: cell_ok_def admit_simps)

lemma admit_refusals: "budget_refusals b kind' \<le> budget_refusals (fst (admit kind b)) kind'"
proof (cases "kind' = kind")
  case True
  then show ?thesis
    by (cases "kind_index kind < length (cb_refusals b)")
      (auto simp: admit_def Let_def count_refusal_def budget_refusals_def set_in_flight_def sat_add_ge1 list_update_beyond)
next
  case False
  then show ?thesis by (simp add: admit_def Let_def count_refusal_def budget_refusals_def set_in_flight_def)
qed

section \<open>Retiring a request\<close>

lemma dom_delete: "dom (map_of (AList.delete k m)) = dom (map_of m) - {k}"
  by (auto simp: lookup_simps split: if_splits)

lemma active_handle:
  assumes "guards_ok s" and "(p, g) \<in> set (qp_active_requests s)"
  obtains h where "map_of (qp_budgets s) p = Some h" and "map_of (qp_admitted s) (p, g) = Some (h, BkSuggestion)"
proof -
  have "(p, g) \<in> dom (map_of (qp_admitted s))" using assms unfolding guards_ok_def by blast
  then obtain guard where "map_of (qp_admitted s) (p, g) = Some guard" by blast
  with assms(1) that show thesis unfolding guards_ok_def by blast
qed

lemma admitted_remove_absent:
  "guards_ok s \<Longrightarrow> (p, g) \<notin> set (qp_active_requests s) \<Longrightarrow> admitted_remove (p, g) s = s"
  unfolding guards_ok_def admitted_remove_def by (auto split: option.split)

lemma retire_ledger:
  assumes ok: "ledger_ok s"
  shows "ledger_ok ((admitted_remove (p, g) s)\<lparr>qp_active_requests := removeAll (p, g) (qp_active_requests s)\<rparr>)"
    (is "ledger_ok ?t")
proof (cases "(p, g) \<in> set (qp_active_requests s)")
  case False
  with ok have "?t = s" by (simp add: admitted_remove_absent ledger_ok_def)
  with ok show ?thesis by simp
next
  case True
  have parts: "handles_apart (qp_budgets s)" "guards_ok s" "cells_ok s" using ok by (simp_all add: ledger_ok_def)
  from parts(2) True obtain h where h: "map_of (qp_budgets s) p = Some h"
    and adm: "map_of (qp_admitted s) (p, g) = Some (h, BkSuggestion)"
    by (rule active_handle)
  have cell: "h < length (qp_heap s)" "cell_ok (qp_heap s ! h) (card (holders_of s h))"
    using parts(3) h by (auto simp: cells_ok_def)
  have t: "qp_heap ?t = (qp_heap s)[h := release BkSuggestion (qp_heap s ! h)]" "qp_budgets ?t = qp_budgets s"
    "qp_admitted ?t = AList.delete (p, g) (qp_admitted s)" "qp_active_requests ?t = removeAll (p, g) (qp_active_requests s)"
    using adm cell(1) by (simp_all add: admitted_remove_def drop_guard_def)
  have hold: "holders_of ?t k = (if k = h then holders_of s h - {(p, g)} else holders_of s k)" for k
    using h by (auto simp: holders_of_def t)
  have "(p, g) \<in> holders_of s h" using True h by (simp add: holders_of_def)
  then have "cell_ok (release BkSuggestion (qp_heap s ! h)) (card (holders_of ?t h))"
    using cell_release [OF cell(2)] by (auto simp: hold card_gt_0_iff)
  then have "cells_ok ?t"
    using parts(3) cell(1) by (auto simp: cells_ok_def t hold nth_list_update)
  moreover have "guards_ok ?t" using parts(2) by (simp add: guards_ok_def t dom_delete) (simp add: lookup_simps)
  ultimately show ?thesis using parts(1) by (simp add: ledger_ok_def t)
qed

lemma retire_slot:
  assumes ok: "slots_ok X s"
    and fl: "\<And>k. set (flights sched k) = (if k = p then set (flights (qp_scheduler s) p) - {g} else set (flights (qp_scheduler s) k))"
  shows "slots_ok (X - {(p, g)})
    ((admitted_remove (p, g) s)\<lparr>qp_scheduler := sched, qp_active_requests := removeAll (p, g) (qp_active_requests s)\<rparr>)"
    (is "slots_ok _ ?t")
proof -
  have air: "airborne_ok X s" using ok by (simp add: slots_ok_def)
  have "set (flights sched k) = running ?t k \<union> {g'. (k, g') \<in> X - {(p, g)}}" for k
  proof -
    have "set (flights (qp_scheduler s) k) = running s k \<union> {g'. (k, g') \<in> X}" for k
      using air by (simp add: airborne_ok_def)
    then show ?thesis by (auto simp: fl running_def)
  qed
  moreover have "(X - {(p, g)}) \<inter> set (qp_active_requests ?t) = {}" using air by (auto simp: airborne_ok_def)
  ultimately have "airborne_ok (X - {(p, g)}) ?t" by (simp add: airborne_ok_def)
  moreover have "ledger_ok ?t"
    by (rule ledger_cong [OF retire_ledger]) (use ok in \<open>simp_all add: slots_ok_def\<close>)
  ultimately show ?thesis by (simp add: slots_ok_def)
qed

section \<open>Admitting a request\<close>

lemma admit_ledger:
  assumes ok: "ledger_ok s" and h: "map_of (qp_budgets s) p = Some h" and new: "(p, g) \<notin> set (qp_active_requests s)"
    and cell: "admit BkSuggestion (qp_heap s ! h) = (b, True)"
  shows "ledger_ok (s\<lparr>qp_heap := (qp_heap s)[h := b], qp_admitted := AList.update (p, g) (h, BkSuggestion) (qp_admitted s),
    qp_active_requests := List.insert (p, g) (qp_active_requests s)\<rparr>)" (is "ledger_ok ?t")
proof -
  have parts: "handles_apart (qp_budgets s)" "guards_ok s" "cells_ok s" using ok by (simp_all add: ledger_ok_def)
  have at: "h < length (qp_heap s)" "cell_ok (qp_heap s ! h) (card (holders_of s h))"
    using parts(3) h by (auto simp: cells_ok_def)
  have hold: "holders_of ?t k = (if k = h then insert (p, g) (holders_of s h) else holders_of s k)" for k
    using h by (auto simp: holders_of_def)
  have "(p, g) \<notin> holders_of s h" using new by (simp add: holders_of_def)
  then have "cell_ok b (card (holders_of ?t h))" using cell_admit [OF at(2)] cell by (simp add: hold)
  then have "cells_ok ?t" using parts(3) at(1) hold by (auto simp: cells_ok_def nth_list_update)
  moreover have "guards_ok ?t"
  proof -
    have "dom (map_of (AList.update (p, g) (h, BkSuggestion) (qp_admitted s))) = insert (p, g) (set (qp_active_requests s))"
      using parts(2) by (auto simp: guards_ok_def update_conv')
    then show ?thesis using parts(2) h by (auto simp: guards_ok_def lookup_simps)
  qed
  ultimately show ?thesis using parts(1) by (simp add: ledger_ok_def)
qed

lemma refuse_ledger:
  assumes ok: "ledger_ok s" and h: "h < length (qp_heap s)"
    and cell: "\<And>n. cell_ok (qp_heap s ! h) n \<Longrightarrow> cell_ok b n"
  shows "ledger_ok (s\<lparr>qp_heap := (qp_heap s)[h := b]\<rparr>)"
proof -
  have "holders_of (s\<lparr>qp_heap := xs\<rparr>) = holders_of s" for xs by (simp add: holders_of_def fun_eq_iff)
  with ok h cell show ?thesis
    by (auto simp: ledger_ok_def guards_ok_def cells_ok_def nth_list_update)
qed

end
