(* ===== verification/Pipeline_Steps.thy ===== *)
theory Pipeline_Steps
  imports Pipeline_Slots
begin

text \<open>
  The invariant of the whole pipeline and the steps its operations share: retiring a request,
  flushing parked completions, collecting cancellations, draining the intake. Each step
  returns a value, so none of the source's panics is reached, and keeps the invariant.
\<close>

section \<open>The invariant\<close>

definition sched_side :: "query_pipeline \<Rightarrow> bool" where
  "sched_side s \<longleftrightarrow>
     sched_inv (qp_scheduler s) \<and> \<not> qs_shutdown (qp_scheduler s)
     \<and> qp_generation s = sched_current_generation (qp_scheduler s)
     \<and> (qp_generation s \<noteq> 0 \<longrightarrow> qs_result_queue_depth (qp_scheduler s) = qp_unranked_batches s)
     \<and> qp_result_trace_capacity s = result_queue_capacity (qs_config (qp_scheduler s))
     \<and> 0 < qp_result_trace_capacity s \<and> qp_result_trace_capacity s \<le> usize_max"

definition opened :: "generation \<Rightarrow> gate" where
  "opened g = (if g = 0 then None else Some g, 0)"

definition result_side :: "query_pipeline \<Rightarrow> bool" where
  "result_side s \<longleftrightarrow>
     intake_ok (qp_intake s) \<and> ag_ok (qp_aggregator s)
     \<and> iq_gate (qp_intake s) = opened (qp_generation s) \<and> ag_gate (qp_aggregator s) = opened (qp_generation s)
     \<and> ql_capacity_batches (iq_limits (qp_intake s)) \<le> usize_max \<and> serving (qp_drain_budget s)"

definition books_ok :: "query_pipeline \<Rightarrow> bool" where
  "books_ok s \<longleftrightarrow>
     fst ` set (qp_unresolved_cancellations s) \<subseteq> set (qp_registered s)
     \<and> distinct (map fst (qp_pending_completions s))
     \<and> 0 < qp_error_capacity s \<and> length (qp_pending_errors s) \<le> qp_error_capacity s"

definition pipe_ok :: "request_id set \<Rightarrow> query_pipeline \<Rightarrow> bool" where
  "pipe_ok X s \<longleftrightarrow>
     sched_side s \<and> result_side s \<and> registries_ok s \<and> watermarks_ok s \<and> slots_ok X s \<and> books_ok s"

lemmas pipe_parts = pipe_ok_def sched_side_def result_side_def books_ok_def

lemma pipe_okD:
  assumes "pipe_ok X s"
  shows "sched_inv (qp_scheduler s)" "registries_ok s" "watermarks_ok s" "slots_ok X s"
    "intake_ok (qp_intake s)" "ag_ok (qp_aggregator s)"
  using assms by (simp_all add: pipe_parts)

lemma pipe_health: "health_change s s' \<Longrightarrow> pipe_ok X s \<Longrightarrow> pipe_ok X s'"
proof -
  assume h: "health_change s s'" and ok: "pipe_ok X s"
  have "registries_ok s'" "slots_ok X s'"
    using ok health_change_registries [OF h] slots_health [OF h] by (simp_all add: pipe_ok_def)
  moreover have "watermarks_ok s'" using h ok by (simp add: pipe_ok_def health_change_def)
  moreover note ok
  ultimately show ?thesis by (rule_tac health_change_fields [OF h]) (simp add: pipe_parts)
qed

lemma sync_health_pipe:
  assumes "pipe_ok X s"
  obtains s' where "sync_health s = Some s'" and "pipe_ok X s'" and "health_change s s'"
  using sync_health_ok [OF pipe_okD(2,3) [OF assms]] pipe_health [OF _ assms] by blast

section \<open>Retiring a request\<close>

text \<open>What retiring requests may change of a pipeline.\<close>

definition retires :: "query_pipeline \<Rightarrow> query_pipeline \<Rightarrow> bool" where
  "retires s s' \<longleftrightarrow>
     (\<exists>sched heap adm act unres sv hs pend. s' = s\<lparr>qp_scheduler := sched, qp_heap := heap, qp_admitted := adm,
        qp_active_requests := act, qp_unresolved_cancellations := unres, qp_supervisor := sv, qp_health_sync := hs,
        qp_pending_completions := pend\<rparr>)"

lemma retires_refl [simp]: "retires s s"
proof -
  have "s = s\<lparr>qp_scheduler := qp_scheduler s, qp_heap := qp_heap s, qp_admitted := qp_admitted s,
      qp_active_requests := qp_active_requests s, qp_unresolved_cancellations := qp_unresolved_cancellations s,
      qp_supervisor := qp_supervisor s, qp_health_sync := qp_health_sync s,
      qp_pending_completions := qp_pending_completions s\<rparr>" by simp
  then show ?thesis unfolding retires_def by blast
qed

lemma retires_trans: "retires s t \<Longrightarrow> retires t u \<Longrightarrow> retires s u"
  unfolding retires_def by (elim exE) (simp, blast)

lemma retires_fields:
  assumes "retires s s'"
  shows "qp_generation s' = qp_generation s" "qp_registered s' = qp_registered s" "qp_intake s' = qp_intake s"
    "qp_aggregator s' = qp_aggregator s" "qp_pending_errors s' = qp_pending_errors s" "qp_error_capacity s' = qp_error_capacity s"
    "qp_rows s' = qp_rows s" "qp_visible_generation s' = qp_visible_generation s" "qp_query s' = qp_query s"
    "qp_last_intake_drain_at s' = qp_last_intake_drain_at s" "qp_drain_budget s' = qp_drain_budget s"
    "qp_result_trace_capacity s' = qp_result_trace_capacity s" "qp_unranked_batches s' = qp_unranked_batches s"
    "qp_presentation_dirty s' = qp_presentation_dirty s" "qp_icons s' = qp_icons s" "qp_budgets s' = qp_budgets s"
  using assms by (auto simp: retires_def)

lemma health_retires: "health_change s s' \<Longrightarrow> retires s s'"
proof (erule health_change_fields)
  fix sv hs assume "s' = s\<lparr>qp_supervisor := sv, qp_health_sync := hs\<rparr>"
  then have "s' = s\<lparr>qp_scheduler := qp_scheduler s, qp_heap := qp_heap s, qp_admitted := qp_admitted s,
      qp_active_requests := qp_active_requests s, qp_unresolved_cancellations := qp_unresolved_cancellations s,
      qp_supervisor := sv, qp_health_sync := hs, qp_pending_completions := qp_pending_completions s\<rparr>" by simp
  then show ?thesis unfolding retires_def by blast
qed

lemma retires_sched: "retires s (s\<lparr>qp_scheduler := sched\<rparr>)"
proof -
  have "s\<lparr>qp_scheduler := sched\<rparr> = s\<lparr>qp_scheduler := sched, qp_heap := qp_heap s, qp_admitted := qp_admitted s,
      qp_active_requests := qp_active_requests s, qp_unresolved_cancellations := qp_unresolved_cancellations s,
      qp_supervisor := qp_supervisor s, qp_health_sync := qp_health_sync s,
      qp_pending_completions := qp_pending_completions s\<rparr>" by simp
  then show ?thesis unfolding retires_def by blast
qed

lemma admitted_remove_retires:
  obtains heap adm where "admitted_remove k s = s\<lparr>qp_heap := heap, qp_admitted := adm\<rparr>"
proof (cases "map_of (qp_admitted s) k")
  case None
  then have "admitted_remove k s = s\<lparr>qp_heap := qp_heap s, qp_admitted := qp_admitted s\<rparr>" by (simp add: admitted_remove_def)
  then show thesis by (rule that)
next
  case (Some guard)
  then have "admitted_remove k s = s\<lparr>qp_heap := qp_heap (admitted_remove k s), qp_admitted := qp_admitted (admitted_remove k s)\<rparr>"
    by (simp add: admitted_remove_def drop_guard_def split: prod.split)
  then show thesis by (rule that)
qed

lemma admitted_remove_commute:
  "admitted_remove k (s\<lparr>qp_scheduler := x, qp_active_requests := a\<rparr>) = (admitted_remove k s)\<lparr>qp_scheduler := x, qp_active_requests := a\<rparr>"
  by (simp add: admitted_remove_def drop_guard_def split: option.split prod.split)

text \<open>Giving a slot back loses no refusal.\<close>

lemma watermarks_heap:
  assumes "watermarks_ok s" and "qp_supervisor s' = qp_supervisor s" and "qp_health_sync s' = qp_health_sync s"
    and "qp_budgets s' = qp_budgets s"
    and "\<And>h kind. budget_refusals (qp_heap s ! h) kind \<le> budget_refusals (qp_heap s' ! h) kind"
  shows "watermarks_ok s'"
proof -
  have "refusals_of (hs_refusals hs) kind \<le> budget_refusals (qp_heap s' ! h) kind"
    if "map_of (qp_health_sync s) p = Some hs" "map_of (qp_budgets s) p = Some h" for p h hs kind
    using assms(1) assms(5) [of h kind] that by (fastforce simp: watermarks_ok_def watermark_ok_def plugin_budget_def intro: order_trans)
  with assms show ?thesis by (auto simp: watermarks_ok_def watermark_ok_def plugin_budget_def)
qed

lemma drop_guard_refusals: "budget_refusals (qp_heap (drop_guard guard s) ! h) kind = budget_refusals (qp_heap s ! h) kind"
  by (cases guard; cases "fst guard = h") (simp_all add: drop_guard_def)

lemma admitted_remove_refusals: "budget_refusals (qp_heap (admitted_remove k s) ! h) kind = budget_refusals (qp_heap s ! h) kind"
  by (simp add: admitted_remove_def drop_guard_refusals split: option.split)

lemma complete_frame:
  assumes "sched_inv s"
  shows "sched_inv (fst (sched_complete p g now s))"
    and "qs_shutdown (fst (sched_complete p g now s)) = qs_shutdown s"
    and "sched_current_generation (fst (sched_complete p g now s)) = sched_current_generation s"
    and "qs_config (fst (sched_complete p g now s)) = qs_config s"
    and "set (flights (fst (sched_complete p g now s)) k) = (if k = p then set (flights s p) - {g} else set (flights s k))"
proof -
  show "set (flights (fst (sched_complete p g now s)) k) = (if k = p then set (flights s p) - {g} else set (flights s k))"
    using flights_distinct [OF assms, of p] by (simp add: complete_flights)
qed (use assms inv_complete in \<open>simp_all add: sched_complete_def Let_def case_prod_beta sched_current_generation_def split: option.splits\<close>)

text \<open>Taking a cancellation off the unresolved ones, and classifying it if it was there.\<close>

definition resolves :: "query_pipeline \<Rightarrow> query_pipeline \<Rightarrow> bool" where
  "resolves s s' \<longleftrightarrow>
     (\<exists>unres sv hs. s' = s\<lparr>qp_unresolved_cancellations := unres, qp_supervisor := sv, qp_health_sync := hs\<rparr>
        \<and> set unres \<subseteq> set (qp_unresolved_cancellations s))"

lemma resolves_trans: "resolves s t \<Longrightarrow> resolves t u \<Longrightarrow> resolves s u"
  unfolding resolves_def by (elim exE conjE) (simp, blast)

lemma health_resolves: "health_change s s' \<Longrightarrow> resolves s s'"
proof (erule health_change_fields)
  fix sv hs assume "s' = s\<lparr>qp_supervisor := sv, qp_health_sync := hs\<rparr>"
  then have "s' = s\<lparr>qp_unresolved_cancellations := qp_unresolved_cancellations s, qp_supervisor := sv, qp_health_sync := hs\<rparr>" by simp
  then show ?thesis unfolding resolves_def by blast
qed

lemma resolves_retires: "resolves s s' \<Longrightarrow> retires s s'"
proof -
  assume "resolves s s'"
  then obtain unres sv hs where "s' = s\<lparr>qp_scheduler := qp_scheduler s, qp_heap := qp_heap s, qp_admitted := qp_admitted s,
      qp_active_requests := qp_active_requests s, qp_unresolved_cancellations := unres,
      qp_supervisor := sv, qp_health_sync := hs, qp_pending_completions := qp_pending_completions s\<rparr>"
    by (auto simp: resolves_def)
  then show ?thesis unfolding retires_def by blast
qed

lemma resolves_fields:
  assumes "resolves s s'"
  shows "qp_pending_completions s' = qp_pending_completions s" "qp_budgets s' = qp_budgets s"
    "qp_active_requests s' = qp_active_requests s" "qp_scheduler s' = qp_scheduler s" "qp_heap s' = qp_heap s"
    "set (qp_unresolved_cancellations s') \<subseteq> set (qp_unresolved_cancellations s)"
  using assms by (auto simp: resolves_def)

lemma pipe_forget: "pipe_ok X s \<Longrightarrow> pipe_ok X (s\<lparr>qp_unresolved_cancellations := removeAll k (qp_unresolved_cancellations s)\<rparr>)"
  (is "_ \<Longrightarrow> pipe_ok X ?t")
proof -
  assume ok: "pipe_ok X s"
  have "slots_ok X ?t" by (rule slots_cong [OF pipe_okD(4) [OF ok]]) simp_all
  moreover have "watermarks_ok ?t" by (rule watermarks_heap [OF pipe_okD(3) [OF ok]]) simp_all
  ultimately show ?thesis using ok by (auto simp: pipe_parts registries_ok_def)
qed

lemma resolve_ok:
  assumes ok: "pipe_ok X s"
  obtains s' where "(let (s, was) = unresolved_remove (p, g) s in if was then note_cancellation p honoured s else Some s) = Some s'"
    and "pipe_ok X s'" and "resolves s s'"
proof -
  let ?t = "s\<lparr>qp_unresolved_cancellations := removeAll (p, g) (qp_unresolved_cancellations s)\<rparr>"
  have ok1: "pipe_ok X ?t" using pipe_forget [OF ok] by simp
  have res: "resolves s ?t"
  proof -
    have "?t = s\<lparr>qp_unresolved_cancellations := removeAll (p, g) (qp_unresolved_cancellations s),
        qp_supervisor := qp_supervisor s, qp_health_sync := qp_health_sync s\<rparr>" by simp
    moreover have "set (removeAll (p, g) (qp_unresolved_cancellations s)) \<subseteq> set (qp_unresolved_cancellations s)" by auto
    ultimately show ?thesis unfolding resolves_def by blast
  qed
  show thesis
  proof (cases "(p, g) \<in> set (qp_unresolved_cancellations s)")
    case True
    then have "p \<in> set (qp_registered ?t)" using ok by (force simp: pipe_parts)
    from note_cancellation_ok [OF pipe_okD(2) [OF ok1] this, of honoured] obtain s' where
      s': "note_cancellation p honoured ?t = Some s'" "health_change ?t s'" .
    show thesis
      by (rule that [of s']) (use True s' pipe_health [OF s'(2) ok1] resolves_trans [OF res health_resolves [OF s'(2)]]
        in \<open>simp_all add: unresolved_remove_def\<close>)
  next
    case False
    show thesis by (rule that [of ?t]) (use False ok1 res in \<open>simp_all add: unresolved_remove_def\<close>)
  qed
qed

lemma finish_completion_ok:
  assumes ok: "pipe_ok X s"
  obtains s' out where "finish_completion p g now s = Some (s', out)" and "pipe_ok (X - {(p, g)}) s'" and "retires s s'"
    and "qp_pending_completions s' = qp_pending_completions s" and "qp_budgets s' = qp_budgets s"
    and "set (qp_unresolved_cancellations s') \<subseteq> set (qp_unresolved_cancellations s)"
    and "set (qp_active_requests s') = set (qp_active_requests s) - {(p, g)}"
proof -
  note inv = pipe_okD(1) [OF ok]
  obtain sched out where c: "sched_complete p g now (qp_scheduler s) = (sched, out)" by fastforce
  note frame = complete_frame [OF inv, of p g now, unfolded c fst_conv]
  define s1 where "s1 = (admitted_remove (p, g) s)\<lparr>qp_scheduler := sched, qp_active_requests := removeAll (p, g) (qp_active_requests s)\<rparr>"
  obtain heap adm where rem: "admitted_remove (p, g) s = s\<lparr>qp_heap := heap, qp_admitted := adm\<rparr>" by (rule admitted_remove_retires)
  have s1: "s1 = s\<lparr>qp_scheduler := sched, qp_heap := heap, qp_admitted := adm,
      qp_active_requests := removeAll (p, g) (qp_active_requests s), qp_unresolved_cancellations := qp_unresolved_cancellations s,
      qp_supervisor := qp_supervisor s, qp_health_sync := qp_health_sync s, qp_pending_completions := qp_pending_completions s\<rparr>"
    by (simp add: s1_def rem)
  have "qs_result_queue_depth (fst (sched_complete p g now (qp_scheduler s))) = qs_result_queue_depth (qp_scheduler s)" by simp
  then have depth: "qs_result_queue_depth sched = qs_result_queue_depth (qp_scheduler s)" by (simp only: c fst_conv)
  have mem: "sched_members sched = sched_members (qp_scheduler s)"
    using complete_flights(2) [of p g now "qp_scheduler s"] by (simp only: c fst_conv)
  have refs: "budget_refusals (heap ! h) kind = budget_refusals (qp_heap s ! h) kind" for h kind
    using admitted_remove_refusals [of "(p, g)" s h kind] by (simp add: rem)
  have "watermarks_ok s1" by (rule watermarks_heap [OF pipe_okD(3) [OF ok]]) (simp_all add: s1 refs)
  moreover have "slots_ok (X - {(p, g)}) s1"
    unfolding s1_def by (rule retire_slot [OF pipe_okD(4) [OF ok]]) (simp add: frame)
  moreover have "registries_ok s1" using pipe_okD(2) [OF ok] mem by (simp add: registries_ok_def s1)
  ultimately have ok1: "pipe_ok (X - {(p, g)}) s1"
    using ok frame depth by (simp add: s1 pipe_parts)
  have ret1: "retires s s1" unfolding retires_def by (intro exI) (rule s1)
  obtain s2 where s2: "(if out = CompletionStale
           then let (s, was) = unresolved_remove (p, g) s1 in if was then note_cancellation p True s else Some s
           else Some s1) = Some s2" "pipe_ok (X - {(p, g)}) s2" "resolves s1 s2"
  proof (cases "out = CompletionStale")
    case True
    from resolve_ok [OF ok1, of p g True] True that show thesis by auto
  next
    case False
    with that [of s1] ok1 health_resolves [of s1 s1] show thesis by simp
  qed
  obtain s3 where s3: "sync_health s2 = Some s3" "pipe_ok (X - {(p, g)}) s3" "health_change s2 s3"
    by (rule sync_health_pipe [OF s2(2)])
  have res: "resolves s1 s3" by (rule resolves_trans [OF s2(3) health_resolves [OF s3(3)]])
  show thesis
  proof (rule that [of s3 out])
    show "finish_completion p g now s = Some (s3, out)"
      using s2(1) s3(1) by (simp add: finish_completion_def c admitted_remove_commute s1_def [symmetric])
    show "retires s s3" by (rule retires_trans [OF ret1 resolves_retires [OF res]])
  qed (use s3(2) resolves_fields [OF res] in \<open>auto simp: s1\<close>)
qed

end
