(* ===== verification/Pipeline_Drain.thy ===== *)
theory Pipeline_Drain
  imports Pipeline_Steps
begin

text \<open>
  The longer steps of the pipeline: flushing the completions that were parked behind queued
  batches, collecting the scheduler's cancellations, and draining the intake into the
  aggregator while the scheduler is told of every merged batch.
\<close>

section \<open>Parked completions\<close>

text \<open>A completion that was parked no longer is: the rest of the invariant does not read it.\<close>

lemma pipe_unpark:
  assumes ok: "pipe_ok X s" and "distinct (map fst pend)"
  shows "pipe_ok X (s\<lparr>qp_pending_completions := pend\<rparr>)" (is "pipe_ok X ?t")
proof -
  have "slots_ok X ?t" by (rule slots_cong [OF pipe_okD(4) [OF ok]]) simp_all
  moreover have "watermarks_ok ?t" by (rule watermarks_heap [OF pipe_okD(3) [OF ok]]) simp_all
  ultimately show ?thesis using ok assms(2) by (simp add: pipe_parts registries_ok_def)
qed

lemma retires_unpark: "retires s (s\<lparr>qp_pending_completions := pend\<rparr>)"
proof -
  have "s\<lparr>qp_pending_completions := pend\<rparr> = s\<lparr>qp_scheduler := qp_scheduler s, qp_heap := qp_heap s, qp_admitted := qp_admitted s,
      qp_active_requests := qp_active_requests s, qp_unresolved_cancellations := qp_unresolved_cancellations s,
      qp_supervisor := qp_supervisor s, qp_health_sync := qp_health_sync s, qp_pending_completions := pend\<rparr>" by simp
  then show ?thesis unfolding retires_def by blast
qed

lemma finish_all_ok:
  "pipe_ok X s \<Longrightarrow> distinct ks \<Longrightarrow> set ks \<subseteq> fst ` set (qp_pending_completions s) \<Longrightarrow>
   \<exists>s'. finish_all ks s = Some s' \<and> pipe_ok (X - set ks) s' \<and> retires s s'"
proof (induction ks arbitrary: X s)
  case (Cons k ks)
  obtain p g where k: "k = (p, g)" by force
  let ?s = "s\<lparr>qp_pending_completions := AList.delete k (qp_pending_completions s)\<rparr>"
  have "k \<in> dom (map_of (qp_pending_completions s))" using Cons.prems(3) by (simp add: dom_map_of_conv_image_fst)
  then obtain now where now: "map_of (qp_pending_completions s) k = Some now" by blast
  have "pipe_ok X ?s" using Cons.prems(1) by (intro pipe_unpark distinct_delete) (simp_all add: pipe_parts)
  then obtain t out where t: "finish_completion p g now ?s = Some (t, out)" "pipe_ok (X - {(p, g)}) t" "retires ?s t"
    "qp_pending_completions t = qp_pending_completions ?s"
    by (rule finish_completion_ok) blast
  have "set ks \<subseteq> fst ` set (qp_pending_completions t)"
    using Cons.prems(2,3) t(4) dom_delete [of k "qp_pending_completions s"] by (auto simp: dom_map_of_conv_image_fst)
  then obtain s' where s': "finish_all ks t = Some s'" "pipe_ok (X - {(p, g)} - set ks) s'" "retires t s'"
    using Cons.IH [OF t(2)] Cons.prems(2) by auto
  have "X - {(p, g)} - set ks = X - set (k # ks)" by (auto simp: k)
  with now t(1) s' show ?case
    by (auto simp: k intro: retires_trans [OF retires_unpark retires_trans [OF t(3)]])
qed simp

lemma flush_ok:
  assumes ok: "pipe_ok {} s"
  obtains s' where "flush_ready_completions merged s = Some s'" and "pipe_ok {} s'" and "retires s s'"
proof -
  have "distinct (filter (completion_ready s merged) (map fst (qp_pending_completions s)))"
    using ok by (simp add: pipe_parts)
  moreover have "set (filter (completion_ready s merged) (map fst (qp_pending_completions s))) \<subseteq> fst ` set (qp_pending_completions s)"
    by auto
  ultimately obtain s' where "flush_ready_completions merged s = Some s'" "pipe_ok {} s'" "retires s s'"
    using finish_all_ok [OF ok] unfolding flush_ready_completions_def by (metis Diff_empty empty_Diff)
  then show thesis by (rule that)
qed

section \<open>Cancellations\<close>

lemma capture_one:
  obtains unres canc where "capture_cancellation c s = s\<lparr>qp_unresolved_cancellations := unres, qp_pending_cancellations := canc\<rparr>"
    and "set unres \<subseteq> set (qp_unresolved_cancellations s) \<union> set (qp_active_requests s)"
proof (cases "(cr_plugin c, cr_generation c) \<in> set (qp_active_requests s)")
  case True
  show thesis
    by (rule that [of "qp_pending_cancellations s @ [c]" "List.insert (cr_plugin c, cr_generation c) (qp_unresolved_cancellations s)"])
      (use True in \<open>auto simp: capture_cancellation_def\<close>)
next
  case False
  show thesis
    by (rule that [of "qp_pending_cancellations s" "qp_unresolved_cancellations s"])
      (use False in \<open>auto simp: capture_cancellation_def\<close>)
qed

lemma capture_all:
  "\<exists>unres canc. fold capture_cancellation cs s = s\<lparr>qp_unresolved_cancellations := unres, qp_pending_cancellations := canc\<rparr>
     \<and> set unres \<subseteq> set (qp_unresolved_cancellations s) \<union> set (qp_active_requests s)"
proof (induction cs arbitrary: s)
  case Nil
  have "s = s\<lparr>qp_unresolved_cancellations := qp_unresolved_cancellations s, qp_pending_cancellations := qp_pending_cancellations s\<rparr>" by simp
  then show ?case by (metis Un_upper1 fold_Nil id_apply)
next
  case (Cons c cs)
  obtain unres canc where c: "capture_cancellation c s = s\<lparr>qp_unresolved_cancellations := unres, qp_pending_cancellations := canc\<rparr>"
    "set unres \<subseteq> set (qp_unresolved_cancellations s) \<union> set (qp_active_requests s)" by (rule capture_one)
  from Cons.IH [of "capture_cancellation c s"] obtain unres' canc' where
    "fold capture_cancellation cs (capture_cancellation c s) = (capture_cancellation c s)\<lparr>qp_unresolved_cancellations := unres',
      qp_pending_cancellations := canc'\<rparr>" "set unres' \<subseteq> set (qp_unresolved_cancellations (capture_cancellation c s))
      \<union> set (qp_active_requests (capture_cancellation c s))" by blast
  with c have "fold capture_cancellation (c # cs) s = s\<lparr>qp_unresolved_cancellations := unres', qp_pending_cancellations := canc'\<rparr>"
    "set unres' \<subseteq> set (qp_unresolved_cancellations s) \<union> set (qp_active_requests s)" by auto
  then show ?case by blast
qed

text \<open>Every request in the air belongs to a registered plugin.\<close>

lemma active_registered:
  assumes "registries_ok s" and "slots_ok X s" and "k \<in> set (qp_active_requests s)"
  shows "fst k \<in> set (qp_registered s)"
proof -
  obtain p g where k: "k = (p, g)" by force
  have "guards_ok s" using assms(2) by (simp add: slots_ok_def ledger_ok_def)
  then obtain h where "map_of (qp_budgets s) p = Some h" using active_handle assms(3) k by blast
  with registered_lookups(2) [OF assms(1), of p] show ?thesis by (simp add: k)
qed

lemma capture_ok:
  assumes ok: "pipe_ok X s"
  obtains sched unres canc where "capture_cancellations s = s\<lparr>qp_scheduler := sched, qp_unresolved_cancellations := unres,
      qp_pending_cancellations := canc\<rparr>" and "pipe_ok X (capture_cancellations s)"
proof -
  note inv = pipe_okD(1) [OF ok]
  let ?sched = "fst (drain_cancellations (qp_scheduler s))"
  obtain unres canc where eq: "capture_cancellations s = s\<lparr>qp_scheduler := ?sched, qp_unresolved_cancellations := unres,
      qp_pending_cancellations := canc\<rparr>" and sub: "set unres \<subseteq> set (qp_unresolved_cancellations s) \<union> set (qp_active_requests s)"
    using capture_all [of "snd (drain_cancellations (qp_scheduler s))" "s\<lparr>qp_scheduler := ?sched\<rparr>"]
    by (auto simp: capture_cancellations_def case_prod_beta)
  have st: "steady (qp_scheduler s) ?sched" by (rule steady_result_ops)
  have frame: "sched_inv ?sched" "qs_shutdown ?sched = qs_shutdown (qp_scheduler s)"
    "sched_current_generation ?sched = sched_current_generation (qp_scheduler s)" "qs_config ?sched = qs_config (qp_scheduler s)"
    "qs_result_queue_depth ?sched = qs_result_queue_depth (qp_scheduler s)"
    using inv_drain [OF inv] by (simp_all add: drain_cancellations_def sched_current_generation_def)
  have "slots_ok X (capture_cancellations s)"
    unfolding eq by (rule slots_cong [OF pipe_okD(4) [OF ok]]) (use st in \<open>simp_all add: steady_def\<close>)
  moreover have "watermarks_ok (capture_cancellations s)"
    unfolding eq by (rule watermarks_heap [OF pipe_okD(3) [OF ok]]) simp_all
  moreover have "registries_ok (capture_cancellations s)"
    using pipe_okD(2) [OF ok] st by (simp add: registries_ok_def eq steady_def)
  moreover have "fst ` set unres \<subseteq> set (qp_registered s)"
    using sub ok active_registered [OF pipe_okD(2,4) [OF ok]] unfolding pipe_parts by blast
  ultimately have "pipe_ok X (capture_cancellations s)" using ok frame by (simp add: pipe_parts eq)
  with eq show thesis by (rule that)
qed

section \<open>Replacing a component\<close>

lemma slots_irrelevant [simp]:
  "slots_ok X (s\<lparr>qp_presentation_dirty := b\<rparr>) = slots_ok X s" "slots_ok X (s\<lparr>qp_rows := r\<rparr>) = slots_ok X s"
  "slots_ok X (s\<lparr>qp_visible_generation := v\<rparr>) = slots_ok X s" "slots_ok X (s\<lparr>qp_presented_pending := pp\<rparr>) = slots_ok X s"
  "slots_ok X (s\<lparr>qp_query := q\<rparr>) = slots_ok X s" "slots_ok X (s\<lparr>qp_last_intake_drain_at := t\<rparr>) = slots_ok X s"
  "slots_ok X (s\<lparr>qp_pending_cancellations := c\<rparr>) = slots_ok X s" "slots_ok X (s\<lparr>qp_profile_overrides := po\<rparr>) = slots_ok X s"
  "slots_ok X (s\<lparr>qp_icons := b\<rparr>) = slots_ok X s" "slots_ok X (s\<lparr>qp_dropped_errors := n\<rparr>) = slots_ok X s"
  by (simp_all add: slots_ok_def ledger_ok_def airborne_ok_def guards_ok_def cells_ok_def running_def holders_of_def)

lemma watermarks_irrelevant [simp]:
  "watermarks_ok (s\<lparr>qp_presentation_dirty := b\<rparr>) = watermarks_ok s" "watermarks_ok (s\<lparr>qp_rows := r\<rparr>) = watermarks_ok s"
  "watermarks_ok (s\<lparr>qp_visible_generation := v\<rparr>) = watermarks_ok s" "watermarks_ok (s\<lparr>qp_presented_pending := pp\<rparr>) = watermarks_ok s"
  "watermarks_ok (s\<lparr>qp_query := q\<rparr>) = watermarks_ok s" "watermarks_ok (s\<lparr>qp_last_intake_drain_at := t\<rparr>) = watermarks_ok s"
  "watermarks_ok (s\<lparr>qp_pending_cancellations := c\<rparr>) = watermarks_ok s" "watermarks_ok (s\<lparr>qp_profile_overrides := po\<rparr>) = watermarks_ok s"
  "watermarks_ok (s\<lparr>qp_icons := b\<rparr>) = watermarks_ok s" "watermarks_ok (s\<lparr>qp_dropped_errors := n\<rparr>) = watermarks_ok s"
  by (simp_all add: watermarks_ok_def watermark_ok_def plugin_budget_def)

lemma pipe_irrelevant [simp]:
  "pipe_ok X (s\<lparr>qp_presentation_dirty := b\<rparr>) = pipe_ok X s" "pipe_ok X (s\<lparr>qp_rows := r\<rparr>) = pipe_ok X s"
  "pipe_ok X (s\<lparr>qp_visible_generation := v\<rparr>) = pipe_ok X s" "pipe_ok X (s\<lparr>qp_presented_pending := pp\<rparr>) = pipe_ok X s"
  "pipe_ok X (s\<lparr>qp_query := q\<rparr>) = pipe_ok X s" "pipe_ok X (s\<lparr>qp_last_intake_drain_at := t\<rparr>) = pipe_ok X s"
  "pipe_ok X (s\<lparr>qp_pending_cancellations := c\<rparr>) = pipe_ok X s" "pipe_ok X (s\<lparr>qp_profile_overrides := po\<rparr>) = pipe_ok X s"
  "pipe_ok X (s\<lparr>qp_icons := b\<rparr>) = pipe_ok X s" "pipe_ok X (s\<lparr>qp_dropped_errors := n\<rparr>) = pipe_ok X s"
  by (simp_all add: pipe_parts registries_ok_def)

lemma pipe_sched:
  assumes ok: "pipe_ok X s" and st: "steady (qp_scheduler s) sched" and inv: "sched_inv sched"
    and frame: "qs_shutdown sched = qs_shutdown (qp_scheduler s)" "qs_config sched = qs_config (qp_scheduler s)"
      "qs_generations sched = qs_generations (qp_scheduler s)"
    and depth: "qp_generation s \<noteq> 0 \<Longrightarrow> qs_result_queue_depth sched = n"
  shows "pipe_ok X (s\<lparr>qp_scheduler := sched, qp_unranked_batches := n\<rparr>)" (is "pipe_ok X ?t")
proof -
  have "slots_ok X ?t" by (rule slots_cong [OF pipe_okD(4) [OF ok]]) (use st in \<open>simp_all add: steady_def\<close>)
  moreover have "watermarks_ok ?t" by (rule watermarks_heap [OF pipe_okD(3) [OF ok]]) simp_all
  moreover have "registries_ok ?t" using pipe_okD(2) [OF ok] st by (simp add: registries_ok_def steady_def)
  ultimately show ?thesis using ok inv frame depth by (simp add: pipe_parts sched_current_generation_def)
qed

lemma pipe_sched_only:
  assumes "pipe_ok X s" and "steady (qp_scheduler s) sched" and "sched_inv sched"
    and "qs_shutdown sched = qs_shutdown (qp_scheduler s)" "qs_config sched = qs_config (qp_scheduler s)"
      "qs_generations sched = qs_generations (qp_scheduler s)"
    and "qs_result_queue_depth sched = qs_result_queue_depth (qp_scheduler s)"
  shows "pipe_ok X (s\<lparr>qp_scheduler := sched\<rparr>)"
proof -
  have "qp_generation s \<noteq> 0 \<Longrightarrow> qs_result_queue_depth sched = qp_unranked_batches s"
    using assms(1,7) by (simp add: pipe_parts)
  then have "pipe_ok X (s\<lparr>qp_scheduler := sched, qp_unranked_batches := qp_unranked_batches s\<rparr>)"
    using assms by (intro pipe_sched) simp_all
  then show ?thesis by simp
qed

lemma pipe_results:
  assumes ok: "pipe_ok X s" and "intake_ok i" and "ag_ok a" and "iq_gate i = iq_gate (qp_intake s)"
    and "ag_gate a = ag_gate (qp_aggregator s)" and "iq_members i = iq_members (qp_intake s)"
    and "iq_limits i = iq_limits (qp_intake s)"
  shows "pipe_ok X (s\<lparr>qp_intake := i, qp_aggregator := a\<rparr>)" (is "pipe_ok X ?t")
proof -
  have "slots_ok X ?t" by (rule slots_cong [OF pipe_okD(4) [OF ok]]) simp_all
  moreover have "watermarks_ok ?t" by (rule watermarks_heap [OF pipe_okD(3) [OF ok]]) simp_all
  moreover have "registries_ok ?t" using pipe_okD(2) [OF ok] assms(6) by (simp add: registries_ok_def)
  ultimately show ?thesis using ok assms by (simp add: pipe_parts)
qed

lemma same_frame_members: "same_frame s t \<Longrightarrow> iq_members t = iq_members s \<and> iq_gate t = iq_gate s \<and> iq_limits t = iq_limits s"
proof -
  assume fr: "same_frame s t"
  then have "map_of (iq_plugins t) p = None \<longleftrightarrow> map_of (iq_plugins s) p = None" for p
    using registered_iff [of s p] registered_iff [of t p] by (simp add: same_frame_def)
  then show ?thesis using fr by (auto simp: iq_members_def dom_def iq_gate_def same_frame_def)
qed

section \<open>Draining\<close>

lemma sum_list_strict_mono_at:
  "p \<in> set ks \<Longrightarrow> f p < g p \<Longrightarrow> (\<And>k. f k \<le> g k) \<Longrightarrow> (\<Sum>k \<leftarrow> ks. f k) < (\<Sum>k \<leftarrow> ks. g k)" for f g :: "'a \<Rightarrow> nat"
proof (induction ks)
  case (Cons k ks)
  have "(\<Sum>k \<leftarrow> ks. f k) \<le> (\<Sum>k \<leftarrow> ks. g k)" by (rule sum_list_mono) (rule Cons.prems(3))
  with Cons show ?case using Cons.prems(3) [of k] by (cases "k = p") (auto simp: add_less_le_mono add_le_less_mono)
qed simp

lemma parts_empty: "(\<And>p. part p hs = []) \<Longrightarrow> hs = []"
proof (cases hs)
  case (Cons h hs')
  moreover assume "\<And>p. part p hs = []"
  then have "part (fst h) hs = []" .
  ultimately show ?thesis by (simp add: case_prod_beta)
qed simp

lemma hand_over_ok:
  "ag_ok a \<Longrightarrow> ag_ok (fst (hand_over ag_accept hs a)) \<and> ag_gate (fst (hand_over ag_accept hs a)) = ag_gate a"
proof (induction hs arbitrary: a)
  case (Cons h hs)
  obtain p e where h: "h = (p, e)" by force
  let ?a = "fst (ag_accept a (ib_batch (en_inbound e)))"
  have "ag_ok ?a" "ag_gate ?a = ag_gate a"
    using ag_ok_exec [OF Cons.prems, of "AgAccept (ib_batch (en_inbound e))"]
      exec_gate [OF Cons.prems, of "AgAccept (ib_batch (en_inbound e))"] by simp_all
  with Cons.IH [of ?a] show ?case by (simp add: h Let_def case_prod_beta)
qed simp

text \<open>
  A drain into the aggregator: what it keeps, and how much it merges. Before the first query
  there is nothing to merge.
\<close>

lemma drain_returns:
  assumes "pipe_ok X s" and "dg_items_per_plugin budget \<le> usize_max"
  obtains i a report where "drain_into ag_accept now budget (qp_intake s) (qp_aggregator s) = Some (i, a, report)"
  by (rule drain_into_hands [OF pipe_okD(5) [OF assms(1)] assms(2), of ag_accept now "qp_aggregator s"])

lemma drain_results:
  assumes ok: "pipe_ok X s" and budget: "dg_items_per_plugin budget \<le> usize_max"
    and d: "drain_into ag_accept now budget (qp_intake s) (qp_aggregator s) = Some (i, a, report)"
  shows "pipe_ok X (s\<lparr>qp_intake := i, qp_aggregator := a\<rparr>)"
    and "length (rp_merged_batches report) \<le> dg_total_batches budget"
    and "qp_generation s = 0 \<Longrightarrow> rp_merged_batches report = []"
    and "iq_total_batches i \<le> iq_total_batches (qp_intake s)"
    and "0 < dg_batches_per_plugin budget \<Longrightarrow> 0 < dg_total_batches budget \<Longrightarrow> 0 < iq_total_batches (qp_intake s) \<Longrightarrow>
      iq_total_batches i < iq_total_batches (qp_intake s)"
proof -
  obtain hs where hs: "intake_ok i" "same_frame (qp_intake s) i" "a = fst (hand_over ag_accept hs (qp_aggregator s))"
    "report = extended (empty_report (iq_total_batches (qp_intake s) - (\<Sum>k \<leftarrow> iq_order (qp_intake s). length (live_of (qp_intake s) k)))) hs
      (snd (hand_over ag_accept hs (qp_aggregator s)))"
    "\<And>p. live_of (qp_intake s) p = part p hs @ entries_of i p"
    "fair_share budget (drain_order (qp_intake s)) (live_of (qp_intake s)) (dg_total_batches budget) hs"
    by (rule drain_into_hands [OF pipe_okD(5) [OF ok] budget, of ag_accept now "qp_aggregator s"]) (simp add: d)
  show "pipe_ok X (s\<lparr>qp_intake := i, qp_aggregator := a\<rparr>)"
    using same_frame_members [OF hs(2)] hand_over_ok [OF pipe_okD(6) [OF ok]] hs(1,3) by (intro pipe_results [OF ok]) simp_all
  have merged: "rp_merged_batches report = merged_of hs (snd (hand_over ag_accept hs (qp_aggregator s)))"
    by (simp add: hs(4) extended_def empty_report_def)
  have le: "length (merged_of hs rs) \<le> length hs" for rs
    by (simp add: merged_of_def) (metis length_filter_le length_zip min.bounded_iff le_trans)
  show "length (rp_merged_batches report) \<le> dg_total_batches budget"
    using le hs(6) unfolding merged fair_share_def by (meson le_trans)
  show "rp_merged_batches report = []" if "qp_generation s = 0"
  proof -
    have "iq_active (qp_intake s) = None" using ok that by (simp add: pipe_parts iq_gate_def opened_def)
    then have "live_of (qp_intake s) p = []" for p by (simp add: live_of_def obsolete_def)
    then have "part p hs = []" for p using hs(5) [of p] by simp
    then have "hs = []" by (rule parts_empty)
    then show ?thesis using le [of "snd (hand_over ag_accept hs (qp_aggregator s))"] by (simp add: merged)
  qed
  have order: "iq_order i = iq_order (qp_intake s)" using hs(2) by (simp add: same_frame_def)
  note totals = totals_by_order(1) [OF hs(1)] totals_by_order(1) [OF pipe_okD(5) [OF ok]]
  have each: "length (entries_of i k) \<le> length (entries_of (qp_intake s) k)" for k
    using hs(5) [of k] live_of_le(1) [of "qp_intake s" k] by simp
  show "iq_total_batches i \<le> iq_total_batches (qp_intake s)"
    unfolding totals order by (rule sum_list_mono) (rule each)
  show "iq_total_batches i < iq_total_batches (qp_intake s)"
    if serve: "0 < dg_batches_per_plugin budget" "0 < dg_total_batches budget" and some: "0 < iq_total_batches (qp_intake s)"
  proof (cases "hs = []")
    case True
    have "live_of (qp_intake s) k = []" if "k \<in> set (iq_order (qp_intake s))" for k
      using hs(6) serve that True by (auto simp: fair_share_def drain_order_def)
    then have "entries_of i k = []" if "k \<in> set (iq_order i)" for k using hs(5) [of k] that order by simp
    then have "iq_total_batches i = 0" by (simp add: totals)
    with some show ?thesis by simp
  next
    case False
    then obtain p e where pe: "(p, e) \<in> set hs" by (metis list.set_intros(1) neq_Nil_conv surj_pair)
    then have "p \<in> set (iq_order (qp_intake s))" using hs(6) by (force simp: fair_share_def drain_order_def)
    moreover have "part p hs \<noteq> []" using pe by (auto simp: filter_empty_conv)
    then have "length (entries_of i p) < length (entries_of (qp_intake s) p)"
      using hs(5) [of p] live_of_le(1) [of "qp_intake s" p] by (cases "part p hs") simp_all
    ultimately show ?thesis
      unfolding totals order by (intro sum_list_strict_mono_at) (use each in auto)
  qed
qed

text \<open>
  Telling the scheduler of a merged batch. As long as there is room in its result queue a
  batch is never turned away for want of it; it may still be stale, when its request was
  retired or cancelled while the batch was queued.
\<close>

definition noted :: "nat \<Rightarrow> query_pipeline \<Rightarrow> query_pipeline \<Rightarrow> bool" where
  "noted k s s' \<longleftrightarrow>
     (\<exists>sched n d. s' = s\<lparr>qp_scheduler := sched, qp_unranked_batches := n, qp_presentation_dirty := d\<rparr>
        \<and> n \<le> qp_unranked_batches s + k \<and> (n \<noteq> qp_unranked_batches s \<or> qp_presentation_dirty s \<longrightarrow> d)
        \<and> qp_unranked_batches s \<le> n)"

text \<open>
  A merged batch answers a request that is still in flight and not cancelled, of the newest
  generation. The scheduler takes the others for stale, and the pipeline reports them.
\<close>

definition answers :: "query_scheduler \<Rightarrow> merged_batch \<Rightarrow> bool" where
  "answers sched m \<longleftrightarrow> live_request sched (mb_plugin m) (mb_generation m)"

definition stale_merge :: "merged_batch \<Rightarrow> pipeline_error" where
  "stale_merge m = PlAggregatorRejected (mb_plugin m) (mb_generation m) RejStaleGeneration"

lemma live_request_view:
  "live_request s p g \<longleftrightarrow> g = sched_current_generation s
     \<and> (case view s p of None \<Rightarrow> False
        | Some st \<Rightarrow> list_ex (\<lambda>r. if_generation r = g \<and> if_cancel_reason r = None) (ps_in_flight st))"
  by (simp add: live_request_def view_def strip_def split: option.split)

lemma live_request_quiet: "quiet s s' \<Longrightarrow> live_request s' p g = live_request s p g"
  by (simp add: live_request_view view_quiet) (simp add: quiet_def sched_current_generation_def)

lemma live_request_observe: "live_request (fst (observe_now s now)) p g = live_request s p g"
  by (simp add: live_request_def)

lemma record_result_live:
  "list_ex (\<lambda>r. if_generation r = g \<and> if_cancel_reason r = None) (update_first P (record_result c) rs)
     = list_ex (\<lambda>r. if_generation r = g \<and> if_cancel_reason r = None) rs"
  by (induction rs) (auto simp: record_result_def)

text \<open>Recording a batch neither ends nor cancels a request.\<close>

lemma record_result_batch_live:
  "live_request (fst (record_result_batch p g k completion now s)) q h = live_request s q h"
proof -
  let ?s = "fst (observe_now s now)"
  have push: "live_request (push_trace e u) q h = live_request u q h" for e u
    by (rule live_request_quiet) (rule quiet_push_trace)
  have count: "live_request (count_plugin p get upd n (count_diagnostic get' upd' n' u)) q h = live_request u q h"
    for get upd n get' upd' n' u
    by (rule live_request_quiet) (rule quiet_trans [OF quiet_count_diagnostic quiet_count_plugin])
  have marked: "live_request (modify_plugin p (\<lambda>st. st\<lparr>ps_in_flight := update_first P (record_result c) (ps_in_flight st)\<rparr>)
      (u\<lparr>qs_result_queue_depth := n\<rparr>)) q h = live_request u q h" for P c u n
    by (auto simp: live_request_def modify_plugin_def lookup_simps record_result_live sched_current_generation_def split: option.splits)
  show ?thesis
    by (simp add: record_result_batch_def Let_def case_prod_beta push count marked live_request_observe del: observe_now_fields)
qed

lemma answers_recorded: "answers (fst (record_result_batch p g k completion now s)) = answers s"
  by (simp add: answers_def fun_eq_iff record_result_batch_live)

lemma noted_refl [simp]: "noted 0 s s"
proof -
  have "s = s\<lparr>qp_scheduler := qp_scheduler s, qp_unranked_batches := qp_unranked_batches s, qp_presentation_dirty := qp_presentation_dirty s\<rparr>"
    by simp
  then show ?thesis unfolding noted_def by (metis add.right_neutral order_refl)
qed

lemma noted_trans: "noted j s t \<Longrightarrow> noted k t u \<Longrightarrow> noted (j + k) s u"
proof -
  assume "noted j s t" "noted k t u"
  then obtain sched n d sched' n' d' where
    "t = s\<lparr>qp_scheduler := sched, qp_unranked_batches := n, qp_presentation_dirty := d\<rparr>" "n \<le> qp_unranked_batches s + j"
    "n \<noteq> qp_unranked_batches s \<or> qp_presentation_dirty s \<longrightarrow> d" "qp_unranked_batches s \<le> n"
    "u = t\<lparr>qp_scheduler := sched', qp_unranked_batches := n', qp_presentation_dirty := d'\<rparr>" "n' \<le> qp_unranked_batches t + k"
    "n' \<noteq> qp_unranked_batches t \<or> qp_presentation_dirty t \<longrightarrow> d'" "qp_unranked_batches t \<le> n'" unfolding noted_def by blast
  then show ?thesis unfolding noted_def by (intro exI [of _ sched'] exI [of _ n'] exI [of _ d']) auto
qed

lemma noted_fields:
  assumes "noted k s s'"
  shows "qp_generation s' = qp_generation s" "qp_registered s' = qp_registered s" "qp_intake s' = qp_intake s"
    "qp_aggregator s' = qp_aggregator s" "qp_pending_errors s' = qp_pending_errors s" "qp_error_capacity s' = qp_error_capacity s"
    "qp_rows s' = qp_rows s" "qp_visible_generation s' = qp_visible_generation s" "qp_query s' = qp_query s"
    "qp_last_intake_drain_at s' = qp_last_intake_drain_at s" "qp_drain_budget s' = qp_drain_budget s"
    "qp_result_trace_capacity s' = qp_result_trace_capacity s" "qp_unranked_batches s' \<le> qp_unranked_batches s + k"
  using assms by (auto simp: noted_def)

lemma note_merged_ok:
  assumes ok: "pipe_ok X s" and gen: "qp_generation s \<noteq> 0" and room: "qp_unranked_batches s < qp_result_trace_capacity s"
    and m: "note_merged m (s, es) = (s', es')"
  shows "pipe_ok X s'" and "noted 1 s s'"
    and "es' = es @ (if answers (qp_scheduler s) m then [] else [stale_merge m])"
    and "qp_unranked_batches s' = qp_unranked_batches s + (if answers (qp_scheduler s) m then 1 else 0)"
    and "answers (qp_scheduler s') = answers (qp_scheduler s)"
proof -
  note inv = pipe_okD(1) [OF ok]
  obtain sched adm where r: "record_result_batch (mb_plugin m) (mb_generation m) (mb_items m) (batch_completion_of (mb_state m))
      (mb_admitted_at m) (qp_scheduler s) = (sched, adm)" by fastforce
  have sched: "sched = fst (record_result_batch (mb_plugin m) (mb_generation m) (mb_items m) (batch_completion_of (mb_state m))
      (mb_admitted_at m) (qp_scheduler s))" and adm: "adm = snd (record_result_batch (mb_plugin m) (mb_generation m) (mb_items m)
      (batch_completion_of (mb_state m)) (mb_admitted_at m) (qp_scheduler s))" by (simp_all add: r)
  have depth: "qs_result_queue_depth (qp_scheduler s) = qp_unranked_batches s" using ok gen by (simp add: pipe_parts)
  have full: "adm \<noteq> RejectedResultQueueFull"
    using result_batch_full room ok depth unfolding adm by (force simp: pipe_parts)
  have stale: "adm = StaleRejected \<longleftrightarrow> \<not> answers (qp_scheduler s) m"
    by (simp add: adm record_result_batch_stale_iff answers_def)
  then have adm_eq: "adm = (if answers (qp_scheduler s) m then BatchAccepted else StaleRejected)"
    using full by (cases adm) auto
  have cap: "qp_unranked_batches s + 1 \<le> usize_max" using room ok by (simp add: pipe_parts)
  define n where "n = (if adm = BatchAccepted then usize_sat_add (qp_unranked_batches s) 1 else qp_unranked_batches s)"
  have n: "n = (if adm = BatchAccepted then qp_unranked_batches s + 1 else qp_unranked_batches s)"
    using cap by (simp add: n_def usize_sat_add_def)
  have "qs_result_queue_depth sched = n" unfolding sched adm n_def result_batch_depth by (simp add: depth)
  then have okn: "pipe_ok X (s\<lparr>qp_scheduler := sched, qp_unranked_batches := n\<rparr>)"
    by (intro pipe_sched [OF ok]) (simp_all add: sched inv_record_result_batch [OF inv] steady_result_ops)
  have s': "s' = s\<lparr>qp_scheduler := sched, qp_unranked_batches := n, qp_presentation_dirty := (adm = BatchAccepted \<or> qp_presentation_dirty s)\<rparr>"
    using m full by (cases adm) (auto simp: note_merged_def r n_def)
  have "pipe_ok X ((s\<lparr>qp_scheduler := sched, qp_unranked_batches := n\<rparr>)\<lparr>qp_presentation_dirty := (adm = BatchAccepted \<or> qp_presentation_dirty s)\<rparr>)"
    by (simp only: pipe_irrelevant okn)
  then show "pipe_ok X s'" by (simp add: s')
  show "noted 1 s s'" unfolding noted_def
    by (intro exI [of _ sched] exI [of _ n] exI [of _ "adm = BatchAccepted \<or> qp_presentation_dirty s"]) (simp add: s' n)
  show "es' = es @ (if answers (qp_scheduler s) m then [] else [stale_merge m])"
    using m by (auto simp: note_merged_def r stale_merge_def adm_eq)
  show "qp_unranked_batches s' = qp_unranked_batches s + (if answers (qp_scheduler s) m then 1 else 0)"
    by (simp add: s' n adm_eq)
  show "answers (qp_scheduler s') = answers (qp_scheduler s)" by (simp add: s' sched answers_recorded)
qed

lemma note_all_ok:
  "pipe_ok X s \<Longrightarrow> (ms \<noteq> [] \<longrightarrow> qp_generation s \<noteq> 0) \<Longrightarrow> qp_unranked_batches s + length ms \<le> qp_result_trace_capacity s \<Longrightarrow>
   fold note_merged ms (s, es) = (s', es') \<Longrightarrow>
   pipe_ok X s' \<and> noted (length ms) s s'
   \<and> es' = es @ map stale_merge (filter (\<lambda>m. \<not> answers (qp_scheduler s) m) ms)
   \<and> qp_unranked_batches s' = qp_unranked_batches s + length (filter (answers (qp_scheduler s)) ms)"
proof (induction ms arbitrary: s es)
  case (Cons m ms)
  obtain t et where t: "note_merged m (s, es) = (t, et)" by fastforce
  have gen: "qp_generation s \<noteq> 0" and room: "qp_unranked_batches s < qp_result_trace_capacity s" using Cons.prems(2,3) by simp_all
  note one = note_merged_ok [OF Cons.prems(1) gen room t]
  have "pipe_ok X s' \<and> noted (length ms) t s'
      \<and> es' = et @ map stale_merge (filter (\<lambda>m. \<not> answers (qp_scheduler t) m) ms)
      \<and> qp_unranked_batches s' = qp_unranked_batches t + length (filter (answers (qp_scheduler t)) ms)"
    using noted_fields [OF one(2)] Cons.prems(2-4) t by (intro Cons.IH [OF one(1)]) simp_all
  moreover from this have "noted (length (m # ms)) s s'" using noted_trans [OF one(2), of "length ms" s'] by simp
  ultimately show ?case using one(3-5) by simp
qed simp

end
