(* ===== verification/Pipeline_Ops.thy ===== *)
theory Pipeline_Ops
  imports Pipeline_Drain
begin

text \<open>
  Every public operation of the pipeline keeps its invariant, and none of them panics: the
  lockstep of the registries is what the source's \<open>expect\<close> calls rely on.
\<close>

section \<open>Draining\<close>

text \<open>What a drain may change, and that it makes progress when it is due and there is room.\<close>

definition passed :: "query_pipeline \<Rightarrow> query_pipeline \<Rightarrow> bool" where
  "passed s s' \<longleftrightarrow>
     qp_generation s' = qp_generation s \<and> qp_registered s' = qp_registered s \<and> qp_budgets s' = qp_budgets s
     \<and> qp_pending_errors s' = qp_pending_errors s \<and> qp_error_capacity s' = qp_error_capacity s
     \<and> qp_rows s' = qp_rows s \<and> qp_visible_generation s' = qp_visible_generation s \<and> qp_query s' = qp_query s
     \<and> qp_drain_budget s' = qp_drain_budget s \<and> qp_result_trace_capacity s' = qp_result_trace_capacity s
     \<and> (qp_unranked_batches s' \<noteq> qp_unranked_batches s \<or> qp_presentation_dirty s \<longrightarrow> qp_presentation_dirty s')
     \<and> qp_unranked_batches s \<le> qp_unranked_batches s' \<and> qp_unranked_batches s' \<le> max (qp_result_trace_capacity s) (qp_unranked_batches s)
     \<and> iq_total_batches (qp_intake s') \<le> iq_total_batches (qp_intake s)"

text \<open>
  The errors of a drain that merged and refused what its report says: the merged batches the
  scheduler takes for stale, and the aggregator's refusals.
\<close>

definition drain_errors :: "query_pipeline \<Rightarrow> drain_report \<Rightarrow> pipeline_error list" where
  "drain_errors s report =
     map stale_merge (filter (\<lambda>m. \<not> answers (qp_scheduler s) m) (rp_merged_batches report))
     @ map (\<lambda>(plugin, reason). PlAggregatorRejected plugin (qp_generation s) reason) (rp_merge_rejected report)"

definition answered :: "query_pipeline \<Rightarrow> drain_report \<Rightarrow> nat" where
  "answered s report = length (filter (answers (qp_scheduler s)) (rp_merged_batches report))"

lemma drain_errors_empty [simp]: "drain_errors s (empty_report n) = []" "answered s (empty_report n) = 0"
  by (simp_all add: drain_errors_def answered_def empty_report_def)

lemma passed_refl [simp]: "passed s s"
  by (simp add: passed_def)

lemma passed_retires: "passed s t \<Longrightarrow> retires t u \<Longrightarrow> passed s u"
  using retires_fields [of t u] by (simp add: passed_def)

lemma drain_intake_ok:
  assumes ok: "pipe_ok {} s"
  obtains s' report es where "drain_intake now s = Some (s', report, es)" and "pipe_ok {} s'" and "passed s s'"
    and "es = drain_errors s report" and "qp_unranked_batches s' = qp_unranked_batches s + answered s report"
    and "qp_last_intake_drain_at s \<noteq> Some now \<and> 0 < iq_total_batches (qp_intake s)
      \<and> qp_unranked_batches s < qp_result_trace_capacity s \<longrightarrow> iq_total_batches (qp_intake s') < iq_total_batches (qp_intake s)"
proof (cases "qp_last_intake_drain_at s = Some now \<or> iq_total_batches (qp_intake s) = 0")
  case True
  then show thesis using that [of s "empty_report 0" "[]"] ok by (auto simp: drain_intake_def intake_depth_def)
next
  case False
  have serve: "serving (qp_drain_budget s)" using ok by (simp add: pipe_parts)
  then have items: "dg_items_per_plugin (drain_budget_now s) \<le> usize_max" by (simp add: drain_budget_now_def serving_def)
  obtain i a report where d: "drain_into ag_accept now (drain_budget_now s) (qp_intake s) (qp_aggregator s) = Some (i, a, report)"
    by (rule drain_returns [OF ok items])
  note drained = drain_results [OF ok items d]
  define s1 where "s1 = s\<lparr>qp_last_intake_drain_at := Some now, qp_intake := i, qp_aggregator := a\<rparr>"
  have "s1 = (s\<lparr>qp_intake := i, qp_aggregator := a\<rparr>)\<lparr>qp_last_intake_drain_at := Some now\<rparr>" by (simp add: s1_def)
  then have ok1: "pipe_ok {} s1" using drained(1) by (simp only: pipe_irrelevant)
  have total: "length (rp_merged_batches report) \<le> qp_result_trace_capacity s - qp_unranked_batches s"
    using drained(2) by (simp add: drain_budget_now_def)
  obtain s2 es where fold: "fold note_merged (rp_merged_batches report) (s1, []) = (s2, es)" by fastforce
  have "pipe_ok {} s2 \<and> noted (length (rp_merged_batches report)) s1 s2
      \<and> es = map stale_merge (filter (\<lambda>m. \<not> answers (qp_scheduler s) m) (rp_merged_batches report))
      \<and> qp_unranked_batches s2 = qp_unranked_batches s + answered s report"
  proof (cases "rp_merged_batches report = []")
    case True
    with fold ok1 show ?thesis by (auto simp: answered_def s1_def)
  next
    case some: False
    have "qp_unranked_batches s1 + length (rp_merged_batches report) \<le> qp_result_trace_capacity s1"
      using total some by (cases "rp_merged_batches report") (simp_all add: s1_def)
    then show ?thesis
      using note_all_ok [OF ok1 _ _ fold] drained(3) some by (auto simp: s1_def answered_def)
  qed
  then have ok2: "pipe_ok {} s2" and noted: "noted (length (rp_merged_batches report)) s1 s2"
    and stale: "es = map stale_merge (filter (\<lambda>m. \<not> answers (qp_scheduler s) m) (rp_merged_batches report))"
    and unranked: "qp_unranked_batches s2 = qp_unranked_batches s + answered s report"
    by simp_all
  define es' where "es' = es @ map (\<lambda>(plugin, reason). PlAggregatorRejected plugin (qp_generation s2) reason) (rp_merge_rejected report)"
  obtain s3 where s3: "flush_ready_completions (rp_merged_batches report) s2 = Some s3" "pipe_ok {} s3" "retires s2 s3"
    by (rule flush_ok [OF ok2])
  obtain s4 where s4: "sync_health s3 = Some s4" "pipe_ok {} s4" "health_change s3 s4" by (rule sync_health_pipe [OF s3(2)])
  note ret = retires_trans [OF s3(3) health_retires [OF s4(3)]]
  have "passed s s2"
  proof -
    from noted obtain sched n b where s2: "s2 = s1\<lparr>qp_scheduler := sched, qp_unranked_batches := n, qp_presentation_dirty := b\<rparr>"
      and n: "n \<le> qp_unranked_batches s1 + length (rp_merged_batches report)" "qp_unranked_batches s1 \<le> n"
      and b: "n \<noteq> qp_unranked_batches s1 \<or> qp_presentation_dirty s1 \<longrightarrow> b" unfolding noted_def by blast
    have "n \<le> max (qp_result_trace_capacity s) (qp_unranked_batches s)"
      using n(1) total by (simp add: s1_def max_def) linarith
    with n b drained(4) show ?thesis by (simp add: passed_def s2 s1_def)
  qed
  then have "passed s s4" by (rule passed_retires [OF _ ret])
  moreover have "drain_intake now s = Some (s4, report, es')"
    using False d fold s3(1) s4(1) by (simp add: drain_intake_def intake_depth_def s1_def [symmetric] es'_def)
  moreover have "qp_generation s2 = qp_generation s" using noted_fields(1) [OF noted] by (simp add: s1_def)
  then have "es' = drain_errors s report" by (simp add: es'_def stale drain_errors_def)
  moreover have "qp_unranked_batches s4 = qp_unranked_batches s + answered s report"
    using retires_fields [OF ret] unranked by simp
  moreover have "qp_intake s4 = i" using retires_fields(3) [OF ret] noted_fields(3) [OF noted] by (simp add: s1_def)
  ultimately show thesis
    using that [of s4 report es'] s4(2) drained(5) serve False by (auto simp: serving_def drain_budget_now_def)
qed

section \<open>Typing\<close>

text \<open>
  What presenting relies on: after the first query the visible generation is the newest, and
  batches the ranking has not seen leave the presentation dirty.
\<close>

definition screen_ok :: "query_pipeline \<Rightarrow> bool" where
  "screen_ok s \<longleftrightarrow>
     (qp_generation s \<noteq> 0 \<longrightarrow> qp_visible_generation s = Some (qp_generation s))
     \<and> (0 < qp_unranked_batches s \<longrightarrow> qp_presentation_dirty s)"

lemma screen_passed: "passed s s' \<Longrightarrow> screen_ok s \<Longrightarrow> screen_ok s'"
  unfolding passed_def screen_ok_def by auto

lemma screen_retires: "retires s s' \<Longrightarrow> screen_ok s \<Longrightarrow> screen_ok s'"
  using passed_retires [OF passed_refl] screen_passed by blast

lemma opened_next: "g \<noteq> - 1 \<Longrightarrow> gate_begin (g + 1) (opened g) = opened (g + 1)"
proof -
  assume "g \<noteq> - 1"
  then have "g < g + 1" "g + 1 \<noteq> 0" by (simp_all add: word_inc_less eq_neg_iff_add_eq_0)
  then show ?thesis by (auto simp: gate_begin_def opened_def not_less)
qed

lemma capture_commute:
  "capture_cancellations (s\<lparr>qp_intake := i, qp_aggregator := a\<rparr>) = (capture_cancellations s)\<lparr>qp_intake := i, qp_aggregator := a\<rparr>"
proof -
  have one: "capture_cancellation c (s\<lparr>qp_intake := i, qp_aggregator := a\<rparr>) = (capture_cancellation c s)\<lparr>qp_intake := i, qp_aggregator := a\<rparr>"
    for c s by (simp add: capture_cancellation_def Let_def)
  have all: "fold capture_cancellation cs (s\<lparr>qp_intake := i, qp_aggregator := a\<rparr>) = (fold capture_cancellation cs s)\<lparr>qp_intake := i, qp_aggregator := a\<rparr>"
    for cs s by (induction cs arbitrary: s) (simp_all add: one)
  have "fold capture_cancellation cs (s\<lparr>qp_intake := i, qp_aggregator := a, qp_scheduler := x\<rparr>)
      = (fold capture_cancellation cs (s\<lparr>qp_scheduler := x\<rparr>))\<lparr>qp_intake := i, qp_aggregator := a\<rparr>" for cs x
    unfolding all [symmetric] by (rule arg_cong [of _ _ "fold capture_cancellation cs"]) simp
  then show ?thesis by (simp add: capture_cancellations_def case_prod_beta)
qed

lemma begin_members: "iq_members (intake_begin_generation g s) = iq_members s"
  by (simp add: iq_members_def intake_begin_generation_def)

lemma begin_limits: "iq_limits (intake_begin_generation g s) = iq_limits s"
  by (simp add: intake_begin_generation_def)

lemma keystroke_ok:
  assumes ok: "pipe_ok {} s" and fresh: "qp_generation s \<noteq> - 1"
  obtains s' where "keystroke text now s = Some (s', qp_generation s + 1)" and "pipe_ok {} s'" and "screen_ok s'"
    and "qp_generation s' = qp_generation s + 1" and "qp_registered s' = qp_registered s"
    and "qp_pending_errors s' = qp_pending_errors s" and "qp_rows s' = []" and "qp_query s' = text"
proof -
  note inv = pipe_okD(1) [OF ok]
  define g where "g = qp_generation s + 1"
  have cur: "sched_current_generation (qp_scheduler s) = qp_generation s" using ok by (simp add: pipe_parts)
  obtain sched where sub: "submit_query text now (qp_scheduler s) = Some (sched, g)"
    and sched: "sched_inv sched" "sched_current_generation sched = g" "qs_shutdown sched = qs_shutdown (qp_scheduler s)"
    using submit_query_inv [OF inv] fresh cur by (metis g_def)
  note st = steady_submit [OF inv sub] and depth = depth_submit [OF sub] and config = submit_config [OF sub]
  let ?i = "intake_begin_generation g (qp_intake s)" and ?a = "ag_begin_generation g (qp_aggregator s)"
  define s1 where "s1 = s\<lparr>qp_scheduler := sched, qp_query := text, qp_generation := g, qp_unranked_batches := 0,
      qp_last_intake_drain_at := None\<rparr>"
  define t where "t = s1\<lparr>qp_intake := ?i, qp_aggregator := ?a\<rparr>"
  have "g \<noteq> 0" using fresh by (simp add: g_def eq_neg_iff_add_eq_0)
  have gates: "iq_gate ?i = opened g" "ag_gate ?a = opened g"
    using ok opened_next [OF fresh] by (simp_all add: iq_gates.begin_refines ag_gates.begin_refines pipe_parts g_def)
  have "pipe_ok {} t"
  proof -
    have "slots_ok {} t"
      by (rule slots_cong [OF pipe_okD(4) [OF ok]]) (use st in \<open>simp_all add: steady_def t_def s1_def\<close>)
    moreover have "watermarks_ok t" by (rule watermarks_heap [OF pipe_okD(3) [OF ok]]) (simp_all add: t_def s1_def)
    moreover have "registries_ok t"
      using pipe_okD(2) [OF ok] st begin_members by (simp add: registries_ok_def t_def s1_def steady_def)
    ultimately show ?thesis
      using ok sched depth config gates intake_ok_begin [OF pipe_okD(5) [OF ok]] ag_ok_exec [OF pipe_okD(6) [OF ok], of "AgBegin g"]
      by (simp add: pipe_parts t_def s1_def begin_limits)
  qed
  then obtain sched' unres canc where cap: "capture_cancellations t = t\<lparr>qp_scheduler := sched', qp_unresolved_cancellations := unres,
      qp_pending_cancellations := canc\<rparr>" and okc: "pipe_ok {} (capture_cancellations t)" by (rule capture_ok)
  define s2 where "s2 = (capture_cancellations t)\<lparr>qp_rows := [], qp_visible_generation := Some g, qp_presented_pending := None,
      qp_presentation_dirty := True\<rparr>"
  have s2: "(capture_cancellations s1)\<lparr>qp_intake := intake_begin_generation g (qp_intake (capture_cancellations s1)),
      qp_aggregator := ag_begin_generation g (qp_aggregator (capture_cancellations s1)),
      qp_rows := [], qp_visible_generation := Some g, qp_presented_pending := None, qp_presentation_dirty := True\<rparr> = s2"
  proof -
    obtain sched'' unres' canc' where c1: "capture_cancellations s1 = s1\<lparr>qp_scheduler := sched'',
        qp_unresolved_cancellations := unres', qp_pending_cancellations := canc'\<rparr>"
      using capture_all [of "snd (drain_cancellations (qp_scheduler s1))" "s1\<lparr>qp_scheduler := fst (drain_cancellations (qp_scheduler s1))\<rparr>"]
      by (auto simp: capture_cancellations_def case_prod_beta)
    then have "qp_intake (capture_cancellations s1) = qp_intake s" "qp_aggregator (capture_cancellations s1) = qp_aggregator s"
      by (simp_all add: s1_def)
    then show ?thesis by (simp add: s2_def t_def capture_commute)
  qed
  have ok2: "pipe_ok {} s2" using okc unfolding s2_def by (simp only: pipe_irrelevant)
  let ?b = "\<lparr>dg_batches_per_plugin = 0, dg_items_per_plugin = 0, dg_total_batches = 0\<rparr>"
  obtain i a report where d: "drain_into ag_accept now ?b (qp_intake s2) (qp_aggregator s2) = Some (i, a, report)"
    by (rule drain_returns [OF ok2, of ?b now]) simp
  have ok3: "pipe_ok {} (s2\<lparr>qp_intake := i, qp_aggregator := a\<rparr>)" by (rule drain_results(1) [OF ok2 _ d]) simp
  obtain s4 where s4: "flush_ready_completions [] (s2\<lparr>qp_intake := i, qp_aggregator := a\<rparr>) = Some s4" "pipe_ok {} s4"
    "retires (s2\<lparr>qp_intake := i, qp_aggregator := a\<rparr>) s4" by (rule flush_ok [OF ok3])
  obtain s5 where s5: "sync_health s4 = Some s5" "pipe_ok {} s5" "health_change s4 s5" by (rule sync_health_pipe [OF s4(2)])
  note ret = retires_trans [OF s4(3) health_retires [OF s5(3)]]
  have eq: "keystroke text now s = Some (s5, g)"
    using d [unfolded s2 [symmetric]] s4(1) [unfolded s2 [symmetric]] s5(1)
    by (simp add: keystroke_def sub s1_def [symmetric] Let_def)
  have fields: "qp_generation (capture_cancellations t) = g" "qp_registered (capture_cancellations t) = qp_registered s"
    "qp_pending_errors (capture_cancellations t) = qp_pending_errors s" "qp_query (capture_cancellations t) = text"
    "qp_unranked_batches (capture_cancellations t) = 0" unfolding cap by (simp_all add: t_def s1_def)
  then have "screen_ok (s2\<lparr>qp_intake := i, qp_aggregator := a\<rparr>)" by (simp add: screen_ok_def s2_def)
  then have "screen_ok s5" by (rule screen_retires [OF ret])
  with eq s5(2) retires_fields [OF ret] show thesis
    by (intro that [of s5]) (simp_all add: s2_def fields, simp_all add: g_def)
qed

section \<open>Ticks\<close>

lemma pipe_errors:
  assumes ok: "pipe_ok X s" and "length es \<le> qp_error_capacity s"
  shows "pipe_ok X (s\<lparr>qp_pending_errors := es\<rparr>)" (is "pipe_ok X ?t")
proof -
  have "slots_ok X ?t" by (rule slots_cong [OF pipe_okD(4) [OF ok]]) simp_all
  moreover have "watermarks_ok ?t" by (rule watermarks_heap [OF pipe_okD(3) [OF ok]]) simp_all
  ultimately show ?thesis using ok assms(2) by (simp add: pipe_parts registries_ok_def)
qed

definition dispatch_key :: "dispatched_request \<Rightarrow> request_id" where
  "dispatch_key d = (dr_plugin d, dr_generation d)"

lemma distinct_by_plugin:
  "(\<And>p. distinct (map dr_generation (filter (\<lambda>r. dr_plugin r = p) ds))) \<Longrightarrow> distinct (map dispatch_key ds)"
proof (induction ds)
  case (Cons d ds)
  have "distinct (map dr_generation (filter (\<lambda>r. dr_plugin r = p) ds))" for p
    using Cons.prems [of p] by (cases "dr_plugin d = p") simp_all
  moreover have "dispatch_key d \<notin> dispatch_key ` set ds"
    using Cons.prems [of "dr_plugin d"] by (force simp: dispatch_key_def)
  ultimately show ?case using Cons.IH by simp
qed simp

text \<open>The requests a tick hands out are new, in the air, and of registered plugins.\<close>

lemma tick_pipe:
  assumes ok: "pipe_ok {} s" and tick: "tick now (qp_scheduler s) = (sched, ds)"
  shows "pipe_ok (dispatch_key ` set ds) (s\<lparr>qp_scheduler := sched\<rparr>)" and "distinct (map dispatch_key ds)"
    and "\<And>d. d \<in> set ds \<Longrightarrow> dr_plugin d \<in> set (qp_registered s)"
proof -
  note inv = pipe_okD(1) [OF ok]
  have sched: "sched = fst (tick now (qp_scheduler s))" and ds: "ds = snd (tick now (qp_scheduler s))" by (simp_all add: tick)
  have mem: "sched_members sched = sched_members (qp_scheduler s)"
    and fl: "flights sched p = flights (qp_scheduler s) p @ map dr_generation (filter (\<lambda>r. dr_plugin r = p) ds)" for p
    using tick_launches [OF inv, of now] by (auto simp: launches_def tick)
  have inv': "sched_inv sched" unfolding sched by (rule inv_tick [OF inv])
  have dist: "distinct (flights (qp_scheduler s) p @ map dr_generation (filter (\<lambda>r. dr_plugin r = p) ds))" for p
    using flights_distinct [OF inv', of p] by (simp only: fl)
  show "distinct (map dispatch_key ds)"
    by (rule distinct_by_plugin) (use dist in auto)
  show "dr_plugin d \<in> set (qp_registered s)" if "d \<in> set ds" for d
  proof -
    have "dr_generation d \<in> set (flights sched (dr_plugin d))" using that by (auto simp: fl)
    then have "dr_plugin d \<in> sched_members sched" by (intro flights_member) auto
    with mem pipe_okD(2) [OF ok] show ?thesis by (simp add: registries_ok_def)
  qed
  have air: "set (flights (qp_scheduler s) p) = running s p" for p
    using pipe_okD(4) [OF ok] by (simp add: slots_ok_def airborne_ok_def)
  have keyset: "{g. (p, g) \<in> dispatch_key ` set ds} = dr_generation ` set (filter (\<lambda>r. dr_plugin r = p) ds)" for p
    by (auto simp: dispatch_key_def image_iff)
  have "(p, g) \<notin> set (qp_active_requests s)" if "(p, g) \<in> dispatch_key ` set ds" for p g
  proof -
    have "g \<in> dr_generation ` set (filter (\<lambda>r. dr_plugin r = p) ds)" using that keyset by blast
    with dist [of p] have "g \<notin> set (flights (qp_scheduler s) p)" by (auto simp: disjoint_iff)
    then show ?thesis by (simp add: air running_def)
  qed
  then have "dispatch_key ` set ds \<inter> set (qp_active_requests s) = {}" by force
  then have "slots_ok (dispatch_key ` set ds) (s\<lparr>qp_scheduler := sched\<rparr>)"
    using pipe_okD(4) [OF ok] ledger_cong [of s "s\<lparr>qp_scheduler := sched\<rparr>"]
    by (simp add: slots_ok_def airborne_ok_def fl air keyset) (simp add: running_def)
  moreover have "watermarks_ok (s\<lparr>qp_scheduler := sched\<rparr>)" by (rule watermarks_heap [OF pipe_okD(3) [OF ok]]) simp_all
  moreover have "registries_ok (s\<lparr>qp_scheduler := sched\<rparr>)" using pipe_okD(2) [OF ok] mem by (simp add: registries_ok_def)
  ultimately show "pipe_ok (dispatch_key ` set ds) (s\<lparr>qp_scheduler := sched\<rparr>)"
    using ok inv' tick_frame [OF inv, of now] by (simp add: pipe_parts sched sched_current_generation_def)
qed

text \<open>Admission touches the budgets and the books of running work only.\<close>

definition admits_to :: "query_pipeline \<Rightarrow> query_pipeline \<Rightarrow> bool" where
  "admits_to s s' \<longleftrightarrow> (\<exists>heap adm act. s' = s\<lparr>qp_heap := heap, qp_admitted := adm, qp_active_requests := act\<rparr>)"

lemma admits_to_trans: "admits_to s t \<Longrightarrow> admits_to t u \<Longrightarrow> admits_to s u"
  unfolding admits_to_def by (elim exE) (simp, blast)

lemma admits_to_retires: "admits_to s s' \<Longrightarrow> retires s s'"
proof -
  assume "admits_to s s'"
  then obtain heap adm act where "s' = s\<lparr>qp_scheduler := qp_scheduler s, qp_heap := heap, qp_admitted := adm,
      qp_active_requests := act, qp_unresolved_cancellations := qp_unresolved_cancellations s,
      qp_supervisor := qp_supervisor s, qp_health_sync := qp_health_sync s, qp_pending_completions := qp_pending_completions s\<rparr>"
    by (auto simp: admits_to_def)
  then show ?thesis unfolding retires_def by blast
qed

lemma admits_to_pipe:
  assumes ok: "pipe_ok X s" and to: "admits_to s s'" and slots: "slots_ok Y s'"
    and refs: "\<And>h kind. budget_refusals (qp_heap s ! h) kind \<le> budget_refusals (qp_heap s' ! h) kind"
  shows "pipe_ok Y s'"
proof -
  from to obtain heap adm act where s': "s' = s\<lparr>qp_heap := heap, qp_admitted := adm, qp_active_requests := act\<rparr>"
    by (auto simp: admits_to_def)
  have "watermarks_ok s'" by (rule watermarks_heap [OF pipe_okD(3) [OF ok] _ _ _ refs]) (simp_all add: s')
  with ok slots show ?thesis by (simp add: s' pipe_parts registries_ok_def)
qed

lemma admit_one:
  assumes ok: "pipe_ok X s" and key: "dispatch_key d \<in> X" and reg: "dr_plugin d \<in> set (qp_registered s)"
  obtains s' where "pipe_ok (X - {dispatch_key d}) s'" and "admits_to s s'"
      and "set (qp_active_requests s') = insert (dispatch_key d) (set (qp_active_requests s))"
      and "\<And>kept refused. admit_dispatch d (s, kept, refused) = (s', kept @ [d], refused)"
  | s' where "pipe_ok X s'" and "admits_to s s'" and "set (qp_active_requests s') = set (qp_active_requests s)"
      and "\<And>kept refused. admit_dispatch d (s, kept, refused) = (s', kept, refused @ [dispatch_key d])"
proof -
  have led: "ledger_ok s" and air: "airborne_ok X s" using pipe_okD(4) [OF ok] by (simp_all add: slots_ok_def)
  from registered_lookups(2) [OF pipe_okD(2) [OF ok], of "dr_plugin d"] reg
  obtain h where h: "map_of (qp_budgets s) (dr_plugin d) = Some h" by auto
  have hl: "h < length (qp_heap s)" using led h by (auto simp: ledger_ok_def cells_ok_def)
  obtain b granted where adm: "admit BkSuggestion (qp_heap s ! h) = (b, granted)" by fastforce
  have refs: "budget_refusals (qp_heap s ! k) kind \<le> budget_refusals ((qp_heap s)[h := b] ! k) kind" for k kind
    using admit_refusals [of "qp_heap s ! h" kind BkSuggestion] adm hl by (cases "k = h") simp_all
  have new: "dispatch_key d \<notin> set (qp_active_requests s)" using air key by (auto simp: airborne_ok_def)
  show thesis
  proof (cases granted)
    case True
    let ?s = "s\<lparr>qp_heap := (qp_heap s)[h := b], qp_admitted := AList.update (dispatch_key d) (h, BkSuggestion) (qp_admitted s),
      qp_active_requests := List.insert (dispatch_key d) (qp_active_requests s)\<rparr>"
    have "map_of (qp_admitted s) (dispatch_key d) = None"
      using led new by (auto simp: ledger_ok_def guards_ok_def simp del: map_of_eq_None_iff)
    then have eq: "admit_dispatch d (s, kept, refused) = (?s, kept @ [d], refused)" for kept refused
      using h adm True by (simp add: admit_dispatch_def Let_def try_acquire_owned_def admitted_insert_def dispatch_key_def)
    have "ledger_ok ?s"
      using admit_ledger [OF led h, of "dr_generation d" b] new adm True by (simp add: dispatch_key_def)
    moreover have "airborne_ok (X - {dispatch_key d}) ?s"
      using air key by (auto simp: airborne_ok_def running_def dispatch_key_def)
    ultimately have "pipe_ok (X - {dispatch_key d}) ?s"
      by (intro admits_to_pipe [OF ok]) (auto simp: admits_to_def slots_ok_def refs)
    then show thesis by (rule that(1) [OF _ _ _ eq]) (auto simp: admits_to_def)
  next
    case False
    let ?s = "s\<lparr>qp_heap := (qp_heap s)[h := b]\<rparr>"
    have eq: "admit_dispatch d (s, kept, refused) = (?s, kept, refused @ [dispatch_key d])" for kept refused
      using h adm False by (simp add: admit_dispatch_def Let_def try_acquire_owned_def dispatch_key_def)
    have to: "admits_to s ?s" unfolding admits_to_def
      by (intro exI [of _ "(qp_heap s)[h := b]"] exI [of _ "qp_admitted s"] exI [of _ "qp_active_requests s"]) simp
    have "ledger_ok ?s"
      by (rule refuse_ledger [OF led hl]) (use cell_admit [of "qp_heap s ! h"] adm False in auto)
    moreover have "airborne_ok X ?s" using air by (simp add: airborne_ok_def running_def)
    ultimately have "pipe_ok X ?s" by (intro admits_to_pipe [OF ok to]) (simp_all add: slots_ok_def refs)
    then show thesis by (rule that(2) [OF _ to _ eq]) simp
  qed
qed

lemma admit_all:
  "pipe_ok X s \<Longrightarrow> dispatch_key ` set ds \<subseteq> X \<Longrightarrow> distinct (map dispatch_key ds) \<Longrightarrow>
   (\<And>d. d \<in> set ds \<Longrightarrow> dr_plugin d \<in> set (qp_registered s)) \<Longrightarrow>
   \<exists>s' ks rs. fold admit_dispatch ds (s, kept, refused) = (s', kept @ ks, refused @ rs)
     \<and> pipe_ok (X - dispatch_key ` set ks) s' \<and> admits_to s s' \<and> set ks \<subseteq> set ds
     \<and> set rs = dispatch_key ` set ds - dispatch_key ` set ks
     \<and> set (qp_active_requests s') = set (qp_active_requests s) \<union> dispatch_key ` set ks"
proof (induction ds arbitrary: X s kept refused)
  case Nil
  have "admits_to s s" unfolding admits_to_def
    by (intro exI [of _ "qp_heap s"] exI [of _ "qp_admitted s"] exI [of _ "qp_active_requests s"]) simp
  with Nil.prems(1) show ?case by (intro exI [of _ s] exI [of _ "[]"]) simp
next
  case (Cons d ds)
  have key: "dispatch_key d \<in> X" and reg: "dr_plugin d \<in> set (qp_registered s)" using Cons.prems(2,4) by simp_all
  have other: "dispatch_key d \<notin> dispatch_key ` set ds" using Cons.prems(3) by simp
  then have sub: "dispatch_key ` set ds \<subseteq> X - {dispatch_key d}" using Cons.prems(2) by auto
  from Cons.prems(1) key reg show ?case
  proof (rule admit_one)
    fix t assume t: "pipe_ok (X - {dispatch_key d}) t" "admits_to s t"
      "set (qp_active_requests t) = insert (dispatch_key d) (set (qp_active_requests s))"
      "\<And>kept refused. admit_dispatch d (s, kept, refused) = (t, kept @ [d], refused)"
    have "qp_registered t = qp_registered s" using retires_fields(2) [OF admits_to_retires [OF t(2)]] .
    then obtain s' ks rs where "fold admit_dispatch ds (t, kept @ [d], refused) = (s', (kept @ [d]) @ ks, refused @ rs)"
      "pipe_ok (X - {dispatch_key d} - dispatch_key ` set ks) s'" "admits_to t s'" "set ks \<subseteq> set ds"
      "set rs = dispatch_key ` set ds - dispatch_key ` set ks"
      "set (qp_active_requests s') = set (qp_active_requests t) \<union> dispatch_key ` set ks"
      using Cons.IH [OF t(1) sub, of "kept @ [d]" refused] Cons.prems(3,4) by auto
    moreover have "X - {dispatch_key d} - dispatch_key ` set ks = X - dispatch_key ` set (d # ks)" by auto
    ultimately show ?case using t other admits_to_trans [OF t(2)]
      by (intro exI [of _ s'] exI [of _ "d # ks"] exI [of _ rs]) auto
  next
    fix t assume t: "pipe_ok X t" "admits_to s t" "set (qp_active_requests t) = set (qp_active_requests s)"
      "\<And>kept refused. admit_dispatch d (s, kept, refused) = (t, kept, refused @ [dispatch_key d])"
    have "qp_registered t = qp_registered s" using retires_fields(2) [OF admits_to_retires [OF t(2)]] .
    then obtain s' ks rs where "fold admit_dispatch ds (t, kept, refused @ [dispatch_key d]) = (s', kept @ ks, (refused @ [dispatch_key d]) @ rs)"
      "pipe_ok (X - dispatch_key ` set ks) s'" "admits_to t s'" "set ks \<subseteq> set ds"
      "set rs = dispatch_key ` set ds - dispatch_key ` set ks"
      "set (qp_active_requests s') = set (qp_active_requests t) \<union> dispatch_key ` set ks"
      using Cons.IH [OF t(1), of kept "refused @ [dispatch_key d]"] Cons.prems(2-4) by auto
    moreover from this(4) have "dispatch_key d \<notin> dispatch_key ` set ks" using other by auto
    ultimately show ?case using t admits_to_trans [OF t(2)]
      by (intro exI [of _ s'] exI [of _ ks] exI [of _ "dispatch_key d # rs"]) (simp add: insert_Diff_if, blast)
  qed
qed

lemma finish_refused_ok:
  "pipe_ok X s \<Longrightarrow> \<exists>s'. finish_refused now ks s = Some s' \<and> pipe_ok (X - set ks) s' \<and> retires s s'
     \<and> set (qp_active_requests s') = set (qp_active_requests s) - set ks"
proof (induction ks arbitrary: X s)
  case (Cons k ks)
  obtain p g where k: "k = (p, g)" by force
  obtain t out where t: "finish_completion p g now s = Some (t, out)" "pipe_ok (X - {(p, g)}) t" "retires s t"
    "set (qp_active_requests t) = set (qp_active_requests s) - {(p, g)}"
    by (rule finish_completion_ok [OF Cons.prems]) blast
  from Cons.IH [OF t(2)] obtain s' where s': "finish_refused now ks t = Some s'" "pipe_ok (X - {(p, g)} - set ks) s'" "retires t s'"
    "set (qp_active_requests s') = set (qp_active_requests t) - set ks" by blast
  have "Y - {(p, g)} - set ks = Y - set (k # ks)" for Y by (auto simp: k)
  with s'(2,4) t(4) have "pipe_ok (X - set (k # ks)) s'" "set (qp_active_requests s') = set (qp_active_requests s) - set (k # ks)"
    by simp_all
  with t(1) s'(1) retires_trans [OF t(3) s'(3)] show ?case by (simp add: k)
qed simp

lemma run_tick_ok:
  assumes ok: "pipe_ok {} s" and screen: "screen_ok s"
  obtains s' out where "run_tick now s = Some (s', out)" and "pipe_ok {} s'" and "screen_ok s'"
    and "qp_generation s' = qp_generation s" and "qp_registered s' = qp_registered s"
    and "dispatch_key ` set (pt_dispatches out) \<subseteq> set (qp_active_requests s')"
    and "pt_errors out = qp_pending_errors s @ drain_errors s (pt_drain_report out)" and "qp_pending_errors s' = []"
    and "qp_unranked_batches s' = qp_unranked_batches s + answered s (pt_drain_report out)"
proof -
  obtain s1 report es where s1: "drain_intake now s = Some (s1, report, es)" "pipe_ok {} s1" "passed s s1" "es = drain_errors s report"
    "qp_unranked_batches s1 = qp_unranked_batches s + answered s report"
    by (rule drain_intake_ok [OF ok, of now]) blast
  define s2 where "s2 = s1\<lparr>qp_pending_errors := []\<rparr>"
  have ok2: "pipe_ok {} s2" unfolding s2_def by (rule pipe_errors [OF s1(2)]) simp
  obtain sched ds where tick: "tick now (qp_scheduler s2) = (sched, ds)" by fastforce
  note launched = tick_pipe [OF ok2 tick]
  obtain s3 ks rs where s3: "fold admit_dispatch ds (s2\<lparr>qp_scheduler := sched\<rparr>, [], []) = (s3, ks, rs)"
    "pipe_ok (dispatch_key ` set ds - dispatch_key ` set ks) s3" "admits_to (s2\<lparr>qp_scheduler := sched\<rparr>) s3" "set ks \<subseteq> set ds"
    "set rs = dispatch_key ` set ds - dispatch_key ` set ks"
    "set (qp_active_requests s3) = set (qp_active_requests s2) \<union> dispatch_key ` set ks"
    using admit_all [OF launched(1) order_refl launched(2), of "[]" "[]"] launched(3) by auto
  obtain s4 where s4: "finish_refused now rs s3 = Some s4" "pipe_ok {} s4" "retires s3 s4"
    "set (qp_active_requests s4) = set (qp_active_requests s3) - set rs"
    using finish_refused_ok [OF s3(2), of now rs] s3(5) by auto
  obtain sched' unres canc where cap: "capture_cancellations s4 = s4\<lparr>qp_scheduler := sched', qp_unresolved_cancellations := unres,
      qp_pending_cancellations := canc\<rparr>" and okc: "pipe_ok {} (capture_cancellations s4)" by (rule capture_ok [OF s4(2)])
  define s5 where "s5 = (capture_cancellations s4)\<lparr>qp_pending_cancellations := []\<rparr>"
  have ok5: "pipe_ok {} s5" using okc unfolding s5_def by (simp only: pipe_irrelevant)
  obtain s6 where s6: "sync_health s5 = Some s6" "pipe_ok {} s6" "health_change s5 s6" by (rule sync_health_pipe [OF ok5])
  define out where "out = \<lparr>pt_dispatches = ks, pt_cancellations = canc, pt_drain_report = report, pt_errors = qp_pending_errors s1 @ es\<rparr>"
  have eq: "run_tick now s = Some (s6, out)"
    using s1(1) s2_def tick s3(1) s4(1) s6(1) by (simp add: run_tick_def cap s5_def out_def Let_def)
  note ret = retires_trans [OF admits_to_retires [OF s3(3)] s4(3)]
  have fields: "qp_generation s6 = qp_generation s1" "qp_registered s6 = qp_registered s1" "qp_pending_errors s6 = []"
    "qp_visible_generation s6 = qp_visible_generation s1" "qp_unranked_batches s6 = qp_unranked_batches s1"
    "qp_presentation_dirty s6 = qp_presentation_dirty s1" "qp_active_requests s6 = qp_active_requests s4"
    using retires_fields [OF ret] retires_fields [OF health_retires [OF s6(3)]] resolves_fields(3) [OF health_resolves [OF s6(3)]]
    by (simp_all add: s5_def cap s2_def)
  have "screen_ok s6" using screen_passed [OF s1(3) screen] by (simp add: screen_ok_def fields)
  moreover have "dispatch_key ` set ks \<subseteq> set (qp_active_requests s6)"
    using s3(5,6) s4(4) by (auto simp: fields)
  ultimately show thesis using eq s6(2) fields s1(3-5) by (intro that [of s6 out]) (auto simp: passed_def out_def)
qed

end
