(* ===== verification/Pipeline_Serve.thy ===== *)
theory Pipeline_Serve
  imports Pipeline_Ops
begin

text \<open>
  The operations around a request: delivering its batches, completing and aborting it, and
  presenting what arrived. Delivering never makes the scheduler count a batch the pipeline
  does not count, because a batch outside the air is stale to both.
\<close>

section \<open>Deliveries\<close>

lemma overflow_not_stale: "overflow_decision s xs pol b \<noteq> Some QrStaleGeneration"
  by (auto simp: overflow_decision_def full_decision_def Let_def split: overflow_policy.splits)

lemma submit_stale:
  assumes "intake_ok s" and "intake_submit now b s = Some (t, Inl QrStaleGeneration)"
  shows "iq_active s \<noteq> Some (rb_generation (ib_batch b))"
proof -
  from intake_submit_effect [OF assms(1), of now b] assms(2)
  have "admission s b = Some QrStaleGeneration" by (auto simp: submit_effect_def Let_def split: option.splits)
  then show ?thesis using overflow_not_stale by (auto simp: admission_def split: option.splits if_splits)
qed

lemma late_batch_ok:
  assumes ok: "pipe_ok {} s"
    and late: "qp_generation s = 0 \<or> rb_generation b \<noteq> qp_generation s \<or> (rb_plugin b, rb_generation b) \<notin> set (qp_active_requests s)"
  obtains s' where "note_late_batch b now s = Some s'" and "pipe_ok {} s'" and "retires s s'"
proof -
  note inv = pipe_okD(1) [OF ok]
  let ?r = "record_result_batch (rb_plugin b) (rb_generation b) (length (rb_items b)) (batch_completion_of (rb_state b)) now (qp_scheduler s)"
  have air: "set (flights (qp_scheduler s) (rb_plugin b)) = running s (rb_plugin b)"
    using pipe_okD(4) [OF ok] by (simp add: slots_ok_def airborne_ok_def)
  have cur: "qp_generation s = sched_current_generation (qp_scheduler s)"
    and unr: "qp_generation s \<noteq> 0 \<Longrightarrow> qs_result_queue_depth (qp_scheduler s) = qp_unranked_batches s"
    using ok by (simp_all add: pipe_parts)
  have depth: "qs_result_queue_depth (fst ?r) = qp_unranked_batches s" if gen: "qp_generation s \<noteq> 0"
  proof -
    have "snd ?r = StaleRejected"
      using late gen cur air by (intro result_batch_stale) (auto simp: running_def)
    then show ?thesis using unr [OF gen] by (simp add: result_batch_depth)
  qed
  have "pipe_ok {} (s\<lparr>qp_scheduler := fst ?r, qp_unranked_batches := qp_unranked_batches s\<rparr>)"
    by (rule pipe_sched [OF ok])
      (use depth inv_record_result_batch [OF inv] steady_result_ops(1) in simp_all)
  then have ok1: "pipe_ok {} (s\<lparr>qp_scheduler := fst ?r\<rparr>)" by simp
  have ret1: "retires s (s\<lparr>qp_scheduler := fst ?r\<rparr>)" by (rule retires_sched)
  obtain s2 where s2: "classify_cancelled_response (rb_plugin b) (rb_generation b) (rb_state b) (s\<lparr>qp_scheduler := fst ?r\<rparr>) = Some s2"
    "pipe_ok {} s2" "resolves (s\<lparr>qp_scheduler := fst ?r\<rparr>) s2"
    unfolding classify_cancelled_response_def by (rule resolve_ok [OF ok1, of "rb_plugin b" "rb_generation b" "rb_state b = BatchCancelled"])
  obtain s3 where s3: "sync_health s2 = Some s3" "pipe_ok {} s3" "health_change s2 s3" by (rule sync_health_pipe [OF s2(2)])
  have "retires s s3" by (rule retires_trans [OF ret1 retires_trans [OF resolves_retires [OF s2(3)] health_retires [OF s3(3)]]])
  with s2(1) s3(1,2) show thesis by (intro that [of s3]) (simp_all add: note_late_batch_def case_prod_beta)
qed

definition keeps :: "query_pipeline \<Rightarrow> query_pipeline \<Rightarrow> bool" where
  "keeps s s' \<longleftrightarrow>
     qp_generation s' = qp_generation s \<and> qp_registered s' = qp_registered s \<and> qp_budgets s' = qp_budgets s
     \<and> qp_pending_errors s' = qp_pending_errors s \<and> (screen_ok s \<longrightarrow> screen_ok s')"

lemma keeps_retires: "retires s s' \<Longrightarrow> keeps s s'"
  using retires_fields [of s s'] screen_retires [of s s'] by (simp add: keeps_def)

lemma keeps_trans: "keeps s t \<Longrightarrow> keeps t u \<Longrightarrow> keeps s u"
  by (simp add: keeps_def)

lemma deliver_ok:
  assumes ok: "pipe_ok {} s"
  obtains s' r where "deliver_with_priority b priority now s = Some (s', r)" and "pipe_ok {} s'" and "keeps s s'"
proof (cases "map_of (qp_health_sync s) (rb_plugin b) \<noteq> None \<and> (rb_plugin b, rb_generation b) \<notin> set (qp_active_requests s)")
  case True
  then obtain s' where "note_late_batch b now s = Some s'" "pipe_ok {} s'" "retires s s'"
    using late_batch_ok [OF ok, of b now] by blast
  with True keeps_retires show thesis by (intro that [of s']) (auto simp: deliver_with_priority_def)
next
  case False
  obtain i r where sub: "intake_submit now \<lparr>ib_batch = b, ib_priority = priority\<rparr> (qp_intake s) = Some (i, r)"
    and i: "intake_ok i" "same_frame (qp_intake s) i"
    using intake_submit_effect [OF pipe_okD(5) [OF ok], of now "\<lparr>ib_batch = b, ib_priority = priority\<rparr>"] by blast
  let ?s = "s\<lparr>qp_intake := i\<rparr>"
  have "pipe_ok {} (s\<lparr>qp_intake := i, qp_aggregator := qp_aggregator s\<rparr>)"
    using same_frame_members [OF i(2)] i(1) pipe_okD(6) [OF ok] by (intro pipe_results [OF ok]) simp_all
  then have ok1: "pipe_ok {} ?s" by simp
  have k1: "keeps s ?s" by (simp add: keeps_def screen_ok_def)
  have go: "\<not> (map_of (qp_health_sync s) (rb_plugin b) \<noteq> None \<and> (rb_plugin b, rb_generation b) \<notin> set (qp_active_requests s))"
    using False by simp
  show thesis
  proof (cases "r = Inl QrStaleGeneration")
    case True
    have "iq_active (qp_intake s) \<noteq> Some (rb_generation b)"
      using submit_stale [OF pipe_okD(5) [OF ok] sub [unfolded True]] by simp
    then have "qp_generation ?s = 0 \<or> rb_generation b \<noteq> qp_generation ?s"
      using ok by (auto simp: pipe_parts iq_gate_def opened_def split: if_splits)
    then obtain s' where "note_late_batch b now ?s = Some s'" "pipe_ok {} s'" "retires ?s s'"
      using late_batch_ok [OF ok1, of b now] by blast
    with True False go sub keeps_trans [OF k1 keeps_retires] show thesis
      by (intro that [of s']) (auto simp: deliver_with_priority_def Let_def)
  next
    case other: False
    have "deliver_with_priority b priority now s = Some (?s, case r of Inl reason \<Rightarrow> Inl (PlQueueRejected (rb_plugin b) (rb_generation b) reason) | Inr _ \<Rightarrow> Inr ())"
      using other False go sub by (cases r) (auto simp: deliver_with_priority_def Let_def)
    then show thesis using ok1 k1 by (rule that)
  qed
qed

section \<open>Completing and aborting\<close>

lemma complete_ok:
  assumes ok: "pipe_ok {} s"
  obtains s' out where "pipeline_complete p g now s = Some (s', out)" and "pipe_ok {} s'" and "keeps s s'"
proof (cases "g = qp_generation s \<and> (p, g) \<in> set (qp_active_requests s) \<and> qd_batches (plugin_depth (qp_intake s) p) \<noteq> 0")
  case True
  let ?s = "s\<lparr>qp_pending_completions := AList.update (p, g) now (qp_pending_completions s)\<rparr>"
  have "distinct (map fst (AList.update (p, g) now (qp_pending_completions s)))"
    using ok by (intro distinct_update) (simp add: pipe_parts)
  then have "pipe_ok {} ?s" by (rule pipe_unpark [OF ok])
  moreover have "pipeline_complete p g now s = Some (?s, CompletionAccepted)" 
    unfolding pipeline_complete_def by (rule if_P [OF True])
  ultimately show thesis using keeps_retires [OF retires_unpark] by (intro that [of ?s CompletionAccepted]) simp_all
next
  case False
  obtain s' out where s': "finish_completion p g now s = Some (s', out)" "pipe_ok ({} - {(p, g)}) s'" "retires s s'"
    by (rule finish_completion_ok [OF ok]) blast
  then show thesis using False keeps_retires [OF s'(3)]
    by (intro that [of s' out]) (auto simp: pipeline_complete_def)
qed

lemma abort_ok:
  assumes ok: "pipe_ok {} s"
  obtains s' b where "abort_request p g now s = Some (s', b)" and "pipe_ok {} s'" and "keeps s s'"
    and "(p, g) \<notin> set (qp_active_requests s')"
proof -
  define had where "had \<longleftrightarrow> (p, g) \<in> set (qp_active_requests s) \<or> map_of (qp_admitted s) (p, g) \<noteq> None
    \<or> map_of (qp_pending_completions s) (p, g) \<noteq> None \<or> (p, g) \<in> set (qp_unresolved_cancellations s)"
  show thesis
  proof (cases had)
    case False
    then show thesis using ok keeps_retires [OF retires_refl]
      by (intro that [of s False]) (simp_all add: abort_request_def had_def)
  next
    case True
    let ?pend = "AList.delete (p, g) (qp_pending_completions s)"
    let ?canc = "filter (\<lambda>c. cr_plugin c \<noteq> p \<or> cr_generation c \<noteq> g) (qp_pending_cancellations s)"
    let ?was = "(p, g) \<in> set (qp_unresolved_cancellations s)"
    define s1 where "s1 = s\<lparr>qp_pending_completions := ?pend, qp_pending_cancellations := ?canc,
      qp_unresolved_cancellations := removeAll (p, g) (qp_unresolved_cancellations s)\<rparr>"
    have "pipe_ok {} (s\<lparr>qp_pending_completions := ?pend\<rparr>)"
      using ok by (intro pipe_unpark distinct_delete) (simp_all add: pipe_parts)
    then have "pipe_ok {} (s\<lparr>qp_pending_completions := ?pend, qp_pending_cancellations := ?canc\<rparr>)" by (simp only: pipe_irrelevant)
    from pipe_forget [OF this, of "(p, g)"] have ok1: "pipe_ok {} s1" by (simp add: s1_def)
    have k1: "keeps s s1" by (simp add: keeps_def s1_def screen_ok_def)
    obtain s2 out where s2: "finish_completion p g now s1 = Some (s2, out)" "pipe_ok ({} - {(p, g)}) s2" "retires s1 s2"
      "set (qp_active_requests s2) = set (qp_active_requests s1) - {(p, g)}"
      by (rule finish_completion_ok [OF ok1]) blast
    then have ok2: "pipe_ok {} s2" by simp
    have start: "abort_request p g now s = (if ?was then note_cancellation p False s2 else Some s2) \<bind> (\<lambda>s. Some (s, True))"
      using True s2(1) unfolding abort_request_def had_def [symmetric] Let_def
      by (simp add: unresolved_remove_def s1_def)
    show thesis
    proof (cases ?was)
      case was: True
      then have "p \<in> set (qp_registered s2)"
        using ok retires_fields(2) [OF s2(3)] by (force simp: pipe_parts s1_def)
      from note_cancellation_ok [OF pipe_okD(2) [OF ok2] this, of False] obtain s3 where
        s3: "note_cancellation p False s2 = Some s3" "health_change s2 s3" .
      have "keeps s s3" by (rule keeps_trans [OF k1 keeps_retires [OF retires_trans [OF s2(3) health_retires [OF s3(2)]]]])
      then show thesis using start was s3(1) pipe_health [OF s3(2) ok2] s2(4) resolves_fields(3) [OF health_resolves [OF s3(2)]]
        by (intro that [of s3 True]) simp_all
    next
      case False
      then show thesis using start ok2 s2(4) keeps_trans [OF k1 keeps_retires [OF s2(3)]]
        by (intro that [of s2 True]) simp_all
    qed
  qed
qed

section \<open>Presenting\<close>

lemma push_errors_length:
  "0 < qp_error_capacity s \<Longrightarrow> length (qp_pending_errors s) \<le> qp_error_capacity s \<Longrightarrow>
   length (qp_pending_errors (fold push_error es s)) \<le> qp_error_capacity s
   \<and> (\<exists>errs n. fold push_error es s = s\<lparr>qp_pending_errors := errs, qp_dropped_errors := n\<rparr>)"
proof (induction es arbitrary: s)
  case Nil
  have "s = s\<lparr>qp_pending_errors := qp_pending_errors s, qp_dropped_errors := qp_dropped_errors s\<rparr>" by simp
  then have "\<exists>errs n. s = s\<lparr>qp_pending_errors := errs, qp_dropped_errors := n\<rparr>" by blast
  with Nil show ?case by simp
next
  case (Cons e es)
  obtain errs n where one: "push_error e s = s\<lparr>qp_pending_errors := errs, qp_dropped_errors := n\<rparr>"
    and len: "length errs \<le> qp_error_capacity s"
  proof (cases "length (qp_pending_errors s) = qp_error_capacity s")
    case True
    show thesis
      by (rule that [of "sat_add (qp_dropped_errors s) 1" "tl (qp_pending_errors s) @ [e]"])
        (use True Cons.prems in \<open>simp_all add: push_error_def Let_def\<close>)
  next
    case False
    show thesis
      by (rule that [of "qp_dropped_errors s" "qp_pending_errors s @ [e]"])
        (use False Cons.prems in \<open>simp_all add: push_error_def Let_def\<close>)
  qed
  from Cons.IH [of "push_error e s"] len Cons.prems(1) show ?case by (simp add: one)
qed

lemma push_errors_pipe:
  assumes "pipe_ok {} s"
  shows "pipe_ok {} (fold push_error es s)" and "\<exists>errs n. fold push_error es s = s\<lparr>qp_pending_errors := errs, qp_dropped_errors := n\<rparr>"
proof -
  have "0 < qp_error_capacity s" "length (qp_pending_errors s) \<le> qp_error_capacity s" using assms by (simp_all add: pipe_parts)
  from push_errors_length [OF this, of es] obtain errs n where
    eq: "fold push_error es s = s\<lparr>qp_pending_errors := errs, qp_dropped_errors := n\<rparr>" and len: "length errs \<le> qp_error_capacity s"
    by auto
  have "pipe_ok {} ((s\<lparr>qp_pending_errors := errs\<rparr>)\<lparr>qp_dropped_errors := n\<rparr>)"
    unfolding pipe_irrelevant by (rule pipe_errors [OF assms len])
  then show "pipe_ok {} (fold push_error es s)" by (simp add: eq)
  show "\<exists>errs n. fold push_error es s = s\<lparr>qp_pending_errors := errs, qp_dropped_errors := n\<rparr>" using eq by blast
qed

lemma fill_icons_rows:
  obtains rows where "fst (fill_pending_icons resolve s) = s\<lparr>qp_rows := rows\<rparr>"
proof (cases "snd (fill_pending_icons resolve s)")
  case True
  then show thesis using that [of "map (fill_icon resolve) (qp_rows s)"]
    by (auto simp: fill_pending_icons_def Let_def split: if_splits)
next
  case False
  then show thesis using that [of "qp_rows s"] by (auto simp: fill_pending_icons_def Let_def split: if_splits)
qed

lemma refresh_rows_ok:
  assumes ok: "pipe_ok {} s" and screen: "screen_ok s"
  shows "pipe_ok {} (fst (refresh_rows resolve s))" and "screen_ok (fst (refresh_rows resolve s))"
    and "\<exists>a rows v. fst (refresh_rows resolve s) = s\<lparr>qp_aggregator := a, qp_rows := rows, qp_visible_generation := v\<rparr>"
proof -
  let ?u = "take_ui_update (begin_frame (qp_aggregator s))"
  have ag: "ag_ok (fst ?u)" "ag_gate (fst ?u) = ag_gate (qp_aggregator s)"
    using ag_ok_exec [OF ag_ok_exec [OF pipe_okD(6) [OF ok], of AgFrame], of AgTakeUpdate]
      exec_gate [OF ag_ok_exec [OF pipe_okD(6) [OF ok], of AgFrame], of AgTakeUpdate]
      exec_gate [OF pipe_okD(6) [OF ok], of AgFrame] by simp_all
  have "pipe_ok {} (s\<lparr>qp_intake := qp_intake s, qp_aggregator := fst ?u\<rparr>)"
    using ag pipe_okD(5) [OF ok] by (intro pipe_results [OF ok]) simp_all
  then have ok1: "pipe_ok {} (s\<lparr>qp_aggregator := fst ?u\<rparr>)" by simp
  obtain rows v where eq: "fst (refresh_rows resolve s) = (s\<lparr>qp_aggregator := fst ?u\<rparr>)\<lparr>qp_rows := rows, qp_visible_generation := v\<rparr>"
    and v: "v = qp_visible_generation s \<or> v = Some (qp_generation s)"
  proof (cases "snd ?u")
    case None
    obtain rows where "fst (fill_pending_icons resolve (s\<lparr>qp_aggregator := fst ?u\<rparr>)) = (s\<lparr>qp_aggregator := fst ?u\<rparr>)\<lparr>qp_rows := rows\<rparr>"
      by (rule fill_icons_rows)
    with None show thesis
      by (intro that [of "qp_visible_generation s" rows]) (simp_all add: refresh_rows_def case_prod_beta)
  next
    case (Some items)
    then show thesis
      by (intro that [of "Some (qp_generation s)" "map (result_row_of (qp_icons s) resolve) items"])
        (simp_all add: refresh_rows_def case_prod_beta)
  qed
  show "pipe_ok {} (fst (refresh_rows resolve s))" unfolding eq by (simp only: pipe_irrelevant ok1)
  show "screen_ok (fst (refresh_rows resolve s))" using screen v by (auto simp: eq screen_ok_def)
  show "\<exists>a rows v. fst (refresh_rows resolve s) = s\<lparr>qp_aggregator := a, qp_rows := rows, qp_visible_generation := v\<rparr>"
    unfolding eq by (intro exI) (rule refl)
qed

lemma record_shown_ok:
  assumes ok: "pipe_ok {} s"
  shows "pipe_ok {} (s\<lparr>qp_presented_pending := pp,
      qp_scheduler := record_presentation g k now (record_ranking g k now (qp_scheduler s)),
      qp_unranked_batches := 0, qp_presentation_dirty := False\<rparr>)" (is "pipe_ok {} ?t")
proof -
  let ?sched = "record_presentation g k now (record_ranking g k now (qp_scheduler s))"
  have "steady (qp_scheduler s) ?sched" by (rule steady_trans [OF steady_result_ops(2,3)])
  then have "pipe_ok {} (s\<lparr>qp_scheduler := ?sched, qp_unranked_batches := 0\<rparr>)"
    using inv_record_presentation [OF inv_record_ranking [OF pipe_okD(1) [OF ok]]] by (intro pipe_sched [OF ok]) simp_all
  then have "pipe_ok {} ((s\<lparr>qp_scheduler := ?sched, qp_unranked_batches := 0\<rparr>)\<lparr>qp_presented_pending := pp, qp_presentation_dirty := False\<rparr>)"
    by (simp only: pipe_irrelevant)
  moreover have "(s\<lparr>qp_scheduler := ?sched, qp_unranked_batches := 0\<rparr>)\<lparr>qp_presented_pending := pp, qp_presentation_dirty := False\<rparr> = ?t"
    by simp
  ultimately show ?thesis by (simp only:)
qed

definition frame_current :: "query_pipeline \<Rightarrow> view_model option \<Rightarrow> bool" where
  "frame_current s f \<longleftrightarrow> (\<forall>vm. f = Some vm \<longrightarrow> vm_generation vm = qp_generation s \<and> vm_query vm = qp_query s)"

text \<open>
  One presentation: it cannot fail, a frame it returns is the newest query's and shows the
  rows the pipeline holds, it catches the ranking up, and it drains something whenever there
  is something to drain and the turn is not spent.
\<close>

lemma present_ok:
  assumes ok: "pipe_ok {} s" and screen: "screen_ok s"
  obtains s' f where "present resolve now s = Some (s', f)" and "pipe_ok {} s'" and "screen_ok s'"
    and "qp_generation s' = qp_generation s" and "qp_registered s' = qp_registered s" and "qp_query s' = qp_query s"
    and "frame_current s' f" and "\<forall>vm. f = Some vm \<longrightarrow> vm_rows vm = qp_rows s'"
    and "qp_generation s \<noteq> 0 \<longrightarrow> qp_unranked_batches s' = 0"
    and "iq_total_batches (qp_intake s') \<le> iq_total_batches (qp_intake s)"
    and "qp_last_intake_drain_at s \<noteq> Some now \<and> 0 < iq_total_batches (qp_intake s)
      \<and> qp_unranked_batches s < qp_result_trace_capacity s \<longrightarrow> iq_total_batches (qp_intake s') < iq_total_batches (qp_intake s)"
    and "qp_result_trace_capacity s' = qp_result_trace_capacity s"
proof -
  obtain s1 report es where s1: "drain_intake now s = Some (s1, report, es)" "pipe_ok {} s1" "passed s s1"
    "es = drain_errors s report" "qp_unranked_batches s1 = qp_unranked_batches s + answered s report"
    "qp_last_intake_drain_at s \<noteq> Some now \<and> 0 < iq_total_batches (qp_intake s)
      \<and> qp_unranked_batches s < qp_result_trace_capacity s \<longrightarrow> iq_total_batches (qp_intake s1) < iq_total_batches (qp_intake s)"
    by (rule drain_intake_ok [OF ok, of now])
  obtain errs n where push: "fold push_error es s1 = s1\<lparr>qp_pending_errors := errs, qp_dropped_errors := n\<rparr>"
    using push_errors_pipe(2) [OF s1(2)] by blast
  have screen1: "screen_ok (fold push_error es s1)"
    using screen_passed [OF s1(3) screen] by (simp add: push screen_ok_def)
  obtain s2 changed where s2: "refresh_rows resolve (fold push_error es s1) = (s2, changed)" by fastforce
  note ref = refresh_rows_ok [OF push_errors_pipe(1) [OF s1(2), of es] screen1, of resolve, unfolded s2 fst_conv]
  then have ok2: "pipe_ok {} s2" and screen2: "screen_ok s2" by simp_all
  from ref(3) obtain a rows v where fields: "s2 = s1\<lparr>qp_pending_errors := errs, qp_dropped_errors := n, qp_aggregator := a,
      qp_rows := rows, qp_visible_generation := v\<rparr>" by (auto simp: push)
  have same: "qp_generation s2 = qp_generation s" "qp_registered s2 = qp_registered s" "qp_query s2 = qp_query s"
    "qp_intake s2 = qp_intake s1" "qp_result_trace_capacity s2 = qp_result_trace_capacity s"
    using s1(3) by (simp_all add: fields passed_def)
  have depth: "iq_total_batches (qp_intake s1) \<le> iq_total_batches (qp_intake s)" using s1(3) by (simp add: passed_def)
  define pending where "pending = has_pending_work s2"
  define s3 where "s3 = s2\<lparr>qp_presented_pending := Some pending,
      qp_scheduler := record_presentation (qp_generation s2) (length (qp_rows s2)) now
        (record_ranking (qp_generation s2) (length (qp_rows s2)) now (qp_scheduler s2)),
      qp_unranked_batches := 0, qp_presentation_dirty := False\<rparr>"
  have ok3: "pipe_ok {} s3" unfolding s3_def by (rule record_shown_ok [OF ok2])
  define quiet where "quiet \<longleftrightarrow> qp_visible_generation s2 \<noteq> Some (qp_generation s2)
    \<or> \<not> changed \<and> \<not> qp_presentation_dirty s2 \<and> qp_presented_pending s2 = Some pending"
  show thesis
  proof (cases quiet)
    case True
    then have eq: "present resolve now s = Some (s2, None)"
      by (auto simp: present_def s1(1) s2 quiet_def pending_def Let_def)
    have "qp_generation s \<noteq> 0 \<Longrightarrow> qp_unranked_batches s2 = 0"
      using True screen2 by (auto simp: quiet_def screen_ok_def same)
    with eq ok2 screen2 same s1(6) depth show thesis by (intro that [of s2 None]) (simp_all add: frame_current_def)
  next
    case False
    then have eq: "present resolve now s = Some (s3, Some (frame_of pending s3))"
      by (auto simp: present_def s1(1) s2 quiet_def pending_def Let_def s3_def)
    have "qp_visible_generation s2 = Some (qp_generation s2)" using False by (simp add: quiet_def)
    then have "screen_ok s3" and vis: "qp_visible_generation s3 = Some (qp_generation s)" by (simp_all add: s3_def screen_ok_def same)
    moreover have "qp_generation s3 = qp_generation s" "qp_registered s3 = qp_registered s" "qp_query s3 = qp_query s"
      "qp_intake s3 = qp_intake s1" "qp_result_trace_capacity s3 = qp_result_trace_capacity s" "qp_unranked_batches s3 = 0"
      by (simp_all add: s3_def same)
    ultimately show thesis using eq ok3 s1(6) depth
      by (intro that [of s3 "Some (frame_of pending s3)"]) (auto simp: frame_of_def frame_current_def)
  qed
qed

section \<open>Presenting everything\<close>

text \<open>Before the first query the intake is empty.\<close>

lemma idle_intake: "pipe_ok {} s \<Longrightarrow> qp_generation s = 0 \<Longrightarrow> iq_total_batches (qp_intake s) = 0"
proof -
  assume ok: "pipe_ok {} s" and gen: "qp_generation s = 0"
  have gate: "iq_gate (qp_intake s) = (None, 0)" using ok gen by (simp add: pipe_parts opened_def)
  have "pq_entries q = []" if "(p, q) \<in> set (iq_plugins (qp_intake s))" for p q
    using pipe_okD(5) [OF ok] that gate
    by (cases "pq_entries q") (auto simp: intake_ok_def list_all_iff queue_ok_def gate_admits_def)
  then have "entry_total (qp_intake s) = 0" by (auto simp: entry_total_def)
  then show ?thesis using pipe_okD(5) [OF ok] by (simp add: intake_ok_def)
qed

lemma present_rounds_ok:
  "pipe_ok {} s \<Longrightarrow> screen_ok s \<Longrightarrow> (qp_generation s \<noteq> 0 \<longrightarrow> qp_unranked_batches s = 0) \<Longrightarrow>
   iq_total_batches (qp_intake s) \<le> n \<Longrightarrow> frame_current s f \<Longrightarrow>
   \<exists>s' f'. present_rounds n resolve now (s, f) = Some (s', f') \<and> pipe_ok {} s' \<and> screen_ok s'
     \<and> qp_generation s' = qp_generation s \<and> qp_registered s' = qp_registered s \<and> qp_query s' = qp_query s
     \<and> iq_total_batches (qp_intake s') = 0 \<and> frame_current s' f'"
proof (induction n arbitrary: s f)
  case 0
  then show ?case by simp
next
  case (Suc n)
  show ?case
  proof (cases "iq_total_batches (qp_intake s) = 0")
    case True
    with Suc.prems show ?thesis by (simp add: intake_depth_def)
  next
    case False
    let ?s = "s\<lparr>qp_last_intake_drain_at := None\<rparr>"
    have gen: "qp_generation s \<noteq> 0" using idle_intake [OF Suc.prems(1)] False by auto
    have ok: "pipe_ok {} ?s" and screen: "screen_ok ?s" using Suc.prems(1,2) by (simp_all add: screen_ok_def)
    obtain t g where t: "present resolve now ?s = Some (t, g)" "pipe_ok {} t" "screen_ok t" "qp_generation t = qp_generation ?s"
      "qp_registered t = qp_registered ?s" "qp_query t = qp_query ?s"
      "frame_current t g" "\<forall>vm. g = Some vm \<longrightarrow> vm_rows vm = qp_rows t" "qp_generation ?s \<noteq> 0 \<longrightarrow> qp_unranked_batches t = 0" "iq_total_batches (qp_intake t) \<le> iq_total_batches (qp_intake ?s)"
      "qp_last_intake_drain_at ?s \<noteq> Some now \<and> 0 < iq_total_batches (qp_intake ?s)
        \<and> qp_unranked_batches ?s < qp_result_trace_capacity ?s \<longrightarrow> iq_total_batches (qp_intake t) < iq_total_batches (qp_intake ?s)"
      "qp_result_trace_capacity t = qp_result_trace_capacity ?s"
      by (rule present_ok [OF ok screen, of resolve now])
    have room: "0 < qp_result_trace_capacity s" using Suc.prems(1) by (simp add: pipe_parts)
    have less: "iq_total_batches (qp_intake t) < iq_total_batches (qp_intake s)"
      using t(11) False Suc.prems(3) gen room by simp
    let ?f = "case g of Some vm \<Rightarrow> Some vm | None \<Rightarrow> f"
    have "frame_current t ?f" using Suc.prems(5) t(4,6,7) by (auto simp: frame_current_def split: option.splits)
    then obtain s' f' where "present_rounds n resolve now (t, ?f) = Some (s', f')" "pipe_ok {} s'" "screen_ok s'"
      "qp_generation s' = qp_generation t" "qp_registered s' = qp_registered t" "qp_query s' = qp_query t"
      "iq_total_batches (qp_intake s') = 0" "frame_current s' f'"
      using Suc.IH [OF t(2,3), of ?f] t(4,9) less Suc.prems(4) gen by auto
    then show ?thesis using t(1,4,5,6) less False
      by (intro exI [of _ s'] exI [of _ f']) (simp add: intake_depth_def Let_def)
  qed
qed

lemma present_drained_ok:
  assumes ok: "pipe_ok {} s" and screen: "screen_ok s"
  obtains s' f where "present_drained resolve now s = Some (s', f)" and "pipe_ok {} s'" and "screen_ok s'"
    and "qp_generation s' = qp_generation s" and "qp_registered s' = qp_registered s" and "qp_query s' = qp_query s"
    and "iq_total_batches (qp_intake s') = 0" and "frame_current s' f"
proof -
  obtain t g where t: "present resolve now s = Some (t, g)" "pipe_ok {} t" "screen_ok t" "qp_generation t = qp_generation s"
    "qp_registered t = qp_registered s" "qp_query t = qp_query s"
    "frame_current t g" "qp_generation s \<noteq> 0 \<longrightarrow> qp_unranked_batches t = 0"
    by (rule present_ok [OF ok screen, of resolve now]) blast
  have cap: "iq_total_batches (qp_intake t) \<le> usize_max"
    using t(2) by (simp add: pipe_parts intake_ok_def)
  have "iq_total_batches (qp_intake t) \<le> usize_sat_add (iq_total_batches (qp_intake t)) 2" using cap by (simp add: usize_sat_add_def)
  moreover note t(7)
  ultimately show thesis
    using present_rounds_ok [OF t(2,3), of "usize_sat_add (iq_total_batches (qp_intake t)) 2" g resolve now] t(1,4,5,6,8) that
    by (auto simp: present_drained_def intake_depth_def)
qed

end
