(* ===== verification/Pipeline_Registry.thy ===== *)
theory Pipeline_Registry
  imports Pipeline_Serve
begin

text \<open>
  Registering and removing plugins: the four tables stay in lockstep, a budget has one owner,
  and a plugin that is removed leaves no slot taken.
\<close>

section \<open>New plugins\<close>

lemma watermarks_budgets:
  assumes "watermarks_ok s" and "qp_supervisor s' = qp_supervisor s" and "qp_health_sync s' = qp_health_sync s"
    and "\<And>p. plugin_budget s' p = plugin_budget s p"
  shows "watermarks_ok s'"
  using assms by (simp add: watermarks_ok_def watermark_ok_def)

text \<open>A fresh cell belongs to nobody.\<close>

lemma share_budget_ok:
  assumes ok: "pipe_ok {} s" and b: "cell_ok b 0"
  shows "pipe_ok {} (fst (share_budget b s))" and "snd (share_budget b s) < length (qp_heap (fst (share_budget b s)))"
    and "qp_health_sync (fst (share_budget b s)) = qp_health_sync s" and "keeps s (fst (share_budget b s))"
    and "\<And>p. map_of (qp_budgets s) p \<noteq> Some (snd (share_budget b s))"
proof -
  let ?t = "s\<lparr>qp_heap := qp_heap s @ [b]\<rparr>"
  have t: "fst (share_budget b s) = ?t" "snd (share_budget b s) = length (qp_heap s)" by (simp_all add: share_budget_def)
  have led: "ledger_ok s" using pipe_okD(4) [OF ok] by (simp add: slots_ok_def)
  have range: "h < length (qp_heap s)" if "map_of (qp_budgets s) p = Some h" for p h
    using led that by (simp add: ledger_ok_def cells_ok_def)
  have hold: "holders_of ?t h = holders_of s h" for h by (simp add: holders_of_def)
  have none: "holders_of s (length (qp_heap s)) = {}" using range by (force simp: holders_of_def)
  have "ledger_ok ?t"
    using led range b none
    by (auto simp: ledger_ok_def guards_ok_def cells_ok_def hold nth_append less_Suc_eq)
  then have "slots_ok {} ?t" using pipe_okD(4) [OF ok] by (simp add: slots_ok_def airborne_ok_def running_def)
  moreover have "plugin_budget ?t p = plugin_budget s p" for p
    using range by (cases "map_of (qp_budgets s) p") (simp_all add: plugin_budget_def nth_append)
  then have "watermarks_ok ?t" by (intro watermarks_budgets [OF pipe_okD(3) [OF ok]]) simp_all
  ultimately show "pipe_ok {} (fst (share_budget b s))" using ok by (simp add: t pipe_parts registries_ok_def)
  show "snd (share_budget b s) < length (qp_heap (fst (share_budget b s)))" by (simp add: t)
  show "qp_health_sync (fst (share_budget b s)) = qp_health_sync s" by (simp add: t)
  show "keeps s (fst (share_budget b s))" by (simp add: t keeps_def screen_ok_def)
  show "map_of (qp_budgets s) p \<noteq> Some (snd (share_budget b s))" for p using range by (force simp: t)
qed

lemma dom_alist_update: "dom (map_of (AList.update k v m)) = insert k (dom (map_of m))"
  by (simp add: update_conv')

lemma zero_refusals: "refusals_of no_refusals kind = 0"
  by (cases kind) (simp_all add: no_refusals_def)

text \<open>What an operation on the roster keeps.\<close>

definition rosters :: "query_pipeline \<Rightarrow> query_pipeline \<Rightarrow> bool" where
  "rosters s s' \<longleftrightarrow> qp_generation s' = qp_generation s \<and> (screen_ok s \<longrightarrow> screen_ok s')"

lemma rosters_refl [simp]: "rosters s s"
  by (simp add: rosters_def)

lemma rosters_keeps: "keeps s s' \<Longrightarrow> rosters s s'"
  by (simp add: rosters_def keeps_def)

lemma rosters_trans: "rosters s t \<Longrightarrow> rosters t u \<Longrightarrow> rosters s u"
  by (simp add: rosters_def)

lemma enrol_ok:
  assumes ok: "pipe_ok {} s" and new: "p \<notin> set (qp_registered s)" and h: "h < length (qp_heap s)"
    and free: "\<And>q. map_of (qp_budgets s) q \<noteq> Some h"
    and sv: "expect (supervisor_register p (qp_supervisor s)) = Some sv"
  shows "pipe_ok {} (s\<lparr>qp_supervisor := sv, qp_scheduler := sched_register_plugin p policy (qp_scheduler s),
      qp_intake := intake_register p ipol (qp_intake s), qp_health_sync := AList.update p default_health_sync (qp_health_sync s),
      qp_budgets := AList.update p h (qp_budgets s), qp_registered := qp_registered s @ [p]\<rparr>)" (is "pipe_ok {} ?t")
proof -
  note reg = pipe_okD(2) [OF ok]
  note look = registered_lookups [OF reg, of p]
  have svp: "sv = (qp_supervisor s)\<lparr>sv_plugins := AList.update p default_plugin_record (sv_plugins (qp_supervisor s))\<rparr>"
    using sv by (auto simp: expect_def supervisor_register_def split: if_splits)
  have led: "ledger_ok s" and air: "airborne_ok {} s" using pipe_okD(4) [OF ok] by (simp_all add: slots_ok_def)
  have fl: "flights (sched_register_plugin p policy (qp_scheduler s)) = flights (qp_scheduler s)"
    and mem: "sched_members (sched_register_plugin p policy (qp_scheduler s)) = insert p (set (qp_registered s))"
    using register_flights [of p "qp_scheduler s"] reg new by (simp_all add: registries_ok_def)
  have act: "fst k \<noteq> p" if "k \<in> set (qp_active_requests s)" for k
    using active_registered [OF reg pipe_okD(4) [OF ok] that] new by blast
  have hold: "holders_of ?t k = holders_of s k" for k
    using act free by (auto simp: holders_of_def lookup_simps)
  have "guards_ok ?t"
  proof -
    have "\<exists>k. map_of (AList.update p h (qp_budgets s)) q = Some k \<and> guard = (k, BkSuggestion)"
      if "map_of (qp_admitted s) (q, g) = Some guard" for q g guard
    proof -
      have "(q, g) \<in> set (qp_active_requests s)" using led that unfolding ledger_ok_def guards_ok_def by blast
      then have "q \<noteq> p" using act by force
      moreover have "\<exists>k. map_of (qp_budgets s) q = Some k \<and> guard = (k, BkSuggestion)"
        using led that unfolding ledger_ok_def guards_ok_def by blast
      ultimately show ?thesis by (simp add: lookup_simps)
    qed
    then show ?thesis using led by (simp add: ledger_ok_def guards_ok_def)
  qed
  moreover have "cells_ok ?t" using led h by (auto simp: ledger_ok_def cells_ok_def hold lookup_simps split: if_splits)
  moreover have "handles_apart (AList.update p h (qp_budgets s))"
    using led free unfolding ledger_ok_def handles_apart_def by (simp add: lookup_simps) metis
  ultimately have "slots_ok {} ?t" using air by (simp add: slots_ok_def ledger_ok_def airborne_ok_def running_def fl)
  moreover have "watermark_ok ?t q" for q
    using pipe_okD(3) [OF ok]
    by (cases "q = p") (auto simp: watermarks_ok_def watermark_ok_def plugin_budget_def lookup_simps svp refusals_in_health_def
        supervisor_health_def default_plugin_record_def default_plugin_health_def default_health_sync_def zero_refusals)
  then have "watermarks_ok ?t" by (simp add: watermarks_ok_def)
  moreover have "registries_ok ?t"
  proof -
    have "iq_members (intake_register p ipol (qp_intake s)) = insert p (set (qp_registered s))"
      by (rule intake_registry.lockstep_enrol) (use reg new in \<open>simp_all add: registries_ok_def\<close>)
    moreover have "sv_members sv = insert p (set (qp_registered s))"
      using reg by (simp add: registries_ok_def svp sv_members_def dom_alist_update)
    ultimately show ?thesis
      using reg new mem by (simp add: registries_ok_def dom_alist_update distinct_update)
  qed
  moreover have "iq_gate (intake_register p ipol i) = iq_gate i \<and> iq_limits (intake_register p ipol i) = iq_limits i" for i
    by (simp add: intake_register_def Let_def iq_gate_def split: option.splits)
  ultimately show ?thesis
    using ok inv_register [OF pipe_okD(1) [OF ok]] intake_ok_register [OF pipe_okD(5) [OF ok]]
    by (auto simp: pipe_parts sched_current_generation_def)
qed

text \<open>Registration returns, keeps the invariant, and a refusal changes nothing.\<close>

lemma register_budget_ok:
  assumes ok: "pipe_ok {} s" and h: "h < length (qp_heap s)"
  obtains s' r where "register_plugin_with_budget p policy ipol h s = Some (s', r)" and "pipe_ok {} s'" and "rosters s s'"
    and "case r of Inl e \<Rightarrow> s' = s | Inr _ \<Rightarrow> p \<notin> set (qp_registered s) \<and> set (qp_registered s') = insert p (set (qp_registered s))"
proof (cases "p \<in> set (qp_registered s) \<or> (\<exists>q. map_of (qp_budgets s) q = Some h)")
  case True
  note look = registered_lookups(1) [OF pipe_okD(2) [OF ok], of p]
  have "\<exists>e. register_plugin_with_budget p policy ipol h s = Some (s, Inl e)"
  proof (cases "p \<in> set (qp_registered s)")
    case reg: True
    then show ?thesis using look by (auto simp: register_plugin_with_budget_def)
  next
    case False
    with True obtain q where q: "map_of (qp_budgets s) q = Some h" by blast
    from map_of_SomeD [OF q] have "find (\<lambda>(owner, existing). existing = h) (qp_budgets s) \<noteq> None"
      unfolding find_None_iff by force
    then show ?thesis using False look by (auto simp: register_plugin_with_budget_def split: option.split)
  qed
  then obtain e where "register_plugin_with_budget p policy ipol h s = Some (s, Inl e)" by blast
  then show thesis using ok by (rule that) simp_all
next
  case False
  then have new: "p \<notin> set (qp_registered s)" and free: "map_of (qp_budgets s) q \<noteq> Some h" for q by simp_all
  note reg = pipe_okD(2) [OF ok]
  have "map_of (sv_plugins (qp_supervisor s)) p = None" using registered_lookups(5) [OF reg, of p] new by (auto simp: sv_members_def)
  then obtain sv where sv: "expect (supervisor_register p (qp_supervisor s)) = Some sv"
    by (simp add: expect_def supervisor_register_def)
  have "distinct (map fst (qp_budgets s))" using reg by (simp add: registries_ok_def)
  then have "(q, h) \<notin> set (qp_budgets s)" for q using free [of q] map_of_is_SomeI by fastforce
  then have "find (\<lambda>(owner, existing). existing = h) (qp_budgets s) = None" unfolding find_None_iff by auto
  moreover note enrol_ok [OF ok new h free sv, of ipol "effective_policy s p policy"]
  ultimately show thesis
    using new sv registered_lookups(1) [OF reg, of p] by (intro that) (auto simp: register_plugin_with_budget_def rosters_def screen_ok_def)
qed

lemma cell_from_section: "cell_ok (budget_from_section section) 0"
  by (simp add: cell_ok_def budget_ok_from_section in_flight_from_section)

text \<open>A shared cell and a registration on it.\<close>

lemma register_shared_ok:
  assumes ok: "pipe_ok {} s"
  obtains s' r where "register_plugin_with_budget p policy ipol (snd (share_budget (resolved_budget_for_policy pol c) s))
      (fst (share_budget (resolved_budget_for_policy pol c) s)) = Some (s', r)" and "pipe_ok {} s'" and "rosters s s'"
proof -
  let ?b = "resolved_budget_for_policy pol c"
  have b: "cell_ok ?b 0" by (simp add: resolved_budget_for_policy_def Let_def cell_from_section)
  note share = share_budget_ok [OF ok b]
  obtain s' r where "register_plugin_with_budget p policy ipol (snd (share_budget ?b s)) (fst (share_budget ?b s)) = Some (s', r)"
    "pipe_ok {} s'" "rosters (fst (share_budget ?b s)) s'"
    by (rule register_budget_ok [OF share(1,2)]) blast
  then show thesis using rosters_trans [OF rosters_keeps [OF share(4)]] by (intro that)
qed

lemma register_concurrency_ok:
  assumes ok: "pipe_ok {} s"
  obtains s' r where "register_plugin_with_concurrency p policy ipol c s = Some (s', r)" and "pipe_ok {} s'" and "rosters s s'"
proof (cases "map_of (qp_health_sync s) p")
  case (Some hs)
  then show thesis using ok by (intro that [of s]) (simp_all add: register_plugin_with_concurrency_def)
next
  case None
  let ?pol = "effective_policy s p policy"
  obtain s' r where "register_plugin_with_budget p ?pol ipol (snd (share_budget (resolved_budget_for_policy ?pol c) s))
      (fst (share_budget (resolved_budget_for_policy ?pol c) s)) = Some (s', r)" "pipe_ok {} s'" "rosters s s'"
    by (rule register_shared_ok [OF ok, of p ?pol ipol ?pol c]) blast
  then show thesis using None by (intro that [of s' r]) (simp_all add: register_plugin_with_concurrency_def Let_def case_prod_beta)
qed

lemma set_limits_ok: "pipe_ok {} s \<Longrightarrow> pipe_ok {} (s\<lparr>qp_aggregator := set_plugin_limits p a b (qp_aggregator s)\<rparr>)"
proof -
  assume ok: "pipe_ok {} s"
  have "pipe_ok {} (s\<lparr>qp_intake := qp_intake s, qp_aggregator := set_plugin_limits p a b (qp_aggregator s)\<rparr>)"
    using ag_ok_exec [OF pipe_okD(6) [OF ok], of "AgSetLimits p a b"] exec_gate [OF pipe_okD(6) [OF ok], of "AgSetLimits p a b"]
      pipe_okD(5) [OF ok] by (intro pipe_results [OF ok]) simp_all
  then show ?thesis by simp
qed

lemma runtime_supported [simp]: "ensure_supported_runtime p rt = Inr ()"
  by (cases rt) simp_all

lemma register_manifest_ok:
  assumes ok: "pipe_ok {} s" and pol: "plugin_policy_from_manifest rb mf \<noteq> None"
  obtains s' r where "register_namespaced_manifest rb p mf s = Some (s', r)" and "pipe_ok {} s'" and "rosters s s'"
proof (cases "map_of (qp_health_sync s) p")
  case (Some hs)
  then show thesis using ok by (intro that [of s]) (simp_all add: register_namespaced_manifest_def)
next
  case None
  from pol obtain declared where d: "plugin_policy_from_manifest rb mf = Some declared" by blast
  let ?pol = "effective_policy s p declared"
  let ?share = "share_budget (resolved_budget_for_policy ?pol (mf_concurrency mf)) s"
  obtain s1 r where s1: "register_plugin_with_budget p ?pol (qp_default_intake_policy (fst ?share)) (snd ?share) (fst ?share) = Some (s1, r)"
    "pipe_ok {} s1" "rosters s s1"
    by (rule register_shared_ok [OF ok]) blast
  let ?s = "s1\<lparr>qp_aggregator := set_plugin_limits p (pf_maximum_results_per_query (mf_performance mf))
    (pf_maximum_results_per_batch (mf_performance mf)) (qp_aggregator s1)\<rparr>"
  have "rosters s1 ?s" by (simp add: rosters_def screen_ok_def)
  then show thesis
    using None d s1 set_limits_ok [OF s1(2)] rosters_trans [OF s1(3)]
    by (cases r) (auto simp: register_namespaced_manifest_def case_prod_beta intro: that)
qed

lemma register_manifest_budget_ok:
  assumes ok: "pipe_ok {} s" and pol: "plugin_policy_from_manifest rb mf \<noteq> None" and h: "h < length (qp_heap s)"
  obtains s' r where "register_namespaced_manifest_with_budget rb p mf h s = Some (s', r)" and "pipe_ok {} s'" and "rosters s s'"
proof (cases "map_of (qp_health_sync s) p")
  case (Some hs)
  then show thesis using ok by (intro that [of s]) (simp_all add: register_namespaced_manifest_with_budget_def)
next
  case None
  from pol obtain declared where d: "plugin_policy_from_manifest rb mf = Some declared" by blast
  obtain s1 r where s1: "register_plugin_with_budget p (effective_policy s p declared) (qp_default_intake_policy s) h s = Some (s1, r)"
    "pipe_ok {} s1" "rosters s s1"
    by (rule register_budget_ok [OF ok h]) blast
  let ?s = "s1\<lparr>qp_aggregator := set_plugin_limits p (pf_maximum_results_per_query (mf_performance mf))
    (pf_maximum_results_per_batch (mf_performance mf)) (qp_aggregator s1)\<rparr>"
  have "rosters s1 ?s" by (simp add: rosters_def screen_ok_def)
  then show thesis
    using None d s1 set_limits_ok [OF s1(2)] rosters_trans [OF s1(3)]
    by (cases r) (auto simp: register_namespaced_manifest_with_budget_def intro: that)
qed

lemma set_profile_ok:
  assumes ok: "pipe_ok {} s"
  shows "pipe_ok {} (fst (set_scheduling_profile p prof s))" and "rosters s (fst (set_scheduling_profile p prof s))"
proof -
  have "pipe_ok {} (s\<lparr>qp_scheduler := set_policy p policy 0 (qp_scheduler s)\<rparr>)" for policy
    by (rule pipe_sched_only [OF ok])
      (use steady_set_policy inv_set_policy [OF pipe_okD(1) [OF ok]] in simp_all)
  then have "pipe_ok {} ((s\<lparr>qp_scheduler := set_policy p policy 0 (qp_scheduler s)\<rparr>)\<lparr>qp_profile_overrides := po\<rparr>)" for policy po
    by (simp only: pipe_irrelevant)
  with ok show "pipe_ok {} (fst (set_scheduling_profile p prof s))"
    by (simp add: set_scheduling_profile_def Let_def split: option.split)
  show "rosters s (fst (set_scheduling_profile p prof s))"
    by (simp add: set_scheduling_profile_def Let_def rosters_def screen_ok_def split: option.split)
qed

section \<open>Removing a plugin\<close>

lemma removes_commute:
  "fold admitted_remove ks (s\<lparr>qp_active_requests := a\<rparr>) = (fold admitted_remove ks s)\<lparr>qp_active_requests := a\<rparr>"
proof -
  have one: "admitted_remove k (s\<lparr>qp_active_requests := a\<rparr>) = (admitted_remove k s)\<lparr>qp_active_requests := a\<rparr>" for k s
    by (simp add: admitted_remove_def drop_guard_def split: option.split prod.split)
  show ?thesis by (induction ks arbitrary: s) (simp_all add: one)
qed

lemma removes_fields:
  "\<exists>heap adm. fold admitted_remove ks s = s\<lparr>qp_heap := heap, qp_admitted := adm\<rparr>
     \<and> (\<forall>h kind. budget_refusals (heap ! h) kind = budget_refusals (qp_heap s ! h) kind)"
proof (induction ks arbitrary: s)
  case Nil
  have "s = s\<lparr>qp_heap := qp_heap s, qp_admitted := qp_admitted s\<rparr>" by simp
  then show ?case by (metis fold_Nil id_apply)
next
  case (Cons k ks)
  obtain heap adm where one: "admitted_remove k s = s\<lparr>qp_heap := heap, qp_admitted := adm\<rparr>" by (rule admitted_remove_retires)
  have refs: "budget_refusals (heap ! h) kind = budget_refusals (qp_heap s ! h) kind" for h kind
    using admitted_remove_refusals [of k s h kind] by (simp add: one)
  from Cons.IH [of "admitted_remove k s"] obtain heap' adm' where
    "fold admitted_remove ks (admitted_remove k s) = (admitted_remove k s)\<lparr>qp_heap := heap', qp_admitted := adm'\<rparr>"
    "\<forall>h kind. budget_refusals (heap' ! h) kind = budget_refusals (qp_heap (admitted_remove k s) ! h) kind" by blast
  then have "fold admitted_remove (k # ks) s = s\<lparr>qp_heap := heap', qp_admitted := adm'\<rparr>"
    "\<forall>h kind. budget_refusals (heap' ! h) kind = budget_refusals (qp_heap s ! h) kind" by (simp_all add: one refs)
  then show ?case by blast
qed

lemma retire_many:
  "ledger_ok s \<Longrightarrow> ledger_ok ((fold admitted_remove ks s)\<lparr>qp_active_requests := filter (\<lambda>k. k \<notin> set ks) (qp_active_requests s)\<rparr>)"
proof (induction ks arbitrary: s)
  case Nil
  then show ?case by simp
next
  case (Cons k ks)
  obtain p g where k: "k = (p, g)" by force
  let ?a = "removeAll k (qp_active_requests s)"
  have "ledger_ok ((admitted_remove k s)\<lparr>qp_active_requests := ?a\<rparr>)" using retire_ledger [OF Cons.prems] by (simp add: k)
  from Cons.IH [OF this] have "ledger_ok ((fold admitted_remove ks (admitted_remove k s))\<lparr>qp_active_requests :=
      filter (\<lambda>k. k \<notin> set ks) ?a\<rparr>)" by (simp add: removes_commute)
  then show ?case by (rule ledger_cong) auto
qed

lemma forget_budget:
  assumes ok: "ledger_ok s" and none: "\<And>k. k \<in> set (qp_active_requests s) \<Longrightarrow> fst k \<noteq> p"
  shows "ledger_ok (s\<lparr>qp_budgets := AList.delete p (qp_budgets s)\<rparr>)" (is "ledger_ok ?t")
proof -
  have hold: "holders_of ?t h = holders_of s h" for h using none by (auto simp: holders_of_def lookup_simps)
  have "\<exists>h. map_of (AList.delete p (qp_budgets s)) q = Some h \<and> guard = (h, BkSuggestion)"
    if "map_of (qp_admitted s) (q, g) = Some guard" for q g guard
  proof -
    have "(q, g) \<in> set (qp_active_requests s)" using ok that unfolding ledger_ok_def guards_ok_def by blast
    then have "q \<noteq> p" using none by force
    moreover have "\<exists>h. map_of (qp_budgets s) q = Some h \<and> guard = (h, BkSuggestion)"
      using ok that unfolding ledger_ok_def guards_ok_def by blast
    ultimately show ?thesis by (simp add: lookup_simps)
  qed
  then have "guards_ok ?t" using ok by (simp add: ledger_ok_def guards_ok_def)
  moreover have "cells_ok ?t" using ok by (auto simp: ledger_ok_def cells_ok_def hold lookup_simps split: if_splits)
  moreover have "handles_apart (AList.delete p (qp_budgets s))"
    using ok unfolding ledger_ok_def handles_apart_def by (simp add: lookup_simps)
  ultimately show ?thesis by (simp add: ledger_ok_def)
qed

lemma unregister_slots:
  assumes ok: "slots_ok {} s" and t: "t = fold admitted_remove (filter (\<lambda>k. fst k = p) (map fst (qp_admitted s))) s"
    and u: "qp_heap u = qp_heap t" "qp_admitted u = qp_admitted t" "qp_budgets u = AList.delete p (qp_budgets s)"
      "qp_active_requests u = filter (\<lambda>k. fst k \<noteq> p) (qp_active_requests s)"
      "\<And>k. flights (qp_scheduler u) k = (if k = p then [] else flights (qp_scheduler s) k)"
  shows "slots_ok {} u"
proof -
  let ?ks = "filter (\<lambda>k. fst k = p) (map fst (qp_admitted s))"
  let ?v = "t\<lparr>qp_active_requests := filter (\<lambda>k. k \<notin> set ?ks) (qp_active_requests s)\<rparr>"
  have led: "ledger_ok s" and air: "airborne_ok {} s" using ok by (simp_all add: slots_ok_def)
  have adm: "k \<in> fst ` set (qp_admitted s) \<longleftrightarrow> k \<in> set (qp_active_requests s)" for k
    using led by (simp add: ledger_ok_def guards_ok_def dom_map_of_conv_image_fst)
  have same: "set (qp_active_requests ?v) = {k \<in> set (qp_active_requests s). fst k \<noteq> p}"
    using adm by auto
  have "ledger_ok ?v" unfolding t by (rule retire_many [OF led])
  moreover have "fst k \<noteq> p" if "k \<in> set (qp_active_requests ?v)" for k using that unfolding same by simp
  ultimately have "ledger_ok (?v\<lparr>qp_budgets := AList.delete p (qp_budgets ?v)\<rparr>)" by (rule forget_budget)
  moreover have "qp_budgets t = qp_budgets s" using removes_fields [of ?ks s] by (auto simp: t)
  ultimately have "ledger_ok u"
    by (rule_tac ledger_cong [of "?v\<lparr>qp_budgets := AList.delete p (qp_budgets ?v)\<rparr>"]) (use same in \<open>auto simp: u\<close>)
  moreover have "airborne_ok {} u" using air by (auto simp: airborne_ok_def running_def u)
  ultimately show ?thesis by (simp add: slots_ok_def)
qed

lemma unregister_ok:
  assumes ok: "pipe_ok {} s"
  shows "pipe_ok {} (fst (pipeline_unregister_plugin p s))" and "rosters s (fst (pipeline_unregister_plugin p s))"
    and "set (qp_registered (fst (pipeline_unregister_plugin p s))) = set (qp_registered s) - {p}"
proof -
  note reg = pipe_okD(2) [OF ok]
  define t where "t = fold admitted_remove (filter (\<lambda>k. fst k = p) (map fst (qp_admitted s))) s"
  obtain heap adm where t: "t = s\<lparr>qp_heap := heap, qp_admitted := adm\<rparr>"
    and refs: "\<forall>h kind. budget_refusals (heap ! h) kind = budget_refusals (qp_heap s ! h) kind"
    using removes_fields unfolding t_def by blast
  define u where "u = t\<lparr>qp_active_requests := filter (\<lambda>k. fst k \<noteq> p) (qp_active_requests t),
      qp_unresolved_cancellations := filter (\<lambda>k. fst k \<noteq> p) (qp_unresolved_cancellations t),
      qp_pending_completions := filter (\<lambda>kv. fst (fst kv) \<noteq> p) (qp_pending_completions t),
      qp_pending_cancellations := filter (\<lambda>c. cr_plugin c \<noteq> p) (qp_pending_cancellations t),
      qp_pending_errors := filter (\<lambda>e. \<not> error_concerns p e) (qp_pending_errors t),
      qp_scheduler := fst (sched_unregister_plugin p (qp_scheduler t)),
      qp_intake := fst (intake_unregister p (qp_intake t)),
      qp_supervisor := fst (supervisor_unregister p (qp_supervisor t)),
      qp_aggregator := remove_plugin_limits p (qp_aggregator t),
      qp_health_sync := AList.delete p (qp_health_sync t),
      qp_budgets := AList.delete p (qp_budgets t),
      qp_registered := filter (\<lambda>r. r \<noteq> p) (qp_registered t)\<rparr>"
  have "slots_ok {} u"
    by (rule unregister_slots [OF pipe_okD(4) [OF ok] t_def]) (simp_all add: u_def t unregister_flights)
  moreover have "watermark_ok u q" for q
    using pipe_okD(3) [OF ok] refs
    by (cases "q = p") (auto simp: watermarks_ok_def watermark_ok_def plugin_budget_def lookup_simps u_def t refusals_in_health_def
        supervisor_health_def supervisor_unregister_def)
  then have "watermarks_ok u" by (simp add: watermarks_ok_def)
  moreover have "registries_ok u"
  proof -
    have "iq_members (fst (intake_unregister p (qp_intake s))) = set (qp_registered s) - {p}"
      "sv_members (fst (supervisor_unregister p (qp_supervisor s))) = set (qp_registered s) - {p}"
      "sched_members (fst (sched_unregister_plugin p (qp_scheduler s))) = set (qp_registered s) - {p}"
      using reg by (simp_all add: intake_registry.lockstep_expel supervisor_registry.lockstep_expel
          sched_registry.lockstep_expel registries_ok_def)
    then show ?thesis using reg by (auto simp: registries_ok_def u_def t dom_delete distinct_delete)
  qed
  moreover have "fst ` set (filter (\<lambda>k. fst k \<noteq> p) (qp_unresolved_cancellations s)) \<subseteq> set (qp_registered s) - {p}"
    using ok by (auto simp: pipe_parts)
  moreover have "distinct (map fst (filter (\<lambda>kv. fst (fst kv) \<noteq> p) (qp_pending_completions s)))"
    using ok by (auto simp: pipe_parts intro: distinct_map_filter)
  moreover have "length (filter Q (qp_pending_errors s)) \<le> qp_error_capacity s" for Q
    by (rule le_trans [OF length_filter_le]) (use ok in \<open>simp add: pipe_parts\<close>)
  moreover have "iq_gate (fst (intake_unregister p i)) = iq_gate i \<and> iq_limits (fst (intake_unregister p i)) = iq_limits i" for i
    by (simp add: intake_unregister_def Let_def iq_gate_def split: option.splits)
  moreover have "ag_ok (remove_plugin_limits p (qp_aggregator s))" "ag_gate (remove_plugin_limits p (qp_aggregator s)) = ag_gate (qp_aggregator s)"
    using ag_ok_exec [OF pipe_okD(6) [OF ok], of "AgRemoveLimits p"] exec_gate [OF pipe_okD(6) [OF ok], of "AgRemoveLimits p"] by simp_all
  ultimately have oku: "pipe_ok {} u"
    using ok inv_unregister [OF pipe_okD(1) [OF ok]] intake_ok_unregister [OF pipe_okD(5) [OF ok]]
    by (auto simp: pipe_parts u_def t sched_current_generation_def)
  have eq: "fst (pipeline_unregister_plugin p s) = (if p \<in> set (qp_registered s) then u else s)"
  proof (cases "map_of (qp_health_sync s) p")
    case None
    then have "p \<notin> set (qp_registered s)" using registered_lookups(1) [OF reg, of p] by simp
    with None show ?thesis unfolding pipeline_unregister_plugin_def by simp
  next
    case (Some hs)
    then have "p \<in> set (qp_registered s)" using registered_lookups(1) [OF reg, of p] by auto
    with Some show ?thesis unfolding pipeline_unregister_plugin_def Let_def t_def [symmetric] u_def by simp
  qed
  show "pipe_ok {} (fst (pipeline_unregister_plugin p s))" using ok oku by (simp add: eq)
  show "rosters s (fst (pipeline_unregister_plugin p s))" by (simp add: eq rosters_def u_def t screen_ok_def)
  show "set (qp_registered (fst (pipeline_unregister_plugin p s))) = set (qp_registered s) - {p}"
    by (auto simp: eq u_def t)
qed

end
