(* ===== verification/Pipeline_Props.thy ===== *)
theory Pipeline_Props
  imports Pipeline_Registry
begin

text \<open>
  The pipeline as a machine: its operations, what a caller may ask of it, the states it can
  reach, and the properties that hold in all of them.
\<close>

section \<open>The machine\<close>

text \<open>
  The hosts share the budgets: they create cells, and hold and give back slots of the kinds
  that are not suggestions (\<open>PoShare\<close>, \<open>PoHold\<close>, \<open>PoGiveBack\<close>).
\<close>

datatype pipe_op =
    PoRegister plugin_id plugin_policy intake_policy concurrency_section
  | PoRegisterBudget plugin_id plugin_policy intake_policy budget_handle
  | PoRegisterManifest plugin_id manifest
  | PoRegisterManifestBudget plugin_id manifest budget_handle
  | PoUnregister plugin_id
  | PoOverride plugin_id scheduling_profile
  | PoSetProfile plugin_id scheduling_profile
  | PoKeystroke string millis
  | PoTick millis
  | PoDeliver result_batch batch_priority millis
  | PoComplete plugin_id generation millis
  | PoAbort plugin_id generation millis
  | PoPresent icon_resolver millis
  | PoPresentDrained icon_resolver millis
  | PoHealth plugin_id
  | PoTakeErrors
  | PoIcons
  | PoShare concurrency_section
  | PoHold budget_handle budget_kind
  | PoGiveBack budget_handle budget_kind

fun pipe_exec :: "regex_builder \<Rightarrow> pipe_op \<Rightarrow> query_pipeline \<Rightarrow> query_pipeline option" where
  "pipe_exec rb (PoRegister p policy ipol c) s = map_option fst (register_plugin_with_concurrency p policy ipol c s)"
| "pipe_exec rb (PoRegisterBudget p policy ipol h) s = map_option fst (register_plugin_with_budget p policy ipol h s)"
| "pipe_exec rb (PoRegisterManifest p mf) s = map_option fst (register_namespaced_manifest rb p mf s)"
| "pipe_exec rb (PoRegisterManifestBudget p mf h) s = map_option fst (register_namespaced_manifest_with_budget rb p mf h s)"
| "pipe_exec rb (PoUnregister p) s = Some (fst (pipeline_unregister_plugin p s))"
| "pipe_exec rb (PoOverride p prof) s = Some (override_scheduling_profile p prof s)"
| "pipe_exec rb (PoSetProfile p prof) s = Some (fst (set_scheduling_profile p prof s))"
| "pipe_exec rb (PoKeystroke text now) s = map_option fst (keystroke text now s)"
| "pipe_exec rb (PoTick now) s = map_option fst (run_tick now s)"
| "pipe_exec rb (PoDeliver b priority now) s = map_option fst (deliver_with_priority b priority now s)"
| "pipe_exec rb (PoComplete p g now) s = map_option fst (pipeline_complete p g now s)"
| "pipe_exec rb (PoAbort p g now) s = map_option fst (abort_request p g now s)"
| "pipe_exec rb (PoPresent resolve now) s = map_option fst (present resolve now s)"
| "pipe_exec rb (PoPresentDrained resolve now) s = map_option fst (present_drained resolve now s)"
| "pipe_exec rb (PoHealth p) s = map_option fst (pipeline_health p s)"
| "pipe_exec rb PoTakeErrors s = Some (fst (take_errors s))"
| "pipe_exec rb PoIcons s = Some (set_plugin_icons s)"
| "pipe_exec rb (PoShare c) s = Some (fst (share_budget (budget_from_section c) s))"
| "pipe_exec rb (PoHold h kind) s = Some (fst (try_acquire_owned h kind s))"
| "pipe_exec rb (PoGiveBack h kind) s = Some (drop_guard (h, kind) s)"

text \<open>
  What a caller may ask: a handle it can hold, a manifest whose patterns compile or fall
  back, a query while there are generations left; and suggestion slots are the pipeline's.
\<close>

fun op_fits :: "regex_builder \<Rightarrow> query_pipeline \<Rightarrow> pipe_op \<Rightarrow> bool" where
  "op_fits rb s (PoRegisterBudget p policy ipol h) = (h < length (qp_heap s))"
| "op_fits rb s (PoRegisterManifest p mf) = (plugin_policy_from_manifest rb mf \<noteq> None)"
| "op_fits rb s (PoRegisterManifestBudget p mf h) = (plugin_policy_from_manifest rb mf \<noteq> None \<and> h < length (qp_heap s))"
| "op_fits rb s (PoKeystroke text now) = (qp_generation s \<noteq> - 1)"
| "op_fits rb s (PoHold h kind) = (h < length (qp_heap s) \<and> kind \<noteq> BkSuggestion)"
| "op_fits rb s (PoGiveBack h kind) = (h < length (qp_heap s) \<and> kind \<noteq> BkSuggestion)"
| "op_fits rb s op = True"

text \<open>The sizes of a configuration are machine sizes.\<close>

definition config_fits :: "pipeline_config \<Rightarrow> bool" where
  "config_fits c \<longleftrightarrow>
     request_queue_capacity (pc_scheduler c) \<le> usize_max \<and> result_queue_capacity (pc_scheduler c) \<le> usize_max
     \<and> limits_ok (pc_limits c) \<and> ql_capacity_batches (pc_intake_limits c) \<le> usize_max
     \<and> dg_items_per_plugin (pc_drain_budget c) \<le> usize_max"

inductive pipe_reach :: "regex_builder \<Rightarrow> pipeline_config \<Rightarrow> query_pipeline \<Rightarrow> bool" for rb c where
  start: "pipe_reach rb c (pipeline_new c [])"
| step: "pipe_reach rb c s \<Longrightarrow> op_fits rb s op \<Longrightarrow> pipe_exec rb op s = Some s' \<Longrightarrow> pipe_reach rb c s'"

section \<open>The invariant is inductive\<close>

lemma pipe_new_ok:
  assumes fits: "config_fits c"
  shows "pipe_ok {} (pipeline_new c [])" and "screen_ok (pipeline_new c [])"
proof -
  let ?s = "pipeline_new c []"
  have usize: "1 \<le> usize_max" by (simp add: usize_max_def)
  have fields: "qp_scheduler ?s = scheduler_new (pc_scheduler c)" "qp_generation ?s = 0" "qp_unranked_batches ?s = 0"
    "qp_result_trace_capacity ?s = max (result_queue_capacity (pc_scheduler c)) 1" "qp_registered ?s = []" "qp_budgets ?s = []"
    "qp_health_sync ?s = []" "qp_admitted ?s = []" "qp_active_requests ?s = []" "qp_heap ?s = []" "qp_pending_completions ?s = []"
    "qp_pending_errors ?s = []" "qp_unresolved_cancellations ?s = []" "qp_aggregator ?s = ag_new (pc_limits c)"
    by (simp_all add: pipeline_new_def Let_def generation_zero_def)
  have "sched_side ?s"
    using inv_new [of "pc_scheduler c"] fits usize
    by (simp add: sched_side_def fields config_fits_def)
      (simp add: scheduler_new_def normalize_config_def sched_current_generation_def tracker_new_def tracker_current_def generation_zero_def)
  moreover have "result_side ?s"
    using fits usize intake_ok_new ag_ok_new
    by (simp add: result_side_def fields config_fits_def opened_def serving_def)
      (simp add: pipeline_new_def Let_def intake_new_def iq_gate_def ag_gate_def ag_new_def generation_zero_def less_max_iff_disj)
  moreover have "flights (scheduler_new (pc_scheduler c)) p = []" "sched_members (scheduler_new (pc_scheduler c)) = {}" for p
    by (simp_all add: flights_def sched_members_def view_def scheduler_new_def)
  then have "slots_ok {} ?s" "registries_ok ?s"
    by (simp_all add: slots_ok_def ledger_ok_def guards_ok_def cells_ok_def handles_apart_def airborne_ok_def running_def registries_ok_def fields)
      (simp add: pipeline_new_def Let_def iq_members_def sv_members_def intake_new_def supervisor_new_def)
  moreover have "watermarks_ok ?s" by (simp add: watermarks_ok_def watermark_ok_def fields)
  moreover have "books_ok ?s" by (simp add: books_ok_def fields) (simp add: pipeline_new_def Let_def)
  ultimately show "pipe_ok {} ?s" by (simp add: pipe_ok_def)
  show "screen_ok ?s" by (simp add: screen_ok_def fields)
qed

lemma hold_ok:
  assumes ok: "pipe_ok {} s" and h: "h < length (qp_heap s)"
    and cell: "\<And>n. cell_ok (qp_heap s ! h) n \<Longrightarrow> cell_ok b n"
    and refs: "\<And>kind. budget_refusals (qp_heap s ! h) kind \<le> budget_refusals b kind"
  shows "pipe_ok {} (s\<lparr>qp_heap := (qp_heap s)[h := b]\<rparr>)" (is "pipe_ok {} ?t")
proof (rule admits_to_pipe [OF ok])
  show "admits_to s ?t" unfolding admits_to_def
    by (intro exI [of _ "(qp_heap s)[h := b]"] exI [of _ "qp_admitted s"] exI [of _ "qp_active_requests s"]) simp
  have "ledger_ok ?t" using pipe_okD(4) [OF ok] by (intro refuse_ledger [OF _ h cell]) (simp_all add: slots_ok_def)
  then show "slots_ok {} ?t" using pipe_okD(4) [OF ok] by (simp add: slots_ok_def airborne_ok_def running_def)
  show "budget_refusals (qp_heap s ! k) kind \<le> budget_refusals (qp_heap ?t ! k) kind" for k kind
    using h refs by (cases "k = h") simp_all
qed

lemma health_ok:
  assumes ok: "pipe_ok {} s"
  obtains s' where "pipeline_health p s = Some (s', supervisor_health (qp_supervisor s') p)" and "pipe_ok {} s'" and "health_change s s'"
    and "p \<in> set (qp_registered s) \<longrightarrow> refusals_settled s' p"
proof -
  obtain s' where "sync_concurrency_refusals p s = Some s'" "health_change s s'"
    "\<And>q. q = p \<and> p \<in> set (qp_registered s) \<or> refusals_settled s q \<Longrightarrow> refusals_settled s' q"
    by (rule sync_refusals_ok [OF pipe_okD(2,3) [OF ok], of p]) blast
  then show thesis using pipe_health [OF _ ok] by (intro that [of s']) (auto simp: pipeline_health_def)
qed

lemma exec_ok:
  assumes ok: "pipe_ok {} s" and screen: "screen_ok s" and fits: "op_fits rb s op"
  shows "\<exists>s'. pipe_exec rb op s = Some s' \<and> pipe_ok {} s' \<and> screen_ok s'"
proof (cases op)
  case (PoRegister p policy ipol c)
  then show ?thesis using register_concurrency_ok [OF ok, of p policy ipol c] screen by (force simp: rosters_def)
next
  case (PoRegisterBudget p policy ipol h)
  then show ?thesis using register_budget_ok [OF ok, of h p policy ipol] screen fits by (force simp: rosters_def)
next
  case (PoRegisterManifest p mf)
  then show ?thesis using register_manifest_ok [OF ok, of rb mf p] screen fits by (force simp: rosters_def)
next
  case (PoRegisterManifestBudget p mf h)
  then show ?thesis using register_manifest_budget_ok [OF ok, of rb mf h p] screen fits by (force simp: rosters_def)
next
  case (PoUnregister p)
  then show ?thesis using unregister_ok [OF ok, of p] screen by (simp add: rosters_def)
next
  case (PoOverride p prof)
  then show ?thesis using ok screen by (simp add: override_scheduling_profile_def screen_ok_def)
next
  case (PoSetProfile p prof)
  then show ?thesis using set_profile_ok [OF ok, of p prof] screen by (simp add: rosters_def)
next
  case (PoKeystroke query now)
  then obtain s' where "keystroke query now s = Some (s', qp_generation s + 1)" "pipe_ok {} s'" "screen_ok s'"
    using keystroke_ok [OF ok, of query now] fits by (metis op_fits.simps(4))
  with PoKeystroke show ?thesis by simp
next
  case (PoTick now)
  obtain s' out where "run_tick now s = Some (s', out)" "pipe_ok {} s'" "screen_ok s'" by (rule run_tick_ok [OF ok screen])
  with PoTick show ?thesis by simp
next
  case (PoDeliver b priority now)
  then show ?thesis using deliver_ok [OF ok, of b priority now] screen by (force simp: keeps_def)
next
  case (PoComplete p g now)
  then show ?thesis using complete_ok [OF ok, of p g now] screen by (force simp: keeps_def)
next
  case (PoAbort p g now)
  then show ?thesis using abort_ok [OF ok, of p g now] screen by (force simp: keeps_def)
next
  case (PoPresent resolve now)
  obtain s' f where "present resolve now s = Some (s', f)" "pipe_ok {} s'" "screen_ok s'" by (rule present_ok [OF ok screen])
  with PoPresent show ?thesis by simp
next
  case (PoPresentDrained resolve now)
  obtain s' f where "present_drained resolve now s = Some (s', f)" "pipe_ok {} s'" "screen_ok s'"
    by (rule present_drained_ok [OF ok screen])
  with PoPresentDrained show ?thesis by simp
next
  case (PoHealth p)
  obtain s' where "pipeline_health p s = Some (s', supervisor_health (qp_supervisor s') p)" "pipe_ok {} s'" "health_change s s'"
    by (rule health_ok [OF ok])
  with PoHealth screen_retires [OF health_retires] screen show ?thesis by auto
next
  case PoTakeErrors
  have "pipe_ok {} (s\<lparr>qp_pending_errors := []\<rparr>)" by (rule pipe_errors [OF ok]) simp
  with PoTakeErrors screen show ?thesis by (simp add: take_errors_def screen_ok_def)
next
  case PoIcons
  then show ?thesis using ok screen by (simp add: set_plugin_icons_def screen_ok_def)
next
  case (PoShare c)
  then show ?thesis using share_budget_ok(1,4) [OF ok cell_from_section, of c] screen by (simp add: keeps_def)
next
  case (PoHold h kind)
  then have "pipe_ok {} (s\<lparr>qp_heap := (qp_heap s)[h := fst (admit kind (qp_heap s ! h))]\<rparr>)"
    using fits by (intro hold_ok [OF ok] cell_other(2) admit_refusals) simp_all
  with PoHold screen show ?thesis by (simp add: try_acquire_owned_def case_prod_beta screen_ok_def)
next
  case (PoGiveBack h kind)
  then have "pipe_ok {} (s\<lparr>qp_heap := (qp_heap s)[h := release kind (qp_heap s ! h)]\<rparr>)"
    using fits by (intro hold_ok [OF ok] cell_other(1)) simp_all
  with PoGiveBack screen fits show ?thesis by (simp add: drop_guard_def screen_ok_def)
qed

lemma reach_ok:
  assumes "pipe_reach rb c s" and "config_fits c"
  shows "pipe_ok {} s \<and> screen_ok s"
  using assms(1)
proof (induction rule: pipe_reach.induct)
  case start
  then show ?case using pipe_new_ok [OF assms(2)] by simp
next
  case (step s op s')
  then show ?case using exec_ok [of s rb op] by auto
qed

section \<open>A concrete run\<close>

fun pipe_run :: "regex_builder \<Rightarrow> pipe_op list \<Rightarrow> query_pipeline \<Rightarrow> query_pipeline option" where
  "pipe_run rb [] s = Some s"
| "pipe_run rb (op # ops) s = (if op_fits rb s op then pipe_exec rb op s \<bind> pipe_run rb ops else None)"

lemma pipe_run_reach: "pipe_reach rb c s \<Longrightarrow> pipe_run rb ops s = Some s' \<Longrightarrow> pipe_reach rb c s'"
  by (induction ops arbitrary: s) (auto split: if_splits bind_splits intro: pipe_reach.step)

definition demo_pipe_config :: pipeline_config where
  "demo_pipe_config =
     \<lparr>pc_scheduler = demo_config, pc_limits = demo_limits, pc_intake_limits = demo_queue_limits,
      pc_default_intake_policy = demo_intake_policy OvPauseProducer, pc_drain_budget = demo_budget\<rparr>"

text \<open>Two plugins; one is asked, answers, and reports that it is done while its answer waits.\<close>

definition demo_pipe_ops :: "pipe_op list" where
  "demo_pipe_ops =
     [PoShare default_concurrency_section,
      PoRegisterBudget ''files'' legacy_strict (demo_intake_policy OvPauseProducer) 0,
      PoRegister ''calc'' legacy_strict (demo_intake_policy OvPauseProducer) default_concurrency_section,
      PoKeystroke ''re'' 10, PoTick 20, PoDeliver (demo_batch BatchFinal [''a'']) PriorityHigh 21,
      PoComplete ''files'' 1 22, PoHold 0 BkAction]"

definition demo_pipe :: query_pipeline where
  "demo_pipe = the (pipe_run demo_builder demo_pipe_ops (pipeline_new demo_pipe_config []))"

lemma demo_pipe_run: "pipe_run demo_builder demo_pipe_ops (pipeline_new demo_pipe_config []) = Some demo_pipe"
proof -
  have "\<not> Option.is_none (pipe_run demo_builder demo_pipe_ops (pipeline_new demo_pipe_config []))" by code_simp
  then show ?thesis by (auto simp: demo_pipe_def Option.is_none_def)
qed

lemma demo_pipe_reach: "pipe_reach demo_builder demo_pipe_config demo_pipe"
  by (rule pipe_run_reach [OF pipe_reach.start demo_pipe_run])

lemma demo_pipe_fits: "config_fits demo_pipe_config"
  using demo_limits_ok
  by (simp add: config_fits_def demo_pipe_config_def demo_config_def demo_queue_limits_def demo_budget_def usize_max_def)

lemma demo_pipe_facts:
  "qp_generation demo_pipe = 1" "qp_registered demo_pipe = [''files'', ''calc'']"
  "qp_active_requests demo_pipe = [(''files'', 1)]" "qp_budgets demo_pipe = [(''files'', 0), (''calc'', 1)]"
  "length (qp_heap demo_pipe) = 2" "iq_total_batches (qp_intake demo_pipe) = 1"
proof -
  let ?r = "pipe_run demo_builder demo_pipe_ops (pipeline_new demo_pipe_config [])"
  have "map_option (\<lambda>s. (qp_generation s, qp_registered s, qp_active_requests s, qp_budgets s)) ?r
      = Some (1, [''files'', ''calc''], [(''files'', 1)], [(''files'', 0), (''calc'', 1)])"
    and "map_option (\<lambda>s. (length (qp_heap s), iq_total_batches (qp_intake s))) ?r = Some (2, 1)"
    by code_simp+
  then show "qp_generation demo_pipe = 1" "qp_registered demo_pipe = [''files'', ''calc'']"
    "qp_active_requests demo_pipe = [(''files'', 1)]" "qp_budgets demo_pipe = [(''files'', 0), (''calc'', 1)]"
    "length (qp_heap demo_pipe) = 2" "iq_total_batches (qp_intake demo_pipe) = 1"
    by (simp_all add: demo_pipe_run)
qed

section \<open>Properties\<close>

text \<open>
  C3: Whatever the user, the plugins and the hosts do, in any order, the pipeline returns:
  none of its \<open>expect\<close>s on the scheduler, the intake, the supervisor and the watermarks is
  reached, the state it leaves is reachable again, and in it the four registries (scheduler,
  intake, supervisor, budgets) name the same plugins.
\<close>

theorem pipeline_never_panics:
  assumes "pipe_reach rb c s" and "config_fits c" and "op_fits rb s op"
  shows "\<exists>s'. pipe_exec rb op s = Some s' \<and> pipe_reach rb c s'
    \<and> sched_members (qp_scheduler s') = set (qp_registered s')
    \<and> iq_members (qp_intake s') = set (qp_registered s')
    \<and> sv_members (qp_supervisor s') = set (qp_registered s')
    \<and> dom (map_of (qp_budgets s')) = set (qp_registered s')"
proof -
  obtain s' where s': "pipe_exec rb op s = Some s'" "pipe_ok {} s'"
    using exec_ok [of s rb op] reach_ok [OF assms(1,2)] assms(3) by blast
  have "pipe_reach rb c s'" by (rule pipe_reach.step [OF assms(1,3) s'(1)])
  with s' pipe_okD(2) [OF s'(2)] show ?thesis by (auto simp: registries_ok_def)
qed

theorem pipeline_never_panics_witness:
  "\<exists>s'. pipe_exec demo_builder (PoUnregister ''files'') demo_pipe = Some s' \<and> sched_members (qp_scheduler s') = set (qp_registered s')"
  using pipeline_never_panics [OF demo_pipe_reach demo_pipe_fits, of "PoUnregister ''files''"] by auto

text \<open>
  C4: The suggestion slots a plugin's budget says are taken are the plugin's requests in the
  air: as many as the scheduler has in flight for it, the very ones the pipeline tracks as
  active, and never more than the limit. No slot leaks and none is given back twice.
\<close>

theorem slots_match_running_work:
  assumes "pipe_reach rb c s" and "config_fits c" and "p \<in> set (qp_registered s)"
  shows "\<exists>b. plugin_budget s p = Some b
    \<and> unat (budget_in_flight b BkSuggestion) = length (flights (qp_scheduler s) p)
    \<and> set (flights (qp_scheduler s) p) = {g. (p, g) \<in> set (qp_active_requests s)}
    \<and> budget_in_flight b BkSuggestion \<le> budget_limit b BkSuggestion"
proof -
  have ok: "pipe_ok {} s" using reach_ok [OF assms(1,2)] by simp
  note parts = pipe_okD(2) [OF ok] pipe_okD(4) [OF ok]
  obtain h where h: "map_of (qp_budgets s) p = Some h" using parts(1) assms(3) unfolding registries_ok_def by blast
  have apart: "handles_apart (qp_budgets s)" and cells: "cells_ok s" and air: "set (flights (qp_scheduler s) p) = running s p"
    using parts(2) by (auto simp: slots_ok_def ledger_ok_def airborne_ok_def)
  have "holders_of s h = Pair p ` running s p"
    using apart h unfolding handles_apart_def holders_of_def running_def by force
  then have "card (holders_of s h) = card (running s p)" by (simp add: card_image inj_on_def)
  moreover have "cell_ok (qp_heap s ! h) (card (holders_of s h))" using cells h unfolding cells_ok_def by blast
  moreover have "length (flights (qp_scheduler s) p) = card (running s p)"
    using flights_distinct [OF pipe_okD(1) [OF ok], of p] air by (metis distinct_card)
  ultimately show ?thesis using h air by (simp add: plugin_budget_def cell_ok_def running_def)
qed

theorem slots_match_running_work_witness:
  "\<exists>b. plugin_budget demo_pipe ''files'' = Some b
    \<and> unat (budget_in_flight b BkSuggestion) = length (flights (qp_scheduler demo_pipe) ''files'') \<and> set (flights (qp_scheduler demo_pipe) ''files'') = {1}"
  using slots_match_running_work [OF demo_pipe_reach demo_pipe_fits, of "''files''"] by (auto simp: demo_pipe_facts)

text \<open>
  C5: A tick returns, and every request it hands to a host is one the pipeline has admitted
  against its plugin's budget and tracks as active. Of the batches its drain merged, each
  that answers a request still in flight and not cancelled is recorded by the scheduler and
  counted for ranking; the scheduler's result queue is never too full for it. The errors it
  reports are exactly the ones that were waiting, one stale rejection for every other merged
  batch, and the aggregator's rejections of drained batches.
\<close>

theorem tick_hands_out_admitted_work:
  assumes "pipe_reach rb c s" and "config_fits c"
  shows "\<exists>s' out. run_tick now s = Some (s', out)
    \<and> (\<forall>d \<in> set (pt_dispatches out). (dr_plugin d, dr_generation d) \<in> set (qp_active_requests s')
         \<and> map_of (qp_admitted s') (dr_plugin d, dr_generation d) \<noteq> None)
    \<and> pt_errors out = qp_pending_errors s
        @ map (\<lambda>m. PlAggregatorRejected (mb_plugin m) (mb_generation m) RejStaleGeneration)
            (filter (\<lambda>m. \<not> live_request (qp_scheduler s) (mb_plugin m) (mb_generation m)) (rp_merged_batches (pt_drain_report out)))
        @ map (\<lambda>(plugin, reason). PlAggregatorRejected plugin (qp_generation s) reason) (rp_merge_rejected (pt_drain_report out))
    \<and> qp_unranked_batches s' = qp_unranked_batches s
        + length (filter (\<lambda>m. live_request (qp_scheduler s) (mb_plugin m) (mb_generation m)) (rp_merged_batches (pt_drain_report out)))
    \<and> qp_pending_errors s' = []"
proof -
  have ok: "pipe_ok {} s" "screen_ok s" using reach_ok [OF assms] by simp_all
  obtain s' out where s': "run_tick now s = Some (s', out)" "pipe_ok {} s'"
    "dispatch_key ` set (pt_dispatches out) \<subseteq> set (qp_active_requests s')"
    "pt_errors out = qp_pending_errors s @ drain_errors s (pt_drain_report out)" "qp_pending_errors s' = []"
    "qp_unranked_batches s' = qp_unranked_batches s + answered s (pt_drain_report out)"
    by (rule run_tick_ok [OF ok, of now]) blast
  have guards: "dom (map_of (qp_admitted s')) = set (qp_active_requests s')"
    using pipe_okD(4) [OF s'(2)] by (simp add: slots_ok_def ledger_ok_def guards_ok_def)
  have "dispatch_key d \<in> set (qp_active_requests s')" "map_of (qp_admitted s') (dispatch_key d) \<noteq> None"
    if "d \<in> set (pt_dispatches out)" for d
    using that s'(3) guards by (blast, blast)
  moreover have "stale_merge = (\<lambda>m. PlAggregatorRejected (mb_plugin m) (mb_generation m) RejStaleGeneration)"
    and "answers (qp_scheduler s) = (\<lambda>m. live_request (qp_scheduler s) (mb_plugin m) (mb_generation m))"
    by (simp_all add: fun_eq_iff stale_merge_def answers_def)
  ultimately show ?thesis
    using s'(1,4-6) by (intro exI [of _ s'] exI [of _ out]) (simp add: dispatch_key_def drain_errors_def answered_def)
qed

theorem tick_hands_out_admitted_work_witness:
  "\<exists>s' out. run_tick 30 demo_pipe = Some (s', out) \<and> pt_dispatches out \<noteq> []
    \<and> (\<forall>d \<in> set (pt_dispatches out). (dr_plugin d, dr_generation d) \<in> set (qp_active_requests s'))"
proof -
  have "map_option (\<lambda>r. pt_dispatches (snd r) \<noteq> []) (pipe_run demo_builder demo_pipe_ops (pipeline_new demo_pipe_config []) \<bind> run_tick 30) = Some True"
    by code_simp
  then have "map_option (\<lambda>r. pt_dispatches (snd r) \<noteq> []) (run_tick 30 demo_pipe) = Some True" by (simp add: demo_pipe_run)
  then show ?thesis using tick_hands_out_admitted_work [OF demo_pipe_reach demo_pipe_fits, of 30] by fastforce
qed

text \<open>
  C6: Presenting until the intake is drained comes to an end: the bounded rounds of
  \<open>present_drained\<close> are always enough, afterwards no batch is waiting, and a frame it
  returns belongs to the newest query.
\<close>

theorem present_drained_empties_intake:
  assumes "pipe_reach rb c s" and "config_fits c"
  shows "\<exists>s' frame. present_drained resolve now s = Some (s', frame)
    \<and> qd_batches (intake_depth (qp_intake s')) = 0
    \<and> (\<forall>vm. frame = Some vm \<longrightarrow> vm_generation vm = qp_generation s \<and> vm_query vm = qp_query s)"
proof -
  have ok: "pipe_ok {} s" "screen_ok s" using reach_ok [OF assms] by simp_all
  obtain s' f where "present_drained resolve now s = Some (s', f)" "qp_generation s' = qp_generation s" "qp_query s' = qp_query s"
    "iq_total_batches (qp_intake s') = 0" "frame_current s' f"
    by (rule present_drained_ok [OF ok, of resolve now]) blast
  then show ?thesis by (auto simp: frame_current_def intake_depth_def)
qed

theorem present_drained_empties_intake_witness:
  "iq_total_batches (qp_intake demo_pipe) = 1
    \<and> (\<exists>s' frame. present_drained (\<lambda>p i. None) 40 demo_pipe = Some (s', frame) \<and> qd_batches (intake_depth (qp_intake s')) = 0)"
  using present_drained_empties_intake [OF demo_pipe_reach demo_pipe_fits, of "\<lambda>p i. None" 40] by (auto simp: demo_pipe_facts)

text \<open>
  C7: The health of a registered plugin reports, kind by kind, every refusal its budget has
  counted, the ones made by hosts that share the budget included; none is lost and none
  counted twice.
\<close>

theorem health_reports_every_refusal:
  assumes "pipe_reach rb c s" and "config_fits c" and "p \<in> set (qp_registered s)"
  shows "\<exists>s' health b. pipeline_health p s = Some (s', health) \<and> plugin_budget s p = Some b
    \<and> (\<forall>kind. refusals_of (ph_concurrency_refusals health) kind = budget_refusals b kind)"
proof -
  have ok: "pipe_ok {} s" using reach_ok [OF assms(1,2)] by simp
  obtain s' where s': "pipeline_health p s = Some (s', supervisor_health (qp_supervisor s') p)"
    "health_change s s'" "refusals_settled s' p"
    using assms(3) by (rule_tac health_ok [OF ok, of p]) blast
  have "dom (map_of (qp_budgets s)) = set (qp_registered s)" using pipe_okD(2) [OF ok] by (simp add: registries_ok_def)
  then obtain h where "map_of (qp_budgets s) p = Some h" using assms(3) by blast
  then obtain b where b: "plugin_budget s p = Some b" by (simp add: plugin_budget_def)
  have "plugin_budget s' p = plugin_budget s p" using s'(2) by (rule health_change_fields) (simp add: plugin_budget_def)
  with s'(3) b have "\<forall>kind. refusals_in_health (qp_supervisor s') p kind = budget_refusals b kind"
    by (simp add: refusals_settled_def)
  with s'(1) b show ?thesis by (simp add: refusals_in_health_def)
qed

theorem health_reports_every_refusal_witness:
  "\<exists>s' health b. pipeline_health ''files'' demo_pipe = Some (s', health) \<and> plugin_budget demo_pipe ''files'' = Some b
    \<and> refusals_of (ph_concurrency_refusals health) BkAction = budget_refusals b BkAction"
  using health_reports_every_refusal [OF demo_pipe_reach demo_pipe_fits, of "''files''"] unfolding demo_pipe_facts list.set by blast

end
