(* ===== verification/Wire.thy ===== *)
theory Wire
  imports Items
begin

text \<open>
  The primitives of the native plugin protocol: \<open>crates/crikey-native-protocol/src/wire.rs\<close>
  and the error type of \<open>lib.rs\<close>. Bytes are 8-bit words. Encoders append to an output
  buffer they never read, so each is modelled by the bytes it appends. A decoder reads an
  input at a cursor and returns the value with the cursor after it; an error ends the
  decoding of the whole message, so the cursor and the budget it leaves behind are not
  modelled. The sizes of Rust's types, which the compiler chooses, are parameters. An
  allocation the budget allows is taken to succeed, and \<open>usize\<close> has 64 bits, so that the
  conversions from \<open>u64\<close> cannot fail.
\<close>

unbundle bit_operations_syntax

type_synonym u8 = "8 word"
type_synonym bytes = "u8 list"

section \<open>Errors\<close>

datatype protocol_error =
    FrameTooLarge nat
  | DecodeBudgetExceeded nat nat
  | UnsupportedVersion u32
  | Malformed string
  | Closed
  | Io string
  | Timeout
  | Rejected string

text \<open>The \<open>?\<close> operator.\<close>

fun chain :: "'e + 'a \<Rightarrow> ('a \<Rightarrow> 'e + 'b) \<Rightarrow> 'e + 'b" where
  "chain (Inl e) f = Inl e"
| "chain (Inr v) f = f v"

fun ok_or :: "'e \<Rightarrow> 'a option \<Rightarrow> 'e + 'a" where
  "ok_or e None = Inl e"
| "ok_or e (Some v) = Inr v"

definition usize_checked_mul :: "nat \<Rightarrow> nat \<Rightarrow> nat option" where
  "usize_checked_mul a b = (if a * b \<le> usize_max then Some (a * b) else None)"

lemma usize_checked_mul_code [code]:
  "usize_checked_mul a b = (if int a * int b < 18446744073709551616 then Some (a * b) else None)"
  by (auto simp: usize_checked_mul_def usize_max_def simp flip: of_nat_mult)

definition usize_sat_mul :: "nat \<Rightarrow> nat \<Rightarrow> nat" where
  "usize_sat_mul a b = min (a * b) usize_max"

section \<open>The decode budget\<close>

definition decode_allocation_budget :: nat where
  "decode_allocation_budget = 8 * 1024 * 1024"

definition max_decode_depth :: nat where
  "max_decode_depth = 64"

definition decode_repetition_overhead :: nat where
  "decode_repetition_overhead = 64"

definition max_frame_bytes :: nat where
  "max_frame_bytes = decode_allocation_budget"

definition grown_capacity :: "nat \<Rightarrow> nat option" where
  "grown_capacity current =
     (if current = 0 then Some 4
      else case usize_checked_mul current 2 of
             None \<Rightarrow> None
           | Some doubled \<Rightarrow>
               (case usize_checked_add current 1024 of
                  None \<Rightarrow> None
                | Some limited \<Rightarrow> Some (min doubled limited)))"

text \<open>\<open>RepeatedFieldCharge\<close>; \<open>new\<close> takes the size of the element type.\<close>

record repeated_field_charge =
  rf_element :: nat
  rf_capacity :: nat
  rf_length :: nat
  rf_charged :: nat

definition rf_new :: "nat \<Rightarrow> repeated_field_charge" where
  "rf_new element = \<lparr>rf_element = element, rf_capacity = 0, rf_length = 0, rf_charged = 0\<rparr>"

definition rf_push :: "repeated_field_charge \<Rightarrow> repeated_field_charge" where
  "rf_push c =
     (let c = (if rf_length c = rf_capacity c
               then let grown = (case grown_capacity (rf_capacity c) of None \<Rightarrow> usize_max | Some n \<Rightarrow> n)
                    in c\<lparr>rf_charged := usize_sat_add (rf_charged c)
                           (usize_sat_mul (grown - rf_capacity c) (rf_element c)),
                         rf_capacity := grown\<rparr>
               else c);
          c = c\<lparr>rf_length := usize_sat_add (rf_length c) 1\<rparr>
      in c\<lparr>rf_charged := usize_sat_add (rf_charged c)
             (usize_sat_add (rf_element c) decode_repetition_overhead)\<rparr>)"

text \<open>The sizes of the types that repeated and map fields hold.\<close>

record layout =
  size_string :: nat
  size_string_pair :: nat
  size_item :: nat
  size_action :: nat
  size_page_input :: nat
  size_page_node :: nat

definition map_entry_charge :: "layout \<Rightarrow> nat" where
  "map_entry_charge lay = usize_sat_add (size_string_pair lay) decode_repetition_overhead"

record decode_budget =
  bg_remaining :: nat
  bg_depth :: nat

definition budget_new :: decode_budget where
  "budget_new = \<lparr>bg_remaining = decode_allocation_budget, bg_depth = 0\<rparr>"

definition enter_nested :: "decode_budget \<Rightarrow> protocol_error + decode_budget" where
  "enter_nested b =
     (if max_decode_depth \<le> bg_depth b then Inl (Malformed ''message nesting is too deep'')
      else Inr (b\<lparr>bg_depth := bg_depth b + 1\<rparr>))"

definition leave_nested :: "decode_budget \<Rightarrow> decode_budget" where
  "leave_nested b = b\<lparr>bg_depth := bg_depth b - 1\<rparr>"

definition charge :: "nat \<Rightarrow> decode_budget \<Rightarrow> protocol_error + decode_budget" where
  "charge amount b =
     (if bg_remaining b < amount then Inl (DecodeBudgetExceeded amount (bg_remaining b))
      else Inr (b\<lparr>bg_remaining := bg_remaining b - amount\<rparr>))"

definition charge_map_entry :: "layout \<Rightarrow> decode_budget \<Rightarrow> protocol_error + decode_budget" where
  "charge_map_entry lay b = charge (map_entry_charge lay) b"

text \<open>
  A vector the decoder fills starts empty and grows only in \<open>push_decoded\<close>, by exactly the
  amount reserved there, so its capacity is a function of its length.
\<close>

definition next_capacity :: "nat \<Rightarrow> nat \<Rightarrow> nat" where
  "next_capacity held capacity =
     (if held = capacity then (case grown_capacity capacity of None \<Rightarrow> capacity | Some grown \<Rightarrow> grown) else capacity)"

primrec vec_capacity :: "nat \<Rightarrow> nat" where
  "vec_capacity 0 = 0"
| "vec_capacity (Suc n) = next_capacity n (vec_capacity n)"

definition allocation_overflow :: protocol_error where
  "allocation_overflow = Malformed ''message decode allocation overflow''"

definition push_decoded :: "nat \<Rightarrow> 'a list \<Rightarrow> 'a \<Rightarrow> decode_budget \<Rightarrow> protocol_error + ('a list \<times> decode_budget)" where
  "push_decoded element values v b =
     chain (if length values = vec_capacity (length values)
            then chain (ok_or allocation_overflow (grown_capacity (vec_capacity (length values)))) (\<lambda>target.
                   if target < vec_capacity (length values) then Inl allocation_overflow
                   else Inr (target - vec_capacity (length values)))
            else Inr 0) (\<lambda>growth.
     chain (ok_or allocation_overflow (usize_checked_mul growth element)) (\<lambda>a.
     chain (ok_or allocation_overflow (usize_checked_add a element)) (\<lambda>a.
     chain (ok_or allocation_overflow (usize_checked_add a decode_repetition_overhead)) (\<lambda>allocation.
     chain (charge allocation b) (\<lambda>b. Inr (values @ [v], b))))))"

section \<open>Wire types, varints and keys\<close>

datatype wire_type = WtVarint | WtFixed64 | WtLength | WtFixed32

fun wire_bits :: "wire_type \<Rightarrow> u8" where
  "wire_bits WtVarint = 0"
| "wire_bits WtFixed64 = 1"
| "wire_bits WtLength = 2"
| "wire_bits WtFixed32 = 5"

definition wire_from_bits :: "u8 \<Rightarrow> protocol_error + wire_type" where
  "wire_from_bits bits =
     (if bits = 0 then Inr WtVarint
      else if bits = 1 then Inr WtFixed64
      else if bits = 2 then Inr WtLength
      else if bits = 5 then Inr WtFixed32
      else Inl (Malformed (''unsupported protobuf wire type '' @ decimal (unat bits))))"

function encode_varint :: "u64 \<Rightarrow> bytes" where
  "encode_varint v =
     (if 0x80 \<le> v then (ucast v OR 0x80) # encode_varint (drop_bit 7 v) else [ucast v])"
  by auto
termination
proof (relation "measure unat")
  fix v :: u64
  assume "0x80 \<le> v"
  then have "(128::nat) \<le> unat v" by (simp add: word_le_nat_alt)
  moreover have "unat (drop_bit 7 v) = unat v div 128" by (simp only: unat_drop_bit_eq) (simp add: drop_bit_eq_div)
  ultimately show "(drop_bit 7 v, v) \<in> measure unat" by (simp only: in_measure)
qed simp

declare encode_varint.simps [simp del]

text \<open>The loop of \<open>decode_varint\<close>, with the rounds that are left; \<open>index\<close> counts up from 0.\<close>

fun decode_varint_loop :: "nat \<Rightarrow> nat \<Rightarrow> u64 \<Rightarrow> bytes \<Rightarrow> nat \<Rightarrow> protocol_error + (u64 \<times> nat)" where
  "decode_varint_loop 0 index v input cursor = Inl (Malformed ''unterminated protobuf varint'')"
| "decode_varint_loop (Suc rounds) index v input cursor =
     (if length input \<le> cursor then Inl (Malformed ''truncated protobuf varint'')
      else let byte = input ! cursor in
           chain (ok_or (Malformed ''protobuf cursor overflow'') (usize_checked_add cursor 1)) (\<lambda>cursor.
           if index = 9 \<and> byte AND 0xfe \<noteq> 0 then Inl (Malformed ''protobuf varint overflows u64'')
           else let v = v OR push_bit (index * 7) (ucast (byte AND 0x7f)) in
                if byte AND 0x80 = 0 then Inr (v, cursor)
                else decode_varint_loop rounds (index + 1) v input cursor))"

definition decode_varint :: "bytes \<Rightarrow> nat \<Rightarrow> protocol_error + (u64 \<times> nat)" where
  "decode_varint input cursor = decode_varint_loop 10 0 0 input cursor"

definition encode_key :: "u32 \<Rightarrow> wire_type \<Rightarrow> bytes" where
  "encode_key field wire =
     (if field = 0 then [] else encode_varint (push_bit 3 (ucast field) OR ucast (wire_bits wire)))"

text \<open>A signed 64-bit integer is its two's complement word.\<close>

definition zigzag_encode :: "64 word \<Rightarrow> u64" where
  "zigzag_encode v = push_bit 1 v XOR signed_drop_bit 63 v"

definition zigzag_decode :: "u64 \<Rightarrow> 64 word" where
  "zigzag_decode v = drop_bit 1 v XOR - (v AND 1)"

section \<open>Unknown fields\<close>

text \<open>
  \<open>UnknownFields\<close> keeps the bytes of fields a decoder did not recognise. It is modelled by
  the raw fields in the order they were appended; the bytes are their concatenation. The
  capacity of the buffer follows from the lengths appended by \<open>push_raw_bounded\<close>.
\<close>

type_synonym unknown_fields = "bytes list"

definition as_bytes :: "unknown_fields \<Rightarrow> bytes" where
  "as_bytes u = concat u"

definition unknown_is_empty :: "unknown_fields \<Rightarrow> bool" where
  "unknown_is_empty u \<longleftrightarrow> as_bytes u = []"

definition push_raw :: "bytes \<Rightarrow> unknown_fields \<Rightarrow> unknown_fields" where
  "push_raw raw u = u @ [raw]"

fun buffer_capacity :: "nat \<Rightarrow> nat \<Rightarrow> unknown_fields \<Rightarrow> nat" where
  "buffer_capacity held capacity [] = capacity"
| "buffer_capacity held capacity (raw # raws) =
     buffer_capacity (held + length raw)
       (if capacity < held + length raw then max (capacity * 2) (held + length raw) else capacity) raws"

definition unknown_capacity :: "unknown_fields \<Rightarrow> nat" where
  "unknown_capacity u = buffer_capacity 0 0 u"

definition unknown_too_large :: protocol_error where
  "unknown_too_large = Malformed ''unknown fields are too large''"

definition push_raw_bounded :: "bytes \<Rightarrow> unknown_fields \<Rightarrow> decode_budget \<Rightarrow> protocol_error + (unknown_fields \<times> decode_budget)" where
  "push_raw_bounded raw u b =
     chain (ok_or unknown_too_large (usize_checked_add (length (as_bytes u)) (length raw))) (\<lambda>required.
     if unknown_capacity u < required then
       chain (ok_or unknown_too_large (usize_checked_mul (unknown_capacity u) 2)) (\<lambda>doubled.
       let target = max doubled required in
       if target < unknown_capacity u then Inl unknown_too_large
       else chain (charge (target - unknown_capacity u) b) (\<lambda>b. Inr (push_raw raw u, b)))
     else Inr (push_raw raw u, b))"

section \<open>Reading one field\<close>

text \<open>
  \<open>Field\<close>; its \<open>end\<close> is the cursor after the field, which \<open>read_field\<close> returns beside it.
\<close>

record field =
  fd_number :: u32
  fd_wire_type :: wire_type
  fd_value :: bytes
  fd_raw :: bytes

definition slice :: "nat \<Rightarrow> nat \<Rightarrow> bytes \<Rightarrow> bytes" where
  "slice start stop input = take (stop - start) (drop start input)"

text \<open>A field of fixed width \<open>n\<close> that starts at \<open>start\<close>.\<close>

definition fixed_end :: "nat \<Rightarrow> string \<Rightarrow> bytes \<Rightarrow> nat \<Rightarrow> protocol_error + nat" where
  "fixed_end n name input start =
     chain (ok_or (Malformed (name @ '' length overflow'')) (usize_checked_add start n)) (\<lambda>stop.
     if length input < stop then Inl (Malformed (''truncated '' @ name @ '' field'')) else Inr stop)"

text \<open>The match on the wire type: where the value at the cursor starts and where it stops.\<close>

fun value_extent :: "wire_type \<Rightarrow> bytes \<Rightarrow> nat \<Rightarrow> protocol_error + (nat \<times> nat)" where
  "value_extent WtVarint input cursor =
     chain (decode_varint input cursor) (\<lambda>(v, stop). Inr (cursor, stop))"
| "value_extent WtFixed64 input cursor =
     chain (fixed_end 8 ''fixed64'' input cursor) (\<lambda>stop. Inr (cursor, stop))"
| "value_extent WtLength input cursor =
     chain (decode_varint input cursor) (\<lambda>(len, start).
     chain (ok_or (Malformed ''length-delimited field overflows input'') (usize_checked_add start (unat len))) (\<lambda>stop.
     if length input < stop then Inl (Malformed ''length-delimited field runs past input'')
     else Inr (start, stop)))"
| "value_extent WtFixed32 input cursor =
     chain (fixed_end 4 ''fixed32'' input cursor) (\<lambda>stop. Inr (cursor, stop))"

definition read_field :: "bytes \<Rightarrow> nat \<Rightarrow> protocol_error + (field \<times> nat)" where
  "read_field input field_start =
     chain (decode_varint input field_start) (\<lambda>(key, cursor).
     let number = drop_bit 3 key in
     if number = 0 \<or> 0x1fffffff < number then Inl (Malformed ''invalid protobuf field number'')
     else chain (wire_from_bits (ucast (key AND 7))) (\<lambda>wire.
     chain (value_extent wire input cursor) (\<lambda>(start, stop).
     Inr (\<lparr>fd_number = ucast number, fd_wire_type = wire,
           fd_value = slice start stop input, fd_raw = slice field_start stop input\<rparr>, stop))))"

section \<open>Field values\<close>

text \<open>What \<open>String::from_utf8\<close> accepts.\<close>

definition continuation :: "u8 \<Rightarrow> bool" where
  "continuation c \<longleftrightarrow> 0x80 \<le> c \<and> c \<le> 0xbf"

fun utf8_valid :: "bytes \<Rightarrow> bool" where
  "utf8_valid [] = True"
| "utf8_valid (a # rest) =
     (if a < 0x80 then utf8_valid rest
      else if 0xc2 \<le> a \<and> a \<le> 0xdf then
        (case rest of b # rest \<Rightarrow> continuation b \<and> utf8_valid rest | _ \<Rightarrow> False)
      else if 0xe0 \<le> a \<and> a \<le> 0xef then
        (case rest of b # c # rest \<Rightarrow>
             continuation b \<and> continuation c \<and> (a = 0xe0 \<longrightarrow> 0xa0 \<le> b) \<and> (a = 0xed \<longrightarrow> b \<le> 0x9f)
             \<and> utf8_valid rest
         | _ \<Rightarrow> False)
      else if 0xf0 \<le> a \<and> a \<le> 0xf4 then
        (case rest of b # c # d # rest \<Rightarrow>
             continuation b \<and> continuation c \<and> continuation d \<and> (a = 0xf0 \<longrightarrow> 0x90 \<le> b) \<and> (a = 0xf4 \<longrightarrow> b \<le> 0x8f)
             \<and> utf8_valid rest
         | _ \<Rightarrow> False)
      else False)"

text \<open>A Rust \<open>String\<close> is its UTF-8 bytes. A \<open>f32\<close> is its bit pattern.\<close>

type_synonym utf8 = bytes
type_synonym f32 = u32

definition decode_field_varint :: "field \<Rightarrow> protocol_error + u64" where
  "decode_field_varint f =
     (if fd_wire_type f \<noteq> WtVarint then Inl (Malformed ''unexpected protobuf wire type'')
      else chain (decode_varint (fd_value f) 0) (\<lambda>(v, cursor).
           if cursor \<noteq> length (fd_value f) then Inl (Malformed ''invalid protobuf varint field'') else Inr v))"

definition decode_string :: "field \<Rightarrow> decode_budget \<Rightarrow> protocol_error + (utf8 \<times> decode_budget)" where
  "decode_string f b =
     (if fd_wire_type f \<noteq> WtLength then Inl (Malformed ''expected length-delimited string'')
      else chain (charge (length (fd_value f)) b) (\<lambda>b.
           if utf8_valid (fd_value f) then Inr (fd_value f, b)
           else Inl (Malformed ''protobuf string is not UTF-8'')))"

definition decode_bytes :: "field \<Rightarrow> decode_budget \<Rightarrow> protocol_error + (bytes \<times> decode_budget)" where
  "decode_bytes f b =
     (if fd_wire_type f \<noteq> WtLength then Inl (Malformed ''expected length-delimited bytes'')
      else chain (charge (length (fd_value f)) b) (\<lambda>b. Inr (fd_value f, b)))"

fun from_le_bytes :: "bytes \<Rightarrow> u32 option" where
  "from_le_bytes [a, b, c, d] =
     Some (ucast a OR push_bit 8 (ucast b) OR push_bit 16 (ucast c) OR push_bit 24 (ucast d))"
| "from_le_bytes _ = None"

definition to_le_bytes :: "u32 \<Rightarrow> bytes" where
  "to_le_bytes w = [ucast w, ucast (drop_bit 8 w), ucast (drop_bit 16 w), ucast (drop_bit 24 w)]"

definition decode_f32 :: "field \<Rightarrow> protocol_error + f32" where
  "decode_f32 f =
     (if fd_wire_type f \<noteq> WtFixed32 then Inl (Malformed ''expected a fixed32 float field'')
      else ok_or (Malformed ''invalid protobuf float field'') (from_le_bytes (fd_value f)))"

definition put_varint :: "u32 \<Rightarrow> u64 \<Rightarrow> bytes" where
  "put_varint field v = encode_key field WtVarint @ encode_varint v"

definition put_f32 :: "u32 \<Rightarrow> f32 \<Rightarrow> bytes" where
  "put_f32 field v = encode_key field WtFixed32 @ to_le_bytes v"

definition put_string :: "u32 \<Rightarrow> utf8 \<Rightarrow> bytes" where
  "put_string field v = encode_key field WtLength @ encode_varint (of_nat (length v)) @ v"

definition put_bytes :: "u32 \<Rightarrow> bytes \<Rightarrow> bytes" where
  "put_bytes field v = encode_key field WtLength @ encode_varint (of_nat (length v)) @ v"

text \<open>The generic \<open>put_message\<close> takes the encoder of the message type.\<close>

definition put_message :: "('m \<Rightarrow> bytes) \<Rightarrow> u32 \<Rightarrow> 'm \<Rightarrow> bytes" where
  "put_message encode field v = put_bytes field (encode v)"

definition expect_wire :: "field \<Rightarrow> wire_type \<Rightarrow> protocol_error + unit" where
  "expect_wire f expected =
     (if fd_wire_type f = expected then Inr ()
      else Inl (Malformed (''field '' @ decimal (unat (fd_number f)) @ '' has wrong protobuf wire type'')))"

end
