(* ===== verification/Wire_Parse.thy ===== *)
theory Wire_Parse
  imports Wire
begin

text \<open>
  The reading half of the wire format, against a reference that has no cursor: a parser of
  byte lists that returns the rest of its input. The cursor functions succeed exactly when
  the reference does and return the same values; and what the writers produce, the
  reference reads back.
\<close>

section \<open>Results\<close>

fun res_ok :: "'e + 'a \<Rightarrow> 'a option" where
  "res_ok (Inl e) = None"
| "res_ok (Inr v) = Some v"

lemma res_ok_chain: "res_ok (chain r f) = Option.bind (res_ok r) (\<lambda>v. res_ok (f v))"
  by (cases r) simp_all

lemma res_ok_ok_or [simp]: "res_ok (ok_or e x) = x"
  by (cases x) simp_all

lemma res_ok_Some: "res_ok r = Some v \<longleftrightarrow> r = Inr v"
  by (cases r) simp_all

lemma res_ok_if: "res_ok (if c then r else r') = (if c then res_ok r else res_ok r')"
  by simp

lemma checked_add_ok: "a + b \<le> usize_max \<Longrightarrow> ok_or e (usize_checked_add a b) = Inr (a + b)"
  by (simp add: usize_checked_add_def)

lemma checked_mul_ok: "a * b \<le> usize_max \<Longrightarrow> ok_or e (usize_checked_mul a b) = Inr (a * b)"
  by (simp add: usize_checked_mul_def)

section \<open>Varints\<close>

fun parse_varint_loop :: "nat \<Rightarrow> nat \<Rightarrow> u64 \<Rightarrow> bytes \<Rightarrow> (u64 \<times> bytes) option" where
  "parse_varint_loop 0 index v bs = None"
| "parse_varint_loop (Suc rounds) index v [] = None"
| "parse_varint_loop (Suc rounds) index v (byte # bs) =
     (if index = 9 \<and> byte AND 0xfe \<noteq> 0 then None
      else let v = v OR push_bit (index * 7) (ucast (byte AND 0x7f)) in
           if byte AND 0x80 = 0 then Some (v, bs) else parse_varint_loop rounds (index + 1) v bs)"

definition parse_varint :: "bytes \<Rightarrow> (u64 \<times> bytes) option" where
  "parse_varint bs = parse_varint_loop 10 0 0 bs"

text \<open>The cursor that leaves \<open>rest\<close> to be read.\<close>

definition at_rest :: "bytes \<Rightarrow> 'a \<times> bytes \<Rightarrow> 'a \<times> nat" where
  "at_rest input r = (fst r, length input - length (snd r))"

lemma decode_varint_loop_parse:
  assumes "length input \<le> usize_max" and "cursor \<le> length input"
  shows "res_ok (decode_varint_loop n i v input cursor) = map_option (at_rest input) (parse_varint_loop n i v (drop cursor input))"
  using assms(2)
proof (induction n arbitrary: i v cursor)
  case (Suc n)
  show ?case
  proof (cases "cursor = length input")
    case False
    with Suc.prems have c: "cursor < length input" by simp
    then have "drop cursor input = input ! cursor # drop (Suc cursor) input" by (simp add: Cons_nth_drop_Suc)
    then show ?thesis using c assms(1) Suc.IH [of "Suc cursor"] by (simp add: Let_def at_rest_def checked_add_ok)
  qed simp
qed simp

lemma decode_varint_parse:
  "length input \<le> usize_max \<Longrightarrow> cursor \<le> length input \<Longrightarrow>
   res_ok (decode_varint input cursor) = map_option (at_rest input) (parse_varint (drop cursor input))"
  by (simp add: decode_varint_def parse_varint_def decode_varint_loop_parse)

text \<open>A parser consumes a prefix of its input that is not empty.\<close>

lemma parse_varint_loop_used:
  "parse_varint_loop n i v bs = Some (w, rest) \<Longrightarrow> \<exists>used. used \<noteq> [] \<and> bs = used @ rest"
proof (induction n i v bs rule: parse_varint_loop.induct)
  case (3 n i v byte bs)
  show ?case
  proof (cases "byte AND 0x80 = 0")
    case True
    with 3(2) have "byte # bs = [byte] @ rest" by (simp add: Let_def split: if_splits)
    then show ?thesis by blast
  next
    case False
    with 3 obtain used where "bs = used @ rest" by (auto simp: Let_def split: if_splits)
    then have "byte # bs = (byte # used) @ rest" by simp
    then show ?thesis by blast
  qed
qed simp_all

lemma parse_varint_used:
  assumes "parse_varint bs = Some (w, rest)"
  obtains used where "used \<noteq> []" and "bs = used @ rest"
  using parse_varint_loop_used assms unfolding parse_varint_def by blast

section \<open>Writing and reading a varint\<close>

lemma low_seven: "(w AND 0x7f :: 'a::len word) = take_bit 7 w"
  by (simp add: take_bit_eq_mask mask_eq_exp_minus_1)

lemma take_small: "unat w < 2 ^ k \<Longrightarrow> take_bit k w = w" for w :: "'a::len word"
  by (simp add: word_unat_eq_iff unsigned_take_bit_eq take_bit_nat_eq_self)

lemma small_bits: "unat w < 2 ^ k \<Longrightarrow> bit w n \<Longrightarrow> n < k" for w :: "'a::len word"
  using bit_take_bit_iff [of k w n] by (simp add: take_small)

lemma top_bit: "b AND 0x80 = 0 \<longleftrightarrow> \<not> bit b 7" for b :: u8
  using and_exp_eq_0_iff_not_bit [of b 7] by simp

lemma only_bit_zero: "(\<And>n. bit b n \<Longrightarrow> n = 0) \<Longrightarrow> b AND 0xfe = 0" for b :: u8
proof -
  assume "\<And>n. bit b n \<Longrightarrow> n = 0"
  moreover have "(0xfe :: u8) = NOT 1" by simp
  ultimately show ?thesis by (simp only:) (rule bit_word_eqI, auto simp: bit_simps)
qed

lemma split_seven: "push_bit n (take_bit 7 w) OR push_bit (7 + n) (drop_bit 7 w) = push_bit n w" for w :: "'a::len word"
proof -
  have "push_bit (7 + n) (drop_bit 7 w) = push_bit n (push_bit 7 (drop_bit 7 w))" by (simp add: push_bit_push_bit add.commute)
  moreover have "take_bit 7 w OR push_bit 7 (drop_bit 7 w) = w" 
    by (rule bit_word_eqI, rename_tac k, case_tac "k < 7") (auto simp: bit_simps)
  ultimately show ?thesis by (metis push_bit_or)
qed

lemma parse_varint_encode_loop:
  assumes "i \<le> 9" and "unat w < 2 ^ (64 - 7 * i)"
  shows "parse_varint_loop (10 - i) i acc (encode_varint w @ rest) = Some (acc OR push_bit (7 * i) w, rest)"
  using assms
proof (induction w arbitrary: i acc rule: encode_varint.induct)
  case (1 w)
  obtain r where r: "10 - i = Suc r" using 1(2) by (cases "10 - i") simp_all
  have val: "ucast (take_bit 7 (ucast w :: u8)) = take_bit 7 w" by (rule bit_word_eqI) (auto simp: bit_simps)
  show ?case
  proof (cases "0x80 \<le> w")
    case False
    then have small: "unat w < 2 ^ 7" by (simp add: not_le word_less_nat_alt)
    then have fits: "take_bit 7 w = w" by (rule take_small)
    have "(ucast w :: u8) AND 0x80 = 0"
      using small_bits [OF small, of 7] by (auto simp: top_bit bit_simps)
    moreover have "(ucast w :: u8) AND 0xfe = 0" if "i = 9"
    proof -
      have "unat w < 2 ^ 1" using 1(3) that by simp
      from small_bits [OF this] show ?thesis by (intro only_bit_zero) (auto simp: bit_simps)
    qed
    ultimately show ?thesis using False r fits val
      by (simp add: encode_varint.simps [of w] low_seven mult.commute)
  next
    case True
    have i: "i \<noteq> 9" using True 1(3) by (auto simp: word_le_nat_alt)
    have "64 - 7 * i = (64 - 7 * Suc i) + 7" using 1(2) i by simp
    then have "unat w < 2 ^ (64 - 7 * Suc i) * 2 ^ 7" using 1(3) by (metis power_add)
    then have "unat w div 2 ^ 7 < 2 ^ (64 - 7 * Suc i)" by (rule less_mult_imp_div_less)
    then have extra: "unat (drop_bit 7 w) < 2 ^ (64 - 7 * Suc i)"
      by (simp only: unat_drop_bit_eq) (simp add: drop_bit_eq_div)
    have set: "(ucast w OR 0x80 :: u8) AND 0x80 \<noteq> 0"
      by (simp add: top_bit bit_simps)
    have low: "take_bit 7 (ucast w OR 0x80 :: u8) = take_bit 7 (ucast w)"
      by (rule bit_word_eqI) (auto simp: bit_simps)
    have "9 - i = r" using r by simp
    then show ?thesis using True r i set 1(1) [OF True _ extra] 1(2) split_seven [of "7 * i" w]
      by (simp add: encode_varint.simps [of w] low_seven low val mult.commute or.assoc)
  qed
qed

lemma parse_encode_varint: "parse_varint (encode_varint v @ rest) = Some (v, rest)"
  using parse_varint_encode_loop [of 0 v 0 rest] unat_below [of v] by (simp add: parse_varint_def)

lemma encode_varint_not_Nil [simp]: "encode_varint v \<noteq> []"
  by (subst encode_varint.simps) simp

section \<open>Fields\<close>

text \<open>The value of a field and the input after it, from the input after its key.\<close>

fun parse_value :: "wire_type \<Rightarrow> bytes \<Rightarrow> (bytes \<times> bytes) option" where
  "parse_value WtVarint bs = map_option (\<lambda>(v, rest). (bs, rest)) (parse_varint bs)"
| "parse_value WtFixed64 bs = (if length bs < 8 then None else Some (bs, drop 8 bs))"
| "parse_value WtLength bs =
     Option.bind (parse_varint bs) (\<lambda>(len, bs). if length bs < unat len then None else Some (bs, drop (unat len) bs))"
| "parse_value WtFixed32 bs = (if length bs < 4 then None else Some (bs, drop 4 bs))"

definition parse_field :: "bytes \<Rightarrow> (field \<times> bytes) option" where
  "parse_field bs =
     Option.bind (parse_varint bs) (\<lambda>(key, body).
     if drop_bit 3 key = 0 \<or> 0x1fffffff < drop_bit 3 key then None
     else Option.bind (res_ok (wire_from_bits (ucast (key AND 7)))) (\<lambda>wire.
     Option.bind (parse_value wire body) (\<lambda>(src, rest).
     Some (\<lparr>fd_number = ucast (drop_bit 3 key), fd_wire_type = wire,
            fd_value = take (length src - length rest) src,
            fd_raw = take (length bs - length rest) bs\<rparr>, rest))))"

lemma parse_value_used:
  assumes "parse_value wire bs = Some (src, rest)"
  obtains u u' where "bs = u @ src" and "src = u' @ rest"
proof (cases wire)
  case WtVarint
  with assms have "\<exists>v. parse_varint bs = Some (v, rest)" and src: "src = bs" 
    by (cases "parse_varint bs"; simp split: prod.splits)+
  then show thesis using that [of "[]"] by (metis append_Nil parse_varint_used)
next
  case WtFixed64
  with assms have "src = bs" "rest = drop 8 bs" by (auto split: if_splits)
  then show thesis by (intro that [of "[]" "take 8 bs"]) simp_all
next
  case WtLength
  with assms obtain len where len: "parse_varint bs = Some (len, src)" "rest = drop (unat len) src"
    by (cases "parse_varint bs") (simp_all split: if_splits prod.splits)
  from len(1) obtain u where "bs = u @ src" by (rule parse_varint_used)
  then show thesis by (rule that [of _ "take (unat len) src"]) (simp add: len(2))
next
  case WtFixed32
  with assms have "src = bs" "rest = drop 4 bs" by (auto split: if_splits)
  then show thesis by (intro that [of "[]" "take 4 bs"]) simp_all
qed

text \<open>A cursor and the suffix of the input it stands for.\<close>

lemma suffix_cursor:
  assumes "cursor \<le> length input" and "drop cursor input = used @ rest"
  shows "drop (length input - length rest) input = rest" and "length input - length rest \<le> length input"
    and "length input - length rest = cursor + length used"
proof -
  have input: "input = take cursor input @ used @ rest" using assms by (metis append_take_drop_id)
  then have "length input = cursor + length used + length rest" using assms(1) by (metis add.assoc length_append length_take min.absorb2)
  then show "length input - length rest = cursor + length used" by simp
  then show "drop (length input - length rest) input = rest" 
    using assms(2) by (metis append_eq_conv_conj drop_drop add.commute)
qed simp

lemma slice_suffix:
  assumes "k \<le> length input" and "drop k input = used @ rest"
  shows "slice k (length input - length rest) input = take (length (drop k input) - length rest) (drop k input)"
  using suffix_cursor(3) [OF assms] assms(2) by (simp add: slice_def)

definition extent_in :: "bytes \<Rightarrow> bytes \<times> bytes \<Rightarrow> nat \<times> nat" where
  "extent_in input r = (length input - length (fst r), length input - length (snd r))"

lemma value_extent_parse:
  assumes "length input \<le> usize_max" and "cursor \<le> length input"
  shows "res_ok (value_extent wire input cursor) = map_option (extent_in input) (parse_value wire (drop cursor input))"
proof -
  note varint = decode_varint_parse [OF assms]
  show ?thesis
  proof (cases wire)
    case WtVarint
    with varint assms(2) show ?thesis
      by (auto simp: res_ok_chain extent_in_def at_rest_def split: prod.splits bind_split intro!: sym [OF diff_diff_cancel])
  next
    case WtLength
    then show ?thesis
    proof (cases "parse_varint (drop cursor input)")
      case (Some r)
      obtain len src where r: "r = (len, src)" by (cases r)
      obtain u where u: "drop cursor input = u @ src" using Some r by (metis parse_varint_used)
      have "length input - length src + length src = length input" using arg_cong [OF u, of length] by simp
      then show ?thesis using varint Some r WtLength assms(1)
        by (auto simp: res_ok_chain extent_in_def at_rest_def usize_checked_add_def)
    qed (use varint WtLength in \<open>simp add: res_ok_chain\<close>)
  qed (use assms in \<open>auto simp: res_ok_chain extent_in_def fixed_end_def usize_checked_add_def\<close>)
qed

lemma read_field_parse:
  assumes "length input \<le> usize_max" and "cursor \<le> length input"
  shows "res_ok (read_field input cursor) = map_option (at_rest input) (parse_field (drop cursor input))"
proof (cases "parse_varint (drop cursor input)")
  case None
  then show ?thesis using decode_varint_parse [OF assms] by (simp add: read_field_def parse_field_def res_ok_chain)
next
  case (Some kb)
  obtain key body where kb: "kb = (key, body)" by (cases kb)
  obtain used where used: "drop cursor input = used @ body" using Some kb by (metis parse_varint_used)
  note start = suffix_cursor [OF assms(2) used]
  have key: "decode_varint input cursor = Inr (key, length input - length body)"
    using decode_varint_parse [OF assms] Some kb by (simp add: at_rest_def res_ok_Some)
  have extent: "res_ok (value_extent wire input (length input - length body)) = map_option (extent_in input) (parse_value wire body)" for wire
    using value_extent_parse [OF assms(1) start(2), of wire] start(1) by simp
  have "slice (length input - length src) (length input - length rest) input = take (length src - length rest) src
      \<and> slice cursor (length input - length rest) input = take (length (drop cursor input) - length rest) (drop cursor input)"
    if parsed: "parse_value wire body = Some (src, rest)" for wire src rest
  proof -
    from parsed obtain u u' where "body = u @ src" "src = u' @ rest" by (rule parse_value_used)
    then have split: "drop cursor input = (used @ u) @ src" "drop cursor input = (used @ u @ u') @ rest" "src = u' @ rest"
      using used by simp_all
    note b = suffix_cursor [OF assms(2) split(1)]
    show ?thesis
      using slice_suffix [OF b(2), of u' rest] b(1) split(3) slice_suffix [OF assms(2) split(2)] by simp
  qed
  then show ?thesis
    by (auto simp: read_field_def parse_field_def key Some kb res_ok_chain extent Let_def at_rest_def extent_in_def
        bind_map_option comp_def case_prod_beta split: bind_split)
qed

text \<open>What follows a field does not matter to its reader.\<close>

lemma parse_varint_loop_append:
  "parse_varint_loop n i v bs = Some (w, rest) \<Longrightarrow> parse_varint_loop n i v (bs @ extra) = Some (w, rest @ extra)"
  by (induction n i v bs rule: parse_varint_loop.induct) (auto simp: Let_def split: if_splits)

lemma parse_varint_append: "parse_varint bs = Some (w, rest) \<Longrightarrow> parse_varint (bs @ extra) = Some (w, rest @ extra)"
  by (simp add: parse_varint_def parse_varint_loop_append)

lemma parse_value_append:
  assumes "parse_value wire bs = Some (src, rest)"
  shows "parse_value wire (bs @ extra) = Some (src @ extra, rest @ extra)"
proof (cases "wire = WtVarint \<or> wire = WtLength")
  case True
  with assms obtain v r where "parse_varint bs = Some (v, r)" by (cases "parse_varint bs") auto
  with True assms parse_varint_append [OF this, of extra] show ?thesis by (auto split: if_splits)
next
  case False
  with assms show ?thesis by (cases wire) (auto split: if_splits)
qed

lemma parse_field_append:
  assumes "parse_field bs = Some (f, rest)"
  shows "parse_field (bs @ extra) = Some (f, rest @ extra)"
proof -
  obtain key body wire src where parts: "parse_varint bs = Some (key, body)" "\<not> (drop_bit 3 key = 0 \<or> 0x1fffffff < drop_bit 3 key)"
    "wire_from_bits (ucast (key AND 7)) = Inr wire" "parse_value wire body = Some (src, rest)"
    "f = \<lparr>fd_number = ucast (drop_bit 3 key), fd_wire_type = wire,
            fd_value = take (length src - length rest) src, fd_raw = take (length bs - length rest) bs\<rparr>"
    using assms by (auto simp: parse_field_def res_ok_Some split: bind_splits if_splits)
  obtain u where bs: "bs = u @ body" using parts(1) by (rule parse_varint_used)
  obtain w w' where "body = w @ src" "src = w' @ rest" using parts(4) by (rule parse_value_used)
  with bs parts(5) show ?thesis
    unfolding parse_field_def parse_varint_append [OF parts(1), of extra] using parts(2,3) parse_value_append [OF parts(4), of extra]
    by simp
qed

lemma parse_field_used:
  assumes "parse_field bs = Some (f, rest)"
  shows "bs = fd_raw f @ rest" and "fd_raw f \<noteq> []"
proof -
  obtain key body wire src where parts: "parse_varint bs = Some (key, body)" "parse_value wire body = Some (src, rest)"
    "fd_raw f = take (length bs - length rest) bs"
    using assms by (auto simp: parse_field_def split: bind_splits if_splits)
  obtain u where bs: "u \<noteq> []" "bs = u @ body" using parts(1) by (rule parse_varint_used)
  obtain w w' where "body = w @ src" "src = w' @ rest" using parts(2) by (rule parse_value_used)
  with bs parts(3) show "bs = fd_raw f @ rest" "fd_raw f \<noteq> []" by simp_all
qed

section \<open>Reading what was written\<close>

definition field_number :: "u32 \<Rightarrow> bool" where
  "field_number n \<longleftrightarrow> n \<noteq> 0 \<and> n \<le> 0x1fffffff"

lemma bits_below: "wire_bits w < 8"
  by (cases w) simp_all

lemma wire_from_bits_bits [simp]: "wire_from_bits (wire_bits w) = Inr w"
  by (cases w) (simp_all add: wire_from_bits_def)

lemma key_parts:
  fixes n :: u32 and w :: wire_type
  defines "key \<equiv> push_bit 3 (ucast n :: u64) OR ucast (wire_bits w)"
  shows "drop_bit 3 key = ucast n" and "ucast (key AND 7) = wire_bits w"
proof -
  have small: "bit (wire_bits w) k \<Longrightarrow> k < 3" for k
    using small_bits [of "wire_bits w" 3] bits_below [of w] by (simp add: word_less_nat_alt)
  show "drop_bit 3 key = ucast n"
    unfolding key_def by (rule bit_word_eqI) (auto simp: bit_simps dest: small bit_imp_le_length)
  have seven: "(7 :: u64) = mask 3" by (simp add: mask_eq_exp_minus_1)
  show "ucast (key AND 7) = wire_bits w"
    unfolding key_def seven by (rule bit_word_eqI) (auto simp: bit_simps dest: small)
qed

lemma parse_key:
  assumes "field_number n"
  shows "parse_field (encode_key n w @ body) =
    Option.bind (parse_value w body) (\<lambda>(src, rest). Some (\<lparr>fd_number = n, fd_wire_type = w,
      fd_value = take (length src - length rest) src,
      fd_raw = take (length (encode_key n w @ body) - length rest) (encode_key n w @ body)\<rparr>, rest))"
proof -
  have "unat (ucast n :: u64) = unat n" using unat_below [of n] by (simp add: unsigned_ucast_eq take_bit_nat_eq_self)
  then have n: "n \<noteq> 0" "(ucast n :: u64) \<noteq> 0" "\<not> 0x1fffffff < (ucast n :: u64)"
    using assms by (auto simp: field_number_def word_less_nat_alt word_le_nat_alt unsigned_eq_0_iff)
  let ?key = "push_bit 3 (ucast n :: u64) OR ucast (wire_bits w)"
  have "ucast (ucast n :: u64) = n" by (rule bit_word_eqI) (auto simp: bit_simps dest: bit_imp_le_length)
  moreover have "encode_key n w @ body = encode_varint ?key @ body" using n(1) by (simp add: encode_key_def)
  ultimately show ?thesis
    using n key_parts [of n w] parse_encode_varint [of ?key body] by (simp add: parse_field_def)
qed

text \<open>The fields the writers write.\<close>

definition varint_field :: "u32 \<Rightarrow> u64 \<Rightarrow> field" where
  "varint_field n v = \<lparr>fd_number = n, fd_wire_type = WtVarint, fd_value = encode_varint v, fd_raw = put_varint n v\<rparr>"

definition length_field :: "u32 \<Rightarrow> bytes \<Rightarrow> field" where
  "length_field n v = \<lparr>fd_number = n, fd_wire_type = WtLength, fd_value = v, fd_raw = put_bytes n v\<rparr>"

definition float_field :: "u32 \<Rightarrow> f32 \<Rightarrow> field" where
  "float_field n v = \<lparr>fd_number = n, fd_wire_type = WtFixed32, fd_value = to_le_bytes v, fd_raw = put_f32 n v\<rparr>"

lemma parse_put_varint: "field_number n \<Longrightarrow> parse_field (put_varint n v @ rest) = Some (varint_field n v, rest)"
  using parse_encode_varint [of v rest] by (simp add: put_varint_def varint_field_def parse_key)

lemma parse_put_bytes:
  assumes "field_number n" and "length v \<le> usize_max"
  shows "parse_field (put_bytes n v @ rest) = Some (length_field n v, rest)"
proof -
  have "unat (of_nat (length v) :: u64) = length v"
    using assms(2) by (simp add: unsigned_of_nat take_bit_nat_eq_self usize_max_def)
  then show ?thesis using parse_encode_varint [of "of_nat (length v)" "v @ rest"] assms(1)
    by (simp add: put_bytes_def length_field_def parse_key)
qed

lemma parse_put_f32: "field_number n \<Longrightarrow> parse_field (put_f32 n v @ rest) = Some (float_field n v, rest)"
  by (simp add: put_f32_def float_field_def parse_key to_le_bytes_def)

lemma put_string_eq: "put_string = put_bytes"
  by (simp add: fun_eq_iff put_string_def put_bytes_def)

text \<open>And their values.\<close>

lemma decode_encode_varint: "length (encode_varint v) \<le> usize_max \<Longrightarrow> decode_varint (encode_varint v) 0 = Inr (v, length (encode_varint v))"
  using decode_varint_parse [of "encode_varint v" 0] parse_encode_varint [of v "[]"] by (simp add: at_rest_def res_ok_Some)

text \<open>A varint takes at most ten bytes.\<close>

lemma encode_varint_length_aux: "unat v < 2 ^ (7 * Suc n) \<Longrightarrow> length (encode_varint v) \<le> Suc n"
proof (induction n arbitrary: v)
  case 0
  then show ?case by (simp add: encode_varint.simps [of v] word_le_nat_alt)
next
  case (Suc n)
  have "unat (drop_bit 7 v) = unat v div 2 ^ 7" by (simp only: unat_drop_bit_eq) (simp add: drop_bit_eq_div)
  moreover have "unat v < 2 ^ (7 * Suc n) * 2 ^ 7" using Suc.prems by (simp add: power_add)
  ultimately have "unat (drop_bit 7 v) < 2 ^ (7 * Suc n)" by (metis less_mult_imp_div_less)
  from Suc.IH [OF this] show ?case by (simp add: encode_varint.simps [of v])
qed

lemma encode_varint_length: "length (encode_varint v) \<le> 10"
  using encode_varint_length_aux [of v 9] unat_below [of v] by simp

lemma field_varint [simp]: "decode_field_varint (varint_field n v) = Inr v"
proof -
  have "length (encode_varint v) \<le> usize_max" using encode_varint_length [of v] by (simp add: usize_max_def)
  then show ?thesis by (simp add: decode_field_varint_def varint_field_def decode_encode_varint)
qed

lemma from_to_le_bytes: "from_le_bytes (to_le_bytes w) = Some w"
proof -
  have "ucast (ucast w :: u8) OR push_bit 8 (ucast (ucast (drop_bit 8 w) :: u8))
      OR push_bit 16 (ucast (ucast (drop_bit 16 w) :: u8)) OR push_bit 24 (ucast (ucast (drop_bit 24 w) :: u8)) = w"
    by (rule bit_word_eqI, rename_tac k, case_tac "k < 8"; case_tac "k < 16"; case_tac "k < 24") (auto simp: bit_simps)
  then show ?thesis by (simp add: to_le_bytes_def)
qed

lemma field_f32 [simp]: "decode_f32 (float_field n v) = Inr v"
  by (simp add: decode_f32_def float_field_def from_to_le_bytes)

lemma zigzag_round_trip: "zigzag_decode (zigzag_encode v) = v"
proof -
  have sign: "signed_drop_bit 63 v = (if bit v 63 then - 1 else 0)" for v :: u64
    by (rule bit_word_eqI) (auto simp: bit_simps not_le dest: less_antisym)
  have odd: "(NOT (push_bit 1 v)) AND 1 = 1" "push_bit 1 v AND 1 = 0" for v :: u64
    by (simp_all add: and_one_eq mod2_eq_if bit_simps flip: bit_0)
  have shift: "bit (v * 2) (Suc k) \<longleftrightarrow> bit v k" if "k < 64" "k \<noteq> 63" for k
    using bit_push_bit_iff [of 1 v "Suc k"] that by simp
  show ?thesis
  proof (cases "bit v 63")
    case True
    have xor_all: "push_bit 1 v XOR - 1 = NOT (push_bit 1 v)" by (rule bit_word_eqI) (auto simp: bit_simps)
    have "drop_bit 1 (NOT (push_bit 1 v)) XOR - 1 = v"
      using True by (intro bit_word_eqI, rename_tac k, case_tac "k = 63") (auto simp: bit_simps shift)
    then show ?thesis using True by (simp only: zigzag_encode_def zigzag_decode_def sign if_True xor_all odd(1))
  next
    case False
    have "drop_bit 1 (push_bit 1 v) = v"
      using False bit_imp_le_length [of "v * 2" 64] by (intro bit_word_eqI, rename_tac k, case_tac "k = 63") (auto simp: bit_simps shift)
    then show ?thesis using False
      by (simp only: zigzag_encode_def zigzag_decode_def sign if_False xor.right_neutral odd(2) minus_zero)
  qed
qed

end
