(* ===== verification/Frames.thy ===== *)
theory Frames
  imports Wire_Parse
begin

text \<open>
  The framing of the native plugin protocol: \<open>crates/crikey-native-protocol/src/frame.rs\<close>. A
  frame is a four-byte big-endian length and a payload. The reader keeps what it has of a
  frame across timeouts, so that the next call resumes it.

  A writer is given by its two methods, a reader by its one: \<open>read buffer r\<close> is the outcome
  of a call, the buffer after it and the reader after it. Whether a reader keeps to the
  contract of \<open>std::io::Read\<close> is a hypothesis of the lemmas that need it; the loops go on for
  as long as a reader is interrupted, so they are partial.
\<close>

section \<open>Model\<close>

datatype io_kind = IoBrokenPipe | IoTimedOut | IoWouldBlock | IoInterrupted | IoOther

record io_error =
  io_kind :: io_kind
  io_text :: string

definition map_io :: "io_error \<Rightarrow> protocol_error" where
  "map_io e =
     (if io_kind e = IoBrokenPipe then Closed
      else if io_kind e = IoTimedOut \<or> io_kind e = IoWouldBlock then Timeout
      else Io (io_text e))"

type_synonym 'r read_method = "bytes \<Rightarrow> 'r \<Rightarrow> (io_error + nat) \<times> bytes \<times> 'r"

definition to_be_bytes :: "u32 \<Rightarrow> bytes" where
  "to_be_bytes w = rev (to_le_bytes w)"

definition from_be_bytes :: "bytes \<Rightarrow> u32" where
  "from_be_bytes bs = (case from_le_bytes (rev bs) of Some w \<Rightarrow> w | None \<Rightarrow> 0)"

definition write_frame ::
  "(bytes \<Rightarrow> 'w \<Rightarrow> (io_error + unit) \<times> 'w) \<Rightarrow> ('w \<Rightarrow> (io_error + unit) \<times> 'w) \<Rightarrow> 'w \<Rightarrow> bytes
    \<Rightarrow> (protocol_error + unit) \<times> 'w" where
  "write_frame write_all flush w payload =
     (if payload = [] then (Inl (Malformed ''zero-length frame''), w)
      else if max_frame_bytes < length payload then (Inl (FrameTooLarge (length payload)), w)
      else if 2 ^ 32 \<le> length payload then (Inl (FrameTooLarge (length payload)), w)
      else case write_all (to_be_bytes (of_nat (length payload))) w of
        (Inl e, w) \<Rightarrow> (Inl (map_io e), w)
      | (Inr _, w) \<Rightarrow>
          (case write_all payload w of
             (Inl e, w) \<Rightarrow> (Inl (map_io e), w)
           | (Inr _, w) \<Rightarrow> (case flush w of (Inl e, w) \<Rightarrow> (Inl (map_io e), w) | (Inr _, w) \<Rightarrow> (Inr (), w))))"

record frame_reader =
  fr_prefix :: bytes
  fr_prefix_read :: nat
  fr_payload :: bytes
  fr_payload_read :: nat

definition frame_reader_new :: frame_reader where
  "frame_reader_new = \<lparr>fr_prefix = [0, 0, 0, 0], fr_prefix_read = 0, fr_payload = [], fr_payload_read = 0\<rparr>"

definition fr_reset :: "frame_reader \<Rightarrow> frame_reader" where
  "fr_reset s = s\<lparr>fr_prefix_read := 0, fr_payload := [], fr_payload_read := 0\<rparr>"

text \<open>The error arm both loops share: a timeout keeps the state, anything else drops it.\<close>

definition read_failed :: "io_error \<Rightarrow> frame_reader \<Rightarrow> (protocol_error + unit) \<times> frame_reader" where
  "read_failed e s = (Inl (map_io e), if map_io e = Timeout then s else fr_reset s)"

definition malformed :: "string \<Rightarrow> frame_reader \<Rightarrow> (protocol_error + unit) \<times> frame_reader" where
  "malformed what s = (Inl (Malformed what), fr_reset s)"

partial_function (option) read_prefix ::
  "'r read_method \<Rightarrow> frame_reader \<Rightarrow> 'r \<Rightarrow> (((protocol_error + unit) \<times> frame_reader) \<times> 'r) option" where
  "read_prefix read s r =
     (if \<not> fr_prefix_read s < length (fr_prefix s) then Some ((Inr (), s), r)
      else case read (drop (fr_prefix_read s) (fr_prefix s)) r of
        (outcome, buffer, r) \<Rightarrow>
          (let s = s\<lparr>fr_prefix := take (fr_prefix_read s) (fr_prefix s) @ buffer\<rparr>
           in case outcome of
             Inl e \<Rightarrow> if io_kind e = IoInterrupted then read_prefix read s r else Some (read_failed e s, r)
           | Inr n \<Rightarrow>
               if n = 0 then
                 (if fr_prefix_read s = 0 then Some ((Inl Closed, s), r)
                  else Some (malformed ''truncated frame length prefix'' s, r))
               else if length (fr_prefix s) < fr_prefix_read s then Some (malformed ''frame prefix offset overflow'' s, r)
               else if length (fr_prefix s) - fr_prefix_read s < n then Some (malformed ''reader returned too many prefix bytes'' s, r)
               else case usize_checked_add (fr_prefix_read s) n of
                 None \<Rightarrow> Some (malformed ''frame prefix offset overflow'' s, r)
               | Some p \<Rightarrow> read_prefix read (s\<lparr>fr_prefix_read := p\<rparr>) r))"

partial_function (option) read_body ::
  "'r read_method \<Rightarrow> frame_reader \<Rightarrow> 'r \<Rightarrow> (((protocol_error + unit) \<times> frame_reader) \<times> 'r) option" where
  "read_body read s r =
     (if \<not> fr_payload_read s < length (fr_payload s) then Some ((Inr (), s), r)
      else case read (drop (fr_payload_read s) (fr_payload s)) r of
        (outcome, buffer, r) \<Rightarrow>
          (let s = s\<lparr>fr_payload := take (fr_payload_read s) (fr_payload s) @ buffer\<rparr>
           in case outcome of
             Inl e \<Rightarrow> if io_kind e = IoInterrupted then read_body read s r else Some (read_failed e s, r)
           | Inr n \<Rightarrow>
               if n = 0 then Some (malformed ''truncated frame body'' s, r)
               else if length (fr_payload s) < fr_payload_read s then Some (malformed ''frame body offset overflow'' s, r)
               else if length (fr_payload s) - fr_payload_read s < n then Some (malformed ''reader returned too many body bytes'' s, r)
               else case usize_checked_add (fr_payload_read s) n of
                 None \<Rightarrow> Some (malformed ''frame body offset overflow'' s, r)
               | Some p \<Rightarrow> read_body read (s\<lparr>fr_payload_read := p\<rparr>) r))"

text \<open>
  Between the loops: the length is checked before anything is allocated for it. A length of 32
  bits fits the 64-bit \<open>usize\<close> of the model, so \<open>usize::try_from\<close> does not fail; that the allocator
  has room for the at most \<open>MAX_FRAME_BYTES\<close> bytes of an admitted length is an assumption on the
  environment, and the arm of \<open>try_reserve_exact\<close> for its failure is left out.
\<close>

definition begin_body :: "frame_reader \<Rightarrow> (protocol_error + unit) \<times> frame_reader" where
  "begin_body s =
     (if fr_payload s \<noteq> [] then (Inr (), s)
      else let n = unat (from_be_bytes (fr_prefix s))
        in if n = 0 then malformed ''zero-length frame'' s
           else if max_frame_bytes < n then (Inl (FrameTooLarge n), fr_reset s)
           else (Inr (), s\<lparr>fr_payload := replicate n 0\<rparr>))"

text \<open>
  \<open>read_frame\<close> returns the outcome, the reader's state and the caller's buffer, which is cleared
  first and swapped with the payload at the end.
\<close>

definition read_frame ::
  "'r read_method \<Rightarrow> frame_reader \<Rightarrow> 'r \<Rightarrow> ((protocol_error + bytes) \<times> frame_reader \<times> 'r) option" where
  "read_frame read s r =
     (case read_prefix read s r of
        None \<Rightarrow> None
      | Some ((Inl e, s), r) \<Rightarrow> Some (Inl e, s, r)
      | Some ((Inr _, s), r) \<Rightarrow>
          (case begin_body s of
             (Inl e, s) \<Rightarrow> Some (Inl e, s, r)
           | (Inr _, s) \<Rightarrow>
               (case read_body read s r of
                  None \<Rightarrow> None
                | Some ((Inl e, s), r) \<Rightarrow> Some (Inl e, s, r)
                | Some ((Inr _, s), r) \<Rightarrow> Some (Inr (fr_payload s), fr_reset (s\<lparr>fr_payload := []\<rparr>), r))))"

definition read_frame_once :: "'r read_method \<Rightarrow> 'r \<Rightarrow> ((protocol_error + bytes) \<times> 'r) option" where
  "read_frame_once read r = map_option (\<lambda>(outcome, _, r). (outcome, r)) (read_frame read frame_reader_new r)"

text \<open>
  The endpoint a host hands to a plugin (\<open>lib.rs\<close>). A path is its text; the error for any other
  spelling quotes it, which is the formatting's business.
\<close>

datatype endpoint = NamedPipe string | UnixSocket string | Stdio

definition endpoint_parse :: "(string \<Rightarrow> string) \<Rightarrow> string \<Rightarrow> protocol_error + endpoint" where
  "endpoint_parse debug spec =
     (if spec = ''stdio'' then Inr Stdio
      else case strip_prefix spec ''unix:'' of
        Some path \<Rightarrow>
          (if path = [] then Inl (Malformed ''unix endpoint has no path'')
           else if CHR 0x00 \<in> set path then Inl (Malformed ''unix endpoint contains a NUL byte'')
           else Inr (UnixSocket path))
      | None \<Rightarrow>
          (case strip_prefix spec ''pipe:'' of
             Some name \<Rightarrow>
               (if name = [] then Inl (Malformed ''named pipe endpoint has no name'')
                else if CHR 0x00 \<in> set name then Inl (Malformed ''named pipe endpoint contains a NUL byte'')
                else Inr (NamedPipe name))
           | None \<Rightarrow> Inl (Malformed (''invalid endpoint specification '' @ debug spec))))"

fun to_spec :: "endpoint \<Rightarrow> string" where
  "to_spec (UnixSocket path) = ''unix:'' @ path"
| "to_spec (NamedPipe name) = ''pipe:'' @ name"
| "to_spec Stdio = ''stdio''"

lemma strip_prefix_Some: "strip_prefix t p = Some rest \<longleftrightarrow> t = p @ rest"
  by (auto simp: strip_prefix_def starts_with_def) (metis append_take_drop_id)

text \<open>Every endpoint that parsing yields is spelled the way it was given.\<close>

lemma endpoint_round_trip: "endpoint_parse debug spec = Inr e \<Longrightarrow> to_spec e = spec"
  by (auto simp: endpoint_parse_def strip_prefix_Some split: if_splits option.splits)

section \<open>The steps of the loops\<close>

lemma read_prefix_steps:
  "\<not> fr_prefix_read s < length (fr_prefix s) \<Longrightarrow> read_prefix read s r = Some ((Inr (), s), r)"
  "fr_prefix_read s < length (fr_prefix s) \<Longrightarrow> read (drop (fr_prefix_read s) (fr_prefix s)) r = (Inl e, buffer, r') \<Longrightarrow>
     read_prefix read s r = (if io_kind e = IoInterrupted then read_prefix read (s\<lparr>fr_prefix := take (fr_prefix_read s) (fr_prefix s) @ buffer\<rparr>) r'
       else Some (read_failed e (s\<lparr>fr_prefix := take (fr_prefix_read s) (fr_prefix s) @ buffer\<rparr>), r'))"
  "fr_prefix_read s < length (fr_prefix s) \<Longrightarrow> read (drop (fr_prefix_read s) (fr_prefix s)) r = (Inr 0, buffer, r') \<Longrightarrow>
     read_prefix read s r = Some (let s' = s\<lparr>fr_prefix := take (fr_prefix_read s) (fr_prefix s) @ buffer\<rparr>
       in if fr_prefix_read s = 0 then (Inl Closed, s') else malformed ''truncated frame length prefix'' s', r')"
  "fr_prefix_read s < length (fr_prefix s) \<Longrightarrow> read (drop (fr_prefix_read s) (fr_prefix s)) r = (Inr k, buffer, r') \<Longrightarrow> 0 < k \<Longrightarrow>
     fr_prefix_read s + k \<le> length (take (fr_prefix_read s) (fr_prefix s) @ buffer) \<Longrightarrow> fr_prefix_read s + k \<le> usize_max \<Longrightarrow>
     read_prefix read s r = read_prefix read (s\<lparr>fr_prefix := take (fr_prefix_read s) (fr_prefix s) @ buffer, fr_prefix_read := fr_prefix_read s + k\<rparr>) r'"
  by (subst read_prefix.simps; auto simp: usize_checked_add_def Let_def)+

lemma read_body_steps:
  "\<not> fr_payload_read s < length (fr_payload s) \<Longrightarrow> read_body read s r = Some ((Inr (), s), r)"
  "fr_payload_read s < length (fr_payload s) \<Longrightarrow> read (drop (fr_payload_read s) (fr_payload s)) r = (Inl e, buffer, r') \<Longrightarrow>
     read_body read s r = (if io_kind e = IoInterrupted then read_body read (s\<lparr>fr_payload := take (fr_payload_read s) (fr_payload s) @ buffer\<rparr>) r'
       else Some (read_failed e (s\<lparr>fr_payload := take (fr_payload_read s) (fr_payload s) @ buffer\<rparr>), r'))"
  "fr_payload_read s < length (fr_payload s) \<Longrightarrow> read (drop (fr_payload_read s) (fr_payload s)) r = (Inr 0, buffer, r') \<Longrightarrow>
     read_body read s r = Some (malformed ''truncated frame body'' (s\<lparr>fr_payload := take (fr_payload_read s) (fr_payload s) @ buffer\<rparr>), r')"
  "fr_payload_read s < length (fr_payload s) \<Longrightarrow> read (drop (fr_payload_read s) (fr_payload s)) r = (Inr k, buffer, r') \<Longrightarrow> 0 < k \<Longrightarrow>
     fr_payload_read s + k \<le> length (take (fr_payload_read s) (fr_payload s) @ buffer) \<Longrightarrow> fr_payload_read s + k \<le> usize_max \<Longrightarrow>
     read_body read s r = read_body read (s\<lparr>fr_payload := take (fr_payload_read s) (fr_payload s) @ buffer, fr_payload_read := fr_payload_read s + k\<rparr>) r'"
  by (subst read_body.simps; auto simp: usize_checked_add_def Let_def)+

section \<open>What a stream of bytes means\<close>

definition frame_bytes :: "bytes \<Rightarrow> bytes" where
  "frame_bytes p = to_be_bytes (of_nat (length p)) @ p"

text \<open>The frame at the front of a complete stream, with the bytes after it, or why there is none.\<close>

definition parse_frame :: "bytes \<Rightarrow> protocol_error + bytes \<times> bytes" where
  "parse_frame bs =
     (if bs = [] then Inl Closed
      else if length bs < 4 then Inl (Malformed ''truncated frame length prefix'')
      else let n = unat (from_be_bytes (take 4 bs))
        in if n = 0 then Inl (Malformed ''zero-length frame'')
           else if max_frame_bytes < n then Inl (FrameTooLarge n)
           else if length bs < 4 + n then Inl (Malformed ''truncated frame body'')
           else Inr (take n (drop 4 bs), drop (4 + n) bs))"

text \<open>The bytes of the current frame a reader has already taken from its stream.\<close>

definition held :: "frame_reader \<Rightarrow> bytes" where
  "held s = (if fr_payload s = [] then take (fr_prefix_read s) (fr_prefix s)
     else fr_prefix s @ take (fr_payload_read s) (fr_payload s))"

definition reader_ok :: "frame_reader \<Rightarrow> bool" where
  "reader_ok s \<longleftrightarrow> length (fr_prefix s) = 4 \<and> fr_prefix_read s \<le> 4 \<and>
     (if fr_payload s = [] then fr_payload_read s = 0
      else fr_prefix_read s = 4 \<and> fr_payload_read s \<le> length (fr_payload s)
        \<and> length (fr_payload s) = unat (from_be_bytes (fr_prefix s)) \<and> length (fr_payload s) \<le> max_frame_bytes)"

lemma reader_ok_reset [simp]: "length (fr_prefix s) = 4 \<Longrightarrow> reader_ok (fr_reset s)" "held (fr_reset s) = []"
  by (simp_all add: reader_ok_def fr_reset_def held_def)

lemma reader_ok_new: "reader_ok frame_reader_new" "held frame_reader_new = []"
  by (simp_all add: reader_ok_def frame_reader_new_def held_def)

lemma frame_bytes_length [simp]: "length (frame_bytes p) = 4 + length p"
  by (simp add: frame_bytes_def to_be_bytes_def to_le_bytes_def)

lemma from_to_be_bytes: "from_be_bytes (to_be_bytes w) = w"
  by (simp add: from_be_bytes_def to_be_bytes_def from_to_le_bytes)

lemma parse_frame_bytes:
  assumes "p \<noteq> []" and "length p \<le> max_frame_bytes"
  shows "parse_frame (frame_bytes p @ rest) = Inr (p, rest)"
proof -
  have head: "take 4 (frame_bytes p @ rest) = to_be_bytes (of_nat (length p))" "drop 4 (frame_bytes p @ rest) = p @ rest"
    by (simp_all add: frame_bytes_def to_be_bytes_def to_le_bytes_def)
  have "length p < 2 ^ 32" using assms(2) by (simp add: max_frame_bytes_def decode_allocation_budget_def)
  then have size: "unat (from_be_bytes (take 4 (frame_bytes p @ rest))) = length p"
    unfolding head(1) by (simp add: from_to_be_bytes unat_of_nat)
  show ?thesis unfolding parse_frame_def Let_def size head(2) using assms by (auto dest: arg_cong [of _ _ length])
qed

lemma parse_frame_consumes: "parse_frame bs = Inr (p, rest) \<Longrightarrow> length rest < length bs"
  by (auto simp: parse_frame_def Let_def split: if_splits)

text \<open>A whole stream: the payloads in it, and the error that ends it.\<close>

function parse_frames :: "bytes \<Rightarrow> bytes list \<times> protocol_error" where
  "parse_frames bs =
     (case parse_frame bs of
        Inl e \<Rightarrow> ([], e)
      | Inr (p, rest) \<Rightarrow> (case parse_frames rest of (ps, e) \<Rightarrow> (p # ps, e)))"
  by pat_completeness auto
termination
  by (relation "measure length") (auto dest: parse_frame_consumes)

declare parse_frames.simps [simp del]

lemma parse_frames_concat:
  "list_all (\<lambda>p. p \<noteq> [] \<and> length p \<le> max_frame_bytes) ps \<Longrightarrow> parse_frames (concat (map frame_bytes ps)) = (ps, Closed)"
proof (induction ps)
  case Nil
  show ?case by (subst parse_frames.simps) (simp add: parse_frame_def)
next
  case (Cons p ps)
  then show ?case by (subst parse_frames.simps) (simp add: parse_frame_bytes)
qed

text \<open>
  A receiver: it calls \<open>read_frame\<close> with one reader until the stream fails for good, calling again
  after a timeout. It does not answer when the fuel runs out.
\<close>

fun frame_session :: "nat \<Rightarrow> 'r read_method \<Rightarrow> frame_reader \<Rightarrow> 'r \<Rightarrow> (bytes list \<times> protocol_error) option" where
  "frame_session 0 read s r = None"
| "frame_session (Suc fuel) read s r =
     (case read_frame read s r of
        None \<Rightarrow> None
      | Some (Inr p, s, r) \<Rightarrow> map_option (\<lambda>(ps, e). (p # ps, e)) (frame_session fuel read s r)
      | Some (Inl e, s, r) \<Rightarrow> if e = Timeout then frame_session fuel read s r else Some ([], e))"

section \<open>Filling a buffer from a stream\<close>

text \<open>
  Between two states of a loop: bytes move from the stream to the filled part of the buffer,
  none is lost or made up, and no more faults lie ahead than before.
\<close>

definition transfers :: "('r \<Rightarrow> bytes) \<Rightarrow> ('r \<Rightarrow> nat) \<Rightarrow> bytes \<Rightarrow> nat \<Rightarrow> 'r \<Rightarrow> bytes \<Rightarrow> nat \<Rightarrow> 'r \<Rightarrow> bool" where
  "transfers content faults b n r b' n' r' \<longleftrightarrow>
     length b' = length b \<and> n' \<le> length b \<and> take n' b' @ content r' = take n b @ content r \<and> faults r' \<le> faults r"

lemma transfers_refl: "n \<le> length b \<Longrightarrow> transfers content faults b n r b n r"
  by (simp add: transfers_def)

lemma transfers_trans:
  "transfers content faults b n r b' n' r' \<Longrightarrow> transfers content faults b' n' r' b'' n'' r'' \<Longrightarrow> transfers content faults b n r b'' n'' r''"
  by (simp add: transfers_def)

text \<open>
  The contract of a stream: a read takes the next bytes, as many as it says and at least one
  unless the stream is at its end; a failed read is transient and takes nothing.
\<close>

locale byte_stream =
  fixes read :: "'r read_method" and content :: "'r \<Rightarrow> bytes" and faults :: "'r \<Rightarrow> nat"
  assumes read_ok: "buffer \<noteq> [] \<Longrightarrow> read buffer r = (Inr n, buffer', r') \<Longrightarrow>
      n \<le> length buffer \<and> n \<le> length (content r) \<and> buffer' = take n (content r) @ drop n buffer
      \<and> content r' = drop n (content r) \<and> faults r' \<le> faults r \<and> (n = 0 \<longrightarrow> content r = [])"
    and read_fault: "buffer \<noteq> [] \<Longrightarrow> read buffer r = (Inl e, buffer', r') \<Longrightarrow>
      length buffer' = length buffer \<and> content r' = content r \<and> faults r' < faults r
      \<and> (io_kind e = IoInterrupted \<or> map_io e = Timeout)"
begin

lemma ok_transfers:
  assumes "read (drop n b) r = (Inr k, buffer, r')" and "n < length b"
  shows "transfers content faults b n r (take n b @ buffer) (n + k) r'" and "k \<le> length b - n"
    and "length (take n b @ buffer) = length b" and "k = 0 \<Longrightarrow> content r = [] \<and> content r' = []"
  using read_ok [OF _ assms(1)] assms(2) by (auto simp: transfers_def)

lemma fault_transfers:
  assumes "read (drop n b) r = (Inl e, buffer, r')" and "n < length b"
  shows "transfers content faults b n r (take n b @ buffer) n r'" and "faults r' < faults r"
    and "io_kind e = IoInterrupted \<or> map_io e = Timeout" and "length (take n b @ buffer) = length b"
  using read_fault [OF _ assms(1)] assms(2) by (auto simp: transfers_def)

text \<open>
  The rule both loops instantiate: a loop that reads into the rest of its buffer either fills
  it, or stops at a timeout with what it has, or finds the stream at its end.
\<close>

lemma loop_rule:
  assumes full: "\<And>b n r. length b = m \<Longrightarrow> n = m \<Longrightarrow> loop b n r = full b n r"
    and interrupted: "\<And>b n r e buffer r'. n < length b \<Longrightarrow> length b = m \<Longrightarrow> read (drop n b) r = (Inl e, buffer, r') \<Longrightarrow>
      io_kind e = IoInterrupted \<Longrightarrow> loop b n r = loop (take n b @ buffer) n r'"
    and failed: "\<And>b n r e buffer r'. n < length b \<Longrightarrow> length b = m \<Longrightarrow> read (drop n b) r = (Inl e, buffer, r') \<Longrightarrow>
      io_kind e \<noteq> IoInterrupted \<Longrightarrow> loop b n r = failed e (take n b @ buffer) n r'"
    and eof: "\<And>b n r buffer r'. n < length b \<Longrightarrow> length b = m \<Longrightarrow> read (drop n b) r = (Inr 0, buffer, r') \<Longrightarrow>
      loop b n r = at_end (take n b @ buffer) n r'"
    and more: "\<And>b n r k buffer r'. n < length b \<Longrightarrow> length b = m \<Longrightarrow> read (drop n b) r = (Inr k, buffer, r') \<Longrightarrow>
      length (take n b @ buffer) = m \<Longrightarrow> 0 < k \<Longrightarrow> n + k \<le> m \<Longrightarrow> loop b n r = loop (take n b @ buffer) (n + k) r'"
    and start: "length b = m" "n \<le> m"
  shows "\<exists>b' n' r'. transfers content faults b n r b' n' r' \<and>
    (n' = m \<and> loop b n r = full b' n' r'
     \<or> (\<exists>e. map_io e = Timeout \<and> faults r' < faults r \<and> loop b n r = failed e b' n' r')
     \<or> n' < m \<and> content r' = [] \<and> loop b n r = at_end b' n' r')"
  using start
proof (induction "faults r + (m - n)" arbitrary: b n r rule: less_induct)
  case less
  show ?case
  proof (cases "n = m")
    case True
    then have "transfers content faults b n r b n r" using less.prems by (intro transfers_refl) simp
    then show ?thesis using full [OF less.prems(1) True] True by blast
  next
    case False
    then have inside: "n < length b" using less.prems by simp
    obtain res buffer r' where call: "read (drop n b) r = (res, buffer, r')" by (cases "read (drop n b) r")
    let ?b = "take n b @ buffer"
    have continue: ?thesis if step: "transfers content faults b n r ?b n' r'" "loop b n r = loop ?b n' r'"
      and smaller: "faults r' + (m - n') < faults r + (m - n)" for n'
    proof -
      have "length ?b = m" "n' \<le> m" "faults r' \<le> faults r" using step(1) less.prems by (auto simp: transfers_def)
      from less.hyps [OF smaller this(1,2)] obtain b'' n'' r'' where
        rest: "transfers content faults ?b n' r' b'' n'' r''" and
        ends: "n'' = m \<and> loop ?b n' r' = full b'' n'' r''
          \<or> (\<exists>e. map_io e = Timeout \<and> faults r'' < faults r' \<and> loop ?b n' r' = failed e b'' n'' r'')
          \<or> n'' < m \<and> content r'' = [] \<and> loop ?b n' r' = at_end b'' n'' r''"
        by blast
      have "transfers content faults b n r b'' n'' r''" by (rule transfers_trans [OF step(1) rest])
      moreover have "faults r'' < faults r" if "faults r'' < faults r'" using that \<open>faults r' \<le> faults r\<close> by simp
      ultimately show ?thesis using ends unfolding step(2) by blast
    qed
    show ?thesis
    proof (cases res)
      case (Inl e)
      note step = fault_transfers [OF call [unfolded Inl] inside]
      show ?thesis
      proof (cases "io_kind e = IoInterrupted")
        case True
        then show ?thesis using continue [OF step(1)] interrupted [OF inside less.prems(1) call [unfolded Inl]] step(2) by simp
      next
        case False
        then show ?thesis using failed [OF inside less.prems(1) call [unfolded Inl]] step by blast
      qed
    next
      case (Inr k)
      note step = ok_transfers [OF call [unfolded Inr] inside]
      show ?thesis
      proof (cases "k = 0")
        case True
        then show ?thesis using eof [OF inside less.prems(1) call [unfolded Inr True]] step inside less.prems(1)
          by (metis add.right_neutral)
      next
        case False
        then have "loop b n r = loop ?b (n + k) r'"
          using more [OF inside less.prems(1) call [unfolded Inr]] step(2,3) inside less.prems(1) by simp
        moreover have "faults r' \<le> faults r" using step(1) by (simp add: transfers_def)
        ultimately show ?thesis using continue [OF step(1)] False inside less.prems(1) by simp
      qed
    qed
  qed
qed

lemma read_prefix_run:
  assumes "length (fr_prefix s) = 4" and "fr_prefix_read s \<le> 4"
  shows "\<exists>b n r'. transfers content faults (fr_prefix s) (fr_prefix_read s) r b n r' \<and>
    (let s' = s\<lparr>fr_prefix := b, fr_prefix_read := n\<rparr>
     in n = 4 \<and> read_prefix read s r = Some ((Inr (), s'), r')
        \<or> faults r' < faults r \<and> read_prefix read s r = Some ((Inl Timeout, s'), r')
        \<or> n < 4 \<and> content r' = [] \<and> read_prefix read s r =
            Some (if n = 0 then (Inl Closed, s') else malformed ''truncated frame length prefix'' s', r'))"
proof -
  obtain q i p j where fields: "s = \<lparr>fr_prefix = q, fr_prefix_read = i, fr_payload = p, fr_payload_read = j\<rparr>" by (cases s)
  let ?s = "\<lambda>b n. \<lparr>fr_prefix = b, fr_prefix_read = n, fr_payload = p, fr_payload_read = j\<rparr>"
  have "\<exists>b n r'. transfers content faults q i r b n r' \<and>
      (n = 4 \<and> read_prefix read (?s q i) r = Some ((Inr (), ?s b n), r')
       \<or> (\<exists>e. map_io e = Timeout \<and> faults r' < faults r
           \<and> read_prefix read (?s q i) r = Some (read_failed e (?s b n), r'))
       \<or> n < 4 \<and> content r' = [] \<and> read_prefix read (?s q i) r =
            Some (if n = 0 then (Inl Closed, ?s b n) else malformed ''truncated frame length prefix'' (?s b n), r'))"
    apply (rule loop_rule)
    subgoal by (simp add: read_prefix_steps(1))
    subgoal by (simp add: read_prefix_steps(2))
    subgoal by (simp add: read_prefix_steps(2))
    subgoal by (simp add: read_prefix_steps(3) Let_def)
    subgoal using assms fields by (simp add: read_prefix_steps(4) usize_max_def)
    using assms fields by simp_all
  then show ?thesis
    unfolding fields by (elim exE, intro exI) (auto simp: read_failed_def Let_def)
qed

lemma read_body_run:
  assumes "length (fr_payload s) \<le> usize_max" and "fr_payload_read s \<le> length (fr_payload s)"
  shows "\<exists>b n r'. transfers content faults (fr_payload s) (fr_payload_read s) r b n r' \<and>
    (let s' = s\<lparr>fr_payload := b, fr_payload_read := n\<rparr>
     in n = length (fr_payload s) \<and> read_body read s r = Some ((Inr (), s'), r')
        \<or> faults r' < faults r \<and> read_body read s r = Some ((Inl Timeout, s'), r')
        \<or> n < length (fr_payload s) \<and> content r' = [] \<and> read_body read s r = Some (malformed ''truncated frame body'' s', r'))"
proof -
  obtain q i p j where fields: "s = \<lparr>fr_prefix = q, fr_prefix_read = i, fr_payload = p, fr_payload_read = j\<rparr>" by (cases s)
  let ?s = "\<lambda>b n. \<lparr>fr_prefix = q, fr_prefix_read = i, fr_payload = b, fr_payload_read = n\<rparr>" and ?m = "length p"
  have "\<exists>b n r'. transfers content faults p j r b n r' \<and>
      (n = ?m \<and> read_body read (?s p j) r = Some ((Inr (), ?s b n), r')
       \<or> (\<exists>e. map_io e = Timeout \<and> faults r' < faults r
           \<and> read_body read (?s p j) r = Some (read_failed e (?s b n), r'))
       \<or> n < ?m \<and> content r' = [] \<and> read_body read (?s p j) r =
            Some (malformed ''truncated frame body'' (?s b n), r'))"
    apply (rule loop_rule)
    subgoal by (simp add: read_body_steps(1))
    subgoal by (simp add: read_body_steps(2))
    subgoal by (simp add: read_body_steps(2))
    subgoal by (simp add: read_body_steps(3) Let_def)
    subgoal using assms fields by (simp add: read_body_steps(4))
    using assms fields by simp_all
  then show ?thesis
    unfolding fields by (elim exE, intro exI) (auto simp: read_failed_def Let_def)
qed

text \<open>
  One call of \<open>read_frame\<close>: it times out without losing its place, one fault further on, or its
  answer is what the bytes mean.
\<close>

lemma body_step:
  assumes ok: "reader_ok s" and payload: "fr_payload s \<noteq> []" and total: "held s @ content r = bs"
  shows "\<exists>out s' r'. (case read_body read s r of None \<Rightarrow> None | Some ((Inl e, s), r) \<Rightarrow> Some (Inl e, s, r)
        | Some ((Inr _, s), r) \<Rightarrow> Some (Inr (fr_payload s), fr_reset (s\<lparr>fr_payload := []\<rparr>), r)) = Some (out, s', r') \<and> reader_ok s' \<and>
     (out = Inl Timeout \<and> held s' @ content r' = bs \<and> faults r' < faults r
      \<or> held s' = [] \<and> faults r' \<le> faults r
        \<and> (case out of Inr p \<Rightarrow> parse_frame bs = Inr (p, content r') | Inl e \<Rightarrow> parse_frame bs = Inl e))"
proof -
  have wf: "length (fr_prefix s) = 4" "fr_prefix_read s = 4" "fr_payload_read s \<le> length (fr_payload s)"
      "length (fr_payload s) = unat (from_be_bytes (fr_prefix s))" "length (fr_payload s) \<le> max_frame_bytes"
    using ok payload by (auto simp: reader_ok_def)
  have "length (fr_payload s) \<le> usize_max"
    using wf(5) by (simp add: max_frame_bytes_def decode_allocation_budget_def usize_max_def)
  from read_body_run [OF this wf(3), of r] obtain b n r' where
    moved: "transfers content faults (fr_payload s) (fr_payload_read s) r b n r'" and
    ends: "let s' = s\<lparr>fr_payload := b, fr_payload_read := n\<rparr>
     in n = length (fr_payload s) \<and> read_body read s r = Some ((Inr (), s'), r')
        \<or> faults r' < faults r \<and> read_body read s r = Some ((Inl Timeout, s'), r')
        \<or> n < length (fr_payload s) \<and> content r' = [] \<and> read_body read s r = Some (malformed ''truncated frame body'' s', r')"
    by blast
  have len: "length b = length (fr_payload s)" "n \<le> length b" "faults r' \<le> faults r" using moved by (auto simp: transfers_def)
  then have "b \<noteq> []" using payload by auto
  have positive: "0 < unat (from_be_bytes (fr_prefix s))" using wf(4) payload by (metis length_greater_0_conv)
  have bytes: "bs = fr_prefix s @ take n b @ content r'"
    using moved total payload wf(1,2) by (simp add: transfers_def held_def)
  show ?thesis using ends unfolding Let_def
  proof (elim disjE conjE)
    assume "n = length (fr_payload s)" "read_body read s r = Some ((Inr (), s\<lparr>fr_payload := b, fr_payload_read := n\<rparr>), r')"
    moreover from this have "parse_frame bs = Inr (b, content r')"
      unfolding bytes using len wf positive by (auto simp: parse_frame_def Let_def)
    ultimately show ?thesis using len wf by simp
  next
    assume "faults r' < faults r" "read_body read s r = Some ((Inl Timeout, s\<lparr>fr_payload := b, fr_payload_read := n\<rparr>), r')"
    then show ?thesis using len wf \<open>b \<noteq> []\<close> bytes by (simp add: reader_ok_def held_def)
  next
    assume short: "n < length (fr_payload s)" "content r' = []"
      and "read_body read s r = Some (malformed ''truncated frame body'' (s\<lparr>fr_payload := b, fr_payload_read := n\<rparr>), r')"
    moreover have "parse_frame bs = Inl (Malformed ''truncated frame body'')"
      unfolding bytes using len wf short by (auto simp: parse_frame_def Let_def)
    ultimately show ?thesis using len wf by (simp add: malformed_def)
  qed
qed

lemma read_frame_step:
  assumes ok: "reader_ok s" and total: "held s @ content r = bs"
  shows "\<exists>out s' r'. read_frame read s r = Some (out, s', r') \<and> reader_ok s' \<and>
     (out = Inl Timeout \<and> held s' @ content r' = bs \<and> faults r' < faults r
      \<or> held s' = [] \<and> faults r' \<le> faults r
        \<and> (case out of Inr p \<Rightarrow> parse_frame bs = Inr (p, content r') | Inl e \<Rightarrow> parse_frame bs = Inl e))"
proof (cases "fr_payload s = []")
  case False
  then have "\<not> fr_prefix_read s < length (fr_prefix s)" using ok by (simp add: reader_ok_def)
  then have "read_frame read s r = (case read_body read s r of None \<Rightarrow> None | Some ((Inl e, s), r) \<Rightarrow> Some (Inl e, s, r)
        | Some ((Inr _, s), r) \<Rightarrow> Some (Inr (fr_payload s), fr_reset (s\<lparr>fr_payload := []\<rparr>), r))"
    using False by (simp add: read_frame_def read_prefix_steps begin_body_def)
  with body_step [OF ok False total] show ?thesis by simp
next
  case True
  then have wf: "length (fr_prefix s) = 4" "fr_prefix_read s \<le> 4" "fr_payload_read s = 0" using ok by (auto simp: reader_ok_def)
  from read_prefix_run [OF wf(1,2), of r] obtain b n r' where
    moved: "transfers content faults (fr_prefix s) (fr_prefix_read s) r b n r'" and
    ends: "let s' = s\<lparr>fr_prefix := b, fr_prefix_read := n\<rparr>
     in n = 4 \<and> read_prefix read s r = Some ((Inr (), s'), r')
        \<or> faults r' < faults r \<and> read_prefix read s r = Some ((Inl Timeout, s'), r')
        \<or> n < 4 \<and> content r' = [] \<and> read_prefix read s r =
            Some (if n = 0 then (Inl Closed, s') else malformed ''truncated frame length prefix'' s', r')"
    by blast
  let ?s = "s\<lparr>fr_prefix := b, fr_prefix_read := n\<rparr>"
  have len: "length b = 4" "n \<le> 4" "faults r' \<le> faults r" using moved wf by (auto simp: transfers_def)
  have bytes: "bs = take n b @ content r'" using moved total True by (simp add: transfers_def held_def)
  show ?thesis using ends unfolding Let_def
  proof (elim disjE conjE)
    assume n: "n = 4" and prefix: "read_prefix read s r = Some ((Inr (), ?s), r')"
    let ?m = "unat (from_be_bytes b)" and ?t = "?s\<lparr>fr_payload := replicate (unat (from_be_bytes b)) 0\<rparr>"
    consider "?m = 0" | "max_frame_bytes < ?m" | "0 < ?m" "?m \<le> max_frame_bytes" by linarith
    then show ?thesis
    proof cases
      case 3
      then have "reader_ok ?t" "fr_payload ?t \<noteq> []" "held ?t @ content r' = bs"
        using n len wf bytes by (auto simp: reader_ok_def held_def)
      moreover have "begin_body ?s = (Inr (), ?t)" using 3 True by (simp add: begin_body_def Let_def)
      ultimately show ?thesis
        using body_step [of ?t r' bs] prefix len(3) by (fastforce simp: read_frame_def)
    qed (use n prefix True len in \<open>auto simp: bytes read_frame_def begin_body_def malformed_def parse_frame_def\<close>)
  next
    assume "faults r' < faults r" "read_prefix read s r = Some ((Inl Timeout, ?s), r')"
    then show ?thesis using len wf True bytes by (auto simp: read_frame_def reader_ok_def held_def)
  next
    assume short: "n < 4" "content r' = []" and "read_prefix read s r =
            Some (if n = 0 then (Inl Closed, ?s) else malformed ''truncated frame length prefix'' ?s, r')"
    then show ?thesis using len wf True bytes by (auto simp: read_frame_def malformed_def fr_reset_def reader_ok_def held_def parse_frame_def)
  qed
qed

lemma session_parses:
  assumes "reader_ok s" and "held s @ content r = bs" and "faults r + length bs < fuel"
  shows "frame_session fuel read s r = Some (parse_frames bs)"
  using assms
proof (induction fuel arbitrary: s r bs)
  case 0
  then show ?case by simp
next
  case (Suc fuel)
  from read_frame_step [OF Suc.prems(1,2)] obtain out s' r' where
    call: "read_frame read s r = Some (out, s', r')" and ok: "reader_ok s'" and
    result: "out = Inl Timeout \<and> held s' @ content r' = bs \<and> faults r' < faults r
      \<or> held s' = [] \<and> faults r' \<le> faults r
        \<and> (case out of Inr p \<Rightarrow> parse_frame bs = Inr (p, content r') | Inl e \<Rightarrow> parse_frame bs = Inl e)"
    by blast
  have no_timeout: "parse_frame bs \<noteq> Inl Timeout" by (simp add: parse_frame_def Let_def)
  show ?case
  proof (cases "out = Inl Timeout")
    case True
    then show ?thesis using Suc.IH [OF ok, of r' bs] Suc.prems(3) call result no_timeout by auto
  next
    case False
    then have "held s' = []" "faults r' \<le> faults r"
      and answer: "case out of Inr p \<Rightarrow> parse_frame bs = Inr (p, content r') | Inl e \<Rightarrow> parse_frame bs = Inl e"
      using result by auto
    then show ?thesis
      using Suc.IH [OF ok, of r' "content r'"] Suc.prems(3) call False
      by (subst parse_frames.simps) (auto split: sum.splits prod.splits dest: parse_frame_consumes)
  qed
qed

end

section \<open>A reader that cannot be trusted\<close>

text \<open>
  What holds for any reader at all, also one that lies about its counts; a call gets a slice
  and cannot change its length.
\<close>

definition in_place :: "'r read_method \<Rightarrow> bool" where
  "in_place read \<longleftrightarrow> (\<forall>buffer r. length (fst (snd (read buffer r))) = length buffer)"

lemma in_placeD: "in_place read \<Longrightarrow> read buffer r = (out, buffer', r') \<Longrightarrow> length buffer' = length buffer"
  by (metis in_place_def fst_conv snd_conv)

text \<open>An outcome keeps the reader well-formed, and only a timeout leaves part of a frame behind.\<close>

definition settles :: "(protocol_error + unit) \<times> frame_reader \<Rightarrow> bool" where
  "settles y \<longleftrightarrow> reader_ok (snd y) \<and> (\<forall>e. fst y = Inl e \<longrightarrow> e = Timeout \<or> held (snd y) = [])"

lemma settles_simps [simp]:
  "settles (Inr u, s) \<longleftrightarrow> reader_ok s"
  "reader_ok s \<Longrightarrow> settles (malformed what s)"
  "reader_ok s \<Longrightarrow> settles (read_failed e s)"
  by (auto simp: settles_def malformed_def read_failed_def) (auto simp: reader_ok_def fr_reset_def)

lemma failures_fst [simp]: "fst (malformed what s) = Inl (Malformed what)" "fst (read_failed e s) = Inl (map_io e)"
  by (simp_all add: malformed_def read_failed_def)

lemma reader_ok_update:
  "reader_ok s \<Longrightarrow> fr_prefix_read s < length (fr_prefix s) \<Longrightarrow> length b = length (fr_prefix s) \<Longrightarrow> reader_ok (s\<lparr>fr_prefix := b\<rparr>)"
  "reader_ok s \<Longrightarrow> fr_payload_read s < length (fr_payload s) \<Longrightarrow> length b = length (fr_payload s) \<Longrightarrow> reader_ok (s\<lparr>fr_payload := b\<rparr>)"
  "reader_ok s \<Longrightarrow> fr_prefix_read s < length (fr_prefix s) \<Longrightarrow> n \<le> length (fr_prefix s) \<Longrightarrow> reader_ok (s\<lparr>fr_prefix_read := n\<rparr>)"
  "reader_ok s \<Longrightarrow> fr_payload_read s < length (fr_payload s) \<Longrightarrow> n \<le> length (fr_payload s) \<Longrightarrow> reader_ok (s\<lparr>fr_payload_read := n\<rparr>)"
  by (auto simp: reader_ok_def split: if_splits)

lemma read_prefix_settles:
  assumes "read_prefix read s r = Some y"
  shows "in_place read \<and> reader_ok s \<longrightarrow> settles (fst y) \<and> (fst (fst y) = Inr () \<longrightarrow> fr_prefix_read (snd (fst y)) = 4)"
proof (rule read_prefix.raw_induct [OF _ assms], goal_cases)
  case (1 loop read s r y)
  show ?case
  proof (intro impI, elim conjE)
    assume "in_place read" and ok: "reader_ok s"
    let ?b = "fr_prefix s" and ?n = "fr_prefix_read s"
    obtain out buffer r' where call: "read (drop ?n ?b) r = (out, buffer, r')" by (cases "read (drop ?n ?b) r")
    let ?s = "s\<lparr>fr_prefix := take ?n ?b @ buffer\<rparr>"
    have next_ok: "reader_ok ?s" if "?n < length ?b"
      using in_placeD [OF \<open>in_place read\<close> call] that by (intro reader_ok_update(1) ok) simp_all
    show "settles (fst y) \<and> (fst (fst y) = Inr () \<longrightarrow> fr_prefix_read (snd (fst y)) = 4)"
    proof (cases "?n < length ?b")
      case False
      then show ?thesis using 1(2) ok by (auto simp: reader_ok_def split: if_splits)
    next
      case True
      have "settles (Inl Closed, ?s)" if "?n = 0"
        using next_ok [OF True] ok True that by (auto simp: settles_def held_def reader_ok_def split: if_splits)
      moreover have "reader_ok (?s\<lparr>fr_prefix_read := k\<rparr>)" if "k \<le> length (fr_prefix ?s)" for k
        using next_ok [OF True] True that in_placeD [OF \<open>in_place read\<close> call] by (intro reader_ok_update(3)) simp_all
      ultimately show ?thesis
        using 1(2) True call next_ok [OF True] \<open>in_place read\<close>
        by (auto simp: Let_def split: sum.splits if_splits option.splits dest!: 1(1))
    qed
  qed
qed

lemma read_body_settles:
  assumes "read_body read s r = Some y"
  shows "in_place read \<and> reader_ok s \<longrightarrow> settles (fst y)
    \<and> (fst (fst y) = Inr () \<longrightarrow> length (fr_payload (snd (fst y))) = length (fr_payload s))"
proof (rule read_body.raw_induct [OF _ assms], goal_cases)
  case (1 loop read s r y)
  show ?case
  proof (intro impI, elim conjE)
    assume "in_place read" and ok: "reader_ok s"
    let ?b = "fr_payload s" and ?n = "fr_payload_read s"
    obtain out buffer r' where call: "read (drop ?n ?b) r = (out, buffer, r')" by (cases "read (drop ?n ?b) r")
    let ?s = "s\<lparr>fr_payload := take ?n ?b @ buffer\<rparr>"
    show "settles (fst y) \<and> (fst (fst y) = Inr () \<longrightarrow> length (fr_payload (snd (fst y))) = length ?b)"
    proof (cases "?n < length ?b")
      case False
      then show ?thesis using 1(2) ok by auto
    next
      case True
      have len: "length (take ?n ?b @ buffer) = length ?b" using in_placeD [OF \<open>in_place read\<close> call] True by simp
      have ok': "reader_ok ?s" using len True by (intro reader_ok_update(2) ok) simp_all
      moreover have "reader_ok (?s\<lparr>fr_payload_read := k\<rparr>)" if "k \<le> length (fr_payload ?s)" for k
        using ok' True that len by (intro reader_ok_update(4)) simp_all
      ultimately show ?thesis
        using 1(2) True call len \<open>in_place read\<close>
        by (auto simp: Let_def split: sum.splits if_splits option.splits dest!: 1(1))
    qed
  qed
qed

section \<open>A stream that stalls\<close>

text \<open>
  A peer's bytes as an operating system delivers them: in pieces of any size, between
  interruptions and timeouts, in any order. When the events are used up, what is left is
  delivered at once, and the end of the bytes is the end of the stream.
\<close>

datatype stream_event = Deliver nat | Interrupt | TimeOut | Block

type_synonym stalling = "bytes \<times> stream_event list"

fun fault_of :: "stream_event \<Rightarrow> io_error option" where
  "fault_of (Deliver k) = None"
| "fault_of Interrupt = Some \<lparr>io_kind = IoInterrupted, io_text = ''interrupted''\<rparr>"
| "fault_of TimeOut = Some \<lparr>io_kind = IoTimedOut, io_text = ''timed out''\<rparr>"
| "fault_of Block = Some \<lparr>io_kind = IoWouldBlock, io_text = ''would block''\<rparr>"

definition deliver_bytes :: "nat \<Rightarrow> bytes \<Rightarrow> bytes \<Rightarrow> stream_event list \<Rightarrow> (io_error + nat) \<times> bytes \<times> stalling" where
  "deliver_bytes limit buffer bs es =
     (let n = min limit (min (length buffer) (length bs)) in (Inr n, take n bs @ drop n buffer, (drop n bs, es)))"

fun stalling_read :: "stalling read_method" where
  "stalling_read buffer (bs, []) = deliver_bytes (length bs) buffer bs []"
| "stalling_read buffer (bs, v # es) =
     (case fault_of v of
        Some e \<Rightarrow> (Inl e, buffer, (bs, es))
      | None \<Rightarrow> deliver_bytes (case v of Deliver k \<Rightarrow> Suc k | _ \<Rightarrow> 0) buffer bs es)"

interpretation stalling: byte_stream stalling_read fst "\<lambda>r. length (snd r)"
proof
  show "n \<le> length buffer \<and> n \<le> length (fst r) \<and> buffer' = take n (fst r) @ drop n buffer
      \<and> fst r' = drop n (fst r) \<and> length (snd r') \<le> length (snd r) \<and> (n = 0 \<longrightarrow> fst r = [])"
    if "buffer \<noteq> []" "stalling_read buffer r = (Inr n, buffer', r')" for buffer r n buffer' r'
    using that by (cases "(buffer, r)" rule: stalling_read.cases)
      (auto simp: deliver_bytes_def Let_def min_def split: option.splits stream_event.splits if_splits)
  show "length buffer' = length buffer \<and> fst r' = fst r \<and> length (snd r') < length (snd r)
      \<and> (io_kind e = IoInterrupted \<or> map_io e = Timeout)"
    if "buffer \<noteq> []" "stalling_read buffer r = (Inl e, buffer', r')" for buffer r e buffer' r'
    using that by (cases "(buffer, r)" rule: stalling_read.cases)
      (auto simp: deliver_bytes_def Let_def map_io_def elim!: fault_of.elims split: option.splits)
qed

text \<open>Frames written one after another to a byte vector, which never fails.\<close>

definition vec_write_all :: "bytes \<Rightarrow> bytes \<Rightarrow> (io_error + unit) \<times> bytes" where
  "vec_write_all bs w = (Inr (), w @ bs)"

definition vec_flush :: "bytes \<Rightarrow> (io_error + unit) \<times> bytes" where
  "vec_flush w = (Inr (), w)"

definition write_frames :: "bytes list \<Rightarrow> bytes" where
  "write_frames ps = foldl (\<lambda>w p. snd (write_frame vec_write_all vec_flush w p)) [] ps"

lemma write_frame_vec:
  "p \<noteq> [] \<Longrightarrow> length p \<le> max_frame_bytes \<Longrightarrow> write_frame vec_write_all vec_flush w p = (Inr (), w @ frame_bytes p)"
  by (auto simp: write_frame_def vec_write_all_def vec_flush_def frame_bytes_def max_frame_bytes_def decode_allocation_budget_def)

lemma write_frames_concat:
  assumes "list_all (\<lambda>p. p \<noteq> [] \<and> length p \<le> max_frame_bytes) ps"
  shows "write_frames ps = concat (map frame_bytes ps)"
proof -
  have "foldl (\<lambda>w p. snd (write_frame vec_write_all vec_flush w p)) w ps = w @ concat (map frame_bytes ps)" for w
    using assms by (induction ps arbitrary: w) (simp_all add: write_frame_vec)
  then show ?thesis by (simp add: write_frames_def)
qed

section \<open>Properties\<close>

text \<open>
  What is written with \<open>write_frame\<close> is what a receiver reads with one \<open>FrameReader\<close>, frame by
  frame and in order, however the stream cuts the bytes into pieces and wherever it is
  interrupted or times out in between, and the receiver then sees the stream closed.
\<close>

lemma frames_survive_faults:
  assumes "list_all (\<lambda>p. p \<noteq> [] \<and> length p \<le> max_frame_bytes) ps"
    and "length events + length (write_frames ps) < fuel"
  shows "frame_session fuel stalling_read frame_reader_new (write_frames ps, events) = Some (ps, Closed)"
  using stalling.session_parses [OF reader_ok_new(1), of "(write_frames ps, events)"] assms
  by (simp add: reader_ok_new write_frames_concat parse_frames_concat)

text \<open>
  C9: Whatever a reader does, also one that lies about its counts, \<open>read_frame\<close> keeps its state
  well-formed and its buffer within the frame limit: the length is checked before memory is
  taken for it. A returned payload has between one byte and the limit, and every outcome but
  a timeout leaves the reader at the start of a frame.
\<close>

theorem frame_reader_bounded:
  assumes "\<forall>buffer r. length (fst (snd (read buffer r))) = length buffer"
    and "reader_ok s" and "read_frame read s r = Some (out, s', r')"
  shows "reader_ok s' \<and> length (fr_payload s') \<le> max_frame_bytes
    \<and> (\<forall>p. out = Inr p \<longrightarrow> 0 < length p \<and> length p \<le> max_frame_bytes) \<and> (out = Inl Timeout \<or> held s' = [])"
proof -
  have sized: "in_place read" using assms(1) by (simp add: in_place_def)
  have enough: ?thesis if "reader_ok s'" "out = Inl Timeout \<or> held s' = []" "\<forall>p. out = Inr p \<longrightarrow> 0 < length p \<and> length p \<le> max_frame_bytes"
    using that by (auto simp: reader_ok_def split: if_splits)
  obtain out1 s1 r1 where prefix: "read_prefix read s r = Some ((out1, s1), r1)"
    using assms(3) by (auto simp: read_frame_def split: option.splits)
  note first = read_prefix_settles [OF prefix] sized assms(2)
  show ?thesis
  proof (cases out1)
    case (Inl e)
    then show ?thesis using first assms(3) prefix by (intro enough) (auto simp: read_frame_def settles_def)
  next
    case (Inr u)
    then have ok1: "reader_ok s1" "fr_prefix_read s1 = 4" using first by simp_all
    obtain out2 s2 where start: "begin_body s1 = (out2, s2)" by (cases "begin_body s1")
    then have ok2: "settles (out2, s2)" "out2 = Inr () \<Longrightarrow> fr_payload s2 \<noteq> []" "out2 \<noteq> Inl Timeout"
      using ok1 by (auto simp: begin_body_def malformed_def Let_def settles_def held_def fr_reset_def reader_ok_def split: if_splits)
    show ?thesis
    proof (cases out2)
      case (Inl e)
      then show ?thesis using ok2 assms(3) prefix Inr start by (intro enough) (auto simp: read_frame_def settles_def)
    next
      case (Inr v)
      obtain out3 s3 r3 where body: "read_body read s2 r1 = Some ((out3, s3), r3)"
        using assms(3) prefix \<open>out1 = Inr u\<close> start Inr by (auto simp: read_frame_def split: option.splits)
      have ok3: "settles (out3, s3)" "out3 = Inr () \<Longrightarrow> length (fr_payload s3) = length (fr_payload s2)"
        using read_body_settles [OF body] sized ok2(1) Inr by auto
      have "fr_payload s2 \<noteq> []" using ok2(2) Inr by simp
      moreover have "reader_ok s2" using ok2(1) Inr by simp
      ultimately have "0 < length (fr_payload s2)" "length (fr_payload s2) \<le> max_frame_bytes" by (simp, simp add: reader_ok_def)
      then show ?thesis
        using assms(3) prefix \<open>out1 = Inr u\<close> start Inr body ok3
        by (intro enough; cases out3) (auto simp: read_frame_def settles_def fr_reset_def held_def reader_ok_def split: if_splits)
    qed
  qed
qed

text \<open>A reader that claims nine bytes whatever it was given.\<close>

definition lying_read :: "unit read_method" where
  "lying_read buffer r = (Inr 9, buffer, r)"

theorem frame_reader_bounded_witness:
  "read_frame lying_read frame_reader_new () = Some (Inl (Malformed ''reader returned too many prefix bytes''), frame_reader_new, ())
    \<and> held frame_reader_new = []"
proof -
  have call: "read_frame lying_read frame_reader_new () = Some (Inl (Malformed ''reader returned too many prefix bytes''), frame_reader_new, ())"
    by (simp add: read_frame_def read_prefix.simps lying_read_def malformed_def fr_reset_def frame_reader_new_def Let_def)
  show ?thesis using frame_reader_bounded [OF _ reader_ok_new(1) call] call by (simp add: lying_read_def)
qed

end
