(* ===== verification/Wire_Message.thy ===== *)
theory Wire_Message
  imports Wire "HOL-Library.List_Lexorder"
begin

text \<open>
  What the messages of \<open>crates/crikey-native-protocol/src/message.rs\<close> share: the decode loop
  the macro \<open>impl_simple\<close> expands to for each of them, with the \<open>match\<close> on the field number
  as its argument, nested messages, maps and unknown fields. \<open>mark_singular\<close> always succeeds and
  changes nothing, so it has no counterpart.
\<close>

section \<open>Values\<close>

definition ensure_message_size :: "bytes \<Rightarrow> protocol_error + unit" where
  "ensure_message_size bs =
     (if max_frame_bytes < length bs then Inl (FrameTooLarge (length bs)) else Inr ())"

definition decode_u32 :: "field \<Rightarrow> protocol_error + u32" where
  "decode_u32 f =
     chain (decode_field_varint f) (\<lambda>raw.
     if raw \<le> 0xffffffff then Inr (ucast raw) else Inl (Malformed ''uint32 value overflows''))"

text \<open>A signed 32-bit integer is its two's complement word.\<close>

definition decode_i32 :: "field \<Rightarrow> protocol_error + 32 word" where
  "decode_i32 f =
     chain (decode_field_varint f) (\<lambda>raw.
     if raw \<le> 0xffffffff \<or> drop_bit 32 raw = 0xffffffff then Inr (ucast (raw AND 0xffffffff))
     else Inl (Malformed ''int32 value overflows''))"

text \<open>Enum codes are not negative, so the conversion to \<open>u64\<close> succeeds.\<close>

definition encode_enum :: "u32 \<Rightarrow> 32 word \<Rightarrow> bytes" where
  "encode_enum field v = (if v \<noteq> 0 then put_varint field (ucast v) else [])"

text \<open>\<open>x != 0.0\<close> on the bits of a float: every pattern but the two zeros.\<close>

definition f32_nonzero :: "f32 \<Rightarrow> bool" where
  "f32_nonzero x \<longleftrightarrow> x AND 0x7fffffff \<noteq> 0"

section \<open>The decode loop\<close>

lemma chain_Inr: "chain r f = Inr v \<longleftrightarrow> (\<exists>x. r = Inr x \<and> f x = Inr v)"
  by (cases r) simp_all

lemma ok_or_Inr: "ok_or e x = Inr v \<longleftrightarrow> x = Some v"
  by (cases x) simp_all

lemma decode_varint_loop_progress:
  "decode_varint_loop n i v input cursor = Inr (w, cursor') \<Longrightarrow> cursor < cursor'"
proof (induction n arbitrary: i v cursor)
  case (Suc n)
  from Suc.prems show ?case
    by (auto simp: chain_Inr ok_or_Inr Let_def split: if_splits dest!: Suc.IH)
qed simp

lemma decode_varint_progress: "decode_varint input cursor = Inr (w, cursor') \<Longrightarrow> cursor < cursor'"
  by (simp add: decode_varint_def decode_varint_loop_progress)

lemma value_extent_progress: "value_extent wire input cursor = Inr (start, stop) \<Longrightarrow> cursor \<le> stop"
  by (cases wire) (auto simp: chain_Inr ok_or_Inr fixed_end_def split: if_splits dest!: decode_varint_progress)

lemma read_field_progress: "read_field input cursor = Inr (f, cursor') \<Longrightarrow> cursor < cursor'"
  by (auto simp: read_field_def chain_Inr Let_def split: if_splits dest!: decode_varint_progress value_extent_progress)

type_synonym 'm arms = "field \<Rightarrow> 'm \<Rightarrow> decode_budget \<Rightarrow> protocol_error + ('m \<times> decode_budget)"

function merge_loop :: "'m arms \<Rightarrow> bytes \<Rightarrow> nat \<Rightarrow> 'm \<Rightarrow> decode_budget \<Rightarrow> protocol_error + ('m \<times> decode_budget)" where
  "merge_loop arms input cursor m b =
     (if length input \<le> cursor then Inr (m, b)
      else case read_field input cursor of
             Inl e \<Rightarrow> Inl e
           | Inr (f, cursor) \<Rightarrow>
               (case arms f m b of
                  Inl e \<Rightarrow> Inl e
                | Inr (m, b) \<Rightarrow> merge_loop arms input cursor m b))"
  by pat_completeness auto
termination
  by (relation "measure (\<lambda>(arms, input, cursor, m, b). length input - cursor)")
    (auto dest!: read_field_progress)

declare merge_loop.simps [simp del]

definition merge_with_budget :: "'m arms \<Rightarrow> 'm \<Rightarrow> bytes \<Rightarrow> decode_budget \<Rightarrow> protocol_error + ('m \<times> decode_budget)" where
  "merge_with_budget arms m bs b = merge_loop arms bs 0 m b"

definition decode_with_budget :: "'m arms \<Rightarrow> 'm \<Rightarrow> bytes \<Rightarrow> decode_budget \<Rightarrow> protocol_error + ('m \<times> decode_budget)" where
  "decode_with_budget arms initial bs b = merge_with_budget arms initial bs b"

definition decode_message :: "'m arms \<Rightarrow> 'm \<Rightarrow> bytes \<Rightarrow> protocol_error + 'm" where
  "decode_message arms initial bs =
     chain (ensure_message_size bs) (\<lambda>_.
     chain (decode_with_budget arms initial bs budget_new) (\<lambda>(m, b). Inr m))"

section \<open>The arms\<close>

text \<open>A field set to a decoded value, one whose decoding charges the budget, and a repeated one.\<close>

definition assign :: "protocol_error + 'a \<Rightarrow> ('a \<Rightarrow> 'm) \<Rightarrow> decode_budget \<Rightarrow> protocol_error + ('m \<times> decode_budget)" where
  "assign r upd b = chain r (\<lambda>v. Inr (upd v, b))"

definition assign_in :: "protocol_error + ('a \<times> decode_budget) \<Rightarrow> ('a \<Rightarrow> 'm) \<Rightarrow> protocol_error + ('m \<times> decode_budget)" where
  "assign_in r upd = chain r (\<lambda>(v, b). Inr (upd v, b))"

definition push_field ::
  "nat \<Rightarrow> protocol_error + ('a \<times> decode_budget) \<Rightarrow> 'a list \<Rightarrow> ('a list \<Rightarrow> 'm) \<Rightarrow> protocol_error + ('m \<times> decode_budget)" where
  "push_field element r values upd = chain r (\<lambda>(v, b). assign_in (push_decoded element values v b) upd)"

definition keep_unknown :: "field \<Rightarrow> unknown_fields \<Rightarrow> (unknown_fields \<Rightarrow> 'm) \<Rightarrow> decode_budget \<Rightarrow> protocol_error + ('m \<times> decode_budget)" where
  "keep_unknown f u upd b = assign_in (push_raw_bounded (fd_raw f) u b) upd"

text \<open>Nested messages: \<open>read\<close> decodes a fresh one or merges into one that is there.\<close>

definition nested :: "(bytes \<Rightarrow> decode_budget \<Rightarrow> protocol_error + ('m \<times> decode_budget)) \<Rightarrow> field \<Rightarrow> decode_budget \<Rightarrow> protocol_error + ('m \<times> decode_budget)" where
  "nested read f b =
     chain (expect_wire f WtLength) (\<lambda>_.
     chain (enter_nested b) (\<lambda>b.
     chain (read (fd_value f) b) (\<lambda>(m, b). Inr (m, leave_nested b))))"

definition merge_payload :: "'m arms \<Rightarrow> 'm \<Rightarrow> 'm option \<Rightarrow> field \<Rightarrow> decode_budget \<Rightarrow> protocol_error + ('m \<times> decode_budget)" where
  "merge_payload arms initial present f b =
     (case present of
        Some m \<Rightarrow> nested (merge_with_budget arms m) f b
      | None \<Rightarrow> nested (decode_with_budget arms initial) f b)"

section \<open>Maps\<close>

definition map_entry_field :: "(utf8 \<times> utf8 \<times> bool) arms" where
  "map_entry_field f m b =
     (case m of (key, v, has_unknown) \<Rightarrow>
        if fd_number f = 1 then assign_in (decode_string f b) (\<lambda>key. (key, v, has_unknown))
        else if fd_number f = 2 then assign_in (decode_string f b) (\<lambda>v. (key, v, has_unknown))
        else Inr ((key, v, True), b))"

definition map_entry :: "field \<Rightarrow> decode_budget \<Rightarrow> protocol_error + ((utf8 \<times> utf8 \<times> bool) \<times> decode_budget)" where
  "map_entry f b =
     chain (expect_wire f WtLength) (\<lambda>_. merge_loop map_entry_field (fd_value f) 0 ([], [], False) b)"

text \<open>\<open>BTreeMap::insert\<close>: the entries are in the order of their keys.\<close>

fun btree_insert :: "utf8 \<Rightarrow> utf8 \<Rightarrow> (utf8 \<times> utf8) list \<Rightarrow> (utf8 \<times> utf8) list" where
  "btree_insert key v [] = [(key, v)]"
| "btree_insert key v ((k, w) # m) =
     (if key < k then (key, v) # (k, w) # m
      else if key = k then (key, v) # m
      else (k, w) # btree_insert key v m)"

definition insert_map :: "layout \<Rightarrow> utf8 \<Rightarrow> utf8 \<Rightarrow> (utf8 \<times> utf8) list \<Rightarrow> decode_budget \<Rightarrow> protocol_error + ((utf8 \<times> utf8) list \<times> decode_budget)" where
  "insert_map lay key v m b = chain (charge_map_entry lay b) (\<lambda>b. Inr (btree_insert key v m, b))"

text \<open>The arm of a map field: an entry with unknown fields is kept whole as unknown.\<close>

definition insert_field ::
  "layout \<Rightarrow> field \<Rightarrow> unknown_fields \<Rightarrow> (utf8 \<times> utf8) list \<Rightarrow> (unknown_fields \<Rightarrow> 'm) \<Rightarrow> ((utf8 \<times> utf8) list \<Rightarrow> 'm)
   \<Rightarrow> decode_budget \<Rightarrow> protocol_error + ('m \<times> decode_budget)" where
  "insert_field lay f u entries upd_unknown upd b =
     chain (map_entry f b) (\<lambda>((key, v, has_unknown), b).
     if has_unknown then assign_in (push_raw_bounded (fd_raw f) u b) upd_unknown
     else assign_in (insert_map lay key v entries b) upd)"

definition put_map :: "u32 \<Rightarrow> utf8 \<Rightarrow> utf8 \<Rightarrow> bytes" where
  "put_map field key v =
     put_bytes field ((if key \<noteq> [] then put_string 1 key else []) @ (if v \<noteq> [] then put_string 2 v else []))"

definition put_optional :: "('a \<Rightarrow> bytes) \<Rightarrow> 'a option \<Rightarrow> bytes" where
  "put_optional put x = (case x of None \<Rightarrow> [] | Some v \<Rightarrow> put v)"

definition finish :: "bytes \<Rightarrow> unknown_fields \<Rightarrow> bytes" where
  "finish out u = out @ as_bytes u"

end
