(* ===== verification/Wire_Codec.thy ===== *)
theory Wire_Codec
  imports Wire_Parse Wire_Message
begin

text \<open>
  The interface of a message codec and the lemmas its clients share. A message type has the
  arms of its decode loop, its zero message, its encoder, the messages that can be sent, what
  decoding one charges the budget and how deep it nests; the law is that the decode loop,
  started on the encoding, arrives at the message having spent exactly the charge. From the
  law follow the round trip of the message itself and of every message that holds it.
\<close>

section \<open>The decode loop without a cursor\<close>

function merge_fields :: "'m arms \<Rightarrow> bytes \<Rightarrow> 'm \<Rightarrow> decode_budget \<Rightarrow> ('m \<times> decode_budget) option" where
  "merge_fields arms bs m b =
     (if bs = [] then Some (m, b)
      else case parse_field bs of
             None \<Rightarrow> None
           | Some (f, rest) \<Rightarrow>
               (case arms f m b of
                  Inl e \<Rightarrow> None
                | Inr (m, b) \<Rightarrow> merge_fields arms rest m b))"
  by pat_completeness auto
termination
proof (relation "measure (\<lambda>(arms, bs, m, b). length bs)")
  fix bs :: bytes and p f rest
  assume "parse_field bs = Some p" "(f, rest) = p"
  then have "bs = fd_raw f @ rest" "fd_raw f \<noteq> []" by (metis parse_field_used)+
  then have "length rest < length bs" by (metis length_append length_greater_0_conv less_add_same_cancel2)
  then show "((arms, rest, m, b), arms', bs, m', b') \<in> measure (\<lambda>(arms, bs, m, b). length bs)" for arms m b arms' m' b' by simp
qed simp

declare merge_fields.simps [simp del]

lemma merge_fields_Nil [simp]: "merge_fields arms [] m b = Some (m, b)"
  by (simp add: merge_fields.simps)

lemma merge_fields_parse:
  "parse_field bs = Some (f, rest) \<Longrightarrow> arms f m b = Inr (m', b') \<Longrightarrow> merge_fields arms bs m b = merge_fields arms rest m' b'"
  using parse_field_used [of bs f rest] by (subst merge_fields.simps) auto

lemma merge_loop_fields:
  assumes "length input \<le> usize_max" and "cursor \<le> length input"
  shows "res_ok (merge_loop arms input cursor m b) = merge_fields arms (drop cursor input) m b"
  using assms
proof (induction arms input cursor m b rule: merge_loop.induct)
  case (1 arms input cursor m b)
  show ?case
  proof (cases "length input \<le> cursor")
    case True
    then show ?thesis by (simp add: merge_loop.simps)
  next
    case False
    note parse = read_field_parse [OF "1.prems"]
    show ?thesis
    proof (cases "read_field input cursor")
      case (Inl e)
      with parse have "parse_field (drop cursor input) = None" by simp
      with False Inl show ?thesis by (subst merge_loop.simps, subst merge_fields.simps) simp
    next
      case (Inr fc)
      obtain f c where fc: "fc = (f, c)" by (cases fc)
      with parse Inr have "map_option (at_rest input) (parse_field (drop cursor input)) = Some (f, c)" by simp
      then obtain rest where rest: "parse_field (drop cursor input) = Some (f, rest)" "c = length input - length rest"
        by (auto simp: at_rest_def)
      note used = parse_field_used(1) [OF rest(1)]
      note c = suffix_cursor [OF "1.prems"(2) used]
      show ?thesis
      proof (cases "arms f m b")
        case (Inl e)
        with False Inr fc rest show ?thesis by (subst merge_loop.simps, subst merge_fields.simps) simp
      next
        case Inr': (Inr mb)
        obtain m' b' where mb: "mb = (m', b')" by (cases mb)
        have "res_ok (merge_loop arms input c m' b') = merge_fields arms (drop c input) m' b'"
          using "1.IH" [OF False Inr fc [symmetric] Inr' mb [symmetric]] "1.prems" c(2) rest(2) by simp
        with False Inr Inr' fc mb rest c(1) show ?thesis
          by (subst merge_loop.simps, subst merge_fields.simps) simp
      qed
    qed
  qed
qed

lemma decode_fields:
  "length bs \<le> usize_max \<Longrightarrow> res_ok (decode_with_budget arms initial bs b) = merge_fields arms bs initial b"
  using merge_loop_fields [of bs 0] by (simp add: decode_with_budget_def merge_with_budget_def)

section \<open>Absorbing an encoding\<close>

abbreviation budget_of :: "nat \<Rightarrow> nat \<Rightarrow> decode_budget" where
  "budget_of r d \<equiv> \<lparr>bg_remaining = r, bg_depth = d\<rparr>"

definition absorbs :: "'m arms \<Rightarrow> nat \<Rightarrow> bytes \<Rightarrow> nat \<Rightarrow> 'm \<Rightarrow> 'm \<Rightarrow> bool" where
  "absorbs arms h bs c m m' \<longleftrightarrow>
     (\<forall>rest r d. d + h \<le> max_decode_depth \<longrightarrow> c + r \<le> usize_max \<longrightarrow>
        merge_fields arms (bs @ rest) m (budget_of (c + r) d) = merge_fields arms rest m' (budget_of r d))"

lemma absorbs_Nil: "absorbs arms h [] 0 m m"
  by (simp add: absorbs_def)

lemma absorbs_append:
  "absorbs arms h bs c m m1 \<Longrightarrow> absorbs arms h bs' c' m1 m' \<Longrightarrow> absorbs arms h (bs @ bs') (c + c') m m'"
  by (simp add: absorbs_def add.assoc)

lemma absorbs_eq: "absorbs arms h bs c m m1 \<Longrightarrow> c = c' \<Longrightarrow> m1 = m' \<Longrightarrow> absorbs arms h bs c' m m'"
  by simp

lemma absorbs_when: "(p \<Longrightarrow> absorbs arms h bs c m m') \<Longrightarrow> (\<not> p \<Longrightarrow> c = 0 \<and> m' = m) \<Longrightarrow> absorbs arms h (if p then bs else []) c m m'"
  by (auto simp: absorbs_Nil)

lemma absorbs_field:
  assumes "\<And>rest. parse_field (bs @ rest) = Some (f, rest)"
    and "\<And>r d. d + h \<le> max_decode_depth \<Longrightarrow> c + r \<le> usize_max \<Longrightarrow> arms f m (budget_of (c + r) d) = Inr (m', budget_of r d)"
  shows "absorbs arms h bs c m m'"
  unfolding absorbs_def using assms by (blast intro: merge_fields_parse)

section \<open>Scalar fields\<close>

lemma absorbs_varint:
  assumes "\<And>f b. fd_number f = n \<Longrightarrow> arms f m b = assign (dec f) upd b"
    and "field_number n" and "dec (varint_field n v) = Inr w"
  shows "absorbs arms h (put_varint n v) 0 m (upd w)"
proof (rule absorbs_field)
  show "parse_field (put_varint n v @ rest) = Some (varint_field n v, rest)" for rest
    by (rule parse_put_varint [OF assms(2)])
  have "fd_number (varint_field n v) = n" by (simp add: varint_field_def)
  then show "arms (varint_field n v) m (budget_of (0 + r) d) = Inr (upd w, budget_of r d)" for r d
    using assms(3) by (simp add: assms(1) assign_def)
qed

text \<open>The arm is stated for every message, so that the update of the field can be read off it.\<close>

lemma absorbs_u64:
  assumes "\<And>f s b. fd_number f = n \<Longrightarrow> arms f s b = assign (decode_field_varint f) (\<lambda>v. upd v s) b"
    and "field_number n" and "v = 0 \<Longrightarrow> upd v m = m"
  shows "absorbs arms h (if v \<noteq> 0 then put_varint n v else []) 0 m (upd v m)"
  using assms by (intro absorbs_when absorbs_varint [where dec = decode_field_varint and upd = "\<lambda>v. upd v m"]) auto

lemma absorbs_bool:
  assumes "\<And>f s b. fd_number f = n \<Longrightarrow> arms f s b = assign (decode_field_varint f) (\<lambda>v. upd v s) b"
    and "field_number n" and "\<not> v \<Longrightarrow> upd (of_bool v) m = m"
  shows "absorbs arms h (if v then put_varint n 1 else []) 0 m (upd (of_bool v) m)"
  using assms by (intro absorbs_when absorbs_varint [where dec = decode_field_varint and upd = "\<lambda>v. upd v m"]) auto

lemma low_half: "w AND 0xffffffff = take_bit 32 w" for w :: u64
  by (simp add: take_bit_eq_mask mask_eq_exp_minus_1)

lemma low_word: "(ucast (ucast v :: u64) :: u32) = v" "ucast v \<le> (0xffffffff :: u64)"
  "ucast (ucast v AND 0xffffffff :: u64) = v" for v :: u32
proof -
  show up: "(ucast (ucast v :: u64) :: u32) = v" by (rule bit_word_eqI) (auto simp: bit_simps dest: bit_imp_le_length)
  have "unat (ucast v :: u64) = unat v" using unat_below [of v] by (simp add: unsigned_ucast_eq take_bit_nat_eq_self)
  then show "ucast v \<le> (0xffffffff :: u64)" using unat_below [of v] by (simp add: word_le_nat_alt)
  show "ucast (ucast v AND 0xffffffff :: u64) = v"
    unfolding low_half by (rule bit_word_eqI) (auto simp: bit_simps dest: bit_imp_le_length)
qed

lemma field_u32 [simp]: "decode_u32 (varint_field n (ucast v)) = Inr v"
  by (simp add: decode_u32_def low_word)

lemma field_enum [simp]: "decode_i32 (varint_field n (ucast v)) = Inr v"
  by (simp add: decode_i32_def low_word)

lemma field_i32 [simp]: "decode_i32 (varint_field n (scast v)) = Inr v"
proof -
  have low: "ucast (scast v AND 0xffffffff :: u64) = v"
    unfolding low_half by (rule bit_word_eqI) (auto simp: bit_simps dest: bit_imp_le_length)
  have "(scast v :: u64) \<le> 0xffffffff \<or> drop_bit 32 (scast v :: u64) = 0xffffffff"
  proof (cases "bit v 31")
    case True
    have "drop_bit 32 (scast v :: u64) = mask 32"
      using True by (intro bit_word_eqI) (auto simp: bit_simps)
    then show ?thesis by (simp add: mask_eq_exp_minus_1)
  next
    case False
    have "bit v k \<Longrightarrow> k < 31" for k
      using bit_imp_le_length [of v k] False by (cases "k = 31") auto
    with False have "scast v = (ucast v :: u64)"
      by (intro bit_word_eqI, rename_tac k, case_tac "k < 31")
        (auto simp: bit_simps min_def)
    then show ?thesis using low_word(2) [of v] by simp
  qed
  with low show ?thesis by (simp add: decode_i32_def)
qed

lemma absorbs_u32:
  assumes "\<And>f s b. fd_number f = n \<Longrightarrow> arms f s b = assign (decode_u32 f) (\<lambda>v. upd v s) b"
    and "field_number n" and "v = 0 \<Longrightarrow> upd v m = m"
  shows "absorbs arms h (if v \<noteq> 0 then put_varint n (ucast v) else []) 0 m (upd v m)"
  using assms by (intro absorbs_when absorbs_varint [where dec = decode_u32 and upd = "\<lambda>v. upd v m"]) auto

lemma absorbs_i32:
  assumes "\<And>f s b. fd_number f = n \<Longrightarrow> arms f s b = assign (decode_i32 f) (\<lambda>v. upd v s) b"
    and "field_number n" and "v = 0 \<Longrightarrow> upd v m = m"
  shows "absorbs arms h (if v \<noteq> 0 then put_varint n (scast v) else []) 0 m (upd v m)"
  using assms by (intro absorbs_when absorbs_varint [where dec = decode_i32 and upd = "\<lambda>v. upd v m"]) auto

lemma absorbs_enum:
  assumes "\<And>f s b. fd_number f = n \<Longrightarrow> arms f s b = assign (decode_i32 f) (\<lambda>v. upd v s) b"
    and "field_number n" and "v = 0 \<Longrightarrow> upd v m = m"
  shows "absorbs arms h (if v \<noteq> 0 then encode_enum n v else []) 0 m (upd v m)"
  using assms by (intro absorbs_when) (auto simp: encode_enum_def intro!: absorbs_varint [where dec = decode_i32 and upd = "\<lambda>v. upd v m"])

text \<open>A float that is written back as it was read: any but the negative zero.\<close>

definition f32_plain :: "f32 \<Rightarrow> bool" where
  "f32_plain x \<longleftrightarrow> f32_nonzero x \<or> x = 0"

lemma absorbs_f32:
  assumes "\<And>f s b. fd_number f = n \<Longrightarrow> arms f s b = assign (decode_f32 f) (\<lambda>v. upd v s) b"
    and "field_number n" and "f32_plain v" and "v = 0 \<Longrightarrow> upd v m = m"
  shows "absorbs arms h (if f32_nonzero v then put_f32 n v else []) 0 m (upd v m)"
proof (intro absorbs_when absorbs_field)
  show "parse_field (put_f32 n v @ rest) = Some (float_field n v, rest)" for rest
    by (rule parse_put_f32 [OF assms(2)])
  have "fd_number (float_field n v) = n" by (simp add: float_field_def)
  then show "arms (float_field n v) m (budget_of (0 + r) d) = Inr (upd v m, budget_of r d)" for r d
    by (simp add: assms(1) assign_def)
  show "\<not> f32_nonzero v \<Longrightarrow> 0 = 0 \<and> upd v m = m" using assms(3,4) by (auto simp: f32_plain_def)
qed

section \<open>Strings and bytes\<close>

definition wf_string :: "utf8 \<Rightarrow> bool" where
  "wf_string v \<longleftrightarrow> utf8_valid v \<and> length v \<le> usize_max"

definition fits :: "bytes \<Rightarrow> bool" where
  "fits v \<longleftrightarrow> length v \<le> usize_max"

text \<open>Executable forms on integers, whose numerals are binary.\<close>

lemma fits_code [code]: "fits v \<longleftrightarrow> int (length v) < 18446744073709551616"
  by (auto simp: fits_def usize_max_def)

lemma wf_string_code [code]: "wf_string v \<longleftrightarrow> utf8_valid v \<and> fits v"
  by (simp add: wf_string_def fits_def)

lemma length_field_number [simp]: "fd_number (length_field n v) = n" "fd_value (length_field n v) = v"
  "fd_wire_type (length_field n v) = WtLength" "fd_raw (length_field n v) = put_bytes n v"
  by (simp_all add: length_field_def)

lemma charge_budget [simp]: "charge c (budget_of (c + r) d) = Inr (budget_of r d)"
  by (simp add: charge_def)

lemma decode_string_field [simp]:
  "wf_string v \<Longrightarrow> decode_string (length_field n v) (budget_of (length v + r) d) = Inr (v, budget_of r d)"
  by (simp add: decode_string_def wf_string_def)

lemma decode_bytes_field [simp]: "decode_bytes (length_field n v) (budget_of (length v + r) d) = Inr (v, budget_of r d)"
  by (simp add: decode_bytes_def)

lemma absorbs_length:
  assumes "field_number n" and "fits v"
    and "\<And>r d. d + h \<le> max_decode_depth \<Longrightarrow> c + r \<le> usize_max \<Longrightarrow>
      arms (length_field n v) m (budget_of (c + r) d) = Inr (m', budget_of r d)"
  shows "absorbs arms h (put_bytes n v) c m m'"
  using parse_put_bytes [OF assms(1)] assms(2,3) by (intro absorbs_field) (auto simp: fits_def)

lemma absorbs_string:
  assumes "\<And>f s b. fd_number f = n \<Longrightarrow> arms f s b = assign_in (decode_string f b) (\<lambda>v. upd v s)"
    and "field_number n" and "wf_string v" and "v = [] \<Longrightarrow> upd v m = m"
  shows "absorbs arms h (if v \<noteq> [] then put_string n v else []) (length v) m (upd v m)"
  using assms unfolding put_string_eq
  by (intro absorbs_when absorbs_length) (auto simp: assign_in_def wf_string_def fits_def)

lemma absorbs_bytes:
  assumes "\<And>f s b. fd_number f = n \<Longrightarrow> arms f s b = assign_in (decode_bytes f b) (\<lambda>v. upd v s)"
    and "field_number n" and "fits v" and "v = [] \<Longrightarrow> upd v m = m"
  shows "absorbs arms h (if v \<noteq> [] then put_bytes n v else []) (length v) m (upd v m)"
  using assms by (intro absorbs_when absorbs_length) (auto simp: assign_in_def)

section \<open>Repeated fields\<close>

lemma absorbs_bound: "(c \<le> usize_max \<Longrightarrow> absorbs arms h bs c m m') \<Longrightarrow> absorbs arms h bs c m m'"
  by (auto simp: absorbs_def)

text \<open>What a vector of \<open>n\<close> elements of a size has been charged.\<close>

definition repeat_cost :: "nat \<Rightarrow> nat \<Rightarrow> nat" where
  "repeat_cost element n = vec_capacity n * element + n * (element + decode_repetition_overhead)"

lemma grown_small:
  assumes "n * 64 \<le> usize_max"
  shows "\<exists>c. grown_capacity n = Some c \<and> n < c"
proof -
  have "n * 2 \<le> usize_max" "n + 1024 \<le> usize_max" using assms by (simp_all add: usize_max_def)
  then show ?thesis by (simp add: grown_capacity_def usize_checked_mul_def usize_checked_add_def)
qed

lemma vec_capacity_ge: "n * 64 \<le> usize_max \<Longrightarrow> n \<le> vec_capacity n"
proof (induction n)
  case (Suc n)
  then have n: "n * 64 \<le> usize_max" by simp
  obtain c where "grown_capacity n = Some c" "n < c" using grown_small [OF n] by blast
  with Suc.IH [OF n] show ?case by (auto simp: next_capacity_def)
qed simp

lemma vec_capacity_step:
  assumes "n * 64 \<le> usize_max"
  shows "vec_capacity n \<le> vec_capacity (Suc n)"
proof -
  obtain c where "grown_capacity n = Some c" "n < c" using grown_small [OF assms] by blast
  then show ?thesis by (auto simp: next_capacity_def)
qed

lemma repeat_cost_Suc:
  assumes "n * 64 \<le> usize_max"
  shows "repeat_cost element (Suc n) = repeat_cost element n
    + ((vec_capacity (Suc n) - vec_capacity n) * element + (element + decode_repetition_overhead))"
proof -
  have "vec_capacity (Suc n) * element = vec_capacity n * element + (vec_capacity (Suc n) - vec_capacity n) * element"
    using vec_capacity_step [OF assms] by (simp flip: add_mult_distrib)
  then show ?thesis by (simp add: repeat_cost_def del: vec_capacity.simps)
qed

lemma push_decoded_ok:
  assumes "length vs * 64 \<le> usize_max"
    and cost: "c = (vec_capacity (Suc (length vs)) - vec_capacity (length vs)) * element + (element + decode_repetition_overhead)"
    and "c \<le> usize_max"
  shows "push_decoded element vs v (budget_of (c + r) d) = Inr (vs @ [v], budget_of r d)"
proof -
  define g where "g = vec_capacity (Suc (length vs)) - vec_capacity (length vs)"
  obtain t where t: "grown_capacity (length vs) = Some t" "length vs < t" using grown_small [OF assms(1)] by blast
  have "chain (if length vs = vec_capacity (length vs)
      then chain (ok_or allocation_overflow (grown_capacity (vec_capacity (length vs)))) (\<lambda>target.
             if target < vec_capacity (length vs) then Inl allocation_overflow
             else Inr (target - vec_capacity (length vs)))
      else Inr 0) F = F g" for F :: "nat \<Rightarrow> protocol_error + ('a list \<times> decode_budget)"
    using t by (auto simp: g_def next_capacity_def)
  moreover have "g * element \<le> usize_max" "g * element + element \<le> usize_max"
    "g * element + element + decode_repetition_overhead \<le> usize_max"
    using assms(2,3) by (simp_all add: g_def)
  moreover have "c + r = g * element + element + decode_repetition_overhead + r" by (simp add: cost g_def)
  ultimately show ?thesis
    unfolding push_decoded_def by (simp add: checked_add_ok checked_mul_ok charge_def)
qed

lemma absorbs_repeat_from:
  assumes arm: "\<And>f s b. fd_number f = n \<Longrightarrow> arms f s b = push_field element (dec f b) (sel s) (\<lambda>v. upd v s)"
    and lens: "\<And>v s. sel (upd v s) = v" "\<And>v w s. upd v (upd w s) = upd v s"
    and element: "\<And>x. x \<in> set xs \<Longrightarrow> \<exists>f. (\<forall>rest. parse_field (put x @ rest) = Some (f, rest)) \<and> fd_number f = n
      \<and> (\<forall>r d. d + h \<le> max_decode_depth \<longrightarrow> ec x + r \<le> usize_max \<longrightarrow> dec f (budget_of (ec x + r) d) = Inr (x, budget_of r d))"
    and "(length ys + length xs) * 64 \<le> usize_max"
  shows "\<exists>c. c + repeat_cost element (length ys) = sum_list (map ec xs) + repeat_cost element (length ys + length xs)
    \<and> absorbs arms h (concat (map put xs)) c (upd ys m) (upd (ys @ xs) m)"
  using assms(4,5)
proof (induction xs arbitrary: ys)
  case Nil
  then show ?case by (auto intro: absorbs_Nil)
next
  case (Cons x xs)
  obtain f where f: "\<forall>rest. parse_field (put x @ rest) = Some (f, rest)" "fd_number f = n"
    "\<And>r d. d + h \<le> max_decode_depth \<Longrightarrow> ec x + r \<le> usize_max \<Longrightarrow> dec f (budget_of (ec x + r) d) = Inr (x, budget_of r d)"
    using Cons.prems(1) [of x] by auto
  have ys: "length ys * 64 \<le> usize_max" using Cons.prems(2) by simp
  define k where "k = (vec_capacity (Suc (length ys)) - vec_capacity (length ys)) * element + (element + decode_repetition_overhead)"
  have one: "absorbs arms h (put x) (ec x + k) (upd ys m) (upd (ys @ [x]) m)"
  proof (rule absorbs_field)
    show "parse_field (put x @ rest) = Some (f, rest)" for rest using f(1) by blast
    show "arms f (upd ys m) (budget_of (ec x + k + r) d) = Inr (upd (ys @ [x]) m, budget_of r d)"
      if "d + h \<le> max_decode_depth" "ec x + k + r \<le> usize_max" for r d
    proof -
      have "push_decoded element ys x (budget_of (k + r) d) = Inr (ys @ [x], budget_of r d)"
        using ys that(2) by (intro push_decoded_ok) (auto simp: k_def simp del: vec_capacity.simps)
      then show ?thesis using f(3) [of d "k + r"] that
        by (simp add: arm [OF f(2)] push_field_def assign_in_def lens add.assoc)
    qed
  qed
  obtain c where c: "c + repeat_cost element (length (ys @ [x])) = sum_list (map ec xs) + repeat_cost element (length (ys @ [x]) + length xs)"
    "absorbs arms h (concat (map put xs)) c (upd (ys @ [x]) m) (upd ((ys @ [x]) @ xs) m)"
    using Cons.IH [of "ys @ [x]"] Cons.prems by auto
  have "absorbs arms h (concat (map put (x # xs))) (ec x + k + c) (upd ys m) (upd (ys @ x # xs) m)"
    using absorbs_append [OF one c(2)] by simp
  moreover have "ec x + k + c + repeat_cost element (length ys) = sum_list (map ec (x # xs)) + repeat_cost element (length ys + length (x # xs))"
    using c(1) repeat_cost_Suc [OF ys, of element] by (simp add: k_def del: vec_capacity.simps)
  ultimately show ?case by blast
qed

lemma absorbs_repeat:
  assumes arm: "\<And>f s b. fd_number f = n \<Longrightarrow> arms f s b = push_field element (dec f b) (sel s) (\<lambda>v. upd v s)"
    and lens: "\<And>v s. sel (upd v s) = v" "\<And>v w s. upd v (upd w s) = upd v s"
    and element: "\<And>x. x \<in> set xs \<Longrightarrow> \<exists>f. (\<forall>rest. parse_field (put x @ rest) = Some (f, rest)) \<and> fd_number f = n
      \<and> (\<forall>r d. d + h \<le> max_decode_depth \<longrightarrow> ec x + r \<le> usize_max \<longrightarrow> dec f (budget_of (ec x + r) d) = Inr (x, budget_of r d))"
    and initial: "upd [] m = m"
  shows "absorbs arms h (concat (map put xs)) (sum_list (map ec xs) + repeat_cost element (length xs)) m (upd xs m)"
proof (rule absorbs_bound)
  assume "sum_list (map ec xs) + repeat_cost element (length xs) \<le> usize_max"
  moreover have "length xs * 64 \<le> repeat_cost element (length xs)"
    by (simp add: repeat_cost_def decode_repetition_overhead_def add_mult_distrib2)
  ultimately have "(length [] + length xs) * 64 \<le> usize_max" by simp
  from absorbs_repeat_from [OF arm lens element this, of m]
  show "absorbs arms h (concat (map put xs)) (sum_list (map ec xs) + repeat_cost element (length xs)) m (upd xs m)"
    by (simp add: initial repeat_cost_def)
qed

lemma absorbs_strings:
  assumes arm: "\<And>f s b. fd_number f = n \<Longrightarrow> arms f s b = push_field element (decode_string f b) (sel s) (\<lambda>v. upd v s)"
    and "\<And>v s. sel (upd v s) = v" "\<And>v w s. upd v (upd w s) = upd v s" "upd [] m = m"
    and n: "field_number n" and wf: "list_all wf_string xs"
  shows "absorbs arms h (concat (map (put_string n) xs)) (sum_list (map length xs) + repeat_cost element (length xs)) m (upd xs m)"
proof (rule absorbs_repeat [OF arm assms(2,3) _ assms(4)])
  fix x assume "x \<in> set xs"
  then have x: "wf_string x" using wf by (simp add: list_all_iff)
  then show "\<exists>f. (\<forall>rest. parse_field (put_string n x @ rest) = Some (f, rest)) \<and> fd_number f = n
      \<and> (\<forall>r d. d + h \<le> max_decode_depth \<longrightarrow> length x + r \<le> usize_max \<longrightarrow> decode_string f (budget_of (length x + r) d) = Inr (x, budget_of r d))"
    using parse_put_bytes [OF n] unfolding put_string_eq
    by (intro exI [of _ "length_field n x"]) (auto simp: wf_string_def)
qed auto

section \<open>Map fields\<close>

definition entry_bytes :: "utf8 \<Rightarrow> utf8 \<Rightarrow> bytes" where
  "entry_bytes k v = (if k \<noteq> [] then put_string 1 k else []) @ (if v \<noteq> [] then put_string 2 v else [])"

definition wf_entry :: "utf8 \<times> utf8 \<Rightarrow> bool" where
  "wf_entry e \<longleftrightarrow> wf_string (fst e) \<and> wf_string (snd e) \<and> fits (entry_bytes (fst e) (snd e))"

definition wf_map :: "(utf8 \<times> utf8) list \<Rightarrow> bool" where
  "wf_map m \<longleftrightarrow> sorted_wrt (<) (map fst m) \<and> list_all wf_entry m"

definition entry_cost :: "layout \<Rightarrow> utf8 \<times> utf8 \<Rightarrow> nat" where
  "entry_cost lay e = length (fst e) + (length (snd e) + map_entry_charge lay)"

lemma field_number_small: "field_number 1" "field_number 2"
  by (simp_all add: field_number_def)

lemma map_entry_absorbs:
  assumes "wf_entry (k, v)"
  shows "absorbs map_entry_field 0 (entry_bytes k v) (length k + length v) ([], [], False) (k, v, False)"
proof -
  have "absorbs map_entry_field 0 (if k \<noteq> [] then put_string 1 k else []) (length k) ([], [], False) (k, [], False)"
    using absorbs_string [where arms = map_entry_field and n = 1 and upd = "\<lambda>x (k, v, u). (x, v, u)" and m = "([], [], False)" and v = k]
      assms by (simp add: map_entry_field_def case_prod_beta wf_entry_def field_number_small)
  moreover have "absorbs map_entry_field 0 (if v \<noteq> [] then put_string 2 v else []) (length v) (k, [], False) (k, v, False)"
    using absorbs_string [where arms = map_entry_field and n = 2 and upd = "\<lambda>x (k, v, u). (k, x, u)" and m = "(k, [], False)" and v = v]
      assms by (simp add: map_entry_field_def case_prod_beta wf_entry_def field_number_small)
  ultimately show ?thesis unfolding entry_bytes_def by (rule absorbs_append)
qed

lemma absorbs_all:
  assumes "absorbs arms h bs c m m'" and "fits bs" and "d + h \<le> max_decode_depth" and "c + r \<le> usize_max"
  shows "merge_loop arms bs 0 m (budget_of (c + r) d) = Inr (m', budget_of r d)"
proof -
  have "merge_fields arms (bs @ []) m (budget_of (c + r) d) = merge_fields arms [] m' (budget_of r d)"
    using assms unfolding absorbs_def by blast
  then have "res_ok (merge_loop arms bs 0 m (budget_of (c + r) d)) = Some (m', budget_of r d)"
    using merge_loop_fields [of bs 0 arms m] assms(2) by (simp add: fits_def)
  then show ?thesis by (simp only: res_ok_Some)
qed

lemma map_entry_ok:
  assumes "wf_entry (k, v)" and "d \<le> max_decode_depth" and "length k + length v + r \<le> usize_max"
  shows "map_entry (length_field n (entry_bytes k v)) (budget_of (length k + length v + r) d) = Inr ((k, v, False), budget_of r d)"
  using absorbs_all [OF map_entry_absorbs [OF assms(1)], of d r] assms
  by (simp add: map_entry_def expect_wire_def wf_entry_def)

lemma btree_insert_last: "\<forall>e \<in> set m. fst e < k \<Longrightarrow> btree_insert k v m = m @ [(k, v)]"
  by (induction k v m rule: btree_insert.induct) auto

lemma absorbs_map_from:
  assumes arm: "\<And>f s b. fd_number f = n \<Longrightarrow> arms f s b = insert_field lay f (usel s) (sel s) (\<lambda>u. uupd u s) (\<lambda>v. upd v s) b"
    and lens: "\<And>v s. sel (upd v s) = v" "\<And>v w s. upd v (upd w s) = upd v s"
    and n: "field_number n" and "sorted_wrt (<) (map fst (ys @ xs))" and "list_all wf_entry xs"
  shows "absorbs arms h (concat (map (\<lambda>(k, v). put_map n k v) xs)) (sum_list (map (entry_cost lay) xs)) (upd ys m) (upd (ys @ xs) m)"
  using assms(5,6)
proof (induction xs arbitrary: ys)
  case Nil
  then show ?case by (simp add: absorbs_Nil)
next
  case (Cons e xs)
  obtain k v where e: "e = (k, v)" by (cases e)
  have below: "\<forall>e \<in> set ys. fst e < k" using Cons.prems(1) e by (auto simp: sorted_wrt_append)
  have "absorbs arms h (put_bytes n (entry_bytes k v)) (entry_cost lay e) (upd ys m) (upd (ys @ [e]) m)"
  proof (rule absorbs_length [OF n])
    show "fits (entry_bytes k v)" using Cons.prems(2) e by (simp add: wf_entry_def)
    show "arms (length_field n (entry_bytes k v)) (upd ys m) (budget_of (entry_cost lay e + r) d) = Inr (upd (ys @ [e]) m, budget_of r d)"
      if "d + h \<le> max_decode_depth" "entry_cost lay e + r \<le> usize_max" for r d
    proof -
      have "map_entry (length_field n (entry_bytes k v)) (budget_of (length k + length v + (map_entry_charge lay + r)) d)
          = Inr ((k, v, False), budget_of (map_entry_charge lay + r) d)"
        using that Cons.prems(2) e by (intro map_entry_ok) (simp_all add: entry_cost_def)
      then show ?thesis using btree_insert_last [OF below] e
        by (simp add: arm insert_field_def insert_map_def charge_map_entry_def assign_in_def lens entry_cost_def add.assoc)
    qed
  qed
  then have one: "absorbs arms h (put_map n k v) (entry_cost lay e) (upd ys m) (upd (ys @ [e]) m)"
    by (simp add: put_map_def entry_bytes_def)
  from absorbs_append [OF one Cons.IH [of "ys @ [e]"]] Cons.prems e show ?case by simp
qed

lemma absorbs_map:
  assumes "\<And>f s b. fd_number f = n \<Longrightarrow> arms f s b = insert_field lay f (usel s) (sel s) (\<lambda>u. uupd u s) (\<lambda>v. upd v s) b"
    and "\<And>v s. sel (upd v s) = v" "\<And>v w s. upd v (upd w s) = upd v s" and "upd [] m = m"
    and "field_number n" and "wf_map xs"
  shows "absorbs arms h (concat (map (\<lambda>(k, v). put_map n k v) xs)) (sum_list (map (entry_cost lay) xs)) m (upd xs m)"
  using absorbs_map_from [OF assms(1,2,3,5), of "[]" xs h m] assms(4,6) by (simp add: wf_map_def)

section \<open>Unknown fields\<close>

text \<open>Raw fields, whole and with numbers the message does not have.\<close>

definition unknown_ok :: "u32 list \<Rightarrow> unknown_fields \<Rightarrow> bool" where
  "unknown_ok known u \<longleftrightarrow>
     list_all (\<lambda>raw. case parse_field raw of Some (f, []) \<Rightarrow> fd_number f \<notin> set known | _ \<Rightarrow> False) u"

lemma buffer_capacity_append:
  "buffer_capacity held c (u @ v) = buffer_capacity (held + length (concat u)) (buffer_capacity held c u) v"
  by (induction u arbitrary: held c) (auto simp: add.assoc)

lemma buffer_capacity_ge: "c \<le> buffer_capacity held c u"
proof (induction u arbitrary: held c)
  case (Cons raw u)
  have "c \<le> (if c < held + length raw then max (c * 2) (held + length raw) else c)" by auto
  also have "\<dots> \<le> buffer_capacity held c (raw # u)" using Cons.IH by simp
  finally show ?case .
qed simp

lemma push_raw_ok:
  assumes "unknown_capacity (u @ [raw]) \<le> usize_max" and "unknown_capacity u + k = unknown_capacity (u @ [raw])"
    and "length (as_bytes u @ raw) \<le> usize_max"
  shows "push_raw_bounded raw u (budget_of (k + r) d) = Inr (u @ [raw], budget_of r d)"
proof -
  have cap: "unknown_capacity (u @ [raw]) =
      (if unknown_capacity u < length (as_bytes u) + length raw
       then max (unknown_capacity u * 2) (length (as_bytes u) + length raw) else unknown_capacity u)"
    by (simp add: unknown_capacity_def buffer_capacity_append as_bytes_def)
  show ?thesis
  proof (cases "unknown_capacity u < length (as_bytes u) + length raw")
    case True
    with cap assms(1) have "unknown_capacity u * 2 \<le> usize_max" by simp
    moreover have k: "max (unknown_capacity u * 2) (length (as_bytes u) + length raw) - unknown_capacity u = k"
      using assms(2) cap True by simp
    moreover have "\<not> max (unknown_capacity u * 2) (length (as_bytes u) + length raw) < unknown_capacity u" by simp
    ultimately show ?thesis using True assms(3)
      by (simp add: push_raw_bounded_def checked_add_ok checked_mul_ok push_raw_def Let_def del: max_less_iff_conj)
  next
    case False
    then show ?thesis using assms(2,3) cap by (simp add: push_raw_bounded_def checked_add_ok push_raw_def)
  qed
qed

lemma length_le_capacity: "held \<le> c \<Longrightarrow> held + length (concat u) \<le> buffer_capacity held c u"
proof (induction u arbitrary: held c)
  case (Cons raw u)
  have "held + length raw + length (concat u) \<le> buffer_capacity held c (raw # u)"
    unfolding buffer_capacity.simps by (rule Cons.IH) auto
  then show ?case by simp
qed simp

lemma absorbs_unknown_from:
  assumes arm: "\<And>f s b. fd_number f \<notin> set known \<Longrightarrow> arms f s b = keep_unknown f (usel s) (\<lambda>u. uupd u s) b"
    and lens: "\<And>v s. usel (uupd v s) = v" "\<And>v w s. uupd v (uupd w s) = uupd v s"
    and "unknown_ok known u" and "unknown_capacity (u0 @ u) \<le> usize_max"
  shows "absorbs arms h (concat u) (unknown_capacity (u0 @ u) - unknown_capacity u0) (uupd u0 m) (uupd (u0 @ u) m)"
  using assms(4,5)
proof (induction u arbitrary: u0)
  case Nil
  then show ?case by (simp add: absorbs_Nil)
next
  case (Cons raw u)
  obtain f where f: "parse_field raw = Some (f, [])" "fd_number f \<notin> set known"
    using Cons.prems(1) by (auto simp: unknown_ok_def split: option.splits list.splits)
  have raw: "fd_raw f = raw" using parse_field_used(1) [OF f(1)] by simp
  define k where "k = unknown_capacity (u0 @ [raw]) - unknown_capacity u0"
  have up: "unknown_capacity u0 \<le> unknown_capacity (u0 @ [raw])" "unknown_capacity (u0 @ [raw]) \<le> unknown_capacity (u0 @ raw # u)"
    using buffer_capacity_ge [of "buffer_capacity 0 0 u0" "length (concat u0)" "[raw]"]
      buffer_capacity_ge [of "buffer_capacity 0 0 (u0 @ [raw])" "length (concat (u0 @ [raw]))" u]
      buffer_capacity_append [of 0 0 u0 "[raw]"] buffer_capacity_append [of 0 0 "u0 @ [raw]" u]
    by (simp_all add: unknown_capacity_def del: buffer_capacity.simps)
  have len: "length (as_bytes u0 @ raw) \<le> usize_max"
    using length_le_capacity [of 0 0 "u0 @ [raw]"] up(2) Cons.prems(2) by (simp add: unknown_capacity_def as_bytes_def)
  have "absorbs arms h raw k (uupd u0 m) (uupd (u0 @ [raw]) m)"
  proof (rule absorbs_field)
    show "parse_field (raw @ rest) = Some (f, rest)" for rest using parse_field_append [OF f(1), of rest] by simp
    show "arms f (uupd u0 m) (budget_of (k + r) d) = Inr (uupd (u0 @ [raw]) m, budget_of r d)" for r d
      using push_raw_ok [of u0 raw k r d] up Cons.prems(2) len
      by (simp add: arm [OF f(2)] keep_unknown_def raw assign_in_def lens k_def)
  qed
  from absorbs_append [OF this Cons.IH [of "u0 @ [raw]"]] Cons.prems up show ?case
    by (simp add: unknown_ok_def k_def)
qed

lemma absorbs_unknown:
  assumes "\<And>f s b. fd_number f \<notin> set known \<Longrightarrow> arms f s b = keep_unknown f (usel s) (\<lambda>u. uupd u s) b"
    and "\<And>v s. usel (uupd v s) = v" "\<And>v w s. uupd v (uupd w s) = uupd v s" "uupd [] m = m"
    and "unknown_ok known u"
  shows "absorbs arms h (as_bytes u) (unknown_capacity u) m (uupd u m)"
proof (rule absorbs_bound)
  assume "unknown_capacity u \<le> usize_max"
  then show "absorbs arms h (as_bytes u) (unknown_capacity u) m (uupd u m)"
    using absorbs_unknown_from [OF assms(1,2,3,5), of "[]" h m] assms(4) by (simp add: unknown_capacity_def as_bytes_def)
qed

lemmas field_rules =
  absorbs_append absorbs_u64 absorbs_bool absorbs_u32 absorbs_i32 absorbs_enum absorbs_f32
  absorbs_string absorbs_bytes absorbs_strings absorbs_map

section \<open>The interface\<close>

definition sendable :: "('m \<Rightarrow> bool) \<Rightarrow> ('m \<Rightarrow> bytes) \<Rightarrow> 'm \<Rightarrow> bool" where
  "sendable good encode m \<longleftrightarrow> good m \<and> fits (encode m)"

definition apply_some :: "('a \<Rightarrow> 'm \<Rightarrow> 'm) \<Rightarrow> 'a option \<Rightarrow> 'm \<Rightarrow> 'm" where
  "apply_some upd x m = (case x of None \<Rightarrow> m | Some v \<Rightarrow> upd v m)"

locale wire_codec =
  fixes arms :: "'m arms" and initial :: 'm and encode :: "'m \<Rightarrow> bytes"
    and wf :: "'m \<Rightarrow> bool" and cost :: "'m \<Rightarrow> nat" and height :: nat
  assumes absorbed: "wf m \<Longrightarrow> absorbs arms height (encode m) (cost m) initial m"
begin

lemma read_encode:
  assumes "wf m" and "fits (encode m)" and "d + height \<le> max_decode_depth" and "cost m + r \<le> usize_max"
  shows "decode_with_budget arms initial (encode m) (budget_of (cost m + r) d) = Inr (m, budget_of r d)"
  unfolding decode_with_budget_def merge_with_budget_def by (rule absorbs_all [OF absorbed [OF assms(1)] assms(2-4)])

lemma round_trip:
  assumes "wf m" and "length (encode m) \<le> max_frame_bytes" and "cost m \<le> decode_allocation_budget" and "height \<le> max_decode_depth"
  shows "decode_message arms initial (encode m) = Inr m"
proof -
  obtain r where r: "decode_allocation_budget = cost m + r" using assms(3) le_iff_add by blast
  have small: "decode_allocation_budget \<le> usize_max" by (simp add: decode_allocation_budget_def usize_max_def)
  have "fits (encode m)" using assms(2) small by (simp add: fits_def max_frame_bytes_def)
  then have "decode_with_budget arms initial (encode m) (budget_of (cost m + r) 0) = Inr (m, budget_of r 0)"
    using assms(1,4) small r by (intro read_encode) simp_all
  then show ?thesis using assms(2) r by (simp add: decode_message_def ensure_message_size_def budget_new_def)
qed

lemma nested_encode:
  assumes "wf m" and "fits (encode m)" and "d + Suc height \<le> max_decode_depth" and "cost m + r \<le> usize_max"
  shows "nested (decode_with_budget arms initial) (length_field n (encode m)) (budget_of (cost m + r) d) = Inr (m, budget_of r d)"
  using read_encode [of m "d + 1" r] assms
  by (simp add: nested_def expect_wire_def enter_nested_def leave_nested_def)

lemma absorbs_message:
  assumes "\<And>f b. fd_number f = n \<Longrightarrow> outer f m b = assign_in (nested (decode_with_budget arms initial) f b) upd"
    and "field_number n" and "sendable wf encode y" and "height < h"
  shows "absorbs outer h (put_message encode n y) (cost y) m (upd y)"
  using assms unfolding put_message_def
  by (intro absorbs_length) (simp_all add: sendable_def nested_encode assign_in_def)

lemma absorbs_optional_at:
  assumes arm: "\<And>f b. fd_number f = n \<Longrightarrow> outer f m b = assign_in (nested (decode_with_budget arms initial) f b) (\<lambda>v. upd v m)"
    and "field_number n" and "pred_option (sendable wf encode) x" and "height < h"
  shows "absorbs outer h (put_optional (put_message encode n) x) (case_option 0 cost x) m (apply_some upd x m)"
proof (cases x)
  case None
  then show ?thesis by (simp add: put_optional_def apply_some_def absorbs_Nil)
next
  case (Some y)
  with assms have "absorbs outer h (put_message encode n y) (cost y) m (upd y m)"
    by (intro absorbs_message [where upd = "\<lambda>v. upd v m"]) simp_all
  with Some show ?thesis by (simp add: put_optional_def apply_some_def)
qed

lemma absorbs_optional:
  assumes "\<And>f s b. fd_number f = n \<Longrightarrow> outer f s b = assign_in (nested (decode_with_budget arms initial) f b) (\<lambda>v. upd v s)"
    and "field_number n" and "pred_option (sendable wf encode) x" and "height < h"
  shows "absorbs outer h (put_optional (put_message encode n) x) (case_option 0 cost x) m (apply_some upd x m)"
  using assms by (rule absorbs_optional_at)

lemma absorbs_messages:
  assumes arm: "\<And>f s b. fd_number f = n \<Longrightarrow> outer f s b = push_field element (nested (decode_with_budget arms initial) f b) (sel s) (\<lambda>v. upd v s)"
    and "\<And>v s. sel (upd v s) = v" "\<And>v w s. upd v (upd w s) = upd v s" "upd [] m = m"
    and n: "field_number n" and wf: "list_all (sendable wf encode) xs" and h: "height < h"
  shows "absorbs outer h (concat (map (put_message encode n) xs)) (sum_list (map cost xs) + repeat_cost element (length xs)) m (upd xs m)"
proof (rule absorbs_repeat [OF arm assms(2,3) _ assms(4)])
  fix x assume "x \<in> set xs"
  then have x: "sendable wf encode x" using wf by (simp add: list_all_iff)
  then show "\<exists>f. (\<forall>rest. parse_field (put_message encode n x @ rest) = Some (f, rest)) \<and> fd_number f = n
      \<and> (\<forall>r d. d + h \<le> max_decode_depth \<longrightarrow> cost x + r \<le> usize_max \<longrightarrow>
           nested (decode_with_budget arms initial) f (budget_of (cost x + r) d) = Inr (x, budget_of r d))"
    using parse_put_bytes [OF n] h unfolding put_message_def
    by (intro exI [of _ "length_field n (encode x)"]) (auto simp: sendable_def fits_def nested_encode)
qed auto

end

end
