(* ===== verification/Wire_Heap.thy ===== *)
theory Wire_Heap
  imports Wire_Codec
begin

text \<open>
  The other promise of a decoder: whatever the bytes are, the heap of the message it returns,
  by the decoder's own accounting, has been paid for. Each arm takes from the budget at least
  what it adds to the message.
\<close>

definition pays :: "('m \<Rightarrow> nat) \<Rightarrow> 'm \<Rightarrow> decode_budget \<Rightarrow> protocol_error + ('m \<times> decode_budget) \<Rightarrow> bool" where
  "pays cost m b r \<longleftrightarrow> (\<forall>m' b'. r = Inr (m', b') \<longrightarrow> cost m' + bg_remaining b' \<le> cost m + bg_remaining b)"

lemma paysI: "(\<And>m' b'. r = Inr (m', b') \<Longrightarrow> cost m' + bg_remaining b' \<le> cost m + bg_remaining b) \<Longrightarrow> pays cost m b r"
  by (simp add: pays_def)

lemma paysD: "pays cost m b r \<Longrightarrow> r = Inr (m', b') \<Longrightarrow> cost m' + bg_remaining b' \<le> cost m + bg_remaining b"
  by (simp add: pays_def)

lemma pays_if: "pays cost m b r \<Longrightarrow> pays cost m b r' \<Longrightarrow> pays cost m b (if p then r else r')"
  by simp

lemma charge_spent: "charge n b = Inr b' \<Longrightarrow> n + bg_remaining b' = bg_remaining b"
  by (auto simp: charge_def split: if_splits)

section \<open>One field\<close>

lemma pays_assign: "(\<And>v. cost (upd v) = cost m) \<Longrightarrow> pays cost m b (assign r upd b)"
  by (rule paysI) (auto simp: assign_def chain_Inr)

lemma decode_string_spent: "decode_string f b = Inr (v, b') \<Longrightarrow> length v + bg_remaining b' = bg_remaining b"
  by (auto simp: decode_string_def chain_Inr split: if_splits dest: charge_spent)

lemma decode_bytes_spent: "decode_bytes f b = Inr (v, b') \<Longrightarrow> length v + bg_remaining b' = bg_remaining b"
  by (auto simp: decode_bytes_def chain_Inr split: if_splits dest: charge_spent)

lemma pays_spent:
  assumes "\<And>v b'. r = Inr (v, b') \<Longrightarrow> w v + bg_remaining b' \<le> bg_remaining b" and "\<And>v. cost (upd v) \<le> cost m + w v"
  shows "pays cost m b (assign_in r upd)"
proof (rule paysI)
  fix m' b' assume "assign_in r upd = Inr (m', b')"
  then obtain v where "r = Inr (v, b')" "m' = upd v" by (auto simp: assign_in_def chain_Inr)
  with assms(1) [of v b'] assms(2) [of v] show "cost m' + bg_remaining b' \<le> cost m + bg_remaining b" by simp
qed

lemma pays_string: "(\<And>v. cost (upd v) \<le> cost m + length v) \<Longrightarrow> pays cost m b (assign_in (decode_string f b) upd)"
  by (rule pays_spent [where w = length]) (simp_all add: decode_string_spent)

lemma pays_bytes: "(\<And>v. cost (upd v) \<le> cost m + length v) \<Longrightarrow> pays cost m b (assign_in (decode_bytes f b) upd)"
  by (rule pays_spent [where w = length]) (simp_all add: decode_bytes_spent)

lemma push_decoded_spent:
  assumes "push_decoded element vs v b = Inr (ws, b')"
  shows "ws = vs @ [v]" and "repeat_cost element (Suc (length vs)) + bg_remaining b' = repeat_cost element (length vs) + bg_remaining b"
proof -
  define g where "g = vec_capacity (Suc (length vs)) - vec_capacity (length vs)"
  have g: "g + vec_capacity (length vs) = vec_capacity (Suc (length vs))"
    "charge (g * element + element + decode_repetition_overhead) b = Inr b'" "ws = vs @ [v]"
    using assms unfolding g_def
    by (auto simp: push_decoded_def chain_Inr ok_or_Inr next_capacity_def usize_checked_mul_def usize_checked_add_def split: if_splits)
  then show "ws = vs @ [v]" by blast
  have "repeat_cost element (Suc (length vs)) = repeat_cost element (length vs) + (g * element + element + decode_repetition_overhead)"
    unfolding repeat_cost_def g(1) [symmetric] by (simp add: algebra_simps)
  with charge_spent [OF g(2)]
  show "repeat_cost element (Suc (length vs)) + bg_remaining b' = repeat_cost element (length vs) + bg_remaining b" by simp
qed

lemma pays_strings:
  assumes "\<And>v. cost (upd (vs @ [v])) + repeat_cost element (length vs) = cost m + length v + repeat_cost element (Suc (length vs))"
  shows "pays cost m b (push_field element (decode_string f b) vs upd)"
proof (rule paysI)
  fix m' b' assume "push_field element (decode_string f b) vs upd = Inr (m', b')"
  then obtain v b1 where "decode_string f b = Inr (v, b1)" "push_decoded element vs v b1 = Inr (vs @ [v], b')" "m' = upd (vs @ [v])"
    by (auto simp: push_field_def assign_in_def chain_Inr dest: push_decoded_spent(1))
  then show "cost m' + bg_remaining b' \<le> cost m + bg_remaining b"
    using assms [of v] decode_string_spent push_decoded_spent(2) by fastforce
qed

lemma push_raw_spent:
  assumes "push_raw_bounded raw u b = Inr (u', b')"
  shows "u' = u @ [raw]" and "unknown_capacity (u @ [raw]) + bg_remaining b' = unknown_capacity u + bg_remaining b"
proof -
  have cap: "unknown_capacity (u @ [raw]) =
      (if unknown_capacity u < length (as_bytes u) + length raw
       then max (unknown_capacity u * 2) (length (as_bytes u) + length raw) else unknown_capacity u)"
    by (simp add: unknown_capacity_def buffer_capacity_append as_bytes_def)
  show "u' = u @ [raw]" using assms
    by (auto simp: push_raw_bounded_def chain_Inr ok_or_Inr push_raw_def Let_def split: if_splits)
  show "unknown_capacity (u @ [raw]) + bg_remaining b' = unknown_capacity u + bg_remaining b"
  proof (cases "unknown_capacity u < length (as_bytes u) + length raw")
    case True
    with assms have "charge (max (unknown_capacity u * 2) (length (as_bytes u) + length raw) - unknown_capacity u) b = Inr b'"
      by (auto simp: push_raw_bounded_def chain_Inr ok_or_Inr usize_checked_mul_def usize_checked_add_def Let_def split: if_splits)
    from charge_spent [OF this] cap True show ?thesis by simp
  next
    case False
    with assms cap show ?thesis
      by (auto simp: push_raw_bounded_def chain_Inr ok_or_Inr usize_checked_add_def Let_def split: if_splits)
  qed
qed

lemma pays_unknown:
  assumes "\<And>v. cost (upd (u @ [v])) + unknown_capacity u \<le> cost m + unknown_capacity (u @ [v])"
  shows "pays cost m b (keep_unknown f u upd b)"
proof (rule paysI)
  fix m' b' assume "keep_unknown f u upd b = Inr (m', b')"
  then have "push_raw_bounded (fd_raw f) u b = Inr (u @ [fd_raw f], b')" "m' = upd (u @ [fd_raw f])"
    by (auto simp: keep_unknown_def assign_in_def chain_Inr dest: push_raw_spent(1))
  with assms [of "fd_raw f"] push_raw_spent(2) show "cost m' + bg_remaining b' \<le> cost m + bg_remaining b" by fastforce
qed

lemma pays_option:
  assumes "x = None \<Longrightarrow> pays cost m b (assign_in r upd)" and "\<And>y. x = Some y \<Longrightarrow> pays cost m b (assign_in (r' y) upd)"
  shows "pays cost m b (assign_in (case x of Some y \<Rightarrow> r' y | None \<Rightarrow> r) upd)"
  using assms by (cases x) simp_all

section \<open>The decode loop\<close>

lemma merge_loop_pays:
  assumes "\<And>f m b. pays cost m b (arms f m b)"
  shows "pays cost m b (merge_loop arms input cursor m b)"
  using assms
proof (induction arms input cursor m b rule: merge_loop.induct)
  case (1 arms input cursor m b)
  show ?case
  proof (rule paysI)
    fix m' b' assume r: "merge_loop arms input cursor m b = Inr (m', b')"
    show "cost m' + bg_remaining b' \<le> cost m + bg_remaining b"
    proof (cases "length input \<le> cursor")
      case True
      with r show ?thesis by (simp add: merge_loop.simps [of arms input cursor])
    next
      case False
      with r obtain f c m1 b1 where f: "read_field input cursor = Inr (f, c)" "arms f m b = Inr (m1, b1)"
        "merge_loop arms input c m1 b1 = Inr (m', b')"
        by (auto simp: merge_loop.simps [of arms input cursor] split: sum.splits prod.splits)
      have "pays cost m1 b1 (merge_loop arms input c m1 b1)"
        using "1.IH" [OF False f(1) refl f(2) refl] "1.prems" by blast
      from paysD [OF this f(3)] paysD [OF "1.prems" f(2)] show ?thesis by simp
    qed
  qed
qed

text \<open>The interface: the arms pay, and the zero message is free.\<close>

locale paying_decoder =
  fixes arms :: "'m arms" and initial :: 'm and cost :: "'m \<Rightarrow> nat"
  assumes paying: "pays cost m b (arms f m b)" and free: "cost initial = 0"
begin

lemma heap_bounded: "decode_message arms initial bs = Inr m \<Longrightarrow> cost m \<le> decode_allocation_budget"
  using paysD [OF merge_loop_pays [of cost arms, OF paying]] free
  by (fastforce simp: decode_message_def chain_Inr decode_with_budget_def merge_with_budget_def budget_new_def)

lemma nested_spent:
  assumes "nested (merge_with_budget arms x) f b = Inr (m, b')"
  shows "cost m + bg_remaining b' \<le> cost x + bg_remaining b"
proof -
  obtain b1 b2 where "enter_nested b = Inr b1" "merge_loop arms (fd_value f) 0 x b1 = Inr (m, b2)" "b' = leave_nested b2"
    using assms by (auto simp: nested_def merge_with_budget_def chain_Inr)
  moreover have "bg_remaining b1 = bg_remaining b" using calculation(1) by (auto simp: enter_nested_def split: if_splits)
  moreover have "cost m + bg_remaining b2 \<le> cost x + bg_remaining b1"
    by (rule paysD [OF merge_loop_pays [of cost arms, OF paying] calculation(2)])
  ultimately show ?thesis by (simp add: leave_nested_def)
qed

lemma fresh_spent: "nested (decode_with_budget arms initial) f b = Inr (m, b') \<Longrightarrow> cost m + bg_remaining b' \<le> bg_remaining b"
  using nested_spent [of initial f b m b'] free by (simp add: decode_with_budget_def [abs_def])

lemma pays_nested: "(\<And>v. outer (upd v) \<le> outer m + cost v) \<Longrightarrow> pays outer m b (assign_in (nested (decode_with_budget arms initial) f b) upd)"
  by (rule pays_spent [where w = cost]) (simp_all add: fresh_spent)

lemma pays_merged:
  assumes "\<And>v. outer (upd v) + cost x \<le> outer m + cost v"
  shows "pays outer m b (assign_in (nested (merge_with_budget arms x) f b) upd)"
proof (rule paysI)
  fix m' b' assume "assign_in (nested (merge_with_budget arms x) f b) upd = Inr (m', b')"
  then obtain v where "nested (merge_with_budget arms x) f b = Inr (v, b')" "m' = upd v" by (auto simp: assign_in_def chain_Inr)
  with nested_spent assms [of v] show "outer m' + bg_remaining b' \<le> outer m + bg_remaining b" by fastforce
qed

lemma pays_merge_payload:
  assumes "\<And>v. outer (upd v) + case_option 0 cost present \<le> outer m + cost v"
  shows "pays outer m b (assign_in (merge_payload arms initial present f b) upd)"
  using assms by (cases present) (simp_all add: merge_payload_def pays_nested pays_merged)

lemma pays_messages:
  assumes "\<And>v. outer (upd (vs @ [v])) + repeat_cost element (length vs) = outer m + cost v + repeat_cost element (Suc (length vs))"
  shows "pays outer m b (push_field element (nested (decode_with_budget arms initial) f b) vs upd)"
proof (rule paysI)
  fix m' b' assume "push_field element (nested (decode_with_budget arms initial) f b) vs upd = Inr (m', b')"
  then obtain v b1 where "nested (decode_with_budget arms initial) f b = Inr (v, b1)"
    "push_decoded element vs v b1 = Inr (vs @ [v], b')" "m' = upd (vs @ [v])"
    by (auto simp: push_field_def assign_in_def chain_Inr dest: push_decoded_spent(1))
  then show "outer m' + bg_remaining b' \<le> outer m + bg_remaining b"
    using assms [of v] fresh_spent push_decoded_spent(2) by fastforce
qed

end

section \<open>Maps\<close>

interpretation map_entry_heap: paying_decoder map_entry_field "([], [], False)" "\<lambda>(k, v, u). length k + length v"
proof
  fix m :: "utf8 \<times> utf8 \<times> bool" and b f
  obtain k v u where m: "m = (k, v, u)" by (cases m)
  show "pays (\<lambda>(k, v, u). length k + length v) m b (map_entry_field f m b)"
    unfolding m map_entry_field_def prod.case by (intro pays_if pays_string) (simp_all add: pays_def)
qed simp

lemma map_entry_spent:
  assumes "map_entry f b = Inr ((k, v, u), b')"
  shows "length k + length v + bg_remaining b' \<le> bg_remaining b"
  using paysD [OF merge_loop_pays [OF map_entry_heap.paying]] assms by (fastforce simp: map_entry_def chain_Inr)

lemma btree_insert_cost: "sum_list (map (entry_cost lay) (btree_insert k v m)) \<le> sum_list (map (entry_cost lay) m) + entry_cost lay (k, v)"
  by (induction k v m rule: btree_insert.induct) auto

lemma pays_map:
  assumes "\<And>es'. cost (upd es') + sum_list (map (entry_cost lay) es) = cost m + sum_list (map (entry_cost lay) es')"
    and "\<And>v. cost (upd_unknown (u @ [v])) + unknown_capacity u \<le> cost m + unknown_capacity (u @ [v])"
  shows "pays cost m b (insert_field lay f u es upd_unknown upd b)"
proof (rule paysI)
  fix m' b' assume "insert_field lay f u es upd_unknown upd b = Inr (m', b')"
  then obtain k v has b1 where e: "map_entry f b = Inr ((k, v, has), b1)"
    and rest: "(if has then assign_in (push_raw_bounded (fd_raw f) u b1) upd_unknown else assign_in (insert_map lay k v es b1) upd) = Inr (m', b')"
    by (auto simp: insert_field_def chain_Inr)
  show "cost m' + bg_remaining b' \<le> cost m + bg_remaining b"
  proof (cases has)
    case True
    with rest have "keep_unknown f u upd_unknown b1 = Inr (m', b')" by (simp add: keep_unknown_def)
    with paysD [OF pays_unknown [where cost = cost, OF assms(2)]] map_entry_spent [OF e] show ?thesis by fastforce
  next
    case False
    with rest have "charge (map_entry_charge lay) b1 = Inr b'" "m' = upd (btree_insert k v es)"
      by (auto simp: assign_in_def insert_map_def charge_map_entry_def chain_Inr)
    with charge_spent [OF this(1)] map_entry_spent [OF e] assms(1) [of "btree_insert k v es"] btree_insert_cost [of lay k v es]
    show ?thesis by (simp add: entry_cost_def)
  qed
qed

lemmas paying_rules = pays_if pays_assign pays_string pays_bytes pays_strings pays_map pays_unknown

end
