(* ===== verification/Messages.thy ===== *)
theory Messages
  imports Wire_Message
begin

text \<open>
  The messages between the launcher and a native plugin:
  \<open>crates/crikey-native-protocol/src/message.rs\<close>. For each message \<open>X\<close> of the source there is a
  record, the zero message \<open>default_X\<close>, the encoder \<open>encode_X\<close>, the \<open>match\<close> of its decode
  loop \<open>X_field\<close> and its decoder \<open>read_X\<close>. A name of the source is prefixed with \<open>w_\<close>, since
  several have a namesake in the launcher's own model. The sizing functions a producer of
  batches uses are here too.
\<close>

section \<open>Codes\<close>

datatype w_lifecycle_kind =
    LifecycleKind_KindUnspecified
  | LifecycleKind_Start
  | LifecycleKind_Stop
  | LifecycleKind_Activated
  | LifecycleKind_Deactivated

definition w_lifecycle_kind_from_i32 :: "32 word \<Rightarrow> w_lifecycle_kind" where
  "w_lifecycle_kind_from_i32 v =
     (if v = 1 then LifecycleKind_Start
      else if v = 2 then LifecycleKind_Stop
      else if v = 3 then LifecycleKind_Activated
      else if v = 4 then LifecycleKind_Deactivated
      else LifecycleKind_KindUnspecified)"

fun w_lifecycle_kind_as_i32 :: "w_lifecycle_kind \<Rightarrow> 32 word" where
  "w_lifecycle_kind_as_i32 LifecycleKind_KindUnspecified = 0"
| "w_lifecycle_kind_as_i32 LifecycleKind_Start = 1"
| "w_lifecycle_kind_as_i32 LifecycleKind_Stop = 2"
| "w_lifecycle_kind_as_i32 LifecycleKind_Activated = 3"
| "w_lifecycle_kind_as_i32 LifecycleKind_Deactivated = 4"

datatype w_batch_state =
    BatchState_StateUnspecified
  | BatchState_Partial
  | BatchState_Final
  | BatchState_Cancelled
  | BatchState_Failed

definition w_batch_state_from_i32 :: "32 word \<Rightarrow> w_batch_state" where
  "w_batch_state_from_i32 v =
     (if v = 1 then BatchState_Partial
      else if v = 2 then BatchState_Final
      else if v = 3 then BatchState_Cancelled
      else if v = 4 then BatchState_Failed
      else BatchState_StateUnspecified)"

fun w_batch_state_as_i32 :: "w_batch_state \<Rightarrow> 32 word" where
  "w_batch_state_as_i32 BatchState_StateUnspecified = 0"
| "w_batch_state_as_i32 BatchState_Partial = 1"
| "w_batch_state_as_i32 BatchState_Final = 2"
| "w_batch_state_as_i32 BatchState_Cancelled = 3"
| "w_batch_state_as_i32 BatchState_Failed = 4"

datatype w_execute_outcome_code =
    ExecuteOutcomeCode_OutcomeUnspecified
  | ExecuteOutcomeCode_Ok
  | ExecuteOutcomeCode_Failed
  | ExecuteOutcomeCode_Unsupported
  | ExecuteOutcomeCode_ShowPage

definition w_execute_outcome_code_from_i32 :: "32 word \<Rightarrow> w_execute_outcome_code" where
  "w_execute_outcome_code_from_i32 v =
     (if v = 1 then ExecuteOutcomeCode_Ok
      else if v = 2 then ExecuteOutcomeCode_Failed
      else if v = 3 then ExecuteOutcomeCode_Unsupported
      else if v = 4 then ExecuteOutcomeCode_ShowPage
      else ExecuteOutcomeCode_OutcomeUnspecified)"

fun w_execute_outcome_code_as_i32 :: "w_execute_outcome_code \<Rightarrow> 32 word" where
  "w_execute_outcome_code_as_i32 ExecuteOutcomeCode_OutcomeUnspecified = 0"
| "w_execute_outcome_code_as_i32 ExecuteOutcomeCode_Ok = 1"
| "w_execute_outcome_code_as_i32 ExecuteOutcomeCode_Failed = 2"
| "w_execute_outcome_code_as_i32 ExecuteOutcomeCode_Unsupported = 3"
| "w_execute_outcome_code_as_i32 ExecuteOutcomeCode_ShowPage = 4"

datatype w_event_kind =
    EventKind_KindUnspecified
  | EventKind_Filesystem
  | EventKind_Network
  | EventKind_Configuration
  | EventKind_Applications
  | EventKind_Custom

definition w_event_kind_from_i32 :: "32 word \<Rightarrow> w_event_kind" where
  "w_event_kind_from_i32 v =
     (if v = 1 then EventKind_Filesystem
      else if v = 2 then EventKind_Network
      else if v = 3 then EventKind_Configuration
      else if v = 4 then EventKind_Applications
      else if v = 5 then EventKind_Custom
      else EventKind_KindUnspecified)"

fun w_event_kind_as_i32 :: "w_event_kind \<Rightarrow> 32 word" where
  "w_event_kind_as_i32 EventKind_KindUnspecified = 0"
| "w_event_kind_as_i32 EventKind_Filesystem = 1"
| "w_event_kind_as_i32 EventKind_Network = 2"
| "w_event_kind_as_i32 EventKind_Configuration = 3"
| "w_event_kind_as_i32 EventKind_Applications = 4"
| "w_event_kind_as_i32 EventKind_Custom = 5"

datatype w_resource_kind =
    ResourceKind_KindUnspecified
  | ResourceKind_Icon
  | ResourceKind_File
  | ResourceKind_Configuration

definition w_resource_kind_from_i32 :: "32 word \<Rightarrow> w_resource_kind" where
  "w_resource_kind_from_i32 v =
     (if v = 1 then ResourceKind_Icon
      else if v = 2 then ResourceKind_File
      else if v = 3 then ResourceKind_Configuration
      else ResourceKind_KindUnspecified)"

fun w_resource_kind_as_i32 :: "w_resource_kind \<Rightarrow> 32 word" where
  "w_resource_kind_as_i32 ResourceKind_KindUnspecified = 0"
| "w_resource_kind_as_i32 ResourceKind_Icon = 1"
| "w_resource_kind_as_i32 ResourceKind_File = 2"
| "w_resource_kind_as_i32 ResourceKind_Configuration = 3"

datatype w_log_level =
    LogLevel_LevelUnspecified
  | LogLevel_Error
  | LogLevel_Warn
  | LogLevel_Info
  | LogLevel_Debug
  | LogLevel_Trace

definition w_log_level_from_i32 :: "32 word \<Rightarrow> w_log_level" where
  "w_log_level_from_i32 v =
     (if v = 1 then LogLevel_Error
      else if v = 2 then LogLevel_Warn
      else if v = 3 then LogLevel_Info
      else if v = 4 then LogLevel_Debug
      else if v = 5 then LogLevel_Trace
      else LogLevel_LevelUnspecified)"

fun w_log_level_as_i32 :: "w_log_level \<Rightarrow> 32 word" where
  "w_log_level_as_i32 LogLevel_LevelUnspecified = 0"
| "w_log_level_as_i32 LogLevel_Error = 1"
| "w_log_level_as_i32 LogLevel_Warn = 2"
| "w_log_level_as_i32 LogLevel_Info = 3"
| "w_log_level_as_i32 LogLevel_Debug = 4"
| "w_log_level_as_i32 LogLevel_Trace = 5"

datatype w_error_code =
    ErrorCode_CodeUnspecified
  | ErrorCode_Protocol
  | ErrorCode_Plugin
  | ErrorCode_Timeout
  | ErrorCode_Cancelled
  | ErrorCode_Resource
  | ErrorCode_Unsupported

definition w_error_code_from_i32 :: "32 word \<Rightarrow> w_error_code" where
  "w_error_code_from_i32 v =
     (if v = 1 then ErrorCode_Protocol
      else if v = 2 then ErrorCode_Plugin
      else if v = 3 then ErrorCode_Timeout
      else if v = 4 then ErrorCode_Cancelled
      else if v = 5 then ErrorCode_Resource
      else if v = 6 then ErrorCode_Unsupported
      else ErrorCode_CodeUnspecified)"

fun w_error_code_as_i32 :: "w_error_code \<Rightarrow> 32 word" where
  "w_error_code_as_i32 ErrorCode_CodeUnspecified = 0"
| "w_error_code_as_i32 ErrorCode_Protocol = 1"
| "w_error_code_as_i32 ErrorCode_Plugin = 2"
| "w_error_code_as_i32 ErrorCode_Timeout = 3"
| "w_error_code_as_i32 ErrorCode_Cancelled = 4"
| "w_error_code_as_i32 ErrorCode_Resource = 5"
| "w_error_code_as_i32 ErrorCode_Unsupported = 6"

section \<open>Errors and lifecycle\<close>

record w_structured_error =
  w_structured_error_code :: w_error_code
  w_structured_error_message :: utf8
  w_structured_error_detail :: utf8
  w_structured_error_request_id :: u64
  w_structured_error_unknown :: unknown_fields

definition default_w_structured_error :: w_structured_error where
  "default_w_structured_error =
     \<lparr>w_structured_error_code = ErrorCode_CodeUnspecified, w_structured_error_message = [], w_structured_error_detail = [], w_structured_error_request_id = 0, w_structured_error_unknown = []\<rparr>"

definition encode_w_structured_error :: "w_structured_error \<Rightarrow> bytes" where
  "encode_w_structured_error m = finish
     ((if w_error_code_as_i32 (w_structured_error_code m) \<noteq> 0 then encode_enum 1 (w_error_code_as_i32 (w_structured_error_code m)) else []) @
      (if w_structured_error_message m \<noteq> [] then put_string 2 (w_structured_error_message m) else []) @
      (if w_structured_error_detail m \<noteq> [] then put_string 3 (w_structured_error_detail m) else []) @
      (if w_structured_error_request_id m \<noteq> 0 then put_varint 4 (w_structured_error_request_id m) else [])) (w_structured_error_unknown m)"

definition w_structured_error_field :: "field \<Rightarrow> w_structured_error \<Rightarrow> decode_budget \<Rightarrow> protocol_error + (w_structured_error \<times> decode_budget)" where
  "w_structured_error_field f m b =
     (if fd_number f = 1 then assign (decode_i32 f) (\<lambda>v. m\<lparr>w_structured_error_code := w_error_code_from_i32 v\<rparr>) b
      else if fd_number f = 2 then assign_in (decode_string f b) (\<lambda>v. m\<lparr>w_structured_error_message := v\<rparr>)
      else if fd_number f = 3 then assign_in (decode_string f b) (\<lambda>v. m\<lparr>w_structured_error_detail := v\<rparr>)
      else if fd_number f = 4 then assign (decode_field_varint f) (\<lambda>v. m\<lparr>w_structured_error_request_id := v\<rparr>) b
      else keep_unknown f (w_structured_error_unknown m) (\<lambda>u. m\<lparr>w_structured_error_unknown := u\<rparr>) b)"

definition read_w_structured_error :: "bytes \<Rightarrow> decode_budget \<Rightarrow> protocol_error + (w_structured_error \<times> decode_budget)" where
  "read_w_structured_error = decode_with_budget w_structured_error_field default_w_structured_error"

record w_handshake =
  w_handshake_protocol_version :: u32
  w_handshake_plugin_id :: utf8
  w_handshake_plugin_version :: utf8
  w_handshake_capabilities :: "utf8 list"
  w_handshake_session_token :: utf8
  w_handshake_plugin_name :: utf8
  w_handshake_sdk_version :: utf8
  w_handshake_unknown :: unknown_fields

definition default_w_handshake :: w_handshake where
  "default_w_handshake =
     \<lparr>w_handshake_protocol_version = 0, w_handshake_plugin_id = [], w_handshake_plugin_version = [], w_handshake_capabilities = [], w_handshake_session_token = [], w_handshake_plugin_name = [], w_handshake_sdk_version = [], w_handshake_unknown = []\<rparr>"

definition encode_w_handshake :: "w_handshake \<Rightarrow> bytes" where
  "encode_w_handshake m = finish
     ((if w_handshake_protocol_version m \<noteq> 0 then put_varint 1 (ucast (w_handshake_protocol_version m)) else []) @
      (if w_handshake_plugin_id m \<noteq> [] then put_string 2 (w_handshake_plugin_id m) else []) @
      (if w_handshake_plugin_version m \<noteq> [] then put_string 3 (w_handshake_plugin_version m) else []) @
      concat (map (put_string 4) (w_handshake_capabilities m)) @
      (if w_handshake_session_token m \<noteq> [] then put_string 5 (w_handshake_session_token m) else []) @
      (if w_handshake_plugin_name m \<noteq> [] then put_string 6 (w_handshake_plugin_name m) else []) @
      (if w_handshake_sdk_version m \<noteq> [] then put_string 7 (w_handshake_sdk_version m) else [])) (w_handshake_unknown m)"

definition w_handshake_field :: "layout \<Rightarrow> field \<Rightarrow> w_handshake \<Rightarrow> decode_budget \<Rightarrow> protocol_error + (w_handshake \<times> decode_budget)" where
  "w_handshake_field lay f m b =
     (if fd_number f = 1 then assign (decode_u32 f) (\<lambda>v. m\<lparr>w_handshake_protocol_version := v\<rparr>) b
      else if fd_number f = 2 then assign_in (decode_string f b) (\<lambda>v. m\<lparr>w_handshake_plugin_id := v\<rparr>)
      else if fd_number f = 3 then assign_in (decode_string f b) (\<lambda>v. m\<lparr>w_handshake_plugin_version := v\<rparr>)
      else if fd_number f = 4 then push_field (size_string lay) (decode_string f b) (w_handshake_capabilities m) (\<lambda>v. m\<lparr>w_handshake_capabilities := v\<rparr>)
      else if fd_number f = 5 then assign_in (decode_string f b) (\<lambda>v. m\<lparr>w_handshake_session_token := v\<rparr>)
      else if fd_number f = 6 then assign_in (decode_string f b) (\<lambda>v. m\<lparr>w_handshake_plugin_name := v\<rparr>)
      else if fd_number f = 7 then assign_in (decode_string f b) (\<lambda>v. m\<lparr>w_handshake_sdk_version := v\<rparr>)
      else keep_unknown f (w_handshake_unknown m) (\<lambda>u. m\<lparr>w_handshake_unknown := u\<rparr>) b)"

definition read_w_handshake :: "layout \<Rightarrow> bytes \<Rightarrow> decode_budget \<Rightarrow> protocol_error + (w_handshake \<times> decode_budget)" where
  "read_w_handshake lay = decode_with_budget (w_handshake_field lay) default_w_handshake"

record w_handshake_ack =
  w_handshake_ack_protocol_version :: u32
  w_handshake_ack_host_capabilities :: "utf8 list"
  w_handshake_ack_host_version :: utf8
  w_handshake_ack_accepted :: bool
  w_handshake_ack_reject_reason :: utf8
  w_handshake_ack_max_frame_bytes :: u64
  w_handshake_ack_initial_credits :: u32
  w_handshake_ack_unknown :: unknown_fields

definition default_w_handshake_ack :: w_handshake_ack where
  "default_w_handshake_ack =
     \<lparr>w_handshake_ack_protocol_version = 0, w_handshake_ack_host_capabilities = [], w_handshake_ack_host_version = [], w_handshake_ack_accepted = False, w_handshake_ack_reject_reason = [], w_handshake_ack_max_frame_bytes = 0, w_handshake_ack_initial_credits = 0, w_handshake_ack_unknown = []\<rparr>"

definition encode_w_handshake_ack :: "w_handshake_ack \<Rightarrow> bytes" where
  "encode_w_handshake_ack m = finish
     ((if w_handshake_ack_protocol_version m \<noteq> 0 then put_varint 1 (ucast (w_handshake_ack_protocol_version m)) else []) @
      concat (map (put_string 2) (w_handshake_ack_host_capabilities m)) @
      (if w_handshake_ack_host_version m \<noteq> [] then put_string 3 (w_handshake_ack_host_version m) else []) @
      (if w_handshake_ack_accepted m then put_varint 4 1 else []) @
      (if w_handshake_ack_reject_reason m \<noteq> [] then put_string 5 (w_handshake_ack_reject_reason m) else []) @
      (if w_handshake_ack_max_frame_bytes m \<noteq> 0 then put_varint 6 (w_handshake_ack_max_frame_bytes m) else []) @
      (if w_handshake_ack_initial_credits m \<noteq> 0 then put_varint 7 (ucast (w_handshake_ack_initial_credits m)) else [])) (w_handshake_ack_unknown m)"

definition w_handshake_ack_field :: "layout \<Rightarrow> field \<Rightarrow> w_handshake_ack \<Rightarrow> decode_budget \<Rightarrow> protocol_error + (w_handshake_ack \<times> decode_budget)" where
  "w_handshake_ack_field lay f m b =
     (if fd_number f = 1 then assign (decode_u32 f) (\<lambda>v. m\<lparr>w_handshake_ack_protocol_version := v\<rparr>) b
      else if fd_number f = 2 then push_field (size_string lay) (decode_string f b) (w_handshake_ack_host_capabilities m) (\<lambda>v. m\<lparr>w_handshake_ack_host_capabilities := v\<rparr>)
      else if fd_number f = 3 then assign_in (decode_string f b) (\<lambda>v. m\<lparr>w_handshake_ack_host_version := v\<rparr>)
      else if fd_number f = 4 then assign (decode_field_varint f) (\<lambda>v. m\<lparr>w_handshake_ack_accepted := v \<noteq> 0\<rparr>) b
      else if fd_number f = 5 then assign_in (decode_string f b) (\<lambda>v. m\<lparr>w_handshake_ack_reject_reason := v\<rparr>)
      else if fd_number f = 6 then assign (decode_field_varint f) (\<lambda>v. m\<lparr>w_handshake_ack_max_frame_bytes := v\<rparr>) b
      else if fd_number f = 7 then assign (decode_u32 f) (\<lambda>v. m\<lparr>w_handshake_ack_initial_credits := v\<rparr>) b
      else keep_unknown f (w_handshake_ack_unknown m) (\<lambda>u. m\<lparr>w_handshake_ack_unknown := u\<rparr>) b)"

definition read_w_handshake_ack :: "layout \<Rightarrow> bytes \<Rightarrow> decode_budget \<Rightarrow> protocol_error + (w_handshake_ack \<times> decode_budget)" where
  "read_w_handshake_ack lay = decode_with_budget (w_handshake_ack_field lay) default_w_handshake_ack"

record w_lifecycle =
  w_lifecycle_kind :: w_lifecycle_kind
  w_lifecycle_unknown :: unknown_fields

definition default_w_lifecycle :: w_lifecycle where
  "default_w_lifecycle =
     \<lparr>w_lifecycle_kind = LifecycleKind_KindUnspecified, w_lifecycle_unknown = []\<rparr>"

definition encode_w_lifecycle :: "w_lifecycle \<Rightarrow> bytes" where
  "encode_w_lifecycle m = finish
     ((if w_lifecycle_kind_as_i32 (w_lifecycle_kind m) \<noteq> 0 then encode_enum 1 (w_lifecycle_kind_as_i32 (w_lifecycle_kind m)) else [])) (w_lifecycle_unknown m)"

definition w_lifecycle_field :: "field \<Rightarrow> w_lifecycle \<Rightarrow> decode_budget \<Rightarrow> protocol_error + (w_lifecycle \<times> decode_budget)" where
  "w_lifecycle_field f m b =
     (if fd_number f = 1 then assign (decode_i32 f) (\<lambda>v. m\<lparr>w_lifecycle_kind := w_lifecycle_kind_from_i32 v\<rparr>) b
      else keep_unknown f (w_lifecycle_unknown m) (\<lambda>u. m\<lparr>w_lifecycle_unknown := u\<rparr>) b)"

definition read_w_lifecycle :: "bytes \<Rightarrow> decode_budget \<Rightarrow> protocol_error + (w_lifecycle \<times> decode_budget)" where
  "read_w_lifecycle = decode_with_budget w_lifecycle_field default_w_lifecycle"

record w_lifecycle_ack =
  w_lifecycle_ack_kind :: w_lifecycle_kind
  w_lifecycle_ack_ok :: bool
  w_lifecycle_ack_error :: "w_structured_error option"
  w_lifecycle_ack_unknown :: unknown_fields

definition default_w_lifecycle_ack :: w_lifecycle_ack where
  "default_w_lifecycle_ack =
     \<lparr>w_lifecycle_ack_kind = LifecycleKind_KindUnspecified, w_lifecycle_ack_ok = False, w_lifecycle_ack_error = None, w_lifecycle_ack_unknown = []\<rparr>"

definition encode_w_lifecycle_ack :: "w_lifecycle_ack \<Rightarrow> bytes" where
  "encode_w_lifecycle_ack m = finish
     ((if w_lifecycle_kind_as_i32 (w_lifecycle_ack_kind m) \<noteq> 0 then encode_enum 1 (w_lifecycle_kind_as_i32 (w_lifecycle_ack_kind m)) else []) @
      (if w_lifecycle_ack_ok m then put_varint 2 1 else []) @
      put_optional (put_message encode_w_structured_error 3) (w_lifecycle_ack_error m)) (w_lifecycle_ack_unknown m)"

definition w_lifecycle_ack_field :: "field \<Rightarrow> w_lifecycle_ack \<Rightarrow> decode_budget \<Rightarrow> protocol_error + (w_lifecycle_ack \<times> decode_budget)" where
  "w_lifecycle_ack_field f m b =
     (if fd_number f = 1 then assign (decode_i32 f) (\<lambda>v. m\<lparr>w_lifecycle_ack_kind := w_lifecycle_kind_from_i32 v\<rparr>) b
      else if fd_number f = 2 then assign (decode_field_varint f) (\<lambda>v. m\<lparr>w_lifecycle_ack_ok := v \<noteq> 0\<rparr>) b
      else if fd_number f = 3 then assign_in (nested read_w_structured_error f b) (\<lambda>v. m\<lparr>w_lifecycle_ack_error := Some v\<rparr>)
      else keep_unknown f (w_lifecycle_ack_unknown m) (\<lambda>u. m\<lparr>w_lifecycle_ack_unknown := u\<rparr>) b)"

definition read_w_lifecycle_ack :: "bytes \<Rightarrow> decode_budget \<Rightarrow> protocol_error + (w_lifecycle_ack \<times> decode_budget)" where
  "read_w_lifecycle_ack = decode_with_budget w_lifecycle_ack_field default_w_lifecycle_ack"

record w_shutdown =
  w_shutdown_immediate :: bool
  w_shutdown_unknown :: unknown_fields

definition default_w_shutdown :: w_shutdown where
  "default_w_shutdown =
     \<lparr>w_shutdown_immediate = False, w_shutdown_unknown = []\<rparr>"

definition encode_w_shutdown :: "w_shutdown \<Rightarrow> bytes" where
  "encode_w_shutdown m = finish
     ((if w_shutdown_immediate m then put_varint 1 1 else [])) (w_shutdown_unknown m)"

definition w_shutdown_field :: "field \<Rightarrow> w_shutdown \<Rightarrow> decode_budget \<Rightarrow> protocol_error + (w_shutdown \<times> decode_budget)" where
  "w_shutdown_field f m b =
     (if fd_number f = 1 then assign (decode_field_varint f) (\<lambda>v. m\<lparr>w_shutdown_immediate := v \<noteq> 0\<rparr>) b
      else keep_unknown f (w_shutdown_unknown m) (\<lambda>u. m\<lparr>w_shutdown_unknown := u\<rparr>) b)"

definition read_w_shutdown :: "bytes \<Rightarrow> decode_budget \<Rightarrow> protocol_error + (w_shutdown \<times> decode_budget)" where
  "read_w_shutdown = decode_with_budget w_shutdown_field default_w_shutdown"

record w_cancel =
  w_cancel_reason :: utf8
  w_cancel_unknown :: unknown_fields

definition default_w_cancel :: w_cancel where
  "default_w_cancel =
     \<lparr>w_cancel_reason = [], w_cancel_unknown = []\<rparr>"

definition encode_w_cancel :: "w_cancel \<Rightarrow> bytes" where
  "encode_w_cancel m = finish
     ((if w_cancel_reason m \<noteq> [] then put_string 1 (w_cancel_reason m) else [])) (w_cancel_unknown m)"

definition w_cancel_field :: "field \<Rightarrow> w_cancel \<Rightarrow> decode_budget \<Rightarrow> protocol_error + (w_cancel \<times> decode_budget)" where
  "w_cancel_field f m b =
     (if fd_number f = 1 then assign_in (decode_string f b) (\<lambda>v. m\<lparr>w_cancel_reason := v\<rparr>)
      else keep_unknown f (w_cancel_unknown m) (\<lambda>u. m\<lparr>w_cancel_unknown := u\<rparr>) b)"

definition read_w_cancel :: "bytes \<Rightarrow> decode_budget \<Rightarrow> protocol_error + (w_cancel \<times> decode_budget)" where
  "read_w_cancel = decode_with_budget w_cancel_field default_w_cancel"

record w_flow_control =
  w_flow_control_credits :: u32
  w_flow_control_paused :: bool
  w_flow_control_unknown :: unknown_fields

definition default_w_flow_control :: w_flow_control where
  "default_w_flow_control =
     \<lparr>w_flow_control_credits = 0, w_flow_control_paused = False, w_flow_control_unknown = []\<rparr>"

definition encode_w_flow_control :: "w_flow_control \<Rightarrow> bytes" where
  "encode_w_flow_control m = finish
     ((if w_flow_control_credits m \<noteq> 0 then put_varint 1 (ucast (w_flow_control_credits m)) else []) @
      (if w_flow_control_paused m then put_varint 2 1 else [])) (w_flow_control_unknown m)"

definition w_flow_control_field :: "field \<Rightarrow> w_flow_control \<Rightarrow> decode_budget \<Rightarrow> protocol_error + (w_flow_control \<times> decode_budget)" where
  "w_flow_control_field f m b =
     (if fd_number f = 1 then assign (decode_u32 f) (\<lambda>v. m\<lparr>w_flow_control_credits := v\<rparr>) b
      else if fd_number f = 2 then assign (decode_field_varint f) (\<lambda>v. m\<lparr>w_flow_control_paused := v \<noteq> 0\<rparr>) b
      else keep_unknown f (w_flow_control_unknown m) (\<lambda>u. m\<lparr>w_flow_control_unknown := u\<rparr>) b)"

definition read_w_flow_control :: "bytes \<Rightarrow> decode_budget \<Rightarrow> protocol_error + (w_flow_control \<times> decode_budget)" where
  "read_w_flow_control = decode_with_budget w_flow_control_field default_w_flow_control"

record w_log_record =
  w_log_record_level :: w_log_level
  w_log_record_message :: utf8
  w_log_record_timestamp_ms :: u64
  w_log_record_unknown :: unknown_fields

definition default_w_log_record :: w_log_record where
  "default_w_log_record =
     \<lparr>w_log_record_level = LogLevel_LevelUnspecified, w_log_record_message = [], w_log_record_timestamp_ms = 0, w_log_record_unknown = []\<rparr>"

definition encode_w_log_record :: "w_log_record \<Rightarrow> bytes" where
  "encode_w_log_record m = finish
     ((if w_log_level_as_i32 (w_log_record_level m) \<noteq> 0 then encode_enum 1 (w_log_level_as_i32 (w_log_record_level m)) else []) @
      (if w_log_record_message m \<noteq> [] then put_string 2 (w_log_record_message m) else []) @
      (if w_log_record_timestamp_ms m \<noteq> 0 then put_varint 3 (w_log_record_timestamp_ms m) else [])) (w_log_record_unknown m)"

definition w_log_record_field :: "field \<Rightarrow> w_log_record \<Rightarrow> decode_budget \<Rightarrow> protocol_error + (w_log_record \<times> decode_budget)" where
  "w_log_record_field f m b =
     (if fd_number f = 1 then assign (decode_i32 f) (\<lambda>v. m\<lparr>w_log_record_level := w_log_level_from_i32 v\<rparr>) b
      else if fd_number f = 2 then assign_in (decode_string f b) (\<lambda>v. m\<lparr>w_log_record_message := v\<rparr>)
      else if fd_number f = 3 then assign (decode_field_varint f) (\<lambda>v. m\<lparr>w_log_record_timestamp_ms := v\<rparr>) b
      else keep_unknown f (w_log_record_unknown m) (\<lambda>u. m\<lparr>w_log_record_unknown := u\<rparr>) b)"

definition read_w_log_record :: "bytes \<Rightarrow> decode_budget \<Rightarrow> protocol_error + (w_log_record \<times> decode_budget)" where
  "read_w_log_record = decode_with_budget w_log_record_field default_w_log_record"

record w_health_check =
  w_health_check_nonce :: u64
  w_health_check_unknown :: unknown_fields

definition default_w_health_check :: w_health_check where
  "default_w_health_check =
     \<lparr>w_health_check_nonce = 0, w_health_check_unknown = []\<rparr>"

definition encode_w_health_check :: "w_health_check \<Rightarrow> bytes" where
  "encode_w_health_check m = finish
     ((if w_health_check_nonce m \<noteq> 0 then put_varint 1 (w_health_check_nonce m) else [])) (w_health_check_unknown m)"

definition w_health_check_field :: "field \<Rightarrow> w_health_check \<Rightarrow> decode_budget \<Rightarrow> protocol_error + (w_health_check \<times> decode_budget)" where
  "w_health_check_field f m b =
     (if fd_number f = 1 then assign (decode_field_varint f) (\<lambda>v. m\<lparr>w_health_check_nonce := v\<rparr>) b
      else keep_unknown f (w_health_check_unknown m) (\<lambda>u. m\<lparr>w_health_check_unknown := u\<rparr>) b)"

definition read_w_health_check :: "bytes \<Rightarrow> decode_budget \<Rightarrow> protocol_error + (w_health_check \<times> decode_budget)" where
  "read_w_health_check = decode_with_budget w_health_check_field default_w_health_check"

record w_health_report =
  w_health_report_nonce :: u64
  w_health_report_healthy :: bool
  w_health_report_memory_bytes :: u64
  w_health_report_queue_depth :: u32
  w_health_report_in_flight :: u32
  w_health_report_detail :: utf8
  w_health_report_unknown :: unknown_fields

definition default_w_health_report :: w_health_report where
  "default_w_health_report =
     \<lparr>w_health_report_nonce = 0, w_health_report_healthy = False, w_health_report_memory_bytes = 0, w_health_report_queue_depth = 0, w_health_report_in_flight = 0, w_health_report_detail = [], w_health_report_unknown = []\<rparr>"

definition encode_w_health_report :: "w_health_report \<Rightarrow> bytes" where
  "encode_w_health_report m = finish
     ((if w_health_report_nonce m \<noteq> 0 then put_varint 1 (w_health_report_nonce m) else []) @
      (if w_health_report_healthy m then put_varint 2 1 else []) @
      (if w_health_report_memory_bytes m \<noteq> 0 then put_varint 3 (w_health_report_memory_bytes m) else []) @
      (if w_health_report_queue_depth m \<noteq> 0 then put_varint 4 (ucast (w_health_report_queue_depth m)) else []) @
      (if w_health_report_in_flight m \<noteq> 0 then put_varint 5 (ucast (w_health_report_in_flight m)) else []) @
      (if w_health_report_detail m \<noteq> [] then put_string 6 (w_health_report_detail m) else [])) (w_health_report_unknown m)"

definition w_health_report_field :: "field \<Rightarrow> w_health_report \<Rightarrow> decode_budget \<Rightarrow> protocol_error + (w_health_report \<times> decode_budget)" where
  "w_health_report_field f m b =
     (if fd_number f = 1 then assign (decode_field_varint f) (\<lambda>v. m\<lparr>w_health_report_nonce := v\<rparr>) b
      else if fd_number f = 2 then assign (decode_field_varint f) (\<lambda>v. m\<lparr>w_health_report_healthy := v \<noteq> 0\<rparr>) b
      else if fd_number f = 3 then assign (decode_field_varint f) (\<lambda>v. m\<lparr>w_health_report_memory_bytes := v\<rparr>) b
      else if fd_number f = 4 then assign (decode_u32 f) (\<lambda>v. m\<lparr>w_health_report_queue_depth := v\<rparr>) b
      else if fd_number f = 5 then assign (decode_u32 f) (\<lambda>v. m\<lparr>w_health_report_in_flight := v\<rparr>) b
      else if fd_number f = 6 then assign_in (decode_string f b) (\<lambda>v. m\<lparr>w_health_report_detail := v\<rparr>)
      else keep_unknown f (w_health_report_unknown m) (\<lambda>u. m\<lparr>w_health_report_unknown := u\<rparr>) b)"

definition read_w_health_report :: "bytes \<Rightarrow> decode_budget \<Rightarrow> protocol_error + (w_health_report \<times> decode_budget)" where
  "read_w_health_report = decode_with_budget w_health_report_field default_w_health_report"

section \<open>Items and batches\<close>

record w_action =
  w_action_action_id :: utf8
  w_action_label :: utf8
  w_action_description :: utf8
  w_action_icon_reference :: utf8
  w_action_execution_policy :: utf8
  w_action_applicable_categories :: "utf8 list"
  w_action_unknown :: unknown_fields

definition default_w_action :: w_action where
  "default_w_action =
     \<lparr>w_action_action_id = [], w_action_label = [], w_action_description = [], w_action_icon_reference = [], w_action_execution_policy = [], w_action_applicable_categories = [], w_action_unknown = []\<rparr>"

definition encode_w_action :: "w_action \<Rightarrow> bytes" where
  "encode_w_action m = finish
     ((if w_action_action_id m \<noteq> [] then put_string 1 (w_action_action_id m) else []) @
      (if w_action_label m \<noteq> [] then put_string 2 (w_action_label m) else []) @
      (if w_action_description m \<noteq> [] then put_string 3 (w_action_description m) else []) @
      (if w_action_icon_reference m \<noteq> [] then put_string 4 (w_action_icon_reference m) else []) @
      (if w_action_execution_policy m \<noteq> [] then put_string 5 (w_action_execution_policy m) else []) @
      concat (map (put_string 6) (w_action_applicable_categories m))) (w_action_unknown m)"

definition w_action_field :: "layout \<Rightarrow> field \<Rightarrow> w_action \<Rightarrow> decode_budget \<Rightarrow> protocol_error + (w_action \<times> decode_budget)" where
  "w_action_field lay f m b =
     (if fd_number f = 1 then assign_in (decode_string f b) (\<lambda>v. m\<lparr>w_action_action_id := v\<rparr>)
      else if fd_number f = 2 then assign_in (decode_string f b) (\<lambda>v. m\<lparr>w_action_label := v\<rparr>)
      else if fd_number f = 3 then assign_in (decode_string f b) (\<lambda>v. m\<lparr>w_action_description := v\<rparr>)
      else if fd_number f = 4 then assign_in (decode_string f b) (\<lambda>v. m\<lparr>w_action_icon_reference := v\<rparr>)
      else if fd_number f = 5 then assign_in (decode_string f b) (\<lambda>v. m\<lparr>w_action_execution_policy := v\<rparr>)
      else if fd_number f = 6 then push_field (size_string lay) (decode_string f b) (w_action_applicable_categories m) (\<lambda>v. m\<lparr>w_action_applicable_categories := v\<rparr>)
      else keep_unknown f (w_action_unknown m) (\<lambda>u. m\<lparr>w_action_unknown := u\<rparr>) b)"

definition read_w_action :: "layout \<Rightarrow> bytes \<Rightarrow> decode_budget \<Rightarrow> protocol_error + (w_action \<times> decode_budget)" where
  "read_w_action lay = decode_with_budget (w_action_field lay) default_w_action"

record w_item =
  w_item_stable_id :: utf8
  w_item_label :: utf8
  w_item_description :: utf8
  w_item_target :: utf8
  w_item_category :: utf8
  w_item_search_terms :: "utf8 list"
  w_item_icon_reference :: utf8
  w_item_score_hint :: "32 word"
  w_item_metadata :: "(utf8 \<times> utf8) list"
  w_item_actions :: "w_action list"
  w_item_argument_policy :: utf8
  w_item_hit_policy :: utf8
  w_item_unknown :: unknown_fields

definition default_w_item :: w_item where
  "default_w_item =
     \<lparr>w_item_stable_id = [], w_item_label = [], w_item_description = [], w_item_target = [], w_item_category = [], w_item_search_terms = [], w_item_icon_reference = [], w_item_score_hint = 0, w_item_metadata = [], w_item_actions = [], w_item_argument_policy = [], w_item_hit_policy = [], w_item_unknown = []\<rparr>"

definition encode_w_item :: "w_item \<Rightarrow> bytes" where
  "encode_w_item m = finish
     ((if w_item_stable_id m \<noteq> [] then put_string 1 (w_item_stable_id m) else []) @
      (if w_item_label m \<noteq> [] then put_string 2 (w_item_label m) else []) @
      (if w_item_description m \<noteq> [] then put_string 3 (w_item_description m) else []) @
      (if w_item_target m \<noteq> [] then put_string 4 (w_item_target m) else []) @
      (if w_item_category m \<noteq> [] then put_string 5 (w_item_category m) else []) @
      concat (map (put_string 6) (w_item_search_terms m)) @
      (if w_item_icon_reference m \<noteq> [] then put_string 7 (w_item_icon_reference m) else []) @
      (if w_item_score_hint m \<noteq> 0 then put_varint 8 (scast (w_item_score_hint m)) else []) @
      concat (map (\<lambda>(k, v). put_map 9 k v) (w_item_metadata m)) @
      concat (map (put_message encode_w_action 10) (w_item_actions m)) @
      (if w_item_argument_policy m \<noteq> [] then put_string 11 (w_item_argument_policy m) else []) @
      (if w_item_hit_policy m \<noteq> [] then put_string 12 (w_item_hit_policy m) else [])) (w_item_unknown m)"

definition w_item_field :: "layout \<Rightarrow> field \<Rightarrow> w_item \<Rightarrow> decode_budget \<Rightarrow> protocol_error + (w_item \<times> decode_budget)" where
  "w_item_field lay f m b =
     (if fd_number f = 1 then assign_in (decode_string f b) (\<lambda>v. m\<lparr>w_item_stable_id := v\<rparr>)
      else if fd_number f = 2 then assign_in (decode_string f b) (\<lambda>v. m\<lparr>w_item_label := v\<rparr>)
      else if fd_number f = 3 then assign_in (decode_string f b) (\<lambda>v. m\<lparr>w_item_description := v\<rparr>)
      else if fd_number f = 4 then assign_in (decode_string f b) (\<lambda>v. m\<lparr>w_item_target := v\<rparr>)
      else if fd_number f = 5 then assign_in (decode_string f b) (\<lambda>v. m\<lparr>w_item_category := v\<rparr>)
      else if fd_number f = 6 then push_field (size_string lay) (decode_string f b) (w_item_search_terms m) (\<lambda>v. m\<lparr>w_item_search_terms := v\<rparr>)
      else if fd_number f = 7 then assign_in (decode_string f b) (\<lambda>v. m\<lparr>w_item_icon_reference := v\<rparr>)
      else if fd_number f = 8 then assign (decode_i32 f) (\<lambda>v. m\<lparr>w_item_score_hint := v\<rparr>) b
      else if fd_number f = 9 then insert_field lay f (w_item_unknown m) (w_item_metadata m)
            (\<lambda>u. m\<lparr>w_item_unknown := u\<rparr>) (\<lambda>v. m\<lparr>w_item_metadata := v\<rparr>) b
      else if fd_number f = 10 then push_field (size_action lay) (nested (read_w_action lay) f b) (w_item_actions m) (\<lambda>v. m\<lparr>w_item_actions := v\<rparr>)
      else if fd_number f = 11 then assign_in (decode_string f b) (\<lambda>v. m\<lparr>w_item_argument_policy := v\<rparr>)
      else if fd_number f = 12 then assign_in (decode_string f b) (\<lambda>v. m\<lparr>w_item_hit_policy := v\<rparr>)
      else keep_unknown f (w_item_unknown m) (\<lambda>u. m\<lparr>w_item_unknown := u\<rparr>) b)"

definition read_w_item :: "layout \<Rightarrow> bytes \<Rightarrow> decode_budget \<Rightarrow> protocol_error + (w_item \<times> decode_budget)" where
  "read_w_item lay = decode_with_budget (w_item_field lay) default_w_item"

record w_catalog_request =
  w_catalog_request_max_items :: u64
  w_catalog_request_unknown :: unknown_fields

definition default_w_catalog_request :: w_catalog_request where
  "default_w_catalog_request =
     \<lparr>w_catalog_request_max_items = 0, w_catalog_request_unknown = []\<rparr>"

definition encode_w_catalog_request :: "w_catalog_request \<Rightarrow> bytes" where
  "encode_w_catalog_request m = finish
     ((if w_catalog_request_max_items m \<noteq> 0 then put_varint 1 (w_catalog_request_max_items m) else [])) (w_catalog_request_unknown m)"

definition w_catalog_request_field :: "field \<Rightarrow> w_catalog_request \<Rightarrow> decode_budget \<Rightarrow> protocol_error + (w_catalog_request \<times> decode_budget)" where
  "w_catalog_request_field f m b =
     (if fd_number f = 1 then assign (decode_field_varint f) (\<lambda>v. m\<lparr>w_catalog_request_max_items := v\<rparr>) b
      else keep_unknown f (w_catalog_request_unknown m) (\<lambda>u. m\<lparr>w_catalog_request_unknown := u\<rparr>) b)"

definition read_w_catalog_request :: "bytes \<Rightarrow> decode_budget \<Rightarrow> protocol_error + (w_catalog_request \<times> decode_budget)" where
  "read_w_catalog_request = decode_with_budget w_catalog_request_field default_w_catalog_request"

record w_catalog_batch =
  w_catalog_batch_items :: "w_item list"
  w_catalog_batch_done :: bool
  w_catalog_batch_sequence :: u64
  w_catalog_batch_error :: "w_structured_error option"
  w_catalog_batch_unknown :: unknown_fields

definition default_w_catalog_batch :: w_catalog_batch where
  "default_w_catalog_batch =
     \<lparr>w_catalog_batch_items = [], w_catalog_batch_done = False, w_catalog_batch_sequence = 0, w_catalog_batch_error = None, w_catalog_batch_unknown = []\<rparr>"

definition encode_w_catalog_batch :: "w_catalog_batch \<Rightarrow> bytes" where
  "encode_w_catalog_batch m = finish
     (concat (map (put_message encode_w_item 1) (w_catalog_batch_items m)) @
      (if w_catalog_batch_done m then put_varint 2 1 else []) @
      (if w_catalog_batch_sequence m \<noteq> 0 then put_varint 3 (w_catalog_batch_sequence m) else []) @
      put_optional (put_message encode_w_structured_error 4) (w_catalog_batch_error m)) (w_catalog_batch_unknown m)"

definition w_catalog_batch_field :: "layout \<Rightarrow> field \<Rightarrow> w_catalog_batch \<Rightarrow> decode_budget \<Rightarrow> protocol_error + (w_catalog_batch \<times> decode_budget)" where
  "w_catalog_batch_field lay f m b =
     (if fd_number f = 1 then push_field (size_item lay) (nested (read_w_item lay) f b) (w_catalog_batch_items m) (\<lambda>v. m\<lparr>w_catalog_batch_items := v\<rparr>)
      else if fd_number f = 2 then assign (decode_field_varint f) (\<lambda>v. m\<lparr>w_catalog_batch_done := v \<noteq> 0\<rparr>) b
      else if fd_number f = 3 then assign (decode_field_varint f) (\<lambda>v. m\<lparr>w_catalog_batch_sequence := v\<rparr>) b
      else if fd_number f = 4 then assign_in (nested read_w_structured_error f b) (\<lambda>v. m\<lparr>w_catalog_batch_error := Some v\<rparr>)
      else keep_unknown f (w_catalog_batch_unknown m) (\<lambda>u. m\<lparr>w_catalog_batch_unknown := u\<rparr>) b)"

definition read_w_catalog_batch :: "layout \<Rightarrow> bytes \<Rightarrow> decode_budget \<Rightarrow> protocol_error + (w_catalog_batch \<times> decode_budget)" where
  "read_w_catalog_batch lay = decode_with_budget (w_catalog_batch_field lay) default_w_catalog_batch"

record w_suggest_request =
  w_suggest_request_text :: utf8
  w_suggest_request_normalized_text :: utf8
  w_suggest_request_selected_item_id :: utf8
  w_suggest_request_max_items :: u64
  w_suggest_request_max_batches :: u64
  w_suggest_request_unknown :: unknown_fields

definition default_w_suggest_request :: w_suggest_request where
  "default_w_suggest_request =
     \<lparr>w_suggest_request_text = [], w_suggest_request_normalized_text = [], w_suggest_request_selected_item_id = [], w_suggest_request_max_items = 0, w_suggest_request_max_batches = 0, w_suggest_request_unknown = []\<rparr>"

definition encode_w_suggest_request :: "w_suggest_request \<Rightarrow> bytes" where
  "encode_w_suggest_request m = finish
     ((if w_suggest_request_text m \<noteq> [] then put_string 1 (w_suggest_request_text m) else []) @
      (if w_suggest_request_normalized_text m \<noteq> [] then put_string 2 (w_suggest_request_normalized_text m) else []) @
      (if w_suggest_request_selected_item_id m \<noteq> [] then put_string 3 (w_suggest_request_selected_item_id m) else []) @
      (if w_suggest_request_max_items m \<noteq> 0 then put_varint 4 (w_suggest_request_max_items m) else []) @
      (if w_suggest_request_max_batches m \<noteq> 0 then put_varint 5 (w_suggest_request_max_batches m) else [])) (w_suggest_request_unknown m)"

definition w_suggest_request_field :: "field \<Rightarrow> w_suggest_request \<Rightarrow> decode_budget \<Rightarrow> protocol_error + (w_suggest_request \<times> decode_budget)" where
  "w_suggest_request_field f m b =
     (if fd_number f = 1 then assign_in (decode_string f b) (\<lambda>v. m\<lparr>w_suggest_request_text := v\<rparr>)
      else if fd_number f = 2 then assign_in (decode_string f b) (\<lambda>v. m\<lparr>w_suggest_request_normalized_text := v\<rparr>)
      else if fd_number f = 3 then assign_in (decode_string f b) (\<lambda>v. m\<lparr>w_suggest_request_selected_item_id := v\<rparr>)
      else if fd_number f = 4 then assign (decode_field_varint f) (\<lambda>v. m\<lparr>w_suggest_request_max_items := v\<rparr>) b
      else if fd_number f = 5 then assign (decode_field_varint f) (\<lambda>v. m\<lparr>w_suggest_request_max_batches := v\<rparr>) b
      else keep_unknown f (w_suggest_request_unknown m) (\<lambda>u. m\<lparr>w_suggest_request_unknown := u\<rparr>) b)"

definition read_w_suggest_request :: "bytes \<Rightarrow> decode_budget \<Rightarrow> protocol_error + (w_suggest_request \<times> decode_budget)" where
  "read_w_suggest_request = decode_with_budget w_suggest_request_field default_w_suggest_request"

record w_result_batch =
  w_result_batch_state :: w_batch_state
  w_result_batch_items :: "w_item list"
  w_result_batch_sequence :: u64
  w_result_batch_error :: "w_structured_error option"
  w_result_batch_unknown :: unknown_fields

definition default_w_result_batch :: w_result_batch where
  "default_w_result_batch =
     \<lparr>w_result_batch_state = BatchState_StateUnspecified, w_result_batch_items = [], w_result_batch_sequence = 0, w_result_batch_error = None, w_result_batch_unknown = []\<rparr>"

definition encode_w_result_batch :: "w_result_batch \<Rightarrow> bytes" where
  "encode_w_result_batch m = finish
     ((if w_batch_state_as_i32 (w_result_batch_state m) \<noteq> 0 then encode_enum 1 (w_batch_state_as_i32 (w_result_batch_state m)) else []) @
      concat (map (put_message encode_w_item 2) (w_result_batch_items m)) @
      (if w_result_batch_sequence m \<noteq> 0 then put_varint 3 (w_result_batch_sequence m) else []) @
      put_optional (put_message encode_w_structured_error 4) (w_result_batch_error m)) (w_result_batch_unknown m)"

definition w_result_batch_field :: "layout \<Rightarrow> field \<Rightarrow> w_result_batch \<Rightarrow> decode_budget \<Rightarrow> protocol_error + (w_result_batch \<times> decode_budget)" where
  "w_result_batch_field lay f m b =
     (if fd_number f = 1 then assign (decode_i32 f) (\<lambda>v. m\<lparr>w_result_batch_state := w_batch_state_from_i32 v\<rparr>) b
      else if fd_number f = 2 then push_field (size_item lay) (nested (read_w_item lay) f b) (w_result_batch_items m) (\<lambda>v. m\<lparr>w_result_batch_items := v\<rparr>)
      else if fd_number f = 3 then assign (decode_field_varint f) (\<lambda>v. m\<lparr>w_result_batch_sequence := v\<rparr>) b
      else if fd_number f = 4 then assign_in (nested read_w_structured_error f b) (\<lambda>v. m\<lparr>w_result_batch_error := Some v\<rparr>)
      else keep_unknown f (w_result_batch_unknown m) (\<lambda>u. m\<lparr>w_result_batch_unknown := u\<rparr>) b)"

definition read_w_result_batch :: "layout \<Rightarrow> bytes \<Rightarrow> decode_budget \<Rightarrow> protocol_error + (w_result_batch \<times> decode_budget)" where
  "read_w_result_batch lay = decode_with_budget (w_result_batch_field lay) default_w_result_batch"

record w_execute_request =
  w_execute_request_item_id :: utf8
  w_execute_request_action_id :: utf8
  w_execute_request_argument :: utf8
  w_execute_request_unknown :: unknown_fields

definition default_w_execute_request :: w_execute_request where
  "default_w_execute_request =
     \<lparr>w_execute_request_item_id = [], w_execute_request_action_id = [], w_execute_request_argument = [], w_execute_request_unknown = []\<rparr>"

definition encode_w_execute_request :: "w_execute_request \<Rightarrow> bytes" where
  "encode_w_execute_request m = finish
     ((if w_execute_request_item_id m \<noteq> [] then put_string 1 (w_execute_request_item_id m) else []) @
      (if w_execute_request_action_id m \<noteq> [] then put_string 2 (w_execute_request_action_id m) else []) @
      (if w_execute_request_argument m \<noteq> [] then put_string 3 (w_execute_request_argument m) else [])) (w_execute_request_unknown m)"

definition w_execute_request_field :: "field \<Rightarrow> w_execute_request \<Rightarrow> decode_budget \<Rightarrow> protocol_error + (w_execute_request \<times> decode_budget)" where
  "w_execute_request_field f m b =
     (if fd_number f = 1 then assign_in (decode_string f b) (\<lambda>v. m\<lparr>w_execute_request_item_id := v\<rparr>)
      else if fd_number f = 2 then assign_in (decode_string f b) (\<lambda>v. m\<lparr>w_execute_request_action_id := v\<rparr>)
      else if fd_number f = 3 then assign_in (decode_string f b) (\<lambda>v. m\<lparr>w_execute_request_argument := v\<rparr>)
      else keep_unknown f (w_execute_request_unknown m) (\<lambda>u. m\<lparr>w_execute_request_unknown := u\<rparr>) b)"

definition read_w_execute_request :: "bytes \<Rightarrow> decode_budget \<Rightarrow> protocol_error + (w_execute_request \<times> decode_budget)" where
  "read_w_execute_request = decode_with_budget w_execute_request_field default_w_execute_request"

record w_execute_result =
  w_execute_result_outcome :: w_execute_outcome_code
  w_execute_result_error :: "w_structured_error option"
  w_execute_result_page_id :: utf8
  w_execute_result_unknown :: unknown_fields

definition default_w_execute_result :: w_execute_result where
  "default_w_execute_result =
     \<lparr>w_execute_result_outcome = ExecuteOutcomeCode_OutcomeUnspecified, w_execute_result_error = None, w_execute_result_page_id = [], w_execute_result_unknown = []\<rparr>"

definition encode_w_execute_result :: "w_execute_result \<Rightarrow> bytes" where
  "encode_w_execute_result m = finish
     ((if w_execute_outcome_code_as_i32 (w_execute_result_outcome m) \<noteq> 0 then encode_enum 1 (w_execute_outcome_code_as_i32 (w_execute_result_outcome m)) else []) @
      put_optional (put_message encode_w_structured_error 2) (w_execute_result_error m) @
      (if w_execute_result_page_id m \<noteq> [] then put_string 3 (w_execute_result_page_id m) else [])) (w_execute_result_unknown m)"

definition w_execute_result_field :: "field \<Rightarrow> w_execute_result \<Rightarrow> decode_budget \<Rightarrow> protocol_error + (w_execute_result \<times> decode_budget)" where
  "w_execute_result_field f m b =
     (if fd_number f = 1 then assign (decode_i32 f) (\<lambda>v. m\<lparr>w_execute_result_outcome := w_execute_outcome_code_from_i32 v\<rparr>) b
      else if fd_number f = 2 then assign_in (nested read_w_structured_error f b) (\<lambda>v. m\<lparr>w_execute_result_error := Some v\<rparr>)
      else if fd_number f = 3 then assign_in (decode_string f b) (\<lambda>v. m\<lparr>w_execute_result_page_id := v\<rparr>)
      else keep_unknown f (w_execute_result_unknown m) (\<lambda>u. m\<lparr>w_execute_result_unknown := u\<rparr>) b)"

definition read_w_execute_result :: "bytes \<Rightarrow> decode_budget \<Rightarrow> protocol_error + (w_execute_result \<times> decode_budget)" where
  "read_w_execute_result = decode_with_budget w_execute_result_field default_w_execute_result"

section \<open>Configuration, events and resources\<close>

record w_configuration_change =
  w_configuration_change_values :: "(utf8 \<times> utf8) list"
  w_configuration_change_complete :: bool
  w_configuration_change_unknown :: unknown_fields

definition default_w_configuration_change :: w_configuration_change where
  "default_w_configuration_change =
     \<lparr>w_configuration_change_values = [], w_configuration_change_complete = False, w_configuration_change_unknown = []\<rparr>"

definition encode_w_configuration_change :: "w_configuration_change \<Rightarrow> bytes" where
  "encode_w_configuration_change m = finish
     (concat (map (\<lambda>(k, v). put_map 1 k v) (w_configuration_change_values m)) @
      (if w_configuration_change_complete m then put_varint 2 1 else [])) (w_configuration_change_unknown m)"

definition w_configuration_change_field :: "layout \<Rightarrow> field \<Rightarrow> w_configuration_change \<Rightarrow> decode_budget \<Rightarrow> protocol_error + (w_configuration_change \<times> decode_budget)" where
  "w_configuration_change_field lay f m b =
     (if fd_number f = 1 then insert_field lay f (w_configuration_change_unknown m) (w_configuration_change_values m)
            (\<lambda>u. m\<lparr>w_configuration_change_unknown := u\<rparr>) (\<lambda>v. m\<lparr>w_configuration_change_values := v\<rparr>) b
      else if fd_number f = 2 then assign (decode_field_varint f) (\<lambda>v. m\<lparr>w_configuration_change_complete := v \<noteq> 0\<rparr>) b
      else keep_unknown f (w_configuration_change_unknown m) (\<lambda>u. m\<lparr>w_configuration_change_unknown := u\<rparr>) b)"

definition read_w_configuration_change :: "layout \<Rightarrow> bytes \<Rightarrow> decode_budget \<Rightarrow> protocol_error + (w_configuration_change \<times> decode_budget)" where
  "read_w_configuration_change lay = decode_with_budget (w_configuration_change_field lay) default_w_configuration_change"

record w_event =
  w_event_kind :: w_event_kind
  w_event_attributes :: "(utf8 \<times> utf8) list"
  w_event_flags :: u64
  w_event_unknown :: unknown_fields

definition default_w_event :: w_event where
  "default_w_event =
     \<lparr>w_event_kind = EventKind_KindUnspecified, w_event_attributes = [], w_event_flags = 0, w_event_unknown = []\<rparr>"

definition encode_w_event :: "w_event \<Rightarrow> bytes" where
  "encode_w_event m = finish
     ((if w_event_kind_as_i32 (w_event_kind m) \<noteq> 0 then encode_enum 1 (w_event_kind_as_i32 (w_event_kind m)) else []) @
      concat (map (\<lambda>(k, v). put_map 2 k v) (w_event_attributes m)) @
      (if w_event_flags m \<noteq> 0 then put_varint 3 (w_event_flags m) else [])) (w_event_unknown m)"

definition w_event_field :: "layout \<Rightarrow> field \<Rightarrow> w_event \<Rightarrow> decode_budget \<Rightarrow> protocol_error + (w_event \<times> decode_budget)" where
  "w_event_field lay f m b =
     (if fd_number f = 1 then assign (decode_i32 f) (\<lambda>v. m\<lparr>w_event_kind := w_event_kind_from_i32 v\<rparr>) b
      else if fd_number f = 2 then insert_field lay f (w_event_unknown m) (w_event_attributes m)
            (\<lambda>u. m\<lparr>w_event_unknown := u\<rparr>) (\<lambda>v. m\<lparr>w_event_attributes := v\<rparr>) b
      else if fd_number f = 3 then assign (decode_field_varint f) (\<lambda>v. m\<lparr>w_event_flags := v\<rparr>) b
      else keep_unknown f (w_event_unknown m) (\<lambda>u. m\<lparr>w_event_unknown := u\<rparr>) b)"

definition read_w_event :: "layout \<Rightarrow> bytes \<Rightarrow> decode_budget \<Rightarrow> protocol_error + (w_event \<times> decode_budget)" where
  "read_w_event lay = decode_with_budget (w_event_field lay) default_w_event"

record w_resource_request =
  w_resource_request_kind :: w_resource_kind
  w_resource_request_reference :: utf8
  w_resource_request_unknown :: unknown_fields

definition default_w_resource_request :: w_resource_request where
  "default_w_resource_request =
     \<lparr>w_resource_request_kind = ResourceKind_KindUnspecified, w_resource_request_reference = [], w_resource_request_unknown = []\<rparr>"

definition encode_w_resource_request :: "w_resource_request \<Rightarrow> bytes" where
  "encode_w_resource_request m = finish
     ((if w_resource_kind_as_i32 (w_resource_request_kind m) \<noteq> 0 then encode_enum 1 (w_resource_kind_as_i32 (w_resource_request_kind m)) else []) @
      (if w_resource_request_reference m \<noteq> [] then put_string 2 (w_resource_request_reference m) else [])) (w_resource_request_unknown m)"

definition w_resource_request_field :: "field \<Rightarrow> w_resource_request \<Rightarrow> decode_budget \<Rightarrow> protocol_error + (w_resource_request \<times> decode_budget)" where
  "w_resource_request_field f m b =
     (if fd_number f = 1 then assign (decode_i32 f) (\<lambda>v. m\<lparr>w_resource_request_kind := w_resource_kind_from_i32 v\<rparr>) b
      else if fd_number f = 2 then assign_in (decode_string f b) (\<lambda>v. m\<lparr>w_resource_request_reference := v\<rparr>)
      else keep_unknown f (w_resource_request_unknown m) (\<lambda>u. m\<lparr>w_resource_request_unknown := u\<rparr>) b)"

definition read_w_resource_request :: "bytes \<Rightarrow> decode_budget \<Rightarrow> protocol_error + (w_resource_request \<times> decode_budget)" where
  "read_w_resource_request = decode_with_budget w_resource_request_field default_w_resource_request"

record w_resource_response =
  w_resource_response_reference :: utf8
  w_resource_response_found :: bool
  w_resource_response_content :: bytes
  w_resource_response_media_type :: utf8
  w_resource_response_error :: "w_structured_error option"
  w_resource_response_unknown :: unknown_fields

definition default_w_resource_response :: w_resource_response where
  "default_w_resource_response =
     \<lparr>w_resource_response_reference = [], w_resource_response_found = False, w_resource_response_content = [], w_resource_response_media_type = [], w_resource_response_error = None, w_resource_response_unknown = []\<rparr>"

definition encode_w_resource_response :: "w_resource_response \<Rightarrow> bytes" where
  "encode_w_resource_response m = finish
     ((if w_resource_response_reference m \<noteq> [] then put_string 1 (w_resource_response_reference m) else []) @
      (if w_resource_response_found m then put_varint 2 1 else []) @
      (if w_resource_response_content m \<noteq> [] then put_bytes 3 (w_resource_response_content m) else []) @
      (if w_resource_response_media_type m \<noteq> [] then put_string 4 (w_resource_response_media_type m) else []) @
      put_optional (put_message encode_w_structured_error 5) (w_resource_response_error m)) (w_resource_response_unknown m)"

definition w_resource_response_field :: "field \<Rightarrow> w_resource_response \<Rightarrow> decode_budget \<Rightarrow> protocol_error + (w_resource_response \<times> decode_budget)" where
  "w_resource_response_field f m b =
     (if fd_number f = 1 then assign_in (decode_string f b) (\<lambda>v. m\<lparr>w_resource_response_reference := v\<rparr>)
      else if fd_number f = 2 then assign (decode_field_varint f) (\<lambda>v. m\<lparr>w_resource_response_found := v \<noteq> 0\<rparr>) b
      else if fd_number f = 3 then assign_in (decode_bytes f b) (\<lambda>v. m\<lparr>w_resource_response_content := v\<rparr>)
      else if fd_number f = 4 then assign_in (decode_string f b) (\<lambda>v. m\<lparr>w_resource_response_media_type := v\<rparr>)
      else if fd_number f = 5 then assign_in (nested read_w_structured_error f b) (\<lambda>v. m\<lparr>w_resource_response_error := Some v\<rparr>)
      else keep_unknown f (w_resource_response_unknown m) (\<lambda>u. m\<lparr>w_resource_response_unknown := u\<rparr>) b)"

definition read_w_resource_response :: "bytes \<Rightarrow> decode_budget \<Rightarrow> protocol_error + (w_resource_response \<times> decode_budget)" where
  "read_w_resource_response = decode_with_budget w_resource_response_field default_w_resource_response"

section \<open>Producer-side sizing\<close>

definition batch_overhead_reserve :: nat where
  "batch_overhead_reserve = 64 * 1024"

definition unknown_charge :: "unknown_fields \<Rightarrow> nat" where
  "unknown_charge u = usize_sat_mul (length (as_bytes u)) 2"

text \<open>A loop that pushes each string of a repeated field and adds its length to the charge.\<close>

definition charge_strings :: "utf8 list \<Rightarrow> repeated_field_charge \<times> nat \<Rightarrow> repeated_field_charge \<times> nat" where
  "charge_strings xs st = foldl (\<lambda>(c, total) x. (rf_push c, usize_sat_add total (length x))) st xs"

definition action_decode_charge :: "layout \<Rightarrow> w_action \<Rightarrow> nat" where
  "action_decode_charge lay m =
     (let total = foldl (\<lambda>total x. usize_sat_add total (length x)) (length (w_action_action_id m))
            [w_action_label m, w_action_description m, w_action_icon_reference m, w_action_execution_policy m];
          (categories, total) = charge_strings (w_action_applicable_categories m) (rf_new (size_string lay), total)
      in usize_sat_add (usize_sat_add total (rf_charged categories)) (unknown_charge (w_action_unknown m)))"

definition item_decode_charge :: "layout \<Rightarrow> w_item \<Rightarrow> nat" where
  "item_decode_charge lay m =
     (let total = foldl (\<lambda>total x. usize_sat_add total (length x)) (length (w_item_stable_id m))
            [w_item_label m, w_item_description m, w_item_target m, w_item_category m, w_item_icon_reference m,
             w_item_argument_policy m, w_item_hit_policy m];
          (terms, total) = charge_strings (w_item_search_terms m) (rf_new (size_string lay), total);
          total = usize_sat_add total (rf_charged terms);
          total = foldl (\<lambda>total (k, v). usize_sat_add (usize_sat_add (usize_sat_add total (map_entry_charge lay)) (length k)) (length v))
            total (w_item_metadata m);
          (actions, total) = foldl (\<lambda>(c, total) a. (rf_push c, usize_sat_add total (action_decode_charge lay a)))
            (rf_new (size_action lay), total) (w_item_actions m)
      in usize_sat_add (usize_sat_add total (rf_charged actions)) (unknown_charge (w_item_unknown m)))"

text \<open>The loop of \<open>max_decodable_items\<close> over the items from \<open>index\<close> on.\<close>

fun decodable_from :: "layout \<Rightarrow> nat \<Rightarrow> repeated_field_charge \<Rightarrow> nat \<Rightarrow> w_item list \<Rightarrow> nat" where
  "decodable_from lay index vector contents [] = index"
| "decodable_from lay index vector contents (m # items) =
     (let vector = rf_push vector;
          contents = usize_sat_add contents (item_decode_charge lay m)
      in if decode_allocation_budget - batch_overhead_reserve < usize_sat_add (rf_charged vector) contents then max index 1
         else decodable_from lay (index + 1) vector contents items)"

definition max_decodable_items :: "layout \<Rightarrow> w_item list \<Rightarrow> nat" where
  "max_decodable_items lay items = decodable_from lay 0 (rf_new (size_item lay)) 0 items"

end
