(* ===== verification/Message_Codec.thy ===== *)
theory Message_Codec
  imports Wire_Codec Messages
begin

text \<open>
  The messages between the launcher and a plugin are codecs. For each message \<open>X\<close>,
  \<open>wf_X\<close> says what a sender may put into it (text in UTF-8, maps in key order, unknown
  fields that are unknown to it) and \<open>cost_X\<close> what decoding it charges.
\<close>

section \<open>Codes\<close>

lemma w_lifecycle_kind_code [simp]: "w_lifecycle_kind_from_i32 (w_lifecycle_kind_as_i32 c) = c" "w_lifecycle_kind_from_i32 0 = LifecycleKind_KindUnspecified"
  by (cases c) (simp_all add: w_lifecycle_kind_from_i32_def)

lemma w_batch_state_code [simp]: "w_batch_state_from_i32 (w_batch_state_as_i32 c) = c" "w_batch_state_from_i32 0 = BatchState_StateUnspecified"
  by (cases c) (simp_all add: w_batch_state_from_i32_def)

lemma w_execute_outcome_code_code [simp]: "w_execute_outcome_code_from_i32 (w_execute_outcome_code_as_i32 c) = c" "w_execute_outcome_code_from_i32 0 = ExecuteOutcomeCode_OutcomeUnspecified"
  by (cases c) (simp_all add: w_execute_outcome_code_from_i32_def)

lemma w_event_kind_code [simp]: "w_event_kind_from_i32 (w_event_kind_as_i32 c) = c" "w_event_kind_from_i32 0 = EventKind_KindUnspecified"
  by (cases c) (simp_all add: w_event_kind_from_i32_def)

lemma w_resource_kind_code [simp]: "w_resource_kind_from_i32 (w_resource_kind_as_i32 c) = c" "w_resource_kind_from_i32 0 = ResourceKind_KindUnspecified"
  by (cases c) (simp_all add: w_resource_kind_from_i32_def)

lemma w_log_level_code [simp]: "w_log_level_from_i32 (w_log_level_as_i32 c) = c" "w_log_level_from_i32 0 = LogLevel_LevelUnspecified"
  by (cases c) (simp_all add: w_log_level_from_i32_def)

lemma w_error_code_code [simp]: "w_error_code_from_i32 (w_error_code_as_i32 c) = c" "w_error_code_from_i32 0 = ErrorCode_CodeUnspecified"
  by (cases c) (simp_all add: w_error_code_from_i32_def)

section \<open>Errors and lifecycle\<close>

definition wf_w_structured_error :: "w_structured_error \<Rightarrow> bool" where
  "wf_w_structured_error m \<longleftrightarrow>
     wf_string (w_structured_error_message m) \<and> wf_string (w_structured_error_detail m)
     \<and> unknown_ok [1, 2, 3, 4] (w_structured_error_unknown m)"

definition cost_w_structured_error :: "w_structured_error \<Rightarrow> nat" where
  "cost_w_structured_error m =
     length (w_structured_error_message m) + length (w_structured_error_detail m)
     + unknown_capacity (w_structured_error_unknown m)"

interpretation structured_error_codec: wire_codec w_structured_error_field default_w_structured_error encode_w_structured_error wf_w_structured_error cost_w_structured_error 0
  unfolding encode_w_structured_error_def finish_def default_w_structured_error_def wf_w_structured_error_def
  by (unfold_locales, (elim conjE)?, rule absorbs_eq)
    ((rule field_rules absorbs_unknown [where known = "[1, 2, 3, 4]"]
      | (simp add: w_structured_error_field_def field_number_def cost_w_structured_error_def; fail)
      | rule w_structured_error.equality)+)

definition wf_w_handshake :: "w_handshake \<Rightarrow> bool" where
  "wf_w_handshake m \<longleftrightarrow>
     wf_string (w_handshake_plugin_id m) \<and> wf_string (w_handshake_plugin_version m)
     \<and> list_all wf_string (w_handshake_capabilities m) \<and> wf_string (w_handshake_session_token m)
     \<and> wf_string (w_handshake_plugin_name m) \<and> wf_string (w_handshake_sdk_version m)
     \<and> unknown_ok [1, 2, 3, 4, 5, 6, 7] (w_handshake_unknown m)"

definition cost_w_handshake :: "layout \<Rightarrow> w_handshake \<Rightarrow> nat" where
  "cost_w_handshake lay m =
     length (w_handshake_plugin_id m) + length (w_handshake_plugin_version m)
     + (sum_list (map length (w_handshake_capabilities m)) + repeat_cost (size_string lay) (length (w_handshake_capabilities m)))
     + length (w_handshake_session_token m) + length (w_handshake_plugin_name m) + length (w_handshake_sdk_version m)
     + unknown_capacity (w_handshake_unknown m)"

interpretation handshake_codec: wire_codec "w_handshake_field lay" default_w_handshake encode_w_handshake wf_w_handshake "cost_w_handshake lay" 0 for lay
  unfolding encode_w_handshake_def finish_def default_w_handshake_def wf_w_handshake_def
  by (unfold_locales, (elim conjE)?, rule absorbs_eq)
    ((rule field_rules absorbs_unknown [where known = "[1, 2, 3, 4, 5, 6, 7]"]
      | (simp add: w_handshake_field_def field_number_def cost_w_handshake_def; fail)
      | rule w_handshake.equality)+)

definition wf_w_handshake_ack :: "w_handshake_ack \<Rightarrow> bool" where
  "wf_w_handshake_ack m \<longleftrightarrow>
     list_all wf_string (w_handshake_ack_host_capabilities m) \<and> wf_string (w_handshake_ack_host_version m)
     \<and> wf_string (w_handshake_ack_reject_reason m)
     \<and> unknown_ok [1, 2, 3, 4, 5, 6, 7] (w_handshake_ack_unknown m)"

definition cost_w_handshake_ack :: "layout \<Rightarrow> w_handshake_ack \<Rightarrow> nat" where
  "cost_w_handshake_ack lay m =
     (sum_list (map length (w_handshake_ack_host_capabilities m)) + repeat_cost (size_string lay) (length (w_handshake_ack_host_capabilities m)))
     + length (w_handshake_ack_host_version m) + length (w_handshake_ack_reject_reason m)
     + unknown_capacity (w_handshake_ack_unknown m)"

interpretation handshake_ack_codec: wire_codec "w_handshake_ack_field lay" default_w_handshake_ack encode_w_handshake_ack wf_w_handshake_ack "cost_w_handshake_ack lay" 0 for lay
  unfolding encode_w_handshake_ack_def finish_def default_w_handshake_ack_def wf_w_handshake_ack_def
  by (unfold_locales, (elim conjE)?, rule absorbs_eq)
    ((rule field_rules absorbs_unknown [where known = "[1, 2, 3, 4, 5, 6, 7]"]
      | (simp add: w_handshake_ack_field_def field_number_def cost_w_handshake_ack_def; fail)
      | rule w_handshake_ack.equality)+)

definition wf_w_lifecycle :: "w_lifecycle \<Rightarrow> bool" where
  "wf_w_lifecycle m \<longleftrightarrow>
     unknown_ok [1] (w_lifecycle_unknown m)"

definition cost_w_lifecycle :: "w_lifecycle \<Rightarrow> nat" where
  "cost_w_lifecycle m =
     unknown_capacity (w_lifecycle_unknown m)"

interpretation lifecycle_codec: wire_codec w_lifecycle_field default_w_lifecycle encode_w_lifecycle wf_w_lifecycle cost_w_lifecycle 0
  unfolding encode_w_lifecycle_def finish_def default_w_lifecycle_def wf_w_lifecycle_def
  by (unfold_locales, (elim conjE)?, rule absorbs_eq)
    ((rule field_rules absorbs_unknown [where known = "[1]"]
      | (simp add: w_lifecycle_field_def field_number_def cost_w_lifecycle_def; fail)
      | rule w_lifecycle.equality)+)

definition wf_w_lifecycle_ack :: "w_lifecycle_ack \<Rightarrow> bool" where
  "wf_w_lifecycle_ack m \<longleftrightarrow>
     pred_option (sendable wf_w_structured_error encode_w_structured_error) (w_lifecycle_ack_error m)
     \<and> unknown_ok [1, 2, 3] (w_lifecycle_ack_unknown m)"

definition cost_w_lifecycle_ack :: "w_lifecycle_ack \<Rightarrow> nat" where
  "cost_w_lifecycle_ack m =
     case_option 0 cost_w_structured_error (w_lifecycle_ack_error m) + unknown_capacity (w_lifecycle_ack_unknown m)"

interpretation lifecycle_ack_codec: wire_codec w_lifecycle_ack_field default_w_lifecycle_ack encode_w_lifecycle_ack wf_w_lifecycle_ack cost_w_lifecycle_ack 1
  unfolding encode_w_lifecycle_ack_def finish_def default_w_lifecycle_ack_def wf_w_lifecycle_ack_def
  by (unfold_locales, (elim conjE)?, rule absorbs_eq)
    ((rule field_rules absorbs_unknown [where known = "[1, 2, 3]"] structured_error_codec.absorbs_optional
      | (simp add: w_lifecycle_ack_field_def field_number_def cost_w_lifecycle_ack_def apply_some_def
           read_w_structured_error_def split: option.split; fail)
      | rule w_lifecycle_ack.equality)+)

definition wf_w_shutdown :: "w_shutdown \<Rightarrow> bool" where
  "wf_w_shutdown m \<longleftrightarrow>
     unknown_ok [1] (w_shutdown_unknown m)"

definition cost_w_shutdown :: "w_shutdown \<Rightarrow> nat" where
  "cost_w_shutdown m =
     unknown_capacity (w_shutdown_unknown m)"

interpretation shutdown_codec: wire_codec w_shutdown_field default_w_shutdown encode_w_shutdown wf_w_shutdown cost_w_shutdown 0
  unfolding encode_w_shutdown_def finish_def default_w_shutdown_def wf_w_shutdown_def
  by (unfold_locales, (elim conjE)?, rule absorbs_eq)
    ((rule field_rules absorbs_unknown [where known = "[1]"]
      | (simp add: w_shutdown_field_def field_number_def cost_w_shutdown_def; fail)
      | rule w_shutdown.equality)+)

definition wf_w_cancel :: "w_cancel \<Rightarrow> bool" where
  "wf_w_cancel m \<longleftrightarrow>
     wf_string (w_cancel_reason m) \<and> unknown_ok [1] (w_cancel_unknown m)"

definition cost_w_cancel :: "w_cancel \<Rightarrow> nat" where
  "cost_w_cancel m =
     length (w_cancel_reason m) + unknown_capacity (w_cancel_unknown m)"

interpretation cancel_codec: wire_codec w_cancel_field default_w_cancel encode_w_cancel wf_w_cancel cost_w_cancel 0
  unfolding encode_w_cancel_def finish_def default_w_cancel_def wf_w_cancel_def
  by (unfold_locales, (elim conjE)?, rule absorbs_eq)
    ((rule field_rules absorbs_unknown [where known = "[1]"]
      | (simp add: w_cancel_field_def field_number_def cost_w_cancel_def; fail)
      | rule w_cancel.equality)+)

definition wf_w_flow_control :: "w_flow_control \<Rightarrow> bool" where
  "wf_w_flow_control m \<longleftrightarrow>
     unknown_ok [1, 2] (w_flow_control_unknown m)"

definition cost_w_flow_control :: "w_flow_control \<Rightarrow> nat" where
  "cost_w_flow_control m =
     unknown_capacity (w_flow_control_unknown m)"

interpretation flow_control_codec: wire_codec w_flow_control_field default_w_flow_control encode_w_flow_control wf_w_flow_control cost_w_flow_control 0
  unfolding encode_w_flow_control_def finish_def default_w_flow_control_def wf_w_flow_control_def
  by (unfold_locales, (elim conjE)?, rule absorbs_eq)
    ((rule field_rules absorbs_unknown [where known = "[1, 2]"]
      | (simp add: w_flow_control_field_def field_number_def cost_w_flow_control_def; fail)
      | rule w_flow_control.equality)+)

definition wf_w_log_record :: "w_log_record \<Rightarrow> bool" where
  "wf_w_log_record m \<longleftrightarrow>
     wf_string (w_log_record_message m) \<and> unknown_ok [1, 2, 3] (w_log_record_unknown m)"

definition cost_w_log_record :: "w_log_record \<Rightarrow> nat" where
  "cost_w_log_record m =
     length (w_log_record_message m) + unknown_capacity (w_log_record_unknown m)"

interpretation log_record_codec: wire_codec w_log_record_field default_w_log_record encode_w_log_record wf_w_log_record cost_w_log_record 0
  unfolding encode_w_log_record_def finish_def default_w_log_record_def wf_w_log_record_def
  by (unfold_locales, (elim conjE)?, rule absorbs_eq)
    ((rule field_rules absorbs_unknown [where known = "[1, 2, 3]"]
      | (simp add: w_log_record_field_def field_number_def cost_w_log_record_def; fail)
      | rule w_log_record.equality)+)

definition wf_w_health_check :: "w_health_check \<Rightarrow> bool" where
  "wf_w_health_check m \<longleftrightarrow>
     unknown_ok [1] (w_health_check_unknown m)"

definition cost_w_health_check :: "w_health_check \<Rightarrow> nat" where
  "cost_w_health_check m =
     unknown_capacity (w_health_check_unknown m)"

interpretation health_check_codec: wire_codec w_health_check_field default_w_health_check encode_w_health_check wf_w_health_check cost_w_health_check 0
  unfolding encode_w_health_check_def finish_def default_w_health_check_def wf_w_health_check_def
  by (unfold_locales, (elim conjE)?, rule absorbs_eq)
    ((rule field_rules absorbs_unknown [where known = "[1]"]
      | (simp add: w_health_check_field_def field_number_def cost_w_health_check_def; fail)
      | rule w_health_check.equality)+)

definition wf_w_health_report :: "w_health_report \<Rightarrow> bool" where
  "wf_w_health_report m \<longleftrightarrow>
     wf_string (w_health_report_detail m) \<and> unknown_ok [1, 2, 3, 4, 5, 6] (w_health_report_unknown m)"

definition cost_w_health_report :: "w_health_report \<Rightarrow> nat" where
  "cost_w_health_report m =
     length (w_health_report_detail m) + unknown_capacity (w_health_report_unknown m)"

interpretation health_report_codec: wire_codec w_health_report_field default_w_health_report encode_w_health_report wf_w_health_report cost_w_health_report 0
  unfolding encode_w_health_report_def finish_def default_w_health_report_def wf_w_health_report_def
  by (unfold_locales, (elim conjE)?, rule absorbs_eq)
    ((rule field_rules absorbs_unknown [where known = "[1, 2, 3, 4, 5, 6]"]
      | (simp add: w_health_report_field_def field_number_def cost_w_health_report_def; fail)
      | rule w_health_report.equality)+)

section \<open>Items and batches\<close>

definition wf_w_action :: "w_action \<Rightarrow> bool" where
  "wf_w_action m \<longleftrightarrow>
     wf_string (w_action_action_id m) \<and> wf_string (w_action_label m) \<and> wf_string (w_action_description m)
     \<and> wf_string (w_action_icon_reference m) \<and> wf_string (w_action_execution_policy m)
     \<and> list_all wf_string (w_action_applicable_categories m)
     \<and> unknown_ok [1, 2, 3, 4, 5, 6] (w_action_unknown m)"

definition cost_w_action :: "layout \<Rightarrow> w_action \<Rightarrow> nat" where
  "cost_w_action lay m =
     length (w_action_action_id m) + length (w_action_label m) + length (w_action_description m)
     + length (w_action_icon_reference m) + length (w_action_execution_policy m)
     + (sum_list (map length (w_action_applicable_categories m)) + repeat_cost (size_string lay) (length (w_action_applicable_categories m)))
     + unknown_capacity (w_action_unknown m)"

interpretation action_codec: wire_codec "w_action_field lay" default_w_action encode_w_action wf_w_action "cost_w_action lay" 0 for lay
  unfolding encode_w_action_def finish_def default_w_action_def wf_w_action_def
  by (unfold_locales, (elim conjE)?, rule absorbs_eq)
    ((rule field_rules absorbs_unknown [where known = "[1, 2, 3, 4, 5, 6]"]
      | (simp add: w_action_field_def field_number_def cost_w_action_def; fail)
      | rule w_action.equality)+)

definition wf_w_item :: "w_item \<Rightarrow> bool" where
  "wf_w_item m \<longleftrightarrow>
     wf_string (w_item_stable_id m) \<and> wf_string (w_item_label m) \<and> wf_string (w_item_description m)
     \<and> wf_string (w_item_target m) \<and> wf_string (w_item_category m)
     \<and> list_all wf_string (w_item_search_terms m) \<and> wf_string (w_item_icon_reference m)
     \<and> wf_map (w_item_metadata m) \<and> list_all (sendable wf_w_action encode_w_action) (w_item_actions m)
     \<and> wf_string (w_item_argument_policy m) \<and> wf_string (w_item_hit_policy m)
     \<and> unknown_ok [1, 2, 3, 4, 5, 6, 7, 8, 9, 10, 11, 12] (w_item_unknown m)"

definition cost_w_item :: "layout \<Rightarrow> w_item \<Rightarrow> nat" where
  "cost_w_item lay m =
     length (w_item_stable_id m) + length (w_item_label m) + length (w_item_description m) + length (w_item_target m)
     + length (w_item_category m)
     + (sum_list (map length (w_item_search_terms m)) + repeat_cost (size_string lay) (length (w_item_search_terms m)))
     + length (w_item_icon_reference m) + sum_list (map (entry_cost lay) (w_item_metadata m))
     + (sum_list (map (cost_w_action lay) (w_item_actions m)) + repeat_cost (size_action lay) (length (w_item_actions m)))
     + length (w_item_argument_policy m) + length (w_item_hit_policy m) + unknown_capacity (w_item_unknown m)"

interpretation item_codec: wire_codec "w_item_field lay" default_w_item encode_w_item wf_w_item "cost_w_item lay" 1 for lay
  unfolding encode_w_item_def finish_def default_w_item_def wf_w_item_def
  by (unfold_locales, (elim conjE)?, rule absorbs_eq)
    ((rule field_rules absorbs_unknown [where known = "[1, 2, 3, 4, 5, 6, 7, 8, 9, 10, 11, 12]"]
           action_codec.absorbs_messages
      | (simp add: w_item_field_def field_number_def cost_w_item_def read_w_action_def; fail)
      | rule w_item.equality)+)

definition wf_w_catalog_request :: "w_catalog_request \<Rightarrow> bool" where
  "wf_w_catalog_request m \<longleftrightarrow>
     unknown_ok [1] (w_catalog_request_unknown m)"

definition cost_w_catalog_request :: "w_catalog_request \<Rightarrow> nat" where
  "cost_w_catalog_request m =
     unknown_capacity (w_catalog_request_unknown m)"

interpretation catalog_request_codec: wire_codec w_catalog_request_field default_w_catalog_request encode_w_catalog_request wf_w_catalog_request cost_w_catalog_request 0
  unfolding encode_w_catalog_request_def finish_def default_w_catalog_request_def wf_w_catalog_request_def
  by (unfold_locales, (elim conjE)?, rule absorbs_eq)
    ((rule field_rules absorbs_unknown [where known = "[1]"]
      | (simp add: w_catalog_request_field_def field_number_def cost_w_catalog_request_def; fail)
      | rule w_catalog_request.equality)+)

definition wf_w_catalog_batch :: "w_catalog_batch \<Rightarrow> bool" where
  "wf_w_catalog_batch m \<longleftrightarrow>
     list_all (sendable wf_w_item encode_w_item) (w_catalog_batch_items m)
     \<and> pred_option (sendable wf_w_structured_error encode_w_structured_error) (w_catalog_batch_error m)
     \<and> unknown_ok [1, 2, 3, 4] (w_catalog_batch_unknown m)"

definition cost_w_catalog_batch :: "layout \<Rightarrow> w_catalog_batch \<Rightarrow> nat" where
  "cost_w_catalog_batch lay m =
     (sum_list (map (cost_w_item lay) (w_catalog_batch_items m)) + repeat_cost (size_item lay) (length (w_catalog_batch_items m)))
     + case_option 0 cost_w_structured_error (w_catalog_batch_error m) + unknown_capacity (w_catalog_batch_unknown m)"

interpretation catalog_batch_codec: wire_codec "w_catalog_batch_field lay" default_w_catalog_batch encode_w_catalog_batch wf_w_catalog_batch "cost_w_catalog_batch lay" 2 for lay
  unfolding encode_w_catalog_batch_def finish_def default_w_catalog_batch_def wf_w_catalog_batch_def
  by (unfold_locales, (elim conjE)?, rule absorbs_eq)
    ((rule field_rules absorbs_unknown [where known = "[1, 2, 3, 4]"] item_codec.absorbs_messages
           structured_error_codec.absorbs_optional
      | (simp add: w_catalog_batch_field_def field_number_def cost_w_catalog_batch_def read_w_item_def apply_some_def
           read_w_structured_error_def split: option.split; fail)
      | rule w_catalog_batch.equality)+)

definition wf_w_suggest_request :: "w_suggest_request \<Rightarrow> bool" where
  "wf_w_suggest_request m \<longleftrightarrow>
     wf_string (w_suggest_request_text m) \<and> wf_string (w_suggest_request_normalized_text m)
     \<and> wf_string (w_suggest_request_selected_item_id m)
     \<and> unknown_ok [1, 2, 3, 4, 5] (w_suggest_request_unknown m)"

definition cost_w_suggest_request :: "w_suggest_request \<Rightarrow> nat" where
  "cost_w_suggest_request m =
     length (w_suggest_request_text m) + length (w_suggest_request_normalized_text m)
     + length (w_suggest_request_selected_item_id m) + unknown_capacity (w_suggest_request_unknown m)"

interpretation suggest_request_codec: wire_codec w_suggest_request_field default_w_suggest_request encode_w_suggest_request wf_w_suggest_request cost_w_suggest_request 0
  unfolding encode_w_suggest_request_def finish_def default_w_suggest_request_def wf_w_suggest_request_def
  by (unfold_locales, (elim conjE)?, rule absorbs_eq)
    ((rule field_rules absorbs_unknown [where known = "[1, 2, 3, 4, 5]"]
      | (simp add: w_suggest_request_field_def field_number_def cost_w_suggest_request_def; fail)
      | rule w_suggest_request.equality)+)

definition wf_w_result_batch :: "w_result_batch \<Rightarrow> bool" where
  "wf_w_result_batch m \<longleftrightarrow>
     list_all (sendable wf_w_item encode_w_item) (w_result_batch_items m)
     \<and> pred_option (sendable wf_w_structured_error encode_w_structured_error) (w_result_batch_error m)
     \<and> unknown_ok [1, 2, 3, 4] (w_result_batch_unknown m)"

definition cost_w_result_batch :: "layout \<Rightarrow> w_result_batch \<Rightarrow> nat" where
  "cost_w_result_batch lay m =
     (sum_list (map (cost_w_item lay) (w_result_batch_items m)) + repeat_cost (size_item lay) (length (w_result_batch_items m)))
     + case_option 0 cost_w_structured_error (w_result_batch_error m) + unknown_capacity (w_result_batch_unknown m)"

interpretation result_batch_codec: wire_codec "w_result_batch_field lay" default_w_result_batch encode_w_result_batch wf_w_result_batch "cost_w_result_batch lay" 2 for lay
  unfolding encode_w_result_batch_def finish_def default_w_result_batch_def wf_w_result_batch_def
  by (unfold_locales, (elim conjE)?, rule absorbs_eq)
    ((rule field_rules absorbs_unknown [where known = "[1, 2, 3, 4]"] item_codec.absorbs_messages
           structured_error_codec.absorbs_optional
      | (simp add: w_result_batch_field_def field_number_def cost_w_result_batch_def read_w_item_def apply_some_def
           read_w_structured_error_def split: option.split; fail)
      | rule w_result_batch.equality)+)

definition wf_w_execute_request :: "w_execute_request \<Rightarrow> bool" where
  "wf_w_execute_request m \<longleftrightarrow>
     wf_string (w_execute_request_item_id m) \<and> wf_string (w_execute_request_action_id m)
     \<and> wf_string (w_execute_request_argument m) \<and> unknown_ok [1, 2, 3] (w_execute_request_unknown m)"

definition cost_w_execute_request :: "w_execute_request \<Rightarrow> nat" where
  "cost_w_execute_request m =
     length (w_execute_request_item_id m) + length (w_execute_request_action_id m)
     + length (w_execute_request_argument m) + unknown_capacity (w_execute_request_unknown m)"

interpretation execute_request_codec: wire_codec w_execute_request_field default_w_execute_request encode_w_execute_request wf_w_execute_request cost_w_execute_request 0
  unfolding encode_w_execute_request_def finish_def default_w_execute_request_def wf_w_execute_request_def
  by (unfold_locales, (elim conjE)?, rule absorbs_eq)
    ((rule field_rules absorbs_unknown [where known = "[1, 2, 3]"]
      | (simp add: w_execute_request_field_def field_number_def cost_w_execute_request_def; fail)
      | rule w_execute_request.equality)+)

definition wf_w_execute_result :: "w_execute_result \<Rightarrow> bool" where
  "wf_w_execute_result m \<longleftrightarrow>
     pred_option (sendable wf_w_structured_error encode_w_structured_error) (w_execute_result_error m)
     \<and> wf_string (w_execute_result_page_id m) \<and> unknown_ok [1, 2, 3] (w_execute_result_unknown m)"

definition cost_w_execute_result :: "w_execute_result \<Rightarrow> nat" where
  "cost_w_execute_result m =
     case_option 0 cost_w_structured_error (w_execute_result_error m) + length (w_execute_result_page_id m)
     + unknown_capacity (w_execute_result_unknown m)"

interpretation execute_result_codec: wire_codec w_execute_result_field default_w_execute_result encode_w_execute_result wf_w_execute_result cost_w_execute_result 1
  unfolding encode_w_execute_result_def finish_def default_w_execute_result_def wf_w_execute_result_def
  by (unfold_locales, (elim conjE)?, rule absorbs_eq)
    ((rule field_rules absorbs_unknown [where known = "[1, 2, 3]"] structured_error_codec.absorbs_optional
      | (simp add: w_execute_result_field_def field_number_def cost_w_execute_result_def apply_some_def
           read_w_structured_error_def split: option.split; fail)
      | rule w_execute_result.equality)+)

section \<open>Configuration, events and resources\<close>

definition wf_w_configuration_change :: "w_configuration_change \<Rightarrow> bool" where
  "wf_w_configuration_change m \<longleftrightarrow>
     wf_map (w_configuration_change_values m) \<and> unknown_ok [1, 2] (w_configuration_change_unknown m)"

definition cost_w_configuration_change :: "layout \<Rightarrow> w_configuration_change \<Rightarrow> nat" where
  "cost_w_configuration_change lay m =
     sum_list (map (entry_cost lay) (w_configuration_change_values m))
     + unknown_capacity (w_configuration_change_unknown m)"

interpretation configuration_change_codec: wire_codec "w_configuration_change_field lay" default_w_configuration_change encode_w_configuration_change wf_w_configuration_change "cost_w_configuration_change lay" 0 for lay
  unfolding encode_w_configuration_change_def finish_def default_w_configuration_change_def wf_w_configuration_change_def
  by (unfold_locales, (elim conjE)?, rule absorbs_eq)
    ((rule field_rules absorbs_unknown [where known = "[1, 2]"]
      | (simp add: w_configuration_change_field_def field_number_def cost_w_configuration_change_def; fail)
      | rule w_configuration_change.equality)+)

definition wf_w_event :: "w_event \<Rightarrow> bool" where
  "wf_w_event m \<longleftrightarrow>
     wf_map (w_event_attributes m) \<and> unknown_ok [1, 2, 3] (w_event_unknown m)"

definition cost_w_event :: "layout \<Rightarrow> w_event \<Rightarrow> nat" where
  "cost_w_event lay m =
     sum_list (map (entry_cost lay) (w_event_attributes m)) + unknown_capacity (w_event_unknown m)"

interpretation event_codec: wire_codec "w_event_field lay" default_w_event encode_w_event wf_w_event "cost_w_event lay" 0 for lay
  unfolding encode_w_event_def finish_def default_w_event_def wf_w_event_def
  by (unfold_locales, (elim conjE)?, rule absorbs_eq)
    ((rule field_rules absorbs_unknown [where known = "[1, 2, 3]"]
      | (simp add: w_event_field_def field_number_def cost_w_event_def; fail)
      | rule w_event.equality)+)

definition wf_w_resource_request :: "w_resource_request \<Rightarrow> bool" where
  "wf_w_resource_request m \<longleftrightarrow>
     wf_string (w_resource_request_reference m) \<and> unknown_ok [1, 2] (w_resource_request_unknown m)"

definition cost_w_resource_request :: "w_resource_request \<Rightarrow> nat" where
  "cost_w_resource_request m =
     length (w_resource_request_reference m) + unknown_capacity (w_resource_request_unknown m)"

interpretation resource_request_codec: wire_codec w_resource_request_field default_w_resource_request encode_w_resource_request wf_w_resource_request cost_w_resource_request 0
  unfolding encode_w_resource_request_def finish_def default_w_resource_request_def wf_w_resource_request_def
  by (unfold_locales, (elim conjE)?, rule absorbs_eq)
    ((rule field_rules absorbs_unknown [where known = "[1, 2]"]
      | (simp add: w_resource_request_field_def field_number_def cost_w_resource_request_def; fail)
      | rule w_resource_request.equality)+)

definition wf_w_resource_response :: "w_resource_response \<Rightarrow> bool" where
  "wf_w_resource_response m \<longleftrightarrow>
     wf_string (w_resource_response_reference m) \<and> fits (w_resource_response_content m)
     \<and> wf_string (w_resource_response_media_type m)
     \<and> pred_option (sendable wf_w_structured_error encode_w_structured_error) (w_resource_response_error m)
     \<and> unknown_ok [1, 2, 3, 4, 5] (w_resource_response_unknown m)"

definition cost_w_resource_response :: "w_resource_response \<Rightarrow> nat" where
  "cost_w_resource_response m =
     length (w_resource_response_reference m) + length (w_resource_response_content m)
     + length (w_resource_response_media_type m) + case_option 0 cost_w_structured_error (w_resource_response_error m)
     + unknown_capacity (w_resource_response_unknown m)"

interpretation resource_response_codec: wire_codec w_resource_response_field default_w_resource_response encode_w_resource_response wf_w_resource_response cost_w_resource_response 1
  unfolding encode_w_resource_response_def finish_def default_w_resource_response_def wf_w_resource_response_def
  by (unfold_locales, (elim conjE)?, rule absorbs_eq)
    ((rule field_rules absorbs_unknown [where known = "[1, 2, 3, 4, 5]"] structured_error_codec.absorbs_optional
      | (simp add: w_resource_response_field_def field_number_def cost_w_resource_response_def apply_some_def
           read_w_structured_error_def split: option.split; fail)
      | rule w_resource_response.equality)+)

end
