(* ===== verification/Message_Heap.thy ===== *)
theory Message_Heap
  imports Wire_Heap Message_Codec
begin

text \<open>Every decoder of a message pays for what it builds.\<close>

lemma cost_zero [simp]: "unknown_capacity [] = 0" "repeat_cost element 0 = 0"
  by (simp_all add: unknown_capacity_def repeat_cost_def)

section \<open>Errors and lifecycle\<close>

interpretation structured_error_heap: paying_decoder w_structured_error_field default_w_structured_error cost_w_structured_error
  by unfold_locales
    ((simp add: cost_w_structured_error_def default_w_structured_error_def; fail)
      | (unfold w_structured_error_field_def, (rule paying_rules | (simp add: cost_w_structured_error_def; fail))+))+

interpretation handshake_heap: paying_decoder "w_handshake_field lay" default_w_handshake "cost_w_handshake lay" for lay
  by unfold_locales
    ((simp add: cost_w_handshake_def default_w_handshake_def; fail)
      | (unfold w_handshake_field_def, (rule paying_rules | (simp add: cost_w_handshake_def; fail))+))+

interpretation handshake_ack_heap: paying_decoder "w_handshake_ack_field lay" default_w_handshake_ack "cost_w_handshake_ack lay" for lay
  by unfold_locales
    ((simp add: cost_w_handshake_ack_def default_w_handshake_ack_def; fail)
      | (unfold w_handshake_ack_field_def, (rule paying_rules | (simp add: cost_w_handshake_ack_def; fail))+))+

interpretation lifecycle_heap: paying_decoder w_lifecycle_field default_w_lifecycle cost_w_lifecycle
  by unfold_locales
    ((simp add: cost_w_lifecycle_def default_w_lifecycle_def; fail)
      | (unfold w_lifecycle_field_def, (rule paying_rules | (simp add: cost_w_lifecycle_def; fail))+))+

interpretation lifecycle_ack_heap: paying_decoder w_lifecycle_ack_field default_w_lifecycle_ack cost_w_lifecycle_ack
  by unfold_locales
    ((simp add: cost_w_lifecycle_ack_def default_w_lifecycle_ack_def; fail)
      | (unfold w_lifecycle_ack_field_def, (rule paying_rules structured_error_heap.pays_nested [folded read_w_structured_error_def] | (simp add: cost_w_lifecycle_ack_def; fail))+))+

interpretation shutdown_heap: paying_decoder w_shutdown_field default_w_shutdown cost_w_shutdown
  by unfold_locales
    ((simp add: cost_w_shutdown_def default_w_shutdown_def; fail)
      | (unfold w_shutdown_field_def, (rule paying_rules | (simp add: cost_w_shutdown_def; fail))+))+

interpretation cancel_heap: paying_decoder w_cancel_field default_w_cancel cost_w_cancel
  by unfold_locales
    ((simp add: cost_w_cancel_def default_w_cancel_def; fail)
      | (unfold w_cancel_field_def, (rule paying_rules | (simp add: cost_w_cancel_def; fail))+))+

interpretation flow_control_heap: paying_decoder w_flow_control_field default_w_flow_control cost_w_flow_control
  by unfold_locales
    ((simp add: cost_w_flow_control_def default_w_flow_control_def; fail)
      | (unfold w_flow_control_field_def, (rule paying_rules | (simp add: cost_w_flow_control_def; fail))+))+

interpretation log_record_heap: paying_decoder w_log_record_field default_w_log_record cost_w_log_record
  by unfold_locales
    ((simp add: cost_w_log_record_def default_w_log_record_def; fail)
      | (unfold w_log_record_field_def, (rule paying_rules | (simp add: cost_w_log_record_def; fail))+))+

interpretation health_check_heap: paying_decoder w_health_check_field default_w_health_check cost_w_health_check
  by unfold_locales
    ((simp add: cost_w_health_check_def default_w_health_check_def; fail)
      | (unfold w_health_check_field_def, (rule paying_rules | (simp add: cost_w_health_check_def; fail))+))+

interpretation health_report_heap: paying_decoder w_health_report_field default_w_health_report cost_w_health_report
  by unfold_locales
    ((simp add: cost_w_health_report_def default_w_health_report_def; fail)
      | (unfold w_health_report_field_def, (rule paying_rules | (simp add: cost_w_health_report_def; fail))+))+

section \<open>Items and batches\<close>

interpretation action_heap: paying_decoder "w_action_field lay" default_w_action "cost_w_action lay" for lay
  by unfold_locales
    ((simp add: cost_w_action_def default_w_action_def; fail)
      | (unfold w_action_field_def, (rule paying_rules | (simp add: cost_w_action_def; fail))+))+

interpretation item_heap: paying_decoder "w_item_field lay" default_w_item "cost_w_item lay" for lay
  by unfold_locales
    ((simp add: cost_w_item_def default_w_item_def; fail)
      | (unfold w_item_field_def, (rule paying_rules action_heap.pays_messages [folded read_w_action_def] | (simp add: cost_w_item_def; fail))+))+

interpretation catalog_request_heap: paying_decoder w_catalog_request_field default_w_catalog_request cost_w_catalog_request
  by unfold_locales
    ((simp add: cost_w_catalog_request_def default_w_catalog_request_def; fail)
      | (unfold w_catalog_request_field_def, (rule paying_rules | (simp add: cost_w_catalog_request_def; fail))+))+

interpretation catalog_batch_heap: paying_decoder "w_catalog_batch_field lay" default_w_catalog_batch "cost_w_catalog_batch lay" for lay
  by unfold_locales
    ((simp add: cost_w_catalog_batch_def default_w_catalog_batch_def; fail)
      | (unfold w_catalog_batch_field_def, (rule paying_rules item_heap.pays_messages [folded read_w_item_def]
           structured_error_heap.pays_nested [folded read_w_structured_error_def] | (simp add: cost_w_catalog_batch_def; fail))+))+

interpretation suggest_request_heap: paying_decoder w_suggest_request_field default_w_suggest_request cost_w_suggest_request
  by unfold_locales
    ((simp add: cost_w_suggest_request_def default_w_suggest_request_def; fail)
      | (unfold w_suggest_request_field_def, (rule paying_rules | (simp add: cost_w_suggest_request_def; fail))+))+

interpretation result_batch_heap: paying_decoder "w_result_batch_field lay" default_w_result_batch "cost_w_result_batch lay" for lay
  by unfold_locales
    ((simp add: cost_w_result_batch_def default_w_result_batch_def; fail)
      | (unfold w_result_batch_field_def, (rule paying_rules item_heap.pays_messages [folded read_w_item_def]
           structured_error_heap.pays_nested [folded read_w_structured_error_def] | (simp add: cost_w_result_batch_def; fail))+))+

interpretation execute_request_heap: paying_decoder w_execute_request_field default_w_execute_request cost_w_execute_request
  by unfold_locales
    ((simp add: cost_w_execute_request_def default_w_execute_request_def; fail)
      | (unfold w_execute_request_field_def, (rule paying_rules | (simp add: cost_w_execute_request_def; fail))+))+

interpretation execute_result_heap: paying_decoder w_execute_result_field default_w_execute_result cost_w_execute_result
  by unfold_locales
    ((simp add: cost_w_execute_result_def default_w_execute_result_def; fail)
      | (unfold w_execute_result_field_def, (rule paying_rules structured_error_heap.pays_nested [folded read_w_structured_error_def] | (simp add: cost_w_execute_result_def; fail))+))+

section \<open>Configuration, events and resources\<close>

interpretation configuration_change_heap: paying_decoder "w_configuration_change_field lay" default_w_configuration_change "cost_w_configuration_change lay" for lay
  by unfold_locales
    ((simp add: cost_w_configuration_change_def default_w_configuration_change_def; fail)
      | (unfold w_configuration_change_field_def, (rule paying_rules | (simp add: cost_w_configuration_change_def; fail))+))+

interpretation event_heap: paying_decoder "w_event_field lay" default_w_event "cost_w_event lay" for lay
  by unfold_locales
    ((simp add: cost_w_event_def default_w_event_def; fail)
      | (unfold w_event_field_def, (rule paying_rules | (simp add: cost_w_event_def; fail))+))+

interpretation resource_request_heap: paying_decoder w_resource_request_field default_w_resource_request cost_w_resource_request
  by unfold_locales
    ((simp add: cost_w_resource_request_def default_w_resource_request_def; fail)
      | (unfold w_resource_request_field_def, (rule paying_rules | (simp add: cost_w_resource_request_def; fail))+))+

interpretation resource_response_heap: paying_decoder w_resource_response_field default_w_resource_response cost_w_resource_response
  by unfold_locales
    ((simp add: cost_w_resource_response_def default_w_resource_response_def; fail)
      | (unfold w_resource_response_field_def, (rule paying_rules structured_error_heap.pays_nested [folded read_w_structured_error_def] | (simp add: cost_w_resource_response_def; fail))+))+

end
