(* ===== verification/Envelopes.thy ===== *)
theory Envelopes
  imports Messages
begin

text \<open>
  The page and web surface messages of \<open>crates/crikey-native-protocol/src/message.rs\<close>, and
  the envelope every message travels in. The translation is that of \<open>Messages\<close>.
\<close>

section \<open>Codes\<close>

datatype w_page_input_code =
    PageInputCode_KindUnspecified
  | PageInputCode_Opened
  | PageInputCode_PointerMoved
  | PageInputCode_PointerPressed
  | PageInputCode_PointerReleased
  | PageInputCode_KeyPressed
  | PageInputCode_TextInput
  | PageInputCode_Activated
  | PageInputCode_FocusChanged
  | PageInputCode_Closed

definition w_page_input_code_from_i32 :: "32 word \<Rightarrow> w_page_input_code" where
  "w_page_input_code_from_i32 v =
     (if v = 1 then PageInputCode_Opened
      else if v = 2 then PageInputCode_PointerMoved
      else if v = 3 then PageInputCode_PointerPressed
      else if v = 4 then PageInputCode_PointerReleased
      else if v = 5 then PageInputCode_KeyPressed
      else if v = 6 then PageInputCode_TextInput
      else if v = 7 then PageInputCode_Activated
      else if v = 8 then PageInputCode_FocusChanged
      else if v = 9 then PageInputCode_Closed
      else PageInputCode_KindUnspecified)"

fun w_page_input_code_as_i32 :: "w_page_input_code \<Rightarrow> 32 word" where
  "w_page_input_code_as_i32 PageInputCode_KindUnspecified = 0"
| "w_page_input_code_as_i32 PageInputCode_Opened = 1"
| "w_page_input_code_as_i32 PageInputCode_PointerMoved = 2"
| "w_page_input_code_as_i32 PageInputCode_PointerPressed = 3"
| "w_page_input_code_as_i32 PageInputCode_PointerReleased = 4"
| "w_page_input_code_as_i32 PageInputCode_KeyPressed = 5"
| "w_page_input_code_as_i32 PageInputCode_TextInput = 6"
| "w_page_input_code_as_i32 PageInputCode_Activated = 7"
| "w_page_input_code_as_i32 PageInputCode_FocusChanged = 8"
| "w_page_input_code_as_i32 PageInputCode_Closed = 9"

datatype w_page_shape_code =
    PageShapeCode_ShapeUnspecified
  | PageShapeCode_Rect
  | PageShapeCode_Text
  | PageShapeCode_Line
  | PageShapeCode_Circle
  | PageShapeCode_Image

definition w_page_shape_code_from_i32 :: "32 word \<Rightarrow> w_page_shape_code" where
  "w_page_shape_code_from_i32 v =
     (if v = 1 then PageShapeCode_Rect
      else if v = 2 then PageShapeCode_Text
      else if v = 3 then PageShapeCode_Line
      else if v = 4 then PageShapeCode_Circle
      else if v = 5 then PageShapeCode_Image
      else PageShapeCode_ShapeUnspecified)"

fun w_page_shape_code_as_i32 :: "w_page_shape_code \<Rightarrow> 32 word" where
  "w_page_shape_code_as_i32 PageShapeCode_ShapeUnspecified = 0"
| "w_page_shape_code_as_i32 PageShapeCode_Rect = 1"
| "w_page_shape_code_as_i32 PageShapeCode_Text = 2"
| "w_page_shape_code_as_i32 PageShapeCode_Line = 3"
| "w_page_shape_code_as_i32 PageShapeCode_Circle = 4"
| "w_page_shape_code_as_i32 PageShapeCode_Image = 5"

datatype w_page_role_code =
    PageRoleCode_RoleUnspecified
  | PageRoleCode_Button
  | PageRoleCode_Label
  | PageRoleCode_Heading
  | PageRoleCode_TextField
  | PageRoleCode_Checkbox

definition w_page_role_code_from_i32 :: "32 word \<Rightarrow> w_page_role_code" where
  "w_page_role_code_from_i32 v =
     (if v = 1 then PageRoleCode_Button
      else if v = 2 then PageRoleCode_Label
      else if v = 3 then PageRoleCode_Heading
      else if v = 4 then PageRoleCode_TextField
      else if v = 5 then PageRoleCode_Checkbox
      else PageRoleCode_RoleUnspecified)"

fun w_page_role_code_as_i32 :: "w_page_role_code \<Rightarrow> 32 word" where
  "w_page_role_code_as_i32 PageRoleCode_RoleUnspecified = 0"
| "w_page_role_code_as_i32 PageRoleCode_Button = 1"
| "w_page_role_code_as_i32 PageRoleCode_Label = 2"
| "w_page_role_code_as_i32 PageRoleCode_Heading = 3"
| "w_page_role_code_as_i32 PageRoleCode_TextField = 4"
| "w_page_role_code_as_i32 PageRoleCode_Checkbox = 5"

datatype w_web_storage_mode =
    WebStorageMode_ModeUnspecified
  | WebStorageMode_Ephemeral
  | WebStorageMode_Persistent

definition w_web_storage_mode_from_i32 :: "32 word \<Rightarrow> w_web_storage_mode" where
  "w_web_storage_mode_from_i32 v =
     (if v = 1 then WebStorageMode_Ephemeral
      else if v = 2 then WebStorageMode_Persistent
      else WebStorageMode_ModeUnspecified)"

fun w_web_storage_mode_as_i32 :: "w_web_storage_mode \<Rightarrow> 32 word" where
  "w_web_storage_mode_as_i32 WebStorageMode_ModeUnspecified = 0"
| "w_web_storage_mode_as_i32 WebStorageMode_Ephemeral = 1"
| "w_web_storage_mode_as_i32 WebStorageMode_Persistent = 2"

datatype w_web_input_code =
    WebInputCode_KindUnspecified
  | WebInputCode_KeyDown
  | WebInputCode_KeyUp
  | WebInputCode_PointerMove
  | WebInputCode_PointerDown
  | WebInputCode_PointerUp
  | WebInputCode_Scroll
  | WebInputCode_FocusIn
  | WebInputCode_FocusOut

definition w_web_input_code_from_i32 :: "32 word \<Rightarrow> w_web_input_code" where
  "w_web_input_code_from_i32 v =
     (if v = 1 then WebInputCode_KeyDown
      else if v = 2 then WebInputCode_KeyUp
      else if v = 3 then WebInputCode_PointerMove
      else if v = 4 then WebInputCode_PointerDown
      else if v = 5 then WebInputCode_PointerUp
      else if v = 6 then WebInputCode_Scroll
      else if v = 7 then WebInputCode_FocusIn
      else if v = 8 then WebInputCode_FocusOut
      else WebInputCode_KindUnspecified)"

fun w_web_input_code_as_i32 :: "w_web_input_code \<Rightarrow> 32 word" where
  "w_web_input_code_as_i32 WebInputCode_KindUnspecified = 0"
| "w_web_input_code_as_i32 WebInputCode_KeyDown = 1"
| "w_web_input_code_as_i32 WebInputCode_KeyUp = 2"
| "w_web_input_code_as_i32 WebInputCode_PointerMove = 3"
| "w_web_input_code_as_i32 WebInputCode_PointerDown = 4"
| "w_web_input_code_as_i32 WebInputCode_PointerUp = 5"
| "w_web_input_code_as_i32 WebInputCode_Scroll = 6"
| "w_web_input_code_as_i32 WebInputCode_FocusIn = 7"
| "w_web_input_code_as_i32 WebInputCode_FocusOut = 8"

datatype w_web_ime_code =
    WebImeCode_KindUnspecified
  | WebImeCode_Preedit
  | WebImeCode_Commit

definition w_web_ime_code_from_i32 :: "32 word \<Rightarrow> w_web_ime_code" where
  "w_web_ime_code_from_i32 v =
     (if v = 1 then WebImeCode_Preedit
      else if v = 2 then WebImeCode_Commit
      else WebImeCode_KindUnspecified)"

fun w_web_ime_code_as_i32 :: "w_web_ime_code \<Rightarrow> 32 word" where
  "w_web_ime_code_as_i32 WebImeCode_KindUnspecified = 0"
| "w_web_ime_code_as_i32 WebImeCode_Preedit = 1"
| "w_web_ime_code_as_i32 WebImeCode_Commit = 2"

datatype w_web_load_code =
    WebLoadCode_StateUnspecified
  | WebLoadCode_Started
  | WebLoadCode_Redirected
  | WebLoadCode_Committed
  | WebLoadCode_Finished
  | WebLoadCode_Failed

definition w_web_load_code_from_i32 :: "32 word \<Rightarrow> w_web_load_code" where
  "w_web_load_code_from_i32 v =
     (if v = 1 then WebLoadCode_Started
      else if v = 2 then WebLoadCode_Redirected
      else if v = 3 then WebLoadCode_Committed
      else if v = 4 then WebLoadCode_Finished
      else if v = 5 then WebLoadCode_Failed
      else WebLoadCode_StateUnspecified)"

fun w_web_load_code_as_i32 :: "w_web_load_code \<Rightarrow> 32 word" where
  "w_web_load_code_as_i32 WebLoadCode_StateUnspecified = 0"
| "w_web_load_code_as_i32 WebLoadCode_Started = 1"
| "w_web_load_code_as_i32 WebLoadCode_Redirected = 2"
| "w_web_load_code_as_i32 WebLoadCode_Committed = 3"
| "w_web_load_code_as_i32 WebLoadCode_Finished = 4"
| "w_web_load_code_as_i32 WebLoadCode_Failed = 5"

datatype w_web_gone_code =
    WebGoneCode_ReasonUnspecified
  | WebGoneCode_Closed
  | WebGoneCode_MemoryLimit
  | WebGoneCode_Crashed
  | WebGoneCode_StartupFailed
  | WebGoneCode_ProtocolViolation

definition w_web_gone_code_from_i32 :: "32 word \<Rightarrow> w_web_gone_code" where
  "w_web_gone_code_from_i32 v =
     (if v = 1 then WebGoneCode_Closed
      else if v = 2 then WebGoneCode_MemoryLimit
      else if v = 3 then WebGoneCode_Crashed
      else if v = 4 then WebGoneCode_StartupFailed
      else if v = 5 then WebGoneCode_ProtocolViolation
      else WebGoneCode_ReasonUnspecified)"

fun w_web_gone_code_as_i32 :: "w_web_gone_code \<Rightarrow> 32 word" where
  "w_web_gone_code_as_i32 WebGoneCode_ReasonUnspecified = 0"
| "w_web_gone_code_as_i32 WebGoneCode_Closed = 1"
| "w_web_gone_code_as_i32 WebGoneCode_MemoryLimit = 2"
| "w_web_gone_code_as_i32 WebGoneCode_Crashed = 3"
| "w_web_gone_code_as_i32 WebGoneCode_StartupFailed = 4"
| "w_web_gone_code_as_i32 WebGoneCode_ProtocolViolation = 5"

section \<open>Pages\<close>

record w_page_input =
  w_page_input_kind :: w_page_input_code
  w_page_input_x :: f32
  w_page_input_y :: f32
  w_page_input_key :: utf8
  w_page_input_text :: utf8
  w_page_input_node_id :: u32
  w_page_input_ctrl :: bool
  w_page_input_shift :: bool
  w_page_input_alt :: bool
  w_page_input_unknown :: unknown_fields

definition default_w_page_input :: w_page_input where
  "default_w_page_input =
     \<lparr>w_page_input_kind = PageInputCode_KindUnspecified, w_page_input_x = 0, w_page_input_y = 0, w_page_input_key = [], w_page_input_text = [], w_page_input_node_id = 0, w_page_input_ctrl = False, w_page_input_shift = False, w_page_input_alt = False, w_page_input_unknown = []\<rparr>"

definition encode_w_page_input :: "w_page_input \<Rightarrow> bytes" where
  "encode_w_page_input m = finish
     ((if w_page_input_code_as_i32 (w_page_input_kind m) \<noteq> 0 then encode_enum 1 (w_page_input_code_as_i32 (w_page_input_kind m)) else []) @
      (if f32_nonzero (w_page_input_x m) then put_f32 2 (w_page_input_x m) else []) @
      (if f32_nonzero (w_page_input_y m) then put_f32 3 (w_page_input_y m) else []) @
      (if w_page_input_key m \<noteq> [] then put_string 4 (w_page_input_key m) else []) @
      (if w_page_input_text m \<noteq> [] then put_string 5 (w_page_input_text m) else []) @
      (if w_page_input_node_id m \<noteq> 0 then put_varint 6 (ucast (w_page_input_node_id m)) else []) @
      (if w_page_input_ctrl m then put_varint 7 1 else []) @
      (if w_page_input_shift m then put_varint 8 1 else []) @
      (if w_page_input_alt m then put_varint 9 1 else [])) (w_page_input_unknown m)"

definition w_page_input_field :: "field \<Rightarrow> w_page_input \<Rightarrow> decode_budget \<Rightarrow> protocol_error + (w_page_input \<times> decode_budget)" where
  "w_page_input_field f m b =
     (if fd_number f = 1 then assign (decode_i32 f) (\<lambda>v. m\<lparr>w_page_input_kind := w_page_input_code_from_i32 v\<rparr>) b
      else if fd_number f = 2 then assign (decode_f32 f) (\<lambda>v. m\<lparr>w_page_input_x := v\<rparr>) b
      else if fd_number f = 3 then assign (decode_f32 f) (\<lambda>v. m\<lparr>w_page_input_y := v\<rparr>) b
      else if fd_number f = 4 then assign_in (decode_string f b) (\<lambda>v. m\<lparr>w_page_input_key := v\<rparr>)
      else if fd_number f = 5 then assign_in (decode_string f b) (\<lambda>v. m\<lparr>w_page_input_text := v\<rparr>)
      else if fd_number f = 6 then assign (decode_u32 f) (\<lambda>v. m\<lparr>w_page_input_node_id := v\<rparr>) b
      else if fd_number f = 7 then assign (decode_field_varint f) (\<lambda>v. m\<lparr>w_page_input_ctrl := v \<noteq> 0\<rparr>) b
      else if fd_number f = 8 then assign (decode_field_varint f) (\<lambda>v. m\<lparr>w_page_input_shift := v \<noteq> 0\<rparr>) b
      else if fd_number f = 9 then assign (decode_field_varint f) (\<lambda>v. m\<lparr>w_page_input_alt := v \<noteq> 0\<rparr>) b
      else keep_unknown f (w_page_input_unknown m) (\<lambda>u. m\<lparr>w_page_input_unknown := u\<rparr>) b)"

definition read_w_page_input :: "bytes \<Rightarrow> decode_budget \<Rightarrow> protocol_error + (w_page_input \<times> decode_budget)" where
  "read_w_page_input = decode_with_budget w_page_input_field default_w_page_input"

record w_page_image =
  w_page_image_pixel_width :: u32
  w_page_image_pixel_height :: u32
  w_page_image_rgba :: bytes
  w_page_image_unknown :: unknown_fields

definition default_w_page_image :: w_page_image where
  "default_w_page_image =
     \<lparr>w_page_image_pixel_width = 0, w_page_image_pixel_height = 0, w_page_image_rgba = [], w_page_image_unknown = []\<rparr>"

definition encode_w_page_image :: "w_page_image \<Rightarrow> bytes" where
  "encode_w_page_image m = finish
     ((if w_page_image_pixel_width m \<noteq> 0 then put_varint 1 (ucast (w_page_image_pixel_width m)) else []) @
      (if w_page_image_pixel_height m \<noteq> 0 then put_varint 2 (ucast (w_page_image_pixel_height m)) else []) @
      (if w_page_image_rgba m \<noteq> [] then put_bytes 3 (w_page_image_rgba m) else [])) (w_page_image_unknown m)"

definition w_page_image_field :: "field \<Rightarrow> w_page_image \<Rightarrow> decode_budget \<Rightarrow> protocol_error + (w_page_image \<times> decode_budget)" where
  "w_page_image_field f m b =
     (if fd_number f = 1 then assign (decode_u32 f) (\<lambda>v. m\<lparr>w_page_image_pixel_width := v\<rparr>) b
      else if fd_number f = 2 then assign (decode_u32 f) (\<lambda>v. m\<lparr>w_page_image_pixel_height := v\<rparr>) b
      else if fd_number f = 3 then assign_in (decode_bytes f b) (\<lambda>v. m\<lparr>w_page_image_rgba := v\<rparr>)
      else keep_unknown f (w_page_image_unknown m) (\<lambda>u. m\<lparr>w_page_image_unknown := u\<rparr>) b)"

definition read_w_page_image :: "bytes \<Rightarrow> decode_budget \<Rightarrow> protocol_error + (w_page_image \<times> decode_budget)" where
  "read_w_page_image = decode_with_budget w_page_image_field default_w_page_image"

record w_page_node =
  w_page_node_shape :: w_page_shape_code
  w_page_node_x :: f32
  w_page_node_y :: f32
  w_page_node_width :: f32
  w_page_node_height :: f32
  w_page_node_fill :: u32
  w_page_node_stroke :: u32
  w_page_node_stroke_width :: f32
  w_page_node_rounding :: f32
  w_page_node_text :: utf8
  w_page_node_text_size :: f32
  w_page_node_role :: w_page_role_code
  w_page_node_label :: utf8
  w_page_node_node_id :: u32
  w_page_node_focus_order :: u32
  w_page_node_checked :: bool
  w_page_node_image :: "w_page_image option"
  w_page_node_unknown :: unknown_fields

definition default_w_page_node :: w_page_node where
  "default_w_page_node =
     \<lparr>w_page_node_shape = PageShapeCode_ShapeUnspecified, w_page_node_x = 0, w_page_node_y = 0, w_page_node_width = 0, w_page_node_height = 0, w_page_node_fill = 0, w_page_node_stroke = 0, w_page_node_stroke_width = 0, w_page_node_rounding = 0, w_page_node_text = [], w_page_node_text_size = 0, w_page_node_role = PageRoleCode_RoleUnspecified, w_page_node_label = [], w_page_node_node_id = 0, w_page_node_focus_order = 0, w_page_node_checked = False, w_page_node_image = None, w_page_node_unknown = []\<rparr>"

definition encode_w_page_node :: "w_page_node \<Rightarrow> bytes" where
  "encode_w_page_node m = finish
     ((if w_page_shape_code_as_i32 (w_page_node_shape m) \<noteq> 0 then encode_enum 1 (w_page_shape_code_as_i32 (w_page_node_shape m)) else []) @
      (if f32_nonzero (w_page_node_x m) then put_f32 2 (w_page_node_x m) else []) @
      (if f32_nonzero (w_page_node_y m) then put_f32 3 (w_page_node_y m) else []) @
      (if f32_nonzero (w_page_node_width m) then put_f32 4 (w_page_node_width m) else []) @
      (if f32_nonzero (w_page_node_height m) then put_f32 5 (w_page_node_height m) else []) @
      (if w_page_node_fill m \<noteq> 0 then put_varint 6 (ucast (w_page_node_fill m)) else []) @
      (if w_page_node_stroke m \<noteq> 0 then put_varint 7 (ucast (w_page_node_stroke m)) else []) @
      (if f32_nonzero (w_page_node_stroke_width m) then put_f32 8 (w_page_node_stroke_width m) else []) @
      (if f32_nonzero (w_page_node_rounding m) then put_f32 9 (w_page_node_rounding m) else []) @
      (if w_page_node_text m \<noteq> [] then put_string 10 (w_page_node_text m) else []) @
      (if f32_nonzero (w_page_node_text_size m) then put_f32 11 (w_page_node_text_size m) else []) @
      (if w_page_role_code_as_i32 (w_page_node_role m) \<noteq> 0 then encode_enum 12 (w_page_role_code_as_i32 (w_page_node_role m)) else []) @
      (if w_page_node_label m \<noteq> [] then put_string 13 (w_page_node_label m) else []) @
      (if w_page_node_node_id m \<noteq> 0 then put_varint 14 (ucast (w_page_node_node_id m)) else []) @
      (if w_page_node_focus_order m \<noteq> 0 then put_varint 15 (ucast (w_page_node_focus_order m)) else []) @
      (if w_page_node_checked m then put_varint 16 1 else []) @
      put_optional (put_message encode_w_page_image 17) (w_page_node_image m)) (w_page_node_unknown m)"

definition w_page_node_field :: "field \<Rightarrow> w_page_node \<Rightarrow> decode_budget \<Rightarrow> protocol_error + (w_page_node \<times> decode_budget)" where
  "w_page_node_field f m b =
     (if fd_number f = 1 then assign (decode_i32 f) (\<lambda>v. m\<lparr>w_page_node_shape := w_page_shape_code_from_i32 v\<rparr>) b
      else if fd_number f = 2 then assign (decode_f32 f) (\<lambda>v. m\<lparr>w_page_node_x := v\<rparr>) b
      else if fd_number f = 3 then assign (decode_f32 f) (\<lambda>v. m\<lparr>w_page_node_y := v\<rparr>) b
      else if fd_number f = 4 then assign (decode_f32 f) (\<lambda>v. m\<lparr>w_page_node_width := v\<rparr>) b
      else if fd_number f = 5 then assign (decode_f32 f) (\<lambda>v. m\<lparr>w_page_node_height := v\<rparr>) b
      else if fd_number f = 6 then assign (decode_u32 f) (\<lambda>v. m\<lparr>w_page_node_fill := v\<rparr>) b
      else if fd_number f = 7 then assign (decode_u32 f) (\<lambda>v. m\<lparr>w_page_node_stroke := v\<rparr>) b
      else if fd_number f = 8 then assign (decode_f32 f) (\<lambda>v. m\<lparr>w_page_node_stroke_width := v\<rparr>) b
      else if fd_number f = 9 then assign (decode_f32 f) (\<lambda>v. m\<lparr>w_page_node_rounding := v\<rparr>) b
      else if fd_number f = 10 then assign_in (decode_string f b) (\<lambda>v. m\<lparr>w_page_node_text := v\<rparr>)
      else if fd_number f = 11 then assign (decode_f32 f) (\<lambda>v. m\<lparr>w_page_node_text_size := v\<rparr>) b
      else if fd_number f = 12 then assign (decode_i32 f) (\<lambda>v. m\<lparr>w_page_node_role := w_page_role_code_from_i32 v\<rparr>) b
      else if fd_number f = 13 then assign_in (decode_string f b) (\<lambda>v. m\<lparr>w_page_node_label := v\<rparr>)
      else if fd_number f = 14 then assign (decode_u32 f) (\<lambda>v. m\<lparr>w_page_node_node_id := v\<rparr>) b
      else if fd_number f = 15 then assign (decode_u32 f) (\<lambda>v. m\<lparr>w_page_node_focus_order := v\<rparr>) b
      else if fd_number f = 16 then assign (decode_field_varint f) (\<lambda>v. m\<lparr>w_page_node_checked := v \<noteq> 0\<rparr>) b
      else if fd_number f = 17 then assign_in (nested read_w_page_image f b) (\<lambda>v. m\<lparr>w_page_node_image := Some v\<rparr>)
      else keep_unknown f (w_page_node_unknown m) (\<lambda>u. m\<lparr>w_page_node_unknown := u\<rparr>) b)"

definition read_w_page_node :: "bytes \<Rightarrow> decode_budget \<Rightarrow> protocol_error + (w_page_node \<times> decode_budget)" where
  "read_w_page_node = decode_with_budget w_page_node_field default_w_page_node"

record w_page_request =
  w_page_request_page_id :: utf8
  w_page_request_generation :: u64
  w_page_request_width :: u32
  w_page_request_height :: u32
  w_page_request_events :: "w_page_input list"
  w_page_request_focused :: bool
  w_page_request_colour_surface :: u32
  w_page_request_colour_text :: u32
  w_page_request_colour_accent :: u32
  w_page_request_colour_muted :: u32
  w_page_request_unknown :: unknown_fields

definition default_w_page_request :: w_page_request where
  "default_w_page_request =
     \<lparr>w_page_request_page_id = [], w_page_request_generation = 0, w_page_request_width = 0, w_page_request_height = 0, w_page_request_events = [], w_page_request_focused = False, w_page_request_colour_surface = 0, w_page_request_colour_text = 0, w_page_request_colour_accent = 0, w_page_request_colour_muted = 0, w_page_request_unknown = []\<rparr>"

definition encode_w_page_request :: "w_page_request \<Rightarrow> bytes" where
  "encode_w_page_request m = finish
     ((if w_page_request_page_id m \<noteq> [] then put_string 1 (w_page_request_page_id m) else []) @
      (if w_page_request_generation m \<noteq> 0 then put_varint 2 (w_page_request_generation m) else []) @
      (if w_page_request_width m \<noteq> 0 then put_varint 3 (ucast (w_page_request_width m)) else []) @
      (if w_page_request_height m \<noteq> 0 then put_varint 4 (ucast (w_page_request_height m)) else []) @
      concat (map (put_message encode_w_page_input 5) (w_page_request_events m)) @
      (if w_page_request_focused m then put_varint 6 1 else []) @
      (if w_page_request_colour_surface m \<noteq> 0 then put_varint 7 (ucast (w_page_request_colour_surface m)) else []) @
      (if w_page_request_colour_text m \<noteq> 0 then put_varint 8 (ucast (w_page_request_colour_text m)) else []) @
      (if w_page_request_colour_accent m \<noteq> 0 then put_varint 9 (ucast (w_page_request_colour_accent m)) else []) @
      (if w_page_request_colour_muted m \<noteq> 0 then put_varint 10 (ucast (w_page_request_colour_muted m)) else [])) (w_page_request_unknown m)"

definition w_page_request_field :: "layout \<Rightarrow> field \<Rightarrow> w_page_request \<Rightarrow> decode_budget \<Rightarrow> protocol_error + (w_page_request \<times> decode_budget)" where
  "w_page_request_field lay f m b =
     (if fd_number f = 1 then assign_in (decode_string f b) (\<lambda>v. m\<lparr>w_page_request_page_id := v\<rparr>)
      else if fd_number f = 2 then assign (decode_field_varint f) (\<lambda>v. m\<lparr>w_page_request_generation := v\<rparr>) b
      else if fd_number f = 3 then assign (decode_u32 f) (\<lambda>v. m\<lparr>w_page_request_width := v\<rparr>) b
      else if fd_number f = 4 then assign (decode_u32 f) (\<lambda>v. m\<lparr>w_page_request_height := v\<rparr>) b
      else if fd_number f = 5 then push_field (size_page_input lay) (nested (read_w_page_input) f b) (w_page_request_events m) (\<lambda>v. m\<lparr>w_page_request_events := v\<rparr>)
      else if fd_number f = 6 then assign (decode_field_varint f) (\<lambda>v. m\<lparr>w_page_request_focused := v \<noteq> 0\<rparr>) b
      else if fd_number f = 7 then assign (decode_u32 f) (\<lambda>v. m\<lparr>w_page_request_colour_surface := v\<rparr>) b
      else if fd_number f = 8 then assign (decode_u32 f) (\<lambda>v. m\<lparr>w_page_request_colour_text := v\<rparr>) b
      else if fd_number f = 9 then assign (decode_u32 f) (\<lambda>v. m\<lparr>w_page_request_colour_accent := v\<rparr>) b
      else if fd_number f = 10 then assign (decode_u32 f) (\<lambda>v. m\<lparr>w_page_request_colour_muted := v\<rparr>) b
      else keep_unknown f (w_page_request_unknown m) (\<lambda>u. m\<lparr>w_page_request_unknown := u\<rparr>) b)"

definition read_w_page_request :: "layout \<Rightarrow> bytes \<Rightarrow> decode_budget \<Rightarrow> protocol_error + (w_page_request \<times> decode_budget)" where
  "read_w_page_request lay = decode_with_budget (w_page_request_field lay) default_w_page_request"

record w_page_web_surface =
  w_page_web_surface_url :: utf8
  w_page_web_surface_storage :: w_web_storage_mode
  w_page_web_surface_unknown :: unknown_fields

definition default_w_page_web_surface :: w_page_web_surface where
  "default_w_page_web_surface =
     \<lparr>w_page_web_surface_url = [], w_page_web_surface_storage = WebStorageMode_ModeUnspecified, w_page_web_surface_unknown = []\<rparr>"

definition encode_w_page_web_surface :: "w_page_web_surface \<Rightarrow> bytes" where
  "encode_w_page_web_surface m = finish
     ((if w_page_web_surface_url m \<noteq> [] then put_string 1 (w_page_web_surface_url m) else []) @
      (if w_web_storage_mode_as_i32 (w_page_web_surface_storage m) \<noteq> 0 then encode_enum 2 (w_web_storage_mode_as_i32 (w_page_web_surface_storage m)) else [])) (w_page_web_surface_unknown m)"

definition w_page_web_surface_field :: "field \<Rightarrow> w_page_web_surface \<Rightarrow> decode_budget \<Rightarrow> protocol_error + (w_page_web_surface \<times> decode_budget)" where
  "w_page_web_surface_field f m b =
     (if fd_number f = 1 then assign_in (decode_string f b) (\<lambda>v. m\<lparr>w_page_web_surface_url := v\<rparr>)
      else if fd_number f = 2 then assign (decode_i32 f) (\<lambda>v. m\<lparr>w_page_web_surface_storage := w_web_storage_mode_from_i32 v\<rparr>) b
      else keep_unknown f (w_page_web_surface_unknown m) (\<lambda>u. m\<lparr>w_page_web_surface_unknown := u\<rparr>) b)"

definition read_w_page_web_surface :: "bytes \<Rightarrow> decode_budget \<Rightarrow> protocol_error + (w_page_web_surface \<times> decode_budget)" where
  "read_w_page_web_surface = decode_with_budget w_page_web_surface_field default_w_page_web_surface"

record w_page_frame =
  w_page_frame_generation :: u64
  w_page_frame_title :: utf8
  w_page_frame_nodes :: "w_page_node list"
  w_page_frame_focus_node :: u32
  w_page_frame_redraw_after_ms :: u32
  w_page_frame_close :: bool
  w_page_frame_web :: "w_page_web_surface option"
  w_page_frame_unknown :: unknown_fields

definition default_w_page_frame :: w_page_frame where
  "default_w_page_frame =
     \<lparr>w_page_frame_generation = 0, w_page_frame_title = [], w_page_frame_nodes = [], w_page_frame_focus_node = 0, w_page_frame_redraw_after_ms = 0, w_page_frame_close = False, w_page_frame_web = None, w_page_frame_unknown = []\<rparr>"

definition encode_w_page_frame :: "w_page_frame \<Rightarrow> bytes" where
  "encode_w_page_frame m = finish
     ((if w_page_frame_generation m \<noteq> 0 then put_varint 1 (w_page_frame_generation m) else []) @
      (if w_page_frame_title m \<noteq> [] then put_string 2 (w_page_frame_title m) else []) @
      concat (map (put_message encode_w_page_node 3) (w_page_frame_nodes m)) @
      (if w_page_frame_focus_node m \<noteq> 0 then put_varint 4 (ucast (w_page_frame_focus_node m)) else []) @
      (if w_page_frame_redraw_after_ms m \<noteq> 0 then put_varint 5 (ucast (w_page_frame_redraw_after_ms m)) else []) @
      (if w_page_frame_close m then put_varint 6 1 else []) @
      put_optional (put_message encode_w_page_web_surface 7) (w_page_frame_web m)) (w_page_frame_unknown m)"

definition w_page_frame_field :: "layout \<Rightarrow> field \<Rightarrow> w_page_frame \<Rightarrow> decode_budget \<Rightarrow> protocol_error + (w_page_frame \<times> decode_budget)" where
  "w_page_frame_field lay f m b =
     (if fd_number f = 1 then assign (decode_field_varint f) (\<lambda>v. m\<lparr>w_page_frame_generation := v\<rparr>) b
      else if fd_number f = 2 then assign_in (decode_string f b) (\<lambda>v. m\<lparr>w_page_frame_title := v\<rparr>)
      else if fd_number f = 3 then push_field (size_page_node lay) (nested (read_w_page_node) f b) (w_page_frame_nodes m) (\<lambda>v. m\<lparr>w_page_frame_nodes := v\<rparr>)
      else if fd_number f = 4 then assign (decode_u32 f) (\<lambda>v. m\<lparr>w_page_frame_focus_node := v\<rparr>) b
      else if fd_number f = 5 then assign (decode_u32 f) (\<lambda>v. m\<lparr>w_page_frame_redraw_after_ms := v\<rparr>) b
      else if fd_number f = 6 then assign (decode_field_varint f) (\<lambda>v. m\<lparr>w_page_frame_close := v \<noteq> 0\<rparr>) b
      else if fd_number f = 7 then assign_in (case w_page_frame_web m of
                  Some web \<Rightarrow> nested (merge_with_budget w_page_web_surface_field web) f b
                | None \<Rightarrow> nested read_w_page_web_surface f b) (\<lambda>v. m\<lparr>w_page_frame_web := Some v\<rparr>)
      else keep_unknown f (w_page_frame_unknown m) (\<lambda>u. m\<lparr>w_page_frame_unknown := u\<rparr>) b)"

definition read_w_page_frame :: "layout \<Rightarrow> bytes \<Rightarrow> decode_budget \<Rightarrow> protocol_error + (w_page_frame \<times> decode_budget)" where
  "read_w_page_frame lay = decode_with_budget (w_page_frame_field lay) default_w_page_frame"

section \<open>Web surfaces\<close>

record w_open_surface =
  w_open_surface_surface_id :: u64
  w_open_surface_pixel_width :: u32
  w_open_surface_pixel_height :: u32
  w_open_surface_url :: utf8
  w_open_surface_storage_mode :: w_web_storage_mode
  w_open_surface_unknown :: unknown_fields

definition default_w_open_surface :: w_open_surface where
  "default_w_open_surface =
     \<lparr>w_open_surface_surface_id = 0, w_open_surface_pixel_width = 0, w_open_surface_pixel_height = 0, w_open_surface_url = [], w_open_surface_storage_mode = WebStorageMode_ModeUnspecified, w_open_surface_unknown = []\<rparr>"

definition encode_w_open_surface :: "w_open_surface \<Rightarrow> bytes" where
  "encode_w_open_surface m = finish
     ((if w_open_surface_surface_id m \<noteq> 0 then put_varint 1 (w_open_surface_surface_id m) else []) @
      (if w_open_surface_pixel_width m \<noteq> 0 then put_varint 2 (ucast (w_open_surface_pixel_width m)) else []) @
      (if w_open_surface_pixel_height m \<noteq> 0 then put_varint 3 (ucast (w_open_surface_pixel_height m)) else []) @
      (if w_open_surface_url m \<noteq> [] then put_string 4 (w_open_surface_url m) else []) @
      (if w_web_storage_mode_as_i32 (w_open_surface_storage_mode m) \<noteq> 0 then encode_enum 5 (w_web_storage_mode_as_i32 (w_open_surface_storage_mode m)) else [])) (w_open_surface_unknown m)"

definition w_open_surface_field :: "field \<Rightarrow> w_open_surface \<Rightarrow> decode_budget \<Rightarrow> protocol_error + (w_open_surface \<times> decode_budget)" where
  "w_open_surface_field f m b =
     (if fd_number f = 1 then assign (decode_field_varint f) (\<lambda>v. m\<lparr>w_open_surface_surface_id := v\<rparr>) b
      else if fd_number f = 2 then assign (decode_u32 f) (\<lambda>v. m\<lparr>w_open_surface_pixel_width := v\<rparr>) b
      else if fd_number f = 3 then assign (decode_u32 f) (\<lambda>v. m\<lparr>w_open_surface_pixel_height := v\<rparr>) b
      else if fd_number f = 4 then assign_in (decode_string f b) (\<lambda>v. m\<lparr>w_open_surface_url := v\<rparr>)
      else if fd_number f = 5 then assign (decode_i32 f) (\<lambda>v. m\<lparr>w_open_surface_storage_mode := w_web_storage_mode_from_i32 v\<rparr>) b
      else keep_unknown f (w_open_surface_unknown m) (\<lambda>u. m\<lparr>w_open_surface_unknown := u\<rparr>) b)"

definition read_w_open_surface :: "bytes \<Rightarrow> decode_budget \<Rightarrow> protocol_error + (w_open_surface \<times> decode_budget)" where
  "read_w_open_surface = decode_with_budget w_open_surface_field default_w_open_surface"

record w_raw_input =
  w_raw_input_surface_id :: u64
  w_raw_input_kind :: w_web_input_code
  w_raw_input_timestamp_ms :: u64
  w_raw_input_x :: f32
  w_raw_input_y :: f32
  w_raw_input_keysym :: u32
  w_raw_input_hardware_keycode :: u32
  w_raw_input_repeat :: bool
  w_raw_input_modifiers :: u32
  w_raw_input_button :: u32
  w_raw_input_press_count :: u32
  w_raw_input_delta_x :: f32
  w_raw_input_delta_y :: f32
  w_raw_input_precise :: bool
  w_raw_input_stop :: bool
  w_raw_input_unknown :: unknown_fields

definition default_w_raw_input :: w_raw_input where
  "default_w_raw_input =
     \<lparr>w_raw_input_surface_id = 0, w_raw_input_kind = WebInputCode_KindUnspecified, w_raw_input_timestamp_ms = 0, w_raw_input_x = 0, w_raw_input_y = 0, w_raw_input_keysym = 0, w_raw_input_hardware_keycode = 0, w_raw_input_repeat = False, w_raw_input_modifiers = 0, w_raw_input_button = 0, w_raw_input_press_count = 0, w_raw_input_delta_x = 0, w_raw_input_delta_y = 0, w_raw_input_precise = False, w_raw_input_stop = False, w_raw_input_unknown = []\<rparr>"

definition encode_w_raw_input :: "w_raw_input \<Rightarrow> bytes" where
  "encode_w_raw_input m = finish
     ((if w_raw_input_surface_id m \<noteq> 0 then put_varint 1 (w_raw_input_surface_id m) else []) @
      (if w_web_input_code_as_i32 (w_raw_input_kind m) \<noteq> 0 then encode_enum 2 (w_web_input_code_as_i32 (w_raw_input_kind m)) else []) @
      (if w_raw_input_timestamp_ms m \<noteq> 0 then put_varint 3 (w_raw_input_timestamp_ms m) else []) @
      (if f32_nonzero (w_raw_input_x m) then put_f32 4 (w_raw_input_x m) else []) @
      (if f32_nonzero (w_raw_input_y m) then put_f32 5 (w_raw_input_y m) else []) @
      (if w_raw_input_keysym m \<noteq> 0 then put_varint 6 (ucast (w_raw_input_keysym m)) else []) @
      (if w_raw_input_hardware_keycode m \<noteq> 0 then put_varint 7 (ucast (w_raw_input_hardware_keycode m)) else []) @
      (if w_raw_input_repeat m then put_varint 8 1 else []) @
      (if w_raw_input_modifiers m \<noteq> 0 then put_varint 9 (ucast (w_raw_input_modifiers m)) else []) @
      (if w_raw_input_button m \<noteq> 0 then put_varint 10 (ucast (w_raw_input_button m)) else []) @
      (if w_raw_input_press_count m \<noteq> 0 then put_varint 11 (ucast (w_raw_input_press_count m)) else []) @
      (if f32_nonzero (w_raw_input_delta_x m) then put_f32 12 (w_raw_input_delta_x m) else []) @
      (if f32_nonzero (w_raw_input_delta_y m) then put_f32 13 (w_raw_input_delta_y m) else []) @
      (if w_raw_input_precise m then put_varint 14 1 else []) @
      (if w_raw_input_stop m then put_varint 15 1 else [])) (w_raw_input_unknown m)"

definition w_raw_input_field :: "field \<Rightarrow> w_raw_input \<Rightarrow> decode_budget \<Rightarrow> protocol_error + (w_raw_input \<times> decode_budget)" where
  "w_raw_input_field f m b =
     (if fd_number f = 1 then assign (decode_field_varint f) (\<lambda>v. m\<lparr>w_raw_input_surface_id := v\<rparr>) b
      else if fd_number f = 2 then assign (decode_i32 f) (\<lambda>v. m\<lparr>w_raw_input_kind := w_web_input_code_from_i32 v\<rparr>) b
      else if fd_number f = 3 then assign (decode_field_varint f) (\<lambda>v. m\<lparr>w_raw_input_timestamp_ms := v\<rparr>) b
      else if fd_number f = 4 then assign (decode_f32 f) (\<lambda>v. m\<lparr>w_raw_input_x := v\<rparr>) b
      else if fd_number f = 5 then assign (decode_f32 f) (\<lambda>v. m\<lparr>w_raw_input_y := v\<rparr>) b
      else if fd_number f = 6 then assign (decode_u32 f) (\<lambda>v. m\<lparr>w_raw_input_keysym := v\<rparr>) b
      else if fd_number f = 7 then assign (decode_u32 f) (\<lambda>v. m\<lparr>w_raw_input_hardware_keycode := v\<rparr>) b
      else if fd_number f = 8 then assign (decode_field_varint f) (\<lambda>v. m\<lparr>w_raw_input_repeat := v \<noteq> 0\<rparr>) b
      else if fd_number f = 9 then assign (decode_u32 f) (\<lambda>v. m\<lparr>w_raw_input_modifiers := v\<rparr>) b
      else if fd_number f = 10 then assign (decode_u32 f) (\<lambda>v. m\<lparr>w_raw_input_button := v\<rparr>) b
      else if fd_number f = 11 then assign (decode_u32 f) (\<lambda>v. m\<lparr>w_raw_input_press_count := v\<rparr>) b
      else if fd_number f = 12 then assign (decode_f32 f) (\<lambda>v. m\<lparr>w_raw_input_delta_x := v\<rparr>) b
      else if fd_number f = 13 then assign (decode_f32 f) (\<lambda>v. m\<lparr>w_raw_input_delta_y := v\<rparr>) b
      else if fd_number f = 14 then assign (decode_field_varint f) (\<lambda>v. m\<lparr>w_raw_input_precise := v \<noteq> 0\<rparr>) b
      else if fd_number f = 15 then assign (decode_field_varint f) (\<lambda>v. m\<lparr>w_raw_input_stop := v \<noteq> 0\<rparr>) b
      else keep_unknown f (w_raw_input_unknown m) (\<lambda>u. m\<lparr>w_raw_input_unknown := u\<rparr>) b)"

definition read_w_raw_input :: "bytes \<Rightarrow> decode_budget \<Rightarrow> protocol_error + (w_raw_input \<times> decode_budget)" where
  "read_w_raw_input = decode_with_budget w_raw_input_field default_w_raw_input"

record w_ime_event =
  w_ime_event_surface_id :: u64
  w_ime_event_kind :: w_web_ime_code
  w_ime_event_text :: utf8
  w_ime_event_cursor_begin_chars :: u32
  w_ime_event_cursor_end_chars :: u32
  w_ime_event_has_cursor :: bool
  w_ime_event_unknown :: unknown_fields

definition default_w_ime_event :: w_ime_event where
  "default_w_ime_event =
     \<lparr>w_ime_event_surface_id = 0, w_ime_event_kind = WebImeCode_KindUnspecified, w_ime_event_text = [], w_ime_event_cursor_begin_chars = 0, w_ime_event_cursor_end_chars = 0, w_ime_event_has_cursor = False, w_ime_event_unknown = []\<rparr>"

definition encode_w_ime_event :: "w_ime_event \<Rightarrow> bytes" where
  "encode_w_ime_event m = finish
     ((if w_ime_event_surface_id m \<noteq> 0 then put_varint 1 (w_ime_event_surface_id m) else []) @
      (if w_web_ime_code_as_i32 (w_ime_event_kind m) \<noteq> 0 then encode_enum 2 (w_web_ime_code_as_i32 (w_ime_event_kind m)) else []) @
      (if w_ime_event_text m \<noteq> [] then put_string 3 (w_ime_event_text m) else []) @
      (if w_ime_event_cursor_begin_chars m \<noteq> 0 then put_varint 4 (ucast (w_ime_event_cursor_begin_chars m)) else []) @
      (if w_ime_event_cursor_end_chars m \<noteq> 0 then put_varint 5 (ucast (w_ime_event_cursor_end_chars m)) else []) @
      (if w_ime_event_has_cursor m then put_varint 6 1 else [])) (w_ime_event_unknown m)"

definition w_ime_event_field :: "field \<Rightarrow> w_ime_event \<Rightarrow> decode_budget \<Rightarrow> protocol_error + (w_ime_event \<times> decode_budget)" where
  "w_ime_event_field f m b =
     (if fd_number f = 1 then assign (decode_field_varint f) (\<lambda>v. m\<lparr>w_ime_event_surface_id := v\<rparr>) b
      else if fd_number f = 2 then assign (decode_i32 f) (\<lambda>v. m\<lparr>w_ime_event_kind := w_web_ime_code_from_i32 v\<rparr>) b
      else if fd_number f = 3 then assign_in (decode_string f b) (\<lambda>v. m\<lparr>w_ime_event_text := v\<rparr>)
      else if fd_number f = 4 then assign (decode_u32 f) (\<lambda>v. m\<lparr>w_ime_event_cursor_begin_chars := v\<rparr>) b
      else if fd_number f = 5 then assign (decode_u32 f) (\<lambda>v. m\<lparr>w_ime_event_cursor_end_chars := v\<rparr>) b
      else if fd_number f = 6 then assign (decode_field_varint f) (\<lambda>v. m\<lparr>w_ime_event_has_cursor := v \<noteq> 0\<rparr>) b
      else keep_unknown f (w_ime_event_unknown m) (\<lambda>u. m\<lparr>w_ime_event_unknown := u\<rparr>) b)"

definition read_w_ime_event :: "bytes \<Rightarrow> decode_budget \<Rightarrow> protocol_error + (w_ime_event \<times> decode_budget)" where
  "read_w_ime_event = decode_with_budget w_ime_event_field default_w_ime_event"

record w_navigate =
  w_navigate_surface_id :: u64
  w_navigate_url :: utf8
  w_navigate_unknown :: unknown_fields

definition default_w_navigate :: w_navigate where
  "default_w_navigate =
     \<lparr>w_navigate_surface_id = 0, w_navigate_url = [], w_navigate_unknown = []\<rparr>"

definition encode_w_navigate :: "w_navigate \<Rightarrow> bytes" where
  "encode_w_navigate m = finish
     ((if w_navigate_surface_id m \<noteq> 0 then put_varint 1 (w_navigate_surface_id m) else []) @
      (if w_navigate_url m \<noteq> [] then put_string 2 (w_navigate_url m) else [])) (w_navigate_unknown m)"

definition w_navigate_field :: "field \<Rightarrow> w_navigate \<Rightarrow> decode_budget \<Rightarrow> protocol_error + (w_navigate \<times> decode_budget)" where
  "w_navigate_field f m b =
     (if fd_number f = 1 then assign (decode_field_varint f) (\<lambda>v. m\<lparr>w_navigate_surface_id := v\<rparr>) b
      else if fd_number f = 2 then assign_in (decode_string f b) (\<lambda>v. m\<lparr>w_navigate_url := v\<rparr>)
      else keep_unknown f (w_navigate_unknown m) (\<lambda>u. m\<lparr>w_navigate_unknown := u\<rparr>) b)"

definition read_w_navigate :: "bytes \<Rightarrow> decode_budget \<Rightarrow> protocol_error + (w_navigate \<times> decode_budget)" where
  "read_w_navigate = decode_with_budget w_navigate_field default_w_navigate"

record w_resize =
  w_resize_surface_id :: u64
  w_resize_pixel_width :: u32
  w_resize_pixel_height :: u32
  w_resize_unknown :: unknown_fields

definition default_w_resize :: w_resize where
  "default_w_resize =
     \<lparr>w_resize_surface_id = 0, w_resize_pixel_width = 0, w_resize_pixel_height = 0, w_resize_unknown = []\<rparr>"

definition encode_w_resize :: "w_resize \<Rightarrow> bytes" where
  "encode_w_resize m = finish
     ((if w_resize_surface_id m \<noteq> 0 then put_varint 1 (w_resize_surface_id m) else []) @
      (if w_resize_pixel_width m \<noteq> 0 then put_varint 2 (ucast (w_resize_pixel_width m)) else []) @
      (if w_resize_pixel_height m \<noteq> 0 then put_varint 3 (ucast (w_resize_pixel_height m)) else [])) (w_resize_unknown m)"

definition w_resize_field :: "field \<Rightarrow> w_resize \<Rightarrow> decode_budget \<Rightarrow> protocol_error + (w_resize \<times> decode_budget)" where
  "w_resize_field f m b =
     (if fd_number f = 1 then assign (decode_field_varint f) (\<lambda>v. m\<lparr>w_resize_surface_id := v\<rparr>) b
      else if fd_number f = 2 then assign (decode_u32 f) (\<lambda>v. m\<lparr>w_resize_pixel_width := v\<rparr>) b
      else if fd_number f = 3 then assign (decode_u32 f) (\<lambda>v. m\<lparr>w_resize_pixel_height := v\<rparr>) b
      else keep_unknown f (w_resize_unknown m) (\<lambda>u. m\<lparr>w_resize_unknown := u\<rparr>) b)"

definition read_w_resize :: "bytes \<Rightarrow> decode_budget \<Rightarrow> protocol_error + (w_resize \<times> decode_budget)" where
  "read_w_resize = decode_with_budget w_resize_field default_w_resize"

record w_close_surface =
  w_close_surface_surface_id :: u64
  w_close_surface_reason :: utf8
  w_close_surface_unknown :: unknown_fields

definition default_w_close_surface :: w_close_surface where
  "default_w_close_surface =
     \<lparr>w_close_surface_surface_id = 0, w_close_surface_reason = [], w_close_surface_unknown = []\<rparr>"

definition encode_w_close_surface :: "w_close_surface \<Rightarrow> bytes" where
  "encode_w_close_surface m = finish
     ((if w_close_surface_surface_id m \<noteq> 0 then put_varint 1 (w_close_surface_surface_id m) else []) @
      (if w_close_surface_reason m \<noteq> [] then put_string 2 (w_close_surface_reason m) else [])) (w_close_surface_unknown m)"

definition w_close_surface_field :: "field \<Rightarrow> w_close_surface \<Rightarrow> decode_budget \<Rightarrow> protocol_error + (w_close_surface \<times> decode_budget)" where
  "w_close_surface_field f m b =
     (if fd_number f = 1 then assign (decode_field_varint f) (\<lambda>v. m\<lparr>w_close_surface_surface_id := v\<rparr>) b
      else if fd_number f = 2 then assign_in (decode_string f b) (\<lambda>v. m\<lparr>w_close_surface_reason := v\<rparr>)
      else keep_unknown f (w_close_surface_unknown m) (\<lambda>u. m\<lparr>w_close_surface_unknown := u\<rparr>) b)"

definition read_w_close_surface :: "bytes \<Rightarrow> decode_budget \<Rightarrow> protocol_error + (w_close_surface \<times> decode_budget)" where
  "read_w_close_surface = decode_with_budget w_close_surface_field default_w_close_surface"

record w_web_frame =
  w_web_frame_surface_id :: u64
  w_web_frame_generation :: u64
  w_web_frame_pixel_width :: u32
  w_web_frame_pixel_height :: u32
  w_web_frame_rgba8 :: bytes
  w_web_frame_unknown :: unknown_fields

definition default_w_web_frame :: w_web_frame where
  "default_w_web_frame =
     \<lparr>w_web_frame_surface_id = 0, w_web_frame_generation = 0, w_web_frame_pixel_width = 0, w_web_frame_pixel_height = 0, w_web_frame_rgba8 = [], w_web_frame_unknown = []\<rparr>"

definition encode_w_web_frame :: "w_web_frame \<Rightarrow> bytes" where
  "encode_w_web_frame m = finish
     ((if w_web_frame_surface_id m \<noteq> 0 then put_varint 1 (w_web_frame_surface_id m) else []) @
      (if w_web_frame_generation m \<noteq> 0 then put_varint 2 (w_web_frame_generation m) else []) @
      (if w_web_frame_pixel_width m \<noteq> 0 then put_varint 3 (ucast (w_web_frame_pixel_width m)) else []) @
      (if w_web_frame_pixel_height m \<noteq> 0 then put_varint 4 (ucast (w_web_frame_pixel_height m)) else []) @
      (if w_web_frame_rgba8 m \<noteq> [] then put_bytes 5 (w_web_frame_rgba8 m) else [])) (w_web_frame_unknown m)"

definition w_web_frame_field :: "field \<Rightarrow> w_web_frame \<Rightarrow> decode_budget \<Rightarrow> protocol_error + (w_web_frame \<times> decode_budget)" where
  "w_web_frame_field f m b =
     (if fd_number f = 1 then assign (decode_field_varint f) (\<lambda>v. m\<lparr>w_web_frame_surface_id := v\<rparr>) b
      else if fd_number f = 2 then assign (decode_field_varint f) (\<lambda>v. m\<lparr>w_web_frame_generation := v\<rparr>) b
      else if fd_number f = 3 then assign (decode_u32 f) (\<lambda>v. m\<lparr>w_web_frame_pixel_width := v\<rparr>) b
      else if fd_number f = 4 then assign (decode_u32 f) (\<lambda>v. m\<lparr>w_web_frame_pixel_height := v\<rparr>) b
      else if fd_number f = 5 then assign_in (decode_bytes f b) (\<lambda>v. m\<lparr>w_web_frame_rgba8 := v\<rparr>)
      else keep_unknown f (w_web_frame_unknown m) (\<lambda>u. m\<lparr>w_web_frame_unknown := u\<rparr>) b)"

definition read_w_web_frame :: "bytes \<Rightarrow> decode_budget \<Rightarrow> protocol_error + (w_web_frame \<times> decode_budget)" where
  "read_w_web_frame = decode_with_budget w_web_frame_field default_w_web_frame"

record w_caret_area =
  w_caret_area_surface_id :: u64
  w_caret_area_x :: f32
  w_caret_area_y :: f32
  w_caret_area_width :: f32
  w_caret_area_height :: f32
  w_caret_area_unknown :: unknown_fields

definition default_w_caret_area :: w_caret_area where
  "default_w_caret_area =
     \<lparr>w_caret_area_surface_id = 0, w_caret_area_x = 0, w_caret_area_y = 0, w_caret_area_width = 0, w_caret_area_height = 0, w_caret_area_unknown = []\<rparr>"

definition encode_w_caret_area :: "w_caret_area \<Rightarrow> bytes" where
  "encode_w_caret_area m = finish
     ((if w_caret_area_surface_id m \<noteq> 0 then put_varint 1 (w_caret_area_surface_id m) else []) @
      (if f32_nonzero (w_caret_area_x m) then put_f32 2 (w_caret_area_x m) else []) @
      (if f32_nonzero (w_caret_area_y m) then put_f32 3 (w_caret_area_y m) else []) @
      (if f32_nonzero (w_caret_area_width m) then put_f32 4 (w_caret_area_width m) else []) @
      (if f32_nonzero (w_caret_area_height m) then put_f32 5 (w_caret_area_height m) else [])) (w_caret_area_unknown m)"

definition w_caret_area_field :: "field \<Rightarrow> w_caret_area \<Rightarrow> decode_budget \<Rightarrow> protocol_error + (w_caret_area \<times> decode_budget)" where
  "w_caret_area_field f m b =
     (if fd_number f = 1 then assign (decode_field_varint f) (\<lambda>v. m\<lparr>w_caret_area_surface_id := v\<rparr>) b
      else if fd_number f = 2 then assign (decode_f32 f) (\<lambda>v. m\<lparr>w_caret_area_x := v\<rparr>) b
      else if fd_number f = 3 then assign (decode_f32 f) (\<lambda>v. m\<lparr>w_caret_area_y := v\<rparr>) b
      else if fd_number f = 4 then assign (decode_f32 f) (\<lambda>v. m\<lparr>w_caret_area_width := v\<rparr>) b
      else if fd_number f = 5 then assign (decode_f32 f) (\<lambda>v. m\<lparr>w_caret_area_height := v\<rparr>) b
      else keep_unknown f (w_caret_area_unknown m) (\<lambda>u. m\<lparr>w_caret_area_unknown := u\<rparr>) b)"

definition read_w_caret_area :: "bytes \<Rightarrow> decode_budget \<Rightarrow> protocol_error + (w_caret_area \<times> decode_budget)" where
  "read_w_caret_area = decode_with_budget w_caret_area_field default_w_caret_area"

record w_load_state =
  w_load_state_surface_id :: u64
  w_load_state_state :: w_web_load_code
  w_load_state_url :: utf8
  w_load_state_failure :: utf8
  w_load_state_can_go_back :: bool
  w_load_state_can_go_forward :: bool
  w_load_state_title :: utf8
  w_load_state_unknown :: unknown_fields

definition default_w_load_state :: w_load_state where
  "default_w_load_state =
     \<lparr>w_load_state_surface_id = 0, w_load_state_state = WebLoadCode_StateUnspecified, w_load_state_url = [], w_load_state_failure = [], w_load_state_can_go_back = False, w_load_state_can_go_forward = False, w_load_state_title = [], w_load_state_unknown = []\<rparr>"

definition encode_w_load_state :: "w_load_state \<Rightarrow> bytes" where
  "encode_w_load_state m = finish
     ((if w_load_state_surface_id m \<noteq> 0 then put_varint 1 (w_load_state_surface_id m) else []) @
      (if w_web_load_code_as_i32 (w_load_state_state m) \<noteq> 0 then encode_enum 2 (w_web_load_code_as_i32 (w_load_state_state m)) else []) @
      (if w_load_state_url m \<noteq> [] then put_string 3 (w_load_state_url m) else []) @
      (if w_load_state_failure m \<noteq> [] then put_string 4 (w_load_state_failure m) else []) @
      (if w_load_state_can_go_back m then put_varint 5 1 else []) @
      (if w_load_state_can_go_forward m then put_varint 6 1 else []) @
      (if w_load_state_title m \<noteq> [] then put_string 7 (w_load_state_title m) else [])) (w_load_state_unknown m)"

definition w_load_state_field :: "field \<Rightarrow> w_load_state \<Rightarrow> decode_budget \<Rightarrow> protocol_error + (w_load_state \<times> decode_budget)" where
  "w_load_state_field f m b =
     (if fd_number f = 1 then assign (decode_field_varint f) (\<lambda>v. m\<lparr>w_load_state_surface_id := v\<rparr>) b
      else if fd_number f = 2 then assign (decode_i32 f) (\<lambda>v. m\<lparr>w_load_state_state := w_web_load_code_from_i32 v\<rparr>) b
      else if fd_number f = 3 then assign_in (decode_string f b) (\<lambda>v. m\<lparr>w_load_state_url := v\<rparr>)
      else if fd_number f = 4 then assign_in (decode_string f b) (\<lambda>v. m\<lparr>w_load_state_failure := v\<rparr>)
      else if fd_number f = 5 then assign (decode_field_varint f) (\<lambda>v. m\<lparr>w_load_state_can_go_back := v \<noteq> 0\<rparr>) b
      else if fd_number f = 6 then assign (decode_field_varint f) (\<lambda>v. m\<lparr>w_load_state_can_go_forward := v \<noteq> 0\<rparr>) b
      else if fd_number f = 7 then assign_in (decode_string f b) (\<lambda>v. m\<lparr>w_load_state_title := v\<rparr>)
      else keep_unknown f (w_load_state_unknown m) (\<lambda>u. m\<lparr>w_load_state_unknown := u\<rparr>) b)"

definition read_w_load_state :: "bytes \<Rightarrow> decode_budget \<Rightarrow> protocol_error + (w_load_state \<times> decode_budget)" where
  "read_w_load_state = decode_with_budget w_load_state_field default_w_load_state"

record w_gone =
  w_gone_surface_id :: u64
  w_gone_reason :: w_web_gone_code
  w_gone_detail :: utf8
  w_gone_unknown :: unknown_fields

definition default_w_gone :: w_gone where
  "default_w_gone =
     \<lparr>w_gone_surface_id = 0, w_gone_reason = WebGoneCode_ReasonUnspecified, w_gone_detail = [], w_gone_unknown = []\<rparr>"

definition encode_w_gone :: "w_gone \<Rightarrow> bytes" where
  "encode_w_gone m = finish
     ((if w_gone_surface_id m \<noteq> 0 then put_varint 1 (w_gone_surface_id m) else []) @
      (if w_web_gone_code_as_i32 (w_gone_reason m) \<noteq> 0 then encode_enum 2 (w_web_gone_code_as_i32 (w_gone_reason m)) else []) @
      (if w_gone_detail m \<noteq> [] then put_string 3 (w_gone_detail m) else [])) (w_gone_unknown m)"

definition w_gone_field :: "field \<Rightarrow> w_gone \<Rightarrow> decode_budget \<Rightarrow> protocol_error + (w_gone \<times> decode_budget)" where
  "w_gone_field f m b =
     (if fd_number f = 1 then assign (decode_field_varint f) (\<lambda>v. m\<lparr>w_gone_surface_id := v\<rparr>) b
      else if fd_number f = 2 then assign (decode_i32 f) (\<lambda>v. m\<lparr>w_gone_reason := w_web_gone_code_from_i32 v\<rparr>) b
      else if fd_number f = 3 then assign_in (decode_string f b) (\<lambda>v. m\<lparr>w_gone_detail := v\<rparr>)
      else keep_unknown f (w_gone_unknown m) (\<lambda>u. m\<lparr>w_gone_unknown := u\<rparr>) b)"

definition read_w_gone :: "bytes \<Rightarrow> decode_budget \<Rightarrow> protocol_error + (w_gone \<times> decode_budget)" where
  "read_w_gone = decode_with_budget w_gone_field default_w_gone"

section \<open>Validating a web frame\<close>

definition max_web_frame_bytes :: nat where
  "max_web_frame_bytes = 2 * 1024 * 1024"

definition max_web_frame_edge :: u32 where
  "max_web_frame_edge = 4096"

datatype web_frame_error =
    EdgeOutOfRange u32 u32
  | ByteCountMismatch nat nat
  | TooLarge nat

definition web_frame_validate :: "w_web_frame \<Rightarrow> web_frame_error option" where
  "web_frame_validate m =
     (if w_web_frame_pixel_width m = 0 \<or> w_web_frame_pixel_height m = 0
         \<or> max_web_frame_edge < w_web_frame_pixel_width m \<or> max_web_frame_edge < w_web_frame_pixel_height m
      then Some (EdgeOutOfRange (w_web_frame_pixel_width m) (w_web_frame_pixel_height m))
      else let expected = unat (w_web_frame_pixel_width m) * unat (w_web_frame_pixel_height m) * 4 in
           if expected \<noteq> length (w_web_frame_rgba8 m) then Some (ByteCountMismatch expected (length (w_web_frame_rgba8 m)))
           else if max_web_frame_bytes < expected then Some (TooLarge expected)
           else None)"

section \<open>The envelope\<close>

datatype payload =
    PayHandshake w_handshake
  | PayHandshakeAck w_handshake_ack
  | PaySuggest w_suggest_request
  | PayResults w_result_batch
  | PayCancel w_cancel
  | PayShutdown w_shutdown
  | PayCatalogRequest w_catalog_request
  | PayCatalogBatch w_catalog_batch
  | PayExecute w_execute_request
  | PayExecuteResult w_execute_result
  | PayConfiguration w_configuration_change
  | PayEvent w_event
  | PayLog w_log_record
  | PayHealthCheck w_health_check
  | PayHealthReport w_health_report
  | PayError w_structured_error
  | PayFlow w_flow_control
  | PayResourceRequest w_resource_request
  | PayResourceResponse w_resource_response
  | PayLifecycle w_lifecycle
  | PayLifecycleAck w_lifecycle_ack
  | PayPageRequest w_page_request
  | PayPageFrame w_page_frame
  | PayOpenSurface w_open_surface
  | PayRawInput w_raw_input
  | PayImeEvent w_ime_event
  | PayNavigate w_navigate
  | PayResize w_resize
  | PayCloseSurface w_close_surface
  | PayWebFrame w_web_frame
  | PayCaretArea w_caret_area
  | PayLoadState w_load_state
  | PayGone w_gone

fun payload_kind :: "payload \<Rightarrow> string" where
  "payload_kind (PayHandshake v) = ''handshake''"
| "payload_kind (PayHandshakeAck v) = ''handshake_ack''"
| "payload_kind (PaySuggest v) = ''suggest''"
| "payload_kind (PayResults v) = ''results''"
| "payload_kind (PayCancel v) = ''cancel''"
| "payload_kind (PayShutdown v) = ''shutdown''"
| "payload_kind (PayCatalogRequest v) = ''catalog_request''"
| "payload_kind (PayCatalogBatch v) = ''catalog_batch''"
| "payload_kind (PayExecute v) = ''execute''"
| "payload_kind (PayExecuteResult v) = ''execute_result''"
| "payload_kind (PayConfiguration v) = ''configuration''"
| "payload_kind (PayEvent v) = ''event''"
| "payload_kind (PayLog v) = ''log''"
| "payload_kind (PayHealthCheck v) = ''health_check''"
| "payload_kind (PayHealthReport v) = ''health_report''"
| "payload_kind (PayError v) = ''error''"
| "payload_kind (PayFlow v) = ''flow''"
| "payload_kind (PayResourceRequest v) = ''resource_request''"
| "payload_kind (PayResourceResponse v) = ''resource_response''"
| "payload_kind (PayLifecycle v) = ''lifecycle''"
| "payload_kind (PayLifecycleAck v) = ''lifecycle_ack''"
| "payload_kind (PayPageRequest v) = ''page_request''"
| "payload_kind (PayPageFrame v) = ''page_frame''"
| "payload_kind (PayOpenSurface v) = ''open_surface''"
| "payload_kind (PayRawInput v) = ''raw_input''"
| "payload_kind (PayImeEvent v) = ''ime_event''"
| "payload_kind (PayNavigate v) = ''navigate''"
| "payload_kind (PayResize v) = ''resize''"
| "payload_kind (PayCloseSurface v) = ''close_surface''"
| "payload_kind (PayWebFrame v) = ''web_frame''"
| "payload_kind (PayCaretArea v) = ''caret_area''"
| "payload_kind (PayLoadState v) = ''load_state''"
| "payload_kind (PayGone v) = ''gone''"

fun put_payload :: "payload \<Rightarrow> bytes" where
  "put_payload (PayHandshake v) = put_message encode_w_handshake 10 v"
| "put_payload (PayHandshakeAck v) = put_message encode_w_handshake_ack 11 v"
| "put_payload (PaySuggest v) = put_message encode_w_suggest_request 12 v"
| "put_payload (PayResults v) = put_message encode_w_result_batch 13 v"
| "put_payload (PayCancel v) = put_message encode_w_cancel 14 v"
| "put_payload (PayShutdown v) = put_message encode_w_shutdown 15 v"
| "put_payload (PayCatalogRequest v) = put_message encode_w_catalog_request 16 v"
| "put_payload (PayCatalogBatch v) = put_message encode_w_catalog_batch 17 v"
| "put_payload (PayExecute v) = put_message encode_w_execute_request 18 v"
| "put_payload (PayExecuteResult v) = put_message encode_w_execute_result 19 v"
| "put_payload (PayConfiguration v) = put_message encode_w_configuration_change 20 v"
| "put_payload (PayEvent v) = put_message encode_w_event 21 v"
| "put_payload (PayLog v) = put_message encode_w_log_record 22 v"
| "put_payload (PayHealthCheck v) = put_message encode_w_health_check 23 v"
| "put_payload (PayHealthReport v) = put_message encode_w_health_report 24 v"
| "put_payload (PayError v) = put_message encode_w_structured_error 25 v"
| "put_payload (PayFlow v) = put_message encode_w_flow_control 26 v"
| "put_payload (PayResourceRequest v) = put_message encode_w_resource_request 27 v"
| "put_payload (PayResourceResponse v) = put_message encode_w_resource_response 28 v"
| "put_payload (PayLifecycle v) = put_message encode_w_lifecycle 29 v"
| "put_payload (PayLifecycleAck v) = put_message encode_w_lifecycle_ack 30 v"
| "put_payload (PayPageRequest v) = put_message encode_w_page_request 31 v"
| "put_payload (PayPageFrame v) = put_message encode_w_page_frame 32 v"
| "put_payload (PayOpenSurface v) = put_message encode_w_open_surface 33 v"
| "put_payload (PayRawInput v) = put_message encode_w_raw_input 34 v"
| "put_payload (PayImeEvent v) = put_message encode_w_ime_event 35 v"
| "put_payload (PayNavigate v) = put_message encode_w_navigate 36 v"
| "put_payload (PayResize v) = put_message encode_w_resize 37 v"
| "put_payload (PayCloseSurface v) = put_message encode_w_close_surface 38 v"
| "put_payload (PayWebFrame v) = put_message encode_w_web_frame 39 v"
| "put_payload (PayCaretArea v) = put_message encode_w_caret_area 40 v"
| "put_payload (PayLoadState v) = put_message encode_w_load_state 41 v"
| "put_payload (PayGone v) = put_message encode_w_gone 42 v"

record w_envelope =
  w_envelope_connection_id :: u64
  w_envelope_request_id :: u64
  w_envelope_generation :: u64
  w_envelope_deadline_ms :: u64
  w_envelope_payload :: "payload option"
  w_envelope_unknown :: unknown_fields

definition default_w_envelope :: w_envelope where
  "default_w_envelope =
     \<lparr>w_envelope_connection_id = 0, w_envelope_request_id = 0, w_envelope_generation = 0, w_envelope_deadline_ms = 0,
      w_envelope_payload = None, w_envelope_unknown = []\<rparr>"

definition encode_w_envelope :: "w_envelope \<Rightarrow> bytes" where
  "encode_w_envelope m = finish
     ((if w_envelope_connection_id m \<noteq> 0 then put_varint 1 (w_envelope_connection_id m) else []) @
      (if w_envelope_request_id m \<noteq> 0 then put_varint 2 (w_envelope_request_id m) else []) @
      (if w_envelope_generation m \<noteq> 0 then put_varint 3 (w_envelope_generation m) else []) @
      (if w_envelope_deadline_ms m \<noteq> 0 then put_varint 4 (w_envelope_deadline_ms m) else []) @
      put_optional put_payload (w_envelope_payload m)) (w_envelope_unknown m)"

definition set_payload :: "w_envelope \<Rightarrow> ('m \<Rightarrow> payload) \<Rightarrow> 'm \<Rightarrow> w_envelope" where
  "set_payload m con v = m\<lparr>w_envelope_payload := Some (con v)\<rparr>"

definition w_envelope_field :: "layout \<Rightarrow> field \<Rightarrow> w_envelope \<Rightarrow> decode_budget \<Rightarrow> protocol_error + (w_envelope \<times> decode_budget)" where
  "w_envelope_field lay f m b =
     (if fd_number f = 1 then assign (decode_field_varint f) (\<lambda>v. m\<lparr>w_envelope_connection_id := v\<rparr>) b
      else if fd_number f = 2 then assign (decode_field_varint f) (\<lambda>v. m\<lparr>w_envelope_request_id := v\<rparr>) b
      else if fd_number f = 3 then assign (decode_field_varint f) (\<lambda>v. m\<lparr>w_envelope_generation := v\<rparr>) b
      else if fd_number f = 4 then assign (decode_field_varint f) (\<lambda>v. m\<lparr>w_envelope_deadline_ms := v\<rparr>) b
      else if fd_number f = 10 then assign_in (nested (read_w_handshake lay) f b) (set_payload m PayHandshake)
      else if fd_number f = 11 then assign_in (nested (read_w_handshake_ack lay) f b) (set_payload m PayHandshakeAck)
      else if fd_number f = 12 then assign_in (nested read_w_suggest_request f b) (set_payload m PaySuggest)
      else if fd_number f = 13 then assign_in (nested (read_w_result_batch lay) f b) (set_payload m PayResults)
      else if fd_number f = 14 then assign_in (nested read_w_cancel f b) (set_payload m PayCancel)
      else if fd_number f = 15 then assign_in (nested read_w_shutdown f b) (set_payload m PayShutdown)
      else if fd_number f = 16 then assign_in (nested read_w_catalog_request f b) (set_payload m PayCatalogRequest)
      else if fd_number f = 17 then assign_in (nested (read_w_catalog_batch lay) f b) (set_payload m PayCatalogBatch)
      else if fd_number f = 18 then assign_in (nested read_w_execute_request f b) (set_payload m PayExecute)
      else if fd_number f = 19 then assign_in (nested read_w_execute_result f b) (set_payload m PayExecuteResult)
      else if fd_number f = 20 then assign_in (nested (read_w_configuration_change lay) f b) (set_payload m PayConfiguration)
      else if fd_number f = 21 then assign_in (nested (read_w_event lay) f b) (set_payload m PayEvent)
      else if fd_number f = 22 then assign_in (nested read_w_log_record f b) (set_payload m PayLog)
      else if fd_number f = 23 then assign_in (nested read_w_health_check f b) (set_payload m PayHealthCheck)
      else if fd_number f = 24 then assign_in (nested read_w_health_report f b) (set_payload m PayHealthReport)
      else if fd_number f = 25 then assign_in (nested read_w_structured_error f b) (set_payload m PayError)
      else if fd_number f = 26 then assign_in (nested read_w_flow_control f b) (set_payload m PayFlow)
      else if fd_number f = 27 then assign_in (nested read_w_resource_request f b) (set_payload m PayResourceRequest)
      else if fd_number f = 28 then assign_in (nested read_w_resource_response f b) (set_payload m PayResourceResponse)
      else if fd_number f = 29 then assign_in (nested read_w_lifecycle f b) (set_payload m PayLifecycle)
      else if fd_number f = 30 then assign_in (nested read_w_lifecycle_ack f b) (set_payload m PayLifecycleAck)
      else if fd_number f = 31 then assign_in (nested (read_w_page_request lay) f b) (set_payload m PayPageRequest)
      else if fd_number f = 32 then
        assign_in (merge_payload (w_page_frame_field lay) default_w_page_frame
            (case w_envelope_payload m of Some (PayPageFrame v) \<Rightarrow> Some v | _ \<Rightarrow> None) f b) (set_payload m PayPageFrame)
      else if fd_number f = 33 then
        assign_in (merge_payload w_open_surface_field default_w_open_surface
            (case w_envelope_payload m of Some (PayOpenSurface v) \<Rightarrow> Some v | _ \<Rightarrow> None) f b) (set_payload m PayOpenSurface)
      else if fd_number f = 34 then
        assign_in (merge_payload w_raw_input_field default_w_raw_input
            (case w_envelope_payload m of Some (PayRawInput v) \<Rightarrow> Some v | _ \<Rightarrow> None) f b) (set_payload m PayRawInput)
      else if fd_number f = 35 then
        assign_in (merge_payload w_ime_event_field default_w_ime_event
            (case w_envelope_payload m of Some (PayImeEvent v) \<Rightarrow> Some v | _ \<Rightarrow> None) f b) (set_payload m PayImeEvent)
      else if fd_number f = 36 then
        assign_in (merge_payload w_navigate_field default_w_navigate
            (case w_envelope_payload m of Some (PayNavigate v) \<Rightarrow> Some v | _ \<Rightarrow> None) f b) (set_payload m PayNavigate)
      else if fd_number f = 37 then
        assign_in (merge_payload w_resize_field default_w_resize
            (case w_envelope_payload m of Some (PayResize v) \<Rightarrow> Some v | _ \<Rightarrow> None) f b) (set_payload m PayResize)
      else if fd_number f = 38 then
        assign_in (merge_payload w_close_surface_field default_w_close_surface
            (case w_envelope_payload m of Some (PayCloseSurface v) \<Rightarrow> Some v | _ \<Rightarrow> None) f b) (set_payload m PayCloseSurface)
      else if fd_number f = 39 then
        assign_in (merge_payload w_web_frame_field default_w_web_frame
            (case w_envelope_payload m of Some (PayWebFrame v) \<Rightarrow> Some v | _ \<Rightarrow> None) f b) (set_payload m PayWebFrame)
      else if fd_number f = 40 then
        assign_in (merge_payload w_caret_area_field default_w_caret_area
            (case w_envelope_payload m of Some (PayCaretArea v) \<Rightarrow> Some v | _ \<Rightarrow> None) f b) (set_payload m PayCaretArea)
      else if fd_number f = 41 then
        assign_in (merge_payload w_load_state_field default_w_load_state
            (case w_envelope_payload m of Some (PayLoadState v) \<Rightarrow> Some v | _ \<Rightarrow> None) f b) (set_payload m PayLoadState)
      else if fd_number f = 42 then
        assign_in (merge_payload w_gone_field default_w_gone
            (case w_envelope_payload m of Some (PayGone v) \<Rightarrow> Some v | _ \<Rightarrow> None) f b) (set_payload m PayGone)
      else keep_unknown f (w_envelope_unknown m) (\<lambda>u. m\<lparr>w_envelope_unknown := u\<rparr>) b)"

definition decode_w_envelope :: "layout \<Rightarrow> bytes \<Rightarrow> protocol_error + w_envelope" where
  "decode_w_envelope lay bs = decode_message (w_envelope_field lay) default_w_envelope bs"

end
