(* ===== verification/Envelope_Codec.thy ===== *)
theory Envelope_Codec
  imports Message_Codec Envelopes
begin

text \<open>
  The page and web surface messages are codecs as well, and so is the envelope: whatever a
  host or a plugin sends, the other side reads.
\<close>

section \<open>Codes\<close>

lemma w_page_input_code_code [simp]: "w_page_input_code_from_i32 (w_page_input_code_as_i32 c) = c" "w_page_input_code_from_i32 0 = PageInputCode_KindUnspecified"
  by (cases c) (simp_all add: w_page_input_code_from_i32_def)

lemma w_page_shape_code_code [simp]: "w_page_shape_code_from_i32 (w_page_shape_code_as_i32 c) = c" "w_page_shape_code_from_i32 0 = PageShapeCode_ShapeUnspecified"
  by (cases c) (simp_all add: w_page_shape_code_from_i32_def)

lemma w_page_role_code_code [simp]: "w_page_role_code_from_i32 (w_page_role_code_as_i32 c) = c" "w_page_role_code_from_i32 0 = PageRoleCode_RoleUnspecified"
  by (cases c) (simp_all add: w_page_role_code_from_i32_def)

lemma w_web_storage_mode_code [simp]: "w_web_storage_mode_from_i32 (w_web_storage_mode_as_i32 c) = c" "w_web_storage_mode_from_i32 0 = WebStorageMode_ModeUnspecified"
  by (cases c) (simp_all add: w_web_storage_mode_from_i32_def)

lemma w_web_input_code_code [simp]: "w_web_input_code_from_i32 (w_web_input_code_as_i32 c) = c" "w_web_input_code_from_i32 0 = WebInputCode_KindUnspecified"
  by (cases c) (simp_all add: w_web_input_code_from_i32_def)

lemma w_web_ime_code_code [simp]: "w_web_ime_code_from_i32 (w_web_ime_code_as_i32 c) = c" "w_web_ime_code_from_i32 0 = WebImeCode_KindUnspecified"
  by (cases c) (simp_all add: w_web_ime_code_from_i32_def)

lemma w_web_load_code_code [simp]: "w_web_load_code_from_i32 (w_web_load_code_as_i32 c) = c" "w_web_load_code_from_i32 0 = WebLoadCode_StateUnspecified"
  by (cases c) (simp_all add: w_web_load_code_from_i32_def)

lemma w_web_gone_code_code [simp]: "w_web_gone_code_from_i32 (w_web_gone_code_as_i32 c) = c" "w_web_gone_code_from_i32 0 = WebGoneCode_ReasonUnspecified"
  by (cases c) (simp_all add: w_web_gone_code_from_i32_def)

section \<open>Pages\<close>

definition wf_w_page_input :: "w_page_input \<Rightarrow> bool" where
  "wf_w_page_input m \<longleftrightarrow>
     f32_plain (w_page_input_x m) \<and> f32_plain (w_page_input_y m) \<and> wf_string (w_page_input_key m)
     \<and> wf_string (w_page_input_text m) \<and> unknown_ok [1, 2, 3, 4, 5, 6, 7, 8, 9] (w_page_input_unknown m)"

definition cost_w_page_input :: "w_page_input \<Rightarrow> nat" where
  "cost_w_page_input m =
     length (w_page_input_key m) + length (w_page_input_text m) + unknown_capacity (w_page_input_unknown m)"

interpretation page_input_codec: wire_codec w_page_input_field default_w_page_input encode_w_page_input wf_w_page_input cost_w_page_input 0
  unfolding encode_w_page_input_def finish_def default_w_page_input_def wf_w_page_input_def
  by (unfold_locales, (elim conjE)?, rule absorbs_eq)
    ((rule field_rules absorbs_unknown [where known = "[1, 2, 3, 4, 5, 6, 7, 8, 9]"]
      | (simp add: w_page_input_field_def field_number_def cost_w_page_input_def; fail)
      | rule w_page_input.equality)+)

definition wf_w_page_image :: "w_page_image \<Rightarrow> bool" where
  "wf_w_page_image m \<longleftrightarrow>
     fits (w_page_image_rgba m) \<and> unknown_ok [1, 2, 3] (w_page_image_unknown m)"

definition cost_w_page_image :: "w_page_image \<Rightarrow> nat" where
  "cost_w_page_image m =
     length (w_page_image_rgba m) + unknown_capacity (w_page_image_unknown m)"

interpretation page_image_codec: wire_codec w_page_image_field default_w_page_image encode_w_page_image wf_w_page_image cost_w_page_image 0
  unfolding encode_w_page_image_def finish_def default_w_page_image_def wf_w_page_image_def
  by (unfold_locales, (elim conjE)?, rule absorbs_eq)
    ((rule field_rules absorbs_unknown [where known = "[1, 2, 3]"]
      | (simp add: w_page_image_field_def field_number_def cost_w_page_image_def; fail)
      | rule w_page_image.equality)+)

definition wf_w_page_node :: "w_page_node \<Rightarrow> bool" where
  "wf_w_page_node m \<longleftrightarrow>
     f32_plain (w_page_node_x m) \<and> f32_plain (w_page_node_y m) \<and> f32_plain (w_page_node_width m)
     \<and> f32_plain (w_page_node_height m) \<and> f32_plain (w_page_node_stroke_width m)
     \<and> f32_plain (w_page_node_rounding m) \<and> wf_string (w_page_node_text m)
     \<and> f32_plain (w_page_node_text_size m) \<and> wf_string (w_page_node_label m)
     \<and> pred_option (sendable wf_w_page_image encode_w_page_image) (w_page_node_image m)
     \<and> unknown_ok [1, 2, 3, 4, 5, 6, 7, 8, 9, 10, 11, 12, 13, 14, 15, 16, 17] (w_page_node_unknown m)"

definition cost_w_page_node :: "w_page_node \<Rightarrow> nat" where
  "cost_w_page_node m =
     length (w_page_node_text m) + length (w_page_node_label m)
     + case_option 0 cost_w_page_image (w_page_node_image m) + unknown_capacity (w_page_node_unknown m)"

interpretation page_node_codec: wire_codec w_page_node_field default_w_page_node encode_w_page_node wf_w_page_node cost_w_page_node 1
  unfolding encode_w_page_node_def finish_def default_w_page_node_def wf_w_page_node_def
  by (unfold_locales, (elim conjE)?, rule absorbs_eq)
    ((rule field_rules absorbs_unknown [where known = "[1, 2, 3, 4, 5, 6, 7, 8, 9, 10, 11, 12, 13, 14, 15, 16, 17]"]
           page_image_codec.absorbs_optional
      | (simp add: w_page_node_field_def field_number_def cost_w_page_node_def apply_some_def read_w_page_image_def split: option.split; fail)
      | rule w_page_node.equality)+)

definition wf_w_page_request :: "w_page_request \<Rightarrow> bool" where
  "wf_w_page_request m \<longleftrightarrow>
     wf_string (w_page_request_page_id m)
     \<and> list_all (sendable wf_w_page_input encode_w_page_input) (w_page_request_events m)
     \<and> unknown_ok [1, 2, 3, 4, 5, 6, 7, 8, 9, 10] (w_page_request_unknown m)"

definition cost_w_page_request :: "layout \<Rightarrow> w_page_request \<Rightarrow> nat" where
  "cost_w_page_request lay m =
     length (w_page_request_page_id m)
     + (sum_list (map cost_w_page_input (w_page_request_events m)) + repeat_cost (size_page_input lay) (length (w_page_request_events m)))
     + unknown_capacity (w_page_request_unknown m)"

interpretation page_request_codec: wire_codec "w_page_request_field lay" default_w_page_request encode_w_page_request wf_w_page_request "cost_w_page_request lay" 1 for lay
  unfolding encode_w_page_request_def finish_def default_w_page_request_def wf_w_page_request_def
  by (unfold_locales, (elim conjE)?, rule absorbs_eq)
    ((rule field_rules absorbs_unknown [where known = "[1, 2, 3, 4, 5, 6, 7, 8, 9, 10]"]
           page_input_codec.absorbs_messages
      | (simp add: w_page_request_field_def field_number_def cost_w_page_request_def read_w_page_input_def; fail)
      | rule w_page_request.equality)+)

definition wf_w_page_web_surface :: "w_page_web_surface \<Rightarrow> bool" where
  "wf_w_page_web_surface m \<longleftrightarrow>
     wf_string (w_page_web_surface_url m) \<and> unknown_ok [1, 2] (w_page_web_surface_unknown m)"

definition cost_w_page_web_surface :: "w_page_web_surface \<Rightarrow> nat" where
  "cost_w_page_web_surface m =
     length (w_page_web_surface_url m) + unknown_capacity (w_page_web_surface_unknown m)"

interpretation page_web_surface_codec: wire_codec w_page_web_surface_field default_w_page_web_surface encode_w_page_web_surface wf_w_page_web_surface cost_w_page_web_surface 0
  unfolding encode_w_page_web_surface_def finish_def default_w_page_web_surface_def wf_w_page_web_surface_def
  by (unfold_locales, (elim conjE)?, rule absorbs_eq)
    ((rule field_rules absorbs_unknown [where known = "[1, 2]"]
      | (simp add: w_page_web_surface_field_def field_number_def cost_w_page_web_surface_def; fail)
      | rule w_page_web_surface.equality)+)

definition wf_w_page_frame :: "w_page_frame \<Rightarrow> bool" where
  "wf_w_page_frame m \<longleftrightarrow>
     wf_string (w_page_frame_title m)
     \<and> list_all (sendable wf_w_page_node encode_w_page_node) (w_page_frame_nodes m)
     \<and> pred_option (sendable wf_w_page_web_surface encode_w_page_web_surface) (w_page_frame_web m)
     \<and> unknown_ok [1, 2, 3, 4, 5, 6, 7] (w_page_frame_unknown m)"

definition cost_w_page_frame :: "layout \<Rightarrow> w_page_frame \<Rightarrow> nat" where
  "cost_w_page_frame lay m =
     length (w_page_frame_title m)
     + (sum_list (map cost_w_page_node (w_page_frame_nodes m)) + repeat_cost (size_page_node lay) (length (w_page_frame_nodes m)))
     + case_option 0 cost_w_page_web_surface (w_page_frame_web m) + unknown_capacity (w_page_frame_unknown m)"

interpretation page_frame_codec: wire_codec "w_page_frame_field lay" default_w_page_frame encode_w_page_frame wf_w_page_frame "cost_w_page_frame lay" 2 for lay
  unfolding encode_w_page_frame_def finish_def default_w_page_frame_def wf_w_page_frame_def
  by (unfold_locales, (elim conjE)?, rule absorbs_eq)
    ((rule field_rules absorbs_unknown [where known = "[1, 2, 3, 4, 5, 6, 7]"] page_node_codec.absorbs_messages
           page_web_surface_codec.absorbs_optional_at [where upd = "\<lambda>v s. s\<lparr>w_page_frame_web := Some v\<rparr>"]
      | (simp add: w_page_frame_field_def field_number_def cost_w_page_frame_def read_w_page_node_def apply_some_def
           read_w_page_web_surface_def split: option.split; fail)
      | rule w_page_frame.equality)+)

section \<open>Web surfaces\<close>

definition wf_w_open_surface :: "w_open_surface \<Rightarrow> bool" where
  "wf_w_open_surface m \<longleftrightarrow>
     wf_string (w_open_surface_url m) \<and> unknown_ok [1, 2, 3, 4, 5] (w_open_surface_unknown m)"

definition cost_w_open_surface :: "w_open_surface \<Rightarrow> nat" where
  "cost_w_open_surface m =
     length (w_open_surface_url m) + unknown_capacity (w_open_surface_unknown m)"

interpretation open_surface_codec: wire_codec w_open_surface_field default_w_open_surface encode_w_open_surface wf_w_open_surface cost_w_open_surface 0
  unfolding encode_w_open_surface_def finish_def default_w_open_surface_def wf_w_open_surface_def
  by (unfold_locales, (elim conjE)?, rule absorbs_eq)
    ((rule field_rules absorbs_unknown [where known = "[1, 2, 3, 4, 5]"]
      | (simp add: w_open_surface_field_def field_number_def cost_w_open_surface_def; fail)
      | rule w_open_surface.equality)+)

definition wf_w_raw_input :: "w_raw_input \<Rightarrow> bool" where
  "wf_w_raw_input m \<longleftrightarrow>
     f32_plain (w_raw_input_x m) \<and> f32_plain (w_raw_input_y m) \<and> f32_plain (w_raw_input_delta_x m)
     \<and> f32_plain (w_raw_input_delta_y m)
     \<and> unknown_ok [1, 2, 3, 4, 5, 6, 7, 8, 9, 10, 11, 12, 13, 14, 15] (w_raw_input_unknown m)"

definition cost_w_raw_input :: "w_raw_input \<Rightarrow> nat" where
  "cost_w_raw_input m =
     unknown_capacity (w_raw_input_unknown m)"

interpretation raw_input_codec: wire_codec w_raw_input_field default_w_raw_input encode_w_raw_input wf_w_raw_input cost_w_raw_input 0
  unfolding encode_w_raw_input_def finish_def default_w_raw_input_def wf_w_raw_input_def
  by (unfold_locales, (elim conjE)?, rule absorbs_eq)
    ((rule field_rules absorbs_unknown [where known = "[1, 2, 3, 4, 5, 6, 7, 8, 9, 10, 11, 12, 13, 14, 15]"]
      | (simp add: w_raw_input_field_def field_number_def cost_w_raw_input_def; fail)
      | rule w_raw_input.equality)+)

definition wf_w_ime_event :: "w_ime_event \<Rightarrow> bool" where
  "wf_w_ime_event m \<longleftrightarrow>
     wf_string (w_ime_event_text m) \<and> unknown_ok [1, 2, 3, 4, 5, 6] (w_ime_event_unknown m)"

definition cost_w_ime_event :: "w_ime_event \<Rightarrow> nat" where
  "cost_w_ime_event m =
     length (w_ime_event_text m) + unknown_capacity (w_ime_event_unknown m)"

interpretation ime_event_codec: wire_codec w_ime_event_field default_w_ime_event encode_w_ime_event wf_w_ime_event cost_w_ime_event 0
  unfolding encode_w_ime_event_def finish_def default_w_ime_event_def wf_w_ime_event_def
  by (unfold_locales, (elim conjE)?, rule absorbs_eq)
    ((rule field_rules absorbs_unknown [where known = "[1, 2, 3, 4, 5, 6]"]
      | (simp add: w_ime_event_field_def field_number_def cost_w_ime_event_def; fail)
      | rule w_ime_event.equality)+)

definition wf_w_navigate :: "w_navigate \<Rightarrow> bool" where
  "wf_w_navigate m \<longleftrightarrow>
     wf_string (w_navigate_url m) \<and> unknown_ok [1, 2] (w_navigate_unknown m)"

definition cost_w_navigate :: "w_navigate \<Rightarrow> nat" where
  "cost_w_navigate m =
     length (w_navigate_url m) + unknown_capacity (w_navigate_unknown m)"

interpretation navigate_codec: wire_codec w_navigate_field default_w_navigate encode_w_navigate wf_w_navigate cost_w_navigate 0
  unfolding encode_w_navigate_def finish_def default_w_navigate_def wf_w_navigate_def
  by (unfold_locales, (elim conjE)?, rule absorbs_eq)
    ((rule field_rules absorbs_unknown [where known = "[1, 2]"]
      | (simp add: w_navigate_field_def field_number_def cost_w_navigate_def; fail)
      | rule w_navigate.equality)+)

definition wf_w_resize :: "w_resize \<Rightarrow> bool" where
  "wf_w_resize m \<longleftrightarrow>
     unknown_ok [1, 2, 3] (w_resize_unknown m)"

definition cost_w_resize :: "w_resize \<Rightarrow> nat" where
  "cost_w_resize m =
     unknown_capacity (w_resize_unknown m)"

interpretation resize_codec: wire_codec w_resize_field default_w_resize encode_w_resize wf_w_resize cost_w_resize 0
  unfolding encode_w_resize_def finish_def default_w_resize_def wf_w_resize_def
  by (unfold_locales, (elim conjE)?, rule absorbs_eq)
    ((rule field_rules absorbs_unknown [where known = "[1, 2, 3]"]
      | (simp add: w_resize_field_def field_number_def cost_w_resize_def; fail)
      | rule w_resize.equality)+)

definition wf_w_close_surface :: "w_close_surface \<Rightarrow> bool" where
  "wf_w_close_surface m \<longleftrightarrow>
     wf_string (w_close_surface_reason m) \<and> unknown_ok [1, 2] (w_close_surface_unknown m)"

definition cost_w_close_surface :: "w_close_surface \<Rightarrow> nat" where
  "cost_w_close_surface m =
     length (w_close_surface_reason m) + unknown_capacity (w_close_surface_unknown m)"

interpretation close_surface_codec: wire_codec w_close_surface_field default_w_close_surface encode_w_close_surface wf_w_close_surface cost_w_close_surface 0
  unfolding encode_w_close_surface_def finish_def default_w_close_surface_def wf_w_close_surface_def
  by (unfold_locales, (elim conjE)?, rule absorbs_eq)
    ((rule field_rules absorbs_unknown [where known = "[1, 2]"]
      | (simp add: w_close_surface_field_def field_number_def cost_w_close_surface_def; fail)
      | rule w_close_surface.equality)+)

definition wf_w_web_frame :: "w_web_frame \<Rightarrow> bool" where
  "wf_w_web_frame m \<longleftrightarrow>
     fits (w_web_frame_rgba8 m) \<and> unknown_ok [1, 2, 3, 4, 5] (w_web_frame_unknown m)"

definition cost_w_web_frame :: "w_web_frame \<Rightarrow> nat" where
  "cost_w_web_frame m =
     length (w_web_frame_rgba8 m) + unknown_capacity (w_web_frame_unknown m)"

interpretation web_frame_codec: wire_codec w_web_frame_field default_w_web_frame encode_w_web_frame wf_w_web_frame cost_w_web_frame 0
  unfolding encode_w_web_frame_def finish_def default_w_web_frame_def wf_w_web_frame_def
  by (unfold_locales, (elim conjE)?, rule absorbs_eq)
    ((rule field_rules absorbs_unknown [where known = "[1, 2, 3, 4, 5]"]
      | (simp add: w_web_frame_field_def field_number_def cost_w_web_frame_def; fail)
      | rule w_web_frame.equality)+)

definition wf_w_caret_area :: "w_caret_area \<Rightarrow> bool" where
  "wf_w_caret_area m \<longleftrightarrow>
     f32_plain (w_caret_area_x m) \<and> f32_plain (w_caret_area_y m) \<and> f32_plain (w_caret_area_width m)
     \<and> f32_plain (w_caret_area_height m) \<and> unknown_ok [1, 2, 3, 4, 5] (w_caret_area_unknown m)"

definition cost_w_caret_area :: "w_caret_area \<Rightarrow> nat" where
  "cost_w_caret_area m =
     unknown_capacity (w_caret_area_unknown m)"

interpretation caret_area_codec: wire_codec w_caret_area_field default_w_caret_area encode_w_caret_area wf_w_caret_area cost_w_caret_area 0
  unfolding encode_w_caret_area_def finish_def default_w_caret_area_def wf_w_caret_area_def
  by (unfold_locales, (elim conjE)?, rule absorbs_eq)
    ((rule field_rules absorbs_unknown [where known = "[1, 2, 3, 4, 5]"]
      | (simp add: w_caret_area_field_def field_number_def cost_w_caret_area_def; fail)
      | rule w_caret_area.equality)+)

definition wf_w_load_state :: "w_load_state \<Rightarrow> bool" where
  "wf_w_load_state m \<longleftrightarrow>
     wf_string (w_load_state_url m) \<and> wf_string (w_load_state_failure m) \<and> wf_string (w_load_state_title m)
     \<and> unknown_ok [1, 2, 3, 4, 5, 6, 7] (w_load_state_unknown m)"

definition cost_w_load_state :: "w_load_state \<Rightarrow> nat" where
  "cost_w_load_state m =
     length (w_load_state_url m) + length (w_load_state_failure m) + length (w_load_state_title m)
     + unknown_capacity (w_load_state_unknown m)"

interpretation load_state_codec: wire_codec w_load_state_field default_w_load_state encode_w_load_state wf_w_load_state cost_w_load_state 0
  unfolding encode_w_load_state_def finish_def default_w_load_state_def wf_w_load_state_def
  by (unfold_locales, (elim conjE)?, rule absorbs_eq)
    ((rule field_rules absorbs_unknown [where known = "[1, 2, 3, 4, 5, 6, 7]"]
      | (simp add: w_load_state_field_def field_number_def cost_w_load_state_def; fail)
      | rule w_load_state.equality)+)

definition wf_w_gone :: "w_gone \<Rightarrow> bool" where
  "wf_w_gone m \<longleftrightarrow>
     wf_string (w_gone_detail m) \<and> unknown_ok [1, 2, 3] (w_gone_unknown m)"

definition cost_w_gone :: "w_gone \<Rightarrow> nat" where
  "cost_w_gone m =
     length (w_gone_detail m) + unknown_capacity (w_gone_unknown m)"

interpretation gone_codec: wire_codec w_gone_field default_w_gone encode_w_gone wf_w_gone cost_w_gone 0
  unfolding encode_w_gone_def finish_def default_w_gone_def wf_w_gone_def
  by (unfold_locales, (elim conjE)?, rule absorbs_eq)
    ((rule field_rules absorbs_unknown [where known = "[1, 2, 3]"]
      | (simp add: w_gone_field_def field_number_def cost_w_gone_def; fail)
      | rule w_gone.equality)+)

section \<open>The envelope\<close>

fun payload_ok :: "payload \<Rightarrow> bool" where
  "payload_ok (PayHandshake v) = sendable wf_w_handshake encode_w_handshake v"
| "payload_ok (PayHandshakeAck v) = sendable wf_w_handshake_ack encode_w_handshake_ack v"
| "payload_ok (PaySuggest v) = sendable wf_w_suggest_request encode_w_suggest_request v"
| "payload_ok (PayResults v) = sendable wf_w_result_batch encode_w_result_batch v"
| "payload_ok (PayCancel v) = sendable wf_w_cancel encode_w_cancel v"
| "payload_ok (PayShutdown v) = sendable wf_w_shutdown encode_w_shutdown v"
| "payload_ok (PayCatalogRequest v) = sendable wf_w_catalog_request encode_w_catalog_request v"
| "payload_ok (PayCatalogBatch v) = sendable wf_w_catalog_batch encode_w_catalog_batch v"
| "payload_ok (PayExecute v) = sendable wf_w_execute_request encode_w_execute_request v"
| "payload_ok (PayExecuteResult v) = sendable wf_w_execute_result encode_w_execute_result v"
| "payload_ok (PayConfiguration v) = sendable wf_w_configuration_change encode_w_configuration_change v"
| "payload_ok (PayEvent v) = sendable wf_w_event encode_w_event v"
| "payload_ok (PayLog v) = sendable wf_w_log_record encode_w_log_record v"
| "payload_ok (PayHealthCheck v) = sendable wf_w_health_check encode_w_health_check v"
| "payload_ok (PayHealthReport v) = sendable wf_w_health_report encode_w_health_report v"
| "payload_ok (PayError v) = sendable wf_w_structured_error encode_w_structured_error v"
| "payload_ok (PayFlow v) = sendable wf_w_flow_control encode_w_flow_control v"
| "payload_ok (PayResourceRequest v) = sendable wf_w_resource_request encode_w_resource_request v"
| "payload_ok (PayResourceResponse v) = sendable wf_w_resource_response encode_w_resource_response v"
| "payload_ok (PayLifecycle v) = sendable wf_w_lifecycle encode_w_lifecycle v"
| "payload_ok (PayLifecycleAck v) = sendable wf_w_lifecycle_ack encode_w_lifecycle_ack v"
| "payload_ok (PayPageRequest v) = sendable wf_w_page_request encode_w_page_request v"
| "payload_ok (PayPageFrame v) = sendable wf_w_page_frame encode_w_page_frame v"
| "payload_ok (PayOpenSurface v) = sendable wf_w_open_surface encode_w_open_surface v"
| "payload_ok (PayRawInput v) = sendable wf_w_raw_input encode_w_raw_input v"
| "payload_ok (PayImeEvent v) = sendable wf_w_ime_event encode_w_ime_event v"
| "payload_ok (PayNavigate v) = sendable wf_w_navigate encode_w_navigate v"
| "payload_ok (PayResize v) = sendable wf_w_resize encode_w_resize v"
| "payload_ok (PayCloseSurface v) = sendable wf_w_close_surface encode_w_close_surface v"
| "payload_ok (PayWebFrame v) = sendable wf_w_web_frame encode_w_web_frame v"
| "payload_ok (PayCaretArea v) = sendable wf_w_caret_area encode_w_caret_area v"
| "payload_ok (PayLoadState v) = sendable wf_w_load_state encode_w_load_state v"
| "payload_ok (PayGone v) = sendable wf_w_gone encode_w_gone v"

fun payload_cost :: "layout \<Rightarrow> payload \<Rightarrow> nat" where
  "payload_cost lay (PayHandshake v) = cost_w_handshake lay v"
| "payload_cost lay (PayHandshakeAck v) = cost_w_handshake_ack lay v"
| "payload_cost lay (PaySuggest v) = cost_w_suggest_request v"
| "payload_cost lay (PayResults v) = cost_w_result_batch lay v"
| "payload_cost lay (PayCancel v) = cost_w_cancel v"
| "payload_cost lay (PayShutdown v) = cost_w_shutdown v"
| "payload_cost lay (PayCatalogRequest v) = cost_w_catalog_request v"
| "payload_cost lay (PayCatalogBatch v) = cost_w_catalog_batch lay v"
| "payload_cost lay (PayExecute v) = cost_w_execute_request v"
| "payload_cost lay (PayExecuteResult v) = cost_w_execute_result v"
| "payload_cost lay (PayConfiguration v) = cost_w_configuration_change lay v"
| "payload_cost lay (PayEvent v) = cost_w_event lay v"
| "payload_cost lay (PayLog v) = cost_w_log_record v"
| "payload_cost lay (PayHealthCheck v) = cost_w_health_check v"
| "payload_cost lay (PayHealthReport v) = cost_w_health_report v"
| "payload_cost lay (PayError v) = cost_w_structured_error v"
| "payload_cost lay (PayFlow v) = cost_w_flow_control v"
| "payload_cost lay (PayResourceRequest v) = cost_w_resource_request v"
| "payload_cost lay (PayResourceResponse v) = cost_w_resource_response v"
| "payload_cost lay (PayLifecycle v) = cost_w_lifecycle v"
| "payload_cost lay (PayLifecycleAck v) = cost_w_lifecycle_ack v"
| "payload_cost lay (PayPageRequest v) = cost_w_page_request lay v"
| "payload_cost lay (PayPageFrame v) = cost_w_page_frame lay v"
| "payload_cost lay (PayOpenSurface v) = cost_w_open_surface v"
| "payload_cost lay (PayRawInput v) = cost_w_raw_input v"
| "payload_cost lay (PayImeEvent v) = cost_w_ime_event v"
| "payload_cost lay (PayNavigate v) = cost_w_navigate v"
| "payload_cost lay (PayResize v) = cost_w_resize v"
| "payload_cost lay (PayCloseSurface v) = cost_w_close_surface v"
| "payload_cost lay (PayWebFrame v) = cost_w_web_frame v"
| "payload_cost lay (PayCaretArea v) = cost_w_caret_area v"
| "payload_cost lay (PayLoadState v) = cost_w_load_state v"
| "payload_cost lay (PayGone v) = cost_w_gone v"

lemma put_payload_absorbs:
  assumes "payload_ok p" and "w_envelope_payload m = None"
  shows "absorbs (w_envelope_field lay) 3 (put_payload p) (payload_cost lay p) m (m\<lparr>w_envelope_payload := Some p\<rparr>)"
proof -
  note reads =
      read_w_handshake_def read_w_handshake_ack_def read_w_suggest_request_def read_w_result_batch_def
      read_w_cancel_def read_w_shutdown_def read_w_catalog_request_def read_w_catalog_batch_def
      read_w_execute_request_def read_w_execute_result_def read_w_configuration_change_def read_w_event_def
      read_w_log_record_def read_w_health_check_def read_w_health_report_def read_w_structured_error_def
      read_w_flow_control_def read_w_resource_request_def read_w_resource_response_def read_w_lifecycle_def
      read_w_lifecycle_ack_def read_w_page_request_def
  note messages =
      handshake_codec.absorbs_message handshake_ack_codec.absorbs_message suggest_request_codec.absorbs_message
      result_batch_codec.absorbs_message cancel_codec.absorbs_message shutdown_codec.absorbs_message
      catalog_request_codec.absorbs_message catalog_batch_codec.absorbs_message execute_request_codec.absorbs_message
      execute_result_codec.absorbs_message configuration_change_codec.absorbs_message event_codec.absorbs_message
      log_record_codec.absorbs_message health_check_codec.absorbs_message health_report_codec.absorbs_message
      structured_error_codec.absorbs_message flow_control_codec.absorbs_message resource_request_codec.absorbs_message
      resource_response_codec.absorbs_message lifecycle_codec.absorbs_message lifecycle_ack_codec.absorbs_message
      page_request_codec.absorbs_message page_frame_codec.absorbs_message open_surface_codec.absorbs_message
      raw_input_codec.absorbs_message ime_event_codec.absorbs_message navigate_codec.absorbs_message
      resize_codec.absorbs_message close_surface_codec.absorbs_message web_frame_codec.absorbs_message
      caret_area_codec.absorbs_message load_state_codec.absorbs_message gone_codec.absorbs_message
  show ?thesis using assms
    by (cases p; simp only: put_payload.simps payload_cost.simps payload_ok.simps)
      ((rule messages
        | (simp add: w_envelope_field_def reads merge_payload_def field_number_def set_payload_def [abs_def]; fail))+)
qed

definition wf_w_envelope :: "w_envelope \<Rightarrow> bool" where
  "wf_w_envelope m \<longleftrightarrow>
     pred_option payload_ok (w_envelope_payload m)
     \<and> unknown_ok ([1, 2, 3, 4] @ map word_of_nat [10..<43]) (w_envelope_unknown m)"

definition cost_w_envelope :: "layout \<Rightarrow> w_envelope \<Rightarrow> nat" where
  "cost_w_envelope lay m = case_option 0 (payload_cost lay) (w_envelope_payload m) + unknown_capacity (w_envelope_unknown m)"

interpretation envelope_codec:
  wire_codec "w_envelope_field lay" default_w_envelope encode_w_envelope wf_w_envelope "cost_w_envelope lay" 3 for lay
proof
  fix m assume wf: "wf_w_envelope m"
  let ?head = "default_w_envelope\<lparr>w_envelope_connection_id := w_envelope_connection_id m, w_envelope_request_id := w_envelope_request_id m,
    w_envelope_generation := w_envelope_generation m, w_envelope_deadline_ms := w_envelope_deadline_ms m\<rparr>"
  let ?body = "?head\<lparr>w_envelope_payload := w_envelope_payload m\<rparr>"
  have pay: "absorbs (w_envelope_field lay) 3 (put_optional put_payload (w_envelope_payload m)) (case_option 0 (payload_cost lay) (w_envelope_payload m)) ?head ?body"
  proof (cases "w_envelope_payload m")
    case None
    then show ?thesis by (simp add: put_optional_def absorbs_Nil default_w_envelope_def)
  next
    case (Some p)
    with wf have "payload_ok p" by (simp add: wf_w_envelope_def)
    with Some show ?thesis using put_payload_absorbs [of p ?head lay] by (simp add: put_optional_def default_w_envelope_def)
  qed
  have unknown: "absorbs (w_envelope_field lay) 3 (as_bytes (w_envelope_unknown m)) (unknown_capacity (w_envelope_unknown m)) ?body (?body\<lparr>w_envelope_unknown := w_envelope_unknown m\<rparr>)"
    using wf by (intro absorbs_unknown [where uupd = "\<lambda>u s. s\<lparr>w_envelope_unknown := u\<rparr>" and known = "[1, 2, 3, 4] @ map word_of_nat [10..<43]"])
      (auto simp: wf_w_envelope_def w_envelope_field_def default_w_envelope_def upt_rec)
  show "absorbs (w_envelope_field lay) 3 (encode_w_envelope m) (cost_w_envelope lay m) default_w_envelope m"
    unfolding encode_w_envelope_def finish_def
    by (rule absorbs_eq) (rule field_rules pay unknown | (simp add: w_envelope_field_def field_number_def cost_w_envelope_def default_w_envelope_def; fail) | rule w_envelope.equality)+
qed

end
