(* ===== verification/Envelope_Heap.thy ===== *)
theory Envelope_Heap
  imports Message_Heap Envelope_Codec
begin

text \<open>The page and web surface messages and the envelope pay for what they build as well.\<close>

section \<open>Pages\<close>

interpretation page_input_heap: paying_decoder w_page_input_field default_w_page_input cost_w_page_input
  by unfold_locales
    ((simp add: cost_w_page_input_def default_w_page_input_def; fail)
      | (unfold w_page_input_field_def, (rule paying_rules | (simp add: cost_w_page_input_def; fail))+))+

interpretation page_image_heap: paying_decoder w_page_image_field default_w_page_image cost_w_page_image
  by unfold_locales
    ((simp add: cost_w_page_image_def default_w_page_image_def; fail)
      | (unfold w_page_image_field_def, (rule paying_rules | (simp add: cost_w_page_image_def; fail))+))+

interpretation page_node_heap: paying_decoder w_page_node_field default_w_page_node cost_w_page_node
  by unfold_locales
    ((simp add: cost_w_page_node_def default_w_page_node_def; fail)
      | (unfold w_page_node_field_def, (rule paying_rules page_image_heap.pays_nested [folded read_w_page_image_def] | (simp add: cost_w_page_node_def; fail))+))+

interpretation page_request_heap: paying_decoder "w_page_request_field lay" default_w_page_request "cost_w_page_request lay" for lay
  by unfold_locales
    ((simp add: cost_w_page_request_def default_w_page_request_def; fail)
      | (unfold w_page_request_field_def, (rule paying_rules page_input_heap.pays_messages [folded read_w_page_input_def] | (simp add: cost_w_page_request_def; fail))+))+

interpretation page_web_surface_heap: paying_decoder w_page_web_surface_field default_w_page_web_surface cost_w_page_web_surface
  by unfold_locales
    ((simp add: cost_w_page_web_surface_def default_w_page_web_surface_def; fail)
      | (unfold w_page_web_surface_field_def, (rule paying_rules | (simp add: cost_w_page_web_surface_def; fail))+))+

interpretation page_frame_heap: paying_decoder "w_page_frame_field lay" default_w_page_frame "cost_w_page_frame lay" for lay
  by unfold_locales
    ((simp add: cost_w_page_frame_def default_w_page_frame_def; fail)
      | (unfold w_page_frame_field_def, (rule paying_rules page_node_heap.pays_messages [folded read_w_page_node_def]
           page_web_surface_heap.pays_nested [folded read_w_page_web_surface_def] pays_option
           page_web_surface_heap.pays_merged | (simp add: cost_w_page_frame_def; fail))+))+

section \<open>Web surfaces\<close>

interpretation open_surface_heap: paying_decoder w_open_surface_field default_w_open_surface cost_w_open_surface
  by unfold_locales
    ((simp add: cost_w_open_surface_def default_w_open_surface_def; fail)
      | (unfold w_open_surface_field_def, (rule paying_rules | (simp add: cost_w_open_surface_def; fail))+))+

interpretation raw_input_heap: paying_decoder w_raw_input_field default_w_raw_input cost_w_raw_input
  by unfold_locales
    ((simp add: cost_w_raw_input_def default_w_raw_input_def; fail)
      | (unfold w_raw_input_field_def, (rule paying_rules | (simp add: cost_w_raw_input_def; fail))+))+

interpretation ime_event_heap: paying_decoder w_ime_event_field default_w_ime_event cost_w_ime_event
  by unfold_locales
    ((simp add: cost_w_ime_event_def default_w_ime_event_def; fail)
      | (unfold w_ime_event_field_def, (rule paying_rules | (simp add: cost_w_ime_event_def; fail))+))+

interpretation navigate_heap: paying_decoder w_navigate_field default_w_navigate cost_w_navigate
  by unfold_locales
    ((simp add: cost_w_navigate_def default_w_navigate_def; fail)
      | (unfold w_navigate_field_def, (rule paying_rules | (simp add: cost_w_navigate_def; fail))+))+

interpretation resize_heap: paying_decoder w_resize_field default_w_resize cost_w_resize
  by unfold_locales
    ((simp add: cost_w_resize_def default_w_resize_def; fail)
      | (unfold w_resize_field_def, (rule paying_rules | (simp add: cost_w_resize_def; fail))+))+

interpretation close_surface_heap: paying_decoder w_close_surface_field default_w_close_surface cost_w_close_surface
  by unfold_locales
    ((simp add: cost_w_close_surface_def default_w_close_surface_def; fail)
      | (unfold w_close_surface_field_def, (rule paying_rules | (simp add: cost_w_close_surface_def; fail))+))+

interpretation web_frame_heap: paying_decoder w_web_frame_field default_w_web_frame cost_w_web_frame
  by unfold_locales
    ((simp add: cost_w_web_frame_def default_w_web_frame_def; fail)
      | (unfold w_web_frame_field_def, (rule paying_rules | (simp add: cost_w_web_frame_def; fail))+))+

interpretation caret_area_heap: paying_decoder w_caret_area_field default_w_caret_area cost_w_caret_area
  by unfold_locales
    ((simp add: cost_w_caret_area_def default_w_caret_area_def; fail)
      | (unfold w_caret_area_field_def, (rule paying_rules | (simp add: cost_w_caret_area_def; fail))+))+

interpretation load_state_heap: paying_decoder w_load_state_field default_w_load_state cost_w_load_state
  by unfold_locales
    ((simp add: cost_w_load_state_def default_w_load_state_def; fail)
      | (unfold w_load_state_field_def, (rule paying_rules | (simp add: cost_w_load_state_def; fail))+))+

interpretation gone_heap: paying_decoder w_gone_field default_w_gone cost_w_gone
  by unfold_locales
    ((simp add: cost_w_gone_def default_w_gone_def; fail)
      | (unfold w_gone_field_def, (rule paying_rules | (simp add: cost_w_gone_def; fail))+))+

section \<open>The envelope\<close>

lemma payload_room:
  assumes "\<And>v. payload_cost lay (con v) = cost v" and "\<And>v. present = Some v \<Longrightarrow> w_envelope_payload m = Some (con v)"
  shows "cost_w_envelope lay (set_payload m con v) + case_option 0 cost present \<le> cost_w_envelope lay m + cost v"
  using assms by (cases present) (simp_all add: cost_w_envelope_def set_payload_def)

lemma envelope_pays: "pays (cost_w_envelope lay) m b (w_envelope_field lay f m b)"
proof -
  note nested =
      handshake_heap.pays_nested [folded read_w_handshake_def]
      handshake_ack_heap.pays_nested [folded read_w_handshake_ack_def]
      suggest_request_heap.pays_nested [folded read_w_suggest_request_def]
      result_batch_heap.pays_nested [folded read_w_result_batch_def]
      cancel_heap.pays_nested [folded read_w_cancel_def] shutdown_heap.pays_nested [folded read_w_shutdown_def]
      catalog_request_heap.pays_nested [folded read_w_catalog_request_def]
      catalog_batch_heap.pays_nested [folded read_w_catalog_batch_def]
      execute_request_heap.pays_nested [folded read_w_execute_request_def]
      execute_result_heap.pays_nested [folded read_w_execute_result_def]
      configuration_change_heap.pays_nested [folded read_w_configuration_change_def]
      event_heap.pays_nested [folded read_w_event_def] log_record_heap.pays_nested [folded read_w_log_record_def]
      health_check_heap.pays_nested [folded read_w_health_check_def]
      health_report_heap.pays_nested [folded read_w_health_report_def]
      structured_error_heap.pays_nested [folded read_w_structured_error_def]
      flow_control_heap.pays_nested [folded read_w_flow_control_def]
      resource_request_heap.pays_nested [folded read_w_resource_request_def]
      resource_response_heap.pays_nested [folded read_w_resource_response_def]
      lifecycle_heap.pays_nested [folded read_w_lifecycle_def]
      lifecycle_ack_heap.pays_nested [folded read_w_lifecycle_ack_def]
      page_request_heap.pays_nested [folded read_w_page_request_def]
  note merged =
      page_frame_heap.pays_merge_payload open_surface_heap.pays_merge_payload raw_input_heap.pays_merge_payload
      ime_event_heap.pays_merge_payload navigate_heap.pays_merge_payload resize_heap.pays_merge_payload
      close_surface_heap.pays_merge_payload web_frame_heap.pays_merge_payload caret_area_heap.pays_merge_payload
      load_state_heap.pays_merge_payload gone_heap.pays_merge_payload
  show ?thesis
    unfolding w_envelope_field_def
    by (rule paying_rules nested merged
      | (simp add: cost_w_envelope_def set_payload_def; fail)
      | (rule payload_room, simp, simp split: option.splits payload.splits; fail))+
qed

interpretation envelope_heap: paying_decoder "w_envelope_field lay" default_w_envelope "cost_w_envelope lay" for lay
  by unfold_locales (rule envelope_pays, simp add: cost_w_envelope_def default_w_envelope_def)

end
