(* ===== verification/Batch_Sizing.thy ===== *)
theory Batch_Sizing
  imports Envelope_Heap
begin

text \<open>
  The producer's side of the decode budget: \<open>RepeatedFieldCharge\<close> mirrors what the decoder
  charges, the decode charges of items and actions are upper bounds of it, and
  \<open>max_decodable_items\<close> finds the longest prefix that fits.
\<close>

section \<open>Saturating sums\<close>

lemma sat_add_min: "usize_sat_add (min a usize_max) (min b usize_max) = min (a + b) usize_max"
  by (simp add: usize_sat_add_def min_def)

lemma sat_add_min_left: "usize_sat_add (min a usize_max) b = min (a + b) usize_max"
  by (simp add: usize_sat_add_def min_def)

lemma sat_mul_min: "usize_sat_mul a b = min (a * b) usize_max"
  by (simp add: usize_sat_mul_def)

section \<open>The charge of a repeated field\<close>

definition rf_pushes :: "nat \<Rightarrow> nat \<Rightarrow> repeated_field_charge" where
  "rf_pushes element n = (rf_push ^^ n) (rf_new element)"

lemma rf_pushes_simps [simp]: "rf_pushes element 0 = rf_new element" "rf_pushes element (Suc n) = rf_push (rf_pushes element n)"
  by (simp_all add: rf_pushes_def)

lemma rf_element_push [simp]: "rf_element (rf_push c) = rf_element c"
  by (simp add: rf_push_def Let_def)

lemma rf_push_charged:
  "rf_charged (rf_push c) = usize_sat_add
     (if rf_length c = rf_capacity c
      then usize_sat_add (rf_charged c)
        (usize_sat_mul ((case grown_capacity (rf_capacity c) of None \<Rightarrow> usize_max | Some n \<Rightarrow> n) - rf_capacity c) (rf_element c))
      else rf_charged c)
     (usize_sat_add (rf_element c) decode_repetition_overhead)"
  by (simp add: rf_push_def Let_def)

lemma rf_pushes_exact:
  assumes "n * 64 \<le> usize_max"
  shows "rf_pushes element n = \<lparr>rf_element = element, rf_capacity = vec_capacity n, rf_length = n,
    rf_charged = min (repeat_cost element n) usize_max\<rparr>"
  using assms
proof (induction n)
  case 0
  then show ?case by (simp add: rf_new_def repeat_cost_def)
next
  case (Suc n)
  then have n: "n * 64 \<le> usize_max" by simp
  obtain c where c: "grown_capacity n = Some c" "n < c" using grown_small [OF n] by blast
  define k where "k = element + decode_repetition_overhead"
  have len: "usize_sat_add n 1 = Suc n" using Suc.prems by (simp add: usize_sat_add_def)
  have over: "usize_sat_add element decode_repetition_overhead = min k usize_max" by (simp add: usize_sat_add_def k_def)
  show ?case
  proof (cases "n = vec_capacity n")
    case True
    have "repeat_cost element (Suc n) = repeat_cost element n + (c - n) * element + k"
      using repeat_cost_Suc [OF n, of element] True c by (simp add: next_capacity_def k_def)
    moreover have "usize_sat_add (usize_sat_add (min (repeat_cost element n) usize_max) (usize_sat_mul (c - n) element)) (min k usize_max)
        = min (repeat_cost element n + (c - n) * element + k) usize_max"
      by (simp only: sat_mul_min sat_add_min)
    ultimately show ?thesis using Suc.IH [OF n] True c by (simp add: rf_push_def next_capacity_def Let_def len [simplified] over)
  next
    case False
    then have "repeat_cost element (Suc n) = repeat_cost element n + k"
      using repeat_cost_Suc [OF n, of element] by (simp add: next_capacity_def k_def)
    moreover have "usize_sat_add (min (repeat_cost element n) usize_max) (min k usize_max) = min (repeat_cost element n + k) usize_max"
      by (rule sat_add_min)
    ultimately show ?thesis using Suc.IH [OF n] False by (simp add: rf_push_def next_capacity_def Let_def len [simplified] over)
  qed
qed

lemma rf_charged_bounded: "rf_charged (rf_pushes element n) \<le> usize_max"
  by (cases n) (simp_all add: rf_new_def rf_push_charged usize_sat_add_def)

lemma rf_charged_step: "usize_sat_add (rf_charged c) 64 \<le> rf_charged (rf_push c)"
  by (auto simp: rf_push_charged usize_sat_add_def decode_repetition_overhead_def)

lemma rf_charged_pushes: "rf_charged (rf_pushes element n) = min (repeat_cost element n) usize_max"
proof (cases "n * 64 \<le> usize_max")
  case True
  then show ?thesis by (simp add: rf_pushes_exact)
next
  case False
  have "min (k * 64) usize_max \<le> rf_charged (rf_pushes element k)" for k
  proof (induction k)
    case (Suc k)
    then show ?case using rf_charged_step [of "rf_pushes element k"] by (simp add: usize_sat_add_def)
  qed simp
  from this [of n] have "rf_charged (rf_pushes element n) = usize_max" using False rf_charged_bounded [of element n] by simp
  moreover have "n * 64 \<le> repeat_cost element n"
    by (simp add: repeat_cost_def decode_repetition_overhead_def add_mult_distrib2)
  ultimately show ?thesis using False by simp
qed

section \<open>The charges of actions and items\<close>

lemma unknown_capacity_le: "unknown_capacity u \<le> 2 * length (as_bytes u)"
proof -
  have "c \<le> 2 * held \<Longrightarrow> buffer_capacity held c u \<le> 2 * (held + length (concat u))" for held c
  proof (induction u arbitrary: held c)
    case (Cons raw u)
    have "buffer_capacity held c (raw # u) \<le> 2 * (held + length raw + length (concat u))"
      unfolding buffer_capacity.simps using Cons.prems by (intro Cons.IH) auto
    then show ?case by simp
  qed simp
  from this [of 0 0] show ?thesis by (simp add: unknown_capacity_def as_bytes_def)
qed

definition strings_size :: "layout \<Rightarrow> utf8 list \<Rightarrow> nat" where
  "strings_size lay xs = sum_list (map length xs) + repeat_cost (size_string lay) (length xs)"

definition action_size :: "layout \<Rightarrow> w_action \<Rightarrow> nat" where
  "action_size lay m =
     length (w_action_action_id m) + (length (w_action_label m) + length (w_action_description m) + length (w_action_icon_reference m)
       + length (w_action_execution_policy m))
     + strings_size lay (w_action_applicable_categories m) + 2 * length (as_bytes (w_action_unknown m))"

definition item_size :: "layout \<Rightarrow> w_item \<Rightarrow> nat" where
  "item_size lay m =
     length (w_item_stable_id m) + (length (w_item_label m) + length (w_item_description m) + length (w_item_target m)
       + length (w_item_category m) + length (w_item_icon_reference m) + length (w_item_argument_policy m) + length (w_item_hit_policy m))
     + strings_size lay (w_item_search_terms m) + sum_list (map (entry_cost lay) (w_item_metadata m))
     + (sum_list (map (action_size lay) (w_item_actions m)) + repeat_cost (size_action lay) (length (w_item_actions m)))
     + 2 * length (as_bytes (w_item_unknown m))"

text \<open>A loop that pushes onto a repeated field and adds the charge of each element.\<close>

lemma charge_loop:
  assumes "\<And>x. x \<in> set xs \<Longrightarrow> w x = min (v x) usize_max"
  shows "foldl (\<lambda>(c, total) x. (rf_push c, usize_sat_add total (w x))) (rf_pushes element k, min t usize_max) xs
    = (rf_pushes element (k + length xs), min (t + sum_list (map v xs)) usize_max)"
  using assms
proof (induction xs arbitrary: k t)
  case (Cons x xs)
  have "usize_sat_add (min t usize_max) (w x) = min (t + v x) usize_max"
    using Cons.prems [of x] by (simp only: list.set_intros sat_add_min)
  with Cons.IH [of "Suc k" "t + v x"] Cons.prems show ?case by (simp add: add.assoc)
qed simp

lemma charge_strings_eq:
  assumes "list_all wf_string xs"
  shows "charge_strings xs (rf_new element, min t usize_max) = (rf_pushes element (length xs), min (t + sum_list (map length xs)) usize_max)"
  using charge_loop [of xs length length element 0 t] assms
  by (simp add: charge_strings_def list_all_iff wf_string_def min_def)

lemma fold_lengths:
  "length v \<le> usize_max \<Longrightarrow>
   foldl (\<lambda>total x. usize_sat_add total (length x)) (length v) xs = min (length v + sum_list (map length xs)) usize_max"
  by (rule fold_usize_sat_add)

lemma action_charge:
  assumes "wf_w_action m"
  shows "action_decode_charge lay m = min (action_size lay m) usize_max"
proof -
  have wf: "length (w_action_action_id m) \<le> usize_max" "list_all wf_string (w_action_applicable_categories m)"
    using assms by (simp_all add: wf_w_action_def wf_string_def)
  show ?thesis
    unfolding action_decode_charge_def fold_lengths [OF wf(1)]
    by (simp add: charge_strings_eq [OF wf(2)] rf_charged_pushes unknown_charge_def sat_mul_min sat_add_min action_size_def strings_size_def algebra_simps)
qed

lemma metadata_loop:
  "foldl (\<lambda>total (k, v). usize_sat_add (usize_sat_add (usize_sat_add total (map_entry_charge lay)) (length k)) (length v))
     (min t usize_max) xs = min (t + sum_list (map (entry_cost lay) xs)) usize_max"
proof (induction xs arbitrary: t)
  case (Cons e xs)
  have "usize_sat_add (usize_sat_add (usize_sat_add (min t usize_max) (map_entry_charge lay)) (length (fst e))) (length (snd e))
      = min (t + entry_cost lay e) usize_max"
    by (simp add: sat_add_min_left entry_cost_def algebra_simps)
  with Cons.IH [of "t + entry_cost lay e"] show ?case by (simp add: case_prod_beta add.assoc)
qed simp

lemma item_charge:
  assumes "wf_w_item m"
  shows "item_decode_charge lay m = min (item_size lay m) usize_max"
proof -
  have wf: "length (w_item_stable_id m) \<le> usize_max" "list_all wf_string (w_item_search_terms m)"
    "\<And>a. a \<in> set (w_item_actions m) \<Longrightarrow> wf_w_action a"
    using assms by (simp_all add: wf_w_item_def wf_string_def list_all_iff sendable_def)
  note actions = charge_loop [of "w_item_actions m" "action_decode_charge lay" "action_size lay" "size_action lay" 0, simplified, OF action_charge [OF wf(3)]]
  show ?thesis
    unfolding item_decode_charge_def fold_lengths [OF wf(1)]
    by (simp add: charge_strings_eq [OF wf(2)] rf_charged_pushes sat_add_min metadata_loop actions unknown_charge_def sat_mul_min
        item_size_def strings_size_def algebra_simps)
qed

text \<open>What decoding charges is at most what the producer computed.\<close>

lemma action_cost_le: "cost_w_action lay m \<le> action_size lay m"
  using unknown_capacity_le [of "w_action_unknown m"] by (simp add: cost_w_action_def action_size_def strings_size_def)

lemma item_cost_le: "cost_w_item lay m \<le> item_size lay m"
proof -
  have "sum_list (map (cost_w_action lay) (w_item_actions m)) \<le> sum_list (map (action_size lay) (w_item_actions m))"
    by (intro sum_list_mono action_cost_le)
  with unknown_capacity_le [of "w_item_unknown m"] show ?thesis by (simp add: cost_w_item_def item_size_def strings_size_def)
qed

section \<open>The longest prefix that can be decoded\<close>

definition batch_size :: "layout \<Rightarrow> w_item list \<Rightarrow> nat" where
  "batch_size lay items = repeat_cost (size_item lay) (length items) + sum_list (map (item_size lay) items)"

abbreviation batch_ceiling :: nat where
  "batch_ceiling \<equiv> decode_allocation_budget - batch_overhead_reserve"

lemma ceiling_small: "batch_ceiling < usize_max"
  by (simp add: decode_allocation_budget_def batch_overhead_reserve_def usize_max_def)

lemma vec_capacity_mono: "vec_capacity n \<le> vec_capacity (Suc n)"
  by (auto simp: next_capacity_def grown_capacity_def usize_checked_mul_def usize_checked_add_def)

lemma batch_size_mono: "batch_size lay xs \<le> batch_size lay (xs @ ys)"
proof -
  have "repeat_cost element n \<le> repeat_cost element (Suc n)" for element n
    using vec_capacity_mono [of n] by (simp add: repeat_cost_def add_mono mult_le_mono1 del: vec_capacity.simps)
  then have "repeat_cost element n \<le> repeat_cost element (n + k)" for element n k by (rule lift_Suc_mono_le) simp
  then show ?thesis by (simp add: batch_size_def add_mono)
qed

text \<open>
  \<open>k\<close> items are the longest prefix within the ceiling, or the first item alone when it
  is beyond the ceiling itself.
\<close>

definition longest_prefix :: "layout \<Rightarrow> w_item list \<Rightarrow> nat \<Rightarrow> bool" where
  "longest_prefix lay items k \<longleftrightarrow>
     k \<le> length items \<and> (items \<noteq> [] \<longrightarrow> 0 < k)
     \<and> (batch_size lay (take k items) \<le> batch_ceiling \<or> k = 1)
     \<and> (k < length items \<longrightarrow> batch_ceiling < batch_size lay (take (Suc k) items))"

lemma decodable_from_spec:
  assumes "list_all wf_w_item xs" and "batch_size lay ps \<le> batch_ceiling"
  shows "longest_prefix lay (ps @ xs) (decodable_from lay (length ps) (rf_pushes (size_item lay) (length ps))
    (min (sum_list (map (item_size lay) ps)) usize_max) xs)"
  using assms
proof (induction xs arbitrary: ps)
  case Nil
  then show ?case by (simp add: longest_prefix_def)
next
  case (Cons x xs)
  have contents: "usize_sat_add (min (sum_list (map (item_size lay) ps)) usize_max) (item_decode_charge lay x)
      = min (sum_list (map (item_size lay) (ps @ [x]))) usize_max"
    using Cons.prems(1) by (simp add: item_charge sat_add_min)
  have total: "usize_sat_add (rf_charged (rf_pushes (size_item lay) (Suc (length ps)))) (min (sum_list (map (item_size lay) (ps @ [x]))) usize_max)
      = min (batch_size lay (ps @ [x])) usize_max"
    by (simp add: rf_charged_pushes sat_add_min batch_size_def del: rf_pushes_simps)
  have step: "decodable_from lay (length ps) (rf_pushes (size_item lay) (length ps)) (min (sum_list (map (item_size lay) ps)) usize_max) (x # xs)
      = (if batch_ceiling < batch_size lay (ps @ [x]) then max (length ps) 1
         else decodable_from lay (length (ps @ [x])) (rf_pushes (size_item lay) (length (ps @ [x])))
           (min (sum_list (map (item_size lay) (ps @ [x]))) usize_max) xs)"
    unfolding decodable_from.simps Let_def contents rf_pushes_simps(2) [symmetric] total using ceiling_small by simp
  show ?case
  proof (cases "batch_ceiling < batch_size lay (ps @ [x])")
    case True
    have "batch_ceiling < batch_size lay (take (Suc 1) (x # xs))" if "ps = []"
      using True that batch_size_mono [of lay "[x]" "take 1 xs"] by simp
    moreover have "max (length ps) 1 = length ps" if "ps \<noteq> []" using that by (cases ps) simp_all
    ultimately show ?thesis using True Cons.prems(2) unfolding step by (cases "ps = []") (auto simp: longest_prefix_def)
  next
    case False
    then have "batch_size lay (ps @ [x]) \<le> batch_ceiling" by simp
    from Cons.IH [OF _ this] Cons.prems(1) False show ?thesis unfolding step by simp
  qed
qed

lemma max_decodable_longest: "list_all wf_w_item items \<Longrightarrow> longest_prefix lay items (max_decodable_items lay items)"
  using decodable_from_spec [of items lay "[]"] by (simp add: max_decodable_items_def batch_size_def)

text \<open>
  The charge the producer computes for a batch of the items: one push onto the repeated field
  and the item's own charge for each, in saturating arithmetic.
\<close>

definition batch_charge :: "layout \<Rightarrow> w_item list \<Rightarrow> nat" where
  "batch_charge lay items =
     (case foldl (\<lambda>(c, total) i. (rf_push c, usize_sat_add total (item_decode_charge lay i))) (rf_new (size_item lay), 0) items of
        (repeated, contents) \<Rightarrow> usize_sat_add (rf_charged repeated) contents)"

lemma batch_charge_eq:
  assumes "list_all wf_w_item items"
  shows "batch_charge lay items = min (batch_size lay items) usize_max"
  using charge_loop [of items "item_decode_charge lay" "item_size lay" "size_item lay" 0 0] assms
  by (simp add: batch_charge_def list_all_iff item_charge rf_charged_pushes sat_add_min batch_size_def)

lemma batch_charge_le:
  "list_all wf_w_item items \<Longrightarrow> batch_charge lay items \<le> batch_ceiling \<longleftrightarrow> batch_size lay items \<le> batch_ceiling"
  using ceiling_small by (auto simp: batch_charge_eq)

lemma max_decodable_spec:
  assumes "list_all wf_w_item items" and "k = max_decodable_items lay items"
  shows "k \<le> length items" and "items \<noteq> [] \<Longrightarrow> 0 < k"
    and "k < length items \<Longrightarrow> batch_ceiling < batch_charge lay (take (Suc k) items)"
    and "batch_charge lay (take 1 items) \<le> batch_ceiling \<Longrightarrow> batch_charge lay (take k items) \<le> batch_ceiling"
    and "batch_ceiling < batch_charge lay (take 1 items) \<Longrightarrow> k = 1"
proof -
  have longest: "longest_prefix lay items k" using max_decodable_longest [OF assms(1)] assms(2) by simp
  have wf: "list_all wf_w_item (take j items)" for j using assms(1) by (auto simp: list_all_iff dest: in_set_takeD)
  note le = batch_charge_le [OF wf, of lay]
  show "k \<le> length items" and "items \<noteq> [] \<Longrightarrow> 0 < k" using longest by (simp_all add: longest_prefix_def)
  show "batch_ceiling < batch_charge lay (take (Suc k) items)" if "k < length items"
    using longest that le [of "Suc k"] unfolding longest_prefix_def by linarith
  show "batch_charge lay (take k items) \<le> batch_ceiling" if "batch_charge lay (take 1 items) \<le> batch_ceiling"
    using longest that unfolding le by (auto simp: longest_prefix_def)
  show "k = 1" if over: "batch_ceiling < batch_charge lay (take 1 items)"
  proof -
    have one: "batch_ceiling < batch_size lay (take 1 items)" using over le [of 1] by linarith
    then have "items \<noteq> []" by (auto simp: batch_size_def)
    then have "take k items = take 1 items @ drop 1 (take k items)"
      using longest by (cases k; cases items) (simp_all add: longest_prefix_def)
    then have "batch_size lay (take 1 items) \<le> batch_size lay (take k items)" by (metis batch_size_mono)
    with one longest show ?thesis by (auto simp: longest_prefix_def)
  qed
qed

lemma batch_cost_le:
  "cost_w_result_batch lay m \<le> batch_size lay (w_result_batch_items m) + case_option 0 cost_w_structured_error (w_result_batch_error m)
     + unknown_capacity (w_result_batch_unknown m)"
  "cost_w_catalog_batch lay c \<le> batch_size lay (w_catalog_batch_items c) + case_option 0 cost_w_structured_error (w_catalog_batch_error c)
     + unknown_capacity (w_catalog_batch_unknown c)"
  using sum_list_mono [of "w_result_batch_items m" "cost_w_item lay" "item_size lay"]
    sum_list_mono [of "w_catalog_batch_items c" "cost_w_item lay" "item_size lay"]
  by (simp_all add: item_cost_le cost_w_result_batch_def cost_w_catalog_batch_def batch_size_def)

end
