(* ===== verification/Protocol_Props.thy ===== *)
theory Protocol_Props
  imports Batch_Sizing
begin

text \<open>
  The properties of the native plugin protocol: what is sent is what is read, no bytes make
  the decoder build more than its budget, and a batch sized by the producer is decodable.
\<close>

section \<open>A concrete message\<close>

definition demo_layout :: layout where
  "demo_layout = \<lparr>size_string = 24, size_string_pair = 48, size_item = 328, size_action = 168, size_page_input = 96, size_page_node = 200\<rparr>"

definition demo_w_action :: w_action where
  "demo_w_action = default_w_action\<lparr>w_action_action_id := [111, 112], w_action_applicable_categories := [[102], [195, 169]]\<rparr>"

definition demo_w_item :: w_item where
  "demo_w_item = default_w_item\<lparr>w_item_stable_id := [105], w_item_label := [226, 130, 172], w_item_score_hint := - 3,
     w_item_metadata := [([97], [49]), ([98], [])], w_item_actions := [demo_w_action], w_item_unknown := [[128, 1, 7]]\<rparr>"

definition demo_w_batch :: w_result_batch where
  "demo_w_batch = default_w_result_batch\<lparr>w_result_batch_state := BatchState_Final, w_result_batch_items := [demo_w_item], w_result_batch_sequence := 300\<rparr>"

definition demo_w_envelope :: w_envelope where
  "demo_w_envelope = default_w_envelope\<lparr>w_envelope_request_id := 9, w_envelope_generation := 2 ^ 63, w_envelope_payload := Some (PayResults demo_w_batch)\<rparr>"

lemma demo_w_item_ok: "sendable wf_w_item encode_w_item demo_w_item"
  by code_simp

lemma demo_w_item_wf: "wf_w_item demo_w_item"
  using demo_w_item_ok by (simp add: sendable_def)

lemma demo_w_batch_wf: "wf_w_result_batch demo_w_batch"
  by (simp add: wf_w_result_batch_def demo_w_batch_def default_w_result_batch_def unknown_ok_def demo_w_item_ok)

lemma demo_w_batch_fits: "fits (encode_w_result_batch demo_w_batch)"
  by code_simp

lemma demo_w_wf: "wf_w_envelope demo_w_envelope"
  by (simp add: wf_w_envelope_def demo_w_envelope_def default_w_envelope_def unknown_ok_def sendable_def demo_w_batch_wf demo_w_batch_fits)

lemma demo_w_length: "length (encode_w_envelope demo_w_envelope) = 70"
  by code_simp

lemma demo_w_cost: "cost_w_envelope demo_layout demo_w_envelope \<le> decode_allocation_budget"
  by (simp add: cost_w_envelope_def demo_w_envelope_def demo_w_batch_def demo_w_item_def demo_w_action_def demo_layout_def
      default_w_envelope_def default_w_result_batch_def default_w_item_def default_w_action_def
      cost_w_result_batch_def cost_w_item_def cost_w_action_def entry_cost_def map_entry_charge_def repeat_cost_def
      next_capacity_def grown_capacity_def unknown_capacity_def decode_repetition_overhead_def usize_sat_add_def usize_max_def
      decode_allocation_budget_def)

lemma demo_w_decodes: "decode_w_envelope demo_layout (encode_w_envelope demo_w_envelope) = Inr demo_w_envelope"
  unfolding decode_w_envelope_def
  by (rule envelope_codec.round_trip [OF demo_w_wf _ demo_w_cost]) (simp_all add: demo_w_length max_frame_bytes_def max_decode_depth_def decode_allocation_budget_def)

lemma demo_w_batch_size: "batch_size demo_layout [demo_w_item] \<le> decode_allocation_budget - batch_overhead_reserve"
  by (simp add: batch_size_def item_size_def action_size_def strings_size_def as_bytes_def demo_w_item_def demo_w_action_def demo_layout_def default_w_item_def default_w_action_def
      cost_w_item_def cost_w_action_def entry_cost_def map_entry_charge_def repeat_cost_def
      next_capacity_def grown_capacity_def unknown_capacity_def decode_repetition_overhead_def usize_sat_add_def usize_max_def
      decode_allocation_budget_def batch_overhead_reserve_def)

section \<open>Properties\<close>

text \<open>
  C10: Whatever message a host or a plugin puts into an envelope, any of the thirty-three, the
  other side reads back exactly that message, provided text is UTF-8, floats are not the
  negative zero, and the frame and the heap it takes are within the protocol's limits. Fields
  an older peer does not know come back with it.
\<close>

theorem envelope_round_trip:
  assumes "wf_w_envelope e" and "length (encode_w_envelope e) \<le> max_frame_bytes"
    and "cost_w_envelope lay e \<le> decode_allocation_budget"
  shows "decode_w_envelope lay (encode_w_envelope e) = Inr e"
  unfolding decode_w_envelope_def
  by (rule envelope_codec.round_trip [OF assms]) (simp add: max_decode_depth_def)

theorem envelope_round_trip_witness:
  "decode_w_envelope demo_layout (encode_w_envelope demo_w_envelope) = Inr demo_w_envelope
    \<and> w_item_unknown demo_w_item = [[128, 1, 7]]"
  using envelope_round_trip [OF demo_w_wf _ demo_w_cost]
  by (simp add: demo_w_length max_frame_bytes_def decode_allocation_budget_def demo_w_item_def)

text \<open>
  C11: No bytes make the decoder build more than its budget: the heap of whatever envelope it
  returns, by its own accounting, is at most eight megabytes. In particular the items of a
  batch are bounded, however many the bytes repeat.
\<close>

theorem decoded_heap_bounded:
  assumes "decode_w_envelope lay bs = Inr e"
  shows "cost_w_envelope lay e \<le> decode_allocation_budget
    \<and> (\<forall>m. w_envelope_payload e = Some (PayResults m) \<longrightarrow>
         length (w_result_batch_items m) * (size_item lay + decode_repetition_overhead) \<le> decode_allocation_budget)"
proof -
  have heap: "cost_w_envelope lay e \<le> decode_allocation_budget"
    using assms by (intro envelope_heap.heap_bounded) (simp add: decode_w_envelope_def)
  have "length (w_result_batch_items m) * (size_item lay + decode_repetition_overhead) \<le> cost_w_envelope lay e"
    if "w_envelope_payload e = Some (PayResults m)" for m
    using that by (simp add: cost_w_envelope_def cost_w_result_batch_def repeat_cost_def)
  with heap show ?thesis by (meson order_trans)
qed

theorem decoded_heap_bounded_witness:
  "decode_w_envelope demo_layout (encode_w_envelope demo_w_envelope) = Inr demo_w_envelope
   \<and> cost_w_envelope demo_layout demo_w_envelope \<le> decode_allocation_budget
   \<and> length (w_result_batch_items demo_w_batch) * (328 + decode_repetition_overhead) \<le> decode_allocation_budget"
  using decoded_heap_bounded [OF demo_w_decodes] demo_w_decodes by (simp add: demo_w_envelope_def demo_layout_def)

text \<open>
  C12: \<open>max_decodable_items\<close> cuts at the right place. The prefix it names is not empty unless
  there is nothing to send; adding the next item would push the charge over the ceiling; and
  its own charge stays under the ceiling, except that an item which is over the ceiling by
  itself goes alone. A result batch of the prefix decodes at the receiver unless its one item
  is too large, as long as what surrounds the items keeps to the reserve; so does a catalog
  batch. The charge is the one the producer accumulates, with saturating arithmetic.
\<close>

theorem sized_batch_decodes:
  assumes "list_all wf_w_item items" and "k = max_decodable_items lay items"
    and "ceiling = decode_allocation_budget - batch_overhead_reserve"
  shows "k \<le> length items \<and> (items \<noteq> [] \<longrightarrow> 0 < k)
    \<and> (k < length items \<longrightarrow> ceiling < batch_charge lay (take (Suc k) items))
    \<and> (ceiling < batch_charge lay (take 1 items) \<longrightarrow> k = 1)
    \<and> (batch_charge lay (take 1 items) \<le> ceiling \<longrightarrow> batch_charge lay (take k items) \<le> ceiling
        \<and> (wf_w_envelope e \<and> length (encode_w_envelope e) \<le> max_frame_bytes
            \<and> (w_envelope_payload e = Some (PayResults m) \<and> w_result_batch_items m = take k items
                 \<and> case_option 0 cost_w_structured_error (w_result_batch_error m) + unknown_capacity (w_result_batch_unknown m)
                   + unknown_capacity (w_envelope_unknown e) \<le> batch_overhead_reserve
               \<or> w_envelope_payload e = Some (PayCatalogBatch c) \<and> w_catalog_batch_items c = take k items
                 \<and> case_option 0 cost_w_structured_error (w_catalog_batch_error c) + unknown_capacity (w_catalog_batch_unknown c)
                   + unknown_capacity (w_envelope_unknown e) \<le> batch_overhead_reserve)
            \<longrightarrow> decode_w_envelope lay (encode_w_envelope e) = Inr e))"
proof -
  note cut = max_decodable_spec [OF assms(1,2), folded assms(3)]
  have wf: "list_all wf_w_item (take k items)" using assms(1) by (auto simp: list_all_iff dest: in_set_takeD)
  have "decode_w_envelope lay (encode_w_envelope e) = Inr e"
    if fits: "batch_charge lay (take k items) \<le> ceiling" and e: "wf_w_envelope e" "length (encode_w_envelope e) \<le> max_frame_bytes"
      and parts: "w_envelope_payload e = Some (PayResults m) \<and> w_result_batch_items m = take k items
                 \<and> case_option 0 cost_w_structured_error (w_result_batch_error m) + unknown_capacity (w_result_batch_unknown m)
                   + unknown_capacity (w_envelope_unknown e) \<le> batch_overhead_reserve
               \<or> w_envelope_payload e = Some (PayCatalogBatch c) \<and> w_catalog_batch_items c = take k items
                 \<and> case_option 0 cost_w_structured_error (w_catalog_batch_error c) + unknown_capacity (w_catalog_batch_unknown c)
                   + unknown_capacity (w_envelope_unknown e) \<le> batch_overhead_reserve"
  proof -
    have "batch_size lay (take k items) \<le> batch_ceiling" using fits batch_charge_le [OF wf] assms(3) by simp
    moreover have "batch_overhead_reserve \<le> decode_allocation_budget"
      by (simp add: batch_overhead_reserve_def decode_allocation_budget_def)
    ultimately have "cost_w_envelope lay e \<le> decode_allocation_budget"
      using parts batch_cost_le(1) [of lay m] batch_cost_le(2) [of lay c] by (auto simp: cost_w_envelope_def)
    then have "decode_message (w_envelope_field lay) default_w_envelope (encode_w_envelope e) = Inr e"
      by (rule envelope_codec.round_trip [OF e]) (simp add: max_decode_depth_def)
    then show ?thesis by (simp add: decode_w_envelope_def)
  qed
  with cut show ?thesis by blast
qed

theorem sized_batch_decodes_witness:
  "max_decodable_items demo_layout [demo_w_item] = 1 \<and> w_result_batch_items demo_w_batch = [demo_w_item]
   \<and> decode_w_envelope demo_layout (encode_w_envelope demo_w_envelope) = Inr demo_w_envelope"
proof -
  have one: "max_decodable_items demo_layout [demo_w_item] = 1"
    using max_decodable_longest [of "[demo_w_item]" demo_layout] by (simp add: demo_w_item_wf longest_prefix_def)
  have parts: "w_envelope_payload demo_w_envelope = Some (PayResults demo_w_batch)" "w_result_batch_items demo_w_batch = [demo_w_item]"
    "w_result_batch_error demo_w_batch = None" "w_result_batch_unknown demo_w_batch = []" "w_envelope_unknown demo_w_envelope = []"
    by (simp_all add: demo_w_envelope_def demo_w_batch_def default_w_envelope_def default_w_result_batch_def)
  have wf: "list_all wf_w_item [demo_w_item]" by (simp add: demo_w_item_wf)
  have "batch_charge demo_layout [demo_w_item] \<le> batch_ceiling"
    using demo_w_batch_size batch_charge_le [OF wf, of demo_layout]
    by (simp add: decode_allocation_budget_def batch_overhead_reserve_def)
  moreover have "length (encode_w_envelope demo_w_envelope) \<le> max_frame_bytes"
    by (simp add: demo_w_length max_frame_bytes_def decode_allocation_budget_def)
  ultimately have "decode_w_envelope demo_layout (encode_w_envelope demo_w_envelope) = Inr demo_w_envelope"
    using sized_batch_decodes [OF wf refl refl, of demo_layout demo_w_envelope demo_w_batch] one
    by (simp add: parts demo_w_wf unknown_capacity_def)
  with one show ?thesis by (simp add: demo_w_batch_def)
qed

end
