(* ===== verification/Transport.thy ===== *)
theory Transport
  imports Frames Protocol_Props
begin

text \<open>
  The framed connection of \<open>crates/crikey-native-protocol/src/transport.rs\<close>: an envelope is
  encoded and framed on the way out, read and decoded on the way in. The stream beneath it, a
  socket, a pipe or the standard streams, is given by its methods; a closed one is \<open>None\<close>.
\<close>

section \<open>Model\<close>

record 's io_transport =
  tr_stream :: "'s option"
  tr_reader :: frame_reader
  tr_read_timeout :: "u64 option"

definition transport_new :: "'s option \<Rightarrow> 's io_transport" where
  "transport_new stream = \<lparr>tr_stream = stream, tr_reader = frame_reader_new, tr_read_timeout = None\<rparr>"

definition transport_send ::
  "(bytes \<Rightarrow> 's \<Rightarrow> (io_error + unit) \<times> 's) \<Rightarrow> ('s \<Rightarrow> (io_error + unit) \<times> 's) \<Rightarrow> 's io_transport \<Rightarrow> w_envelope
    \<Rightarrow> (protocol_error + unit) \<times> 's io_transport" where
  "transport_send write_all flush t e =
     (case tr_stream t of
        None \<Rightarrow> (Inl Closed, t)
      | Some stream \<Rightarrow>
          (case write_frame write_all flush stream (encode_w_envelope e) of
             (outcome, stream) \<Rightarrow> (outcome, t\<lparr>tr_stream := Some stream\<rparr>)))"

definition transport_recv ::
  "layout \<Rightarrow> 's read_method \<Rightarrow> 's io_transport \<Rightarrow> ((protocol_error + w_envelope) \<times> 's io_transport) option" where
  "transport_recv lay read t =
     (case tr_stream t of
        None \<Rightarrow> Some (Inl Closed, t)
      | Some stream \<Rightarrow>
          map_option (\<lambda>(outcome, reader, stream).
              (chain outcome (decode_w_envelope lay), t\<lparr>tr_stream := Some stream, tr_reader := reader\<rparr>))
            (read_frame read (tr_reader t) stream))"

definition transport_close :: "'s io_transport \<Rightarrow> 's io_transport" where
  "transport_close t = t\<lparr>tr_stream := None\<rparr>"

text \<open>A peer that receives until the connection fails for good, calling again after a timeout.\<close>

fun recv_session :: "nat \<Rightarrow> layout \<Rightarrow> 's read_method \<Rightarrow> 's io_transport \<Rightarrow> (w_envelope list \<times> protocol_error) option" where
  "recv_session 0 lay read t = None"
| "recv_session (Suc fuel) lay read t =
     (case transport_recv lay read t of
        None \<Rightarrow> None
      | Some (Inr e, t) \<Rightarrow> map_option (\<lambda>(es, err). (e # es, err)) (recv_session fuel lay read t)
      | Some (Inl err, t) \<Rightarrow> if err = Timeout then recv_session fuel lay read t else Some ([], err))"

text \<open>The bytes on the wire once the envelopes have been sent.\<close>

definition send_all :: "w_envelope list \<Rightarrow> bytes io_transport" where
  "send_all es = foldl (\<lambda>t e. snd (transport_send vec_write_all vec_flush t e)) (transport_new (Some [])) es"

definition deliverable :: "layout \<Rightarrow> w_envelope \<Rightarrow> bool" where
  "deliverable lay e \<longleftrightarrow> wf_w_envelope e \<and> encode_w_envelope e \<noteq> [] \<and> length (encode_w_envelope e) \<le> max_frame_bytes
     \<and> cost_w_envelope lay e \<le> decode_allocation_budget"

section \<open>From frames to envelopes\<close>

lemma deliverable_decodes: "deliverable lay e \<Longrightarrow> decode_w_envelope lay (encode_w_envelope e) = Inr e"
  unfolding decode_w_envelope_def deliverable_def
  by (intro envelope_codec.round_trip) (simp_all add: max_decode_depth_def)

lemma recv_session_frames:
  assumes "frame_session fuel read (tr_reader t) stream = Some (map encode_w_envelope es, err)"
    and "tr_stream t = Some stream" and "list_all (deliverable lay) es"
  shows "recv_session fuel lay read t = Some (es, err)"
  using assms
proof (induction fuel arbitrary: t stream es)
  case 0
  then show ?case by simp
next
  case (Suc fuel)
  obtain out reader stream' where call: "read_frame read (tr_reader t) stream = Some (out, reader, stream')"
    using Suc.prems(1) by (auto split: option.splits)
  let ?t = "t\<lparr>tr_stream := Some stream', tr_reader := reader\<rparr>"
  have recv: "transport_recv lay read t = Some (chain out (decode_w_envelope lay), ?t)"
    using call Suc.prems(2) by (simp add: transport_recv_def)
  show ?case
  proof (cases out)
    case (Inl e)
    then show ?thesis using Suc.prems call recv Suc.IH [of ?t stream' es] by (auto split: if_splits)
  next
    case (Inr p)
    then obtain e es' where es: "es = e # es'" "p = encode_w_envelope e"
        "frame_session fuel read reader stream' = Some (map encode_w_envelope es', err)"
      using Suc.prems(1) call by (cases es) auto
    then show ?thesis using Suc.prems(3) Inr recv Suc.IH [of ?t stream' es'] by (simp add: deliverable_decodes)
  qed
qed

lemma send_all_wire:
  assumes "list_all (deliverable lay) es"
  shows "tr_stream (send_all es) = Some (write_frames (map encode_w_envelope es))"
proof -
  have "tr_stream (foldl (\<lambda>t e. snd (transport_send vec_write_all vec_flush t e)) t es)
      = Some (w @ concat (map (frame_bytes \<circ> encode_w_envelope) es))" if "tr_stream t = Some w" for t w
    using assms that
    by (induction es arbitrary: t w) (simp_all add: transport_send_def write_frame_vec deliverable_def)
  then show ?thesis
    using assms by (simp add: send_all_def transport_new_def write_frames_concat list_all_iff deliverable_def)
qed

section \<open>Properties\<close>

text \<open>
  C8: Envelopes sent over a connection arrive: a peer that keeps receiving gets every one of
  them, unchanged and in order, and then sees the connection closed, however the stream
  between them cuts, delays and interrupts the bytes. The envelopes have to be within the
  protocol's limits and not be empty, since an empty frame is refused.
\<close>

theorem connection_delivers:
  assumes "list_all (deliverable lay) es" and "tr_stream (send_all es) = Some wire"
    and "length events + length wire < fuel"
  shows "recv_session fuel lay stalling_read (transport_new (Some (wire, events))) = Some (es, Closed)"
proof (rule recv_session_frames [OF _ _ assms(1)])
  have wire: "wire = concat (map frame_bytes (map encode_w_envelope es))"
    and good: "list_all (\<lambda>p. p \<noteq> [] \<and> length p \<le> max_frame_bytes) (map encode_w_envelope es)"
    using assms(1,2) send_all_wire [OF assms(1)] by (simp_all add: write_frames_concat list_all_iff deliverable_def)
  show "frame_session fuel stalling_read (tr_reader (transport_new (Some (wire, events)))) (wire, events)
      = Some (map encode_w_envelope es, Closed)"
    using stalling.session_parses [OF reader_ok_new(1), of "(wire, events)" wire fuel] assms(3) parse_frames_concat [OF good] wire
    by (simp add: transport_new_def reader_ok_new)
qed (simp add: transport_new_def)

lemma demo_deliverable: "deliverable demo_layout demo_w_envelope"
  using demo_w_wf demo_w_cost demo_w_length
  by (auto simp: deliverable_def max_frame_bytes_def decode_allocation_budget_def dest: arg_cong [of _ _ length])

lemma demo_wire_length: "length (write_frames [encode_w_envelope demo_w_envelope, encode_w_envelope demo_w_envelope]) = 148"
  using demo_deliverable by (simp add: write_frames_concat deliverable_def demo_w_length)

theorem connection_delivers_witness:
  "recv_session 200 demo_layout stalling_read
     (transport_new (Some (the (tr_stream (send_all [demo_w_envelope, demo_w_envelope])), [TimeOut, Deliver 1, Interrupt, Block, Deliver 9])))
   = Some ([demo_w_envelope, demo_w_envelope], Closed)"
  by (rule connection_delivers)
    (simp_all add: demo_deliverable send_all_wire [of demo_layout] demo_wire_length)

end
