(* ===== verification/Float32.thy ===== *)
theory Float32
  imports Complex_Main "HOL-Library.Log_Nat"
begin

text \<open>
  Single-precision floating point, as far as the ranking code uses it. A finite \<open>f32\<close> is the
  rational number it stands for; the result of an operation is the exact result rounded to
  the nearest representable number, ties to an even significand (IEEE 754), with 24 bits of
  significand and subnormals down to \<open>2 powi (-149)\<close>. Overflow to an infinity is not modelled:
  the magnitudes the code computes with stay below \<open>2 ^ 65\<close>. The two zeros are one number.
\<close>

section \<open>Rounding\<close>

definition round_even :: "rat \<Rightarrow> int" where
  "round_even y =
     (let k = \<lfloor>y\<rfloor>; d = y - of_int k
      in if d < 1 / 2 \<or> d = 1 / 2 \<and> even k then k else k + 1)"

definition exponent :: "rat \<Rightarrow> int" where
  "exponent x =
     (case quotient_of x of (n, d) \<Rightarrow>
        let e = bitlen n - bitlen d in if 2 powi e \<le> x then e else e - 1)"

definition ulp :: "rat \<Rightarrow> int" where
  "ulp x = (if x = 0 then - 149 else max (- 149) (exponent \<bar>x\<bar> - 23))"

definition f32_round :: "rat \<Rightarrow> rat" where
  "f32_round x = of_int (round_even (x / 2 powi ulp x)) * 2 powi ulp x"

section \<open>Rounding to an integer\<close>

lemma round_even_of_int [simp]: "round_even (of_int k) = k"
  by (simp add: round_even_def)

lemma round_even_close: "\<bar>of_int (round_even y) - y\<bar> \<le> 1 / 2"
proof -
  have "of_int \<lfloor>y\<rfloor> \<le> y" "y < of_int \<lfloor>y\<rfloor> + 1" by linarith+
  then show ?thesis by (simp add: round_even_def Let_def abs_if field_simps) linarith
qed

lemma round_even_mono:
  assumes "x \<le> y"
  shows "round_even x \<le> round_even y"
proof (cases "\<lfloor>x\<rfloor> = \<lfloor>y\<rfloor>")
  case True
  then show ?thesis using assms by (auto simp: round_even_def Let_def)
next
  case False
  then have "\<lfloor>x\<rfloor> + 1 \<le> \<lfloor>y\<rfloor>" using floor_mono [OF assms] by simp
  moreover have "round_even x \<le> \<lfloor>x\<rfloor> + 1" "\<lfloor>y\<rfloor> \<le> round_even y" by (simp_all add: round_even_def Let_def)
  ultimately show ?thesis by simp
qed

lemma round_even_minus: "round_even (- y) = - round_even y"
proof (cases "y = of_int \<lfloor>y\<rfloor>")
  case True
  then show ?thesis by (metis of_int_minus round_even_of_int)
next
  case False
  then have "of_int \<lfloor>y\<rfloor> < y" "y < of_int \<lfloor>y\<rfloor> + 1" by linarith+
  then have "\<lfloor>- y\<rfloor> = - \<lfloor>y\<rfloor> - 1" by (simp add: floor_eq_iff)
  then show ?thesis by (auto simp: round_even_def Let_def)
qed

lemma round_even_le: "x \<le> of_int k \<Longrightarrow> round_even x \<le> k"
  using round_even_mono [of x "of_int k"] by simp

lemma round_even_ge: "of_int k \<le> x \<Longrightarrow> k \<le> round_even x"
  using round_even_mono [of "of_int k" x] by simp

section \<open>Exponents\<close>

lemma two_powi_pos [simp]: "0 < (2 :: rat) powi e" "(2 :: rat) powi e \<noteq> 0"
  by (simp_all add: power_int_not_zero)

lemma two_powi_le_iff [simp]: "(2 :: rat) powi d \<le> 2 powi e \<longleftrightarrow> d \<le> e"
  using power_int_increasing [of d e "2 :: rat"] power_int_strict_increasing [of e d "2 :: rat"] by fastforce

lemma two_powi_less_iff [simp]: "(2 :: rat) powi d < 2 powi e \<longleftrightarrow> d < e"
  by (simp add: not_le [symmetric])

lemma two_powi_of_int: "u \<le> e \<Longrightarrow> (2 :: rat) powi e = of_int (2 ^ nat (e - u)) * 2 powi u"
  by (simp add: power_int_add [symmetric] flip: power_int_of_nat)

lemma bitlen_powi: "0 < n \<Longrightarrow> 2 powi (bitlen n - 1) \<le> (of_int n :: rat)" "0 < n \<Longrightarrow> (of_int n :: rat) < 2 powi bitlen n"
proof -
  assume "0 < n"
  then have bounds: "2 ^ nat (bitlen n - 1) \<le> n" "n < 2 ^ nat (bitlen n)" and "0 < bitlen n"
    using bitlen_bounds [of n] bitlen_eq_zero_iff [of n] bitlen_nonneg [of n] by auto
  have "(2 :: rat) ^ nat (bitlen n - 1) \<le> of_int n" using bounds(1) by (metis of_int_le_iff of_int_numeral of_int_power)
  then show "2 powi (bitlen n - 1) \<le> (of_int n :: rat)" using \<open>0 < bitlen n\<close> by (simp add: power_int_def)
  have "of_int n < (2 :: rat) ^ nat (bitlen n)" using bounds(2) by (metis of_int_less_iff of_int_numeral of_int_power)
  then show "(of_int n :: rat) < 2 powi bitlen n" using \<open>0 < bitlen n\<close> by (simp add: power_int_def)
qed

lemma exponent_bounds:
  assumes "0 < x"
  shows "2 powi exponent x \<le> x" and "x < 2 powi (exponent x + 1)"
proof -
  obtain n d where q: "quotient_of x = (n, d)" by (cases "quotient_of x")
  then have "0 < d" and x: "x = of_int n / of_int d" by (simp_all add: quotient_of_denom_pos quotient_of_div)
  with assms have "0 < n" by (simp add: zero_less_divide_iff)
  note nb = bitlen_powi [OF this] and db = bitlen_powi [OF \<open>0 < d\<close>]
  let ?e = "bitlen n - bitlen d"
  have "2 powi (?e - 1) = (2 :: rat) powi (bitlen n - 1) / 2 powi bitlen d"
    by (simp add: power_int_diff [symmetric] algebra_simps)
  also have "\<dots> < x" unfolding x using nb(1) db(2) \<open>0 < d\<close> by (intro frac_less2) simp_all
  finally have low: "2 powi (?e - 1) < x" .
  have "x < 2 powi bitlen n / 2 powi (bitlen d - 1)" unfolding x using nb db by (intro frac_less) (simp_all add: less_imp_le \<open>0 < n\<close>)
  also have "\<dots> = 2 powi (?e + 1)" by (simp add: power_int_diff [symmetric] algebra_simps)
  finally have high: "x < 2 powi (?e + 1)" .
  show "2 powi exponent x \<le> x" "x < 2 powi (exponent x + 1)"
    using low high by (auto simp: exponent_def q Let_def)
qed

lemma exponent_eq: "2 powi e \<le> x \<Longrightarrow> x < 2 powi (e + 1) \<Longrightarrow> exponent x = e"
proof -
  assume low: "2 powi e \<le> x" and high: "x < 2 powi (e + 1)"
  have "0 < x" using two_powi_pos(1) [of e] low by (rule less_le_trans)
  from exponent_bounds [OF this] low high
  have "2 powi e < (2 :: rat) powi (exponent x + 1)" "2 powi exponent x < (2 :: rat) powi (e + 1)" by linarith+
  then show ?thesis by simp
qed

lemma exponent_mono: "0 < x \<Longrightarrow> x \<le> y \<Longrightarrow> exponent x \<le> exponent y"
proof -
  assume "0 < x" "x \<le> y"
  then have "2 powi exponent x < (2 :: rat) powi (exponent y + 1)"
    using exponent_bounds(1) [of x] exponent_bounds(2) [of y] by linarith
  then show ?thesis by simp
qed

section \<open>Rounding to a float\<close>

lemma f32_round_0 [simp]: "f32_round 0 = 0"
  using round_even_of_int [of 0] by (simp add: f32_round_def)

lemma ulp_minus [simp]: "ulp (- x) = ulp x"
  by (simp add: ulp_def)

lemma f32_round_minus: "f32_round (- x) = - f32_round x"
  by (simp add: f32_round_def round_even_minus)

lemma f32_round_le_grid: "x \<le> of_int k * 2 powi ulp x \<Longrightarrow> f32_round x \<le> of_int k * 2 powi ulp x"
  unfolding f32_round_def
  by (intro mult_right_mono, unfold of_int_le_iff, rule round_even_le) (simp_all add: pos_divide_le_eq less_imp_le)

lemma f32_round_ge_grid: "of_int k * 2 powi ulp x \<le> x \<Longrightarrow> of_int k * 2 powi ulp x \<le> f32_round x"
  unfolding f32_round_def
  by (intro mult_right_mono, unfold of_int_le_iff, rule round_even_ge) (simp_all add: pos_le_divide_eq less_imp_le)

lemma f32_round_ge_0: "0 \<le> x \<Longrightarrow> 0 \<le> f32_round x"
  using round_even_ge [of 0 "x / 2 powi ulp x"] by (simp add: f32_round_def)

lemma f32_round_mono_pos:
  assumes "0 < x" and "x \<le> y"
  shows "f32_round x \<le> f32_round y"
proof (cases "ulp x = ulp y")
  case True
  then show ?thesis
    using assms by (simp add: f32_round_def round_even_mono divide_right_mono)
next
  case False
  let ?e = "exponent y"
  have exps: "exponent x \<le> ?e" "ulp x = max (- 149) (exponent x - 23)" "ulp y = max (- 149) (?e - 23)"
    using assms exponent_mono by (auto simp: ulp_def)
  with False have "exponent x < ?e" "ulp y = ?e - 23" "ulp x \<le> ?e" by auto
  then have "(2 :: rat) powi (exponent x + 1) \<le> 2 powi ?e" by simp
  then have "x < 2 powi ?e" "2 powi ?e \<le> y"
    using exponent_bounds(2) [of x] exponent_bounds(1) [of y] assms by linarith+
  moreover have "ulp x \<le> ?e" "ulp y \<le> ?e" using \<open>ulp x \<le> ?e\<close> \<open>ulp y = ?e - 23\<close> by simp_all
  ultimately have "f32_round x \<le> 2 powi ?e" "2 powi ?e \<le> f32_round y"
    using two_powi_of_int [of "ulp x" ?e] two_powi_of_int [of "ulp y" ?e]
      f32_round_le_grid [of x "2 ^ nat (?e - ulp x)"] f32_round_ge_grid [of "2 ^ nat (?e - ulp y)" y]
    by (simp_all only: less_imp_le)
  then show ?thesis by (rule order_trans)
qed

lemma f32_round_mono: "x \<le> y \<Longrightarrow> f32_round x \<le> f32_round y"
proof -
  assume "x \<le> y"
  consider "0 < x" | "y < 0" | "x \<le> 0" "0 \<le> y" by linarith
  then show ?thesis
  proof cases
    case 1
    then show ?thesis using \<open>x \<le> y\<close> by (rule f32_round_mono_pos)
  next
    case 2
    then show ?thesis using f32_round_mono_pos [of "- y" "- x"] \<open>x \<le> y\<close> by (simp add: f32_round_minus)
  next
    case 3
    then have "0 \<le> f32_round (- x)" "0 \<le> f32_round y" by (auto intro: f32_round_ge_0)
    then show ?thesis by (simp add: f32_round_minus)
  qed
qed

lemma f32_round_fixed: "x = of_int m * 2 powi ulp x \<Longrightarrow> f32_round x = x"
  using f32_round_le_grid [of x m] f32_round_ge_grid [of m x] by linarith

text \<open>A number with a significand of 24 bits is its own rounding.\<close>

lemma f32_round_grid:
  assumes "\<bar>k\<bar> < 2 ^ 24" and "- 149 \<le> u"
  shows "f32_round (of_int k * 2 powi u) = of_int k * 2 powi u"
proof (cases "k = 0")
  case False
  let ?x = "of_int k * 2 powi u :: rat"
  have "\<bar>of_int k\<bar> < (2 :: rat) powi 24" using assms(1) by (simp add: abs_less_iff flip: of_int_abs)
  then have "\<bar>?x\<bar> < 2 powi 24 * 2 powi u" by (simp add: abs_mult)
  then have "\<bar>?x\<bar> < 2 powi (24 + u)" by (simp add: power_int_add)
  moreover have "0 < \<bar>?x\<bar>" using False by simp
  ultimately have "2 powi exponent \<bar>?x\<bar> < (2 :: rat) powi (24 + u)" using exponent_bounds(1) [of "\<bar>?x\<bar>"] by linarith
  then have "ulp ?x \<le> u" using False assms(2) by (simp add: ulp_def)
  then have "?x = of_int (k * 2 ^ nat (u - ulp ?x)) * 2 powi ulp ?x"
    using two_powi_of_int [of "ulp ?x" u] by simp
  then show ?thesis by (rule f32_round_fixed)
qed simp

lemma f32_round_int: "\<bar>k\<bar> < 2 ^ 24 \<Longrightarrow> f32_round (of_int k) = of_int k"
  using f32_round_grid [of k 0] by simp

lemma f32_round_powi: "- 149 \<le> e \<Longrightarrow> f32_round (2 powi e) = 2 powi e"
  using f32_round_grid [of 1 e] by simp

lemma significand_bound: "\<bar>round_even (x / 2 powi ulp x)\<bar> \<le> 2 ^ 24"
proof (cases "x = 0")
  case True
  then show ?thesis using round_even_of_int [of 0] by simp
next
  case False
  have "\<bar>x\<bar> < 2 powi (exponent \<bar>x\<bar> + 1)" using False by (intro exponent_bounds) simp
  also have "\<dots> \<le> 2 powi (24 + ulp x)" using False by (simp add: ulp_def)
  finally have "\<bar>x\<bar> \<le> of_int (2 ^ 24) * 2 powi ulp x" by (simp add: power_int_add)
  then have "x / 2 powi ulp x \<le> of_int (2 ^ 24)" "of_int (- (2 ^ 24)) \<le> x / 2 powi ulp x"
    by (simp_all add: pos_divide_le_eq pos_le_divide_eq abs_le_iff)
  then show ?thesis using round_even_le [of "x / 2 powi ulp x" "2 ^ 24"] round_even_ge [of "- (2 ^ 24)" "x / 2 powi ulp x"] by simp
qed

lemma f32_round_idem [simp]: "f32_round (f32_round x) = f32_round x"
proof -
  let ?k = "round_even (x / 2 powi ulp x)"
  have u: "- 149 \<le> ulp x" by (simp add: ulp_def)
  show ?thesis
  proof (cases "\<bar>?k\<bar> < 2 ^ 24")
    case True
    then show ?thesis using f32_round_grid [OF True u] by (simp add: f32_round_def [of x])
  next
    case False
    then have "?k = 2 ^ 24 \<or> ?k = - (2 ^ 24)" using significand_bound [of x] by linarith
    then have "f32_round x = 2 powi (24 + ulp x) \<or> f32_round x = - (2 powi (24 + ulp x))"
      by (auto simp: f32_round_def power_int_add)
    then show ?thesis using u by (auto simp: f32_round_powi f32_round_minus)
  qed
qed

text \<open>The relative error of a rounding is at most \<open>2 powi (-24)\<close>, above the subnormals.\<close>

lemma f32_round_error:
  assumes "2 powi (- 126) \<le> \<bar>x\<bar>"
  shows "\<bar>f32_round x - x\<bar> \<le> \<bar>x\<bar> / 2 ^ 24"
proof -
  have pos: "0 < \<bar>x\<bar>" using less_le_trans [OF two_powi_pos(1) assms] .
  have "(2 :: rat) powi (- 126) < 2 powi (exponent \<bar>x\<bar> + 1)" using assms exponent_bounds(2) [OF pos] by linarith
  then have "- 126 < exponent \<bar>x\<bar> + 1" by (simp only: two_powi_less_iff)
  then have u: "ulp x = exponent \<bar>x\<bar> - 23" using pos by (simp add: ulp_def)
  have "f32_round x - x = (of_int (round_even (x / 2 powi ulp x)) - x / 2 powi ulp x) * 2 powi ulp x"
    by (simp add: f32_round_def algebra_simps)
  then have "\<bar>f32_round x - x\<bar> \<le> 1 / 2 * 2 powi ulp x"
    using round_even_close [of "x / 2 powi ulp x"] by (simp add: abs_mult mult_right_mono del: times_divide_eq_left)
  also have "\<dots> = 2 powi exponent \<bar>x\<bar> / 2 ^ 24" by (simp add: u power_int_diff)
  also have "\<dots> \<le> \<bar>x\<bar> / 2 ^ 24" using exponent_bounds(1) [OF pos] by (intro divide_right_mono) simp_all
  finally show ?thesis .
qed

section \<open>Operations\<close>

definition f32_add :: "rat \<Rightarrow> rat \<Rightarrow> rat" where
  "f32_add a b = f32_round (a + b)"

definition f32_mul :: "rat \<Rightarrow> rat \<Rightarrow> rat" where
  "f32_mul a b = f32_round (a * b)"

definition f32_div :: "rat \<Rightarrow> rat \<Rightarrow> rat" where
  "f32_div a b = f32_round (a / b)"

text \<open>A value a caller supplies, which need not be a number.\<close>

datatype float32 = NaN | PosInf | NegInf | Fin rat

lemma f32_ops_fixed [simp]: "f32_round (f32_add a b) = f32_add a b" "f32_round (f32_mul a b) = f32_mul a b" "f32_round (f32_div a b) = f32_div a b"
  by (simp_all add: f32_add_def f32_mul_def f32_div_def)

lemma f32_add_mono: "a \<le> c \<Longrightarrow> b \<le> d \<Longrightarrow> f32_add a b \<le> f32_add c d"
  by (simp add: f32_add_def f32_round_mono)

lemma f32_add_ge: "f32_round a = a \<Longrightarrow> 0 \<le> b \<Longrightarrow> a \<le> f32_add a b"
  using f32_round_mono [of a "a + b"] by (simp add: f32_add_def)

lemma f32_mul_mono: "0 \<le> w \<Longrightarrow> a \<le> b \<Longrightarrow> f32_mul w a \<le> f32_mul w b"
  by (simp add: f32_mul_def f32_round_mono mult_left_mono)

lemma f32_mul_ge_0: "0 \<le> a \<Longrightarrow> 0 \<le> b \<Longrightarrow> 0 \<le> f32_mul a b"
  by (simp add: f32_mul_def f32_round_ge_0)

end
