(* ===== verification/Ranking.thy ===== *)
theory Ranking
  imports Items Float32
begin

text \<open>
  The default ranker: \<open>crates/crikey-ranking/src/lib.rs\<close>, with the result types of
  \<open>crates/crikey-query/src/lib.rs\<close> it reads. A score is a weighted sum of bounded signals in
  single precision; every literal is the float nearest to it and every operation rounds. A
  score is finite, so it is a rational number, and scores compare as numbers.
\<close>

section \<open>Match results\<close>

datatype match_method = ExactPrefix | Prefix | Substring | Fuzzy | WordPrefix | Keyword

record match_outcome =
  mo_score :: float32
  mo_method :: match_method
  mo_highlights :: "(nat \<times> nat) list"

record match_summary =
  ms_score :: float32
  ms_method :: match_method
  ms_match_position :: "u32 option"

section \<open>Weights and curves\<close>

definition w_match_quality :: rat where "w_match_quality = f32_round 1"
definition w_exact_prefix :: rat where "w_exact_prefix = f32_round (35 / 100)"
definition w_match_position :: rat where "w_match_position = f32_round (2 / 100)"
definition w_category :: rat where "w_category = f32_round (25 / 100)"
definition w_plugin_hint :: rat where "w_plugin_hint = f32_round (2 / 10)"
definition w_frequency :: rat where "w_frequency = f32_round (3 / 10)"
definition w_recency :: rat where "w_recency = f32_round (25 / 100)"
definition w_query_history :: rat where "w_query_history = f32_round (2 / 10)"
definition w_context :: rat where "w_context = f32_round (15 / 100)"
definition w_user_preference :: rat where "w_user_preference = f32_round (2 / 10)"

definition min_score :: rat where
  "min_score = - w_plugin_hint"

definition max_score :: rat where
  "max_score = foldl f32_add w_match_quality
     [w_exact_prefix, w_match_position, w_category, w_plugin_hint, w_frequency, w_recency, w_query_history,
      w_context, w_user_preference]"

definition position_half_life :: rat where "position_half_life = 4"
definition frequency_half_life :: rat where "frequency_half_life = 8"
definition recency_half_life_secs :: rat where "recency_half_life_secs = 86400"
definition hint_half_scale :: rat where "hint_half_scale = 100"

definition clamp :: "rat \<Rightarrow> rat \<Rightarrow> rat \<Rightarrow> rat" where
  "clamp v low high = (if v < low then low else if high < v then high else v)"

fun sanitize :: "float32 \<Rightarrow> rat \<Rightarrow> rat \<Rightarrow> rat" where
  "sanitize NaN low high = low"
| "sanitize PosInf low high = high"
| "sanitize NegInf low high = low"
| "sanitize (Fin v) low high = clamp v low high"

definition saturating_rise :: "rat \<Rightarrow> rat \<Rightarrow> rat" where
  "saturating_rise v half = f32_div v (f32_add v half)"

definition saturating_decay :: "rat \<Rightarrow> rat \<Rightarrow> rat" where
  "saturating_decay v half = f32_div half (f32_add v half)"

definition bounded_signed :: "rat \<Rightarrow> rat \<Rightarrow> rat" where
  "bounded_signed v half = (let scaled = f32_div v half in f32_div scaled (f32_add 1 \<bar>scaled\<bar>))"

section \<open>The ranker\<close>

record ranking_signals =
  rs_match_quality :: float32
  rs_exact_prefix :: bool
  rs_match_position :: "u32 option"
  rs_category_weight :: float32
  rs_plugin_score_hint :: "32 word"
  rs_selection_frequency :: u32
  rs_selection_recency_secs :: "u64 option"
  rs_query_history :: float32
  rs_context_match :: bool
  rs_user_preference :: float32

definition default_ranking_signals :: ranking_signals where
  "default_ranking_signals =
     \<lparr>rs_match_quality = Fin 0, rs_exact_prefix = False, rs_match_position = None, rs_category_weight = Fin 0,
      rs_plugin_score_hint = 0, rs_selection_frequency = 0, rs_selection_recency_secs = None,
      rs_query_history = Fin 0, rs_context_match = False, rs_user_preference = Fin 0\<rparr>"

text \<open>The casts \<open>as f32\<close> from unsigned and from signed integers.\<close>

definition f32_of_unsigned :: "'a :: len word \<Rightarrow> rat" where
  "f32_of_unsigned w = f32_round (of_nat (unat w))"

lemma f32_of_unsigned_code [code]: "f32_of_unsigned w = f32_round (of_int (uint w))"
  unfolding f32_of_unsigned_def by (simp only: uint_nat of_int_of_nat_eq)

definition f32_of_signed :: "'a :: len word \<Rightarrow> rat" where
  "f32_of_signed w = f32_round (of_int (sint w))"

definition history_terms :: "ranking_signals \<Rightarrow> rat \<Rightarrow> rat" where
  "history_terms s acc =
     (let acc = f32_add acc (f32_mul w_frequency (saturating_rise (f32_of_unsigned (rs_selection_frequency s)) frequency_half_life));
          acc = (case rs_selection_recency_secs s of
              Some age \<Rightarrow> f32_add acc (f32_mul w_recency (saturating_decay (f32_of_unsigned age) recency_half_life_secs))
            | None \<Rightarrow> acc)
      in f32_add acc (f32_mul w_query_history (sanitize (rs_query_history s) 0 1)))"

definition total_of_signals :: "bool \<Rightarrow> ranking_signals \<Rightarrow> rat" where
  "total_of_signals history_enabled s =
     (let acc = f32_mul w_match_quality (sanitize (rs_match_quality s) 0 1);
          acc = (if rs_exact_prefix s then f32_add acc w_exact_prefix else acc);
          acc = (case rs_match_position s of
              Some p \<Rightarrow> f32_add acc (f32_mul w_match_position (saturating_decay (f32_of_unsigned p) position_half_life))
            | None \<Rightarrow> acc);
          acc = f32_add acc (f32_mul w_category (sanitize (rs_category_weight s) 0 1));
          acc = f32_add acc (f32_mul w_plugin_hint (bounded_signed (f32_of_signed (rs_plugin_score_hint s)) hint_half_scale));
          acc = (if history_enabled then history_terms s acc else acc);
          acc = (if rs_context_match s then f32_add acc w_context else acc)
      in f32_add acc (f32_mul w_user_preference (sanitize (rs_user_preference s) 0 1)))"

definition score_signals :: "bool \<Rightarrow> ranking_signals \<Rightarrow> rat" where
  "score_signals history_enabled s = sanitize (Fin (total_of_signals history_enabled s)) min_score max_score"

fun category_preference :: "category \<Rightarrow> rat" where
  "category_preference CatApplication = f32_round 1"
| "category_preference CatKeyword = f32_round (9 / 10)"
| "category_preference CatCommand = f32_round (85 / 100)"
| "category_preference CatExpression = f32_round (8 / 10)"
| "category_preference CatContact = f32_round (7 / 10)"
| "category_preference CatUrl = f32_round (65 / 100)"
| "category_preference CatDirectory = f32_round (6 / 10)"
| "category_preference CatFile = f32_round (55 / 100)"
| "category_preference CatClipboardItem = f32_round (5 / 10)"
| "category_preference (CatPluginDefined name) = f32_round (5 / 10)"

definition score_match_with_signals :: "bool \<Rightarrow> item \<Rightarrow> match_summary \<Rightarrow> ranking_signals \<Rightarrow> rat" where
  "score_match_with_signals history_enabled i m s =
     score_signals history_enabled (s\<lparr>rs_match_quality := ms_score m, rs_exact_prefix := (ms_method m = ExactPrefix),
       rs_match_position := ms_match_position m, rs_category_weight := Fin (category_preference (it_category i)),
       rs_plugin_score_hint := it_score_hint i\<rparr>)"

definition score_match :: "bool \<Rightarrow> item \<Rightarrow> match_summary \<Rightarrow> rat" where
  "score_match history_enabled i m = score_match_with_signals history_enabled i m default_ranking_signals"

definition non_prefix_upper_bound :: "bool \<Rightarrow> item \<Rightarrow> rat" where
  "non_prefix_upper_bound history_enabled i =
     score_signals history_enabled
       \<lparr>rs_match_quality = Fin (f32_round (73 / 100)), rs_exact_prefix = False, rs_match_position = Some 0,
        rs_category_weight = Fin (category_preference (it_category i)), rs_plugin_score_hint = it_score_hint i,
        rs_selection_frequency = - 1, rs_selection_recency_secs = Some 0, rs_query_history = Fin 1,
        rs_context_match = True, rs_user_preference = Fin 1\<rparr>"

text \<open>
  A byte range of a label is usable when both ends fall between characters; the position is
  counted in characters.
\<close>

definition char_offsets :: "string \<Rightarrow> nat list" where
  "char_offsets label = map (\<lambda>k. utf8_len (take k label)) [0..<length label]"

definition valid_range :: "string \<Rightarrow> nat \<Rightarrow> nat \<Rightarrow> bool" where
  "valid_range label start stop \<longleftrightarrow>
     start \<le> stop \<and> start \<in> set (char_offsets label @ [utf8_len label]) \<and> stop \<in> set (char_offsets label @ [utf8_len label])"

definition earliest_highlight :: "string \<Rightarrow> (nat \<times> nat) list \<Rightarrow> u32 option" where
  "earliest_highlight label highlights =
     (case map fst (filter (\<lambda>(start, stop). start < stop \<and> valid_range label start stop) highlights) of
        [] \<Rightarrow> None
      | starts \<Rightarrow>
          (let n = length (takeWhile (\<lambda>offset. offset < Min (set starts)) (char_offsets label))
           in Some (if n < 2 ^ 32 then of_nat n else - 1)))"

definition score_outcome_with_signals :: "bool \<Rightarrow> item \<Rightarrow> match_outcome \<Rightarrow> ranking_signals \<Rightarrow> rat" where
  "score_outcome_with_signals history_enabled i m s =
     score_signals history_enabled (s\<lparr>rs_match_quality := mo_score m, rs_exact_prefix := (mo_method m = ExactPrefix),
       rs_match_position := earliest_highlight (it_label i) (mo_highlights m),
       rs_category_weight := Fin (category_preference (it_category i)), rs_plugin_score_hint := it_score_hint i\<rparr>)"

definition ranker_score :: "bool \<Rightarrow> item \<Rightarrow> match_outcome \<Rightarrow> rat" where
  "ranker_score history_enabled i m =
     score_signals history_enabled
       \<lparr>rs_match_quality = mo_score m, rs_exact_prefix = (mo_method m = ExactPrefix),
        rs_match_position = earliest_highlight (it_label i) (mo_highlights m),
        rs_category_weight = Fin (category_preference (it_category i)), rs_plugin_score_hint = it_score_hint i,
        rs_selection_frequency = 0, rs_selection_recency_secs = None, rs_query_history = Fin 0,
        rs_context_match = False, rs_user_preference = Fin 0\<rparr>"

section \<open>The score as a sum of optional terms\<close>

definition opt_add :: "rat \<Rightarrow> rat option \<Rightarrow> rat" where
  "opt_add a x = (case x of None \<Rightarrow> a | Some v \<Rightarrow> f32_add a v)"

definition signal_terms :: "bool \<Rightarrow> ranking_signals \<Rightarrow> rat option list" where
  "signal_terms h s =
     [if rs_exact_prefix s then Some w_exact_prefix else None,
      map_option (\<lambda>p. f32_mul w_match_position (saturating_decay (f32_of_unsigned p) position_half_life)) (rs_match_position s),
      Some (f32_mul w_category (sanitize (rs_category_weight s) 0 1)),
      Some (f32_mul w_plugin_hint (bounded_signed (f32_of_signed (rs_plugin_score_hint s)) hint_half_scale)),
      if h then Some (f32_mul w_frequency (saturating_rise (f32_of_unsigned (rs_selection_frequency s)) frequency_half_life)) else None,
      if h then map_option (\<lambda>a. f32_mul w_recency (saturating_decay (f32_of_unsigned a) recency_half_life_secs)) (rs_selection_recency_secs s) else None,
      if h then Some (f32_mul w_query_history (sanitize (rs_query_history s) 0 1)) else None,
      if rs_context_match s then Some w_context else None,
      Some (f32_mul w_user_preference (sanitize (rs_user_preference s) 0 1))]"

lemma total_as_fold:
  "total_of_signals h s = foldl opt_add (f32_mul w_match_quality (sanitize (rs_match_quality s) 0 1)) (signal_terms h s)"
  by (simp add: total_of_signals_def history_terms_def signal_terms_def opt_add_def Let_def split: option.split)

text \<open>An absent term counts as nothing, so any non-negative one is at least as good.\<close>

fun term_le :: "rat option \<Rightarrow> rat option \<Rightarrow> bool" where
  "term_le (Some v) (Some w) \<longleftrightarrow> v \<le> w"
| "term_le None (Some w) \<longleftrightarrow> 0 \<le> w"
| "term_le None None \<longleftrightarrow> True"
| "term_le (Some v) None \<longleftrightarrow> v \<le> 0"

lemma opt_add_mono:
  assumes "term_le x y" and "a \<le> b" and "f32_round a = a" and "f32_round b = b"
  shows "opt_add a x \<le> opt_add b y"
proof (cases "(x, y)" rule: term_le.cases)
  case (4 v)
  then have "f32_add a v \<le> f32_add b 0" using assms by (intro f32_add_mono) auto
  then show ?thesis using 4 assms(4) by (simp add: opt_add_def f32_add_def)
qed (use assms f32_add_ge [of b] in \<open>auto simp: opt_add_def f32_add_mono intro: order_trans\<close>)

lemma opt_add_fixed: "f32_round a = a \<Longrightarrow> f32_round (opt_add a x) = opt_add a x"
  by (simp add: opt_add_def split: option.split)

lemma terms_mono:
  assumes "list_all2 term_le xs ys" and "a \<le> b" and "f32_round a = a" and "f32_round b = b"
  shows "foldl opt_add a xs \<le> foldl opt_add b ys"
  using assms by (induction xs ys arbitrary: a b) (simp_all add: opt_add_mono opt_add_fixed)

section \<open>Bounds of the terms\<close>

lemma clamp_bounds: "low \<le> high \<Longrightarrow> low \<le> clamp v low high \<and> clamp v low high \<le> high"
  by (simp add: clamp_def)

lemma sanitize_bounds: "low \<le> high \<Longrightarrow> low \<le> sanitize v low high \<and> sanitize v low high \<le> high"
  by (cases v) (simp_all add: clamp_bounds)

lemma clamp_mono: "low \<le> high \<Longrightarrow> v \<le> w \<Longrightarrow> clamp v low high \<le> clamp w low high"
  by (simp add: clamp_def)

lemma weights_ok:
  "0 \<le> w_match_quality" "0 \<le> w_exact_prefix" "0 \<le> w_match_position" "0 \<le> w_category" "0 \<le> w_plugin_hint"
  "0 \<le> w_frequency" "0 \<le> w_recency" "0 \<le> w_query_history" "0 \<le> w_context" "0 \<le> w_user_preference"
  by (simp_all add: w_match_quality_def w_exact_prefix_def w_match_position_def w_category_def w_plugin_hint_def
      w_frequency_def w_recency_def w_query_history_def w_context_def w_user_preference_def f32_round_ge_0)

lemma weights_fixed [simp]:
  "f32_round w_match_quality = w_match_quality" "f32_round w_exact_prefix = w_exact_prefix" "f32_round w_match_position = w_match_position"
  "f32_round w_category = w_category" "f32_round w_plugin_hint = w_plugin_hint" "f32_round w_frequency = w_frequency"
  "f32_round w_recency = w_recency" "f32_round w_query_history = w_query_history" "f32_round w_context = w_context"
  "f32_round w_user_preference = w_user_preference"
  by (simp_all add: w_match_quality_def w_exact_prefix_def w_match_position_def w_category_def w_plugin_hint_def
      w_frequency_def w_recency_def w_query_history_def w_context_def w_user_preference_def)

lemma f32_mul_le: "f32_round w = w \<Longrightarrow> 0 \<le> w \<Longrightarrow> x \<le> 1 \<Longrightarrow> f32_mul w x \<le> w"
  using f32_mul_mono [of w x 1] by (simp add: f32_mul_def)

lemma f32_mul_ge: "f32_round w = w \<Longrightarrow> 0 \<le> w \<Longrightarrow> - 1 \<le> x \<Longrightarrow> - w \<le> f32_mul w x"
  using f32_mul_mono [of w "- 1" x] by (simp add: f32_mul_def f32_round_minus)

lemma f32_round_1 [simp]: "f32_round 1 = 1"
  using f32_round_int [of 1] by simp

lemma casts_fixed [simp]: "f32_round (f32_of_unsigned w) = f32_of_unsigned w" "f32_round (f32_of_signed w) = f32_of_signed w"
  by (simp_all add: f32_of_unsigned_def f32_of_signed_def)

lemma f32_of_unsigned_ge_0: "0 \<le> f32_of_unsigned w"
  unfolding f32_of_unsigned_def by (rule f32_round_ge_0) (rule of_nat_0_le_iff)

lemma f32_div_unit:
  assumes "0 \<le> a" and "a \<le> b"
  shows "0 \<le> f32_div a b \<and> f32_div a b \<le> 1"
proof -
  have "0 \<le> a / b" "a / b \<le> 1" using assms by (auto simp: divide_le_eq_1)
  then show ?thesis using f32_round_mono [of "a / b" 1] by (simp add: f32_div_def f32_round_ge_0)
qed

lemma rise_bounds: "f32_round v = v \<Longrightarrow> 0 \<le> v \<Longrightarrow> 0 \<le> h \<Longrightarrow> 0 \<le> saturating_rise v h \<and> saturating_rise v h \<le> 1"
  unfolding saturating_rise_def by (intro f32_div_unit f32_add_ge)

lemma decay_bounds: "f32_round h = h \<Longrightarrow> 0 \<le> v \<Longrightarrow> 0 \<le> h \<Longrightarrow> 0 \<le> saturating_decay v h \<and> saturating_decay v h \<le> 1"
  unfolding saturating_decay_def using f32_add_ge [of h v] by (intro f32_div_unit) (simp_all add: f32_add_def add.commute)

lemma signed_bounds: "- 1 \<le> bounded_signed v h \<and> bounded_signed v h \<le> 1"
proof -
  let ?s = "f32_div v h" and ?t = "f32_add 1 \<bar>f32_div v h\<bar>"
  have "f32_round \<bar>?s\<bar> = \<bar>?s\<bar>" by (simp add: abs_if f32_round_minus)
  then have "\<bar>?s\<bar> \<le> ?t" using f32_add_ge [of "\<bar>?s\<bar>" 1] by (simp add: f32_add_def add.commute)
  then have "?s / ?t \<le> 1" "- 1 \<le> ?s / ?t" by (auto simp: divide_le_eq_1 le_divide_eq abs_le_iff)
  then show ?thesis
    using f32_round_mono [of "?s / ?t" 1] f32_round_mono [of "- 1" "?s / ?t"] f32_round_minus [of 1]
    by (simp add: bounded_signed_def Let_def f32_div_def [of ?s])
qed

text \<open>The extremes: every term saturated, and only a demotion by the plugin.\<close>

definition max_terms :: "rat option list" where
  "max_terms = map Some [w_exact_prefix, w_match_position, w_category, w_plugin_hint, w_frequency, w_recency, w_query_history,
     w_context, w_user_preference]"

definition min_terms :: "rat option list" where
  "min_terms = [None, None, None, Some (- w_plugin_hint), None, None, None, None, None]"

lemma max_score_fold: "max_score = foldl opt_add w_match_quality max_terms"
  by (simp add: max_score_def max_terms_def opt_add_def)

lemma min_score_fold: "min_score = foldl opt_add 0 min_terms"
  by (simp add: min_score_def min_terms_def opt_add_def f32_add_def f32_round_minus)

lemmas half_lives = position_half_life_def frequency_half_life_def recency_half_life_secs_def hint_half_scale_def

lemma f32_round_numerals [simp]: "f32_round 4 = 4" "f32_round 8 = 8" "f32_round 100 = 100" "f32_round 86400 = 86400"
  using f32_round_int [of 4] f32_round_int [of 8] f32_round_int [of 100] f32_round_int [of 86400] by simp_all

lemma signal_terms_bounds: "list_all2 term_le (signal_terms h s) max_terms" "list_all2 term_le min_terms (signal_terms h s)"
proof -
  have unit: "0 \<le> sanitize v 0 1" "sanitize v 0 1 \<le> 1" for v using sanitize_bounds [of 0 1 v] by auto
  have decay: "0 \<le> saturating_decay (f32_of_unsigned w) half" "saturating_decay (f32_of_unsigned w) half \<le> 1"
    if "half = 4 \<or> half = 86400" for half and w :: "'b :: len word"
    using decay_bounds [of half "f32_of_unsigned w"] that f32_of_unsigned_ge_0 [of w] by auto
  have rise: "0 \<le> saturating_rise (f32_of_unsigned w) 8" "saturating_rise (f32_of_unsigned w) 8 \<le> 1" for w :: "'b :: len word"
    using rise_bounds [of "f32_of_unsigned w" 8] f32_of_unsigned_ge_0 [of w] by auto
  have signed: "bounded_signed v 100 \<le> 1" "- 1 \<le> bounded_signed v 100" for v using signed_bounds by auto
  show "list_all2 term_le (signal_terms h s) max_terms"
    by (auto simp: signal_terms_def max_terms_def half_lives weights_ok map_option_case f32_mul_le unit decay rise signed split: option.split)
  show "list_all2 term_le min_terms (signal_terms h s)"
    by (auto simp: signal_terms_def min_terms_def half_lives weights_ok map_option_case f32_mul_ge_0 f32_mul_ge unit decay rise signed split: option.split)
qed

lemma total_bounds: "min_score \<le> total_of_signals h s" "total_of_signals h s \<le> max_score"
proof -
  have unit: "0 \<le> sanitize v 0 1" "sanitize v 0 1 \<le> 1" for v using sanitize_bounds [of 0 1 v] by auto
  show "min_score \<le> total_of_signals h s"
    unfolding min_score_fold total_as_fold
    by (intro terms_mono signal_terms_bounds f32_mul_ge_0 weights_ok unit) simp_all
  show "total_of_signals h s \<le> max_score"
    unfolding max_score_fold total_as_fold
    by (intro terms_mono signal_terms_bounds f32_mul_le weights_ok unit) simp_all
qed

lemma score_is_total: "score_signals h s = total_of_signals h s"
  using total_bounds [of h s] by (simp add: score_signals_def clamp_def)

section \<open>Monotone curves\<close>

lemma f32_of_unsigned_mono: "v \<le> w \<Longrightarrow> f32_of_unsigned v \<le> f32_of_unsigned w"
  unfolding f32_of_unsigned_def by (rule f32_round_mono) (simp only: of_nat_le_iff word_le_nat_alt)

lemma f32_of_signed_exact: "\<bar>sint w\<bar> < 2 ^ 24 \<Longrightarrow> f32_of_signed w = of_int (sint w)"
  unfolding f32_of_signed_def by (rule f32_round_int)

lemma f32_of_unsigned_exact: "unat w < 2 ^ 24 \<Longrightarrow> f32_of_unsigned w = of_nat (unat w)"
proof -
  assume "unat w < 2 ^ 24"
  then have "f32_round (of_int (int (unat w))) = of_int (int (unat w))" by (intro f32_round_int) (simp del: of_nat_unat)
  then show ?thesis unfolding f32_of_unsigned_def by (simp only: of_int_of_nat_eq)
qed

lemma decay_antimono:
  assumes "0 \<le> v" and "v \<le> w" and "f32_round h = h" and "0 < h"
  shows "saturating_decay w h \<le> saturating_decay v h"
proof -
  have "h \<le> f32_add v h" using f32_add_ge [of h v] assms by (simp add: f32_add_def add.commute)
  moreover have "f32_add v h \<le> f32_add w h" using assms(2) by (simp add: f32_add_mono)
  ultimately show ?thesis using assms(4) unfolding saturating_decay_def f32_div_def
    by (intro f32_round_mono divide_left_mono) auto
qed

lemma rise_mono:
  assumes "m \<le> n" and "n + 8 < 2 ^ 24"
  shows "saturating_rise (of_nat m) 8 \<le> saturating_rise (of_nat n) 8"
proof -
  have exact: "f32_add (of_nat k) 8 = of_nat k + 8" if "k \<le> n" for k
    using f32_round_int [of "int k + 8"] that assms(2) by (simp add: f32_add_def)
  have "of_nat m / (of_nat m + 8) \<le> of_nat n / (of_nat n + 8 :: rat)"
    using assms(1) by (simp add: divide_simps) (simp add: algebra_simps)
  then show ?thesis using assms(1) by (simp add: saturating_rise_def exact f32_div_def f32_round_mono)
qed

text \<open>
  The curve of the plugin's hint divides by a rounded sum, so it is not monotone everywhere; it
  is as long as one step of the hint is worth more than the rounding.
\<close>

lemma curve_step:
  assumes s: "0 \<le> s" "s \<le> 200" and r: "0 \<le> r" "r \<le> 200" and gap: "1 / 200 \<le> r - s"
  shows "f32_div s (f32_add 1 s) \<le> f32_div r (f32_add 1 r)"
proof -
  let ?e = "1 / 2 ^ 24 :: rat"
  have near: "(1 + x) * (1 - ?e) \<le> f32_add 1 x \<and> f32_add 1 x \<le> (1 + x) * (1 + ?e)" if "0 \<le> x" for x
  proof -
    have "(2 :: rat) powi (- 126) \<le> \<bar>1 + x\<bar>" using that by simp
    from f32_round_error [OF this] that have "\<bar>f32_add 1 x - (1 + x)\<bar> \<le> (1 + x) * ?e" by (simp add: f32_add_def)
    then show ?thesis unfolding abs_diff_le_iff by (simp add: field_simps)
  qed
  have low: "1 \<le> f32_add 1 x" if "0 \<le> x" for x using f32_add_ge [of 1 x] that by simp
  have "s * r \<le> 200 * 200" using s r by (intro mult_mono) auto
  then have small: "(s + r + 2 * (s * r)) * ?e \<le> 1 / 200" using s r by simp
  have "s * f32_add 1 r \<le> s * ((1 + r) * (1 + ?e))"
    using near [OF r(1)] s(1) by (intro mult_left_mono) auto
  also have "\<dots> \<le> r * ((1 + s) * (1 - ?e))" using small gap by (simp add: algebra_simps)
  also have "\<dots> \<le> r * f32_add 1 s"
    using near [OF s(1)] r(1) by (intro mult_left_mono) auto
  finally have "s / f32_add 1 s \<le> r / f32_add 1 r"
    using low [OF s(1)] low [OF r(1)] by (simp add: pos_divide_le_eq pos_le_divide_eq field_simps)
  then show ?thesis by (simp add: f32_div_def f32_round_mono)
qed

lemma signed_mono_pos:
  assumes "0 \<le> v" and "v < w" and "w \<le> 20000"
  shows "bounded_signed (of_int v) 100 \<le> bounded_signed (of_int w) 100"
proof -
  let ?s = "\<lambda>v. f32_div (of_int v) 100"
  have range: "0 \<le> ?s k" "?s k \<le> 200" if "0 \<le> k" "k \<le> 20000" for k
    using that f32_round_mono [of "of_int k / 100" 200] f32_round_int [of 200] f32_round_ge_0 [of "of_int k / 100"]
    by (simp_all add: f32_div_def)
  have error: "\<bar>?s k - of_int k / 100\<bar> \<le> 200 / 2 ^ 24" if "0 \<le> k" "k \<le> 20000" for k
  proof (cases "k = 0")
    case False
    then have "2 powi (- 126) \<le> \<bar>of_int k / 100 :: rat\<bar>" using that by simp
    from f32_round_error [OF this] show ?thesis using that by (simp add: f32_div_def)
  qed (simp add: f32_div_def)
  have "1 / 100 \<le> (of_int w / 100 - of_int v / 100 :: rat)" using assms(2) by (simp add: diff_divide_distrib [symmetric])
  then have "1 / 200 \<le> ?s w - ?s v"
    using error [of v, unfolded abs_diff_le_iff] error [of w, unfolded abs_diff_le_iff] assms by (simp add: field_simps)
  with curve_step [of "?s v" "?s w"] range [of v] range [of w] assms
  show ?thesis by (simp add: bounded_signed_def Let_def)
qed

lemma signed_minus: "bounded_signed (- v) h = - bounded_signed v h"
  by (simp add: bounded_signed_def Let_def f32_div_def f32_round_minus)

lemma signed_mono:
  assumes "v \<le> w" and "- 20000 \<le> v" and "w \<le> 20000"
  shows "bounded_signed (of_int v) 100 \<le> bounded_signed (of_int w) 100"
proof -
  have zero: "bounded_signed 0 100 = 0" by (simp add: bounded_signed_def f32_div_def)
  have pos: "bounded_signed (of_int v) 100 \<le> bounded_signed (of_int w) 100" if "0 \<le> v" "v \<le> w" "w \<le> 20000" for v w
    using signed_mono_pos [of v w] that by (cases "v = w") auto
  consider "0 \<le> v" | "w \<le> 0" | "v < 0" "0 < w" by linarith
  then show ?thesis
  proof cases
    case 2
    then show ?thesis using pos [of "- w" "- v"] assms by (simp add: signed_minus)
  next
    case 3
    then show ?thesis using pos [of 0 w] pos [of 0 "- v"] assms zero by (simp add: signed_minus)
  qed (use pos assms in auto)
qed

section \<open>Better signals\<close>

text \<open>
  \<open>improves s t\<close>: no signal of \<open>t\<close> is worse than that of \<open>s\<close>. An unusable float counts as the least,
  a match position or a past selection beats none, an earlier or a later one beats it.
\<close>

definition at_least :: "float32 \<Rightarrow> float32 \<Rightarrow> bool" where
  "at_least v w \<longleftrightarrow> sanitize v 0 1 \<le> sanitize w 0 1"

fun sooner :: "'a :: linorder option \<Rightarrow> 'a option \<Rightarrow> bool" where
  "sooner None w \<longleftrightarrow> True"
| "sooner (Some v) None \<longleftrightarrow> False"
| "sooner (Some v) (Some w) \<longleftrightarrow> w \<le> v"

lemma sooner_0 [simp]: "sooner x (Some (0 :: 'a :: len word))"
  by (cases x) simp_all

definition improves :: "ranking_signals \<Rightarrow> ranking_signals \<Rightarrow> bool" where
  "improves s t \<longleftrightarrow>
     at_least (rs_match_quality s) (rs_match_quality t) \<and> (rs_exact_prefix s \<longrightarrow> rs_exact_prefix t)
     \<and> sooner (rs_match_position s) (rs_match_position t) \<and> at_least (rs_category_weight s) (rs_category_weight t)
     \<and> sint (rs_plugin_score_hint s) \<le> sint (rs_plugin_score_hint t)
     \<and> rs_selection_frequency s \<le> rs_selection_frequency t
     \<and> sooner (rs_selection_recency_secs s) (rs_selection_recency_secs t)
     \<and> at_least (rs_query_history s) (rs_query_history t) \<and> (rs_context_match s \<longrightarrow> rs_context_match t)
     \<and> at_least (rs_user_preference s) (rs_user_preference t)"

text \<open>The part of the order that is about the terms themselves, whatever the curves do.\<close>

lemma decay_term_le:
  fixes x y :: "'a :: len word option"
  assumes "sooner x y" and "half = 4 \<or> half = 86400" and "0 \<le> w"
  shows "term_le (map_option (\<lambda>p. f32_mul w (saturating_decay (f32_of_unsigned p) half)) x)
    (map_option (\<lambda>p. f32_mul w (saturating_decay (f32_of_unsigned p) half)) y)"
proof -
  have "saturating_decay (f32_of_unsigned p) half \<le> saturating_decay (f32_of_unsigned q) half" if "q \<le> p" for p q :: "'a word"
    using assms(2) f32_of_unsigned_ge_0 f32_of_unsigned_mono [OF that] by (intro decay_antimono) auto
  moreover have "0 \<le> saturating_decay (f32_of_unsigned p) half" for p :: "'a word"
    using assms(2) decay_bounds [of half "f32_of_unsigned p"] f32_of_unsigned_ge_0 [of p] by auto
  ultimately show ?thesis
    using assms(1,3) by (cases "(x, y)" rule: sooner.cases; cases y) (auto simp: f32_mul_mono f32_mul_ge_0)
qed

lemma score_mono_terms:
  assumes "improves (s\<lparr>rs_plugin_score_hint := 0, rs_selection_frequency := 0\<rparr>) (t\<lparr>rs_plugin_score_hint := 0, rs_selection_frequency := 0\<rparr>)"
    and hint: "bounded_signed (f32_of_signed (rs_plugin_score_hint s)) 100 \<le> bounded_signed (f32_of_signed (rs_plugin_score_hint t)) 100"
    and frequency: "h \<Longrightarrow> saturating_rise (f32_of_unsigned (rs_selection_frequency s)) 8 \<le> saturating_rise (f32_of_unsigned (rs_selection_frequency t)) 8"
  shows "score_signals h s \<le> score_signals h t"
proof -
  have "list_all2 term_le (signal_terms h s) (signal_terms h t)"
    using assms
    by (auto simp: signal_terms_def improves_def at_least_def half_lives f32_mul_mono weights_ok decay_term_le)
  moreover have "f32_mul w_match_quality (sanitize (rs_match_quality s) 0 1) \<le> f32_mul w_match_quality (sanitize (rs_match_quality t) 0 1)"
    using assms(1) by (intro f32_mul_mono weights_ok) (simp add: improves_def at_least_def)
  ultimately show ?thesis unfolding score_is_total total_as_fold by (intro terms_mono) simp_all
qed

section \<open>Properties\<close>

text \<open>
  C32: Ranking follows the evidence: a candidate none of whose signals is worse never scores
  lower, whatever floats the plugins supplied and whether or not history counts, as long as
  the plugins' hints lie within twenty thousand and an item has been selected fewer than
  sixteen million times. Every score lies between the documented extremes, so the final clamp
  never changes one, and with history switched off the history signals have no effect.
\<close>

theorem ranking_monotone:
  assumes "improves s t"
    and "- 20000 \<le> sint (rs_plugin_score_hint s)" and "sint (rs_plugin_score_hint t) \<le> 20000"
    and "unat (rs_selection_frequency t) < 2 ^ 24 - 8"
  shows "score_signals h s \<le> score_signals h t
    \<and> min_score \<le> score_signals h s \<and> score_signals h s \<le> max_score \<and> score_signals h s = total_of_signals h s
    \<and> score_signals False (s\<lparr>rs_selection_frequency := f, rs_selection_recency_secs := a, rs_query_history := q\<rparr>) = score_signals False s"
proof -
  let ?hs = "rs_plugin_score_hint s" and ?ht = "rs_plugin_score_hint t" and ?fs = "rs_selection_frequency s" and ?ft = "rs_selection_frequency t"
  have order: "sint ?hs \<le> sint ?ht" "unat ?fs \<le> unat ?ft" using assms(1) by (auto simp: improves_def word_le_nat_alt)
  have "f32_of_signed ?hs = of_int (sint ?hs)" using assms(2,3) order(1) by (intro f32_of_signed_exact) simp
  moreover have "f32_of_signed ?ht = of_int (sint ?ht)" using assms(2,3) order(1) by (intro f32_of_signed_exact) simp
  ultimately have hint: "bounded_signed (f32_of_signed ?hs) 100 \<le> bounded_signed (f32_of_signed ?ht) 100"
    using signed_mono [OF order(1) assms(2,3)] by simp
  have "f32_of_unsigned ?fs = of_nat (unat ?fs)" using order(2) assms(4) by (intro f32_of_unsigned_exact) simp
  moreover have "f32_of_unsigned ?ft = of_nat (unat ?ft)" using assms(4) by (intro f32_of_unsigned_exact) simp
  ultimately have "saturating_rise (f32_of_unsigned ?fs) 8 \<le> saturating_rise (f32_of_unsigned ?ft) 8"
    using rise_mono [OF order(2)] assms(4) by simp
  moreover have "improves (s\<lparr>rs_plugin_score_hint := 0, rs_selection_frequency := 0\<rparr>) (t\<lparr>rs_plugin_score_hint := 0, rs_selection_frequency := 0\<rparr>)"
    using assms(1) by (simp add: improves_def)
  ultimately have "score_signals h s \<le> score_signals h t" using hint by (intro score_mono_terms)
  moreover have "score_signals False (s\<lparr>rs_selection_frequency := f, rs_selection_recency_secs := a, rs_query_history := q\<rparr>) = score_signals False s"
    by (simp add: score_signals_def total_of_signals_def)
  ultimately show ?thesis using total_bounds [of h s] by (simp add: score_is_total)
qed

theorem ranking_monotone_witness:
  "score_signals True (default_ranking_signals\<lparr>rs_plugin_score_hint := - 5, rs_match_quality := NaN\<rparr>)
    \<le> score_signals True (default_ranking_signals\<lparr>rs_plugin_score_hint := 7, rs_selection_frequency := 3, rs_match_quality := Fin (1 / 2)\<rparr>)"
  by (rule ranking_monotone [THEN conjunct1]) (simp_all add: improves_def default_ranking_signals_def at_least_def clamp_def)

text \<open>
  C33: The candidate cut of the catalog is safe: no match other than of the whole label or of
  its prefix, that is none with a quality of at most 0.73 and no exact-prefix bonus, scores
  above \<open>non_prefix_upper_bound\<close> of its item, whatever the history, context and preference are.
\<close>

theorem non_prefix_bound_holds:
  assumes "ms_method m \<noteq> ExactPrefix" and "sanitize (ms_score m) 0 1 \<le> f32_round (73 / 100)"
  shows "score_match_with_signals h i m s \<le> non_prefix_upper_bound h i"
proof -
  have full: "saturating_rise (f32_of_unsigned (- 1 :: u32)) 8 = 1" by code_simp
  have "saturating_rise (f32_of_unsigned w) 8 \<le> 1" for w :: u32
    using rise_bounds [of "f32_of_unsigned w" 8] f32_of_unsigned_ge_0 [of w] by simp
  moreover have "f32_round (73 / 100) = 12247368 / 16777216" by code_simp
  ultimately show ?thesis
    using assms sanitize_bounds [of 0 1 "rs_query_history s"] sanitize_bounds [of 0 1 "rs_user_preference s"]
    unfolding score_match_with_signals_def non_prefix_upper_bound_def
    by (intro score_mono_terms) (auto simp: improves_def at_least_def full clamp_def)
qed

definition demo_ranked_item :: item where
  "demo_ranked_item =
     \<lparr>it_stable_id = ''notes'', it_plugin_id = ''files'', it_category = CatFile, it_label = ''Notes'', it_description = [],
      it_target = ''/notes'', it_search_terms = [], it_icon_reference = None, it_argument_policy = ArgForbidden,
      it_hit_policy = HitRecorded, it_score_hint = - 70000, it_metadata = [], it_actions = []\<rparr>"

theorem non_prefix_bound_holds_witness:
  "score_match_with_signals True demo_ranked_item \<lparr>ms_score = Fin (1 / 2), ms_method = Substring, ms_match_position = Some 3\<rparr>
     (default_ranking_signals\<lparr>rs_selection_frequency := - 1, rs_context_match := True\<rparr>)
   \<le> non_prefix_upper_bound True demo_ranked_item"
proof (rule non_prefix_bound_holds)
  show "sanitize (ms_score \<lparr>ms_score = Fin (1 / 2), ms_method = Substring, ms_match_position = Some 3\<rparr>) 0 1 \<le> f32_round (73 / 100)"
    by code_simp
qed simp

text \<open>
  Beyond the range of \<open>ranking_monotone\<close> the order can break: of two candidates alike but for the
  hint, the one the plugin rates higher scores lower, because the rounding of \<open>1.0 + scaled.abs()\<close>
  outweighs one step of the hint.
\<close>

lemma hint_score:
  assumes "f32_of_signed w = v"
  shows "score_signals False (default_ranking_signals\<lparr>rs_plugin_score_hint := w\<rparr>) = f32_mul w_plugin_hint (bounded_signed v 100)"
  unfolding score_is_total
  by (simp add: total_of_signals_def default_ranking_signals_def assms hint_half_scale_def clamp_def f32_add_def f32_mul_def)

lemma hint_curve_breaks: "f32_mul w_plugin_hint (bounded_signed 51127 100) < f32_mul w_plugin_hint (bounded_signed 51126 100)"
  by code_simp

lemma hint_not_monotone:
  "score_signals False (default_ranking_signals\<lparr>rs_plugin_score_hint := 51127\<rparr>)
    < score_signals False (default_ranking_signals\<lparr>rs_plugin_score_hint := 51126\<rparr>)"
  using hint_score [of 51127 51127] hint_score [of 51126 51126] hint_curve_breaks f32_of_signed_exact [of "51127 :: 32 word"] f32_of_signed_exact [of "51126 :: 32 word"]
  by simp

end
