(* ===== verification/Selection_History.thy ===== *)
theory Selection_History
  imports Ranking "HOL-Library.Char_ord" "HOL-Library.List_Lexorder" "HOL-Library.Product_Lexorder" "HOL-Library.Option_ord" "HOL-Library.Multiset"
begin

text \<open>
  The record of past selections the ranker learns from: \<open>SelectionHistory\<close> of
  \<open>crates/crikey-ranking/src/lib.rs\<close>. A \<open>BTreeMap\<close> is the list of its entries in the order of
  their keys. Strings are ordered character by character, which is the order of their bytes.
\<close>

section \<open>Ordered maps\<close>

fun bt_insert :: "'k :: linorder \<Rightarrow> 'v \<Rightarrow> ('k \<times> 'v) list \<Rightarrow> ('k \<times> 'v) list" where
  "bt_insert key v [] = [(key, v)]"
| "bt_insert key v ((k, w) # m) =
     (if key < k then (key, v) # (k, w) # m
      else if key = k then (key, v) # m
      else (k, w) # bt_insert key v m)"

definition bt_remove :: "'k \<Rightarrow> ('k \<times> 'v) list \<Rightarrow> ('k \<times> 'v) list" where
  "bt_remove key m = filter (\<lambda>e. fst e \<noteq> key) m"

text \<open>\<open>entry(key).or_default()\<close> and what is then assigned to the entry.\<close>

definition bt_update :: "'k :: linorder \<Rightarrow> 'v \<Rightarrow> ('v \<Rightarrow> 'v) \<Rightarrow> ('k \<times> 'v) list \<Rightarrow> ('k \<times> 'v) list" where
  "bt_update key v f m = bt_insert key (f (case map_of m key of Some w \<Rightarrow> w | None \<Rightarrow> v)) m"

text \<open>\<open>range(start..)\<close>\<close>

definition bt_range_from :: "'k :: linorder \<Rightarrow> ('k \<times> 'v) list \<Rightarrow> ('k \<times> 'v) list" where
  "bt_range_from start m = dropWhile (\<lambda>e. fst e < start) m"

definition bt_ok :: "('k :: linorder \<times> 'v) list \<Rightarrow> bool" where
  "bt_ok m \<longleftrightarrow> sorted_wrt (<) (map fst m)"

section \<open>Model\<close>

record history_entry =
  he_frequency :: u32
  he_last_selected_secs :: "u64 option"

type_synonym item_key = "plugin_id \<times> item_id"
type_synonym query_key = "string \<times> plugin_id \<times> item_id"

record selection_history =
  sh_entries :: "(item_key \<times> history_entry) list"
  sh_query_counts :: "(query_key \<times> u32) list"

definition max_item_records :: nat where "max_item_records = 4096"
definition max_query_affinities :: nat where "max_query_affinities = 8192"
definition max_affinity_key_bytes :: nat where "max_affinity_key_bytes = 512"
definition max_item_key_bytes :: nat where "max_item_key_bytes = 256"

record selection_record =
  sr_plugin :: plugin_id
  sr_item :: item_id
  sr_frequency :: u32
  sr_last_selected_secs :: "u64 option"

record query_affinity_record =
  qr_plugin :: plugin_id
  qr_item :: item_id
  qr_query :: string
  qr_count :: u32

record selection_history_snapshot =
  ss_selections :: "selection_record list"
  ss_query_affinities :: "query_affinity_record list"

type_synonym query_affinity = "(item_key \<times> u32) list"

definition default_selection_history :: selection_history where
  "default_selection_history = \<lparr>sh_entries = [], sh_query_counts = []\<rparr>"

definition item_key_fits :: "plugin_id \<Rightarrow> item_id \<Rightarrow> bool" where
  "item_key_fits plugin i \<longleftrightarrow> usize_sat_add (utf8_len plugin) (utf8_len i) \<le> max_item_key_bytes"

definition affinity_key_fits :: "plugin_id \<Rightarrow> item_id \<Rightarrow> string \<Rightarrow> bool" where
  "affinity_key_fits plugin i query \<longleftrightarrow>
     item_key_fits plugin i
     \<and> usize_sat_add (usize_sat_add (utf8_len plugin) (utf8_len i)) (utf8_len query) \<le> max_affinity_key_bytes"

definition evict_entries :: "(item_key \<times> history_entry) list \<Rightarrow> (item_key \<times> history_entry) list" where
  "evict_entries m =
     (if max_item_records < length m then
        let target = max_item_records - max_item_records div 8;
            ranked = sort (map (\<lambda>(key, e). (he_frequency e, he_last_selected_secs e, key)) m);
            excess = length m - target
        in foldl (\<lambda>m (_, _, key). bt_remove key m) m (take excess ranked)
      else m)"

definition evict_query_counts :: "(query_key \<times> u32) list \<Rightarrow> (query_key \<times> u32) list" where
  "evict_query_counts m =
     (if max_query_affinities < length m then
        let target = max_query_affinities - max_query_affinities div 8;
            ranked = sort (map (\<lambda>(key, n). (n, key)) m);
            excess = length m - target
        in foldl (\<lambda>m (_, key). bt_remove key m) m (take excess ranked)
      else m)"

definition evict_to_capacity :: "selection_history \<Rightarrow> selection_history" where
  "evict_to_capacity h =
     h\<lparr>sh_entries := evict_entries (sh_entries h), sh_query_counts := evict_query_counts (sh_query_counts h)\<rparr>"

text \<open>\<open>record\<close>; of the query only its normalized text is read.\<close>

definition sh_record :: "item \<Rightarrow> string \<Rightarrow> u64 \<Rightarrow> selection_history \<Rightarrow> selection_history" where
  "sh_record i normalized now h =
     (let plugin = it_plugin_id i; sid = it_stable_id i
      in if \<not> item_key_fits plugin sid then h
         else
           let h = h\<lparr>sh_entries := bt_update (plugin, sid) \<lparr>he_frequency = 0, he_last_selected_secs = None\<rparr>
                 (\<lambda>e. e\<lparr>he_frequency := sat_add (he_frequency e) 1, he_last_selected_secs := Some now\<rparr>) (sh_entries h)\<rparr>;
               h = (if affinity_key_fits plugin sid normalized
                 then h\<lparr>sh_query_counts := bt_update (normalized, plugin, sid) 0 (\<lambda>n. sat_add n 1) (sh_query_counts h)\<rparr>
                 else h)
           in evict_to_capacity h)"

definition affinities_for :: "selection_history \<Rightarrow> string \<Rightarrow> query_affinity" where
  "affinities_for h normalized =
     (if normalized = [] then []
      else foldl (\<lambda>totals ((_, plugin, i), n). bt_update (plugin, i) 0 (\<lambda>t. sat_add t n) totals) []
        (takeWhile (\<lambda>((recorded, _, _), _). starts_with recorded normalized)
          (bt_range_from (normalized, [], []) (sh_query_counts h))))"

definition count_for :: "query_affinity \<Rightarrow> item \<Rightarrow> u32 option" where
  "count_for a i = map_of a (it_plugin_id i, it_stable_id i)"

definition affinity_is_empty :: "query_affinity \<Rightarrow> bool" where
  "affinity_is_empty a \<longleftrightarrow> a = []"

definition sh_augment :: "selection_history \<Rightarrow> item \<Rightarrow> query_affinity \<Rightarrow> u64 \<Rightarrow> category option \<Rightarrow> ranking_signals \<Rightarrow> ranking_signals" where
  "sh_augment h i a now foreground s =
     (let s = (case map_of (sh_entries h) (it_plugin_id i, it_stable_id i) of
            Some e \<Rightarrow> s\<lparr>rs_selection_frequency := he_frequency e,
              rs_selection_recency_secs := map_option (\<lambda>selected. sat_sub now selected) (he_last_selected_secs e)\<rparr>
          | None \<Rightarrow> s)
      in s\<lparr>rs_query_history := Fin (case count_for a i of
              Some n \<Rightarrow> saturating_rise (f32_of_unsigned n) frequency_half_life | None \<Rightarrow> 0),
           rs_context_match := (foreground = Some (it_category i))\<rparr>)"

definition sh_clear :: "selection_history \<Rightarrow> selection_history" where
  "sh_clear h = h\<lparr>sh_entries := [], sh_query_counts := []\<rparr>"

definition sh_snapshot :: "selection_history \<Rightarrow> selection_history_snapshot" where
  "sh_snapshot h =
     \<lparr>ss_selections = map (\<lambda>((plugin, i), e).
        \<lparr>sr_plugin = plugin, sr_item = i, sr_frequency = he_frequency e, sr_last_selected_secs = he_last_selected_secs e\<rparr>) (sh_entries h),
      ss_query_affinities = map (\<lambda>((query, plugin, i), n).
        \<lparr>qr_plugin = plugin, qr_item = i, qr_query = query, qr_count = n\<rparr>) (sh_query_counts h)\<rparr>"

definition restore_selection :: "(item_key \<times> history_entry) list \<Rightarrow> selection_record \<Rightarrow> (item_key \<times> history_entry) list" where
  "restore_selection m r =
     (if item_key_fits (sr_plugin r) (sr_item r)
      then bt_insert (sr_plugin r, sr_item r) \<lparr>he_frequency = sr_frequency r, he_last_selected_secs = sr_last_selected_secs r\<rparr> m
      else m)"

definition restore_affinity :: "(query_key \<times> u32) list \<Rightarrow> query_affinity_record \<Rightarrow> (query_key \<times> u32) list" where
  "restore_affinity m r =
     (if affinity_key_fits (qr_plugin r) (qr_item r) (qr_query r)
      then bt_insert (qr_query r, qr_plugin r, qr_item r) (qr_count r) m
      else m)"

definition from_snapshot :: "selection_history_snapshot \<Rightarrow> selection_history" where
  "from_snapshot snap =
     evict_to_capacity
       \<lparr>sh_entries = foldl restore_selection [] (ss_selections snap),
        sh_query_counts = foldl restore_affinity [] (ss_query_affinities snap)\<rparr>"

section \<open>Laws of ordered maps\<close>

lemma map_of_bt_insert: "bt_ok m \<Longrightarrow> map_of (bt_insert k v m) = (map_of m)(k \<mapsto> v)"
proof (induction k v m rule: bt_insert.induct)
  case (2 key v k w m)
  then show ?case by (auto simp: bt_ok_def fun_eq_iff map_of_eq_None_iff [symmetric])
qed (simp add: bt_ok_def)

lemma bt_insert_keys: "set (map fst (bt_insert k v m)) = insert k (set (map fst m))"
  by (induction k v m rule: bt_insert.induct) auto

lemma bt_insert_ok: "bt_ok m \<Longrightarrow> bt_ok (bt_insert k v m)"
proof (induction k v m rule: bt_insert.induct)
  case (2 key v k w m)
  then show ?case
    using bt_insert_keys [of key v m] by (auto simp: bt_ok_def simp del: set_map)
qed (simp add: bt_ok_def)

lemma bt_insert_length: "length (bt_insert k v m) \<le> Suc (length m)"
  by (induction k v m rule: bt_insert.induct) auto

lemma bt_insert_last: "\<forall>e \<in> set m. fst e < k \<Longrightarrow> bt_insert k v m = m @ [(k, v)]"
  by (induction k v m rule: bt_insert.induct) auto

lemma bt_distinct: "bt_ok m \<Longrightarrow> distinct (map fst m)"
  by (simp add: bt_ok_def strict_sorted_iff)

lemma bt_filter_ok: "bt_ok m \<Longrightarrow> bt_ok (filter P m)"
  by (induction m) (auto simp: bt_ok_def)

lemma bt_insert_all:
  assumes "bt_ok (m @ n)"
  shows "foldl (\<lambda>m e. bt_insert (fst e) (snd e) m) m n = m @ n"
  using assms
proof (induction n arbitrary: m)
  case (Cons e n)
  then have "bt_insert (fst e) (snd e) m = m @ [e]"
    by (intro trans [OF bt_insert_last]) (auto simp: bt_ok_def sorted_wrt_append)
  then show ?case using Cons.IH [of "m @ [e]"] Cons.prems by simp
qed simp

section \<open>Eviction by rank\<close>

text \<open>
  A store that drops its least-ranked entries. The rank of an entry carries its key, so ranks
  are distinct and the order is total.
\<close>

locale ranked_store =
  fixes rank :: "'k :: linorder \<times> 'v \<Rightarrow> 'r :: linorder" and key :: "'r \<Rightarrow> 'k"
  assumes key_rank: "key (rank e) = fst e"
begin

lemma remove_all: "foldl (\<lambda>m r. bt_remove (key r) m) m rs = filter (\<lambda>e. fst e \<notin> key ` set rs) m"
  by (induction rs arbitrary: m) (auto simp: bt_remove_def intro: filter_cong)

lemma rank_inj: "distinct (map fst m) \<Longrightarrow> distinct (map rank m)"
  by (metis (no_types, lifting) distinct_map key_rank list.map_cong0 list.map_comp map_eq_conv o_apply)

lemma evicted:
  assumes "distinct (map fst m)"
  shows "foldl (\<lambda>m r. bt_remove (key r) m) m (take n (sort (map rank m))) = filter (\<lambda>e. rank e \<notin> set (take n (sort (map rank m)))) m"
proof -
  let ?gone = "set (take n (sort (map rank m)))"
  have "fst e \<in> key ` ?gone \<longleftrightarrow> rank e \<in> ?gone" if "e \<in> set m" for e
  proof
    assume "fst e \<in> key ` ?gone"
    then obtain r where r: "r \<in> ?gone" "fst e = key r" by auto
    then have "r \<in> set (map rank m)" using in_set_takeD [OF r(1)] by simp
    then obtain d where d: "d \<in> set m" "r = rank d" by auto
    then have "fst d = fst e" using r key_rank by simp
    then have "d = e" using assms d(1) that by (metis distinct_map inj_onD)
    then show "rank e \<in> ?gone" using r d by simp
  next
    assume "rank e \<in> ?gone"
    then show "fst e \<in> key ` ?gone" using key_rank [of e] by (metis imageI)
  qed
  then show ?thesis unfolding remove_all by (intro filter_cong) simp_all
qed

lemma evicted_length:
  assumes "distinct (map fst m)" and "n \<le> length m"
  shows "length (filter (\<lambda>e. rank e \<notin> set (take n (sort (map rank m)))) m) = length m - n"
proof -
  let ?rs = "sort (map rank m)"
  have "filter (\<lambda>r. r \<notin> set (take n ?rs)) ?rs = drop n ?rs"
  proof -
    have "distinct (take n ?rs @ drop n ?rs)" using rank_inj [OF assms(1)] by simp
    then have "filter (\<lambda>r. r \<notin> set (take n ?rs)) (take n ?rs @ drop n ?rs) = drop n ?rs"
      unfolding distinct_append filter_append by (subst filter_False, blast, subst filter_True) auto
    then show ?thesis by simp
  qed
  then have "length (filter (\<lambda>r. r \<notin> set (take n ?rs)) ?rs) = length m - n" by simp
  moreover have "mset (filter (\<lambda>r. r \<notin> set (take n ?rs)) ?rs) = mset (filter (\<lambda>r. r \<notin> set (take n ?rs)) (map rank m))"
    by simp
  ultimately have "length (filter (\<lambda>r. r \<notin> set (take n ?rs)) (map rank m)) = length m - n" by (metis size_mset)
  then show ?thesis by (simp add: filter_map o_def)
qed

lemma evicted_least:
  assumes "distinct (map fst m)" and "e \<in> set m" "rank e \<notin> set (take n (sort (map rank m)))"
    and "rank d \<in> set (take n (sort (map rank m)))"
  shows "rank d < rank e"
proof -
  let ?rs = "sort (map rank m)"
  have "rank e \<in> set (drop n ?rs)" using assms(2,3) by (metis append_take_drop_id image_eqI set_append set_map set_sort UnE)
  moreover have "\<forall>x \<in> set (take n ?rs). \<forall>y \<in> set (drop n ?rs). x \<le> y"
    using sorted_sort [of "map rank m"] by (metis append_take_drop_id sorted_append)
  ultimately have "rank d \<le> rank e" using assms(4) by blast
  moreover have "rank d \<noteq> rank e" using assms(3,4) by metis
  ultimately show ?thesis by simp
qed

end

definition entry_rank :: "item_key \<times> history_entry \<Rightarrow> u32 \<times> u64 option \<times> item_key" where
  "entry_rank e = (he_frequency (snd e), he_last_selected_secs (snd e), fst e)"

definition count_rank :: "query_key \<times> u32 \<Rightarrow> u32 \<times> query_key" where
  "count_rank e = (snd e, fst e)"

interpretation entries: ranked_store entry_rank "\<lambda>r. snd (snd r)"
  by standard (simp add: entry_rank_def)

interpretation counts: ranked_store count_rank snd
  by standard (simp add: count_rank_def)

text \<open>What eviction leaves: nothing changes within the cap; beyond it the least-ranked go.\<close>

lemma evict_entries_filter:
  assumes "distinct (map fst m)"
  shows "evict_entries m = filter (\<lambda>e. max_item_records < length m \<longrightarrow>
    entry_rank e \<notin> set (take (length m - 3584) (sort (map entry_rank m)))) m"
proof -
  have "(\<lambda>(key, e). (he_frequency e, he_last_selected_secs e, key)) = entry_rank" by (auto simp: entry_rank_def)
  then show ?thesis
    using entries.evicted [OF assms, of "length m - 3584"]
    by (simp add: evict_entries_def max_item_records_def Let_def case_prod_beta')
qed

lemma evict_counts_filter:
  assumes "distinct (map fst m)"
  shows "evict_query_counts m = filter (\<lambda>e. max_query_affinities < length m \<longrightarrow>
    count_rank e \<notin> set (take (length m - 7168) (sort (map count_rank m)))) m"
proof -
  have "(\<lambda>(key, n). (n, key)) = count_rank" by (auto simp: count_rank_def)
  then show ?thesis
    using counts.evicted [OF assms, of "length m - 7168"]
    by (simp add: evict_query_counts_def max_query_affinities_def Let_def case_prod_beta')
qed

lemma evict_entries_length:
  "distinct (map fst m) \<Longrightarrow> length (evict_entries m) = (if max_item_records < length m then 3584 else length m)"
  using entries.evicted_length [of m "length m - 3584"]
  by (cases "max_item_records < length m") (simp_all add: evict_entries_filter max_item_records_def)

lemma evict_counts_length:
  "distinct (map fst m) \<Longrightarrow> length (evict_query_counts m) = (if max_query_affinities < length m then 7168 else length m)"
  using counts.evicted_length [of m "length m - 7168"]
  by (cases "max_query_affinities < length m") (simp_all add: evict_counts_filter max_query_affinities_def)

lemma evict_entries_least:
  assumes "distinct (map fst m)" and "e \<in> set (evict_entries m)" and "d \<in> set m - set (evict_entries m)"
  shows "entry_rank d < entry_rank e"
  using entries.evicted_least [OF assms(1), of e "length m - 3584" d] assms
  by (auto simp: evict_entries_filter split: if_splits)

lemma evict_counts_least:
  assumes "distinct (map fst m)" and "e \<in> set (evict_query_counts m)" and "d \<in> set m - set (evict_query_counts m)"
  shows "count_rank d < count_rank e"
  using counts.evicted_least [OF assms(1), of e "length m - 7168" d] assms
  by (auto simp: evict_counts_filter split: if_splits)

section \<open>The invariant\<close>

definition keys_ok :: "('k :: linorder \<Rightarrow> bool) \<Rightarrow> ('k \<times> 'v) list \<Rightarrow> bool" where
  "keys_ok P m \<longleftrightarrow> bt_ok m \<and> (\<forall>k \<in> fst ` set m. P k)"

lemma keys_ok_simps [simp]:
  "keys_ok P []"
  "keys_ok P m \<Longrightarrow> P k \<Longrightarrow> keys_ok P (bt_insert k v m)"
  "keys_ok P m \<Longrightarrow> P k \<Longrightarrow> keys_ok P (bt_update k v f m)"
  "keys_ok P m \<Longrightarrow> keys_ok P (filter Q m)"
  using bt_insert_keys [of k _ m]
  by (auto simp: keys_ok_def bt_update_def bt_insert_ok bt_filter_ok) (simp add: bt_ok_def)

definition history_ok :: "selection_history \<Rightarrow> bool" where
  "history_ok h \<longleftrightarrow>
     keys_ok (\<lambda>(plugin, i). item_key_fits plugin i) (sh_entries h)
     \<and> keys_ok (\<lambda>(query, plugin, i). affinity_key_fits plugin i query) (sh_query_counts h)
     \<and> length (sh_entries h) \<le> max_item_records \<and> length (sh_query_counts h) \<le> max_query_affinities"

lemma evict_ok:
  assumes "keys_ok (\<lambda>(plugin, i). item_key_fits plugin i) (sh_entries h)"
    and "keys_ok (\<lambda>(query, plugin, i). affinity_key_fits plugin i query) (sh_query_counts h)"
  shows "history_ok (evict_to_capacity h)"
proof -
  have "distinct (map fst (sh_entries h))" "distinct (map fst (sh_query_counts h))"
    using assms by (simp_all add: keys_ok_def bt_distinct)
  moreover from this have "length (evict_entries (sh_entries h)) \<le> max_item_records"
    and "length (evict_query_counts (sh_query_counts h)) \<le> max_query_affinities"
    by (simp_all add: evict_entries_length evict_counts_length max_item_records_def max_query_affinities_def)
  ultimately show ?thesis
    using assms by (simp add: history_ok_def evict_to_capacity_def evict_entries_filter evict_counts_filter)
qed

lemma record_ok: "history_ok h \<Longrightarrow> history_ok (sh_record i q now h)"
  by (auto simp: sh_record_def Let_def intro!: evict_ok) (simp_all add: history_ok_def)

lemma from_snapshot_ok: "history_ok (from_snapshot snap)"
proof -
  have "keys_ok (\<lambda>(plugin, i). item_key_fits plugin i) (foldl restore_selection m rs)"
    if "keys_ok (\<lambda>(plugin, i). item_key_fits plugin i) m" for m rs
    using that by (induction rs arbitrary: m) (simp_all add: restore_selection_def)
  moreover have "keys_ok (\<lambda>(query, plugin, i). affinity_key_fits plugin i query) (foldl restore_affinity m qs)"
    if "keys_ok (\<lambda>(query, plugin, i). affinity_key_fits plugin i query) m" for m qs
    using that by (induction qs arbitrary: m) (simp_all add: restore_affinity_def)
  ultimately show ?thesis unfolding from_snapshot_def by (intro evict_ok) simp_all
qed

text \<open>A history as the application can come to hold it.\<close>

inductive history_reachable :: "selection_history \<Rightarrow> bool" where
  fresh: "history_reachable default_selection_history"
| recorded: "history_reachable h \<Longrightarrow> history_reachable (sh_record i normalized now h)"
| cleared: "history_reachable h \<Longrightarrow> history_reachable (sh_clear h)"
| restored: "history_reachable (from_snapshot snap)"

lemma reachable_ok: "history_reachable h \<Longrightarrow> history_ok h"
proof (induction rule: history_reachable.induct)
  case (cleared h)
  show ?case by (simp add: history_ok_def sh_clear_def)
next
  case fresh
  show ?case by (simp add: history_ok_def default_selection_history_def)
qed (simp_all add: record_ok from_snapshot_ok)

lemma snapshot_restores:
  assumes "history_ok h"
  shows "from_snapshot (sh_snapshot h) = h"
proof -
  have fits: "\<forall>e \<in> set (sh_entries h). item_key_fits (fst (fst e)) (snd (fst e))"
      "\<forall>e \<in> set (sh_query_counts h). affinity_key_fits (fst (snd (fst e))) (snd (snd (fst e))) (fst (fst e))"
    and sorted: "bt_ok (sh_entries h)" "bt_ok (sh_query_counts h)"
    using assms by (auto simp: history_ok_def keys_ok_def)
  have eta: "\<lparr>he_frequency = he_frequency e, he_last_selected_secs = he_last_selected_secs e\<rparr> = e" for e by simp
  have "foldl restore_selection m (map (\<lambda>((plugin, i), e).
        \<lparr>sr_plugin = plugin, sr_item = i, sr_frequency = he_frequency e, sr_last_selected_secs = he_last_selected_secs e\<rparr>) es) = foldl (\<lambda>m e. bt_insert (fst e) (snd e) m) m es"
    if "\<forall>e \<in> set es. item_key_fits (fst (fst e)) (snd (fst e))" for m es
    using that by (induction es arbitrary: m) (auto simp: restore_selection_def eta)
  from this [OF fits(1), of "[]"] have entries: "foldl restore_selection [] (ss_selections (sh_snapshot h)) = sh_entries h"
    using bt_insert_all [of "[]" "sh_entries h"] sorted(1) by (simp add: sh_snapshot_def)
  have "foldl restore_affinity m (map (\<lambda>((query, plugin, i), n).
        \<lparr>qr_plugin = plugin, qr_item = i, qr_query = query, qr_count = n\<rparr>) es) = foldl (\<lambda>m e. bt_insert (fst e) (snd e) m) m es"
    if "\<forall>e \<in> set es. affinity_key_fits (fst (snd (fst e))) (snd (snd (fst e))) (fst (fst e))" for m es
    using that by (induction es arbitrary: m) (auto simp: restore_affinity_def)
  from this [OF fits(2), of "[]"] have "foldl restore_affinity [] (ss_query_affinities (sh_snapshot h)) = sh_query_counts h"
    using bt_insert_all [of "[]" "sh_query_counts h"] sorted(2) by (simp add: sh_snapshot_def)
  with entries assms show ?thesis
    by (simp add: from_snapshot_def evict_to_capacity_def evict_entries_def evict_query_counts_def history_ok_def)
qed

section \<open>Affinity\<close>

text \<open>The recorded queries that continue a query are contiguous in the order of the keys.\<close>

lemma starts_with_prefix: "starts_with s p \<longleftrightarrow> (\<exists>t. s = p @ t)"
  unfolding starts_with_def by (metis append_eq_conv_conj append_take_drop_id)

lemma prefix_ge: "(q :: string) \<le> q @ t"
  by (induction q) simp_all

lemma prefix_convex:
  fixes q :: string
  shows "q \<le> a \<Longrightarrow> a \<le> q @ t \<Longrightarrow> \<exists>u. a = q @ u"
proof (induction q arbitrary: a)
  case (Cons x q)
  then obtain y b where a: "a = y # b" by (cases a) auto
  then have "y = x" "q \<le> b" "b \<le> q @ t" using Cons.prems by auto
  then show ?case using Cons.IH [of b] a by auto
qed simp

lemma range_takeWhile:
  assumes "bt_ok m"
    and "\<And>k. P k \<Longrightarrow> start \<le> k" and "\<And>j k. start \<le> j \<Longrightarrow> j \<le> k \<Longrightarrow> P k \<Longrightarrow> P j"
  shows "takeWhile (\<lambda>e. P (fst e)) (bt_range_from start m) = filter (\<lambda>e. P (fst e)) m"
proof -
  have tail: "takeWhile (\<lambda>e. P (fst e)) n = filter (\<lambda>e. P (fst e)) n" if "bt_ok n" "\<forall>e \<in> set n. start \<le> fst e" for n
    using that
  proof (induction n)
    case (Cons e n)
    then show ?case using assms(3) [of "fst e"] by (auto simp: bt_ok_def intro!: filter_False [symmetric]) (metis fst_conv less_imp_le)
  qed simp
  show ?thesis using assms(1)
  proof (induction m)
    case (Cons e m)
    show ?case
    proof (cases "fst e < start")
      case True
      then show ?thesis using Cons assms(2) [of "fst e"] by (auto simp: bt_range_from_def bt_ok_def)
    next
      case False
      then have "\<forall>d \<in> set (e # m). start \<le> fst d" using Cons.prems by (auto simp: bt_ok_def)
      then show ?thesis using tail [OF Cons.prems] False by (simp add: bt_range_from_def)
    qed
  qed (simp add: bt_range_from_def)
qed

lemma nil_less: "([] :: string) < b \<longleftrightarrow> b \<noteq> []"
  by (cases b) simp_all

lemma affinity_range:
  fixes m :: "(query_key \<times> u32) list"
  assumes "bt_ok m"
  shows "takeWhile (\<lambda>((recorded, _, _), _). starts_with recorded q) (bt_range_from (q, [], []) m)
    = filter (\<lambda>((recorded, _, _), _). starts_with recorded q) m"
proof -
  have "takeWhile (\<lambda>e. (\<lambda>k. starts_with (fst k) q) (fst e)) (bt_range_from (q, [], []) m) = filter (\<lambda>e. (\<lambda>k. starts_with (fst k) q) (fst e)) m"
  proof (rule range_takeWhile [OF assms])
    show "(q, [], []) \<le> k" if "starts_with (fst k) q" for k :: query_key
      using that prefix_ge [of q] by (cases k) (auto simp: starts_with_prefix less_eq_prod_def le_less nil_less)
    show "starts_with (fst j) q" if "(q, [], []) \<le> j" "j \<le> k" "starts_with (fst k) q" for j k :: query_key
    proof -
      have "q \<le> fst j" "fst j \<le> fst k" using that(1,2) by (auto simp: less_eq_prod_def)
      then show ?thesis using that(3) prefix_convex [of q "fst j"] by (auto simp: starts_with_prefix)
    qed
  qed
  then show ?thesis by (simp add: case_prod_beta')
qed

text \<open>A saturating sum is the sum, capped.\<close>

lemma foldl_sat_add: "unat (foldl sat_add a ns) = min (unat a + sum_list (map unat ns)) (2 ^ LENGTH('a) - 1)" for a :: "'a :: len word"
proof (induction ns arbitrary: a)
  case Nil
  then show ?case using unat_le_max [of a] by simp
next
  case (Cons n ns)
  then show ?case by (simp add: unat_sat_add)
qed

lemma totals_lookup:
  assumes "bt_ok totals"
  shows "map_of (foldl (\<lambda>totals ((_, plugin, i), n). bt_update (plugin, i) 0 (\<lambda>t. sat_add t n) totals) totals es) k =
    (let ns = map snd (filter (\<lambda>e. snd (fst e) = k) es)
     in if ns = [] then map_of totals k else Some (foldl sat_add (case map_of totals k of Some t \<Rightarrow> t | None \<Rightarrow> 0) ns))"
  using assms
proof (induction es arbitrary: totals)
  case (Cons e es)
  obtain r p i n where e: "e = ((r, p, i), n)" by (metis prod.exhaust)
  let ?t = "bt_update (p, i) 0 (\<lambda>t. sat_add t n) totals"
  have "bt_ok ?t" using Cons.prems by (simp add: bt_update_def bt_insert_ok)
  from Cons.IH [OF this] Cons.prems show ?case
    by (auto simp: e bt_update_def map_of_bt_insert Let_def)
qed simp

section \<open>Properties\<close>

text \<open>
  C34: However a history came about, by selections, by restoring any file, by clearing, it holds
  at most its caps of records, each with a key of bounded size and each key once, and saving
  it and loading it again gives the same history. Eviction touches neither the selection
  records nor the query affinities while they are within their caps; beyond its cap, each
  table keeps exactly seven eighths of the cap, and what is dropped ranks below everything
  that is kept: records by how often and how recently they were selected, affinities by
  their count, ties by the key.
\<close>

theorem history_bounded_and_lossless:
  assumes "history_reachable h"
  shows "length (sh_entries h) \<le> max_item_records \<and> length (sh_query_counts h) \<le> max_query_affinities
    \<and> distinct (map fst (sh_entries h)) \<and> distinct (map fst (sh_query_counts h))
    \<and> (\<forall>e \<in> set (sh_entries h). item_key_fits (fst (fst e)) (snd (fst e)))
    \<and> (\<forall>e \<in> set (sh_query_counts h). affinity_key_fits (fst (snd (fst e))) (snd (snd (fst e))) (fst (fst e)))
    \<and> from_snapshot (sh_snapshot h) = h
    \<and> (bt_ok m \<longrightarrow> set (evict_entries m) \<subseteq> set m
        \<and> length (evict_entries m) = (if max_item_records < length m then max_item_records - max_item_records div 8 else length m)
        \<and> (\<forall>e \<in> set (evict_entries m). \<forall>d \<in> set m - set (evict_entries m).
             (he_frequency (snd d), he_last_selected_secs (snd d), fst d) < (he_frequency (snd e), he_last_selected_secs (snd e), fst e)))
    \<and> (bt_ok n \<longrightarrow> set (evict_query_counts n) \<subseteq> set n
        \<and> length (evict_query_counts n) = (if max_query_affinities < length n then max_query_affinities - max_query_affinities div 8 else length n)
        \<and> (\<forall>e \<in> set (evict_query_counts n). \<forall>d \<in> set n - set (evict_query_counts n). (snd d, fst d) < (snd e, fst e)))"
proof -
  have ok: "history_ok h" using assms by (rule reachable_ok)
  have caps: "max_item_records - max_item_records div 8 = 3584" "max_query_affinities - max_query_affinities div 8 = 7168"
    by (simp_all add: max_item_records_def max_query_affinities_def)
  have "set (evict_entries m) \<subseteq> set m" if "bt_ok m"
    using evict_entries_filter [OF bt_distinct [OF that]] by auto
  moreover have "set (evict_query_counts n) \<subseteq> set n" if "bt_ok n"
    using evict_counts_filter [OF bt_distinct [OF that]] by auto
  ultimately have "bt_ok m \<longrightarrow> set (evict_entries m) \<subseteq> set m
        \<and> length (evict_entries m) = (if max_item_records < length m then 3584 else length m)
        \<and> (\<forall>e \<in> set (evict_entries m). \<forall>d \<in> set m - set (evict_entries m). entry_rank d < entry_rank e)"
    and "bt_ok n \<longrightarrow> set (evict_query_counts n) \<subseteq> set n
        \<and> length (evict_query_counts n) = (if max_query_affinities < length n then 7168 else length n)
        \<and> (\<forall>e \<in> set (evict_query_counts n). \<forall>d \<in> set n - set (evict_query_counts n). count_rank d < count_rank e)"
    using evict_entries_length evict_counts_length evict_entries_least evict_counts_least bt_distinct by metis+
  moreover have "length (sh_entries h) \<le> max_item_records \<and> length (sh_query_counts h) \<le> max_query_affinities
    \<and> distinct (map fst (sh_entries h)) \<and> distinct (map fst (sh_query_counts h))
    \<and> (\<forall>e \<in> set (sh_entries h). item_key_fits (fst (fst e)) (snd (fst e)))
    \<and> (\<forall>e \<in> set (sh_query_counts h). affinity_key_fits (fst (snd (fst e))) (snd (snd (fst e))) (fst (fst e)))"
    using ok by (auto simp: history_ok_def keys_ok_def bt_distinct)
  ultimately show ?thesis
    unfolding caps entry_rank_def count_rank_def using snapshot_restores [OF ok] by blast
qed

theorem history_bounded_and_lossless_witness:
  "from_snapshot (sh_snapshot (sh_record demo_ranked_item ''ch'' 5 default_selection_history))
     = sh_record demo_ranked_item ''ch'' 5 default_selection_history
   \<and> length (sh_entries (sh_record demo_ranked_item ''ch'' 5 default_selection_history)) \<le> max_item_records"
  using history_bounded_and_lossless [OF history_reachable.recorded [OF history_reachable.fresh], of demo_ranked_item "''ch''" 5]
  by blast

text \<open>
  C35: The affinity of an item to what has been typed counts every selection made under that
  text or a continuation of it, and no other: the walk over a range of the ordered map finds
  exactly the recorded queries that start with the text, and the count is their sum, capped at
  the largest 32-bit number. Nothing has affinity to an empty query.
\<close>

theorem affinity_counts_continuations:
  assumes "history_reachable h"
  shows "count_for (affinities_for h q) i =
    (let ns = [n. ((recorded, plugin, sid), n) \<leftarrow> sh_query_counts h,
                  q \<noteq> [] \<and> starts_with recorded q \<and> plugin = it_plugin_id i \<and> sid = it_stable_id i]
     in if ns = [] then None else Some (of_nat (min (sum_list (map unat ns)) (2 ^ 32 - 1))))"
proof (cases "q = []")
  case True
  then have "[n. ((recorded, plugin, sid), n) \<leftarrow> sh_query_counts h,
      q \<noteq> [] \<and> starts_with recorded q \<and> plugin = it_plugin_id i \<and> sid = it_stable_id i] = []"
    by (auto split: prod.splits)
  then show ?thesis using True by (simp only: affinities_for_def count_for_def Let_def) simp
next
  case False
  let ?k = "(it_plugin_id i, it_stable_id i)" and ?m = "sh_query_counts h"
  let ?ns = "map snd (filter (\<lambda>e. snd (fst e) = ?k) (filter (\<lambda>((recorded, _, _), _). starts_with recorded q) ?m))"
  have ns: "[n. ((recorded, plugin, sid), n) \<leftarrow> m,
      q \<noteq> [] \<and> starts_with recorded q \<and> plugin = it_plugin_id i \<and> sid = it_stable_id i]
      = map snd (filter (\<lambda>e. snd (fst e) = ?k) (filter (\<lambda>((recorded, _, _), _). starts_with recorded q) m))"
    for m :: "(query_key \<times> u32) list"
    using False by (induction m) auto
  have "bt_ok ?m" using reachable_ok [OF assms] by (simp add: history_ok_def keys_ok_def)
  from affinity_range [OF this, of q] have "count_for (affinities_for h q) i = (if ?ns = [] then None else Some (foldl sat_add 0 ?ns))"
    using False totals_lookup [of "[]" "filter (\<lambda>((recorded, _, _), _). starts_with recorded q) ?m" ?k]
    by (simp add: affinities_for_def count_for_def bt_ok_def)
  moreover have "foldl sat_add 0 ?ns = of_nat (min (sum_list (map unat ?ns)) (2 ^ 32 - 1))"
  proof -
    have inv: "of_nat (unat w) = w" for w :: u32 by simp
    have sum: "unat (foldl sat_add 0 ?ns) = min (sum_list (map unat ?ns)) (2 ^ 32 - 1)"
      using foldl_sat_add [of "0 :: u32" ?ns] by simp
    show ?thesis by (rule inv [of "foldl sat_add 0 ?ns", unfolded sum, symmetric])
  qed
  ultimately show ?thesis unfolding ns by (simp add: Let_def)
qed

definition demo_history :: selection_history where
  "demo_history = sh_record demo_ranked_item ''cha'' 5 (sh_record demo_ranked_item ''ch'' 4 default_selection_history)"

lemma demo_keys_fit:
  assumes "utf8_len q \<le> 100"
  shows "affinity_key_fits ''files'' ''notes'' q" "item_key_fits ''files'' ''notes''"
proof -
  have "utf8_len ''files'' = 5" "utf8_len ''notes'' = 5" by code_simp+
  then have sizes: "usize_sat_add (utf8_len ''files'') (utf8_len ''notes'') = 10" "usize_sat_add 10 (utf8_len q) = 10 + utf8_len q"
    using assms by (simp_all add: usize_sat_add_def usize_max_def)
  show "item_key_fits ''files'' ''notes''" by (simp add: item_key_fits_def sizes max_item_key_bytes_def)
  with assms show "affinity_key_fits ''files'' ''notes'' q"
    by (simp add: affinity_key_fits_def sizes max_affinity_key_bytes_def)
qed

lemma evict_within:
  "length (sh_entries h) \<le> max_item_records \<Longrightarrow> length (sh_query_counts h) \<le> max_query_affinities \<Longrightarrow> evict_to_capacity h = h"
  by (simp add: evict_to_capacity_def evict_entries_def evict_query_counts_def)

lemma bt_update_within: "length m < n \<Longrightarrow> length (bt_update k v f m) \<le> n"
  unfolding bt_update_def by (rule le_trans [OF bt_insert_length]) simp

lemma demo_record:
  assumes "utf8_len q \<le> 100" "length (sh_entries h) < max_item_records" "length (sh_query_counts h) < max_query_affinities"
  shows "sh_record demo_ranked_item q now h = h\<lparr>sh_entries := bt_update (''files'', ''notes'') \<lparr>he_frequency = 0, he_last_selected_secs = None\<rparr>
          (\<lambda>e. e\<lparr>he_frequency := sat_add (he_frequency e) 1, he_last_selected_secs := Some now\<rparr>) (sh_entries h),
      sh_query_counts := bt_update (q, ''files'', ''notes'') 0 (\<lambda>n. sat_add n 1) (sh_query_counts h)\<rparr>"
proof -
  have "it_plugin_id demo_ranked_item = ''files''" "it_stable_id demo_ranked_item = ''notes''" by (simp_all add: demo_ranked_item_def)
  then show ?thesis
    using assms demo_keys_fit [OF assms(1)] by (simp add: sh_record_def Let_def evict_within bt_update_within)
qed

lemma demo_history_counts:
  "sh_query_counts demo_history = [((''ch'', ''files'', ''notes''), 1), ((''cha'', ''files'', ''notes''), 1)]"
proof -
  have "utf8_len ''ch'' \<le> 100" "utf8_len ''cha'' \<le> 100" by code_simp+
  then show ?thesis
    by (simp add: demo_history_def demo_record default_selection_history_def max_item_records_def max_query_affinities_def
      bt_update_def sat_add_def)
qed

theorem affinity_counts_continuations_witness:
  "count_for (affinities_for demo_history ''c'') demo_ranked_item = Some 2
   \<and> count_for (affinities_for demo_history ''cha'') demo_ranked_item = Some 1"
proof -
  have "history_reachable demo_history" unfolding demo_history_def by (intro history_reachable.intros)
  note counts = affinity_counts_continuations [OF this, of _ demo_ranked_item, unfolded demo_history_counts]
  show ?thesis unfolding counts by (simp add: demo_ranked_item_def starts_with_def)
qed

end
