(* ===== verification/Spec2Isabelle.thy ===== *)
theory Spec2Isabelle
  imports Debounce Obsolete_Work Scheduler_Liveness Aggregator_Props Intake_Props Supervisor_Props
    Manifest_Policy Pipeline_Props Transport Selection_History
begin

text \<open>
  \<^bold>\<open>Crikey: the query path of a keyboard launcher.\<close>

  Crikey is a launcher: the user types, every plugin that wants the query is asked for
  suggestions, and the answers are merged into one list. The program is a Rust workspace
  under \<open>crates/\<close>; this development models the part that decides what is asked, when,
  of whom, and what becomes of the answers. It works as follows.

  \<^item> A keystroke opens a new \<^emph>\<open>generation\<close>; everything older is stale from then on.
  \<^item> The \<^emph>\<open>scheduler\<close> debounces the query for each plugin, queues a request where the plugin's
    activation rules admit it, and on each tick hands out requests within its budgets.
  \<^item> The \<^emph>\<open>pipeline\<close> admits each request against the plugin's concurrency budget, which it
    shares with the plugin's host, and tracks it until it completes, aborts or is cancelled.
  \<^item> Batches of results enter a bounded \<^emph>\<open>intake\<close>, are drained round-robin into the
    \<^emph>\<open>aggregator\<close>, and are presented as rows that do not move while a query is on screen.
  \<^item> The \<^emph>\<open>supervisor\<close> keeps each plugin's lifecycle, circuit breaker and health counters.

  \<^bold>\<open>Theories and sources.\<close>

  \<^item> \<open>Crikey_Prelude\<close>: saturating and checked machine arithmetic, the size type, keyed
    tables, and the locales \<open>monotone_clock\<close> and \<open>bounded_log\<close>.
  \<^item> \<open>Generations\<close> (\<open>crikey-core/src/generation.rs\<close>, \<open>error.rs\<close>), \<open>Items\<close> (\<open>item.rs\<close>, \<open>action.rs\<close>),
    \<open>Activation\<close> (\<open>activation.rs\<close>).
  \<^item> \<open>Debounce\<close>, \<open>Obsolete_Work\<close> (\<open>crikey-input-scheduler/src/debounce.rs\<close>, \<open>legacy.rs\<close>).
  \<^item> \<open>Scheduler_Model\<close> (\<open>crikey-input-scheduler/src/runtime.rs\<close>, \<open>profile.rs\<close>): the record
    \<open>query_scheduler\<close> and every operation of \<open>QueryScheduler\<close>. \<open>Scheduler_Frame\<close> says what each
    bookkeeping step leaves alone, \<open>Scheduler_Inv\<close> has the invariant, \<open>Scheduler_Tick\<close> the
    specification of a tick, \<open>Scheduler\<close> the step relation and its reachable states,
    \<open>Scheduler_Dispatch\<close> what follows for dispatches, \<open>Scheduler_Liveness\<close> that no plugin
    starves and no deadline is missed, \<open>Scheduler_Flight\<close> what the pipeline relies on.
  \<^item> \<open>Generation_Gate\<close>: the locale of a component that holds the generation gate; interpreted
    by the aggregator and the intake.
  \<^item> \<open>Aggregator\<close>, \<open>Aggregator_Props\<close> (\<open>crikey-result-aggregator/src/lib.rs\<close>).
  \<^item> \<open>Intake\<close> (\<open>crikey-result-aggregator/src/intake.rs\<close>), with its invariant (\<open>Intake_Inv\<close>),
    taking entries (\<open>Intake_Take\<close>), submission against a reference (\<open>Intake_Submit\<close>),
    draining (\<open>Intake_Drain\<close>) and the properties of its runs (\<open>Intake_Props\<close>).
  \<^item> \<open>Concurrency\<close>, \<open>Supervisor\<close>, \<open>Supervisor_Props\<close> (\<open>crikey-plugin-supervisor/src\<close>).
  \<^item> \<open>Manifest_Policy\<close> (\<open>crikey-plugin-model/src/scheduling.rs\<close>, \<open>permissions.rs\<close>, and the query,
    scheduling and permission sections of \<open>manifest.rs\<close> and \<open>lib.rs\<close>).
  \<^item> \<open>Query_Pipeline\<close> (\<open>crikey-app/src/query_pipeline.rs\<close>): the composition of all of the above.
    \<open>Pipeline_Inv\<close>, \<open>Pipeline_Slots\<close>, \<open>Pipeline_Steps\<close> state its invariant, \<open>Pipeline_Drain\<close>,
    \<open>Pipeline_Ops\<close>, \<open>Pipeline_Serve\<close>, \<open>Pipeline_Registry\<close> prove it for every operation, and
    \<open>Pipeline_Props\<close> has the machine and its properties.

  \<^item> \<open>Wire\<close> (\<open>crikey-native-protocol/src/wire.rs\<close>), \<open>Wire_Message\<close>, \<open>Messages\<close>, \<open>Envelopes\<close>
    (\<open>message.rs\<close>): the proto3 codec of the native plugin protocol with its decode budget, every
    enumeration and message, and the envelope. For a message \<open>X\<close> there are the record \<open>w_X\<close>,
    its default, \<open>encode_w_X\<close>, the arms of its decoder \<open>w_X_field\<close> and \<open>read_w_X\<close>. \<open>Wire_Parse\<close>
    relates the reader to a parser on lists, \<open>Wire_Codec\<close> has the locale of a codec, which
    \<open>Message_Codec\<close> and \<open>Envelope_Codec\<close> interpret for every message, \<open>Wire_Heap\<close> the locale
    of a decoder that pays for what it builds, interpreted by \<open>Message_Heap\<close> and
    \<open>Envelope_Heap\<close>; \<open>Batch_Sizing\<close> is about \<open>max_decodable_items\<close> and \<open>Protocol_Props\<close> has the
    properties.
  \<^item> \<open>Frames\<close> (\<open>frame.rs\<close>, and the endpoint of \<open>lib.rs\<close>), \<open>Transport\<close> (\<open>transport.rs\<close>): the frame
    writer, the resumable frame reader as partial functions over any reader, the locale of a
    stream that keeps the contract of \<open>Read\<close> with an instance that stalls at will, and the framed
    connection.
  \<^item> \<open>Float32\<close>: IEEE single precision, rounding to nearest even on rational numbers. \<open>Ranking\<close>
    and \<open>Selection_History\<close> (\<open>crikey-ranking/src/lib.rs\<close>, and the types of a match from
    \<open>crikey-query/src/lib.rs\<close>): the ranker, and the record of past selections with its locale of
    a store that evicts by rank.

  \<^bold>\<open>How the code is translated.\<close> A struct is a record, an enum a datatype, a method a
  function from the old state to the new one, a \<open>Result\<close> a sum with the error on the left, a
  panic (\<open>expect\<close>, an index out of range, an arithmetic overflow that would panic) the value
  \<open>None\<close>: the operations of the intake, submission and draining alike, return \<open>None\<close> at each
  \<open>expect\<close> on a queue that is gone, at a front entry that is gone and at a count that would fall
  below zero, and the pipeline passes it on. A method that writes through \<open>&mut\<close> and leaves early
  with an error returns the record as it stands at that point together with the error; nothing
  is rolled back. Times and generations are 64-bit words with the saturating or checked operation
  the source names. A \<open>usize\<close> is a natural number; where the source saturates or checks, so
  does the model, at \<open>usize_max\<close>. Maps are association lists, in insertion order where the
  source keeps an order and in key order for a \<open>BTreeMap\<close>. An \<open>Arc\<close> of a concurrency budget is a
  handle into a heap of budgets, so that the sharing between the pipeline and the hosts is
  visible. The compare-and-swap loop of a budget is modelled as interleaved steps of
  contenders. Query text is a list of characters of one byte; the only properties of text the
  code uses (emptiness, length in characters, ASCII case, prefixes, white space) do not depend on
  more. The regular-expression engine, the icon resolver and the clock are arguments of the
  definitions that use them. In the protocol theories text is the list of its UTF-8 bytes, a float
  its bit pattern, and the sizes of the types the decoder charges for are the record
  \<open>layout\<close>, an argument; unknown fields are kept as the list of raw fields whose concatenation
  the source stores, which determines the capacity of its buffer. An allocation is assumed to
  succeed and to reserve exactly what is asked. In the ranking theories a finite float is the
  rational number it stands for and every operation rounds; the two zeros are one, as the source
  makes them before it compares, and overflow to an infinity does not occur, all magnitudes being
  below those of 64-bit integers.

  \<^bold>\<open>What is shown.\<close> Stale results are rejected and never reach the list; ticks refine a
  specification (the eligible plugins in rotation, within the budgets); queues and logs are
  bounded in every reachable state; a request is dispatched at most once; no plugin starves
  and no batch waits for ever; the aggregator and the intake agree with reference definitions
  that have none of their bookkeeping; a concurrency budget is never oversubscribed under any
  interleaving; an open circuit breaker stays open for its cooldown, and a supervisor operation
  that fails has written nothing before it fails; a debounced query is dispatched within the
  maximum wait however fast the typing; a scheduler's tick before the wakeup it announced, on its own clock, makes
  nothing ready; a validated manifest resolves to a coherent policy with every declared pattern.
  For the composed pipeline: no sequence of calls reaches one of its panics or of the intake's, the
  slots taken in a plugin's budget are exactly its requests in the air, and the drain loop of
  \<open>present_drained\<close> ends with nothing waiting. For the protocol: every envelope within the
  limits is read back as it was sent, no bytes make the decoder build more than its budget,
  a batch cut by \<open>max_decodable_items\<close> is decodable and as long as it can be unless its first item
  alone is too large, and what is
  sent over a connection arrives in order however the stream stalls. For ranking: better
  signals never lower a score within a stated range, outside which they can; the bound by
  which candidates are pruned is one; the selection history stays within its caps, gives up
  its lowest ranks first in both of its tables, survives saving, and finds exactly the selections made under continuations of a query.

  \<^bold>\<open>Bounds and hypotheses.\<close> Fuel occurs once, in the rounds of \<open>present_drained\<close>, where the
  source has the same bound; that it is enough is proved. A query can be opened while the
  generation counter is not at its maximum, which the source checks. Sizes in a configuration
  are machine sizes.

  \<^bold>\<open>Not modelled.\<close> TOML parsing of manifests and the configuration sections (text formats of
  a library); process, socket and window handling of the hosts, the platform crates and the
  user interface (effects of the operating system); the package manager, the sandbox and
  the command line, which do not touch the query path; the catalog,
  which is a database, and the Unicode normalisation and matching of labels.
\<close>

end
